(* ===== verification/Prelude.thy ===== *)
theory Prelude
  imports Main "HOL-Library.Word" "HOL-Library.State_Monad"
begin

text \<open>
  Shared vocabulary of the development: the proof collections, the byte-string helpers the
  components use (\<open>std::tolower\<close>, \<open>std::isspace\<close>, \<open>std::to_string\<close>, prefix and search
  functions of \<open>std::string_view\<close>), sub-list counting lemmas, and the run rules of the state
  monad in which the coroutines of the application layer are written.
\<close>

named_theorems run_simps \<open>rules that run a state-monad program on a concrete world\<close>
named_theorems char_simps \<open>classification of bytes\<close>

subsection \<open>Bytes and strings\<close>

text \<open>A C++ \<open>char\<close> is a byte; \<open>unsigned char\<close> conversions read it as a number below 256.\<close>

abbreviation byte_of :: "char \<Rightarrow> nat" where
  "byte_of c \<equiv> of_char c"

definition is_space :: "char \<Rightarrow> bool" where
  "is_space c = (byte_of c = 32 \<or> (9 \<le> byte_of c \<and> byte_of c \<le> 13))"

definition to_lower :: "char \<Rightarrow> char" where
  "to_lower c = (if 65 \<le> byte_of c \<and> byte_of c \<le> 90 then char_of (byte_of c + 32) else c)"

definition is_digit :: "char \<Rightarrow> bool" where
  "is_digit c = (48 \<le> byte_of c \<and> byte_of c \<le> 57)"

definition digit_val :: "char \<Rightarrow> nat" where
  "digit_val c = byte_of c - 48"

definition digit_char :: "nat \<Rightarrow> char" where
  "digit_char d = char_of (48 + d)"

lemma byte_of_less [simp]: "byte_of c < 256"
  by (cases c) simp

lemma to_lower_idem [simp]: "to_lower (to_lower c) = to_lower c"
  by (simp add: to_lower_def)

lemma byte_of_digit_char [char_simps]: "d < 10 \<Longrightarrow> byte_of (digit_char d) = 48 + d"
  by (simp add: digit_char_def)

lemma is_digit_digit_char [char_simps]: "d < 10 \<Longrightarrow> is_digit (digit_char d)"
  by (simp add: is_digit_def byte_of_digit_char)

lemma digit_val_digit_char [char_simps]: "d < 10 \<Longrightarrow> digit_val (digit_char d) = d"
  by (simp add: digit_val_def byte_of_digit_char)

lemma is_space_to_lower [simp]: "is_space (to_lower c) = is_space c"
  by (simp add: is_space_def to_lower_def)

text \<open>Decimal rendering of integers, as \<open>std::to_string\<close> and the \<open>{}\<close> placeholder print them.\<close>

fun nat_digits :: "nat \<Rightarrow> string" where
  "nat_digits n = (if n < 10 then [digit_char n] else nat_digits (n div 10) @ [digit_char (n mod 10)])"

declare nat_digits.simps [simp del]

definition newline :: string where
  "newline = [CHR 0x0A]"

definition int_to_string :: "int \<Rightarrow> string" where
  "int_to_string i = (if i < 0 then CHR ''-'' # nat_digits (nat (- i)) else nat_digits (nat i))"

fun digits_val :: "string \<Rightarrow> nat" where
  "digits_val [] = 0"
| "digits_val (c # cs) = digit_val c * 10 ^ length cs + digits_val cs"

lemma digits_val_append [simp]:
  "digits_val (xs @ ys) = digits_val xs * 10 ^ length ys + digits_val ys"
  by (induction xs) (auto simp: power_add algebra_simps)

lemma nat_digits_val [simp]: "digits_val (nat_digits n) = n"
proof (induction n rule: nat_digits.induct)
  case (1 n)
  then show ?case
    by (subst nat_digits.simps) (auto simp: char_simps)
qed

lemma nat_digits_digits: "c \<in> set (nat_digits n) \<Longrightarrow> is_digit c"
proof (induction n rule: nat_digits.induct)
  case (1 n)
  then show ?case
    by (subst (asm) (2) nat_digits.simps) (auto simp: char_simps split: if_splits)
qed

lemma nat_digits_nonempty [simp]: "nat_digits n \<noteq> []"
  by (subst nat_digits.simps) simp

subsection \<open>State monad\<close>

text \<open>
  A coroutine of the application layer is a value of type \<open>('w, 'a) state\<close>: it takes the world
  and returns its result with the world after every call it awaited.
\<close>

definition get_state :: "('w, 'w) state" where
  "get_state = State (\<lambda>w. (w, w))"

definition put_state :: "'w \<Rightarrow> ('w, unit) state" where
  "put_state w = State (\<lambda>_. ((), w))"

lemma run_bind [run_simps]:
  "run_state (State_Monad.bind m f) w = (case run_state m w of (a, w') \<Rightarrow> run_state (f a) w')"
  by (cases m) (simp add: State_Monad.bind_def split: prod.splits)

lemma run_return [run_simps]: "run_state (State_Monad.return a) w = (a, w)"
  by (simp add: State_Monad.return_def)

lemma run_State [run_simps]: "run_state (State f) w = f w"
  by simp

text \<open>What holds of the result and the world after a coroutine, computed backwards over its calls.\<close>

definition wp :: "('w, 'a) state \<Rightarrow> ('a \<Rightarrow> 'w \<Rightarrow> bool) \<Rightarrow> 'w \<Rightarrow> bool" where
  "wp m Q w = (case run_state m w of (a, w') \<Rightarrow> Q a w')"

lemma wp_return [simp]: "wp (State_Monad.return a) Q = Q a"
  by (rule ext) (simp add: wp_def run_simps)

lemma wp_bind [simp]: "wp (State_Monad.bind m f) Q = wp m (\<lambda>a. wp (f a) Q)"
  by (rule ext) (simp add: wp_def run_simps split: prod.splits)

lemma wp_case_prod [simp]: "wp (case x of (a, b) \<Rightarrow> m a b) Q = (case x of (a, b) \<Rightarrow> wp (m a b) Q)"
  by (cases x) simp

lemma wp_mono: "wp m Q w \<Longrightarrow> (\<And>a w'. Q a w' \<Longrightarrow> R a w') \<Longrightarrow> wp m R w"
  by (auto simp: wp_def split: prod.splits)

lemma wp_run: "wp m Q w \<Longrightarrow> run_state m w = (a, w') \<Longrightarrow> Q a w'"
  by (simp add: wp_def)

lemma wp_if: "(b \<Longrightarrow> wp m Q w) \<Longrightarrow> (\<not> b \<Longrightarrow> wp m' Q w) \<Longrightarrow> wp (if b then m else m') Q w"
  by simp

end
