(* ===== verification/Errors.thy ===== *)
theory Errors
  imports Prelude
begin

text \<open>
  The error model of \<open>include/cmlb/core/error.hpp\<close>: the error codes, \<open>AppError\<close> and
  \<open>Result\<close>, the two label tables (\<open>error_code_name\<close> in \<open>src/core/error.cpp\<close> and
  \<open>friendly_error_label\<close> in \<open>src/core/formatting.cpp\<close>) and the log-level parser. The source
  location an \<open>AppError\<close> carries for the log is not part of the model.
\<close>

datatype error_code =
    EC_None
  | EC_InvalidArgument
  | EC_InvalidConfiguration
  | EC_InvalidState
  | EC_NotFound
  | EC_AlreadyExists
  | EC_PermissionDenied
  | EC_Unauthenticated
  | EC_Cancelled
  | EC_DeadlineExceeded
  | EC_ResourceExhausted
  | EC_QuotaExceeded
  | EC_Network
  | EC_Timeout
  | EC_Io
  | EC_FileSystem
  | EC_Serialization
  | EC_Deserialization
  | EC_JsonParse
  | EC_TelegramApi
  | EC_Aria2Rpc
  | EC_QbittorrentApi
  | EC_GoogleDriveApi
  | EC_RcloneInvocation
  | EC_Database
  | EC_Migration
  | EC_SubprocessFailed
  | EC_MediaProcessing
  | EC_ArchiveProcessing
  | EC_Internal
  | EC_Unknown

record app_error =
  err_code :: error_code
  err_message :: string

type_synonym 'a res = "app_error + 'a"

definition mk_error :: "error_code \<Rightarrow> string \<Rightarrow> app_error" where
  "mk_error c m = \<lparr>err_code = c, err_message = m\<rparr>"

lemma mk_error_sel [simp]: "err_code (mk_error c m) = c" "err_message (mk_error c m) = m"
  by (simp_all add: mk_error_def)

lemma mk_error_inject [simp]: "mk_error c m = mk_error c' m' \<longleftrightarrow> c = c' \<and> m = m'"
  by (simp add: mk_error_def)

fun error_code_name :: "error_code \<Rightarrow> string" where
  "error_code_name EC_None = ''None''"
| "error_code_name EC_InvalidArgument = ''InvalidArgument''"
| "error_code_name EC_InvalidConfiguration = ''InvalidConfiguration''"
| "error_code_name EC_InvalidState = ''InvalidState''"
| "error_code_name EC_NotFound = ''NotFound''"
| "error_code_name EC_AlreadyExists = ''AlreadyExists''"
| "error_code_name EC_PermissionDenied = ''PermissionDenied''"
| "error_code_name EC_Unauthenticated = ''Unauthenticated''"
| "error_code_name EC_Cancelled = ''Cancelled''"
| "error_code_name EC_DeadlineExceeded = ''DeadlineExceeded''"
| "error_code_name EC_ResourceExhausted = ''ResourceExhausted''"
| "error_code_name EC_QuotaExceeded = ''QuotaExceeded''"
| "error_code_name EC_Network = ''Network''"
| "error_code_name EC_Timeout = ''Timeout''"
| "error_code_name EC_Io = ''Io''"
| "error_code_name EC_FileSystem = ''FileSystem''"
| "error_code_name EC_Serialization = ''Serialization''"
| "error_code_name EC_Deserialization = ''Deserialization''"
| "error_code_name EC_JsonParse = ''JsonParse''"
| "error_code_name EC_TelegramApi = ''TelegramApi''"
| "error_code_name EC_Aria2Rpc = ''Aria2Rpc''"
| "error_code_name EC_QbittorrentApi = ''QbittorrentApi''"
| "error_code_name EC_GoogleDriveApi = ''GoogleDriveApi''"
| "error_code_name EC_RcloneInvocation = ''RcloneInvocation''"
| "error_code_name EC_Database = ''Database''"
| "error_code_name EC_Migration = ''Migration''"
| "error_code_name EC_SubprocessFailed = ''SubprocessFailed''"
| "error_code_name EC_MediaProcessing = ''MediaProcessing''"
| "error_code_name EC_ArchiveProcessing = ''ArchiveProcessing''"
| "error_code_name EC_Internal = ''Internal''"
| "error_code_name EC_Unknown = ''Unknown''"

fun friendly_error_label :: "error_code \<Rightarrow> string" where
  "friendly_error_label EC_None = ''OK''"
| "friendly_error_label EC_InvalidArgument = ''Invalid argument''"
| "friendly_error_label EC_InvalidConfiguration = ''Invalid configuration''"
| "friendly_error_label EC_InvalidState = ''Invalid state''"
| "friendly_error_label EC_NotFound = ''Not found''"
| "friendly_error_label EC_AlreadyExists = ''Already exists''"
| "friendly_error_label EC_PermissionDenied = ''Permission denied''"
| "friendly_error_label EC_Unauthenticated = ''Authentication required''"
| "friendly_error_label EC_Cancelled = ''Cancelled''"
| "friendly_error_label EC_DeadlineExceeded = ''Deadline exceeded''"
| "friendly_error_label EC_ResourceExhausted = ''Resource exhausted''"
| "friendly_error_label EC_QuotaExceeded = ''Quota exceeded''"
| "friendly_error_label EC_Network = ''Network error''"
| "friendly_error_label EC_Timeout = ''Timed out''"
| "friendly_error_label EC_Io = ''I/O error''"
| "friendly_error_label EC_FileSystem = ''Filesystem error''"
| "friendly_error_label EC_Serialization = ''Serialization failed''"
| "friendly_error_label EC_Deserialization = ''Deserialization failed''"
| "friendly_error_label EC_JsonParse = ''Invalid JSON''"
| "friendly_error_label EC_TelegramApi = ''Telegram error''"
| "friendly_error_label EC_Aria2Rpc = ''aria2 error''"
| "friendly_error_label EC_QbittorrentApi = ''qBittorrent error''"
| "friendly_error_label EC_GoogleDriveApi = ''Google Drive error''"
| "friendly_error_label EC_RcloneInvocation = ''rclone error''"
| "friendly_error_label EC_Database = ''Database error''"
| "friendly_error_label EC_Migration = ''Schema migration failed''"
| "friendly_error_label EC_SubprocessFailed = ''Helper process failed''"
| "friendly_error_label EC_MediaProcessing = ''Media processing failed''"
| "friendly_error_label EC_ArchiveProcessing = ''Archive processing failed''"
| "friendly_error_label EC_Internal = ''Internal error''"
| "friendly_error_label EC_Unknown = ''Error''"

datatype log_level = LL_trace | LL_debug | LL_info | LL_warn | LL_err | LL_critical | LL_off

definition parse_log_level :: "string \<Rightarrow> log_level res" where
  "parse_log_level text =
     (if text = ''trace'' then Inr LL_trace
      else if text = ''debug'' then Inr LL_debug
      else if text = ''info'' then Inr LL_info
      else if text = ''warn'' \<or> text = ''warning'' then Inr LL_warn
      else if text = ''error'' \<or> text = ''err'' then Inr LL_err
      else if text = ''critical'' \<or> text = ''fatal'' then Inr LL_critical
      else if text = ''off'' then Inr LL_off
      else Inl (mk_error EC_InvalidArgument (''unknown log level: '' @ text)))"

subsection \<open>Properties of the label tables\<close>

text \<open>No two codes share a name, so a logged name identifies its code.\<close>

lemma error_code_name_inj: "error_code_name c = error_code_name c' \<longleftrightarrow> c = c'"
  by (cases c; cases c'; simp)

text \<open>Neither table leaves a code without a text.\<close>

lemma friendly_error_label_nonempty: "friendly_error_label c \<noteq> []"
  by (cases c) simp_all

text \<open>
  A code other than \<open>Unknown\<close> never shows the catch-all label, and the labels separate the codes.
\<close>

lemma friendly_error_label_inj: "friendly_error_label c = friendly_error_label c' \<longleftrightarrow> c = c'"
  by (cases c; cases c'; simp)

end
