(* ===== verification/Domain.thy ===== *)
theory Domain
  imports Errors "HOL-Library.Signed_Division"
begin

text \<open>
  The value objects of the domain layer: the strong identifiers of
  \<open>include/cmlb/domain/identifiers.hpp\<close>, the saturating \<open>ByteSize\<close> of
  \<open>include/cmlb/domain/byte_size.hpp\<close>, the permission order and the \<open>Authority\<close> service of
  \<open>src/domain/authority.cpp\<close>, and \<open>UploadDestination\<close> with its parser. \<open>int64_t\<close> values are
  integers with the two's-complement wrap-around written out (\<open>wrap64\<close>).
\<close>

subsection \<open>Identifiers\<close>

datatype chat_id = ChatId (chat_value: int)
datatype user_id = UserId (user_value: int)
datatype message_id = MessageId (message_value: int)
datatype gid = Gid (gid_value: string)
datatype task_id = TaskId (task_value: string)
datatype callback_query_id = CallbackQueryId (callback_value: int)

subsection \<open>ByteSize\<close>

definition int64_max :: int where
  "int64_max = 2 ^ 63 - 1"

definition wrap64 :: "int \<Rightarrow> int" where
  "wrap64 x = (x + 2 ^ 63) mod 2 ^ 64 - 2 ^ 63"

datatype byte_size = ByteSize (bytes: int)

definition from_unchecked :: "int \<Rightarrow> byte_size" where
  "from_unchecked b = ByteSize b"

definition make_byte_size :: "int \<Rightarrow> byte_size res" where
  "make_byte_size b =
     (if b < 0 then Inl (mk_error EC_InvalidArgument ''ByteSize must be non-negative'')
      else Inr (ByteSize b))"

definition byte_size_plus :: "byte_size \<Rightarrow> byte_size \<Rightarrow> byte_size" where
  "byte_size_plus self other =
     (if bytes other > wrap64 (int64_max - bytes self) then ByteSize int64_max
      else ByteSize (wrap64 (bytes self + bytes other)))"

definition byte_size_times :: "byte_size \<Rightarrow> int \<Rightarrow> byte_size" where
  "byte_size_times self factor =
     (if factor \<le> 0 \<or> bytes self = 0 then ByteSize 0
      else let f64 = wrap64 factor in
        if bytes self > wrap64 (int64_max sdiv f64) then ByteSize int64_max
        else ByteSize (wrap64 (bytes self * f64)))"

definition byte_size_inv :: "byte_size \<Rightarrow> bool" where
  "byte_size_inv b = (0 \<le> bytes b \<and> bytes b \<le> int64_max)"

text \<open>\<open>std::stoll\<close>: leading white space, an optional sign, the longest run of digits; \<open>None\<close> is a throw.\<close>

definition stoll :: "string \<Rightarrow> int option" where
  "stoll s =
     (let s = dropWhile is_space s;
          neg = (s \<noteq> [] \<and> hd s = CHR ''-'');
          s = (if s \<noteq> [] \<and> (hd s = CHR ''-'' \<or> hd s = CHR ''+'') then tl s else s);
          ds = takeWhile is_digit s in
      if ds = [] then None
      else let v = (if neg then - int (digits_val ds) else int (digits_val ds)) in
        if - (2 ^ 63) \<le> v \<and> v < 2 ^ 63 then Some v else None)"

lemma wrap64_id: "- (2 ^ 63) \<le> x \<Longrightarrow> x < 2 ^ 63 \<Longrightarrow> wrap64 x = x"
  by (simp add: wrap64_def)

lemma wrap64_high:
  assumes "2 ^ 63 \<le> x" "x < 2 ^ 64"
  shows "wrap64 x = x - 2 ^ 64"
proof -
  have "(x + 2 ^ 63) mod 2 ^ 64 = (x + 2 ^ 63 - 2 ^ 64) mod 2 ^ 64"
    by (simp only: minus_mod_self2)
  also have "\<dots> = x + 2 ^ 63 - 2 ^ 64"
    using assms by (intro mod_pos_pos_trivial) auto
  finally show ?thesis by (simp add: wrap64_def)
qed

lemma int64_max_div_bounds:
  assumes "0 < f"
  shows "0 \<le> int64_max div f" "int64_max div f \<le> int64_max"
proof -
  show "0 \<le> int64_max div f"
    using assms by (simp add: int64_max_def pos_imp_zdiv_nonneg_iff)
  show "int64_max div f \<le> int64_max"
    using assms zdiv_mono2 [of int64_max 1 f] by (simp add: int64_max_def)
qed

lemma make_byte_size_inv:
  "b \<le> int64_max \<Longrightarrow> make_byte_size b = Inr s \<Longrightarrow> byte_size_inv s \<and> bytes s = b"
  by (auto simp: make_byte_size_def byte_size_inv_def split: if_splits)

lemma byte_size_plus_saturates:
  assumes "byte_size_inv a" "byte_size_inv b"
  shows "bytes (byte_size_plus a b) = min int64_max (bytes a + bytes b)"
proof -
  have "wrap64 (int64_max - bytes a) = int64_max - bytes a"
    using assms by (intro wrap64_id) (auto simp: byte_size_inv_def int64_max_def)
  moreover have "bytes a + bytes b \<le> int64_max \<Longrightarrow> wrap64 (bytes a + bytes b) = bytes a + bytes b"
    using assms by (intro wrap64_id) (auto simp: byte_size_inv_def int64_max_def)
  ultimately show ?thesis
    by (auto simp: byte_size_plus_def min_def)
qed

lemma sdiv_max_pos: "0 < f \<Longrightarrow> int64_max sdiv f = int64_max div f"
  by (simp add: signed_divide_int_def int64_max_def)

lemma byte_size_times_signed:
  assumes "byte_size_inv a" "0 < f" "f < 2 ^ 63"
  shows "bytes (byte_size_times a f) = min int64_max (bytes a * f)"
proof (cases "bytes a = 0")
  case True
  with assms show ?thesis by (simp add: byte_size_times_def int64_max_def)
next
  case False
  have w: "wrap64 f = f" using assms by (intro wrap64_id) auto
  have d: "0 \<le> int64_max div f \<and> int64_max div f \<le> int64_max"
    using assms(2) by (simp add: int64_max_div_bounds)
  have wd: "wrap64 (int64_max sdiv f) = int64_max div f"
    using d assms by (subst sdiv_max_pos) (auto intro!: wrap64_id simp: int64_max_def)
  have key: "bytes a \<le> int64_max div f \<longleftrightarrow> bytes a * f \<le> int64_max"
  proof
    assume "bytes a \<le> int64_max div f"
    then have "bytes a * f \<le> int64_max div f * f" using assms by (intro mult_right_mono) auto
    also have "\<dots> \<le> int64_max"
      using assms div_mult_mod_eq [of int64_max f] pos_mod_sign [of f int64_max] by linarith
    finally show "bytes a * f \<le> int64_max" .
  next
    assume "bytes a * f \<le> int64_max"
    from zdiv_mono1 [OF this assms(2)] show "bytes a \<le> int64_max div f" using assms by simp
  qed
  have "bytes a * f \<le> int64_max \<Longrightarrow> wrap64 (bytes a * f) = bytes a * f"
    using assms by (intro wrap64_id) (auto simp: int64_max_def byte_size_inv_def intro: order_trans [of _ 0])
  with key False assms show ?thesis
    by (auto simp: byte_size_times_def w wd min_def Let_def)
qed

lemma byte_size_times_unsigned:
  assumes a: "byte_size_inv a" and f: "2 ^ 63 \<le> f" "f < 2 ^ 64"
  shows "bytes (byte_size_times a f) = min int64_max (bytes a * f)"
proof (cases "bytes a = 0")
  case True
  with f show ?thesis by (simp add: byte_size_times_def int64_max_def)
next
  case False
  with a have pos: "1 \<le> bytes a" by (simp add: byte_size_inv_def)
  have "1 * f \<le> bytes a * f" using pos f by (intro mult_right_mono) auto
  moreover have "int64_max \<le> 1 * f" using f by (simp add: int64_max_def)
  ultimately have big: "int64_max \<le> bytes a * f" by (rule order_trans [rotated])
  let ?g = "wrap64 f"
  have g: "?g < 0" "- (2 ^ 63) \<le> ?g" using f by (simp_all add: wrap64_high)
  have q: "int64_max sdiv ?g = - (int64_max div (- ?g))"
    using g by (simp add: signed_divide_int_def int64_max_def)
  have r: "0 \<le> int64_max div (- ?g)" "int64_max div (- ?g) \<le> int64_max"
    using g by (auto intro: int64_max_div_bounds)
  have "wrap64 (int64_max sdiv ?g) \<le> 0"
    using r unfolding q by (subst wrap64_id) (auto simp: int64_max_def)
  with pos f big False show ?thesis
    by (simp add: byte_size_times_def Let_def min_def)
qed

lemma byte_size_times_nonpos: "f \<le> 0 \<Longrightarrow> bytes (byte_size_times a f) = 0"
  by (simp add: byte_size_times_def)

subsection \<open>Permissions\<close>

datatype permission = Anyone | User | Admin | Owner

fun perm_level :: "permission \<Rightarrow> nat" where
  "perm_level Anyone = 0"
| "perm_level User = 1"
| "perm_level Admin = 2"
| "perm_level Owner = 3"

lemma perm_level_inj [simp]: "perm_level p = perm_level q \<longleftrightarrow> p = q"
  by (cases p; cases q) auto

instantiation permission :: linorder
begin

definition less_eq_permission :: "permission \<Rightarrow> permission \<Rightarrow> bool" where
  "less_eq_permission p q = (perm_level p \<le> perm_level q)"

definition less_permission :: "permission \<Rightarrow> permission \<Rightarrow> bool" where
  "less_permission p q = (perm_level p < perm_level q)"

instance
  by standard (auto simp: less_eq_permission_def less_permission_def)

end

fun permission_to_string :: "permission \<Rightarrow> string" where
  "permission_to_string Anyone = ''anyone''"
| "permission_to_string User = ''user''"
| "permission_to_string Admin = ''admin''"
| "permission_to_string Owner = ''owner''"

definition permission_from_string :: "string \<Rightarrow> permission" where
  "permission_from_string input =
     (let lower = map to_lower input in
      if lower = ''owner'' then Owner
      else if lower = ''admin'' \<or> lower = ''sudo'' then Admin
      else if lower = ''user'' then User
      else Anyone)"

record authority =
  owner :: user_id
  sudo_users :: "user_id list"
  authorized_chats :: "chat_id list"

definition permission_of :: "authority \<Rightarrow> user_id \<Rightarrow> chat_id \<Rightarrow> permission" where
  "permission_of a user chat =
     (if user = owner a then Owner
      else if user \<in> set (sudo_users a) then Admin
      else if chat \<in> set (authorized_chats a) then User
      else Anyone)"

definition can_run :: "authority \<Rightarrow> user_id \<Rightarrow> chat_id \<Rightarrow> permission \<Rightarrow> bool" where
  "can_run a user chat required = (perm_level (permission_of a user chat) \<ge> perm_level required)"

lemma can_run_iff: "can_run a u c r \<longleftrightarrow> r \<le> permission_of a u c"
  by (simp add: can_run_def less_eq_permission_def)

lemma can_run_mono: "can_run a u c r \<Longrightarrow> r' \<le> r \<Longrightarrow> can_run a u c r'"
  by (auto simp: can_run_iff)

lemma can_run_Anyone [simp]: "can_run a u c Anyone"
  by (simp add: can_run_def)

lemma can_run_cases:
  "can_run a u c Owner \<longleftrightarrow> u = owner a"
  "can_run a u c Admin \<longleftrightarrow> u = owner a \<or> u \<in> set (sudo_users a)"
  "can_run a u c User \<longleftrightarrow> u = owner a \<or> u \<in> set (sudo_users a) \<or> c \<in> set (authorized_chats a)"
  by (auto simp: can_run_def permission_of_def)

lemma permission_roundtrip [simp]: "permission_from_string (permission_to_string p) = p"
  by (cases p) (simp_all add: permission_from_string_def to_lower_def)

lemma permission_from_string_privileged:
  "Admin \<le> permission_from_string s \<longleftrightarrow> map to_lower s \<in> {''owner'', ''admin'', ''sudo''}"
  by (auto simp: permission_from_string_def Let_def less_eq_permission_def)

subsection \<open>Upload destinations\<close>

datatype upload_destination = UD_Telegram | UD_GoogleDrive | UD_Rclone

fun destination_to_string :: "upload_destination \<Rightarrow> string" where
  "destination_to_string UD_Telegram = ''telegram''"
| "destination_to_string UD_GoogleDrive = ''gdrive''"
| "destination_to_string UD_Rclone = ''rclone''"

definition parse_upload_destination :: "string \<Rightarrow> upload_destination res" where
  "parse_upload_destination input =
     (let lower = map to_lower input in
      if lower \<in> set [''telegram'', ''tg'', ''leech''] then Inr UD_Telegram
      else if lower \<in> set [''gdrive'', ''googledrive'', ''google_drive'', ''drive''] then Inr UD_GoogleDrive
      else if lower \<in> set [''rclone'', ''mirror''] then Inr UD_Rclone
      else Inl (mk_error EC_InvalidArgument (''Unknown upload destination: '' @ input)))"

lemma destination_roundtrip [simp]: "parse_upload_destination (destination_to_string d) = Inr d"
  by (cases d) (simp_all add: parse_upload_destination_def to_lower_def)

lemma parse_upload_destination_case:
  "map to_lower s = map to_lower s' \<Longrightarrow> parse_upload_destination s = Inr d \<Longrightarrow>
   parse_upload_destination s' = Inr d"
  by (auto simp: parse_upload_destination_def Let_def split: if_splits)

subsection \<open>Properties\<close>

text \<open>
  \<open>ByteSize\<close> arithmetic saturates at the largest 64-bit value and never wraps: addition, and
  multiplication by any positive signed or unsigned 64-bit factor, give the exact result or the
  maximum, and the result is again a valid size.
\<close>

theorem byte_size_saturates:
  assumes "byte_size_inv a" "byte_size_inv b" "0 < f" "f < 2 ^ 64"
  shows "bytes (byte_size_plus a b) = min int64_max (bytes a + bytes b) \<and>
         bytes (byte_size_times a f) = min int64_max (bytes a * f) \<and>
         byte_size_inv (byte_size_plus a b) \<and> byte_size_inv (byte_size_times a f)"
proof -
  have "bytes (byte_size_times a f) = min int64_max (bytes a * f)"
    using byte_size_times_signed [OF assms(1,3)] byte_size_times_unsigned [OF assms(1)] assms(4)
    by (cases "f < 2 ^ 63") auto
  moreover note byte_size_plus_saturates [OF assms(1,2)]
  ultimately show ?thesis using assms by (auto simp: byte_size_inv_def int64_max_def min_def)
qed

theorem byte_size_saturates_witness:
  "bytes (byte_size_plus (from_unchecked int64_max) (from_unchecked 1)) = int64_max \<and>
   bytes (byte_size_times (from_unchecked int64_max) 2) = int64_max"
  using byte_size_saturates [of "from_unchecked int64_max" "from_unchecked 1" 2]
  by (simp add: byte_size_inv_def from_unchecked_def int64_max_def)

text \<open>
  The permission check grants exactly what the configuration says: owner commands to the owner,
  admin commands to the owner and the sudo users, user commands also to everyone in an authorised
  chat, and a command anyone may run to everybody.
\<close>

theorem can_run_exactly:
  "can_run a u c r \<longleftrightarrow>
     (case r of
        Owner \<Rightarrow> u = owner a
      | Admin \<Rightarrow> u = owner a \<or> u \<in> set (sudo_users a)
      | User \<Rightarrow> u = owner a \<or> u \<in> set (sudo_users a) \<or> c \<in> set (authorized_chats a)
      | Anyone \<Rightarrow> True)"
  by (cases r) (simp_all add: can_run_cases)

text \<open>
  Reading a permission name grants admin rights only for the words \<open>owner\<close>, \<open>admin\<close> or \<open>sudo\<close>
  in some letter case, and printing followed by reading is the identity, for permissions and for
  upload destinations.
\<close>

theorem permission_and_destination_names:
  "(Admin \<le> permission_from_string s \<longleftrightarrow> map to_lower s \<in> {''owner'', ''admin'', ''sudo''}) \<and>
   permission_from_string (permission_to_string p) = p \<and>
   parse_upload_destination (destination_to_string d) = Inr d"
  by (simp add: permission_from_string_privileged)

end
