(* ===== verification/Task.thy ===== *)
theory Task
  imports Domain
begin

text \<open>
  The \<open>Task\<close> aggregate of \<open>src/domain/task.cpp\<close>: its state machine, the downloader binding and
  the timestamps. A method that mutates the task and returns \<open>Result<void>\<close> is a function from the
  clock reading and the task to the result and the task afterwards. The lemmas relate the methods
  to the transition diagram of the header: each method performs exactly one edge of the diagram or
  fails with \<open>InvalidState\<close> and leaves the task as it was.
\<close>

subsection \<open>Data\<close>

datatype task_state = Queued | Downloading | Processing | Uploading | Completed | Failed | Cancelled

datatype task_kind = Mirror | Leech | Clone

datatype downloader_kind = DK_None | DK_Aria2 | DK_Qbittorrent

type_synonym systime = int \<comment> \<open>\<open>system_clock\<close> ticks: nanoseconds since the epoch\<close>

record task_metadata =
  md_id :: task_id
  md_user :: user_id
  md_chat :: chat_id
  md_status_message :: message_id
  md_kind :: task_kind
  md_source_url :: string
  md_created_at :: systime
  md_updated_at :: systime

record task =
  metadata :: task_metadata
  state :: task_state
  error_message :: "string option"
  downloader_id :: "gid option"
  downloader_kind :: downloader_kind

fun task_state_to_string :: "task_state \<Rightarrow> string" where
  "task_state_to_string Queued = ''Queued''"
| "task_state_to_string Downloading = ''Downloading''"
| "task_state_to_string Processing = ''Processing''"
| "task_state_to_string Uploading = ''Uploading''"
| "task_state_to_string Completed = ''Completed''"
| "task_state_to_string Failed = ''Failed''"
| "task_state_to_string Cancelled = ''Cancelled''"

fun downloader_kind_to_string :: "downloader_kind \<Rightarrow> string" where
  "downloader_kind_to_string DK_None = ''None''"
| "downloader_kind_to_string DK_Aria2 = ''Aria2''"
| "downloader_kind_to_string DK_Qbittorrent = ''Qbittorrent''"

subsection \<open>Operations\<close>

definition invalid_transition :: "string \<Rightarrow> string \<Rightarrow> app_error" where
  "invalid_transition frm to =
     mk_error EC_InvalidState (''Invalid task transition: '' @ frm @ '' -> '' @ to)"

definition new_task :: "task_metadata \<Rightarrow> task" where
  "new_task md = \<lparr>metadata = md, state = Queued, error_message = None,
                  downloader_id = None, downloader_kind = DK_None\<rparr>"

definition is_terminal :: "task \<Rightarrow> bool" where
  "is_terminal t = (state t = Completed \<or> state t = Failed \<or> state t = Cancelled)"

definition touch :: "systime \<Rightarrow> task \<Rightarrow> task" where
  "touch now t = t\<lparr>metadata := (metadata t)\<lparr>md_updated_at := now\<rparr>\<rparr>"

definition start_download :: "systime \<Rightarrow> task \<Rightarrow> unit res \<times> task" where
  "start_download now t =
     (if state t \<noteq> Queued
      then (Inl (invalid_transition (task_state_to_string (state t)) (task_state_to_string Downloading)), t)
      else (Inr (), touch now (t\<lparr>state := Downloading\<rparr>)))"

definition begin_processing :: "systime \<Rightarrow> task \<Rightarrow> unit res \<times> task" where
  "begin_processing now t =
     (if state t \<noteq> Downloading
      then (Inl (invalid_transition (task_state_to_string (state t)) (task_state_to_string Processing)), t)
      else (Inr (), touch now (t\<lparr>state := Processing\<rparr>)))"

definition begin_upload :: "systime \<Rightarrow> task \<Rightarrow> unit res \<times> task" where
  "begin_upload now t =
     (if state t \<noteq> Downloading \<and> state t \<noteq> Processing
      then (Inl (invalid_transition (task_state_to_string (state t)) (task_state_to_string Uploading)), t)
      else (Inr (), touch now (t\<lparr>state := Uploading\<rparr>)))"

definition mark_completed :: "systime \<Rightarrow> task \<Rightarrow> unit res \<times> task" where
  "mark_completed now t =
     (if state t \<noteq> Uploading
      then (Inl (invalid_transition (task_state_to_string (state t)) (task_state_to_string Completed)), t)
      else (Inr (), touch now (t\<lparr>state := Completed\<rparr>)))"

definition mark_failed :: "systime \<Rightarrow> string \<Rightarrow> task \<Rightarrow> unit res \<times> task" where
  "mark_failed now reason t =
     (if is_terminal t
      then (Inl (invalid_transition (task_state_to_string (state t)) (task_state_to_string Failed)), t)
      else (Inr (), touch now (t\<lparr>error_message := Some reason, state := Failed\<rparr>)))"

definition mark_cancelled :: "systime \<Rightarrow> task \<Rightarrow> unit res \<times> task" where
  "mark_cancelled now t =
     (if is_terminal t
      then (Inl (invalid_transition (task_state_to_string (state t)) (task_state_to_string Cancelled)), t)
      else (Inr (), touch now (t\<lparr>state := Cancelled\<rparr>)))"

definition attach_downloader :: "systime \<Rightarrow> gid \<Rightarrow> downloader_kind \<Rightarrow> task \<Rightarrow> task" where
  "attach_downloader now g k t = touch now (t\<lparr>downloader_id := Some g, downloader_kind := k\<rparr>)"

lemmas task_op_defs =
  start_download_def begin_processing_def begin_upload_def mark_completed_def mark_failed_def
  mark_cancelled_def attach_downloader_def touch_def is_terminal_def

subsection \<open>Sequences of method calls\<close>

datatype task_op =
    StartDownload
  | BeginProcessing
  | BeginUpload
  | MarkCompleted
  | MarkFailed string
  | MarkCancelled
  | AttachDownloader gid downloader_kind

fun apply_op :: "systime \<Rightarrow> task_op \<Rightarrow> task \<Rightarrow> unit res \<times> task" where
  "apply_op now StartDownload t = start_download now t"
| "apply_op now BeginProcessing t = begin_processing now t"
| "apply_op now BeginUpload t = begin_upload now t"
| "apply_op now MarkCompleted t = mark_completed now t"
| "apply_op now (MarkFailed r) t = mark_failed now r t"
| "apply_op now MarkCancelled t = mark_cancelled now t"
| "apply_op now (AttachDownloader g k) t = (Inr (), attach_downloader now g k t)"

fun apply_ops :: "(systime \<times> task_op) list \<Rightarrow> task \<Rightarrow> task" where
  "apply_ops [] t = t"
| "apply_ops ((now, op) # ops) t = apply_ops ops (snd (apply_op now op t))"

subsection \<open>The transition diagram as the abstract specification\<close>

inductive task_edge :: "task_state \<Rightarrow> task_state \<Rightarrow> bool" where
  "task_edge Queued Downloading"
| "task_edge Downloading Processing"
| "task_edge Downloading Uploading"
| "task_edge Processing Uploading"
| "task_edge Uploading Completed"
| "s \<in> {Queued, Downloading, Processing, Uploading} \<Longrightarrow> task_edge s Failed"
| "s \<in> {Queued, Downloading, Processing, Uploading} \<Longrightarrow> task_edge s Cancelled"

inductive_simps task_edge_simps:
  "task_edge Queued s" "task_edge Downloading s" "task_edge Processing s" "task_edge Uploading s"
  "task_edge Completed s" "task_edge Failed s" "task_edge Cancelled s"

fun op_target :: "task_op \<Rightarrow> task_state option" where
  "op_target StartDownload = Some Downloading"
| "op_target BeginProcessing = Some Processing"
| "op_target BeginUpload = Some Uploading"
| "op_target MarkCompleted = Some Completed"
| "op_target (MarkFailed r) = Some Failed"
| "op_target MarkCancelled = Some Cancelled"
| "op_target (AttachDownloader g k) = None"

lemma apply_op_success_iff:
  "op_target op = Some s \<Longrightarrow> fst (apply_op now op t) = Inr () \<longleftrightarrow> task_edge (state t) s"
  by (cases op; cases "state t") (auto simp: task_op_defs task_edge_simps)

lemma apply_op_success_state:
  "op_target op = Some s \<Longrightarrow> fst (apply_op now op t) = Inr () \<Longrightarrow> state (snd (apply_op now op t)) = s"
  by (cases op) (auto simp: task_op_defs split: if_splits)

lemma apply_op_error:
  "fst (apply_op now op t) = Inl e \<Longrightarrow> snd (apply_op now op t) = t \<and> err_code e = EC_InvalidState"
  by (cases op) (auto simp: task_op_defs invalid_transition_def split: if_splits)

lemma apply_op_attach_state [simp]: "state (attach_downloader now g k t) = state t"
  by (simp add: task_op_defs)

lemma task_edge_not_terminal: "task_edge s s' \<Longrightarrow> s \<notin> {Completed, Failed, Cancelled}"
  by (auto elim: task_edge.cases)

lemma apply_op_terminal:
  assumes "is_terminal t"
  shows "state (snd (apply_op now op t)) = state t \<and>
         error_message (snd (apply_op now op t)) = error_message t"
  using assms by (cases op) (auto simp: task_op_defs)

lemma apply_ops_terminal:
  "is_terminal t \<Longrightarrow>
   state (apply_ops ops t) = state t \<and> error_message (apply_ops ops t) = error_message t"
proof (induction ops arbitrary: t)
  case (Cons x ops)
  obtain now op where x: "x = (now, op)" by (cases x)
  have "is_terminal (snd (apply_op now op t))"
    using apply_op_terminal [OF Cons.prems, of now op] Cons.prems by (simp add: is_terminal_def)
  from Cons.IH [OF this] show ?case
    using apply_op_terminal [OF Cons.prems, of now op] by (simp add: x)
qed simp

subsection \<open>Invariant of the aggregate\<close>

text \<open>
  What every task a running bot holds satisfies: an error message is present exactly in the
  \<open>Failed\<close> state, and a downloader id exactly with a real downloader kind. The second half needs
  that \<open>attach_downloader\<close> is called with a real kind, as both of its callers do.
\<close>

definition task_inv :: "task \<Rightarrow> bool" where
  "task_inv t = ((error_message t \<noteq> None) = (state t = Failed) \<and>
                 (downloader_id t \<noteq> None) = (downloader_kind t \<noteq> DK_None))"

definition op_ok :: "task_op \<Rightarrow> bool" where
  "op_ok op = (case op of AttachDownloader g k \<Rightarrow> k \<noteq> DK_None | _ \<Rightarrow> True)"

lemma task_inv_new [simp]: "task_inv (new_task md)"
  by (simp add: task_inv_def new_task_def)

lemma task_inv_apply_op: "task_inv t \<Longrightarrow> op_ok op \<Longrightarrow> task_inv (snd (apply_op now op t))"
  by (cases op) (auto simp: task_inv_def op_ok_def task_op_defs)

lemma task_inv_apply_ops:
  "task_inv t \<Longrightarrow> list_all (op_ok \<circ> snd) ops \<Longrightarrow> task_inv (apply_ops ops t)"
proof (induction ops arbitrary: t)
  case (Cons x ops)
  then show ?case by (cases x) (auto intro: task_inv_apply_op)
qed simp

text \<open>The identifying metadata never changes; only \<open>updated_at\<close> is written.\<close>

lemma apply_op_metadata:
  "\<exists>u. metadata (snd (apply_op now op t)) = (metadata t)\<lparr>md_updated_at := u\<rparr>"
  by (cases op)
    (auto simp: task_op_defs intro: exI [of _ now] exI [of _ "md_updated_at (metadata t)"])

lemma apply_ops_metadata:
  "\<exists>u. metadata (apply_ops ops t) = (metadata t)\<lparr>md_updated_at := u\<rparr>"
proof (induction ops arbitrary: t)
  case Nil
  then show ?case by (auto intro: exI [of _ "md_updated_at (metadata t)"])
next
  case (Cons x ops)
  obtain now op where x: "x = (now, op)" by (cases x)
  obtain u where "metadata (apply_ops ops (snd (apply_op now op t)))
      = (metadata (snd (apply_op now op t)))\<lparr>md_updated_at := u\<rparr>"
    using Cons.IH by blast
  with apply_op_metadata [of now op t] show ?case by (auto simp: x)
qed

text \<open>With a clock that does not run backwards \<open>updated_at\<close> does not either.\<close>

lemma apply_op_updated_at:
  "md_updated_at (metadata t) \<le> now \<Longrightarrow>
   md_updated_at (metadata t) \<le> md_updated_at (metadata (snd (apply_op now op t))) \<and>
   md_updated_at (metadata (snd (apply_op now op t))) \<le> now"
  by (cases op) (auto simp: task_op_defs)

subsection \<open>Completion needs the whole path\<close>

text \<open>The states a task has been in, newest last.\<close>

fun state_history :: "(systime \<times> task_op) list \<Rightarrow> task \<Rightarrow> task_state list" where
  "state_history [] t = [state t]"
| "state_history ((now, op) # ops) t = state t # state_history ops (snd (apply_op now op t))"

lemma state_history_Cons_hd: "\<exists>r. state_history ops t = state t # r"
  by (cases ops) auto

lemma apply_op_step:
  "state (snd (apply_op now op t)) = state t \<or> task_edge (state t) (state (snd (apply_op now op t)))"
  by (cases op; cases "state t") (auto simp: task_op_defs task_edge_simps)

lemma state_history_edges:
  "i + 1 < length (state_history ops t) \<Longrightarrow>
   state_history ops t ! (i + 1) = state_history ops t ! i \<or>
   task_edge (state_history ops t ! i) (state_history ops t ! (i + 1))"
proof (induction ops arbitrary: t i)
  case Nil
  then show ?case by simp
next
  case (Cons x ops)
  obtain now op where x: "x = (now, op)" by (cases x)
  let ?t = "snd (apply_op now op t)"
  obtain r where r: "state_history ops ?t = state ?t # r" using state_history_Cons_hd by blast
  show ?case
  proof (cases i)
    case 0
    then show ?thesis using apply_op_step [of now op t] by (simp add: x r)
  next
    case (Suc j)
    with Cons.prems have "j + 1 < length (state_history ops ?t)" by (simp add: x)
    from Cons.IH [OF this] show ?thesis by (simp add: x Suc)
  qed
qed

lemma completed_passed_through:
  "state (apply_ops ops t) = Completed \<Longrightarrow> state t \<noteq> Completed \<Longrightarrow>
   Uploading \<in> set (state_history ops t) \<and>
   (state t = Queued \<longrightarrow> Downloading \<in> set (state_history ops t))"
proof (induction ops arbitrary: t)
  case Nil
  then show ?case by simp
next
  case (Cons x ops)
  obtain now op where x: "x = (now, op)" by (cases x)
  let ?t = "snd (apply_op now op t)"
  obtain r where r: "state_history ops ?t = state ?t # r" using state_history_Cons_hd by blast
  show ?case
  proof (cases "state ?t = Completed")
    case True
    with apply_op_step [of now op t] Cons.prems(2) have "task_edge (state t) Completed" by auto
    then show ?thesis by (auto simp: x elim: task_edge.cases)
  next
    case False
    have "state (apply_ops ops ?t) = Completed" using Cons.prems(1) by (simp add: x)
    from Cons.IH [OF this False]
    have up: "Uploading \<in> set (state_history ops ?t)"
      and dl: "state ?t = Queued \<longrightarrow> Downloading \<in> set (state_history ops ?t)" by auto
    have "Downloading \<in> set (state_history ops ?t)" if "state t = Queued"
    proof (cases "state ?t = Queued")
      case True
      with dl show ?thesis by simp
    next
      case nq: False
      from up r have nt: "state ?t \<notin> {Failed, Cancelled}"
      proof -
        have "state ?t \<in> {Failed, Cancelled} \<Longrightarrow> state (apply_ops ops ?t) = state ?t"
          using apply_ops_terminal [of ?t ops] by (auto simp: is_terminal_def)
        with \<open>state (apply_ops ops ?t) = Completed\<close> show ?thesis by auto
      qed
      have "task_edge Queued (state ?t)" using apply_op_step [of now op t] that nq by auto
      with nt have "state ?t = Downloading" by (auto simp: task_edge_simps)
      then show ?thesis by (simp add: r)
    qed
    with up show ?thesis by (simp add: x)
  qed
qed

subsection \<open>Properties\<close>

definition example_metadata :: task_metadata where
  "example_metadata = \<lparr>md_id = TaskId ''t1'', md_user = UserId 7, md_chat = ChatId 100,
     md_status_message = MessageId 5, md_kind = Mirror, md_source_url = ''http://x'',
     md_created_at = 0, md_updated_at = 0\<rparr>"



text \<open>
  Once a task is \<open>Completed\<close>, \<open>Failed\<close> or \<open>Cancelled\<close>, no sequence of method calls, whatever
  the clock says, changes its state or its error message.
\<close>

theorem terminal_states_absorb:
  assumes "is_terminal t"
  shows "state (apply_ops ops t) = state t \<and> error_message (apply_ops ops t) = error_message t"
  by (rule apply_ops_terminal [OF assms])

theorem terminal_states_absorb_witness:
  "state (apply_ops [(1, StartDownload), (2, BeginUpload), (3, MarkFailed ''late'')]
     ((new_task example_metadata)\<lparr>state := Cancelled\<rparr>)) = Cancelled"
  using terminal_states_absorb [of "(new_task example_metadata)\<lparr>state := Cancelled\<rparr>"
      "[(1, StartDownload), (2, BeginUpload), (3, MarkFailed ''late'')]"]
  by (simp add: is_terminal_def)

text \<open>
  Every task built by the constructor and then changed only through its methods satisfies the
  class invariant (an error message exactly when it failed, a download id exactly when a backend is
  attached), and its identity, owner, chat, kind and source never change.
\<close>

theorem task_invariant_and_identity:
  assumes "list_all (op_ok \<circ> snd) ops"
  shows "task_inv (apply_ops ops (new_task md)) \<and>
    (\<exists>u. metadata (apply_ops ops (new_task md)) = md\<lparr>md_updated_at := u\<rparr>)"
  using task_inv_apply_ops [OF task_inv_new assms] apply_ops_metadata [of ops "new_task md"]
  by (simp add: new_task_def)

theorem task_invariant_and_identity_witness:
  "task_inv (apply_ops [(1, StartDownload), (2, AttachDownloader (Gid ''g'') DK_Aria2), (3, MarkFailed ''disk full'')]
     (new_task example_metadata))"
  using task_invariant_and_identity
    [of "[(1, StartDownload), (2, AttachDownloader (Gid ''g'') DK_Aria2), (3, MarkFailed ''disk full'')]" example_metadata]
  by (simp add: op_ok_def)

text \<open>
  A task is \<open>Completed\<close> only after it went through \<open>Uploading\<close>, and if it started in \<open>Queued\<close>
  also through \<open>Downloading\<close>: no call sequence skips the work.
\<close>

theorem completion_needs_the_path:
  assumes "state (apply_ops ops (new_task md)) = Completed"
  shows "Downloading \<in> set (state_history ops (new_task md)) \<and>
         Uploading \<in> set (state_history ops (new_task md))"
  using completed_passed_through [OF assms] by (simp add: new_task_def)

theorem completion_needs_the_path_witness:
  "Uploading \<in> set (state_history [(1, StartDownload), (2, BeginUpload), (3, MarkCompleted)]
     (new_task example_metadata))"
  using completion_needs_the_path [of "[(1, StartDownload), (2, BeginUpload), (3, MarkCompleted)]" example_metadata]
  by (simp add: new_task_def task_op_defs)

end
