(* ===== verification/Task_Store.thy ===== *)
theory Task_Store
  imports Task
begin

text \<open>
  The interface \<open>TaskRepository\<close> of \<open>include/cmlb/infrastructure/persistence/task_repository.hpp\<close>
  as a record of operations and a locale of the laws its clients rely on. A call takes the
  environment of that call (pool, exceptions, clock) and may fail; a failed write leaves the store
  unchanged, a successful write is seen by every later read. Tasks are compared without their two
  timestamps (\<open>strip\<close>), because reading a task back replays its transitions and stamps it again.
\<close>

text \<open>The identity of a task: all its data but the two timestamps.\<close>

definition strip :: "task \<Rightarrow> task" where
  "strip t = t\<lparr>metadata := (metadata t)\<lparr>md_created_at := 0, md_updated_at := 0\<rparr>\<rparr>"

lemma strip_sel [simp]:
  "state (strip t) = state t" "error_message (strip t) = error_message t"
  "downloader_id (strip t) = downloader_id t" "downloader_kind (strip t) = downloader_kind t"
  "md_id (metadata (strip t)) = md_id (metadata t)" "md_chat (metadata (strip t)) = md_chat (metadata t)"
  "md_user (metadata (strip t)) = md_user (metadata t)" "is_terminal (strip t) = is_terminal t"
  by (simp_all add: strip_def is_terminal_def)

lemma strip_eqD:
  assumes "strip t = strip t'"
  shows "state t = state t'" "downloader_id t = downloader_id t'" "downloader_kind t = downloader_kind t'"
    "md_id (metadata t) = md_id (metadata t')" "md_chat (metadata t) = md_chat (metadata t')"
    "md_user (metadata t) = md_user (metadata t')" "is_terminal t = is_terminal t'"
    "error_message t = error_message t'"
  using assms strip_sel by metis+

record ('e, 's) task_repo =
  repo_save :: "'e \<Rightarrow> task \<Rightarrow> 's \<Rightarrow> unit res \<times> 's"
  repo_find :: "'e \<Rightarrow> task_id \<Rightarrow> 's \<Rightarrow> task option res"
  repo_incomplete :: "'e \<Rightarrow> 's \<Rightarrow> task list res"
  repo_remove :: "'e \<Rightarrow> task_id \<Rightarrow> 's \<Rightarrow> unit res \<times> 's"

locale task_repository =
  fixes repo :: "('e, 's) task_repo"
    and view :: "'s \<Rightarrow> task_id \<Rightarrow> task option"
    and ok :: "'s \<Rightarrow> bool"
    and can_store :: "task \<Rightarrow> bool"
  assumes save_law: "ok s \<Longrightarrow> can_store t \<Longrightarrow> repo_save repo env t s = (Inr (), s') \<Longrightarrow>
      ok s' \<and> view s' = (view s)(md_id (metadata t) \<mapsto> strip t)"
    and save_error: "repo_save repo env t s = (Inl e, s') \<Longrightarrow> s' = s"
    and find_law: "ok s \<Longrightarrow> repo_find repo env i s = Inr x \<Longrightarrow> map_option strip x = view s i"
    and incomplete_law: "ok s \<Longrightarrow> repo_incomplete repo env s = Inr ts \<Longrightarrow>
      strip ` set ts = {x. \<exists>i. view s i = Some x \<and> \<not> is_terminal x}"
    and view_id: "ok s \<Longrightarrow> view s i = Some t \<Longrightarrow> md_id (metadata t) = i"
    and remove_law: "ok s \<Longrightarrow> repo_remove repo env i s = (Inr (), s') \<Longrightarrow>
      ok s' \<and> view s' = (view s)(i := None)"
begin

lemma save_ok:
  assumes "ok s" "can_store t" "repo_save repo env t s = (r, s')"
  shows "ok s'"
proof (cases r)
  case (Inl e)
  with assms save_error show ?thesis by blast
next
  case (Inr u)
  with assms save_law show ?thesis by simp
qed

lemma save_view_other:
  assumes "ok s" "can_store t" "repo_save repo env t s = (r, s')" "i \<noteq> md_id (metadata t)"
  shows "view s' i = view s i"
proof (cases r)
  case (Inl e)
  with assms save_error show ?thesis by blast
next
  case (Inr u)
  with assms save_law [of s t env s'] show ?thesis by simp
qed

lemma find_None: "ok s \<Longrightarrow> repo_find repo env i s = Inr None \<Longrightarrow> view s i = None"
  using find_law by fastforce

lemma find_Some:
  assumes "ok s" "repo_find repo env i s = Inr (Some t)"
  shows "view s i = Some (strip t)" "md_id (metadata t) = i"
proof -
  show v: "view s i = Some (strip t)" using find_law [OF assms] by simp
  from view_id [OF assms(1) v] show "md_id (metadata t) = i" by simp
qed

lemma incomplete_member:
  assumes "ok s" "repo_incomplete repo env s = Inr ts" "t \<in> set ts"
  shows "view s (md_id (metadata t)) = Some (strip t)" "\<not> is_terminal t"
proof -
  from incomplete_law [OF assms(1,2)] assms(3)
  obtain i where i: "view s i = Some (strip t)" "\<not> is_terminal (strip t)" by blast
  then show "\<not> is_terminal t" by simp
  from view_id [OF assms(1) i(1)] i(1) show "view s (md_id (metadata t)) = Some (strip t)" by simp
qed

end

text \<open>
  A client that reads a task, calls one of its methods and writes it back needs that what it reads
  is storable and that the methods keep it so, for the clock readings the store can represent.
\<close>

locale task_editing = task_repository repo view ok can_store
  for repo :: "('e, 's) task_repo"
    and view :: "'s \<Rightarrow> task_id \<Rightarrow> task option"
    and ok :: "'s \<Rightarrow> bool"
    and can_store :: "task \<Rightarrow> bool" +
  fixes env_ok :: "'e \<Rightarrow> bool"
    and time_ok :: "systime \<Rightarrow> bool"
  assumes find_can_store:
      "ok s \<Longrightarrow> env_ok env \<Longrightarrow> repo_find repo env i s = Inr (Some t) \<Longrightarrow> can_store t"
    and op_can_store: "can_store t \<Longrightarrow> time_ok now \<Longrightarrow> op_ok op \<Longrightarrow> can_store (snd (apply_op now op t))"
    and new_can_store: "time_ok (md_created_at md) \<Longrightarrow> time_ok (md_updated_at md) \<Longrightarrow> can_store (new_task md)"

end
