(* ===== verification/Active_Registry.thy ===== *)
theory Active_Registry
  imports Domain
begin

text \<open>
  The cancellation registry of \<open>include/cmlb/application/active_task_registry.hpp\<close>. The flag is a
  shared object that the running use case and the registry both hold, so the model keeps the flags
  in a store indexed by address and the map holds addresses; every operation is one critical
  section of the registry's mutex. The guard of a use case is its task id and the address it got.
\<close>

record registry =
  reg_map :: "task_id \<rightharpoonup> nat"
  reg_flags :: "nat \<Rightarrow> bool"
  reg_next :: nat

definition empty_registry :: registry where
  "empty_registry = \<lparr>reg_map = Map.empty, reg_flags = (\<lambda>_. False), reg_next = 0\<rparr>"

definition register_task :: "task_id \<Rightarrow> registry \<Rightarrow> nat \<times> registry" where
  "register_task i r =
     (case reg_map r i of
        Some a \<Rightarrow> (a, r)
      | None \<Rightarrow> (reg_next r,
                 r\<lparr>reg_map := (reg_map r)(i \<mapsto> reg_next r),
                   reg_flags := (reg_flags r)(reg_next r := False),
                   reg_next := Suc (reg_next r)\<rparr>))"

definition unregister :: "task_id \<Rightarrow> registry \<Rightarrow> registry" where
  "unregister i r = r\<lparr>reg_map := (reg_map r)(i := None)\<rparr>"

definition cancel_flag :: "task_id \<Rightarrow> registry \<Rightarrow> bool \<times> registry" where
  "cancel_flag i r =
     (case reg_map r i of
        None \<Rightarrow> (False, r)
      | Some a \<Rightarrow> (True, r\<lparr>reg_flags := (reg_flags r)(a := True)\<rparr>))"

definition guard_cancelled :: "nat \<Rightarrow> registry \<Rightarrow> bool" where
  "guard_cancelled a r = reg_flags r a"

datatype reg_op = Register task_id | Unregister task_id | CancelFlag task_id

fun reg_step :: "reg_op \<Rightarrow> registry \<Rightarrow> registry" where
  "reg_step (Register i) r = snd (register_task i r)"
| "reg_step (Unregister i) r = unregister i r"
| "reg_step (CancelFlag i) r = snd (cancel_flag i r)"

definition reg_run :: "reg_op list \<Rightarrow> registry \<Rightarrow> registry" where
  "reg_run ops r = fold reg_step ops r"

lemmas reg_defs = register_task_def unregister_def cancel_flag_def guard_cancelled_def

subsection \<open>Invariant: addresses are allocated and not shared\<close>

definition reg_inv :: "registry \<Rightarrow> bool" where
  "reg_inv r = ((\<forall>i a. reg_map r i = Some a \<longrightarrow> a < reg_next r) \<and>
                (\<forall>i j a. reg_map r i = Some a \<longrightarrow> reg_map r j = Some a \<longrightarrow> i = j))"

lemma reg_inv_empty [simp]: "reg_inv empty_registry"
  by (simp add: reg_inv_def empty_registry_def)

lemma reg_inv_step: "reg_inv r \<Longrightarrow> reg_inv (reg_step op r)"
  by (cases op) (fastforce simp: reg_inv_def reg_defs less_Suc_eq split: option.splits if_splits)+

lemma reg_inv_run: "reg_inv r \<Longrightarrow> reg_inv (reg_run ops r)"
  unfolding reg_run_def by (induction ops arbitrary: r) (auto intro: reg_inv_step)

text \<open>What the holder of address \<open>a\<close> for task \<open>i\<close> may rely on while it is registered.\<close>

definition held :: "task_id \<Rightarrow> nat \<Rightarrow> registry \<Rightarrow> bool" where
  "held i a r = (reg_map r i = Some a)"

lemma register_held: "reg_inv r \<Longrightarrow> register_task i r = (a, r') \<Longrightarrow> held i a r' \<and> reg_inv r'"
  using reg_inv_step [of r "Register i"] by (auto simp: held_def register_task_def split: option.splits)

lemma held_step:
  "reg_inv r \<Longrightarrow> held i a r \<Longrightarrow> op \<noteq> Unregister i \<Longrightarrow>
   held i a (reg_step op r) \<and>
   guard_cancelled a (reg_step op r) = (guard_cancelled a r \<or> op = CancelFlag i)"
proof (cases op)
  case (Register j)
  assume "reg_inv r" "held i a r" "op \<noteq> Unregister i"
  then have "a < reg_next r" by (simp add: reg_inv_def held_def)
  with Register \<open>held i a r\<close> show ?thesis by (auto simp: held_def reg_defs split: option.splits)
next
  case (Unregister j)
  assume "reg_inv r" "held i a r" "op \<noteq> Unregister i"
  with Unregister show ?thesis by (simp add: held_def reg_defs)
next
  case (CancelFlag j)
  assume inv: "reg_inv r" and h: "held i a r" and "op \<noteq> Unregister i"
  then have "reg_map r j = Some a \<longleftrightarrow> j = i" by (auto simp: reg_inv_def held_def)
  with CancelFlag h show ?thesis by (cases "reg_map r j") (auto simp: held_def reg_defs)
qed

lemma held_run:
  "reg_inv r \<Longrightarrow> held i a r \<Longrightarrow> Unregister i \<notin> set ops \<Longrightarrow>
   held i a (reg_run ops r) \<and>
   guard_cancelled a (reg_run ops r) = (guard_cancelled a r \<or> CancelFlag i \<in> set ops)"
proof (induction ops arbitrary: r)
  case Nil
  then show ?case by (simp add: reg_run_def)
next
  case (Cons op ops)
  then have h: "held i a (reg_step op r)"
    "guard_cancelled a (reg_step op r) = (guard_cancelled a r \<or> op = CancelFlag i)"
    using held_step [of r i a op] by (auto simp del: reg_step.simps)
  from Cons.IH [OF reg_inv_step [OF Cons.prems(1)] h(1)] Cons.prems(3) h(2)
  show ?case by (auto simp: reg_run_def simp del: reg_step.simps)
qed

text \<open>After the guard is destroyed nothing raises the flag it still holds.\<close>

lemma dropped_step:
  assumes "reg_inv r" "a < reg_next r" "\<forall>j. reg_map r j \<noteq> Some a"
  shows "a < reg_next (reg_step op r) \<and> (\<forall>j. reg_map (reg_step op r) j \<noteq> Some a) \<and>
         guard_cancelled a (reg_step op r) = guard_cancelled a r"
  using assms by (cases op) (auto simp: reg_defs split: option.splits)

lemma dropped_run:
  assumes "reg_inv r" "a < reg_next r" "\<forall>j. reg_map r j \<noteq> Some a"
  shows "guard_cancelled a (reg_run ops r) = guard_cancelled a r"
  using assms
proof (induction ops arbitrary: r)
  case Nil
  then show ?case by (simp add: reg_run_def)
next
  case (Cons op ops)
  from dropped_step [OF Cons.prems, of op] Cons.IH [OF reg_inv_step [OF Cons.prems(1)]]
  show ?case by (simp add: reg_run_def)
qed

text \<open>A raised flag stays raised, whatever happens to the registry.\<close>

lemma raised_step:
  assumes "a < reg_next r" "guard_cancelled a r"
  shows "a < reg_next (reg_step op r) \<and> guard_cancelled a (reg_step op r)"
  using assms by (cases op) (auto simp: reg_defs split: option.splits)

subsection \<open>Properties\<close>

text \<open>
  While a use case holds its guard, its flag is raised exactly if somebody cancelled its own
  task id since it registered (or the flag it joined was already raised): operations on other tasks
  never reach it, and no cancellation is lost.
\<close>

theorem guard_sees_exactly_its_cancellations:
  assumes "register_task i (reg_run before empty_registry) = (a, r)" "Unregister i \<notin> set ops"
  shows "guard_cancelled a (reg_run ops r) \<longleftrightarrow> guard_cancelled a r \<or> CancelFlag i \<in> set ops"
proof -
  have "reg_inv (reg_run before empty_registry)" by (rule reg_inv_run) simp
  with register_held [OF _ assms(1)] held_run [OF _ _ assms(2)] show ?thesis by blast
qed

theorem guard_sees_exactly_its_cancellations_witness:
  "guard_cancelled 0 (reg_run [CancelFlag (TaskId ''b''), CancelFlag (TaskId ''a'')]
     (snd (register_task (TaskId ''a'') (reg_run [] empty_registry))))"
  using guard_sees_exactly_its_cancellations
    [of "TaskId ''a''" "[]" 0 "snd (register_task (TaskId ''a'') (reg_run [] empty_registry))"
      "[CancelFlag (TaskId ''b''), CancelFlag (TaskId ''a'')]"]
  by (simp add: reg_run_def register_task_def empty_registry_def)

text \<open>
  After a guard is destroyed the flag its owner may still hold never changes again: a later
  registration of the same id gets a flag of its own.
\<close>

theorem dropped_guard_is_isolated:
  assumes "register_task i (reg_run before empty_registry) = (a, r)"
  shows "guard_cancelled a (reg_run ops (unregister i r)) = guard_cancelled a r"
proof -
  have "reg_inv (reg_run before empty_registry)" by (rule reg_inv_run) simp
  then have h: "held i a r" "reg_inv r" using register_held [OF _ assms] by auto
  have u: "reg_inv (unregister i r)" using reg_inv_step [OF h(2), of "Unregister i"] by simp
  have "a < reg_next (unregister i r)" "\<forall>j. reg_map (unregister i r) j \<noteq> Some a"
    using h by (auto simp: held_def reg_inv_def unregister_def)
  from dropped_run [OF u this] show ?thesis by (simp add: guard_cancelled_def unregister_def)
qed

theorem dropped_guard_is_isolated_witness:
  "\<not> guard_cancelled 0 (reg_run [Register (TaskId ''a''), CancelFlag (TaskId ''a'')]
     (unregister (TaskId ''a'') (snd (register_task (TaskId ''a'') (reg_run [] empty_registry)))))"
  using dropped_guard_is_isolated
    [of "TaskId ''a''" "[]" 0 "snd (register_task (TaskId ''a'') (reg_run [] empty_registry))"
      "[Register (TaskId ''a''), CancelFlag (TaskId ''a'')]"]
  by (simp add: reg_run_def register_task_def empty_registry_def guard_cancelled_def)

end
