(* ===== verification/Task_Id.thy ===== *)
theory Task_Id
  imports Domain
begin

text \<open>
  \<open>detail::make_task_id\<close> of \<open>include/cmlb/application/detail/task_id_generator.hpp\<close>. The four 32-bit
  draws of \<open>std::random_device\<close> are arguments.
\<close>

unbundle bit_operations_syntax

type_synonym draws = "32 word \<times> 32 word \<times> 32 word \<times> 32 word"

definition kHex :: string where
  "kHex = ''0123456789abcdef''"

text \<open>\<open>pour\<close>: the \<open>n\<close> lowest hex digits of a value, the most significant one first.\<close>

fun pour :: "nat \<Rightarrow> 64 word \<Rightarrow> string" where
  "pour 0 v = []"
| "pour (Suc n) v = pour n (drop_bit 4 v) @ [kHex ! unat (v AND 0xF)]"

definition join_words :: "32 word \<Rightarrow> 32 word \<Rightarrow> 64 word" where
  "join_words a b = push_bit 32 (ucast a) OR ucast b"

definition make_task_id :: "draws \<Rightarrow> task_id" where
  "make_task_id = (\<lambda>(a, b, c, d). TaskId (pour 16 (join_words a b) @ pour 16 (join_words c d)))"

subsection \<open>Shape\<close>

lemma length_pour [simp]: "length (pour n v) = n"
  by (induction n v rule: pour.induct) auto

lemma nibble_bound: "unat ((v::64 word) AND 0xF) < 16"
proof -
  have "v AND 0xF = take_bit 4 v" by (simp add: take_bit_eq_mask mask_eq_exp_minus_1)
  then have "unat (v AND 0xF) = unat v mod 16"
    by (simp only: unsigned_take_bit_eq) (simp add: take_bit_eq_mod)
  then show ?thesis by simp
qed

lemma length_kHex [simp]: "length kHex = 16"
  by (simp add: kHex_def)

lemma pour_hex: "set (pour n v) \<subseteq> set kHex"
proof (induction n v rule: pour.induct)
  case (2 n v)
  have "kHex ! unat (v AND 0xF) \<in> set kHex" by (rule nth_mem) (simp add: nibble_bound)
  with 2 show ?case by simp
qed simp

lemma kHex_inj: "i < 16 \<Longrightarrow> j < 16 \<Longrightarrow> kHex ! i = kHex ! j \<Longrightarrow> i = j"
  by (rule nth_eq_iff_index_eq [THEN iffD1, of kHex]) (auto simp: kHex_def)

subsection \<open>Different draws give different ids\<close>

lemma pour_inj:
  "take_bit (4 * n) v = take_bit (4 * n) (w :: 64 word) \<longleftrightarrow> pour n v = pour n w"
proof (induction n arbitrary: v w)
  case 0
  then show ?case by simp
next
  case (Suc n)
  have split: "take_bit (4 * Suc n) v = take_bit (4 * Suc n) w \<longleftrightarrow>
      take_bit (4 * n) (drop_bit 4 v) = take_bit (4 * n) (drop_bit 4 w) \<and> v AND 0xF = w AND 0xF"
  proof -
    have nib: "x AND 0xF = take_bit 4 x" for x :: "64 word"
      by (simp add: take_bit_eq_mask mask_eq_exp_minus_1)
    have "take_bit (4 * Suc n) x = take_bit 4 x OR push_bit 4 (take_bit (4 * n) (drop_bit 4 x))"
      for x :: "64 word"
      by (rule bit_word_eqI) (auto simp: bit_simps)
    moreover have "take_bit (4 * n) (drop_bit 4 x) = drop_bit 4 (take_bit (4 * Suc n) x)"
      "take_bit 4 x = take_bit 4 (take_bit (4 * Suc n) x)" for x :: "64 word"
      by (rule bit_word_eqI; auto simp: bit_simps)+
    ultimately show ?thesis unfolding nib by metis
  qed
  have "kHex ! unat (v AND 0xF) = kHex ! unat (w AND 0xF) \<longleftrightarrow> v AND 0xF = w AND 0xF"
    using kHex_inj [OF nibble_bound nibble_bound, of v w] by (auto dest: unsigned_word_eqI)
  with split Suc.IH show ?case by auto
qed

lemma pour16_inj: "pour 16 v = pour 16 w \<longleftrightarrow> v = w"
proof -
  have "take_bit 64 x = x" for x :: "64 word"
    by (rule bit_word_eqI) (auto simp: bit_simps dest: bit_imp_le_length)
  with pour_inj [of 16 v w] show ?thesis by simp
qed

lemma join_words_inj: "join_words a b = join_words c d \<longleftrightarrow> a = c \<and> b = d"
proof
  assume eq: "join_words a b = join_words c d"
  have hi: "a = ucast (drop_bit 32 (join_words a b))" for a b :: "32 word"
    by (rule bit_word_eqI) (auto simp: join_words_def bit_simps dest: bit_imp_le_length)
  have lo: "b = ucast (join_words a b)" for a b :: "32 word"
    by (rule bit_word_eqI) (auto simp: join_words_def bit_simps)
  from eq show "a = c \<and> b = d" using hi lo by metis
qed simp

text \<open>
  The generated task id is 32 lower-case hexadecimal characters, and two ids are equal only if
  all 128 random bits are.
\<close>

theorem make_task_id_unique:
  "length (task_value (make_task_id x)) = 32 \<and> set (task_value (make_task_id x)) \<subseteq> set kHex \<and>
   (make_task_id x = make_task_id y \<longleftrightarrow> x = y)"
  using pour_hex by (cases x; cases y) (auto simp: make_task_id_def pour16_inj join_words_inj)

end
