(* ===== verification/Ports.thy ===== *)
theory Ports
  imports Complex_Main Task_Store Active_Registry Task_Id
begin

text \<open>
  The ports of the application layer and the world its coroutines run in: the snapshot types of
  \<open>include/cmlb/infrastructure/download/downloader_interface.hpp\<close> and
  \<open>include/cmlb/infrastructure/upload/uploader_interface.hpp\<close>, the coordination state of a
  download/upload pipeline, and the awaited calls.

  A call to a port appends an \<open>effect\<close> (the call with its response) to the history of the world. The
  response is an arbitrary function of the history and the arguments, so a theorem that holds for
  every \<open>ports\<close> holds for every behaviour of Telegram, the downloaders and the uploaders. An await is
  a point where other coroutines run: \<open>p_events\<close> says, again as an arbitrary function of the history,
  which upload coroutines finish and which registry operations other use cases perform there.
\<close>

subsection \<open>Snapshots of the download backends\<close>

datatype download_state =
  DS_Queued | DS_Downloading | DS_Paused | DS_Complete | DS_Error | DS_Seeding | DS_Removed

fun download_state_to_string :: "download_state \<Rightarrow> string" where
  "download_state_to_string DS_Queued = ''queued''"
| "download_state_to_string DS_Downloading = ''downloading''"
| "download_state_to_string DS_Paused = ''paused''"
| "download_state_to_string DS_Complete = ''complete''"
| "download_state_to_string DS_Error = ''error''"
| "download_state_to_string DS_Seeding = ''seeding''"
| "download_state_to_string DS_Removed = ''removed''"

record download_status =
  dl_id :: gid
  dl_name :: string
  dl_state :: download_state
  dl_total_bytes :: int
  dl_downloaded_bytes :: int
  dl_uploaded_bytes :: int
  dl_download_speed_bps :: int
  dl_upload_speed_bps :: int
  dl_eta :: int
  dl_error_message :: "string option"
  dl_save_path :: "string option"
  dl_files :: "string list"
  dl_seed_ratio :: "rat option"
  dl_num_seeders :: "int option"
  dl_num_leechers :: "int option"

definition empty_status :: download_status where
  "empty_status = \<lparr>dl_id = Gid [], dl_name = [], dl_state = DS_Queued, dl_total_bytes = 0,
     dl_downloaded_bytes = 0, dl_uploaded_bytes = 0, dl_download_speed_bps = 0,
     dl_upload_speed_bps = 0, dl_eta = 0, dl_error_message = None, dl_save_path = None,
     dl_files = [], dl_seed_ratio = None, dl_num_seeders = None, dl_num_leechers = None\<rparr>"

text \<open>The percentage is computed in \<open>double\<close> by the code; the model takes the exact quotient.\<close>

definition progress :: "download_status \<Rightarrow> rat" where
  "progress s =
     (if dl_total_bytes s \<le> 0 then 0
      else let pct = (of_int (dl_downloaded_bytes s) / of_int (dl_total_bytes s)) * 100
           in if pct < 0 then 0 else if pct > 100 then 100 else pct)"

definition supports_pipelining :: "downloader_kind \<Rightarrow> bool" where
  "supports_pipelining dk = (dk = DK_Aria2)"

lemma progress_bounds: "0 \<le> progress s \<and> progress s \<le> 100"
  by (auto simp: progress_def Let_def)

lemma progress_total: "dl_total_bytes s > 0 \<Longrightarrow> dl_downloaded_bytes s = dl_total_bytes s \<Longrightarrow> progress s = 100"
  by (simp add: progress_def)

subsection \<open>Uploaders\<close>

datatype uploader = Up_Telegram | Up_GDrive | Up_Rclone

fun uploader_name :: "uploader \<Rightarrow> string" where
  "uploader_name Up_Telegram = ''telegram''"
| "uploader_name Up_GDrive = ''gdrive''"
| "uploader_name Up_Rclone = ''rclone''"

record upload_config =
  uc_chat_id :: "chat_id option"
  uc_folder_id :: "string option"
  uc_rclone_path :: "string option"
  uc_as_document :: bool
  uc_thumbnail_path :: "string option"
  uc_caption :: "string option"
  uc_split_size :: int

definition default_upload_config :: upload_config where
  "default_upload_config = \<lparr>uc_chat_id = None, uc_folder_id = None, uc_rclone_path = None,
     uc_as_document = False, uc_thumbnail_path = None, uc_caption = None,
     uc_split_size = 2000000000\<rparr>"

record upload_result =
  ur_file_id :: string
  ur_link :: string
  ur_size :: int
  ur_duration :: int

definition empty_upload_result :: upload_result where
  "empty_upload_result = \<lparr>ur_file_id = [], ur_link = [], ur_size = 0, ur_duration = 0\<rparr>"

record user_settings =
  us_user_id :: user_id
  us_leech_destination :: upload_destination
  us_mirror_destination :: upload_destination
  us_default_thumb_path :: "string option"
  us_rclone_remote :: "string option"
  us_gdrive_folder_id :: "string option"
  us_upload_as_document :: bool
  us_created_at :: systime
  us_updated_at :: systime

subsection \<open>The coordination state of one pipeline\<close>

text \<open>
  \<open>active\<close> lists the spawned upload coroutines that have not finished; the code has no such list, the
  executor keeps it. The cancellation signals are the effects \<open>E_CancelUploads\<close> of the history.
\<close>

record pipeline =
  queued :: "string set"
  in_flight :: int
  completed :: int
  failed :: int
  first_error :: "app_error option"
  results :: "upload_result list"
  active :: "string list"

definition empty_pipeline :: pipeline where
  "empty_pipeline = \<lparr>queued = {}, in_flight = 0, completed = 0, failed = 0, first_error = None,
     results = [], active = []\<rparr>"

text \<open>The body of the spawned coroutine after its upload returned: one critical section.\<close>

definition upload_finished :: "string \<Rightarrow> upload_result res \<Rightarrow> pipeline \<Rightarrow> pipeline" where
  "upload_finished f r p =
     (let p = p\<lparr>in_flight := in_flight p - 1, active := remove1 f (active p)\<rparr>
      in case r of
           Inl e \<Rightarrow> p\<lparr>failed := failed p + 1,
                      first_error := (case first_error p of None \<Rightarrow> Some e | Some e0 \<Rightarrow> Some e0)\<rparr>
         | Inr u \<Rightarrow> p\<lparr>completed := completed p + 1, results := results p @ [u]\<rparr>)"

subsection \<open>World, history and awaited calls\<close>

datatype effect =
    E_Send chat_id string "message_id res"
  | E_Edit chat_id message_id string "unit res"
  | E_AddUri downloader_kind string "gid res"
  | E_Pause downloader_kind gid "unit res"
  | E_Resume downloader_kind gid "unit res"
  | E_Remove downloader_kind gid bool "unit res"
  | E_Status downloader_kind gid "download_status res"
  | E_Render chat_id "download_status list" "unit res"
  | E_UploadFile uploader string upload_config "upload_result res"
  | E_UploadDirectory uploader string upload_config "upload_result list res"
  | E_Settings user_id "user_settings option res"
  | E_Save task "unit res"
  | E_Find task_id "task option res"
  | E_Incomplete "task list res"
  | E_Wait nat
  | E_Spawn uploader string upload_config
  | E_CancelUploads
  | E_UploadDone string "upload_result res"

datatype event = Ev_Upload string "upload_result res" | Ev_Reg reg_op

record 's world =
  w_store :: 's
  w_reg :: registry
  w_pipe :: pipeline
  w_trace :: "effect list"

record ('e, 's) ports =
  p_repo :: "('e, 's) task_repo"
  p_env :: "effect list \<Rightarrow> 'e"
  p_events :: "effect list \<Rightarrow> event list"
  p_now :: "effect list \<Rightarrow> systime"
  p_draws :: "effect list \<Rightarrow> draws"
  p_coroutine_cancelled :: "effect list \<Rightarrow> bool"
  p_send :: "effect list \<Rightarrow> chat_id \<Rightarrow> string \<Rightarrow> message_id res"
  p_edit :: "effect list \<Rightarrow> chat_id \<Rightarrow> message_id \<Rightarrow> string \<Rightarrow> unit res"
  p_add_uri :: "effect list \<Rightarrow> downloader_kind \<Rightarrow> string \<Rightarrow> gid res"
  p_pause :: "effect list \<Rightarrow> downloader_kind \<Rightarrow> gid \<Rightarrow> unit res"
  p_resume :: "effect list \<Rightarrow> downloader_kind \<Rightarrow> gid \<Rightarrow> unit res"
  p_remove :: "effect list \<Rightarrow> downloader_kind \<Rightarrow> gid \<Rightarrow> bool \<Rightarrow> unit res"
  p_status :: "effect list \<Rightarrow> downloader_kind \<Rightarrow> gid \<Rightarrow> download_status res option"
  p_render :: "effect list \<Rightarrow> chat_id \<Rightarrow> download_status list \<Rightarrow> unit res"
  p_upload_file :: "effect list \<Rightarrow> uploader \<Rightarrow> string \<Rightarrow> upload_config \<Rightarrow> upload_result res"
  p_upload_directory :: "effect list \<Rightarrow> uploader \<Rightarrow> string \<Rightarrow> upload_config \<Rightarrow> upload_result list res"
  p_settings :: "effect list \<Rightarrow> user_id \<Rightarrow> user_settings option res"

text \<open>An upload event takes effect only if that upload is running.\<close>

fun run_event :: "event \<Rightarrow> 's world \<Rightarrow> 's world" where
  "run_event (Ev_Reg op) w = w\<lparr>w_reg := reg_step op (w_reg w)\<rparr>"
| "run_event (Ev_Upload f r) w =
     (if f \<in> set (active (w_pipe w))
      then w\<lparr>w_pipe := upload_finished f r (w_pipe w), w_trace := E_UploadDone f r # w_trace w\<rparr>
      else w)"

definition log_effect :: "effect \<Rightarrow> 's world \<Rightarrow> 's world" where
  "log_effect e w = w\<lparr>w_trace := e # w_trace w\<rparr>"

definition suspend :: "('e, 's) ports \<Rightarrow> 's world \<Rightarrow> 's world" where
  "suspend P w = fold run_event (p_events P (w_trace w)) w"

definition await :: "('e, 's) ports \<Rightarrow> (effect list \<Rightarrow> 'a) \<Rightarrow> ('a \<Rightarrow> effect) \<Rightarrow> ('s world, 'a) state" where
  "await P resp eff =
     State (\<lambda>w. let r = resp (w_trace w) in (r, suspend P (log_effect (eff r) w)))"

definition emit :: "effect \<Rightarrow> ('s world, unit) state" where
  "emit e = State (\<lambda>w. ((), log_effect e w))"

definition gets :: "('s world \<Rightarrow> 'a) \<Rightarrow> ('s world, 'a) state" where
  "gets f = State (\<lambda>w. (f w, w))"

definition modify :: "('s world \<Rightarrow> 's world) \<Rightarrow> ('s world, unit) state" where
  "modify f = State (\<lambda>w. ((), f w))"

definition clock :: "('e, 's) ports \<Rightarrow> ('s world, systime) state" where
  "clock P = gets (\<lambda>w. p_now P (w_trace w))"

definition send_html :: "('e, 's) ports \<Rightarrow> chat_id \<Rightarrow> string \<Rightarrow> ('s world, message_id res) state" where
  "send_html P c html = await P (\<lambda>h. p_send P h c html) (E_Send c html)"

definition edit_html :: "('e, 's) ports \<Rightarrow> chat_id \<Rightarrow> message_id \<Rightarrow> string \<Rightarrow> ('s world, unit res) state" where
  "edit_html P c m html = await P (\<lambda>h. p_edit P h c m html) (E_Edit c m html)"

definition dl_add_uri :: "('e, 's) ports \<Rightarrow> downloader_kind \<Rightarrow> string \<Rightarrow> ('s world, gid res) state" where
  "dl_add_uri P dk u = await P (\<lambda>h. p_add_uri P h dk u) (E_AddUri dk u)"

definition dl_pause :: "('e, 's) ports \<Rightarrow> downloader_kind \<Rightarrow> gid \<Rightarrow> ('s world, unit res) state" where
  "dl_pause P dk g = await P (\<lambda>h. p_pause P h dk g) (E_Pause dk g)"

definition dl_resume :: "('e, 's) ports \<Rightarrow> downloader_kind \<Rightarrow> gid \<Rightarrow> ('s world, unit res) state" where
  "dl_resume P dk g = await P (\<lambda>h. p_resume P h dk g) (E_Resume dk g)"

definition dl_remove :: "('e, 's) ports \<Rightarrow> downloader_kind \<Rightarrow> gid \<Rightarrow> bool \<Rightarrow> ('s world, unit res) state" where
  "dl_remove P dk g del = await P (\<lambda>h. p_remove P h dk g del) (E_Remove dk g del)"

text \<open>\<open>None\<close> as the response of the operation means that the timer fired first.\<close>

definition with_timeout :: "'a res option \<Rightarrow> nat \<Rightarrow> 'a res" where
  "with_timeout op ms =
     (case op of
        Some r \<Rightarrow> r
      | None \<Rightarrow> Inl (mk_error EC_Timeout (''operation exceeded '' @ nat_digits ms @ ''ms deadline'')))"

definition dl_status :: "('e, 's) ports \<Rightarrow> downloader_kind \<Rightarrow> gid \<Rightarrow> ('s world, download_status res) state" where
  "dl_status P dk g = await P (\<lambda>h. with_timeout (p_status P h dk g) 15000) (E_Status dk g)"

definition render_progress ::
    "('e, 's) ports \<Rightarrow> chat_id \<Rightarrow> download_status list \<Rightarrow> ('s world, unit res) state" where
  "render_progress P c ds = await P (\<lambda>h. p_render P h c ds) (E_Render c ds)"

definition upload_file ::
    "('e, 's) ports \<Rightarrow> uploader \<Rightarrow> string \<Rightarrow> upload_config \<Rightarrow> ('s world, upload_result res) state" where
  "upload_file P u f c = await P (\<lambda>h. p_upload_file P h u f c) (E_UploadFile u f c)"

definition upload_directory ::
    "('e, 's) ports \<Rightarrow> uploader \<Rightarrow> string \<Rightarrow> upload_config \<Rightarrow> ('s world, upload_result list res) state" where
  "upload_directory P u d c = await P (\<lambda>h. p_upload_directory P h u d c) (E_UploadDirectory u d c)"

definition get_settings :: "('e, 's) ports \<Rightarrow> user_id \<Rightarrow> ('s world, user_settings option res) state" where
  "get_settings P u = await P (\<lambda>h. p_settings P h u) (E_Settings u)"

definition timer_wait :: "('e, 's) ports \<Rightarrow> nat \<Rightarrow> ('s world, unit) state" where
  "timer_wait P ms = await P (\<lambda>_. ()) (\<lambda>_. E_Wait ms)"

definition save_task :: "('e, 's) ports \<Rightarrow> task \<Rightarrow> ('s world, unit res) state" where
  "save_task P t =
     State (\<lambda>w. case repo_save (p_repo P) (p_env P (w_trace w)) t (w_store w) of
        (r, s) \<Rightarrow> (r, suspend P (log_effect (E_Save t r) (w\<lparr>w_store := s\<rparr>))))"

definition find_task :: "('e, 's) ports \<Rightarrow> task_id \<Rightarrow> ('s world, task option res) state" where
  "find_task P i =
     State (\<lambda>w. let r = repo_find (p_repo P) (p_env P (w_trace w)) i (w_store w)
                in (r, suspend P (log_effect (E_Find i r) w)))"

definition incomplete_tasks :: "('e, 's) ports \<Rightarrow> ('s world, task list res) state" where
  "incomplete_tasks P =
     State (\<lambda>w. let r = repo_incomplete (p_repo P) (p_env P (w_trace w)) (w_store w)
                in (r, suspend P (log_effect (E_Incomplete r) w)))"

lemmas port_defs = send_html_def edit_html_def dl_add_uri_def dl_pause_def dl_resume_def
  dl_remove_def dl_status_def render_progress_def upload_file_def upload_directory_def
  get_settings_def timer_wait_def

lemma wp_gets [simp]: "wp (gets f) Q w = Q (f w) w"
  by (simp add: wp_def gets_def)

lemma wp_modify [simp]: "wp (modify f) Q = (\<lambda>w. Q () (f w))"
  by (rule ext) (simp add: wp_def modify_def)

lemma wp_clock [simp]: "wp (clock P) Q w = Q (p_now P (w_trace w)) w"
  by (simp add: clock_def)

lemma wp_emit [simp]: "wp (emit e) Q w = Q () (log_effect e w)"
  by (simp add: wp_def emit_def)

end
