(* ===== verification/Formatting.thy ===== *)
theory Formatting
  imports Domain
begin

text \<open>
  The text helpers of \<open>src/core/formatting.cpp\<close>: HTML escaping, UTF-8-safe truncation, durations
  and byte sizes. Integers are printed with \<open>int_to_string\<close>. The two-decimal rendering of the
  quotient of two integers, which the source computes in \<open>long double\<close> and prints with \<open>fmt\<close>, is
  the parameter \<open>fixed2\<close> of the byte-size functions.
\<close>

subsection \<open>HTML escaping\<close>

definition escape_char :: "char \<Rightarrow> string" where
  "escape_char ch =
     (if ch = CHR ''&'' then ''&amp;''
      else if ch = CHR ''<'' then ''&lt;''
      else if ch = CHR ''>'' then ''&gt;''
      else [ch])"

fun escape_html :: "string \<Rightarrow> string" where
  "escape_html [] = []"
| "escape_html (ch # text) = escape_char ch @ escape_html text"

text \<open>What a reader of the three entities sees.\<close>

fun unescape_html :: "string \<Rightarrow> string" where
  "unescape_html [] = []"
| "unescape_html (c # s) =
     (if c = CHR ''&'' \<and> take 4 s = ''amp;'' then CHR ''&'' # unescape_html (drop 4 s)
      else if c = CHR ''&'' \<and> take 3 s = ''lt;'' then CHR ''<'' # unescape_html (drop 3 s)
      else if c = CHR ''&'' \<and> take 3 s = ''gt;'' then CHR ''>'' # unescape_html (drop 3 s)
      else c # unescape_html s)"

lemma unescape_escape: "unescape_html (escape_html s) = s"
  by (induction s) (simp_all add: escape_char_def)

lemma escape_html_safe: "CHR ''<'' \<notin> set (escape_html s) \<and> CHR ''>'' \<notin> set (escape_html s)"
  by (induction s) (auto simp: escape_char_def)

lemma escape_html_append: "escape_html (s @ t) = escape_html s @ escape_html t"
  by (induction s) auto

lemma escape_html_length: "length s \<le> length (escape_html s) \<and> length (escape_html s) \<le> 5 * length s"
  by (induction s) (auto simp: escape_char_def)

subsection \<open>Truncation\<close>

definition is_continuation :: "char \<Rightarrow> bool" where
  "is_continuation c = (byte_of c div 64 = 2)"

fun back_up :: "string \<Rightarrow> nat \<Rightarrow> nat" where
  "back_up text 0 = 0"
| "back_up text (Suc k) = (if is_continuation (text ! Suc k) then back_up text k else Suc k)"

definition truncate_for_display :: "string \<Rightarrow> nat \<Rightarrow> string" where
  "truncate_for_display text max_bytes =
     (if length text \<le> max_bytes then text
      else if max_bytes \<le> 3 then take max_bytes ''...''
      else let cut = back_up text (max_bytes - 3) in take cut text @ ''...'')"

lemma back_up_le: "back_up text k \<le> k"
  by (induction k) auto

lemma back_up_boundary: "back_up text k \<noteq> 0 \<Longrightarrow> \<not> is_continuation (text ! back_up text k)"
  by (induction k) (auto split: if_splits)

lemma back_up_passed: "back_up text k < j \<Longrightarrow> j \<le> k \<Longrightarrow> is_continuation (text ! j)"
proof (induction k)
  case (Suc k)
  then show ?case by (cases "j = Suc k") (auto split: if_splits)
qed simp

lemma truncate_length: "length (truncate_for_display s n) \<le> n"
  using back_up_le [of s "n - 3"] by (auto simp: truncate_for_display_def Let_def)

text \<open>
  A UTF-8 text is a sequence of code points, each a lead byte followed by continuation bytes.
\<close>

definition code_point :: "string \<Rightarrow> bool" where
  "code_point cp = (case cp of [] \<Rightarrow> False | c # cs \<Rightarrow> \<not> is_continuation c \<and> list_all is_continuation cs)"

lemma code_point_boundary:
  assumes "list_all code_point cps" "k < length (concat cps)" "\<not> is_continuation (concat cps ! k)"
  shows "\<exists>m \<le> length cps. take k (concat cps) = concat (take m cps)"
  using assms
proof (induction cps arbitrary: k)
  case Nil
  then show ?case by simp
next
  case (Cons cp cps)
  obtain c cs where cp: "cp = c # cs" "\<not> is_continuation c" "list_all is_continuation cs"
    using Cons.prems(1) by (cases cp) (auto simp: code_point_def)
  show ?case
  proof (cases "k < length cp")
    case True
    then have "k = 0" using Cons.prems(3) cp by (cases k) (auto simp: nth_append list_all_length)
    then show ?thesis by (auto intro: exI [of _ 0])
  next
    case False
    then have "concat (cp # cps) ! k = concat cps ! (k - length cp)" by (simp add: nth_append)
    moreover have "k - length cp < length (concat cps)" using Cons.prems(2) False by simp
    ultimately obtain m where "m \<le> length cps"
      "take (k - length cp) (concat cps) = concat (take m cps)"
      using Cons.IH [of "k - length cp"] Cons.prems by auto
    with False show ?thesis by (intro exI [of _ "Suc m"]) auto
  qed
qed

lemma truncate_code_points:
  assumes "list_all code_point cps" "3 < n" "n < length (concat cps)"
  shows "\<exists>m. truncate_for_display (concat cps) n = concat (take m cps) @ ''...''"
proof -
  let ?cut = "back_up (concat cps) (n - 3)"
  have lt: "?cut < length (concat cps)" using back_up_le [of "concat cps" "n - 3"] assms by linarith
  have "\<exists>m. take ?cut (concat cps) = concat (take m cps)"
  proof (cases "?cut = 0")
    case True
    then show ?thesis by (auto intro: exI [of _ 0])
  next
    case False
    from back_up_boundary [OF False] code_point_boundary [OF assms(1) lt] show ?thesis by blast
  qed
  with assms show ?thesis by (auto simp: truncate_for_display_def Let_def)
qed

subsection \<open>Durations\<close>

definition format_duration :: "int \<Rightarrow> string" where
  "format_duration duration =
     (let total = (if duration < 0 then - duration else duration);
          days = total div 86400; total = total mod 86400;
          hours = total div 3600; total = total mod 3600;
          minutes = total div 60; seconds = total mod 60 in
      if days > 0 then int_to_string days @ ''d '' @ int_to_string hours @ ''h ''
                         @ int_to_string minutes @ ''m '' @ int_to_string seconds @ ''s''
      else if hours > 0 then int_to_string hours @ ''h '' @ int_to_string minutes @ ''m ''
                               @ int_to_string seconds @ ''s''
      else if minutes > 0 then int_to_string minutes @ ''m '' @ int_to_string seconds @ ''s''
      else int_to_string seconds @ ''s'')"

definition format_eta :: "int \<Rightarrow> string" where
  "format_eta duration =
     (if duration \<le> 0 then ''--''
      else
       (let days = duration div 86400; total = duration mod 86400;
            hours = total div 3600; total = total mod 3600; minutes = total div 60 in
        if days > 0 then ''~'' @ int_to_string days @ ''d '' @ int_to_string hours @ ''h''
        else if hours > 0 then ''~'' @ int_to_string hours @ ''h '' @ int_to_string minutes @ ''m''
        else if minutes > 0 then ''~'' @ int_to_string minutes @ ''m '' @ int_to_string (total mod 60) @ ''s''
        else ''~'' @ int_to_string total @ ''s''))"

text \<open>
  Reading a duration back: a number, its unit letter, an optional space, and so on; the value is
  the sum of the parts.
\<close>

fun unit_seconds :: "char \<Rightarrow> nat" where
  "unit_seconds c = (if c = CHR ''d'' then 86400 else if c = CHR ''h'' then 3600
                     else if c = CHR ''m'' then 60 else if c = CHR ''s'' then 1 else 0)"

fun read_duration :: "nat \<Rightarrow> string \<Rightarrow> nat" where
  "read_duration acc [] = 0"
| "read_duration acc (c # cs) =
     (if is_digit c then read_duration (acc * 10 + digit_val c) cs
      else acc * unit_seconds c + read_duration 0 cs)"

lemma read_duration_digits:
  "list_all is_digit ds \<Longrightarrow>
   read_duration acc (ds @ r) = read_duration (acc * 10 ^ length ds + digits_val ds) r"
  by (induction ds arbitrary: acc) (auto simp: algebra_simps)

lemma read_duration_int:
  "0 \<le> i \<Longrightarrow> read_duration 0 (int_to_string i @ r) = read_duration (nat i) r"
  using read_duration_digits [of "nat_digits (nat i)" 0 r]
  by (auto simp: int_to_string_def list_all_iff dest: nat_digits_digits)

lemma unit_chars [simp]:
  "\<not> is_digit (CHR ''d'')" "\<not> is_digit (CHR ''h'')" "\<not> is_digit (CHR ''m'')"
  "\<not> is_digit (CHR ''s'')" "\<not> is_digit (CHR '' '')"
  by (simp_all add: is_digit_def)

lemma read_duration_unit:
  "\<not> is_digit c \<Longrightarrow> read_duration a (c # cs) = a * unit_seconds c + read_duration 0 cs"
  by simp

lemma read_duration_parts:
  assumes "0 \<le> d" "0 \<le> h" "0 \<le> m" "0 \<le> s"
  shows "int (read_duration 0 (int_to_string s @ ''s'')) = s"
    "int (read_duration 0 (int_to_string m @ ''m '' @ int_to_string s @ ''s'')) = m * 60 + s"
    "int (read_duration 0 (int_to_string h @ ''h '' @ int_to_string m @ ''m '' @ int_to_string s @ ''s''))
       = h * 3600 + m * 60 + s"
    "int (read_duration 0 (int_to_string d @ ''d '' @ int_to_string h @ ''h '' @ int_to_string m
            @ ''m '' @ int_to_string s @ ''s'')) = d * 86400 + h * 3600 + m * 60 + s"
  using assms by (simp_all add: read_duration_int)

lemma format_duration_reads: "int (read_duration 0 (format_duration d)) = \<bar>d\<bar>"
proof -
  define t where "t = \<bar>d\<bar>"
  define D H M S where "D = t div 86400" and "H = t mod 86400 div 3600"
    and "M = t mod 86400 mod 3600 div 60" and "S = t mod 86400 mod 3600 mod 60"
  have t: "(if d < 0 then - d else d) = t" by (simp add: t_def)
  have nn: "0 \<le> D" "0 \<le> H" "0 \<le> M" "0 \<le> S"
    by (simp_all add: D_def H_def M_def S_def t_def pos_imp_zdiv_nonneg_iff)
  have parts: "t = D * 86400 + H * 3600 + M * 60 + S"
    by (simp add: D_def H_def M_def S_def minus_mod_eq_div_mult [symmetric] algebra_simps)
  have "format_duration d =
     (if D > 0 then int_to_string D @ ''d '' @ int_to_string H @ ''h '' @ int_to_string M @ ''m ''
                      @ int_to_string S @ ''s''
      else if H > 0 then int_to_string H @ ''h '' @ int_to_string M @ ''m '' @ int_to_string S @ ''s''
      else if M > 0 then int_to_string M @ ''m '' @ int_to_string S @ ''s''
      else int_to_string S @ ''s'')"
    unfolding format_duration_def t Let_def D_def H_def M_def S_def ..
  then show ?thesis
    unfolding t_def [symmetric] using parts nn by (simp only: read_duration_parts split: if_split) linarith
qed

subsection \<open>Byte sizes\<close>

text \<open>The loop that walks the unit table while the value still reaches the next scale.\<close>

fun unit_index :: "int list \<Rightarrow> int \<Rightarrow> nat \<Rightarrow> nat \<Rightarrow> nat" where
  "unit_index [] abs_bytes i idx = idx"
| "unit_index (scale # scales) abs_bytes i idx =
     (if abs_bytes \<ge> scale then unit_index scales abs_bytes (Suc i) i else idx)"

definition binary_scales :: "int list" where
  "binary_scales = [1, 1024, 1024 ^ 2, 1024 ^ 3, 1024 ^ 4, 1024 ^ 5]"

definition binary_labels :: "string list" where
  "binary_labels = [''B'', ''KiB'', ''MiB'', ''GiB'', ''TiB'', ''PiB'']"

definition decimal_scales :: "int list" where
  "decimal_scales = [1, 1000, 1000 ^ 2, 1000 ^ 3, 1000 ^ 4, 1000 ^ 5]"

definition decimal_labels :: "string list" where
  "decimal_labels = [''B'', ''KB'', ''MB'', ''GB'', ''TB'', ''PB'']"

definition format_scaled :: "(int \<Rightarrow> int \<Rightarrow> string) \<Rightarrow> int list \<Rightarrow> string list \<Rightarrow> int \<Rightarrow> string \<Rightarrow> string" where
  "format_scaled fixed2 scales labels b suffix =
     (let negative = b < 0; abs_bytes = (if negative then - b else b);
          idx = unit_index (tl scales) abs_bytes 1 0;
          sgn_text = (if negative then ''-'' else '''') in
      if idx = 0 then sgn_text @ int_to_string abs_bytes @ '' '' @ labels ! idx @ suffix
      else sgn_text @ fixed2 abs_bytes (scales ! idx) @ '' '' @ labels ! idx @ suffix)"

definition format_binary :: "(int \<Rightarrow> int \<Rightarrow> string) \<Rightarrow> int \<Rightarrow> string \<Rightarrow> string" where
  "format_binary fixed2 b suffix = format_scaled fixed2 binary_scales binary_labels b suffix"

definition format_decimal :: "(int \<Rightarrow> int \<Rightarrow> string) \<Rightarrow> int \<Rightarrow> string \<Rightarrow> string" where
  "format_decimal fixed2 b suffix = format_scaled fixed2 decimal_scales decimal_labels b suffix"

definition format_bytes :: "(int \<Rightarrow> int \<Rightarrow> string) \<Rightarrow> int \<Rightarrow> string" where
  "format_bytes fixed2 b = format_binary fixed2 b ''''"

definition format_decimal_bytes :: "(int \<Rightarrow> int \<Rightarrow> string) \<Rightarrow> int \<Rightarrow> string" where
  "format_decimal_bytes fixed2 b = format_decimal fixed2 b ''''"

definition format_rate :: "(int \<Rightarrow> int \<Rightarrow> string) \<Rightarrow> int \<Rightarrow> string" where
  "format_rate fixed2 bps = format_binary fixed2 (max bps 0) ''/s''"

lemma unit_index_binary:
  assumes "0 \<le> b"
  shows "let idx = unit_index (tl binary_scales) b 1 0 in
     idx < 6 \<and> (idx \<noteq> 0 \<longrightarrow> binary_scales ! idx \<le> b) \<and>
     (idx < 5 \<longrightarrow> b < binary_scales ! Suc idx)"
  using assms by (auto simp: binary_scales_def Let_def)

subsection \<open>Properties\<close>

text \<open>
  Escaped text cannot open or close an HTML tag, and a reader of the entities sees exactly the
  original text: escaping is injective.
\<close>

theorem escape_html_safe_and_faithful:
  "CHR ''<'' \<notin> set (escape_html s) \<and> CHR ''>'' \<notin> set (escape_html s) \<and>
   unescape_html (escape_html s) = s \<and> (escape_html s = escape_html s' \<longrightarrow> s = s')"
  using escape_html_safe [of s] unescape_escape by metis

theorem escape_html_safe_and_faithful_witness:
  "unescape_html (escape_html ''<b>&amp;'') = ''<b>&amp;'' \<and> escape_html ''<'' \<noteq> escape_html ''&lt;''"
  using escape_html_safe_and_faithful [of "''<b>&amp;''" "[]"]
    escape_html_safe_and_faithful [of "''<''" "''&lt;''"] by auto

text \<open>
  Truncation keeps the text within the byte bound and, on UTF-8 text, cuts only between code
  points: the result is a sequence of whole code points followed by an ellipsis.
\<close>

theorem truncate_for_display_correct:
  assumes "list_all code_point cps" "3 < n" "n < length (concat cps)"
  shows "length (truncate_for_display (concat cps) n) \<le> n \<and>
    (\<exists>m. truncate_for_display (concat cps) n = concat (take m cps) @ ''...'')"
  using truncate_length truncate_code_points [OF assms] by blast

theorem truncate_for_display_correct_witness:
  "length (truncate_for_display (concat [''a'', ''b'', ''c'', [CHR 0xC3, CHR 0xA9], ''d'']) 5) \<le> 5"
  using truncate_for_display_correct [of "[''a'', ''b'', ''c'', [CHR 0xC3, CHR 0xA9], ''d'']" 5]
  by (simp add: code_point_def is_continuation_def)

text \<open>
  A formatted duration, read back unit by unit, is the number of seconds that was formatted
  (the magnitude for a negative duration), so no unit is dropped or counted twice.
\<close>

theorem format_duration_roundtrip: "int (read_duration 0 (format_duration d)) = \<bar>d\<bar>"
  by (rule format_duration_reads)

end
