(* ===== verification/Pipeline.thy ===== *)
theory Pipeline
  imports Ports Formatting
begin

text \<open>
  The part that \<open>src/application/mirror_url.cpp\<close> and \<open>src/application/leech_url.cpp\<close> share word for
  word: persistence and failure helpers, the per-file upload pool and the poll loop. The variables
  the lambdas of \<open>execute\<close> capture are the record \<open>job\<close>, the local variables the loop changes are the
  record \<open>vars\<close>. The waiting loops may run for ever, so they take fuel; \<open>Fuel_Out\<close> stands for a run
  that has not returned yet, and what is proved of it is what holds at every moment of a run.
\<close>

subsection \<open>Jobs and control flow\<close>

record job =
  j_who :: string
  j_chat :: chat_id
  j_msg :: message_id
  j_id :: task_id
  j_flag :: nat
  j_dk :: downloader_kind
  j_gid :: gid
  j_up :: uploader
  j_cfg :: upload_config
  j_pool :: int

record vars =
  v_task :: task
  v_transitioned :: bool
  v_complete :: bool
  v_status :: download_status

datatype 'a flow = Fuel_Out | Return "task_id res" | Next 'a

definition flow_bind ::
    "('w, 'a flow) state \<Rightarrow> ('a \<Rightarrow> ('w, 'b flow) state) \<Rightarrow> ('w, 'b flow) state" where
  "flow_bind m f = do {
     r \<leftarrow> m;
     (case r of
        Fuel_Out \<Rightarrow> State_Monad.return Fuel_Out
      | Return x \<Rightarrow> State_Monad.return (Return x)
      | Next a \<Rightarrow> f a)
   }"

subsection \<open>Helpers of execute\<close>

definition persist_best_effort :: "('e, 's) ports \<Rightarrow> task \<Rightarrow> ('s world, unit) state" where
  "persist_best_effort P t = do { _ \<leftarrow> save_task P t; State_Monad.return () }"

definition failed_html :: "string \<Rightarrow> app_error \<Rightarrow> string" where
  "failed_html stage err =
     ''<b><u>Failed</u></b>'' @ newline @
     ''<b>Stage:</b> <code>'' @ escape_html stage @ ''</code>'' @ newline @
     ''<b>Reason:</b> '' @ escape_html (friendly_error_label (err_code err)) @ newline @
     ''<blockquote>'' @ escape_html (truncate_for_display (err_message err) 512) @ ''</blockquote>''"

definition fail_task ::
    "('e, 's) ports \<Rightarrow> chat_id \<Rightarrow> message_id \<Rightarrow> task \<Rightarrow> string \<Rightarrow> app_error \<Rightarrow> ('s world, 'a flow) state" where
  "fail_task P c m t stage err = do {
     now \<leftarrow> clock P;
     persist_best_effort P (snd (mark_failed now (err_message err) t));
     _ \<leftarrow> edit_html P c m (failed_html stage err);
     State_Monad.return (Return (Inl err))
   }"

definition fail_with ::
    "('e, 's) ports \<Rightarrow> chat_id \<Rightarrow> message_id \<Rightarrow> task \<Rightarrow> string \<Rightarrow> error_code \<Rightarrow> string \<Rightarrow>
     ('s world, 'a flow) state" where
  "fail_with P c m t stage code msg = fail_task P c m t stage (mk_error code msg)"

subsection \<open>The upload pool\<close>

definition spawn_upload :: "job \<Rightarrow> string \<Rightarrow> ('s world, unit) state" where
  "spawn_upload j f = modify (\<lambda>w.
     let p = w_pipe w in
     if f \<in> queued p then w
     else log_effect (E_Spawn (j_up j) f (j_cfg j))
            (w\<lparr>w_pipe := p\<lparr>queued := insert f (queued p), in_flight := in_flight p + 1,
                         active := f # active p\<rparr>\<rparr>))"

definition cancel_all_uploads :: "('s world, unit) state" where
  "cancel_all_uploads = emit E_CancelUploads"

fun drain_uploads :: "nat \<Rightarrow> ('e, 's) ports \<Rightarrow> ('s world, unit flow) state" where
  "drain_uploads 0 P = State_Monad.return Fuel_Out"
| "drain_uploads (Suc n) P = do {
     k \<leftarrow> gets (\<lambda>w. in_flight (w_pipe w));
     if k = 0 then State_Monad.return (Next ())
     else do { timer_wait P 200; drain_uploads n P }
   }"

definition can_spawn_more :: "job \<Rightarrow> ('s world, bool) state" where
  "can_spawn_more j = gets (\<lambda>w. in_flight (w_pipe w) < j_pool j)"

definition enter_uploading ::
    "('e, 's) ports \<Rightarrow> task \<Rightarrow> bool \<Rightarrow> ('s world, task \<times> bool) state" where
  "enter_uploading P t transitioned =
     (if transitioned then State_Monad.return (t, transitioned)
      else do {
        now \<leftarrow> clock P;
        (case begin_upload now t of
           (Inr _, t') \<Rightarrow> do { persist_best_effort P t'; State_Monad.return (t', True) }
         | (Inl _, t') \<Rightarrow> State_Monad.return (t', transitioned))
      })"

fun spawn_files ::
    "('e, 's) ports \<Rightarrow> job \<Rightarrow> string list \<Rightarrow> task \<Rightarrow> bool \<Rightarrow> ('s world, task \<times> bool) state" where
  "spawn_files P j [] t transitioned = State_Monad.return (t, transitioned)"
| "spawn_files P j (f # fs) t transitioned = do {
     more \<leftarrow> can_spawn_more j;
     if \<not> more then State_Monad.return (t, transitioned)
     else do {
       already \<leftarrow> gets (\<lambda>w. f \<in> queued (w_pipe w));
       if already then spawn_files P j fs t transitioned
       else do {
         (t', transitioned') \<leftarrow> enter_uploading P t transitioned;
         spawn_upload j f;
         spawn_files P j fs t' transitioned'
       }
     }
   }"

subsection \<open>The poll loop\<close>

definition cancelled_html :: string where
  "cancelled_html =
     ''<b><u>Cancelled</u></b>'' @ newline @ ''<blockquote>Task cancelled by request.</blockquote>''"

definition stop_uploads ::
    "nat \<Rightarrow> ('e, 's) ports \<Rightarrow> ('s world, 'a flow) state \<Rightarrow> ('s world, 'a flow) state" where
  "stop_uploads n P k = do {
     cancel_all_uploads;
     flow_bind (drain_uploads n P) (\<lambda>_. k)
   }"

definition cancel_job :: "nat \<Rightarrow> ('e, 's) ports \<Rightarrow> job \<Rightarrow> task \<Rightarrow> ('s world, 'a flow) state" where
  "cancel_job n P j t = stop_uploads n P (do {
     _ \<leftarrow> dl_remove P (j_dk j) (j_gid j) True;
     now \<leftarrow> clock P;
     persist_best_effort P (snd (mark_cancelled now t));
     _ \<leftarrow> edit_html P (j_chat j) (j_msg j) cancelled_html;
     State_Monad.return (Return (Inl (mk_error EC_Cancelled (j_who j @ '': cancelled by user''))))
   })"

definition on_status ::
    "nat \<Rightarrow> ('e, 's) ports \<Rightarrow> job \<Rightarrow> vars \<Rightarrow> download_status \<Rightarrow> ('s world, vars flow) state" where
  "on_status n P j v st =
     (if dl_state st = DS_Error
      then stop_uploads n P
             (fail_with P (j_chat j) (j_msg j) (v_task v) ''download'' EC_Aria2Rpc
                (case dl_error_message st of Some msg \<Rightarrow> msg | None \<Rightarrow> ''downloader reported error''))
      else if dl_state st = DS_Removed
      then stop_uploads n P
             (fail_with P (j_chat j) (j_msg j) (v_task v) ''download'' EC_Cancelled
                ''download removed externally'')
      else do {
        (t, transitioned) \<leftarrow>
          (if supports_pipelining (j_dk j)
           then spawn_files P j (dl_files st) (v_task v) (v_transitioned v)
           else State_Monad.return (v_task v, v_transitioned v));
        _ \<leftarrow> render_progress P (j_chat j) [st];
        State_Monad.return (Next \<lparr>v_task = t, v_transitioned = transitioned,
          v_complete = (v_complete v \<or> dl_state st = DS_Complete \<or> dl_state st = DS_Seeding),
          v_status = st\<rparr>)
      })"

definition poll_download ::
    "nat \<Rightarrow> ('e, 's) ports \<Rightarrow> job \<Rightarrow> vars \<Rightarrow> ('s world, vars flow) state" where
  "poll_download n P j v = do {
     status \<leftarrow> dl_status P (j_dk j) (j_gid j);
     (case status of
        Inl e \<Rightarrow> stop_uploads n P (fail_task P (j_chat j) (j_msg j) (v_task v) ''download'' e)
      | Inr st \<Rightarrow> on_status n P j v st)
   }"

definition fail_uploads :: "nat \<Rightarrow> ('e, 's) ports \<Rightarrow> job \<Rightarrow> task \<Rightarrow> ('s world, 'a flow) state" where
  "fail_uploads n P j t = stop_uploads n P (do {
     e \<leftarrow> gets (\<lambda>w. case first_error (w_pipe w) of
                     Some e \<Rightarrow> e | None \<Rightarrow> mk_error EC_Unknown ''upload failed'');
     _ \<leftarrow> dl_remove P (j_dk j) (j_gid j) False;
     fail_task P (j_chat j) (j_msg j) t ''upload'' e
   })"

definition job_cancelled :: "('e, 's) ports \<Rightarrow> job \<Rightarrow> ('s world, bool) state" where
  "job_cancelled P j =
     gets (\<lambda>w. p_coroutine_cancelled P (w_trace w) \<or> guard_cancelled (j_flag j) (w_reg w))"

fun poll_loop :: "nat \<Rightarrow> ('e, 's) ports \<Rightarrow> job \<Rightarrow> vars \<Rightarrow> ('s world, vars flow) state" where
  "poll_loop 0 P j v = State_Monad.return Fuel_Out"
| "poll_loop (Suc n) P j v = do {
     cancelled \<leftarrow> job_cancelled P j;
     if cancelled then cancel_job n P j (v_task v)
     else flow_bind
       (if v_complete v then State_Monad.return (Next v) else poll_download n P j v)
       (\<lambda>v. do {
          (all_uploads_done, any_upload_failed) \<leftarrow>
            gets (\<lambda>w. (in_flight (w_pipe w) = 0, failed (w_pipe w) > 0));
          if any_upload_failed then fail_uploads n P j (v_task v)
          else if v_complete v \<and> all_uploads_done then State_Monad.return (Next v)
          else do {
            timer_wait P (if v_complete v then 200 else 3000);
            poll_loop n P j v
          }
        })
   }"

subsection \<open>Around the loop\<close>

text \<open>The constructor: a pool of at least one upload.\<close>

definition pool_size :: "int \<Rightarrow> int" where
  "pool_size n = (if n > 0 then n else 1)"

text \<open>\<open>ActiveTaskGuard\<close>: registers on construction, unregisters on every exit.\<close>

definition with_active_guard ::
    "task_id \<Rightarrow> (nat \<Rightarrow> ('s world, 'a) state) \<Rightarrow> ('s world, 'a) state" where
  "with_active_guard i body = do {
     flag \<leftarrow> State (\<lambda>w. case register_task i (w_reg w) of (a, r) \<Rightarrow> (a, w\<lparr>w_reg := r\<rparr>));
     x \<leftarrow> body flag;
     modify (\<lambda>w. w\<lparr>w_reg := unregister i (w_reg w)\<rparr>);
     State_Monad.return x
   }"

text \<open>From \<open>start_download\<close> to the attached downloader.\<close>

definition launch ::
    "('e, 's) ports \<Rightarrow> chat_id \<Rightarrow> message_id \<Rightarrow> downloader_kind \<Rightarrow> string \<Rightarrow> task \<Rightarrow>
     ('s world, (gid \<times> task) flow) state" where
  "launch P c m dk url t = do {
     now \<leftarrow> clock P;
     (case start_download now t of
        (Inl e, t) \<Rightarrow> fail_task P c m t ''state'' e
      | (Inr _, t) \<Rightarrow> do {
          persist_best_effort P t;
          g \<leftarrow> dl_add_uri P dk url;
          (case g of
             Inl e \<Rightarrow> fail_task P c m t ''download'' e
           | Inr gid \<Rightarrow> do {
               now \<leftarrow> clock P;
               let t = attach_downloader now gid dk t;
               persist_best_effort P t;
               State_Monad.return (Next (gid, t))
             })
        })
   }"

definition begin_job :: "task \<Rightarrow> vars" where
  "begin_job t = \<lparr>v_task = t, v_transitioned = False, v_complete = False, v_status = empty_status\<rparr>"

text \<open>The last section of both use cases; only the HTML differs.\<close>

definition complete_job ::
    "('e, 's) ports \<Rightarrow> job \<Rightarrow> task \<Rightarrow> bool \<Rightarrow> string \<Rightarrow> ('s world, unit flow) state" where
  "complete_job P j t transitioned html = do {
     now \<leftarrow> clock P;
     let t = (if transitioned then t else snd (begin_upload now t));
     (case mark_completed now t of
        (Inl e, t) \<Rightarrow> fail_task P (j_chat j) (j_msg j) t ''state'' e
      | (Inr _, t) \<Rightarrow> do {
          persist_best_effort P t;
          _ \<leftarrow> dl_remove P (j_dk j) (j_gid j) False;
          _ \<leftarrow> edit_html P (j_chat j) (j_msg j) html;
          State_Monad.return (Return (Inr (j_id j)))
        })
   }"

definition flow_result :: "'a flow \<Rightarrow> task_id res option" where
  "flow_result r = (case r of Return x \<Rightarrow> Some x | _ \<Rightarrow> None)"

end
