(* ===== verification/Pipeline_Invariants.thy ===== *)
theory Pipeline_Invariants
  imports Pipeline
begin

text \<open>
  What every run of the pipeline keeps, for every behaviour of the ports and every interleaving with
  the upload coroutines. The invariant ties the shared counters to the history and bounds the pool;
  the locale \<open>history\<close> gives the rule for each kind of awaited call, and the lemmas on the helpers
  and the loop are proved once from these rules.
\<close>

subsection \<open>Reading the history\<close>

fun running :: "effect list \<Rightarrow> string list" where
  "running [] = []"
| "running (E_Spawn u f c # h) = f # running h"
| "running (E_UploadDone f r # h) = remove1 f (running h)"
| "running (_ # h) = running h"

fun spawned :: "effect list \<Rightarrow> string list" where
  "spawned [] = []"
| "spawned (E_Spawn u f c # h) = f # spawned h"
| "spawned (_ # h) = spawned h"

fun upload_errors :: "effect list \<Rightarrow> app_error list" where
  "upload_errors [] = []"
| "upload_errors (E_UploadDone f (Inl e) # h) = upload_errors h @ [e]"
| "upload_errors (_ # h) = upload_errors h"

fun upload_successes :: "effect list \<Rightarrow> upload_result list" where
  "upload_successes [] = []"
| "upload_successes (E_UploadDone f (Inr r) # h) = upload_successes h @ [r]"
| "upload_successes (_ # h) = upload_successes h"

fun last_save :: "effect list \<Rightarrow> task option" where
  "last_save [] = None"
| "last_save (E_Save t r # h) = Some t"
| "last_save (_ # h) = last_save h"

text \<open>No file is uploaded twice, the pool is never exceeded, only running uploads finish.\<close>

fun hist_ok :: "int \<Rightarrow> effect list \<Rightarrow> bool" where
  "hist_ok pool [] = True"
| "hist_ok pool (E_Spawn u f c # h) =
     (f \<notin> set (spawned h) \<and> int (length (running h)) < pool \<and> hist_ok pool h)"
| "hist_ok pool (E_UploadDone f r # h) = (f \<in> set (running h) \<and> hist_ok pool h)"
| "hist_ok pool (_ # h) = hist_ok pool h"

fun neutral :: "effect \<Rightarrow> bool" where
  "neutral (E_Spawn u f c) = False"
| "neutral (E_UploadDone f r) = False"
| "neutral (E_Save t r) = False"
| "neutral _ = True"

lemma neutral_history:
  assumes "neutral e"
  shows "running (e # h) = running h" "spawned (e # h) = spawned h"
    "upload_errors (e # h) = upload_errors h" "upload_successes (e # h) = upload_successes h"
    "last_save (e # h) = last_save h" "hist_ok pool (e # h) = hist_ok pool h"
  using assms by (cases e; simp)+

lemma hist_ok_bound: "hist_ok pool h \<Longrightarrow> 0 \<le> pool \<Longrightarrow> int (length (running h)) \<le> pool"
  by (induction h rule: running.induct) (auto simp: length_remove1)

lemma hist_ok_suffix: "hist_ok pool (h' @ h) \<Longrightarrow> hist_ok pool h"
proof (induction h')
  case (Cons e h')
  then show ?case by (cases e) auto
qed simp

lemma running_spawned: "hist_ok pool h \<Longrightarrow> set (running h) \<subseteq> set (spawned h)"
  by (induction h rule: running.induct) (auto dest: notin_set_remove1)

lemma spawned_distinct: "hist_ok pool h \<Longrightarrow> distinct (spawned h)"
  by (induction h rule: spawned.induct) auto

lemma spawned_accounted:
  "hist_ok pool h \<Longrightarrow>
   length (spawned h) = length (running h) + length (upload_errors h) + length (upload_successes h)"
proof (induction h)
  case (Cons e h)
  show ?case
  proof (cases e)
    case (E_UploadDone f r)
    with Cons have "f \<in> set (running h)" by simp
    then have "0 < length (running h)" by (rule length_pos_if_in_set)
    with Cons E_UploadDone show ?thesis by (cases r) (auto simp: length_remove1)
  qed (use Cons in auto)
qed simp

subsection \<open>The counters follow the history\<close>

definition linked :: "pipeline \<Rightarrow> effect list \<Rightarrow> bool" where
  "linked p h = (active p = running h \<and> in_flight p = int (length (running h)) \<and>
     queued p = set (spawned h) \<and> failed p = int (length (upload_errors h)) \<and>
     completed p = int (length (upload_successes h)) \<and> results p = upload_successes h \<and>
     first_error p = (case upload_errors h of [] \<Rightarrow> None | e # _ \<Rightarrow> Some e))"

lemma linked_empty [simp]: "linked empty_pipeline []"
  by (simp add: linked_def empty_pipeline_def)

lemma linked_neutral: "neutral e \<Longrightarrow> linked p (e # h) = linked p h"
  by (simp add: linked_def neutral_history)

lemma linked_save: "linked p (E_Save t r # h) = linked p h"
  by (simp add: linked_def)

lemma linked_finished:
  assumes "linked p h" "f \<in> set (active p)"
  shows "linked (upload_finished f r p) (E_UploadDone f r # h)"
proof -
  from assms have "f \<in> set (running h)" by (simp add: linked_def)
  then have "Suc (length (remove1 f (running h))) = length (running h)"
    using length_pos_if_in_set [of f "running h"] by (simp add: length_remove1)
  then have "int (length (remove1 f (running h))) = int (length (running h)) - 1" by linarith
  with assms show ?thesis
    by (cases r) (auto simp: linked_def upload_finished_def Let_def split: list.splits)
qed

definition ok :: "(effect \<Rightarrow> bool) \<Rightarrow> int \<Rightarrow> 's world \<Rightarrow> bool" where
  "ok A pool w = (linked (w_pipe w) (w_trace w) \<and> hist_ok pool (w_trace w) \<and> list_all A (w_trace w))"

text \<open>What an await cannot undo: finished uploads stay finished, and nothing is spawned.\<close>

definition later :: "'s world \<Rightarrow> 's world \<Rightarrow> bool" where
  "later w w' = (length (running (w_trace w')) \<le> length (running (w_trace w)) \<and>
     spawned (w_trace w') = spawned (w_trace w) \<and> set (w_trace w) \<subseteq> set (w_trace w') \<and>
     (running (w_trace w) = [] \<longrightarrow> upload_errors (w_trace w') = upload_errors (w_trace w)))"

lemma later_refl [simp]: "later w w"
  by (simp add: later_def)

lemma later_trans: "later w w' \<Longrightarrow> later w' w'' \<Longrightarrow> later w w''"
  by (auto simp: later_def)

lemma later_idle: "later w w' \<Longrightarrow> running (w_trace w) = [] \<Longrightarrow> running (w_trace w') = []"
  by (simp add: later_def)

lemma wp_flow_bind:
  assumes "wp m R w"
    and "\<And>w'. R Fuel_Out w' \<Longrightarrow> Q Fuel_Out w'"
    and "\<And>x w'. R (Return x) w' \<Longrightarrow> Q (Return x) w'"
    and "\<And>a w'. R (Next a) w' \<Longrightarrow> wp (f a) Q w'"
  shows "wp (flow_bind m f) Q w"
  unfolding flow_bind_def wp_bind
proof (rule wp_mono [OF assms(1)])
  fix a w' assume "R a w'"
  then show "wp (case a of Fuel_Out \<Rightarrow> State_Monad.return Fuel_Out
      | Return x \<Rightarrow> State_Monad.return (Return x) | Next a \<Rightarrow> f a) Q w'"
    using assms(2-4) by (cases a) auto
qed

subsection \<open>Rules for the awaited calls\<close>

locale history =
  fixes A :: "effect \<Rightarrow> bool"
    and pool :: int
  assumes done_allowed: "A (E_UploadDone f r)"
begin

lemma ok_event:
  assumes "ok A pool w"
  shows "ok A pool (run_event ev w)" "later w (run_event ev w)"
    "last_save (w_trace (run_event ev w)) = last_save (w_trace w)"
  using assms
  by (cases ev; auto simp: ok_def later_def linked_finished done_allowed length_remove1; simp add: linked_def)+

lemma ok_suspend:
  assumes "ok A pool w"
  shows "ok A pool (suspend P w) \<and> later w (suspend P w) \<and>
    last_save (w_trace (suspend P w)) = last_save (w_trace w)"
proof -
  have "ok A pool (fold run_event evs w) \<and> later w (fold run_event evs w) \<and>
      last_save (w_trace (fold run_event evs w)) = last_save (w_trace w)" for evs
    using assms
  proof (induction evs arbitrary: w)
    case (Cons ev evs)
    from ok_event [OF Cons.prems] Cons.IH [of "run_event ev w"] show ?case
      by (auto intro: later_trans)
  qed simp
  then show ?thesis by (simp add: suspend_def)
qed

lemma ok_log:
  assumes "ok A pool w" "neutral e" "A e"
  shows "ok A pool (log_effect e w)" "later w (log_effect e w)"
    "last_save (w_trace (log_effect e w)) = last_save (w_trace w)"
  using assms by (auto simp: ok_def later_def log_effect_def linked_neutral neutral_history)

lemma wp_await:
  assumes "ok A pool w" "\<And>r. A (eff r)" "\<And>r. neutral (eff r)"
    and "\<And>r w'. ok A pool w' \<Longrightarrow> later w w' \<Longrightarrow>
      last_save (w_trace w') = last_save (w_trace w) \<Longrightarrow> eff r \<in> set (w_trace w') \<Longrightarrow> Q r w'"
  shows "wp (await P resp eff) Q w"
proof -
  let ?r = "resp (w_trace w)"
  let ?w = "log_effect (eff ?r) w"
  note l = ok_log [OF assms(1,3,2), of ?r]
  note s = ok_suspend [OF l(1), of P]
  have "eff ?r \<in> set (w_trace (suspend P ?w))" using s by (auto simp: later_def log_effect_def)
  with assms(4) s l(3) later_trans [OF l(2)] show ?thesis by (simp add: wp_def await_def Let_def)
qed

lemma wp_save:
  assumes "ok A pool w" "\<And>r. A (E_Save t r)"
    and "\<And>r w'. ok A pool w' \<Longrightarrow> later w w' \<Longrightarrow> last_save (w_trace w') = Some t \<Longrightarrow>
      E_Save t r \<in> set (w_trace w') \<Longrightarrow> Q r w'"
  shows "wp (save_task P t) Q w"
proof -
  obtain r s where rs: "repo_save (p_repo P) (p_env P (w_trace w)) t (w_store w) = (r, s)" by fastforce
  let ?w = "log_effect (E_Save t r) (w\<lparr>w_store := s\<rparr>)"
  have "ok A pool ?w" using assms(1,2) by (simp add: ok_def log_effect_def linked_save)
  from ok_suspend [OF this, of P] have "Q r (suspend P ?w)"
    by (intro assms(3)) (auto simp: later_def log_effect_def)
  with rs show ?thesis by (simp add: wp_def save_task_def)
qed

lemma wp_persist:
  assumes "ok A pool w" "\<And>r. A (E_Save t r)"
    and "\<And>w'. ok A pool w' \<Longrightarrow> later w w' \<Longrightarrow> last_save (w_trace w') = Some t \<Longrightarrow> Q () w'"
  shows "wp (persist_best_effort P t) Q w"
  unfolding persist_best_effort_def wp_bind wp_return by (rule wp_save [OF assms(1,2)]) (rule assms(3))

end

subsection \<open>Progress\<close>

text \<open>
  The scheduler is fair to the uploads if at every await where uploads are running one of them
  finishes. The waiting loops then need no more fuel than there are running uploads.
\<close>

definition fair :: "('e, 's) ports \<Rightarrow> bool" where
  "fair P = (\<forall>h. running h \<noteq> [] \<longrightarrow> (\<exists>r. Ev_Upload (hd (running h)) r \<in> set (p_events P h)))"

lemma active_finished [simp]: "active (upload_finished f r p) = remove1 f (active p)"
  by (simp add: upload_finished_def Let_def split: sum.split)

lemma length_remove1_less: "f \<in> set xs \<Longrightarrow> length (remove1 f xs) < length xs"
  using length_pos_if_in_set [of f xs] by (simp add: length_remove1)

lemma active_event_le: "length (active (w_pipe (run_event ev w))) \<le> length (active (w_pipe w))"
  by (cases ev) (auto simp: length_remove1)

lemma active_events_le: "length (active (w_pipe (fold run_event evs w))) \<le> length (active (w_pipe w))"
  by (induction evs arbitrary: w) (auto intro: order_trans active_event_le)

lemma active_events_less:
  assumes "Ev_Upload f r \<in> set evs" "f \<in> set (active (w_pipe w))"
  shows "length (active (w_pipe (fold run_event evs w))) < length (active (w_pipe w))"
  using assms
proof (induction evs arbitrary: w)
  case (Cons ev evs)
  have le: "length (active (w_pipe (fold run_event evs (run_event ev w))))
      \<le> length (active (w_pipe (run_event ev w)))" by (rule active_events_le)
  show ?case
  proof (cases ev)
    case (Ev_Reg op)
    with Cons.IH [of "run_event ev w"] Cons.prems show ?thesis by simp
  next
    case (Ev_Upload g r')
    show ?thesis
    proof (cases "g \<in> set (active (w_pipe w))")
      case True
      with le Ev_Upload length_remove1_less [OF True] show ?thesis by simp
    next
      case False
      with Ev_Upload Cons show ?thesis by auto
    qed
  qed
qed simp

lemma fair_wait:
  assumes "fair P" "linked (w_pipe w) (w_trace w)" "running (w_trace w) \<noteq> []"
  shows "length (active (w_pipe (snd (run_state (timer_wait P ms) w)))) < length (active (w_pipe w))"
proof -
  let ?w = "log_effect (E_Wait ms) w"
  from assms(3) obtain r where "Ev_Upload (hd (running (w_trace ?w))) r \<in> set (p_events P (w_trace ?w))"
    using assms(1) [unfolded fair_def, rule_format, of "E_Wait ms # w_trace w"]
    by (auto simp: log_effect_def)
  moreover have "hd (running (w_trace ?w)) \<in> set (active (w_pipe ?w))"
    using assms(2,3) by (simp add: linked_def log_effect_def)
  ultimately have "length (active (w_pipe (suspend P ?w))) < length (active (w_pipe ?w))"
    unfolding suspend_def by (rule active_events_less)
  then show ?thesis by (simp add: timer_wait_def await_def log_effect_def)
qed

subsection \<open>The helpers and the loop\<close>

text \<open>Every effect of a job is addressed to its own chat, message, backend, download and task.\<close>

fun addressed :: "job \<Rightarrow> effect \<Rightarrow> bool" where
  "addressed j (E_Send c _ _) = (c = j_chat j)"
| "addressed j (E_Edit c m _ _) = (c = j_chat j \<and> m = j_msg j)"
| "addressed j (E_AddUri dk _ _) = (dk = j_dk j)"
| "addressed j (E_Pause _ _ _) = False"
| "addressed j (E_Resume _ _ _) = False"
| "addressed j (E_Remove dk g _ _) = (dk = j_dk j \<and> g = j_gid j)"
| "addressed j (E_Status dk g _) = (dk = j_dk j \<and> g = j_gid j)"
| "addressed j (E_Render c _ _) = (c = j_chat j)"
| "addressed j (E_UploadFile u _ c _) = (u = j_up j \<and> c = j_cfg j)"
| "addressed j (E_UploadDirectory u _ c _) = (u = j_up j \<and> c = j_cfg j)"
| "addressed j (E_Settings _ _) = True"
| "addressed j (E_Save t _) = (md_id (metadata t) = j_id j \<and> md_chat (metadata t) = j_chat j)"
| "addressed j (E_Find _ _) = False"
| "addressed j (E_Incomplete _) = False"
| "addressed j (E_Wait _) = True"
| "addressed j (E_Spawn u _ c) = (u = j_up j \<and> c = j_cfg j)"
| "addressed j E_CancelUploads = True"
| "addressed j (E_UploadDone _ _) = True"

definition owns :: "job \<Rightarrow> task \<Rightarrow> bool" where
  "owns j t = (md_id (metadata t) = j_id j \<and> md_chat (metadata t) = j_chat j)"

lemma owns_op [simp]: "owns j (snd (apply_op now op t)) = owns j t"
  by (cases op) (auto simp: owns_def task_op_defs)

definition vars_ok :: "job \<Rightarrow> vars \<Rightarrow> bool" where
  "vars_ok j v = (owns j (v_task v) \<and>
     state (v_task v) = (if v_transitioned v then Uploading else Downloading))"

text \<open>The job returned an error: no upload runs and the last write says why.\<close>

definition stopped :: "job \<Rightarrow> task_id res \<Rightarrow> effect list \<Rightarrow> bool" where
  "stopped j x h = (running h = [] \<and> (\<exists>e t. x = Inl e \<and> last_save h = Some t \<and>
     (state t = Failed \<and> error_message t = Some (err_message e) \<or>
      state t = Cancelled \<and> e = mk_error EC_Cancelled (j_who j @ '': cancelled by user'') \<and>
      (\<exists>r. E_Remove (j_dk j) (j_gid j) True r \<in> set h))))"

interpretation job: history "addressed j" pool for j pool
  by unfold_locales simp

context history
begin

lemma wp_fail:
  fixes w :: "'s world"
  assumes "ok A pool w" "running (w_trace w) = []" "owns j t" "\<not> is_terminal t"
    and A: "\<And>u r. owns j u \<Longrightarrow> A (E_Save u r)" "\<And>html r. A (E_Edit (j_chat j) (j_msg j) html r)"
    and Q: "\<And>w'. ok A pool w' \<Longrightarrow> stopped j (Inl e) (w_trace w') \<Longrightarrow> Q (Return (Inl e)) w'"
  shows "wp (fail_task P (j_chat j) (j_msg j) t stage e) Q w"
proof -
  let ?t = "snd (mark_failed (p_now P (w_trace w)) (err_message e) t)"
  have t: "state ?t = Failed" "error_message ?t = Some (err_message e)" "owns j ?t"
    using assms(3,4) by (auto simp: owns_def task_op_defs is_terminal_def)
  show ?thesis
    unfolding fail_task_def wp_bind wp_return wp_clock edit_html_def
    by (rule wp_persist [OF assms(1)], rule A(1) [OF t(3)], rule wp_await, assumption, rule A(2), simp,
        rule Q, assumption, use assms(2) t in \<open>auto simp: stopped_def later_def\<close>)
qed

end

lemma wp_fail_task:
  assumes "ok (addressed j) pool w" "running (w_trace w) = []" "owns j t" "\<not> is_terminal t"
    and "\<And>w'. ok (addressed j) pool w' \<Longrightarrow> stopped j (Inl e) (w_trace w') \<Longrightarrow> Q (Return (Inl e)) w'"
  shows "wp (fail_task P (j_chat j) (j_msg j) t stage e) Q w"
  by (rule job.wp_fail [OF assms(1-4)]) (auto simp: owns_def assms(5))

lemma wp_drain_uploads:
  assumes "ok (addressed j) pool w"
    and "\<And>w'. ok (addressed j) pool w' \<Longrightarrow> Q Fuel_Out w'"
    and "\<And>w'. ok (addressed j) pool w' \<Longrightarrow> running (w_trace w') = [] \<Longrightarrow> Q (Next ()) w'"
  shows "wp (drain_uploads n P) Q w"
  using assms(1)
proof (induction n arbitrary: w)
  case 0
  then show ?case using assms(2) by simp
next
  case (Suc n)
  show ?case
  proof (cases "in_flight (w_pipe w) = 0")
    case True
    with Suc.prems have "running (w_trace w) = []" by (simp add: ok_def linked_def)
    with True Suc.prems assms(3) show ?thesis by simp
  next
    case False
    have "wp (timer_wait P 200) (\<lambda>_. wp (drain_uploads n P) Q) w"
      unfolding timer_wait_def by (rule job.wp_await [OF Suc.prems]) (simp_all add: Suc.IH)
    with False show ?thesis by simp
  qed
qed

lemma wp_stop_uploads:
  assumes "ok (addressed j) pool w"
    and "\<And>w'. ok (addressed j) pool w' \<Longrightarrow> Q Fuel_Out w'"
    and "\<And>w'. ok (addressed j) pool w' \<Longrightarrow> running (w_trace w') = [] \<Longrightarrow> wp k Q w'"
  shows "wp (stop_uploads n P k) Q w"
  unfolding stop_uploads_def cancel_all_uploads_def wp_bind wp_emit
proof (rule wp_flow_bind [where R = "\<lambda>r w'. ok (addressed j) pool w' \<and>
      (\<forall>x. r \<noteq> Return x) \<and> (r \<noteq> Fuel_Out \<longrightarrow> running (w_trace w') = [])"])
  have "ok (addressed j) pool (log_effect E_CancelUploads w)" by (rule job.ok_log [OF assms(1)]) simp_all
  then show "wp (drain_uploads n P) (\<lambda>r w'. ok (addressed j) pool w' \<and> (\<forall>x. r \<noteq> Return x) \<and>
      (r \<noteq> Fuel_Out \<longrightarrow> running (w_trace w') = [])) (log_effect E_CancelUploads w)"
    by (rule wp_drain_uploads) simp_all
qed (use assms in auto)

text \<open>What the loop and its parts guarantee when they stop.\<close>

definition loop_post :: "job \<Rightarrow> vars flow \<Rightarrow> 's world \<Rightarrow> bool" where
  "loop_post j r w = (ok (addressed j) (j_pool j) w \<and>
     (case r of
        Fuel_Out \<Rightarrow> True
      | Return x \<Rightarrow> stopped j x (w_trace w)
      | Next v \<Rightarrow> vars_ok j v))"

lemma vars_ok_live: "vars_ok j v \<Longrightarrow> owns j (v_task v) \<and> \<not> is_terminal (v_task v)"
  by (auto simp: vars_ok_def is_terminal_def split: if_splits)

lemma wp_cancel_job:
  fixes w :: "'s world"
  assumes "ok (addressed j) pool w" "owns j t" "\<not> is_terminal t"
    and "\<And>w'. ok (addressed j) pool w' \<Longrightarrow> Q Fuel_Out w'"
    and "\<And>x w'. ok (addressed j) pool w' \<Longrightarrow> stopped j x (w_trace w') \<Longrightarrow>
      (\<exists>t. last_save (w_trace w') = Some t \<and> state t = Cancelled) \<Longrightarrow> Q (Return x) w'"
  shows "wp (cancel_job n P j t) Q w"
  unfolding cancel_job_def
proof (rule wp_stop_uploads [OF assms(1)])
  fix w1 :: "'s world"
  assume w1: "ok (addressed j) pool w1" "running (w_trace w1) = []"
  have t: "state (snd (mark_cancelled now t)) = Cancelled" "owns j (snd (mark_cancelled now t))" for now
    using assms(2,3) by (auto simp: owns_def task_op_defs)
  show "wp (do { _ \<leftarrow> dl_remove P (j_dk j) (j_gid j) True; now \<leftarrow> clock P;
      persist_best_effort P (snd (mark_cancelled now t));
      _ \<leftarrow> edit_html P (j_chat j) (j_msg j) cancelled_html;
      State_Monad.return (Return (Inl (mk_error EC_Cancelled (j_who j @ '': cancelled by user''))))})
      Q w1"
    unfolding wp_bind wp_return wp_clock dl_remove_def edit_html_def
    by (rule job.wp_await [OF w1(1)], simp, simp, rule job.wp_persist, assumption,
        use t in \<open>simp add: owns_def\<close>, rule job.wp_await, assumption, simp, simp,
        use w1(2) t in \<open>auto simp: stopped_def later_def intro!: assms(5)\<close>, blast)
qed (use assms in auto)

lemma wp_fail_job:
  assumes "ok (addressed j) pool w" "owns j t" "\<not> is_terminal t"
    and "\<And>w'. ok (addressed j) pool w' \<Longrightarrow> Q Fuel_Out w'"
    and "\<And>x w'. ok (addressed j) pool w' \<Longrightarrow> stopped j x (w_trace w') \<Longrightarrow> Q (Return x) w'"
  shows "wp (stop_uploads n P (fail_task P (j_chat j) (j_msg j) t stage e)) Q w"
  by (rule wp_stop_uploads [OF assms(1)])
    (auto intro: wp_fail_task [where j = j and pool = pool] simp: assms(2-5))

lemma wp_fail_uploads:
  fixes w :: "'s world"
  assumes "ok (addressed j) pool w" "owns j t" "\<not> is_terminal t"
    and "\<And>w'. ok (addressed j) pool w' \<Longrightarrow> Q Fuel_Out w'"
    and "\<And>x w'. ok (addressed j) pool w' \<Longrightarrow> stopped j x (w_trace w') \<Longrightarrow> Q (Return x) w'"
  shows "wp (fail_uploads n P j t) Q w"
  unfolding fail_uploads_def
proof (rule wp_stop_uploads [OF assms(1)])
  fix w1 :: "'s world"
  assume w1: "ok (addressed j) pool w1" "running (w_trace w1) = []"
  have "wp (dl_remove P (j_dk j) (j_gid j) False)
      (\<lambda>_. wp (fail_task P (j_chat j) (j_msg j) t ''upload'' e) Q) w1" for e
    unfolding dl_remove_def
  proof (rule job.wp_await [OF w1(1)])
    fix r :: "unit res" and w' :: "'s world"
    assume "ok (addressed j) pool w'" "later w1 w'"
    with w1(2) assms(2,3) show "wp (fail_task P (j_chat j) (j_msg j) t ''upload'' e) Q w'"
      by (intro wp_fail_task [where pool = pool]) (auto simp: later_idle intro: assms(5))
  qed simp_all
  then show "wp (do {
      e \<leftarrow> gets (\<lambda>w. case first_error (w_pipe w) of
                     Some e \<Rightarrow> e | None \<Rightarrow> mk_error EC_Unknown ''upload failed'');
      _ \<leftarrow> dl_remove P (j_dk j) (j_gid j) False;
      fail_task P (j_chat j) (j_msg j) t ''upload'' e}) Q w1"
    by simp
qed (use assms in auto)

lemma wp_enter_uploading:
  assumes "ok (addressed j) pool w" "owns j t" "state t = (if tr then Uploading else Downloading)"
    and "\<And>t' w'. ok (addressed j) pool w' \<Longrightarrow> owns j t' \<Longrightarrow> state t' = Uploading \<Longrightarrow>
      later w w' \<Longrightarrow> Q (t', True) w'"
  shows "wp (enter_uploading P t tr) Q w"
proof (cases tr)
  case True
  with assms show ?thesis by (simp add: enter_uploading_def)
next
  case False
  define t' where "t' = touch (p_now P (w_trace w)) (t\<lparr>state := Uploading\<rparr>)"
  have t': "begin_upload (p_now P (w_trace w)) t = (Inr (), t')" "owns j t'" "state t' = Uploading"
    using False assms(2,3) by (auto simp: task_op_defs t'_def owns_def)
  have "wp (persist_best_effort P t') (\<lambda>_. Q (t', True)) w"
    by (rule job.wp_persist [OF assms(1)]) (use t' assms(4) in \<open>auto simp: owns_def\<close>)
  with False t' show ?thesis by (simp add: enter_uploading_def)
qed

lemma ok_spawn:
  assumes "ok (addressed j) (j_pool j) w" "int (length (running (w_trace w))) < j_pool j"
    "f \<notin> set (spawned (w_trace w))"
  shows "wp (spawn_upload j f) (\<lambda>_. ok (addressed j) (j_pool j)) w"
  using assms by (auto simp: spawn_upload_def Let_def ok_def linked_def log_effect_def)

lemma wp_spawn_files:
  fixes w :: "'s world"
  assumes "ok (addressed j) (j_pool j) w" "owns j t" "state t = (if tr then Uploading else Downloading)"
    and "\<And>t' tr' w'. ok (addressed j) (j_pool j) w' \<Longrightarrow> owns j t' \<Longrightarrow>
      state t' = (if tr' then Uploading else Downloading) \<Longrightarrow> Q (t', tr') w'"
  shows "wp (spawn_files P j fs t tr) Q w"
  using assms(1-3)
proof (induction fs arbitrary: t tr w)
  case Nil
  then show ?case using assms(4) by simp
next
  case (Cons f fs)
  note fields = Cons.prems(1) [unfolded ok_def linked_def]
  have spawn: "wp (enter_uploading P t tr)
      (\<lambda>(t', tr'). wp (spawn_upload j f) (\<lambda>_. wp (spawn_files P j fs t' tr') Q)) w"
    if "int (length (running (w_trace w))) < j_pool j" "f \<notin> set (spawned (w_trace w))"
  proof (rule wp_enter_uploading [OF Cons.prems])
    fix t' and w' :: "'s world"
    assume w': "ok (addressed j) (j_pool j) w'" "owns j t'" "state t' = Uploading"
      "later w w'"
    with that have "wp (spawn_upload j f) (\<lambda>_. ok (addressed j) (j_pool j)) w'"
      by (intro ok_spawn) (auto simp: later_def)
    then have "wp (spawn_upload j f) (\<lambda>_. wp (spawn_files P j fs t' True) Q) w'"
      by (rule wp_mono) (use w' Cons.IH in simp)
    then show "(case (t', True) of (t', tr') \<Rightarrow>
        wp (spawn_upload j f) (\<lambda>_. wp (spawn_files P j fs t' tr') Q)) w'" by simp
  qed
  show ?case
    using spawn fields Cons.prems assms(4) Cons.IH [OF Cons.prems]
    by (auto simp: can_spawn_more_def)
qed

lemma wp_on_status:
  fixes w :: "'s world"
  assumes w: "ok (addressed j) (j_pool j) w" and v: "vars_ok j v"
  shows "wp (on_status n P j v st) (loop_post j) w"
proof -
  note live = vars_ok_live [OF v]
  have stop: "wp (stop_uploads n P (fail_with P (j_chat j) (j_msg j) (v_task v) stage code msg))
      (loop_post j) w" for stage code msg
    unfolding fail_with_def by (rule wp_fail_job [OF w]) (use live in \<open>auto simp: loop_post_def\<close>)
  have files: "wp (if supports_pipelining (j_dk j)
       then spawn_files P j (dl_files st) (v_task v) (v_transitioned v)
       else State_Monad.return (v_task v, v_transitioned v))
      (\<lambda>(t, tr) w'. ok (addressed j) (j_pool j) w' \<and> owns j t \<and>
         state t = (if tr then Uploading else Downloading)) w"
    using w v by (auto simp: vars_ok_def intro!: wp_spawn_files)
  have render: "wp (render_progress P (j_chat j) [st]) (\<lambda>_. loop_post j (Next v')) w'"
    if "ok (addressed j) (j_pool j) w'" "vars_ok j v'" for w' :: "'s world" and v'
    unfolding render_progress_def
    by (rule job.wp_await [OF that(1)]) (use that(2) in \<open>auto simp: loop_post_def\<close>)
  show ?thesis
    unfolding on_status_def wp_bind
    by (intro wp_if stop, unfold wp_bind, rule wp_mono [OF files])
      (auto simp: vars_ok_def intro!: render)
qed

lemma wp_poll_download:
  fixes w :: "'s world"
  assumes "ok (addressed j) (j_pool j) w" "vars_ok j v"
  shows "wp (poll_download n P j v) (loop_post j) w"
  unfolding poll_download_def dl_status_def wp_bind
proof (rule job.wp_await [OF assms(1)])
  fix r :: "download_status res" and w' :: "'s world"
  assume w': "ok (addressed j) (j_pool j) w'"
  show "wp (case r of
      Inl e \<Rightarrow> stop_uploads n P (fail_task P (j_chat j) (j_msg j) (v_task v) ''download'' e)
    | Inr st \<Rightarrow> on_status n P j v st) (loop_post j) w'"
  proof (cases r)
    case (Inl e)
    have "wp (stop_uploads n P (fail_task P (j_chat j) (j_msg j) (v_task v) ''download'' e))
        (loop_post j) w'"
      by (rule wp_fail_job [OF w']) (use vars_ok_live [OF assms(2)] in \<open>auto simp: loop_post_def\<close>)
    with Inl show ?thesis by simp
  next
    case (Inr st)
    with wp_on_status [OF w' assms(2)] show ?thesis by simp
  qed
qed simp_all

lemma wp_poll_loop:
  fixes w :: "'s world"
  assumes "ok (addressed j) (j_pool j) w" "vars_ok j v"
  shows "wp (poll_loop n P j v) (\<lambda>r w'. loop_post j r w' \<and> (\<forall>v'. r = Next v' \<longrightarrow>
    running (w_trace w') = [] \<and> upload_errors (w_trace w') = [] \<and> v_complete v')) w"
    (is "wp _ ?Q _")
  using assms
proof (induction n arbitrary: v w)
  case 0
  then show ?case by (simp add: loop_post_def)
next
  case (Suc n)
  have cancel: "wp (cancel_job n P j (v_task v)) ?Q w"
    by (rule wp_cancel_job [OF Suc.prems(1)])
      (use vars_ok_live [OF Suc.prems(2)] in \<open>auto simp: loop_post_def\<close>)
  have poll: "wp (if v_complete v then State_Monad.return (Next v) else poll_download n P j v)
      (loop_post j) w"
    using Suc.prems wp_poll_download [OF Suc.prems, of n P] by (simp add: loop_post_def)
  have rest: "wp (if failed (w_pipe w') > 0 then fail_uploads n P j (v_task v')
      else if v_complete v' \<and> in_flight (w_pipe w') = 0 then State_Monad.return (Next v')
      else do { timer_wait P (if v_complete v' then 200 else 3000); poll_loop n P j v' }) ?Q w'"
    if w': "ok (addressed j) (j_pool j) w'" and v': "vars_ok j v'" for w' :: "'s world" and v'
  proof (intro wp_if)
    show "wp (fail_uploads n P j (v_task v')) ?Q w'"
      by (rule wp_fail_uploads [OF w'])
        (use vars_ok_live [OF v'] in \<open>auto simp: loop_post_def\<close>)
  next
    assume "\<not> 0 < failed (w_pipe w')" "v_complete v' \<and> in_flight (w_pipe w') = 0"
    with w' v' show "wp (State_Monad.return (Next v')) ?Q w'"
      by (auto simp: loop_post_def ok_def linked_def)
  next
    show "wp (do { timer_wait P (if v_complete v' then 200 else 3000); poll_loop n P j v' }) ?Q w'"
      unfolding wp_bind timer_wait_def by (rule job.wp_await [OF w']) (use Suc.IH v' in auto)
  qed
  have "wp (flow_bind (if v_complete v then State_Monad.return (Next v) else poll_download n P j v)
      (\<lambda>v. do {
          (all_uploads_done, any_upload_failed) \<leftarrow>
            gets (\<lambda>w. (in_flight (w_pipe w) = 0, failed (w_pipe w) > 0));
          if any_upload_failed then fail_uploads n P j (v_task v)
          else if v_complete v \<and> all_uploads_done then State_Monad.return (Next v)
          else do { timer_wait P (if v_complete v then 200 else 3000); poll_loop n P j v }
        })) ?Q w"
  proof (rule wp_flow_bind [OF poll])
    fix v' and w' :: "'s world"
    assume "loop_post j (Next v') w'"
    with rest [of w' v'] show "wp (do {
          (all_uploads_done, any_upload_failed) \<leftarrow>
            gets (\<lambda>w. (in_flight (w_pipe w) = 0, failed (w_pipe w) > 0));
          if any_upload_failed then fail_uploads n P j (v_task v')
          else if v_complete v' \<and> all_uploads_done then State_Monad.return (Next v')
          else do { timer_wait P (if v_complete v' then 200 else 3000); poll_loop n P j v' }
        }) ?Q w'" by (simp add: loop_post_def)
  qed auto
  with cancel show ?case by (simp add: job_cancelled_def)
qed

subsection \<open>The loops end\<close>

lemma ok_timer_wait:
  "ok (addressed j) pool w \<Longrightarrow> ok (addressed j) pool (snd (run_state (timer_wait P ms) w))"
proof -
  assume "ok (addressed j) pool w"
  then have "wp (timer_wait P ms) (\<lambda>_. ok (addressed j) pool) w"
    unfolding timer_wait_def by (rule job.wp_await) simp_all
  then show ?thesis by (simp add: wp_def split: prod.splits)
qed

lemma drain_returns:
  assumes "fair P" "ok (addressed j) pool w" "length (running (w_trace w)) < n"
  shows "fst (run_state (drain_uploads n P) w) = Next ()"
  using assms(2,3)
proof (induction n arbitrary: w)
  case (Suc n)
  from Suc.prems(1) have l: "linked (w_pipe w) (w_trace w)" by (simp add: ok_def)
  show ?case
  proof (cases "running (w_trace w) = []")
    case True
    with l show ?thesis by (simp add: run_simps gets_def linked_def)
  next
    case False
    let ?w = "snd (run_state (timer_wait P 200) w)"
    have ok': "ok (addressed j) pool ?w" by (rule ok_timer_wait [OF Suc.prems(1)])
    with fair_wait [OF assms(1) l False, of 200] l Suc.prems(2) have "length (running (w_trace ?w)) < n"
      by (simp add: ok_def linked_def)
    from Suc.IH [OF ok' this] l False show ?thesis
      by (simp add: run_simps gets_def linked_def case_prod_beta)
  qed
qed simp

lemma stop_uploads_returns:
  assumes "fair P" "ok (addressed j) pool w" "length (running (w_trace w)) < n"
    and "\<And>w'. fst (run_state k w') \<noteq> Fuel_Out"
  shows "fst (run_state (stop_uploads n P k) w) \<noteq> Fuel_Out"
proof -
  have "ok (addressed j) pool (log_effect E_CancelUploads w)" by (rule job.ok_log [OF assms(2)]) simp_all
  then have "fst (run_state (drain_uploads n P) (log_effect E_CancelUploads w)) = Next ()"
    by (rule drain_returns [OF assms(1)]) (use assms(3) in \<open>simp add: log_effect_def\<close>)
  then show ?thesis
    using assms(4) by (simp add: stop_uploads_def cancel_all_uploads_def emit_def flow_bind_def run_simps
        case_prod_beta)
qed

lemma fail_task_returns: "fst (run_state (fail_task P c m t stage e) w) \<noteq> Fuel_Out"
  by (simp add: fail_task_def run_simps case_prod_beta)

lemma fail_uploads_returns:
  assumes "fair P" "ok (addressed j) pool w" "length (running (w_trace w)) < n"
  shows "fst (run_state (fail_uploads n P j t) w) \<noteq> Fuel_Out"
  unfolding fail_uploads_def
  by (rule stop_uploads_returns [OF assms])
    (simp add: run_simps case_prod_beta fail_task_returns)

lemma cancel_job_returns:
  assumes "fair P" "ok (addressed j) pool w" "length (running (w_trace w)) < n"
  shows "fst (run_state (cancel_job n P j t) w) \<noteq> Fuel_Out"
  unfolding cancel_job_def
  by (rule stop_uploads_returns [OF assms]) (simp add: run_simps case_prod_beta)

lemma poll_loop_returns:
  assumes "fair P" "ok (addressed j) pool w" "v_complete v" "length (running (w_trace w)) + 1 < n"
  shows "fst (run_state (poll_loop n P j v) w) \<noteq> Fuel_Out"
  using assms(2,4)
proof (induction n arbitrary: w)
  case (Suc n)
  from Suc.prems(1) have l: "linked (w_pipe w) (w_trace w)" by (simp add: ok_def)
  have len: "length (running (w_trace w)) < n" using Suc.prems(2) by simp
  note ends = cancel_job_returns [OF assms(1) Suc.prems(1) len] fail_uploads_returns [OF assms(1) Suc.prems(1) len]
  show ?case
  proof (cases "running (w_trace w) = []")
    case True
    with l have "in_flight (w_pipe w) = 0" by (simp add: linked_def)
    with assms(3) show ?thesis
      by (simp add: run_simps gets_def job_cancelled_def flow_bind_def ends)
  next
    case False
    let ?w = "snd (run_state (timer_wait P 200) w)"
    have ok': "ok (addressed j) pool ?w" by (rule ok_timer_wait [OF Suc.prems(1)])
    with fair_wait [OF assms(1) l False, of 200] l Suc.prems(2)
    have "length (running (w_trace ?w)) + 1 < n" by (simp add: ok_def linked_def)
    from Suc.IH [OF ok' this] l False assms(3) show ?thesis
      by (simp add: run_simps gets_def job_cancelled_def flow_bind_def linked_def case_prod_beta ends)
  qed
qed simp

end
