(* ===== verification/Time_Codec.thy ===== *)
theory Time_Codec
  imports Task
begin

text \<open>
  The ISO 8601 codec of \<open>src/infrastructure/persistence/time_codec.hpp\<close>. Instants are
  nanoseconds since the epoch. The calendar arithmetic of \<open>std::chrono\<close> is written out; the text
  that the \<open>fmt\<close> library produces for an instant in milliseconds is a parameter of
  \<open>to_iso8601\<close>, and the round trip is proved for a \<open>fmt\<close> that prints the documented
  fixed-width fields (\<open>iso_fields\<close>).
\<close>

subsection \<open>Civil dates\<close>

definition is_leap :: "int \<Rightarrow> bool" where
  "is_leap y = (y mod 4 = 0 \<and> y mod 100 \<noteq> 0 \<or> y mod 400 = 0)"

definition days_in_month :: "int \<Rightarrow> nat \<Rightarrow> nat" where
  "days_in_month y m =
     (if m = 2 then (if is_leap y then 29 else 28) else if m \<in> {4, 6, 9, 11} then 30 else 31)"

definition ymd_ok :: "nat \<Rightarrow> nat \<Rightarrow> nat \<Rightarrow> bool" where
  "ymd_ok y m d = (1 \<le> m \<and> m \<le> 12 \<and> 1 \<le> d \<and> d \<le> days_in_month (int y) m)"

definition leap_days_before :: "int \<Rightarrow> int" where
  "leap_days_before y = (y - 1) div 4 - (y - 1) div 100 + (y - 1) div 400"

definition sys_days :: "nat \<Rightarrow> nat \<Rightarrow> nat \<Rightarrow> int" where
  "sys_days y m d =
     365 * (int y - 1970) + leap_days_before (int y) - leap_days_before 1970
     + int (sum_list (map (days_in_month (int y)) [1..<m])) + int d - 1"

definition ns_of_civil :: "nat \<Rightarrow> nat \<Rightarrow> nat \<Rightarrow> nat \<Rightarrow> nat \<Rightarrow> nat \<Rightarrow> nat \<Rightarrow> systime" where
  "ns_of_civil y mo d hh mi ss ms =
     (((sys_days y mo d * 24 + int hh) * 60 + int mi) * 60 + int ss) * 1000000000 + int ms * 1000000"

subsection \<open>The codec\<close>

definition to_iso8601 :: "(int \<Rightarrow> string) \<Rightarrow> systime \<Rightarrow> string" where
  "to_iso8601 fmt_time tp = (let truncated = tp div 1000000 in fmt_time truncated @ ''Z'')"

fun take_digits :: "string \<Rightarrow> nat \<Rightarrow> nat option" where
  "take_digits [] v = Some v"
| "take_digits (c # cs) v = (if is_digit c then take_digits cs (v * 10 + digit_val c) else None)"

definition take_int :: "string \<Rightarrow> nat \<Rightarrow> nat \<Rightarrow> nat option" where
  "take_int s off len =
     (if off + len > length s then None else take_digits (take len (drop off s)) 0)"

text \<open>
  The fraction loop: at most three digits are read, missing ones are zeros, further digits are
  skipped without a check of what follows them.
\<close>

definition parse_fraction :: "string \<Rightarrow> nat" where
  "parse_fraction rest =
     (case rest of
        CHR ''.'' # cs \<Rightarrow>
          (let ds = take 3 (takeWhile is_digit cs) in digits_val ds * 10 ^ (3 - length ds))
      | _ \<Rightarrow> 0)"

definition parse_iso8601 :: "string \<Rightarrow> systime res" where
  "parse_iso8601 s =
     (if length s < 19
      then Inl (mk_error EC_Deserialization (''ISO8601 timestamp too short: '' @ s))
      else
        (case (take_int s 0 4, s ! 4, take_int s 5 2, s ! 7, take_int s 8 2, s ! 10,
               take_int s 11 2, s ! 13, take_int s 14 2, s ! 16, take_int s 17 2) of
           (Some y, CHR ''-'', Some mo, CHR ''-'', Some d, CHR ''T'',
            Some hh, CHR '':'', Some mi, CHR '':'', Some ss) \<Rightarrow>
             (let ms = parse_fraction (drop 19 s) in
              if \<not> ymd_ok y mo d
              then Inl (mk_error EC_Deserialization (''Out-of-range Y/M/D in timestamp: '' @ s))
              else Inr (ns_of_civil y mo d hh mi ss ms))
         | _ \<Rightarrow> Inl (mk_error EC_Deserialization (''Malformed ISO8601 timestamp: '' @ s))))"

subsection \<open>Fixed-width fields\<close>

fun pad :: "nat \<Rightarrow> nat \<Rightarrow> string" where
  "pad 0 x = []"
| "pad (Suc n) x = pad n (x div 10) @ [digit_char (x mod 10)]"

definition iso_fields :: "nat \<Rightarrow> nat \<Rightarrow> nat \<Rightarrow> nat \<Rightarrow> nat \<Rightarrow> nat \<Rightarrow> nat \<Rightarrow> string" where
  "iso_fields y mo d hh mi ss ms =
     pad 4 y @ ''-'' @ pad 2 mo @ ''-'' @ pad 2 d @ ''T'' @ pad 2 hh @ '':'' @ pad 2 mi @ '':''
     @ pad 2 ss @ ''.'' @ pad 3 ms"

lemma length_pad [simp]: "length (pad n x) = n"
  by (induction n x rule: pad.induct) auto

lemma pad_digits: "c \<in> set (pad n x) \<Longrightarrow> is_digit c"
  by (induction n x rule: pad.induct) (auto simp: char_simps)

lemma pad_val: "x < 10 ^ n \<Longrightarrow> digits_val (pad n x) = x"
proof (induction n x rule: pad.induct)
  case (2 n x)
  then have "x div 10 < 10 ^ n" by (simp add: less_mult_imp_div_less mult.commute)
  with 2 show ?case by (simp add: char_simps)
qed simp

lemma take_digits_all:
  "list_all is_digit cs \<Longrightarrow> take_digits cs v = Some (v * 10 ^ length cs + digits_val cs)"
  by (induction cs arbitrary: v) (auto simp: algebra_simps)

lemma take_digits_pad [simp]: "x < 10 ^ n \<Longrightarrow> take_digits (pad n x) 0 = Some x"
  using take_digits_all [of "pad n x" 0] by (auto simp: list_all_iff pad_val dest: pad_digits)

lemma takeWhile_pad: "takeWhile is_digit (pad n x @ CHR ''Z'' # r) = pad n x"
proof -
  have "takeWhile is_digit (pad n x @ CHR ''Z'' # r)
      = pad n x @ takeWhile is_digit (CHR ''Z'' # r)"
    by (rule takeWhile_append2) (rule pad_digits)
  then show ?thesis by (simp add: is_digit_def)
qed

lemma parse_fraction_pad: "x < 1000 \<Longrightarrow> parse_fraction (CHR ''.'' # pad 3 x @ ''Z'') = x"
  by (simp add: parse_fraction_def takeWhile_pad pad_val)

lemma take_int_at:
  "length pre = off \<Longrightarrow> x < 10 ^ n \<Longrightarrow> take_int (pre @ pad n x @ post) off n = Some x"
  by (simp add: take_int_def)

lemma parse_iso_fields:
  assumes "ymd_ok y mo d" "y < 10000" "hh < 24" "mi < 60" "ss < 60" "ms < 1000"
  shows "parse_iso8601 (iso_fields y mo d hh mi ss ms @ ''Z'') = Inr (ns_of_civil y mo d hh mi ss ms)"
proof -
  let ?s = "iso_fields y mo d hh mi ss ms @ ''Z''"
  have md: "mo < 100" "d < 100"
    using assms(1) by (auto simp: ymd_ok_def days_in_month_def split: if_splits)
  have len: "length ?s = 24" by (simp add: iso_fields_def)
  have t: "take_int ?s 0 4 = Some y" "take_int ?s 5 2 = Some mo" "take_int ?s 8 2 = Some d"
    "take_int ?s 11 2 = Some hh" "take_int ?s 14 2 = Some mi" "take_int ?s 17 2 = Some ss"
    using assms md by (simp_all add: take_int_def iso_fields_def nth_append)
  have c: "?s ! 4 = CHR ''-''" "?s ! 7 = CHR ''-''" "?s ! 10 = CHR ''T''" "?s ! 13 = CHR '':''"
    "?s ! 16 = CHR '':''"
    by (simp_all add: iso_fields_def nth_append)
  have f: "drop 19 (iso_fields y mo d hh mi ss ms) @ ''Z'' = CHR ''.'' # pad 3 ms @ ''Z''"
    by (simp add: iso_fields_def)
  show ?thesis
    using assms(1,6) len by (simp add: parse_iso8601_def t c f parse_fraction_pad)
qed

lemma ns_of_civil_ms [simp]: "ns_of_civil y mo d hh mi ss ms div 1000000 * 1000000 = ns_of_civil y mo d hh mi ss ms"
proof -
  have "ns_of_civil y mo d hh mi ss ms =
      ((((sys_days y mo d * 24 + int hh) * 60 + int mi) * 60 + int ss) * 1000 + int ms) * 1000000"
    by (simp add: ns_of_civil_def)
  then show ?thesis by simp
qed

text \<open>
  The instants the codec is used for: those whose millisecond floor is a civil date and time with
  a four-digit year. \<open>fmt_iso\<close> says what \<open>fmt\<close> prints for such an instant.
\<close>

definition fmt_iso :: "(int \<Rightarrow> string) \<Rightarrow> systime \<Rightarrow> bool" where
  "fmt_iso fmt_time tp =
     (\<exists>y mo d hh mi ss ms. ymd_ok y mo d \<and> y < 10000 \<and> hh < 24 \<and> mi < 60 \<and> ss < 60 \<and> ms < 1000 \<and>
        tp div 1000000 * 1000000 = ns_of_civil y mo d hh mi ss ms \<and>
        fmt_time (tp div 1000000) = iso_fields y mo d hh mi ss ms)"

lemma fmt_isoI:
  "ymd_ok y mo d \<Longrightarrow> y < 10000 \<Longrightarrow> hh < 24 \<Longrightarrow> mi < 60 \<Longrightarrow> ss < 60 \<Longrightarrow> ms < 1000 \<Longrightarrow>
   tp div 1000000 * 1000000 = ns_of_civil y mo d hh mi ss ms \<Longrightarrow>
   fmt_time (tp div 1000000) = iso_fields y mo d hh mi ss ms \<Longrightarrow> fmt_iso fmt_time tp"
  unfolding fmt_iso_def by blast

lemma iso_roundtrip:
  "fmt_iso fmt_time tp \<Longrightarrow> parse_iso8601 (to_iso8601 fmt_time tp) = Inr (tp div 1000000 * 1000000)"
  by (auto simp: fmt_iso_def to_iso8601_def Let_def parse_iso_fields)

lemma parse_iso8601_errors:
  "parse_iso8601 s = Inl e \<Longrightarrow> err_code e = EC_Deserialization"
  by (auto simp: parse_iso8601_def Let_def split: if_splits option.splits char.splits bool.splits)

subsection \<open>Properties\<close>

text \<open>A formatter that is right at the epoch, for examples.\<close>

definition epoch_fmt :: "int \<Rightarrow> string" where
  "epoch_fmt ms = iso_fields 1970 1 1 0 0 0 0"

lemma epoch_fmt_iso [simp]: "fmt_iso epoch_fmt 0"
  by (rule fmt_isoI [of 1970 1 1 0 0 0 0])
    (simp_all add: epoch_fmt_def ymd_ok_def days_in_month_def ns_of_civil_def sys_days_def)

text \<open>
  A time point written as ISO 8601 and read back is the same time point cut to the millisecond,
  and every text the parser rejects is rejected with the code \<open>Deserialization\<close>.
\<close>

theorem iso8601_roundtrip:
  "(fmt_iso fmt_time tp \<longrightarrow> parse_iso8601 (to_iso8601 fmt_time tp) = Inr (tp div 1000000 * 1000000)) \<and>
   (\<forall>e. parse_iso8601 s = Inl e \<longrightarrow> err_code e = EC_Deserialization)"
  by (simp add: iso_roundtrip parse_iso8601_errors)

theorem iso8601_roundtrip_witness: "parse_iso8601 (to_iso8601 epoch_fmt 0) = Inr 0"
  using iso8601_roundtrip [of epoch_fmt 0] by simp

end
