(* ===== verification/Task_Repository.thy ===== *)
theory Task_Repository
  imports Time_Codec Task_Store "HOL-Library.List_Lexorder" "HOL-Library.Char_ord"
begin

text \<open>
  The task repository of \<open>src/infrastructure/persistence/sqlite_task_repository.cpp\<close> over the
  \<open>tasks\<close> table of the schema. The table is the list of its rows in rowid order, the columns are
  the bound values, and each SQL statement of the source is the table operation it denotes (row
  order among equal sort keys, which SQL leaves open, is rowid order). What SQLite and the pool do
  beyond that, refusing a connection or raising an exception, comes from the call environment.
  The interface \<open>TaskRepository\<close> is the locale \<open>task_repository\<close>, interpreted here on the SQLite
  operations.
\<close>

subsection \<open>Rows\<close>

record task_row =
  r_id :: string
  r_user :: int
  r_chat :: int
  r_status_message :: int
  r_kind :: string
  r_state :: string
  r_source_url :: string
  r_error_message :: "string option"
  r_created_at :: string
  r_updated_at :: string
  r_downloader_kind :: string
  r_downloader_id :: "string option"

datatype db_fault = SqliteException string | StdException string

record db_env =
  env_acquire :: "unit res"
  env_fault :: "db_fault option"
  env_now :: systime

fun kind_to_string :: "task_kind \<Rightarrow> string" where
  "kind_to_string Mirror = ''Mirror''"
| "kind_to_string Leech = ''Leech''"
| "kind_to_string Clone = ''Clone''"

definition parse_kind :: "string \<Rightarrow> task_kind res" where
  "parse_kind s =
     (if s = ''Mirror'' then Inr Mirror else if s = ''Leech'' then Inr Leech
      else if s = ''Clone'' then Inr Clone
      else Inl (mk_error EC_Deserialization (''Unknown TaskKind: '' @ s)))"

definition parse_downloader_kind :: "string \<Rightarrow> downloader_kind res" where
  "parse_downloader_kind s =
     (if s = ''None'' then Inr DK_None else if s = ''Aria2'' then Inr DK_Aria2
      else if s = ''Qbittorrent'' then Inr DK_Qbittorrent
      else Inl (mk_error EC_Deserialization (''Unknown DownloaderKind: '' @ s)))"

definition parse_state :: "string \<Rightarrow> task_state res" where
  "parse_state s =
     (if s = ''Queued'' then Inr Queued else if s = ''Downloading'' then Inr Downloading
      else if s = ''Processing'' then Inr Processing else if s = ''Uploading'' then Inr Uploading
      else if s = ''Completed'' then Inr Completed else if s = ''Failed'' then Inr Failed
      else if s = ''Cancelled'' then Inr Cancelled
      else Inl (mk_error EC_Deserialization (''Unknown TaskState: '' @ s)))"

subsection \<open>Rebuilding a task from its columns\<close>

definition reconstitute_fail :: "string \<Rightarrow> app_error \<Rightarrow> app_error" where
  "reconstitute_fail step err =
     mk_error EC_Deserialization (''reconstitute step '' @ [CHR 0x27] @ step @ [CHR 0x27]
       @ '' failed: '' @ err_message err)"

definition attach_if_set :: "systime \<Rightarrow> downloader_kind \<Rightarrow> string option \<Rightarrow> task \<Rightarrow> task" where
  "attach_if_set now dk did t =
     (case did of
        Some d \<Rightarrow> if dk \<noteq> DK_None then attach_downloader now (Gid d) dk t else t
      | None \<Rightarrow> t)"

definition replay :: "string \<Rightarrow> (task \<Rightarrow> unit res \<times> task) \<Rightarrow> task res \<Rightarrow> task res" where
  "replay step f r =
     (case r of Inl e \<Rightarrow> Inl e
      | Inr t \<Rightarrow> (case f t of (Inl e, t') \<Rightarrow> Inl (reconstitute_fail step e) | (Inr u, t') \<Rightarrow> Inr t'))"

fun reconstitute ::
  "systime \<Rightarrow> task_metadata \<Rightarrow> task_state \<Rightarrow> string option \<Rightarrow> downloader_kind \<Rightarrow> string option \<Rightarrow> task res"
where
  "reconstitute now md Queued err dk did = Inr (attach_if_set now dk did (new_task md))"
| "reconstitute now md Downloading err dk did =
     map_sum id (attach_if_set now dk did)
       (replay ''start_download'' (start_download now) (Inr (new_task md)))"
| "reconstitute now md Processing err dk did =
     map_sum id (attach_if_set now dk did)
       (replay ''begin_processing'' (begin_processing now)
         (replay ''start_download'' (start_download now) (Inr (new_task md))))"
| "reconstitute now md Uploading err dk did =
     map_sum id (attach_if_set now dk did)
       (replay ''begin_upload'' (begin_upload now)
         (replay ''start_download'' (start_download now) (Inr (new_task md))))"
| "reconstitute now md Completed err dk did =
     map_sum id (attach_if_set now dk did)
       (replay ''mark_completed'' (mark_completed now)
         (replay ''begin_upload'' (begin_upload now)
           (replay ''start_download'' (start_download now) (Inr (new_task md)))))"
| "reconstitute now md Failed err dk did =
     replay ''mark_failed''
       (mark_failed now (case err of Some m \<Rightarrow> m | None \<Rightarrow> ''(unknown)''))
       (Inr (attach_if_set now dk did (new_task md)))"
| "reconstitute now md Cancelled err dk did =
     replay ''mark_cancelled'' (mark_cancelled now) (Inr (attach_if_set now dk did (new_task md)))"

definition task_of_row :: "systime \<Rightarrow> task_row \<Rightarrow> task res" where
  "task_of_row now r =
     (case parse_kind (r_kind r) of Inl e \<Rightarrow> Inl e | Inr kind \<Rightarrow>
     (case parse_state (r_state r) of Inl e \<Rightarrow> Inl e | Inr st \<Rightarrow>
     (case parse_iso8601 (r_created_at r) of Inl e \<Rightarrow> Inl e | Inr created \<Rightarrow>
     (case parse_iso8601 (r_updated_at r) of Inl e \<Rightarrow> Inl e | Inr updated \<Rightarrow>
     (case parse_downloader_kind (r_downloader_kind r) of Inl e \<Rightarrow> Inl e | Inr dk \<Rightarrow>
        reconstitute now
          \<lparr>md_id = TaskId (r_id r), md_user = UserId (r_user r), md_chat = ChatId (r_chat r),
           md_status_message = MessageId (r_status_message r), md_kind = kind,
           md_source_url = r_source_url r, md_created_at = created, md_updated_at = updated\<rparr>
          st (r_error_message r) dk (r_downloader_id r))))))"

definition row_of_task :: "(int \<Rightarrow> string) \<Rightarrow> task \<Rightarrow> task_row" where
  "row_of_task fmt t =
     \<lparr>r_id = task_value (md_id (metadata t)), r_user = user_value (md_user (metadata t)),
      r_chat = chat_value (md_chat (metadata t)),
      r_status_message = message_value (md_status_message (metadata t)),
      r_kind = kind_to_string (md_kind (metadata t)), r_state = task_state_to_string (state t),
      r_source_url = md_source_url (metadata t), r_error_message = error_message t,
      r_created_at = to_iso8601 fmt (md_created_at (metadata t)),
      r_updated_at = to_iso8601 fmt (md_updated_at (metadata t)),
      r_downloader_kind = downloader_kind_to_string (downloader_kind t),
      r_downloader_id = map_option gid_value (downloader_id t)\<rparr>"

subsection \<open>Repository operations\<close>

definition fault_error :: "string \<Rightarrow> db_fault \<Rightarrow> app_error" where
  "fault_error what f =
     (case f of SqliteException m \<Rightarrow> mk_error EC_Database (what @ '' failed: '' @ m)
      | StdException m \<Rightarrow> mk_error EC_Database (what @ '' threw: '' @ m))"

definition insert_or_replace :: "task_row \<Rightarrow> task_row list \<Rightarrow> task_row list" where
  "insert_or_replace r tab = filter (\<lambda>q. r_id q \<noteq> r_id r) tab @ [r]"

definition sqlite_save :: "(int \<Rightarrow> string) \<Rightarrow> db_env \<Rightarrow> task \<Rightarrow> task_row list \<Rightarrow> unit res \<times> task_row list"
where
  "sqlite_save fmt env t tab =
     (case env_acquire env of Inl e \<Rightarrow> (Inl e, tab)
      | Inr _ \<Rightarrow>
        (case env_fault env of Some f \<Rightarrow> (Inl (fault_error ''save(Task)'' f), tab)
         | None \<Rightarrow> (Inr (), insert_or_replace (row_of_task fmt t) tab)))"

definition sqlite_find :: "db_env \<Rightarrow> task_id \<Rightarrow> task_row list \<Rightarrow> task option res" where
  "sqlite_find env i tab =
     (case env_acquire env of Inl e \<Rightarrow> Inl e
      | Inr _ \<Rightarrow>
        (case env_fault env of Some f \<Rightarrow> Inl (fault_error ''find(TaskId)'' f)
         | None \<Rightarrow>
           (case List.find (\<lambda>r. r_id r = task_value i) tab of
              None \<Rightarrow> Inr None
            | Some r \<Rightarrow> map_sum id Some (task_of_row (env_now env) r))))"

fun collect_tasks :: "systime \<Rightarrow> task_row list \<Rightarrow> task list res" where
  "collect_tasks now [] = Inr []"
| "collect_tasks now (r # rs) =
     (case task_of_row now r of Inl e \<Rightarrow> Inl e
      | Inr t \<Rightarrow> map_sum id (Cons t) (collect_tasks now rs))"

definition sqlite_incomplete :: "db_env \<Rightarrow> task_row list \<Rightarrow> task list res" where
  "sqlite_incomplete env tab =
     (case env_acquire env of Inl e \<Rightarrow> Inl e
      | Inr _ \<Rightarrow>
        (case env_fault env of Some f \<Rightarrow> Inl (fault_error ''incomplete()'' f)
         | None \<Rightarrow>
           collect_tasks (env_now env)
             (sort_key r_created_at
               (filter (\<lambda>r. r_state r \<notin> {''Completed'', ''Failed'', ''Cancelled''}) tab))))"

definition sqlite_for_user :: "db_env \<Rightarrow> user_id \<Rightarrow> task_row list \<Rightarrow> task list res" where
  "sqlite_for_user env u tab =
     (case env_acquire env of Inl e \<Rightarrow> Inl e
      | Inr _ \<Rightarrow>
        (case env_fault env of Some f \<Rightarrow> Inl (fault_error ''for_user()'' f)
         | None \<Rightarrow>
           collect_tasks (env_now env)
             (rev (sort_key r_created_at (rev (filter (\<lambda>r. r_user r = user_value u) tab))))))"

definition sqlite_remove :: "db_env \<Rightarrow> task_id \<Rightarrow> task_row list \<Rightarrow> unit res \<times> task_row list" where
  "sqlite_remove env i tab =
     (case env_acquire env of Inl e \<Rightarrow> (Inl e, tab)
      | Inr _ \<Rightarrow>
        (case env_fault env of Some f \<Rightarrow> (Inl (fault_error ''remove(TaskId)'' f), tab)
         | None \<Rightarrow>
           (if \<exists>r \<in> set tab. r_id r = task_value i
            then (Inr (), filter (\<lambda>r. r_id r \<noteq> task_value i) tab)
            else (Inl (mk_error EC_NotFound
                    (''remove(TaskId): no task with id '' @ task_value i)), tab))))"

subsection \<open>Codec lemmas\<close>

lemma parse_kind_to_string [simp]: "parse_kind (kind_to_string k) = Inr k"
  by (cases k) (simp_all add: parse_kind_def)

lemma parse_state_to_string [simp]: "parse_state (task_state_to_string s) = Inr s"
  by (cases s) (simp_all add: parse_state_def)

lemma parse_downloader_kind_to_string [simp]:
  "parse_downloader_kind (downloader_kind_to_string k) = Inr k"
  by (cases k) (simp_all add: parse_downloader_kind_def)

definition storable :: "(int \<Rightarrow> string) \<Rightarrow> task \<Rightarrow> bool" where
  "storable fmt t = (task_inv t \<and> fmt_iso fmt (md_created_at (metadata t)) \<and>
                     fmt_iso fmt (md_updated_at (metadata t)))"

text \<open>
  Replaying the transitions reads the clock, so the \<open>updated_at\<close> that was read from the row
  survives only when no method was called on the fresh task.
\<close>

lemma reconstitute_task:
  assumes "task_inv t"
  shows "reconstitute now md (state t) (error_message t) (downloader_kind t)
           (map_option gid_value (downloader_id t))
         = Inr (t\<lparr>metadata := md\<lparr>md_updated_at :=
             (if state t = Queued \<and> downloader_id t = None then md_updated_at md else now)\<rparr>\<rparr>)"
proof -
  obtain md' st err did dk where t: "t = \<lparr>metadata = md', state = st, error_message = err,
      downloader_id = did, downloader_kind = dk\<rparr>"
    by (cases t)
  show ?thesis
  proof (cases did)
    case None
    with assms have "dk = DK_None" by (simp add: task_inv_def t)
    with None assms show ?thesis
      by (cases st; cases err)
        (simp_all add: t task_inv_def attach_if_set_def replay_def task_op_defs new_task_def)
  next
    case (Some g)
    with assms have "dk \<noteq> DK_None" by (simp add: task_inv_def t)
    with Some assms show ?thesis
      by (cases st; cases err)
        (simp_all add: t task_inv_def attach_if_set_def replay_def task_op_defs new_task_def)
  qed
qed

lemma row_of_task_reconstitute:
  assumes "storable fmt t"
  shows "task_of_row now (row_of_task fmt t) =
      reconstitute now
        ((metadata t)\<lparr>md_created_at := md_created_at (metadata t) div 1000000 * 1000000,
                       md_updated_at := md_updated_at (metadata t) div 1000000 * 1000000\<rparr>)
        (state t) (error_message t) (downloader_kind t) (map_option gid_value (downloader_id t))"
  using assms
  by (cases "metadata t") (simp add: task_of_row_def row_of_task_def storable_def iso_roundtrip)

lemma task_of_row_of_task:
  assumes "storable fmt t"
  shows "\<exists>u. task_of_row now (row_of_task fmt t) =
     Inr (t\<lparr>metadata := (metadata t)\<lparr>md_created_at := md_created_at (metadata t) div 1000000 * 1000000,
                                     md_updated_at := u\<rparr>\<rparr>)"
proof -
  have "task_inv t" using assms by (simp add: storable_def)
  from reconstitute_task [OF this] row_of_task_reconstitute [OF assms] show ?thesis by auto
qed

lemma strip_task_of_row:
  assumes "storable fmt t"
  shows "map_sum id strip (task_of_row now (row_of_task fmt t)) = Inr (strip t)"
proof -
  obtain u where "task_of_row now (row_of_task fmt t) =
     Inr (t\<lparr>metadata := (metadata t)\<lparr>md_created_at := md_created_at (metadata t) div 1000000 * 1000000,
                                     md_updated_at := u\<rparr>\<rparr>)"
    using task_of_row_of_task [OF assms] by blast
  then show ?thesis by (simp add: strip_def)
qed

subsection \<open>The table as a map of tasks\<close>

definition tab_ok :: "(int \<Rightarrow> string) \<Rightarrow> task_row list \<Rightarrow> bool" where
  "tab_ok fmt tab = (distinct (map r_id tab) \<and> (\<forall>r \<in> set tab. \<exists>t. storable fmt t \<and> r = row_of_task fmt t))"

definition tab_view :: "task_row list \<Rightarrow> task_id \<Rightarrow> task option" where
  "tab_view tab i =
     (case List.find (\<lambda>r. r_id r = task_value i) tab of None \<Rightarrow> None
      | Some r \<Rightarrow> (case task_of_row 0 r of Inl e \<Rightarrow> None | Inr t \<Rightarrow> Some (strip t)))"

lemma r_id_row_of_task [simp]: "r_id (row_of_task fmt t) = task_value (md_id (metadata t))"
  by (simp add: row_of_task_def)

lemma find_filter_other:
  "P x \<noteq> Q \<Longrightarrow> (\<And>x. P x \<Longrightarrow> R x) \<Longrightarrow> List.find P (filter R xs) = List.find P xs"
  by (induction xs) auto

lemma find_append: "List.find P (xs @ ys) = (case List.find P xs of None \<Rightarrow> List.find P ys | Some x \<Rightarrow> Some x)"
  by (induction xs) auto

lemma find_distinct_key:
  "distinct (map k xs) \<Longrightarrow> x \<in> set xs \<Longrightarrow> List.find (\<lambda>y. k y = k x) xs = Some x"
  by (induction xs) (auto simp: image_iff)

lemma task_of_row_strip:
  assumes "tab_ok fmt tab" "r \<in> set tab"
  obtains t where "storable fmt t" "r = row_of_task fmt t"
    and "\<And>now. \<exists>t'. task_of_row now r = Inr t' \<and> strip t' = strip t"
proof -
  obtain t where t: "storable fmt t" "r = row_of_task fmt t"
    using assms by (auto simp: tab_ok_def)
  have "\<exists>t'. task_of_row now r = Inr t' \<and> strip t' = strip t" for now
    using strip_task_of_row [OF t(1), of now] t(2) by (cases "task_of_row now r") auto
  with t that show ?thesis by blast
qed

lemma tab_view_in:
  assumes "tab_ok fmt tab" "r \<in> set tab" "task_of_row now r = Inr t"
  shows "tab_view tab (TaskId (r_id r)) = Some (strip t)" "md_id (metadata t) = TaskId (r_id r)"
proof -
  obtain u where u: "storable fmt u" "r = row_of_task fmt u"
    and s: "\<And>now. \<exists>t'. task_of_row now r = Inr t' \<and> strip t' = strip u"
    using task_of_row_strip [OF assms(1,2)] by metis
  from s [of now] assms(3) have tu: "strip t = strip u" by auto
  have "List.find (\<lambda>q. r_id q = r_id r) tab = Some r"
    using assms(1,2) by (intro find_distinct_key) (auto simp: tab_ok_def)
  with s [of 0] tu show "tab_view tab (TaskId (r_id r)) = Some (strip t)"
    by (auto simp: tab_view_def)
  show "md_id (metadata t) = TaskId (r_id r)"
    using strip_eqD(4) [OF tu] u(2) by simp
qed

lemma sqlite_find_view:
  assumes "tab_ok fmt tab" "sqlite_find env i tab = Inr x"
  shows "map_option strip x = tab_view tab i"
proof (cases "List.find (\<lambda>r. r_id r = task_value i) tab")
  case None
  with assms(2) show ?thesis by (auto simp: sqlite_find_def tab_view_def split: sum.splits option.splits)
next
  case (Some r)
  then have r: "r \<in> set tab" "r_id r = task_value i" by (auto simp: find_Some_iff)
  from assms(2) Some obtain t where t: "task_of_row (env_now env) r = Inr t" "x = Some t"
    by (cases "task_of_row (env_now env) r") (auto simp: sqlite_find_def split: sum.splits option.splits)
  from tab_view_in(1) [OF assms(1) r(1) t(1)] t(2) r(2) show ?thesis by simp
qed

lemma tab_ok_save:
  assumes "tab_ok fmt tab" "storable fmt t"
  shows "tab_ok fmt (insert_or_replace (row_of_task fmt t) tab)"
  using assms by (auto simp: tab_ok_def insert_or_replace_def distinct_map inj_on_def)

lemma tab_view_save:
  assumes "storable fmt t"
  shows "tab_view (insert_or_replace (row_of_task fmt t) tab) = (tab_view tab)(md_id (metadata t) \<mapsto> strip t)"
proof (rule ext)
  fix i
  have new: "List.find (\<lambda>r. r_id r = task_value i) (filter (\<lambda>q. r_id q \<noteq> task_value i) tab) = None"
    by (auto simp: find_None_iff)
  have s: "\<exists>t'. task_of_row 0 (row_of_task fmt t) = Inr t' \<and> strip t' = strip t"
    using strip_task_of_row [OF assms, of 0] by (cases "task_of_row 0 (row_of_task fmt t)") auto
  show "tab_view (insert_or_replace (row_of_task fmt t) tab) i
      = ((tab_view tab)(md_id (metadata t) \<mapsto> strip t)) i"
  proof (cases "i = md_id (metadata t)")
    case True
    with s new show ?thesis by (auto simp: tab_view_def insert_or_replace_def find_append)
  next
    case False
    then have ne: "task_value i \<noteq> task_value (md_id (metadata t))"
      by (cases i; cases "md_id (metadata t)") auto
    have "List.find (\<lambda>r. r_id r = task_value i)
        (filter (\<lambda>q. r_id q \<noteq> task_value (md_id (metadata t))) tab)
        = List.find (\<lambda>r. r_id r = task_value i) tab"
      using ne by (induction tab) auto
    with False ne show ?thesis
      by (auto simp: tab_view_def insert_or_replace_def find_append split: option.splits)
  qed
qed

subsection \<open>Listing\<close>

lemma collect_tasks_Inr:
  "collect_tasks now rs = Inr ts \<longleftrightarrow> list_all2 (\<lambda>r t. task_of_row now r = Inr t) rs ts"
proof (induction rs arbitrary: ts)
  case Nil
  then show ?case by auto
next
  case (Cons r rs)
  show ?case
  proof (cases "task_of_row now r")
    case (Inl e)
    then show ?thesis by (simp add: list_all2_Cons1)
  next
    case (Inr t)
    have "map_sum id (Cons t) (collect_tasks now rs) = Inr ts \<longleftrightarrow>
        (\<exists>us. ts = t # us \<and> collect_tasks now rs = Inr us)"
      by (cases "collect_tasks now rs") auto
    with Inr Cons.IH show ?thesis by (simp add: list_all2_Cons1)
  qed
qed

lemma collect_tasks_total:
  assumes "tab_ok fmt tab" "set rs \<subseteq> set tab"
  shows "\<exists>ts. collect_tasks now rs = Inr ts"
  using assms(2)
proof (induction rs)
  case (Cons r rs)
  then have "r \<in> set tab" by simp
  from task_of_row_strip [OF assms(1) this] obtain t where "task_of_row now r = Inr t" by metis
  with Cons show ?case by auto
qed simp

lemma row_terminal:
  "storable fmt t \<Longrightarrow>
   r_state (row_of_task fmt t) \<in> {''Completed'', ''Failed'', ''Cancelled''} \<longleftrightarrow> is_terminal t"
  by (cases "state t") (simp_all add: row_of_task_def is_terminal_def)

lemma tab_row_terminal:
  assumes "tab_ok fmt tab" "r \<in> set tab" "task_of_row now r = Inr t"
  shows "r_state r \<in> {''Completed'', ''Failed'', ''Cancelled''} \<longleftrightarrow> is_terminal t"
proof -
  obtain u where u: "storable fmt u" "r = row_of_task fmt u"
    and s: "\<And>now. \<exists>t'. task_of_row now r = Inr t' \<and> strip t' = strip u"
    using task_of_row_strip [OF assms(1,2)] by metis
  from s [of now] assms(3) have "strip t = strip u" by auto
  then have "is_terminal t = is_terminal u" by (rule strip_eqD)
  with row_terminal [OF u(1)] u(2) show ?thesis by simp
qed

lemma tab_view_SomeE:
  assumes "tab_ok fmt tab" "tab_view tab i = Some x"
  obtains r t where "r \<in> set tab" "i = TaskId (r_id r)" "task_of_row now r = Inr t" "x = strip t"
proof -
  from assms(2) obtain r where r: "List.find (\<lambda>r. r_id r = task_value i) tab = Some r"
    by (auto simp: tab_view_def split: option.splits)
  then have m: "r \<in> set tab" "r_id r = task_value i" by (auto simp: find_Some_iff)
  obtain t where t: "task_of_row now r = Inr t"
    using task_of_row_strip [OF assms(1) m(1)] by metis
  from tab_view_in(1) [OF assms(1) m(1) t] assms(2) m(2) have "x = strip t" by simp
  with that m t show ?thesis by (metis task_id.collapse)
qed

lemma list_all2_fun_set:
  "list_all2 (\<lambda>r t. f r = Inr t) rs ts \<Longrightarrow> t \<in> set ts \<longleftrightarrow> (\<exists>r \<in> set rs. f r = Inr t)"
  by (induction rs ts rule: list_all2_induct) auto

lemma incomplete_set:
  assumes ok: "tab_ok fmt tab" and inc: "sqlite_incomplete env tab = Inr ts"
  shows "strip ` set ts = {x. \<exists>i. tab_view tab i = Some x \<and> \<not> is_terminal x}"
proof -
  let ?rs = "sort_key r_created_at
     (filter (\<lambda>r. r_state r \<notin> {''Completed'', ''Failed'', ''Cancelled''}) tab)"
  let ?now = "env_now env"
  from inc have all: "list_all2 (\<lambda>r t. task_of_row ?now r = Inr t) ?rs ts"
    by (auto simp: sqlite_incomplete_def collect_tasks_Inr split: sum.splits option.splits)
  have rows: "set ?rs = {r \<in> set tab. r_state r \<notin> {''Completed'', ''Failed'', ''Cancelled''}}" by auto
  have set_ts: "t \<in> set ts \<longleftrightarrow> (\<exists>r \<in> set ?rs. task_of_row ?now r = Inr t)" for t
    by (rule list_all2_fun_set [OF all])
  show ?thesis
  proof (intro set_eqI iffI)
    fix x assume "x \<in> strip ` set ts"
    then obtain r t where r: "r \<in> set tab" "r_state r \<notin> {''Completed'', ''Failed'', ''Cancelled''}"
      "task_of_row ?now r = Inr t" "x = strip t"
      using set_ts rows by auto
    with tab_view_in(1) [OF ok r(1,3)] tab_row_terminal [OF ok r(1,3)]
    show "x \<in> {x. \<exists>i. tab_view tab i = Some x \<and> \<not> is_terminal x}" by auto
  next
    fix x assume "x \<in> {x. \<exists>i. tab_view tab i = Some x \<and> \<not> is_terminal x}"
    then obtain i where i: "tab_view tab i = Some x" "\<not> is_terminal x" by auto
    obtain r t where r: "r \<in> set tab" "task_of_row ?now r = Inr t" "x = strip t"
      using tab_view_SomeE [OF ok i(1)] by metis
    with i(2) tab_row_terminal [OF ok r(1,2)] rows have "t \<in> set ts" by (auto simp: set_ts)
    with r(3) show "x \<in> strip ` set ts" by blast
  qed
qed

lemma tab_view_remove:
  "tab_view (filter (\<lambda>r. r_id r \<noteq> task_value i) tab) = (tab_view tab)(i := None)"
proof (rule ext)
  fix j
  have "List.find (\<lambda>r. r_id r = task_value j) (filter (\<lambda>r. r_id r \<noteq> task_value i) tab) =
      (if task_value j = task_value i then None else List.find (\<lambda>r. r_id r = task_value j) tab)"
    by (induction tab) auto
  then show "tab_view (filter (\<lambda>r. r_id r \<noteq> task_value i) tab) j = ((tab_view tab)(i := None)) j"
    by (auto simp: tab_view_def task_id.expand)
qed

subsection \<open>The SQLite repository implements the interface\<close>

definition sqlite_repo :: "(int \<Rightarrow> string) \<Rightarrow> (db_env, task_row list) task_repo" where
  "sqlite_repo fmt = \<lparr>repo_save = sqlite_save fmt, repo_find = sqlite_find,
     repo_incomplete = sqlite_incomplete, repo_remove = sqlite_remove\<rparr>"

interpretation sq: task_repository "sqlite_repo fmt" tab_view "tab_ok fmt" "storable fmt" for fmt
proof unfold_locales
  fix s env t s'
  assume "tab_ok fmt s" "storable fmt t" "repo_save (sqlite_repo fmt) env t s = (Inr (), s')"
  then show "tab_ok fmt s' \<and> tab_view s' = (tab_view s)(md_id (metadata t) \<mapsto> strip t)"
    by (auto simp: sqlite_repo_def sqlite_save_def tab_ok_save tab_view_save
        split: sum.splits option.splits)
next
  fix env t s e s'
  assume "repo_save (sqlite_repo fmt) env t s = (Inl e, s')"
  then show "s' = s" by (auto simp: sqlite_repo_def sqlite_save_def split: sum.splits option.splits)
next
  fix s env i x
  assume "tab_ok fmt s" "repo_find (sqlite_repo fmt) env i s = Inr x"
  then show "map_option strip x = tab_view s i" by (simp add: sqlite_repo_def sqlite_find_view)
next
  fix s env ts
  assume "tab_ok fmt s" "repo_incomplete (sqlite_repo fmt) env s = Inr ts"
  then show "strip ` set ts = {x. \<exists>i. tab_view s i = Some x \<and> \<not> is_terminal x}"
    by (simp add: sqlite_repo_def incomplete_set)
next
  fix s i t
  assume "tab_ok fmt s" "tab_view s i = Some t"
  then obtain r u where "r \<in> set s" "i = TaskId (r_id r)" "task_of_row 0 r = Inr u" "t = strip u"
    by (rule tab_view_SomeE)
  with \<open>tab_ok fmt s\<close> show "md_id (metadata t) = i" using tab_view_in(2) by fastforce
next
  fix s env i s'
  assume "tab_ok fmt s" "repo_remove (sqlite_repo fmt) env i s = (Inr (), s')"
  then show "tab_ok fmt s' \<and> tab_view s' = (tab_view s)(i := None)"
    by (auto simp: sqlite_repo_def sqlite_remove_def tab_view_remove tab_ok_def distinct_map_filter
        split: sum.splits option.splits if_splits)
qed

lemma fmt_iso_floor [simp]: "fmt_iso fmt (tp div 1000000 * 1000000) = fmt_iso fmt tp"
  by (simp add: fmt_iso_def)

lemma sum_map_SomeE:
  assumes "map_sum id Some x = Inr (Some t)"
  obtains "x = Inr t"
  using assms by (cases x) auto

lemma sqlite_find_storable:
  assumes "tab_ok fmt s" "fmt_iso fmt (env_now env)" "sqlite_find env i s = Inr (Some t)"
  shows "storable fmt t"
proof -
  from assms(3) obtain r where r: "List.find (\<lambda>r. r_id r = task_value i) s = Some r"
    and t: "task_of_row (env_now env) r = Inr t"
    by (auto simp: sqlite_find_def split: sum.splits option.splits
        elim: sum_map_SomeE)
  from r have "r \<in> set s" by (auto simp: find_Some_iff)
  with assms(1) obtain u where u: "storable fmt u" "r = row_of_task fmt u" by (auto simp: tab_ok_def)
  let ?md = "(metadata u)\<lparr>md_created_at := md_created_at (metadata u) div 1000000 * 1000000,
                          md_updated_at := md_updated_at (metadata u) div 1000000 * 1000000\<rparr>"
  have "task_of_row (env_now env) r = reconstitute (env_now env) ?md (state u) (error_message u)
      (downloader_kind u) (map_option gid_value (downloader_id u))"
    using u by (simp add: row_of_task_reconstitute)
  with t reconstitute_task [of u "env_now env" ?md] u(1) assms(2) show ?thesis
    by (auto simp: storable_def task_inv_def split: if_splits)
qed

lemma storable_op:
  assumes "storable fmt t" "fmt_iso fmt now" "op_ok op"
  shows "storable fmt (snd (apply_op now op t))"
proof -
  have inv: "task_inv (snd (apply_op now op t))"
    using assms by (auto simp: storable_def intro: task_inv_apply_op)
  have "md_updated_at (metadata (snd (apply_op now op t))) \<in> {now, md_updated_at (metadata t)}"
    "md_created_at (metadata (snd (apply_op now op t))) = md_created_at (metadata t)"
    by (cases op; simp add: task_op_defs)+
  with inv assms(1,2) show ?thesis by (auto simp: storable_def)
qed

interpretation sqe: task_editing "sqlite_repo fmt" tab_view "tab_ok fmt" "storable fmt"
  "\<lambda>env. fmt_iso fmt (env_now env)" "fmt_iso fmt" for fmt
proof unfold_locales
  fix s env i t
  assume "tab_ok fmt s" "fmt_iso fmt (env_now env)" "repo_find (sqlite_repo fmt) env i s = Inr (Some t)"
  then show "storable fmt t" by (simp add: sqlite_repo_def sqlite_find_storable)
next
  fix t now op
  assume "storable fmt t" "fmt_iso fmt now" "op_ok op"
  then show "storable fmt (snd (apply_op now op t))" by (rule storable_op)
next
  fix md :: task_metadata
  assume "fmt_iso fmt (md_created_at md)" "fmt_iso fmt (md_updated_at md)"
  then show "storable fmt (new_task md)" by (simp add: storable_def) (simp add: new_task_def)
qed

subsection \<open>Properties\<close>

text \<open>
  C7. A task that \<open>save\<close> stored is what \<open>find\<close> returns for its id, in every field but the two
  timestamps, and for every other id \<open>find\<close> returns what it returned before; the table stays a table
  of encoded tasks with one row per id.
\<close>

theorem save_find_roundtrip:
  assumes "tab_ok fmt tab" "storable fmt t"
    and "sqlite_save fmt env t tab = (Inr (), tab')" "sqlite_find env' i tab' = Inr x"
  shows "tab_ok fmt tab' \<and>
    map_option strip x = (if i = md_id (metadata t) then Some (strip t) else tab_view tab i)"
proof -
  have s: "repo_save (sqlite_repo fmt) env t tab = (Inr (), tab')"
    "repo_find (sqlite_repo fmt) env' i tab' = Inr x"
    using assms(3,4) by (simp_all add: sqlite_repo_def)
  from sq.save_law [OF assms(1,2) s(1)] have "tab_ok fmt tab'"
    "tab_view tab' = (tab_view tab)(md_id (metadata t) \<mapsto> strip t)" by auto
  with sq.find_law [OF _ s(2)] show ?thesis by auto
qed

text \<open>
  \<open>incomplete()\<close> returns, up to the timestamps, exactly the stored tasks that are not in a
  terminal state, whatever their chat; after \<open>remove\<close> of an id that task is gone and every other
  one stays.
\<close>

theorem incomplete_and_remove_exact:
  assumes "tab_ok fmt tab" "sqlite_incomplete env tab = Inr ts" "sqlite_remove env' i tab = (Inr (), tab')"
  shows "strip ` set ts = {x. \<exists>j. tab_view tab j = Some x \<and> \<not> is_terminal x} \<and>
    tab_ok fmt tab' \<and> tab_view tab' = (tab_view tab)(i := None)"
proof -
  have "repo_incomplete (sqlite_repo fmt) env tab = Inr ts"
    "repo_remove (sqlite_repo fmt) env' i tab = (Inr (), tab')"
    using assms(2,3) by (simp_all add: sqlite_repo_def)
  with sq.incomplete_law [OF assms(1)] sq.remove_law [OF assms(1)] show ?thesis by blast
qed

end
