(* ===== verification/Samples.thy ===== *)
theory Samples
  imports Ports Task_Repository
begin

text \<open>
  A small concrete world: one stored download in chat 100, ports that answer every call, and no
  interference. The examples of the other theories evaluate the model on it.
\<close>

definition example_task :: task where
  "example_task = \<lparr>metadata = example_metadata, state = Downloading, error_message = None,
     downloader_id = Some (Gid ''g1''), downloader_kind = DK_Aria2\<rparr>"

definition example_table :: "task_row list" where
  "example_table = [row_of_task epoch_fmt example_task]"

definition good_env :: db_env where
  "good_env = \<lparr>env_acquire = Inr (), env_fault = None, env_now = 0\<rparr>"

definition quiet_ports :: "(db_env, task_row list) ports" where
  "quiet_ports =
     \<lparr>p_repo = sqlite_repo epoch_fmt, p_env = (\<lambda>_. good_env), p_events = (\<lambda>_. []), p_now = (\<lambda>_. 0),
      p_draws = (\<lambda>_. (1, 2, 3, 4)), p_coroutine_cancelled = (\<lambda>_. False),
      p_send = (\<lambda>_ _ _. Inr (MessageId 9)), p_edit = (\<lambda>_ _ _ _. Inr ()),
      p_add_uri = (\<lambda>_ _ _. Inr (Gid ''g7'')), p_pause = (\<lambda>_ _ _. Inr ()), p_resume = (\<lambda>_ _ _. Inr ()),
      p_remove = (\<lambda>_ _ _ _. Inr ()), p_status = (\<lambda>_ _ _. Some (Inr (empty_status\<lparr>dl_state := DS_Complete\<rparr>))),
      p_render = (\<lambda>_ _ _. Inr ()), p_upload_file = (\<lambda>_ _ _ _. Inr empty_upload_result),
      p_upload_directory = (\<lambda>_ _ _ _. Inr [empty_upload_result]), p_settings = (\<lambda>_ _. Inr None)\<rparr>"

definition example_world :: "task_row list world" where
  "example_world = \<lparr>w_store = example_table, w_reg = empty_registry, w_pipe = empty_pipeline, w_trace = []\<rparr>"

text \<open>Ports over a store that accepts every write and keeps nothing, for runs where only the effects matter.\<close>

definition null_repo :: "(unit, unit) task_repo" where
  "null_repo = \<lparr>repo_save = (\<lambda>_ _ s. (Inr (), s)), repo_find = (\<lambda>_ _ _. Inr None),
     repo_incomplete = (\<lambda>_ _. Inr []), repo_remove = (\<lambda>_ _ s. (Inr (), s))\<rparr>"

definition null_ports :: "(effect list \<Rightarrow> event list) \<Rightarrow> download_status \<Rightarrow> (unit, unit) ports" where
  "null_ports evs st =
     \<lparr>p_repo = null_repo, p_env = (\<lambda>_. ()), p_events = evs, p_now = (\<lambda>_. 0),
      p_draws = (\<lambda>_. (1, 2, 3, 4)), p_coroutine_cancelled = (\<lambda>_. False),
      p_send = (\<lambda>_ _ _. Inr (MessageId 9)), p_edit = (\<lambda>_ _ _ _. Inr ()),
      p_add_uri = (\<lambda>_ _ _. Inr (Gid ''g7'')), p_pause = (\<lambda>_ _ _. Inr ()), p_resume = (\<lambda>_ _ _. Inr ()),
      p_remove = (\<lambda>_ _ _ _. Inr ()), p_status = (\<lambda>_ _ _. Some (Inr st)),
      p_render = (\<lambda>_ _ _. Inr ()), p_upload_file = (\<lambda>_ _ _ _. Inr empty_upload_result),
      p_upload_directory = (\<lambda>_ _ _ _. Inr []), p_settings = (\<lambda>_ _. Inr None)\<rparr>"

lemma example_task_storable [simp]: "storable epoch_fmt example_task"
  by (simp add: storable_def task_inv_def example_task_def example_metadata_def)

lemma example_table_ok [simp]: "tab_ok epoch_fmt example_table"
  by (auto simp: tab_ok_def example_table_def intro: exI [of _ example_task])

lemma quiet_ports_sel [simp]:
  "p_repo quiet_ports = sqlite_repo epoch_fmt" "p_env quiet_ports h = good_env" "p_now quiet_ports h = 0"
  by (simp_all add: quiet_ports_def)

lemma good_env_now [simp]: "env_now good_env = 0"
  by (simp add: good_env_def)

lemma example_view: "tab_view example_table (TaskId ''t1'') = Some (strip example_task)"
proof -
  have "tab_view (insert_or_replace (row_of_task epoch_fmt example_task) []) =
      (tab_view [])(md_id (metadata example_task) \<mapsto> strip example_task)"
    by (rule tab_view_save) simp
  then show ?thesis
    by (simp add: insert_or_replace_def example_table_def example_task_def example_metadata_def)
qed

lemma example_find: "\<exists>t. sqlite_find good_env (TaskId ''t1'') example_table = Inr (Some t) \<and>
    strip t = strip example_task"
proof -
  have "List.find (\<lambda>r. r_id r = ''t1'') example_table = Some (row_of_task epoch_fmt example_task)"
    by (simp add: example_table_def row_of_task_def example_task_def example_metadata_def)
  moreover obtain u where "task_of_row 0 (row_of_task epoch_fmt example_task) =
     Inr (example_task\<lparr>metadata := (metadata example_task)
       \<lparr>md_created_at := md_created_at (metadata example_task) div 1000000 * 1000000, md_updated_at := u\<rparr>\<rparr>)"
    using task_of_row_of_task [OF example_task_storable] by metis
  ultimately show ?thesis by (auto simp: sqlite_find_def good_env_def strip_def)
qed

subsection \<open>Examples of the repository\<close>

theorem save_find_roundtrip_witness:
  "\<exists>x tab'. sqlite_save epoch_fmt good_env example_task example_table = (Inr (), tab') \<and>
     sqlite_find good_env (TaskId ''t1'') tab' = Inr x \<and> map_option strip x = Some (strip example_task)"
proof -
  have s: "sqlite_save epoch_fmt good_env example_task example_table = (Inr (), example_table)"
    by (simp add: sqlite_save_def good_env_def insert_or_replace_def example_table_def row_of_task_def)
  obtain t where "sqlite_find good_env (TaskId ''t1'') example_table = Inr (Some t)"
    using example_find by blast
  with save_find_roundtrip [OF example_table_ok example_task_storable s this] s show ?thesis
    by (simp add: example_task_def example_metadata_def)
qed

theorem incomplete_and_remove_exact_witness:
  "\<exists>ts tab'. sqlite_incomplete good_env example_table = Inr ts \<and> ts \<noteq> [] \<and>
     sqlite_remove good_env (TaskId ''t1'') example_table = (Inr (), tab') \<and>
     tab_view tab' (TaskId ''t1'') = None"
proof -
  have rm: "sqlite_remove good_env (TaskId ''t1'') example_table = (Inr (), [])"
    by (simp add: sqlite_remove_def good_env_def example_table_def row_of_task_def example_task_def
        example_metadata_def)
  obtain ts where ts: "sqlite_incomplete good_env example_table = Inr ts"
    using collect_tasks_total [OF example_table_ok, of "sort_key r_created_at
      (filter (\<lambda>r. r_state r \<notin> {''Completed'', ''Failed'', ''Cancelled''}) example_table)"]
    by (auto simp: sqlite_incomplete_def good_env_def)
  have "strip example_task \<in> {x. \<exists>j. tab_view example_table j = Some x \<and> \<not> is_terminal x}"
    using example_view by (auto simp: is_terminal_def example_task_def)
  with incomplete_and_remove_exact [OF example_table_ok ts rm] have "ts \<noteq> []" by auto
  with ts rm incomplete_and_remove_exact [OF example_table_ok ts rm] show ?thesis by auto
qed

end
