(* ===== verification/Job_Runs.thy ===== *)
theory Job_Runs
  imports Pipeline_Invariants Samples
begin

text \<open>
  What the code before and after the poll loop guarantees, and the postcondition of a whole run of a
  use case: the task's last write, the returned value and the uploads agree.
\<close>

text \<open>Effects that do not depend on the download id, which is not known before \<open>add_uri\<close> returns.\<close>

definition early :: "job \<Rightarrow> effect \<Rightarrow> bool" where
  "early j e = (\<forall>g. addressed (j\<lparr>j_gid := g\<rparr>) e)"

interpretation early: history "early j" pool for j pool
  by unfold_locales (simp add: early_def)

lemma ok_early: "ok (early j) pool w \<Longrightarrow> ok (addressed (j\<lparr>j_gid := g\<rparr>)) pool w"
  by (auto simp: ok_def early_def list_all_iff)

lemma owns_gid [simp]: "owns (j\<lparr>j_gid := g\<rparr>) t = owns j t"
  by (simp add: owns_def)

text \<open>Evidence in the history that something was uploaded.\<close>

fun upload_evidence :: "bool \<Rightarrow> effect \<Rightarrow> bool" where
  "upload_evidence strict (E_UploadDone f (Inr r)) = True"
| "upload_evidence strict (E_UploadFile u f c (Inr r)) = True"
| "upload_evidence strict (E_UploadDirectory u d c (Inr rs)) = (strict \<longrightarrow> rs \<noteq> [])"
| "upload_evidence strict _ = False"

definition delivered :: "bool \<Rightarrow> effect list \<Rightarrow> bool" where
  "delivered strict h = list_ex (upload_evidence strict) h"

lemma delivered_successes: "upload_successes h \<noteq> [] \<Longrightarrow> delivered strict h"
  unfolding delivered_def by (induction h rule: upload_successes.induct) auto

lemma delivered_in: "e \<in> set h \<Longrightarrow> upload_evidence strict e \<Longrightarrow> delivered strict h"
  by (auto simp: delivered_def list_ex_iff)

lemma delivered_later: "later w w' \<Longrightarrow> delivered strict (w_trace w) \<Longrightarrow> delivered strict (w_trace w')"
  by (auto simp: delivered_def list_ex_iff later_def)

definition finished :: "job \<Rightarrow> bool \<Rightarrow> effect list \<Rightarrow> bool" where
  "finished j strict h = (running h = [] \<and> upload_errors h = [] \<and> delivered strict h \<and>
     (\<exists>t. last_save h = Some t \<and> state t = Completed) \<and>
     (\<exists>r. E_Remove (j_dk j) (j_gid j) False r \<in> set h))"

definition run_post :: "job \<Rightarrow> bool \<Rightarrow> 'a flow \<Rightarrow> 's world \<Rightarrow> bool" where
  "run_post j strict r w = (\<exists>g. ok (addressed (j\<lparr>j_gid := g\<rparr>)) (j_pool j) w \<and>
     (case r of
        Fuel_Out \<Rightarrow> True
      | Next _ \<Rightarrow> False
      | Return (Inl e) \<Rightarrow> stopped (j\<lparr>j_gid := g\<rparr>) (Inl e) (w_trace w)
      | Return (Inr i) \<Rightarrow> i = j_id j \<and> finished (j\<lparr>j_gid := g\<rparr>) strict (w_trace w)))"

lemma wp_launch:
  fixes w :: "'s world"
  assumes w: "ok (early j) pool w" "running (w_trace w) = []" and t: "owns j t" "state t = Queued"
    and fail: "\<And>e w'. ok (early j) pool w' \<Longrightarrow> stopped j (Inl e) (w_trace w') \<Longrightarrow> Q (Return (Inl e)) w'"
    and next_: "\<And>g u w'. ok (early j) pool w' \<Longrightarrow> running (w_trace w') = [] \<Longrightarrow> owns j u \<Longrightarrow>
      state u = Downloading \<Longrightarrow> Q (Next (g, u)) w'"
  shows "wp (launch P (j_chat j) (j_msg j) (j_dk j) url t) Q w"
proof -
  have A: "early j (E_Save u r)" "early j (E_Edit (j_chat j) (j_msg j) html r)"
    "early j (E_AddUri (j_dk j) url x)" if "owns j u" for u r html x
    using that by (auto simp: early_def owns_def)
  obtain u where u: "\<And>now. start_download now t = (Inr (), u now)" "\<And>now. owns j (u now)"
    "\<And>now. state (u now) = Downloading"
    using t that [of "\<lambda>now. touch now (t\<lparr>state := Downloading\<rparr>)"]
    by (auto simp: task_op_defs owns_def)
  have u': "owns j (attach_downloader now g dk (u now0))"
    "state (attach_downloader now g dk (u now0)) = Downloading" for now now0 g dk
    using u by (auto simp: attach_downloader_def touch_def owns_def)
  have after: "wp (case x of
        Inl e \<Rightarrow> fail_task P (j_chat j) (j_msg j) (u now) ''download'' e
      | Inr gid \<Rightarrow> do { now' \<leftarrow> clock P;
          let t = attach_downloader now' gid (j_dk j) (u now);
          persist_best_effort P t;
          State_Monad.return (Next (gid, t)) }) Q w'"
    if w': "ok (early j) pool w'" "running (w_trace w') = []" for x now and w' :: "'s world"
  proof (cases x)
    case (Inl e)
    have "wp (fail_task P (j_chat j) (j_msg j) (u now) ''download'' e) Q w'"
      by (rule early.wp_fail [OF w' u(2)]) (use u(3) A(2) fail t(1) in \<open>auto simp: is_terminal_def A\<close>)
    with Inl show ?thesis by simp
  next
    case (Inr g)
    have "wp (persist_best_effort P (attach_downloader n g (j_dk j) (u now)))
        (\<lambda>_. Q (Next (g, attach_downloader n g (j_dk j) (u now)))) w'" for n
      by (rule early.wp_persist [OF w'(1) A(1)]) (use u' w' in \<open>auto intro: next_ later_idle\<close>)
    with Inr show ?thesis by (simp add: Let_def)
  qed
  show ?thesis
    unfolding launch_def wp_bind wp_clock u(1) prod.case sum.case dl_add_uri_def
    by (rule early.wp_persist [OF w(1) A(1) [OF u(2)]], rule early.wp_await, assumption,
        rule A(3) [OF t(1)], simp, rule after, assumption, use w(2) in \<open>auto intro: later_idle\<close>)
qed

lemma wp_complete_job:
  fixes w :: "'s world"
  assumes w: "ok (addressed j) pool w" "running (w_trace w) = []" "upload_errors (w_trace w) = []"
      "delivered strict (w_trace w)"
    and t: "owns j t" "state t = Uploading \<or> \<not> tr \<and> state t = Downloading"
    and Q: "\<And>w'. ok (addressed j) pool w' \<Longrightarrow> finished j strict (w_trace w') \<Longrightarrow>
      Q (Return (Inr (j_id j))) w'"
  shows "wp (complete_job P j t tr html) Q w"
proof -
  let ?now = "p_now P (w_trace w)"
  define u where "u = (if tr then t else snd (begin_upload ?now t))"
  have "state u = Uploading" "owns j u"
    using t by (auto simp: u_def task_op_defs owns_def)
  then obtain v where v: "mark_completed ?now u = (Inr (), v)" "owns j v" "state v = Completed"
    by (auto simp: task_op_defs owns_def)
  show ?thesis
    unfolding complete_job_def wp_bind wp_clock Let_def u_def [symmetric] v(1) prod.case sum.case
      wp_return dl_remove_def edit_html_def
    by (rule job.wp_persist [OF w(1)], use v(2) in \<open>simp add: owns_def\<close>,
        rule job.wp_await, assumption, simp, simp, rule job.wp_await, assumption, simp, simp,
        rule Q, assumption, unfold finished_def, intro conjI,
        use w(2) in \<open>blast dest: later_idle\<close>, use w(2,3) in \<open>simp add: later_def\<close>,
        use w(4) in \<open>blast intro: delivered_later\<close>, use v(3) in simp, unfold later_def, blast)
qed

text \<open>What the choice between the pipelined results and the one-shot upload must establish.\<close>

definition upload_post :: "job \<Rightarrow> bool \<Rightarrow> bool \<Rightarrow> (task \<times> 'b) flow \<Rightarrow> 's world \<Rightarrow> bool" where
  "upload_post j strict tr r w = (ok (addressed j) (j_pool j) w \<and>
     (case r of
        Fuel_Out \<Rightarrow> False
      | Return x \<Rightarrow> stopped j x (w_trace w)
      | Next (t, _) \<Rightarrow> running (w_trace w) = [] \<and> upload_errors (w_trace w) = [] \<and>
          delivered strict (w_trace w) \<and> owns j t \<and>
          (state t = Uploading \<or> \<not> tr \<and> state t = Downloading)))"

lemma upload_post_pipelined:
  assumes "ok (addressed j) (j_pool j) w" "running (w_trace w) = []" "upload_errors (w_trace w) = []"
    "vars_ok j v" "0 < completed (w_pipe w)"
  shows "upload_post j strict (v_transitioned v) (Next (v_task v, x)) w"
proof -
  have "delivered strict (w_trace w)"
    by (rule delivered_successes) (use assms(1,5) in \<open>auto simp: ok_def linked_def\<close>)
  with assms show ?thesis by (auto simp: upload_post_def vars_ok_def)
qed

lemma wp_finish_job:
  fixes w :: "'s world" and html :: "'b \<Rightarrow> string"
  assumes "wp m (upload_post (j\<lparr>j_gid := g\<rparr>) strict tr) w"
  shows "wp (flow_bind m (\<lambda>(t, x). complete_job P (j\<lparr>j_gid := g\<rparr>) t tr (html x))) (run_post j strict) w"
proof (rule wp_flow_bind [OF assms])
  fix a :: "task \<times> 'b" and w' :: "'s world"
  assume "upload_post (j\<lparr>j_gid := g\<rparr>) strict tr (Next a) w'"
  then have "wp (complete_job P (j\<lparr>j_gid := g\<rparr>) (fst a) tr (html (snd a))) (run_post j strict) w'"
    by (intro wp_complete_job [where pool = "j_pool j"])
      (auto simp: upload_post_def run_post_def split: prod.splits)
  then show "wp (case a of (t, x) \<Rightarrow> complete_job P (j\<lparr>j_gid := g\<rparr>) t tr (html x)) (run_post j strict) w'"
    by (simp add: case_prod_beta)
qed (auto simp: upload_post_def run_post_def stopped_def split: sum.splits)

text \<open>Putting a run together: the loop, then the code that finishes the job.\<close>

lemma wp_job_run:
  fixes w :: "'s world"
  assumes w: "ok (early j) (j_pool j) w" "running (w_trace w) = []" and t: "owns j t" "state t = Queued"
    and fin: "\<And>g v w'. ok (addressed (j\<lparr>j_gid := g\<rparr>)) (j_pool j) w' \<Longrightarrow> running (w_trace w') = [] \<Longrightarrow>
      upload_errors (w_trace w') = [] \<Longrightarrow> vars_ok (j\<lparr>j_gid := g\<rparr>) v \<Longrightarrow>
      wp (finish (j\<lparr>j_gid := g\<rparr>) v) (run_post j strict) w'"
  shows "wp (flow_bind (launch P (j_chat j) (j_msg j) (j_dk j) url t) (\<lambda>(g, t).
       let j = j\<lparr>j_gid := g\<rparr> in flow_bind (poll_loop n P j (begin_job t)) (finish j)))
     (run_post j strict) w"
proof (rule wp_flow_bind [where R = "\<lambda>r w'. case r of
      Fuel_Out \<Rightarrow> False
    | Return x \<Rightarrow> run_post j strict (Return x :: 'a flow) w'
    | Next (g, u) \<Rightarrow> ok (early j) (j_pool j) w' \<and> owns j u \<and> state u = Downloading"])
  show "wp (launch P (j_chat j) (j_msg j) (j_dk j) url t) (\<lambda>r w'. case r of
      Fuel_Out \<Rightarrow> False
    | Return x \<Rightarrow> run_post j strict (Return x :: 'a flow) w'
    | Next (g, u) \<Rightarrow> ok (early j) (j_pool j) w' \<and> owns j u \<and> state u = Downloading) w"
  proof (rule wp_launch [OF w t])
    fix e and w' :: "'s world"
    assume "ok (early j) (j_pool j) w'" "stopped j (Inl e) (w_trace w')"
    with ok_early [of j "j_pool j" w' "j_gid j"]
    show "case Return (Inl e) of Fuel_Out \<Rightarrow> False
      | Return x \<Rightarrow> run_post j strict (Return x :: 'a flow) w'
      | Next (g, u) \<Rightarrow> ok (early j) (j_pool j) w' \<and> owns j u \<and> state u = Downloading"
      by (auto simp: run_post_def intro!: exI [of _ "j_gid j"])
  qed simp
next
  fix a :: "gid \<times> task" and w' :: "'s world"
  assume "case Next a of Fuel_Out \<Rightarrow> False
    | Return x \<Rightarrow> run_post j strict (Return x :: 'a flow) w'
    | Next (g, u) \<Rightarrow> ok (early j) (j_pool j) w' \<and> owns j u \<and> state u = Downloading"
  then obtain g u where a: "a = (g, u)" "ok (early j) (j_pool j) w'" "owns j u" "state u = Downloading"
    by (cases a) auto
  let ?j = "j\<lparr>j_gid := g\<rparr>"
  have "wp (flow_bind (poll_loop n P ?j (begin_job u)) (finish ?j)) (run_post j strict) w'"
  proof (rule wp_flow_bind [OF wp_poll_loop])
    show "ok (addressed ?j) (j_pool ?j) w'" using ok_early [OF a(2)] by simp
    show "vars_ok ?j (begin_job u)" using a by (simp add: vars_ok_def begin_job_def)
  qed (auto simp: loop_post_def run_post_def stopped_def intro!: fin split: sum.splits)
  then show "wp (case a of (g, t) \<Rightarrow> let j = j\<lparr>j_gid := g\<rparr>
      in flow_bind (poll_loop n P j (begin_job t)) (finish j)) (run_post j strict) w'"
    by (simp add: a Let_def)
qed auto

text \<open>The whole \<open>execute\<close> after the initial save: registration, run, unregistration.\<close>

lemma wp_with_guard:
  assumes "\<And>flag w'. w_trace w' = w_trace w \<Longrightarrow> w_pipe w' = w_pipe w \<Longrightarrow>
      wp (body flag) (\<lambda>x w'. Q x (w'\<lparr>w_reg := unregister i (w_reg w')\<rparr>)) w'"
  shows "wp (with_active_guard i body) Q w"
  using assms by (simp add: with_active_guard_def wp_def [of "State _"] split: prod.splits)

subsection \<open>Whole executions\<close>

definition start_world :: "'s \<Rightarrow> registry \<Rightarrow> 's world" where
  "start_world s reg = \<lparr>w_store = s, w_reg = reg, w_pipe = empty_pipeline, w_trace = []\<rparr>"

text \<open>Before the task exists a use case only reads settings and sends one message to its chat.\<close>

fun preliminary :: "chat_id \<Rightarrow> effect \<Rightarrow> bool" where
  "preliminary c (E_Settings _ _) = True"
| "preliminary c (E_Send c' _ _) = (c' = c)"
| "preliminary c (E_UploadDone _ _) = True"
| "preliminary c _ = False"

interpretation prelim: history "preliminary c" pool for c pool
  by unfold_locales simp

lemma preliminary_early: "preliminary (j_chat j) e \<Longrightarrow> early j e"
  by (cases e) (auto simp: early_def)

lemma ok_preliminary: "ok (preliminary (j_chat j)) pool w \<Longrightarrow> ok (early j) pool w"
  by (auto simp: ok_def list_all_iff intro: preliminary_early)

definition outcome :: "job \<Rightarrow> bool \<Rightarrow> task_id res \<Rightarrow> effect list \<Rightarrow> bool" where
  "outcome j strict x h =
     (last_save h = None \<and> (\<exists>e. x = Inl e) \<or>
      (\<exists>t e. last_save h = Some t \<and> state t = Queued \<and> x = Inl e \<and> E_Save t (Inl e) \<in> set h) \<or>
      stopped j x h \<or>
      x = Inr (j_id j) \<and> finished j strict h)"

definition exec_post :: "job \<Rightarrow> bool \<Rightarrow> task_id res option \<Rightarrow> 's world \<Rightarrow> bool" where
  "exec_post k strict r w = (\<exists>j. j_who j = j_who k \<and> j_chat j = j_chat k \<and> j_dk j = j_dk k \<and>
     j_pool j = j_pool k \<and> ok (addressed j) (j_pool j) w \<and>
     (case r of None \<Rightarrow> True | Some x \<Rightarrow> running (w_trace w) = [] \<and> outcome j strict x (w_trace w)))"

lemma exec_post_early:
  assumes "ok (early j) (j_pool j) w" "j_who j = j_who k" "j_chat j = j_chat k" "j_dk j = j_dk k"
    "j_pool j = j_pool k" "running (w_trace w) = []" "outcome j strict x (w_trace w)"
  shows "exec_post k strict (Some x) w"
  using assms ok_early [OF assms(1), of "j_gid j"] by (auto simp: exec_post_def)

lemma exec_post_preliminary:
  assumes "ok (preliminary (j_chat k)) (j_pool k) w" "running (w_trace w) = []" "last_save (w_trace w) = None"
  shows "exec_post k strict (Some (Inl e)) w"
  by (rule exec_post_early [where j = k]) (use assms in \<open>auto simp: outcome_def intro: ok_preliminary\<close>)

lemma exec_post_run:
  assumes "run_post j strict r w" "j_who j = j_who k" "j_chat j = j_chat k" "j_dk j = j_dk k"
    "j_pool j = j_pool k"
  shows "exec_post k strict (flow_result r) (w\<lparr>w_reg := reg\<rparr>)"
proof -
  from assms(1) obtain g where g: "ok (addressed (j\<lparr>j_gid := g\<rparr>)) (j_pool j) w" "case r of
        Fuel_Out \<Rightarrow> True
      | Next _ \<Rightarrow> False
      | Return (Inl e) \<Rightarrow> stopped (j\<lparr>j_gid := g\<rparr>) (Inl e) (w_trace w)
      | Return (Inr i) \<Rightarrow> i = j_id j \<and> finished (j\<lparr>j_gid := g\<rparr>) strict (w_trace w)"
    by (auto simp: run_post_def)
  show ?thesis
    unfolding exec_post_def
    by (rule exI [of _ "j\<lparr>j_gid := g\<rparr>"])
      (use g assms(2-5) in \<open>auto simp: flow_result_def outcome_def ok_def finished_def stopped_def
         split: flow.splits sum.splits\<close>)
qed

text \<open>The section both use cases start with: create the task, save it, register it, run.\<close>

lemma addressed_flag [simp]: "addressed (j\<lparr>j_flag := f\<rparr>) = addressed j"
proof (rule ext)
  show "addressed (j\<lparr>j_flag := f\<rparr>) e = addressed j e" for e by (cases e) auto
qed

lemma early_flag [simp]: "early (j\<lparr>j_flag := f\<rparr>) = early j"
proof (rule ext)
  have "j\<lparr>j_flag := f, j_gid := g\<rparr> = j\<lparr>j_gid := g, j_flag := f\<rparr>" for g by simp
  then show "early (j\<lparr>j_flag := f\<rparr>) e = early j e" for e
    unfolding early_def by (metis addressed_flag)
qed

lemma wp_create:
  fixes w :: "'s world"
  assumes w: "ok (preliminary (j_chat j)) (j_pool j) w" "running (w_trace w) = []"
    and t: "owns j t" "state t = Queued"
    and run: "\<And>flag w'. ok (early j) (j_pool j) w' \<Longrightarrow> running (w_trace w') = [] \<Longrightarrow>
      wp (run (j\<lparr>j_flag := flag\<rparr>)) (run_post (j\<lparr>j_flag := flag\<rparr>) strict) w'"
  shows "wp (do { saved \<leftarrow> save_task P t;
       case saved of
         Inl e \<Rightarrow> State_Monad.return (Some (Inl e))
       | Inr _ \<Rightarrow> with_active_guard i (\<lambda>flag. do {
           r \<leftarrow> run (j\<lparr>j_flag := flag\<rparr>); State_Monad.return (flow_result r) })
     }) (exec_post j strict) w"
proof -
  have guard: "wp (with_active_guard i (\<lambda>flag. do {
        r \<leftarrow> run (j\<lparr>j_flag := flag\<rparr>); State_Monad.return (flow_result r) })) (exec_post j strict) w'"
    if w': "ok (early j) (j_pool j) w'" "running (w_trace w') = []" for w' :: "'s world"
  proof (rule wp_with_guard)
    fix flag and w1 :: "'s world"
    assume "w_trace w1 = w_trace w'" "w_pipe w1 = w_pipe w'"
    with w' have "wp (run (j\<lparr>j_flag := flag\<rparr>)) (run_post (j\<lparr>j_flag := flag\<rparr>) strict) w1"
      by (intro run) (auto simp: ok_def)
    then show "wp (do { r \<leftarrow> run (j\<lparr>j_flag := flag\<rparr>); State_Monad.return (flow_result r) })
        (\<lambda>x w'. exec_post j strict x (w'\<lparr>w_reg := unregister i (w_reg w')\<rparr>)) w1"
      unfolding wp_bind wp_return by (rule wp_mono) (erule exec_post_run, auto)
  qed
  show ?thesis
    unfolding wp_bind
  proof (rule early.wp_save [OF ok_preliminary [OF w(1)]])
    show "early j (E_Save t r)" for r using t(1) by (auto simp: early_def owns_def)
  next
    fix r and w' :: "'s world"
    assume w': "ok (early j) (j_pool j) w'" "later w w'" "last_save (w_trace w') = Some t"
      "E_Save t r \<in> set (w_trace w')"
    with w(2) have idle: "running (w_trace w') = []" by (blast dest: later_idle)
    show "wp (case r of
         Inl e \<Rightarrow> State_Monad.return (Some (Inl e))
       | Inr _ \<Rightarrow> with_active_guard i (\<lambda>flag. do {
           r \<leftarrow> run (j\<lparr>j_flag := flag\<rparr>); State_Monad.return (flow_result r) })) (exec_post j strict) w'"
    proof (cases r)
      case (Inl e)
      with w' t idle exec_post_early [of j w' j strict "Inl e"] show ?thesis by (simp add: outcome_def)
    next
      case (Inr u)
      with guard [OF w'(1) idle] show ?thesis by simp
    qed
  qed
qed

lemma exec_post_cong:
  "exec_post k strict r w \<Longrightarrow> j_who k = j_who k' \<Longrightarrow> j_chat k = j_chat k' \<Longrightarrow> j_dk k = j_dk k' \<Longrightarrow>
   j_pool k = j_pool k' \<Longrightarrow> exec_post k' strict r w"
  by (simp add: exec_post_def)

lemma ok_start [simp]: "ok A pool (start_world s reg)"
  by (simp add: ok_def start_world_def)

lemma start_world_trace [simp]: "w_trace (start_world s reg) = []"
  by (simp add: start_world_def)

subsection \<open>What an execution guarantees\<close>

lemma last_save_in: "last_save h = Some t \<Longrightarrow> \<exists>r. E_Save t r \<in> set h"
  by (induction h rule: last_save.induct) auto

lemma pool_size_pos: "0 < pool_size n"
  by (simp add: pool_size_def)

lemma exec_post_pool:
  assumes "exec_post k strict r w" "0 \<le> j_pool k"
  shows "distinct (spawned (w_trace w)) \<and>
    (\<forall>m. int (length (running (drop m (w_trace w)))) \<le> j_pool k) \<and>
    (r \<noteq> None \<longrightarrow> running (w_trace w) = [])"
proof -
  from assms(1) have h: "hist_ok (j_pool k) (w_trace w)" "r \<noteq> None \<longrightarrow> running (w_trace w) = []"
    by (auto simp: exec_post_def ok_def)
  have "int (length (running (drop m (w_trace w)))) \<le> j_pool k" for m
    by (rule hist_ok_bound [OF hist_ok_suffix [of _ "take m (w_trace w)"] assms(2)]) (simp add: h(1))
  with h spawned_distinct [OF h(1)] show ?thesis by blast
qed

lemma exec_post_outcome:
  assumes "exec_post k strict (Some x) w"
  shows "case x of
     Inr i \<Rightarrow> \<exists>t. last_save (w_trace w) = Some t \<and> state t = Completed \<and> md_id (metadata t) = i \<and>
       upload_errors (w_trace w) = [] \<and> delivered strict (w_trace w)
   | Inl e \<Rightarrow> last_save (w_trace w) = None \<or> (\<exists>t. last_save (w_trace w) = Some t \<and>
       (state t = Queued \<and> E_Save t (Inl e) \<in> set (w_trace w) \<or>
        state t = Failed \<and> error_message t = Some (err_message e) \<or>
        state t = Cancelled \<and> err_code e = EC_Cancelled \<and>
        (\<exists>g r. E_Remove (j_dk k) g True r \<in> set (w_trace w))))"
proof -
  from assms obtain j where j: "j_dk j = j_dk k" "list_all (addressed j) (w_trace w)"
    "outcome j strict x (w_trace w)"
    by (auto simp: exec_post_def ok_def)
  have own: "md_id (metadata t) = j_id j" if "last_save (w_trace w) = Some t" for t
    using last_save_in [OF that] j(2) by (auto simp: list_all_iff)
  from j(3) show ?thesis
    unfolding outcome_def
  proof (elim disjE conjE exE)
    assume "stopped j x (w_trace w)"
    then show ?thesis using j(1) by (auto simp: stopped_def) blast
  next
    assume "x = Inr (j_id j)" "finished j strict (w_trace w)"
    then show ?thesis using own by (auto simp: finished_def)
  qed auto
qed

lemma exec_post_addressed:
  "exec_post k strict r w \<Longrightarrow>
   \<exists>j. j_chat j = j_chat k \<and> j_dk j = j_dk k \<and> list_all (addressed j) (w_trace w)"
  by (auto simp: exec_post_def ok_def)

subsection \<open>Properties of the loops\<close>

lemma spawned_event [simp]: "spawned (w_trace (run_event ev w)) = spawned (w_trace w)"
  by (cases ev) auto

lemma spawned_suspend [simp]: "spawned (w_trace (suspend P w)) = spawned (w_trace w)"
proof -
  have "spawned (w_trace (fold run_event evs w)) = spawned (w_trace w)" for evs
    by (induction evs arbitrary: w) auto
  then show ?thesis by (simp add: suspend_def)
qed

lemma spawned_log [simp]: "neutral e \<Longrightarrow> spawned (w_trace (log_effect e w)) = spawned (w_trace w)"
  by (simp add: log_effect_def neutral_history)

text \<open>The parts of the cancellation path that start no upload.\<close>

definition no_spawn :: "('s world, 'a) state \<Rightarrow> bool" where
  "no_spawn m = (\<forall>w. spawned (w_trace (snd (run_state m w))) = spawned (w_trace w))"

lemma no_spawn_intros:
  "no_spawn (State_Monad.return a)"
  "no_spawn m \<Longrightarrow> (\<And>a. no_spawn (f a)) \<Longrightarrow> no_spawn (State_Monad.bind m f)"
  "(\<And>r. neutral (eff r)) \<Longrightarrow> no_spawn (await P resp eff)"
  "no_spawn (save_task P t)" "no_spawn (gets g)" "no_spawn (clock P)" "neutral e \<Longrightarrow> no_spawn (emit e)"
  by (auto simp: no_spawn_def run_simps await_def gets_def clock_def emit_def Let_def case_prod_beta)
    (simp add: save_task_def log_effect_def case_prod_beta)

lemma no_spawn_drain: "no_spawn (drain_uploads n P)"
  by (induction n) (auto simp: timer_wait_def intro!: no_spawn_intros)

lemma no_spawn_cancel_job: "no_spawn (cancel_job n P j t)"
  unfolding cancel_job_def stop_uploads_def cancel_all_uploads_def flow_bind_def persist_best_effort_def
    dl_remove_def edit_html_def
  by (intro no_spawn_intros no_spawn_drain) (auto split: flow.split intro!: no_spawn_intros)

lemma cancel_job_spawned: "wp (cancel_job n P j t) (\<lambda>_ w'. spawned (w_trace w') = spawned (w_trace w)) w"
  by (simp add: wp_def case_prod_beta no_spawn_cancel_job [unfolded no_spawn_def, rule_format])

text \<open>
  C8. When the cancellation flag of a running job is raised, the next turn of its loop neither polls
  the downloader nor starts an upload: under a scheduler that lets running uploads finish it returns
  the cancelled error, with every upload finished, the download removed together with its files, and
  \<open>Cancelled\<close> as the last state written.
\<close>

theorem raised_flag_stops_the_job:
  assumes "guard_cancelled (j_flag j) (w_reg w)" "fair P"
    and "ok (addressed j) (j_pool j) w" "vars_ok j v" "length (running (w_trace w)) < n"
    and "run_state (poll_loop (Suc n) P j v) w = (r, w')"
  shows "r = Return (Inl (mk_error EC_Cancelled (j_who j @ '': cancelled by user''))) \<and>
    running (w_trace w') = [] \<and> spawned (w_trace w') = spawned (w_trace w) \<and>
    (\<exists>t. last_save (w_trace w') = Some t \<and> state t = Cancelled) \<and>
    (\<exists>x. E_Remove (j_dk j) (j_gid j) True x \<in> set (w_trace w'))"
proof -
  have run: "run_state (cancel_job n P j (v_task v)) w = (r, w')"
    using assms(1,6) by (simp add: run_simps job_cancelled_def gets_def)
  have "wp (cancel_job n P j (v_task v)) (\<lambda>r w'. r = Fuel_Out \<or> (\<exists>x. r = Return x \<and> stopped j x (w_trace w') \<and>
      (\<exists>t. last_save (w_trace w') = Some t \<and> state t = Cancelled))) w"
    by (rule wp_cancel_job [OF assms(3)]) (use vars_ok_live [OF assms(4)] in auto)
  moreover have r: "r = fst (run_state (cancel_job n P j (v_task v)) w)" using run by simp
  have "r \<noteq> Fuel_Out" unfolding r by (rule cancel_job_returns [OF assms(2,3,5)])
  ultimately obtain x where x: "r = Return x" "stopped j x (w_trace w')"
    "\<exists>t. last_save (w_trace w') = Some t \<and> state t = Cancelled"
    using wp_run [OF _ run] by blast
  have "wp (cancel_job n P j (v_task v)) (\<lambda>_ w'. spawned (w_trace w') = spawned (w_trace w)) w"
    by (rule cancel_job_spawned)
  from wp_run [OF this run] x show ?thesis by (auto simp: stopped_def)
qed

text \<open>A job with one upload running, and a scheduler that finishes the newest running upload at every await.\<close>

definition eager_events :: "effect list \<Rightarrow> event list" where
  "eager_events h = (case running h of [] \<Rightarrow> [] | f # _ \<Rightarrow> [Ev_Upload f (Inr empty_upload_result)])"

definition eager_ports :: "(db_env, task_row list) ports" where
  "eager_ports = quiet_ports\<lparr>p_events := eager_events\<rparr>"

definition example_job :: job where
  "example_job = \<lparr>j_who = ''mirror'', j_chat = ChatId 100, j_msg = MessageId 9, j_id = TaskId ''t1'',
     j_flag = 0, j_dk = DK_Aria2, j_gid = Gid ''g1'', j_up = Up_GDrive, j_cfg = default_upload_config,
     j_pool = 2\<rparr>"

definition uploading_world :: "task_row list world" where
  "uploading_world = \<lparr>w_store = example_table,
     w_reg = \<lparr>reg_map = [TaskId ''t1'' \<mapsto> 0], reg_flags = (\<lambda>_. True), reg_next = 1\<rparr>,
     w_pipe = empty_pipeline\<lparr>queued := {''a''}, in_flight := 1, active := [''a'']\<rparr>,
     w_trace = [E_Spawn Up_GDrive ''a'' default_upload_config]\<rparr>"

definition uploading_vars :: vars where
  "uploading_vars = \<lparr>v_task = example_task\<lparr>state := Uploading\<rparr>, v_transitioned = True,
     v_complete = True, v_status = empty_status\<rparr>"

lemma eager_fair: "fair eager_ports"
  unfolding fair_def
proof (intro allI impI)
  fix h assume "running h \<noteq> []"
  then show "\<exists>r. Ev_Upload (hd (running h)) r \<in> set (p_events eager_ports h)"
    by (cases "running h") (auto simp: eager_ports_def eager_events_def)
qed

lemma uploading_ok: "ok (addressed example_job) 2 uploading_world"
  by (simp add: ok_def linked_def uploading_world_def example_job_def empty_pipeline_def)

lemma uploading_vars_ok: "vars_ok example_job uploading_vars"
  by (simp add: vars_ok_def owns_def uploading_vars_def example_job_def example_task_def example_metadata_def)

theorem raised_flag_stops_the_job_witness:
  "fst (run_state (poll_loop 3 eager_ports example_job uploading_vars) uploading_world) =
     Return (Inl (mk_error EC_Cancelled ''mirror: cancelled by user''))"
  using raised_flag_stops_the_job [of example_job uploading_world eager_ports uploading_vars 2
      "fst (run_state (poll_loop 3 eager_ports example_job uploading_vars) uploading_world)"
      "snd (run_state (poll_loop 3 eager_ports example_job uploading_vars) uploading_world)",
      OF _ eager_fair _ uploading_vars_ok] uploading_ok
  by (simp add: guard_cancelled_def uploading_world_def example_job_def numeral_3_eq_3 numeral_2_eq_2)

text \<open>
  C12. Liveness of the waiting loops: if at every await with running uploads one of them finishes,
  draining ends after at most one tick per running upload, and once the download has completed the
  poll loop returns after at most two more turns than there are running uploads.
\<close>

theorem waiting_loops_return:
  assumes "fair P" "ok (addressed j) pool w" "length (running (w_trace w)) + 1 < n" "v_complete v"
  shows "fst (run_state (drain_uploads n P) w) = Next () \<and> fst (run_state (poll_loop n P j v) w) \<noteq> Fuel_Out"
  using drain_returns [OF assms(1,2)] poll_loop_returns [OF assms(1,2,4,3)] assms(3) by simp

theorem waiting_loops_return_witness:
  "fst (run_state (poll_loop 3 eager_ports example_job uploading_vars) uploading_world) \<noteq> Fuel_Out"
  using waiting_loops_return [OF eager_fair uploading_ok, of 3 uploading_vars]
  by (simp add: uploading_world_def uploading_vars_def)

text \<open>The definitions that evaluate a run on given ports.\<close>

lemmas job_run_defs = launch_def poll_download_def on_status_def stop_uploads_def cancel_all_uploads_def
  fail_uploads_def fail_with_def fail_task_def cancel_job_def complete_job_def persist_best_effort_def
  with_active_guard_def enter_uploading_def spawn_upload_def can_spawn_more_def job_cancelled_def
  flow_bind_def port_defs await_def save_task_def gets_def modify_def emit_def clock_def suspend_def
  log_effect_def null_ports_def null_repo_def begin_job_def flow_result_def start_world_def
  empty_pipeline_def task_op_defs new_task_def supports_pipelining_def empty_status_def
  with_timeout_def pool_size_def reg_defs empty_registry_def eager_events_def upload_finished_def
  run_simps

end
