(* ===== verification/Mirror_Url.thy ===== *)
theory Mirror_Url
  imports Job_Runs
begin

text \<open>
  \<open>MirrorUrl::execute\<close> of \<open>src/application/mirror_url.cpp\<close>: the choice of the destination, the
  creation and registration of the task, the pipeline, the one-shot upload for a download that was
  not pipelined, and completion.
\<close>

record mirror_request =
  mr_url :: string
  mr_user :: user_id
  mr_chat :: chat_id
  mr_source_message :: message_id
  mr_use_qbittorrent :: bool
  mr_override_destination :: "upload_destination option"

definition resolve_destination ::
    "mirror_request \<Rightarrow> user_settings option \<Rightarrow> upload_destination res" where
  "resolve_destination req settings =
     (case mr_override_destination req of
        Some d \<Rightarrow> Inr d
      | None \<Rightarrow>
          (case settings of
             Some s \<Rightarrow>
               if us_mirror_destination s = UD_GoogleDrive \<or> us_mirror_destination s = UD_Rclone
               then Inr (us_mirror_destination s) else Inr UD_GoogleDrive
           | None \<Rightarrow> Inr UD_GoogleDrive))"

definition mirror_downloader :: "mirror_request \<Rightarrow> downloader_kind" where
  "mirror_downloader req = (if mr_use_qbittorrent req then DK_Qbittorrent else DK_Aria2)"

definition mirror_uploader :: "upload_destination \<Rightarrow> uploader" where
  "mirror_uploader d = (if d = UD_Rclone then Up_Rclone else Up_GDrive)"

definition mirror_upload_config :: "upload_destination \<Rightarrow> user_settings option \<Rightarrow> upload_config" where
  "mirror_upload_config d settings =
     (case settings of
        None \<Rightarrow> default_upload_config
      | Some s \<Rightarrow>
          default_upload_config
            \<lparr>uc_folder_id := (if d = UD_GoogleDrive then us_gdrive_folder_id s else None),
             uc_rclone_path := (if d = UD_Rclone then us_rclone_remote s else None)\<rparr>)"

definition mirror_queued_html :: "string \<Rightarrow> string" where
  "mirror_queued_html url =
     ''<b><u>Queued</u></b>'' @ newline @ ''<blockquote>'' @
     escape_html (truncate_for_display url 200) @ ''</blockquote>''"

definition mirror_uploading_html :: "uploader \<Rightarrow> string" where
  "mirror_uploading_html u =
     ''<b><u>Uploading</u></b>'' @ newline @ ''<blockquote>Destination: '' @
     escape_html (uploader_name u) @ ''</blockquote>''"

definition mirror_completed_html :: "upload_result \<Rightarrow> string" where
  "mirror_completed_html r =
     ''<b><u>Completed</u></b>'' @ newline @ ''<blockquote>'' @
     escape_html (truncate_for_display (if ur_link r = [] then ur_file_id r else ur_link r) 400) @
     ''</blockquote>''"

text \<open>The one-shot upload: the task after \<open>begin_upload\<close> and the outcome to show.\<close>

definition mirror_fallback ::
    "('e, 's) ports \<Rightarrow> job \<Rightarrow> vars \<Rightarrow> ('s world, (task \<times> upload_result) flow) state" where
  "mirror_fallback P j v = do {
     now \<leftarrow> clock P;
     (case begin_upload now (v_task v) of
        (Inl e, t) \<Rightarrow> fail_task P (j_chat j) (j_msg j) t ''state'' e
      | (Inr _, t) \<Rightarrow> do {
          persist_best_effort P t;
          _ \<leftarrow> edit_html P (j_chat j) (j_msg j) (mirror_uploading_html (j_up j));
          (case dl_files (v_status v) of
             [] \<Rightarrow> fail_with P (j_chat j) (j_msg j) t ''download'' EC_Internal
                     ''downloader reported no produced files''
           | f # _ \<Rightarrow>
               (case dl_save_path (v_status v) of
                  Some dir \<Rightarrow> do {
                    r \<leftarrow> upload_directory P (j_up j) dir (j_cfg j);
                    (case r of
                       Inl e \<Rightarrow> fail_task P (j_chat j) (j_msg j) t ''upload'' e
                     | Inr [] \<Rightarrow> State_Monad.return (Next (t, empty_upload_result))
                     | Inr (x # _) \<Rightarrow> State_Monad.return (Next (t, x)))
                  }
                | None \<Rightarrow> do {
                    r \<leftarrow> upload_file P (j_up j) f (j_cfg j);
                    (case r of
                       Inl e \<Rightarrow> fail_task P (j_chat j) (j_msg j) t ''upload'' e
                     | Inr x \<Rightarrow> State_Monad.return (Next (t, x)))
                  }))
        })
   }"

definition mirror_finish :: "('e, 's) ports \<Rightarrow> job \<Rightarrow> vars \<Rightarrow> ('s world, unit flow) state" where
  "mirror_finish P j v = do {
     (any_uploaded, outcome) \<leftarrow> gets (\<lambda>w.
       (completed (w_pipe w) > 0,
        case results (w_pipe w) of r # _ \<Rightarrow> r | [] \<Rightarrow> empty_upload_result));
     flow_bind
       (if any_uploaded then State_Monad.return (Next (v_task v, outcome)) else mirror_fallback P j v)
       (\<lambda>(t, outcome). complete_job P j t (v_transitioned v) (mirror_completed_html outcome))
   }"

definition mirror_run ::
    "nat \<Rightarrow> ('e, 's) ports \<Rightarrow> string \<Rightarrow> job \<Rightarrow> task \<Rightarrow> ('s world, unit flow) state" where
  "mirror_run n P url j t =
     flow_bind (launch P (j_chat j) (j_msg j) (j_dk j) url t) (\<lambda>(g, t).
       let j = j\<lparr>j_gid := g\<rparr> in
       flow_bind (poll_loop n P j (begin_job t)) (mirror_finish P j))"

definition mirror_job ::
    "int \<Rightarrow> mirror_request \<Rightarrow> user_settings option \<Rightarrow> upload_destination \<Rightarrow> message_id \<Rightarrow> task_id \<Rightarrow> job" where
  "mirror_job pool req settings d m i =
     \<lparr>j_who = ''mirror'', j_chat = mr_chat req, j_msg = m, j_id = i, j_flag = 0,
      j_dk = mirror_downloader req, j_gid = Gid [], j_up = mirror_uploader d,
      j_cfg = mirror_upload_config d settings, j_pool = pool_size pool\<rparr>"

definition mirror_metadata :: "mirror_request \<Rightarrow> message_id \<Rightarrow> task_id \<Rightarrow> systime \<Rightarrow> task_metadata" where
  "mirror_metadata req m i now =
     \<lparr>md_id = i, md_user = mr_user req, md_chat = mr_chat req, md_status_message = m,
      md_kind = Mirror, md_source_url = mr_url req, md_created_at = now, md_updated_at = now\<rparr>"

text \<open>The task is created, saved in \<open>Queued\<close>, registered and run.\<close>

definition mirror_create ::
    "nat \<Rightarrow> ('e, 's) ports \<Rightarrow> int \<Rightarrow> mirror_request \<Rightarrow> user_settings option \<Rightarrow> upload_destination \<Rightarrow>
     message_id \<Rightarrow> ('s world, task_id res option) state" where
  "mirror_create n P pool req settings d m = do {
     now \<leftarrow> clock P;
     i \<leftarrow> gets (\<lambda>w. make_task_id (p_draws P (w_trace w)));
     let t = new_task (mirror_metadata req m i now);
     saved \<leftarrow> save_task P t;
     (case saved of
        Inl e \<Rightarrow> State_Monad.return (Some (Inl e))
      | Inr _ \<Rightarrow> with_active_guard i (\<lambda>flag. do {
          r \<leftarrow> mirror_run n P (mr_url req)
                ((mirror_job pool req settings d m i)\<lparr>j_flag := flag\<rparr>) t;
          State_Monad.return (flow_result r)
        }))
   }"

definition mirror_execute ::
    "nat \<Rightarrow> ('e, 's) ports \<Rightarrow> int \<Rightarrow> mirror_request \<Rightarrow> ('s world, task_id res option) state" where
  "mirror_execute n P pool req =
     (if mr_url req = []
      then State_Monad.return (Some (Inl (mk_error EC_InvalidArgument ''mirror: empty URL'')))
      else do {
        settings_res \<leftarrow> get_settings P (mr_user req);
        (case settings_res of
           Inl e \<Rightarrow> State_Monad.return (Some (Inl e))
         | Inr settings \<Rightarrow>
             (case resolve_destination req settings of
                Inl e \<Rightarrow> State_Monad.return (Some (Inl e))
              | Inr d \<Rightarrow> do {
                  status_msg \<leftarrow> send_html P (mr_chat req) (mirror_queued_html (mr_url req));
                  (case status_msg of
                     Inl e \<Rightarrow> State_Monad.return (Some (Inl e))
                   | Inr m \<Rightarrow> mirror_create n P pool req settings d m)
                }))
      })"

subsection \<open>Every run keeps the pipeline invariant and ends in a terminal task\<close>

lemma wp_mirror_fallback:
  fixes w :: "'s world"
  assumes w: "ok (addressed j) (j_pool j) w" "running (w_trace w) = []" "upload_errors (w_trace w) = []"
    and v: "vars_ok j v"
  shows "wp (mirror_fallback P j v) (upload_post j False (v_transitioned v)) w" (is "wp _ ?Q _")
proof (cases "v_transitioned v")
  case True
  with v obtain e where e: "begin_upload now (v_task v) = (Inl e, v_task v)" for now
    by (auto simp: vars_ok_def task_op_defs)
  have "wp (fail_task P (j_chat j) (j_msg j) (v_task v) ''state'' e) ?Q w"
    by (rule wp_fail_task [OF w(1,2)]) (use vars_ok_live [OF v] in \<open>auto simp: upload_post_def\<close>)
  then show ?thesis by (simp add: mirror_fallback_def e)
next
  case False
  let ?now = "p_now P (w_trace w)"
  obtain t where t: "begin_upload ?now (v_task v) = (Inr (), t)" "owns j t" "state t = Uploading"
    using v False by (auto simp: vars_ok_def task_op_defs owns_def)
  have fail: "wp (fail_task P (j_chat j) (j_msg j) t stage e) ?Q w'"
    if "ok (addressed j) (j_pool j) w'" "later w w'" for stage e and w' :: "'s world"
    by (rule wp_fail_task [OF that(1) later_idle [OF that(2) w(2)] t(2)])
      (use t(3) in \<open>auto simp: is_terminal_def upload_post_def\<close>)
  have deliver: "?Q (Next (t, x)) w'"
    if "ok (addressed j) (j_pool j) w'" "later w w'" "e \<in> set (w_trace w')" "upload_evidence False e"
    for e x and w' :: "'s world"
    using that w delivered_in [OF that(3,4)] t(2,3) by (simp add: upload_post_def later_def)
  have upload: "wp (case dl_files (v_status v) of
             [] \<Rightarrow> fail_with P (j_chat j) (j_msg j) t ''download'' EC_Internal
                     ''downloader reported no produced files''
           | f # _ \<Rightarrow>
               (case dl_save_path (v_status v) of
                  Some dir \<Rightarrow> do {
                    r \<leftarrow> upload_directory P (j_up j) dir (j_cfg j);
                    (case r of
                       Inl e \<Rightarrow> fail_task P (j_chat j) (j_msg j) t ''upload'' e
                     | Inr [] \<Rightarrow> State_Monad.return (Next (t, empty_upload_result))
                     | Inr (x # _) \<Rightarrow> State_Monad.return (Next (t, x)))
                  }
                | None \<Rightarrow> do {
                    r \<leftarrow> upload_file P (j_up j) f (j_cfg j);
                    (case r of
                       Inl e \<Rightarrow> fail_task P (j_chat j) (j_msg j) t ''upload'' e
                     | Inr x \<Rightarrow> State_Monad.return (Next (t, x)))
                  })) ?Q w'"
    if w': "ok (addressed j) (j_pool j) w'" "later w w'" for w' :: "'s world"
  proof -
    have dir: "wp (upload_directory P (j_up j) dir (j_cfg j)) (\<lambda>r. wp (case r of
         Inl e \<Rightarrow> fail_task P (j_chat j) (j_msg j) t ''upload'' e
       | Inr [] \<Rightarrow> State_Monad.return (Next (t, empty_upload_result))
       | Inr (x # _) \<Rightarrow> State_Monad.return (Next (t, x))) ?Q) w'" for dir
      unfolding upload_directory_def
      by (rule job.wp_await [OF w'(1)])
        (auto split: sum.split list.split intro!: fail intro: deliver later_trans [OF w'(2)])
    have single: "wp (upload_file P (j_up j) f (j_cfg j)) (\<lambda>r. wp (case r of
         Inl e \<Rightarrow> fail_task P (j_chat j) (j_msg j) t ''upload'' e
       | Inr x \<Rightarrow> State_Monad.return (Next (t, x))) ?Q) w'" for f
      unfolding upload_file_def
      by (rule job.wp_await [OF w'(1)])
        (auto split: sum.split intro!: fail intro: deliver later_trans [OF w'(2)])
    show ?thesis
      using dir single fail [OF w'] by (simp add: fail_with_def split: list.split option.split)
  qed
  show ?thesis
    unfolding mirror_fallback_def wp_bind wp_clock t(1) prod.case sum.case edit_html_def
    by (rule job.wp_persist [OF w(1)], use t(2) in \<open>simp add: owns_def\<close>,
        rule job.wp_await, assumption, simp, simp, rule upload, assumption, erule later_trans, assumption)
qed

lemma wp_mirror_finish:
  assumes w: "ok (addressed (j\<lparr>j_gid := g\<rparr>)) (j_pool j) w" "running (w_trace w) = []"
      "upload_errors (w_trace w) = []"
    and v: "vars_ok (j\<lparr>j_gid := g\<rparr>) v"
  shows "wp (mirror_finish P (j\<lparr>j_gid := g\<rparr>) v) (run_post j False) w"
proof -
  let ?j = "j\<lparr>j_gid := g\<rparr>"
  have "wp (if 0 < completed (w_pipe w) then State_Monad.return (Next (v_task v, x))
        else mirror_fallback P ?j v) (upload_post ?j False (v_transitioned v)) w" for x
    by (rule wp_if) (use w v in \<open>auto intro: upload_post_pipelined wp_mirror_fallback\<close>)
  from wp_finish_job [OF this] show ?thesis
    unfolding mirror_finish_def wp_bind wp_gets prod.case .
qed

lemma wp_mirror_run:
  assumes "ok (early j) (j_pool j) w" "running (w_trace w) = []" "owns j t" "state t = Queued"
  shows "wp (mirror_run n P url j t) (run_post j False) w"
  unfolding mirror_run_def by (rule wp_job_run [OF assms]) (rule wp_mirror_finish)

lemma mirror_job_sel [simp]:
  "j_who (mirror_job pool req st d m i) = ''mirror''" "j_chat (mirror_job pool req st d m i) = mr_chat req"
  "j_dk (mirror_job pool req st d m i) = mirror_downloader req"
  "j_pool (mirror_job pool req st d m i) = pool_size pool" "j_id (mirror_job pool req st d m i) = i"
  by (simp_all add: mirror_job_def)

definition mirror_spec :: "int \<Rightarrow> mirror_request \<Rightarrow> job" where
  "mirror_spec pool req = mirror_job pool req None UD_GoogleDrive (MessageId 0) (TaskId [])"

lemma wp_mirror_create:
  assumes "ok (preliminary (mr_chat req)) (pool_size pool) w" "running (w_trace w) = []"
  shows "wp (mirror_create n P pool req st d m) (exec_post (mirror_spec pool req) False) w"
proof -
  have "wp (do { saved \<leftarrow> save_task P t;
       case saved of
         Inl e \<Rightarrow> State_Monad.return (Some (Inl e))
       | Inr _ \<Rightarrow> with_active_guard i (\<lambda>flag. do {
           r \<leftarrow> mirror_run n P (mr_url req) ((mirror_job pool req st d m i)\<lparr>j_flag := flag\<rparr>) t;
           State_Monad.return (flow_result r) })
     }) (exec_post (mirror_job pool req st d m i) False) w"
    if "t = new_task (mirror_metadata req m i now)" for t i now
    by (rule wp_create [where run = "\<lambda>j. mirror_run n P (mr_url req) j t"])
      (use assms that in \<open>auto simp: owns_def mirror_metadata_def new_task_def intro!: wp_mirror_run\<close>)
  then have "wp (mirror_create n P pool req st d m)
      (exec_post (mirror_job pool req st d m (make_task_id (p_draws P (w_trace w)))) False) w"
    by (simp add: mirror_create_def Let_def)
  then show ?thesis by (rule wp_mono) (erule exec_post_cong, simp_all add: mirror_spec_def)
qed

lemma wp_mirror_execute:
  fixes s :: 's
  shows "wp (mirror_execute n P pool req) (exec_post (mirror_spec pool req) False) (start_world s reg)"
proof -
  let ?ok = "ok (preliminary (mr_chat req)) (pool_size pool)"
  let ?Q = "exec_post (mirror_spec pool req) False"
  have err: "?Q (Some (Inl e)) w"
    if "?ok w" "running (w_trace w) = []" "last_save (w_trace w) = None" for e and w :: "'s world"
    by (rule exec_post_preliminary) (use that in \<open>simp_all add: mirror_spec_def\<close>)
  have send: "wp (send_html P (mr_chat req) html) (\<lambda>x. wp (case x of
      Inl e \<Rightarrow> State_Monad.return (Some (Inl e))
    | Inr m \<Rightarrow> mirror_create n P pool req st d m) ?Q) w"
    if w: "?ok w" "running (w_trace w) = []" "last_save (w_trace w) = None" for st d html and w :: "'s world"
    unfolding send_html_def
    by (rule prelim.wp_await [OF w(1)], simp, simp)
      (use w in \<open>auto simp: later_idle split: sum.split intro!: err wp_mirror_create\<close>)
  have "wp (get_settings P (mr_user req)) (\<lambda>x. wp (case x of
           Inl e \<Rightarrow> State_Monad.return (Some (Inl e))
         | Inr settings \<Rightarrow>
             (case resolve_destination req settings of
                Inl e \<Rightarrow> State_Monad.return (Some (Inl e))
              | Inr d \<Rightarrow> do {
                  status_msg \<leftarrow> send_html P (mr_chat req) (mirror_queued_html (mr_url req));
                  (case status_msg of
                     Inl e \<Rightarrow> State_Monad.return (Some (Inl e))
                   | Inr m \<Rightarrow> mirror_create n P pool req settings d m)
                })) ?Q) (start_world s reg)"
    unfolding get_settings_def
    by (rule prelim.wp_await [where pool = "pool_size pool" and c = "mr_chat req"], simp, simp, simp)
      (auto simp: later_idle split: sum.split intro!: err send)
  then show ?thesis by (simp add: mirror_execute_def err)
qed

subsection \<open>Properties\<close>


definition mirror_example :: mirror_request where
  "mirror_example = \<lparr>mr_url = ''u'', mr_user = UserId 7, mr_chat = ChatId 100,
     mr_source_message = MessageId 1, mr_use_qbittorrent = False, mr_override_destination = None\<rparr>"


lemmas mirror_run_defs = mirror_execute_def mirror_create_def mirror_run_def mirror_finish_def mirror_fallback_def
  mirror_job_def mirror_metadata_def mirror_downloader_def mirror_example_def job_run_defs resolve_destination_def

text \<open>
  C2. What a mirror returns and what it last wrote to the store agree on every path: an id only for a
  task written as \<open>Completed\<close> after some upload call succeeded and with no failed upload; an error only if nothing was written, if
  the first write itself failed, if the task was written as \<open>Failed\<close> with that error's message, or if
  it was written as \<open>Cancelled\<close> after the download and its files were removed.
\<close>

theorem mirror_result_matches_last_write:
  assumes "run_state (mirror_execute n P pool req) (start_world s reg) = (Some x, w')"
  shows "case x of
     Inr i \<Rightarrow> \<exists>t. last_save (w_trace w') = Some t \<and> state t = Completed \<and> md_id (metadata t) = i \<and>
       upload_errors (w_trace w') = [] \<and> delivered False (w_trace w')
   | Inl e \<Rightarrow> last_save (w_trace w') = None \<or> (\<exists>t. last_save (w_trace w') = Some t \<and>
       (state t = Queued \<and> E_Save t (Inl e) \<in> set (w_trace w') \<or>
        state t = Failed \<and> error_message t = Some (err_message e) \<or>
        state t = Cancelled \<and> err_code e = EC_Cancelled \<and>
        (\<exists>g r. E_Remove (mirror_downloader req) g True r \<in> set (w_trace w'))))"
  using exec_post_outcome [OF wp_run [OF wp_mirror_execute assms]]
  by (cases x) (auto simp: mirror_spec_def)

theorem mirror_result_matches_last_write_witness:
  "\<exists>t. last_save (w_trace (snd (run_state (mirror_execute 3 (null_ports eager_events
     (empty_status\<lparr>dl_state := DS_Complete, dl_files := [''a'']\<rparr>)) 4 mirror_example)
     (start_world () empty_registry)))) = Some t \<and> state t = Completed"
proof -
  let ?x = "run_state (mirror_execute 3 (null_ports eager_events
     (empty_status\<lparr>dl_state := DS_Complete, dl_files := [''a'']\<rparr>)) 4 mirror_example)
     (start_world () empty_registry)"
  obtain i where "fst ?x = Some (Inr i)"
    by (simp add: mirror_run_defs Let_def eval_nat_numeral)
  then have "?x = (Some (Inr i), snd ?x)" by (metis prod.collapse)
  from mirror_result_matches_last_write [OF this] show ?thesis by auto
qed

text \<open>
  Every effect of a mirror is addressed to its own request: messages only to the requesting chat and
  edits only to one status message, backend calls only to the backend the request chose and, after
  \<open>add_uri\<close>, only for one download, writes only to one task of that chat, uploads with one uploader
  and configuration; no other task is read.
\<close>

theorem mirror_effects_addressed:
  assumes "run_state (mirror_execute n P pool req) (start_world s reg) = (r, w')"
  shows "\<exists>j. j_chat j = mr_chat req \<and> j_dk j = mirror_downloader req \<and> list_all (addressed j) (w_trace w')"
  using exec_post_addressed [OF wp_run [OF wp_mirror_execute assms]] by (simp add: mirror_spec_def)

theorem mirror_effects_addressed_witness:
  "\<exists>j. j_chat j = ChatId 100 \<and> list_all (addressed j)
     (w_trace (snd (run_state (mirror_execute 9 eager_ports 4 mirror_example) (start_world [] empty_registry))))"
  using mirror_effects_addressed [of 9 eager_ports 4 mirror_example "[]" empty_registry
      "fst (run_state (mirror_execute 9 eager_ports 4 mirror_example) (start_world [] empty_registry))"
      "snd (run_state (mirror_execute 9 eager_ports 4 mirror_example) (start_world [] empty_registry))"]
  by (auto simp: mirror_example_def)

subsection \<open>Behaviours to know about\<close>

text \<open>
  A download that completes with two files while the pool has one place: the loop over the files
  stops at the full pool, the status is never polled again, and the second file is not uploaded.
\<close>

text \<open>
  A mirror can report \<open>Completed\<close> although a produced file was never uploaded: with a pool of
  one, a finished two-file download uploads its first file only.
\<close>

theorem mirror_may_skip_files:
  "\<exists>i w'. run_state (mirror_execute 9 (null_ports eager_events
       (empty_status\<lparr>dl_state := DS_Complete, dl_files := [''a'', ''b'']\<rparr>)) 1 mirror_example)
     (start_world () empty_registry) = (Some (Inr i), w') \<and> spawned (w_trace w') = [''a'']"
  by (simp add: mirror_run_defs Let_def eval_nat_numeral)

text \<open>Another use case cancels the task while the one-shot upload runs.\<close>

definition cancel_during_upload :: "effect list \<Rightarrow> event list" where
  "cancel_during_upload h = (case h of
     E_UploadFile u f c r # _ \<Rightarrow> [Ev_Reg (CancelFlag (make_task_id (1, 2, 3, 4)))] | _ \<Rightarrow> [])"

text \<open>
  A cancellation that arrives during the one-shot upload (every torrent mirror) is acknowledged
  but has no effect: the flag is raised, the mirror does not look at it again and completes.
\<close>

theorem mirror_misses_late_cancel:
  "\<exists>i w'. run_state (mirror_execute 9 (null_ports cancel_during_upload
       (empty_status\<lparr>dl_state := DS_Seeding, dl_files := [''a'']\<rparr>)) 1
         (mirror_example\<lparr>mr_use_qbittorrent := True\<rparr>))
     (start_world () empty_registry) = (Some (Inr i), w') \<and> guard_cancelled 0 (w_reg w')"
  by (simp add: mirror_run_defs cancel_during_upload_def Let_def eval_nat_numeral)

end
