(* ===== verification/Leech_Url.thy ===== *)
theory Leech_Url
  imports Job_Runs
begin

text \<open>
  \<open>LeechUrl::execute\<close> of \<open>src/application/leech_url.cpp\<close>: the same pipeline as a mirror with the
  Telegram uploader, its own upload configuration and a stricter one-shot upload, which rejects a
  directory upload without results.
\<close>

record leech_request =
  lr_url :: string
  lr_user :: user_id
  lr_chat :: chat_id
  lr_source_message :: message_id
  lr_use_qbittorrent :: bool

definition leech_downloader :: "leech_request \<Rightarrow> downloader_kind" where
  "leech_downloader req = (if lr_use_qbittorrent req then DK_Qbittorrent else DK_Aria2)"

definition leech_upload_config :: "leech_request \<Rightarrow> user_settings option \<Rightarrow> upload_config" where
  "leech_upload_config req settings =
     (let cfg = default_upload_config\<lparr>uc_chat_id := Some (lr_chat req)\<rparr>
      in case settings of
           None \<Rightarrow> cfg
         | Some s \<Rightarrow> cfg\<lparr>uc_as_document := us_upload_as_document s,
                        uc_thumbnail_path := us_default_thumb_path s\<rparr>)"

definition leech_queued_html :: "string \<Rightarrow> string" where
  "leech_queued_html url =
     ''<b><u>Queued Leech</u></b>'' @ newline @ ''<blockquote>'' @
     escape_html (truncate_for_display url 200) @ ''</blockquote>''"

definition leech_uploading_html :: string where
  "leech_uploading_html =
     ''<b><u>Uploading</u></b>'' @ newline @ ''<blockquote>Destination: Telegram</blockquote>''"

definition leech_completed_html :: string where
  "leech_completed_html =
     ''<b><u>Completed</u></b>'' @ newline @ ''<blockquote>Files uploaded to Telegram.</blockquote>''"

definition leech_fallback ::
    "('e, 's) ports \<Rightarrow> job \<Rightarrow> vars \<Rightarrow> ('s world, (task \<times> unit) flow) state" where
  "leech_fallback P j v = do {
     now \<leftarrow> clock P;
     (case begin_upload now (v_task v) of
        (Inl e, t) \<Rightarrow> fail_task P (j_chat j) (j_msg j) t ''state'' e
      | (Inr _, t) \<Rightarrow> do {
          persist_best_effort P t;
          _ \<leftarrow> edit_html P (j_chat j) (j_msg j) leech_uploading_html;
          (case dl_files (v_status v) of
             [] \<Rightarrow> fail_with P (j_chat j) (j_msg j) t ''download'' EC_Internal
                     ''downloader reported no produced files''
           | f # _ \<Rightarrow>
               (case dl_save_path (v_status v) of
                  Some dir \<Rightarrow> do {
                    r \<leftarrow> upload_directory P (j_up j) dir (j_cfg j);
                    (case r of
                       Inl e \<Rightarrow> fail_task P (j_chat j) (j_msg j) t ''upload'' e
                     | Inr [] \<Rightarrow> fail_with P (j_chat j) (j_msg j) t ''upload'' EC_Internal
                                   ''upload produced no results''
                     | Inr (x # _) \<Rightarrow> State_Monad.return (Next (t, ())))
                  }
                | None \<Rightarrow> do {
                    r \<leftarrow> upload_file P (j_up j) f (j_cfg j);
                    (case r of
                       Inl e \<Rightarrow> fail_task P (j_chat j) (j_msg j) t ''upload'' e
                     | Inr x \<Rightarrow> State_Monad.return (Next (t, ())))
                  }))
        })
   }"

definition leech_finish :: "('e, 's) ports \<Rightarrow> job \<Rightarrow> vars \<Rightarrow> ('s world, unit flow) state" where
  "leech_finish P j v = do {
     completed_count \<leftarrow> gets (\<lambda>w. completed (w_pipe w));
     flow_bind
       (if completed_count = 0 then leech_fallback P j v else State_Monad.return (Next (v_task v, ())))
       (\<lambda>(t, _). complete_job P j t (v_transitioned v) leech_completed_html)
   }"

definition leech_run ::
    "nat \<Rightarrow> ('e, 's) ports \<Rightarrow> string \<Rightarrow> job \<Rightarrow> task \<Rightarrow> ('s world, unit flow) state" where
  "leech_run n P url j t =
     flow_bind (launch P (j_chat j) (j_msg j) (j_dk j) url t) (\<lambda>(g, t).
       let j = j\<lparr>j_gid := g\<rparr> in
       flow_bind (poll_loop n P j (begin_job t)) (leech_finish P j))"

definition leech_job ::
    "int \<Rightarrow> leech_request \<Rightarrow> user_settings option \<Rightarrow> message_id \<Rightarrow> task_id \<Rightarrow> job" where
  "leech_job pool req settings m i =
     \<lparr>j_who = ''leech'', j_chat = lr_chat req, j_msg = m, j_id = i, j_flag = 0,
      j_dk = leech_downloader req, j_gid = Gid [], j_up = Up_Telegram,
      j_cfg = leech_upload_config req settings, j_pool = pool_size pool\<rparr>"

definition leech_metadata :: "leech_request \<Rightarrow> message_id \<Rightarrow> task_id \<Rightarrow> systime \<Rightarrow> task_metadata" where
  "leech_metadata req m i now =
     \<lparr>md_id = i, md_user = lr_user req, md_chat = lr_chat req, md_status_message = m,
      md_kind = Leech, md_source_url = lr_url req, md_created_at = now, md_updated_at = now\<rparr>"

definition leech_create ::
    "nat \<Rightarrow> ('e, 's) ports \<Rightarrow> int \<Rightarrow> leech_request \<Rightarrow> user_settings option \<Rightarrow> message_id \<Rightarrow>
     ('s world, task_id res option) state" where
  "leech_create n P pool req settings m = do {
     now \<leftarrow> clock P;
     i \<leftarrow> gets (\<lambda>w. make_task_id (p_draws P (w_trace w)));
     let t = new_task (leech_metadata req m i now);
     saved \<leftarrow> save_task P t;
     (case saved of
        Inl e \<Rightarrow> State_Monad.return (Some (Inl e))
      | Inr _ \<Rightarrow> with_active_guard i (\<lambda>flag. do {
          r \<leftarrow> leech_run n P (lr_url req) ((leech_job pool req settings m i)\<lparr>j_flag := flag\<rparr>) t;
          State_Monad.return (flow_result r)
        }))
   }"

definition leech_execute ::
    "nat \<Rightarrow> ('e, 's) ports \<Rightarrow> int \<Rightarrow> leech_request \<Rightarrow> ('s world, task_id res option) state" where
  "leech_execute n P pool req =
     (if lr_url req = []
      then State_Monad.return (Some (Inl (mk_error EC_InvalidArgument ''leech: empty URL'')))
      else do {
        settings_res \<leftarrow> get_settings P (lr_user req);
        (case settings_res of
           Inl e \<Rightarrow> State_Monad.return (Some (Inl e))
         | Inr settings \<Rightarrow> do {
             status_msg \<leftarrow> send_html P (lr_chat req) (leech_queued_html (lr_url req));
             (case status_msg of
                Inl e \<Rightarrow> State_Monad.return (Some (Inl e))
              | Inr m \<Rightarrow> leech_create n P pool req settings m)
           })
      })"

subsection \<open>Every run keeps the pipeline invariant and ends in a terminal task\<close>

lemma wp_leech_fallback:
  fixes w :: "'s world"
  assumes w: "ok (addressed j) (j_pool j) w" "running (w_trace w) = []" "upload_errors (w_trace w) = []"
    and v: "vars_ok j v"
  shows "wp (leech_fallback P j v) (upload_post j True (v_transitioned v)) w" (is "wp _ ?Q _")
proof (cases "v_transitioned v")
  case True
  with v obtain e where e: "begin_upload now (v_task v) = (Inl e, v_task v)" for now
    by (auto simp: vars_ok_def task_op_defs)
  have "wp (fail_task P (j_chat j) (j_msg j) (v_task v) ''state'' e) ?Q w"
    by (rule wp_fail_task [OF w(1,2)]) (use vars_ok_live [OF v] in \<open>auto simp: upload_post_def\<close>)
  then show ?thesis by (simp add: leech_fallback_def e)
next
  case False
  let ?now = "p_now P (w_trace w)"
  obtain t where t: "begin_upload ?now (v_task v) = (Inr (), t)" "owns j t" "state t = Uploading"
    using v False by (auto simp: vars_ok_def task_op_defs owns_def)
  have fail: "wp (fail_task P (j_chat j) (j_msg j) t stage e) ?Q w'"
    if "ok (addressed j) (j_pool j) w'" "later w w'" for stage e and w' :: "'s world"
    by (rule wp_fail_task [OF that(1) later_idle [OF that(2) w(2)] t(2)])
      (use t(3) in \<open>auto simp: is_terminal_def upload_post_def\<close>)
  have deliver: "?Q (Next (t, x)) w'"
    if "ok (addressed j) (j_pool j) w'" "later w w'" "e \<in> set (w_trace w')" "upload_evidence True e"
    for e x and w' :: "'s world"
    using that w delivered_in [OF that(3,4)] t(2,3) by (simp add: upload_post_def later_def)
  have upload: "wp (case dl_files (v_status v) of
             [] \<Rightarrow> fail_with P (j_chat j) (j_msg j) t ''download'' EC_Internal
                     ''downloader reported no produced files''
           | f # _ \<Rightarrow>
               (case dl_save_path (v_status v) of
                  Some dir \<Rightarrow> do {
                    r \<leftarrow> upload_directory P (j_up j) dir (j_cfg j);
                    (case r of
                       Inl e \<Rightarrow> fail_task P (j_chat j) (j_msg j) t ''upload'' e
                     | Inr [] \<Rightarrow> fail_with P (j_chat j) (j_msg j) t ''upload'' EC_Internal
                                   ''upload produced no results''
                     | Inr (x # _) \<Rightarrow> State_Monad.return (Next (t, ())))
                  }
                | None \<Rightarrow> do {
                    r \<leftarrow> upload_file P (j_up j) f (j_cfg j);
                    (case r of
                       Inl e \<Rightarrow> fail_task P (j_chat j) (j_msg j) t ''upload'' e
                     | Inr x \<Rightarrow> State_Monad.return (Next (t, ())))
                  })) ?Q w'"
    if w': "ok (addressed j) (j_pool j) w'" "later w w'" for w' :: "'s world"
  proof -
    have dir: "wp (upload_directory P (j_up j) dir (j_cfg j)) (\<lambda>r. wp (case r of
         Inl e \<Rightarrow> fail_task P (j_chat j) (j_msg j) t ''upload'' e
       | Inr [] \<Rightarrow> fail_with P (j_chat j) (j_msg j) t ''upload'' EC_Internal
                     ''upload produced no results''
       | Inr (x # _) \<Rightarrow> State_Monad.return (Next (t, ()))) ?Q) w'" for dir
      unfolding upload_directory_def
      by (rule job.wp_await [OF w'(1)])
        (auto split: sum.split list.split simp: fail_with_def intro!: fail intro: deliver later_trans [OF w'(2)])
    have single: "wp (upload_file P (j_up j) f (j_cfg j)) (\<lambda>r. wp (case r of
         Inl e \<Rightarrow> fail_task P (j_chat j) (j_msg j) t ''upload'' e
       | Inr x \<Rightarrow> State_Monad.return (Next (t, ()))) ?Q) w'" for f
      unfolding upload_file_def
      by (rule job.wp_await [OF w'(1)])
        (auto split: sum.split simp: fail_with_def intro!: fail intro: deliver later_trans [OF w'(2)])
    show ?thesis
      using dir [unfolded fail_with_def] single fail [OF w'] by (simp add: fail_with_def split: list.split option.split)
  qed
  show ?thesis
    unfolding leech_fallback_def wp_bind wp_clock t(1) prod.case sum.case edit_html_def
    by (rule job.wp_persist [OF w(1)], use t(2) in \<open>simp add: owns_def\<close>,
        rule job.wp_await, assumption, simp, simp, rule upload, assumption, erule later_trans, assumption)
qed

lemma wp_leech_finish:
  assumes w: "ok (addressed (j\<lparr>j_gid := g\<rparr>)) (j_pool j) w" "running (w_trace w) = []"
      "upload_errors (w_trace w) = []"
    and v: "vars_ok (j\<lparr>j_gid := g\<rparr>) v"
  shows "wp (leech_finish P (j\<lparr>j_gid := g\<rparr>) v) (run_post j True) w"
proof -
  let ?j = "j\<lparr>j_gid := g\<rparr>"
  have nonneg: "0 \<le> completed (w_pipe w)" using w(1) by (simp add: ok_def linked_def)
  have "wp (if completed (w_pipe w) = 0 then leech_fallback P ?j v
        else State_Monad.return (Next (v_task v, ()))) (upload_post ?j True (v_transitioned v)) w"
    by (rule wp_if) (use w v nonneg in \<open>auto intro: upload_post_pipelined wp_leech_fallback\<close>)
  from wp_finish_job [OF this] show ?thesis
    unfolding leech_finish_def wp_bind wp_gets .
qed

lemma wp_leech_run:
  assumes "ok (early j) (j_pool j) w" "running (w_trace w) = []" "owns j t" "state t = Queued"
  shows "wp (leech_run n P url j t) (run_post j True) w"
  unfolding leech_run_def by (rule wp_job_run [OF assms]) (rule wp_leech_finish)

lemma leech_job_sel [simp]:
  "j_who (leech_job pool req st m i) = ''leech''" "j_chat (leech_job pool req st m i) = lr_chat req"
  "j_dk (leech_job pool req st m i) = leech_downloader req"
  "j_pool (leech_job pool req st m i) = pool_size pool" "j_id (leech_job pool req st m i) = i"
  by (simp_all add: leech_job_def)

definition leech_spec :: "int \<Rightarrow> leech_request \<Rightarrow> job" where
  "leech_spec pool req = leech_job pool req None (MessageId 0) (TaskId [])"

lemma wp_leech_create:
  assumes "ok (preliminary (lr_chat req)) (pool_size pool) w" "running (w_trace w) = []"
  shows "wp (leech_create n P pool req st m) (exec_post (leech_spec pool req) True) w"
proof -
  have "wp (do { saved \<leftarrow> save_task P t;
       case saved of
         Inl e \<Rightarrow> State_Monad.return (Some (Inl e))
       | Inr _ \<Rightarrow> with_active_guard i (\<lambda>flag. do {
           r \<leftarrow> leech_run n P (lr_url req) ((leech_job pool req st m i)\<lparr>j_flag := flag\<rparr>) t;
           State_Monad.return (flow_result r) })
     }) (exec_post (leech_job pool req st m i) True) w"
    if "t = new_task (leech_metadata req m i now)" for t i now
    by (rule wp_create [where run = "\<lambda>j. leech_run n P (lr_url req) j t"])
      (use assms that in \<open>auto simp: owns_def leech_metadata_def new_task_def intro!: wp_leech_run\<close>)
  then have "wp (leech_create n P pool req st m)
      (exec_post (leech_job pool req st m (make_task_id (p_draws P (w_trace w)))) True) w"
    by (simp add: leech_create_def Let_def)
  then show ?thesis by (rule wp_mono) (erule exec_post_cong, simp_all add: leech_spec_def)
qed

lemma wp_leech_execute:
  fixes s :: 's
  shows "wp (leech_execute n P pool req) (exec_post (leech_spec pool req) True) (start_world s reg)"
proof -
  let ?ok = "ok (preliminary (lr_chat req)) (pool_size pool)"
  let ?Q = "exec_post (leech_spec pool req) True"
  have err: "?Q (Some (Inl e)) w"
    if "?ok w" "running (w_trace w) = []" "last_save (w_trace w) = None" for e and w :: "'s world"
    by (rule exec_post_preliminary) (use that in \<open>simp_all add: leech_spec_def\<close>)
  have send: "wp (send_html P (lr_chat req) html) (\<lambda>x. wp (case x of
      Inl e \<Rightarrow> State_Monad.return (Some (Inl e))
    | Inr m \<Rightarrow> leech_create n P pool req st m) ?Q) w"
    if w: "?ok w" "running (w_trace w) = []" "last_save (w_trace w) = None" for st html and w :: "'s world"
    unfolding send_html_def
    by (rule prelim.wp_await [OF w(1)], simp, simp)
      (use w in \<open>auto simp: later_idle split: sum.split intro!: err wp_leech_create\<close>)
  have "wp (get_settings P (lr_user req)) (\<lambda>x. wp (case x of
           Inl e \<Rightarrow> State_Monad.return (Some (Inl e))
         | Inr settings \<Rightarrow> do {
             status_msg \<leftarrow> send_html P (lr_chat req) (leech_queued_html (lr_url req));
             (case status_msg of
                Inl e \<Rightarrow> State_Monad.return (Some (Inl e))
              | Inr m \<Rightarrow> leech_create n P pool req settings m)
           }) ?Q) (start_world s reg)"
    unfolding get_settings_def
    by (rule prelim.wp_await [where pool = "pool_size pool" and c = "lr_chat req"], simp, simp, simp)
      (auto simp: later_idle split: sum.split intro!: err send)
  then show ?thesis by (simp add: leech_execute_def err)
qed

subsection \<open>Properties\<close>

text \<open>
  For every behaviour of the ports and every interleaving with its upload coroutines, a
  leech never uploads a file twice, never has more uploads running than its pool allows, at no moment
  of its history, and when it returns none of its uploads is still running.
\<close>

theorem leech_pool_discipline:
  assumes "run_state (leech_execute n P pool req) (start_world s reg) = (r, w')"
  shows "distinct (spawned (w_trace w')) \<and>
    (\<forall>m. int (length (running (drop m (w_trace w')))) \<le> pool_size pool) \<and>
    (r \<noteq> None \<longrightarrow> running (w_trace w') = [])"
  using exec_post_pool [OF wp_run [OF wp_leech_execute assms]] pool_size_pos [of pool]
  by (simp add: leech_spec_def)

definition leech_example :: leech_request where
  "leech_example = \<lparr>lr_url = ''u'', lr_user = UserId 7, lr_chat = ChatId 100,
     lr_source_message = MessageId 1, lr_use_qbittorrent = False\<rparr>"

theorem leech_pool_discipline_witness:
  "\<forall>m. int (length (running (drop m (w_trace (snd (run_state (leech_execute 9 eager_ports 4 leech_example)
     (start_world [] empty_registry))))))) \<le> 4"
  using leech_pool_discipline [of 9 eager_ports 4 leech_example "[]" empty_registry
      "fst (run_state (leech_execute 9 eager_ports 4 leech_example) (start_world [] empty_registry))"
      "snd (run_state (leech_execute 9 eager_ports 4 leech_example) (start_world [] empty_registry))"]
  by (simp add: pool_size_def)

lemmas leech_run_defs = leech_execute_def leech_create_def leech_run_def leech_finish_def leech_fallback_def
  leech_job_def leech_metadata_def leech_downloader_def leech_example_def job_run_defs

text \<open>
  C17. What a leech returns and what it last wrote to the store agree on every path: an id only for a
  task written as \<open>Completed\<close> after at least one file was uploaded and with no failed upload; an error only if nothing was written, if
  the first write itself failed, if the task was written as \<open>Failed\<close> with that error's message, or if
  it was written as \<open>Cancelled\<close> after the download and its files were removed.
\<close>

theorem leech_result_matches_last_write:
  assumes "run_state (leech_execute n P pool req) (start_world s reg) = (Some x, w')"
  shows "case x of
     Inr i \<Rightarrow> \<exists>t. last_save (w_trace w') = Some t \<and> state t = Completed \<and> md_id (metadata t) = i \<and>
       upload_errors (w_trace w') = [] \<and> delivered True (w_trace w')
   | Inl e \<Rightarrow> last_save (w_trace w') = None \<or> (\<exists>t. last_save (w_trace w') = Some t \<and>
       (state t = Queued \<and> E_Save t (Inl e) \<in> set (w_trace w') \<or>
        state t = Failed \<and> error_message t = Some (err_message e) \<or>
        state t = Cancelled \<and> err_code e = EC_Cancelled \<and>
        (\<exists>g r. E_Remove (leech_downloader req) g True r \<in> set (w_trace w'))))"
  using exec_post_outcome [OF wp_run [OF wp_leech_execute assms]]
  by (cases x) (auto simp: leech_spec_def)

theorem leech_result_matches_last_write_witness:
  "\<exists>t. last_save (w_trace (snd (run_state (leech_execute 3 (null_ports eager_events
     (empty_status\<lparr>dl_state := DS_Complete, dl_files := [''a'']\<rparr>)) 4 leech_example)
     (start_world () empty_registry)))) = Some t \<and> state t = Completed"
proof -
  let ?x = "run_state (leech_execute 3 (null_ports eager_events
     (empty_status\<lparr>dl_state := DS_Complete, dl_files := [''a'']\<rparr>)) 4 leech_example)
     (start_world () empty_registry)"
  obtain i where "fst ?x = Some (Inr i)"
    by (simp add: leech_run_defs Let_def eval_nat_numeral)
  then have "?x = (Some (Inr i), snd ?x)" by (metis prod.collapse)
  from leech_result_matches_last_write [OF this] show ?thesis by auto
qed

text \<open>
  Every effect of a leech is addressed to its own request: messages only to the requesting chat and
  edits only to one status message, backend calls only to the backend the request chose and, after
  \<open>add_uri\<close>, only for one download, writes only to one task of that chat, uploads with one uploader
  and configuration; no other task is read.
\<close>

theorem leech_effects_addressed:
  assumes "run_state (leech_execute n P pool req) (start_world s reg) = (r, w')"
  shows "\<exists>j. j_chat j = lr_chat req \<and> j_dk j = leech_downloader req \<and> list_all (addressed j) (w_trace w')"
  using exec_post_addressed [OF wp_run [OF wp_leech_execute assms]] by (simp add: leech_spec_def)

theorem leech_effects_addressed_witness:
  "\<exists>j. j_chat j = ChatId 100 \<and> list_all (addressed j)
     (w_trace (snd (run_state (leech_execute 9 eager_ports 4 leech_example) (start_world [] empty_registry))))"
  using leech_effects_addressed [of 9 eager_ports 4 leech_example "[]" empty_registry
      "fst (run_state (leech_execute 9 eager_ports 4 leech_example) (start_world [] empty_registry))"
      "snd (run_state (leech_execute 9 eager_ports 4 leech_example) (start_world [] empty_registry))"]
  by (auto simp: leech_example_def)

end
