(* ===== verification/Task_Control.thy ===== *)
theory Task_Control
  imports Samples
begin

text \<open>
  The use cases that act on an existing task: \<open>CancelTask\<close>, \<open>PauseTask\<close> and \<open>ResumeTask\<close> of
  \<open>src/application/cancel_task.cpp\<close>, \<open>pause_task.cpp\<close> and \<open>resume_task.cpp\<close>. A request names a task
  and the chat it came from. The lemmas about cancellation are proved for every store that satisfies
  the locale \<open>task_editing\<close> and then hold for the SQLite repository.
\<close>

record task_request =
  tr_task_id :: task_id
  tr_chat :: chat_id

definition notice_html :: "string \<Rightarrow> task_id \<Rightarrow> string \<Rightarrow> string" where
  "notice_html heading i body =
     ''<b><u>'' @ heading @ ''</u></b>'' @ newline @
     ''<b>Task:</b> <code>'' @ task_value i @ ''</code>'' @ newline @
     ''<blockquote>'' @ body @ ''</blockquote>''"

subsection \<open>Cancel\<close>

text \<open>\<open>ActiveTaskRegistry::cancel\<close> called from a coroutine: one critical section, no suspension.\<close>

definition signal_cancel :: "task_id \<Rightarrow> ('s world, bool) state" where
  "signal_cancel i =
     State (\<lambda>w. case cancel_flag i (w_reg w) of (b, r) \<Rightarrow> (b, w\<lparr>w_reg := r\<rparr>))"

definition remove_from_backend :: "('e, 's) ports \<Rightarrow> task \<Rightarrow> ('s world, unit) state" where
  "remove_from_backend P t =
     (case downloader_id t of
        None \<Rightarrow> State_Monad.return ()
      | Some g \<Rightarrow>
          (case downloader_kind t of
             DK_Aria2 \<Rightarrow> do { _ \<leftarrow> dl_remove P DK_Aria2 g True; State_Monad.return () }
           | DK_Qbittorrent \<Rightarrow> do { _ \<leftarrow> dl_remove P DK_Qbittorrent g True; State_Monad.return () }
           | DK_None \<Rightarrow> State_Monad.return ()))"

text \<open>The teardown for a task without a live coroutine.\<close>

definition cancel_parked :: "('e, 's) ports \<Rightarrow> task_request \<Rightarrow> task \<Rightarrow> ('s world, unit res) state" where
  "cancel_parked P req t = do {
     remove_from_backend P t;
     now \<leftarrow> clock P;
     (case mark_cancelled now t of
        (Inl e, _) \<Rightarrow> State_Monad.return (Inl e)
      | (Inr _, t') \<Rightarrow> do {
          saved \<leftarrow> save_task P t';
          (case saved of
             Inl e \<Rightarrow> State_Monad.return (Inl e)
           | Inr _ \<Rightarrow> do {
               _ \<leftarrow> send_html P (tr_chat req)
                     (notice_html ''Cancelled'' (tr_task_id req) ''Task stopped and marked cancelled.'');
               State_Monad.return (Inr ())
             })
        })
   }"

definition cancel_loaded :: "('e, 's) ports \<Rightarrow> task_request \<Rightarrow> task \<Rightarrow> ('s world, unit res) state" where
  "cancel_loaded P req t =
     (if md_chat (metadata t) \<noteq> tr_chat req
      then State_Monad.return
             (Inl (mk_error EC_PermissionDenied ''cancel: task belongs to a different chat''))
      else if is_terminal t
      then State_Monad.return
             (Inl (mk_error EC_InvalidState ''cancel: task already in a terminal state''))
      else do {
        signalled \<leftarrow> signal_cancel (tr_task_id req);
        if signalled
        then do {
          _ \<leftarrow> send_html P (tr_chat req)
                (notice_html ''Cancelling'' (tr_task_id req) ''Graceful shutdown signal sent.'');
          State_Monad.return (Inr ())
        }
        else cancel_parked P req t
      })"

definition cancel_execute :: "('e, 's) ports \<Rightarrow> task_request \<Rightarrow> ('s world, unit res) state" where
  "cancel_execute P req = do {
     loaded \<leftarrow> find_task P (tr_task_id req);
     (case loaded of
        Inl e \<Rightarrow> State_Monad.return (Inl e)
      | Inr None \<Rightarrow> State_Monad.return (Inl (mk_error EC_NotFound ''cancel: task not found''))
      | Inr (Some t) \<Rightarrow> cancel_loaded P req t)
   }"

subsection \<open>Cancel all\<close>

record cancel_all_result =
  car_cancelled :: nat
  car_failed :: nat

fun cancel_each ::
    "('e, 's) ports \<Rightarrow> chat_id \<Rightarrow> task list \<Rightarrow> cancel_all_result \<Rightarrow> ('s world, cancel_all_result) state" where
  "cancel_each P c [] res = State_Monad.return res"
| "cancel_each P c (t # ts) res =
     (if md_chat (metadata t) \<noteq> c then cancel_each P c ts res
      else do {
        out \<leftarrow> cancel_execute P \<lparr>tr_task_id = md_id (metadata t), tr_chat = c\<rparr>;
        (case out of
           Inr _ \<Rightarrow> cancel_each P c ts (res\<lparr>car_cancelled := car_cancelled res + 1\<rparr>)
         | Inl _ \<Rightarrow> cancel_each P c ts (res\<lparr>car_failed := car_failed res + 1\<rparr>))
      })"

definition bulk_html :: "cancel_all_result \<Rightarrow> string" where
  "bulk_html res =
     ''<b><u>Bulk Cancel</u></b>'' @ newline @
     ''<b>Cancelled:</b> <code>'' @ nat_digits (car_cancelled res) @ ''</code>'' @ newline @
     ''<b>Failed:</b> <code>'' @ nat_digits (car_failed res) @ ''</code>''"

definition cancel_all :: "('e, 's) ports \<Rightarrow> chat_id \<Rightarrow> ('s world, cancel_all_result res) state" where
  "cancel_all P c = do {
     incomplete \<leftarrow> incomplete_tasks P;
     (case incomplete of
        Inl e \<Rightarrow> State_Monad.return (Inl e)
      | Inr ts \<Rightarrow> do {
          res \<leftarrow> cancel_each P c ts \<lparr>car_cancelled = 0, car_failed = 0\<rparr>;
          _ \<leftarrow> send_html P c (bulk_html res);
          State_Monad.return (Inr res)
        })
   }"

subsection \<open>Pause and resume\<close>

text \<open>The two use cases differ in the backend call and in their texts.\<close>

definition act_on_backend ::
    "(downloader_kind \<Rightarrow> gid \<Rightarrow> ('s world, unit res) state) \<Rightarrow> task \<Rightarrow> ('s world, unit res) state" where
  "act_on_backend act t =
     (case (downloader_kind t, downloader_id t) of
        (DK_Aria2, Some g) \<Rightarrow> act DK_Aria2 g
      | (DK_Qbittorrent, Some g) \<Rightarrow> act DK_Qbittorrent g
      | _ \<Rightarrow> State_Monad.return (Inr ()))"

definition pause_loaded :: "('e, 's) ports \<Rightarrow> task_request \<Rightarrow> task \<Rightarrow> ('s world, unit res) state" where
  "pause_loaded P req t =
     (if md_chat (metadata t) \<noteq> tr_chat req
      then State_Monad.return
             (Inl (mk_error EC_PermissionDenied ''pause: task belongs to a different chat''))
      else if is_terminal t
      then State_Monad.return
             (Inl (mk_error EC_InvalidState ''pause: task already in a terminal state''))
      else if downloader_id t = None \<or> downloader_kind t = DK_None
      then State_Monad.return
             (Inl (mk_error EC_InvalidState ''pause: task has no downloader binding (still queued?)''))
      else do {
        backend \<leftarrow> act_on_backend (dl_pause P) t;
        (case backend of
           Inl e \<Rightarrow> State_Monad.return (Inl e)
         | Inr _ \<Rightarrow> do {
             _ \<leftarrow> send_html P (tr_chat req)
                   (notice_html ''Paused'' (tr_task_id req) ''Paused at the download backend.'');
             State_Monad.return (Inr ())
           })
      })"

definition pause_execute :: "('e, 's) ports \<Rightarrow> task_request \<Rightarrow> ('s world, unit res) state" where
  "pause_execute P req = do {
     loaded \<leftarrow> find_task P (tr_task_id req);
     (case loaded of
        Inl e \<Rightarrow> State_Monad.return (Inl e)
      | Inr None \<Rightarrow> State_Monad.return (Inl (mk_error EC_NotFound ''pause: task not found''))
      | Inr (Some t) \<Rightarrow> pause_loaded P req t)
   }"

definition resume_loaded :: "('e, 's) ports \<Rightarrow> task_request \<Rightarrow> task \<Rightarrow> ('s world, unit res) state" where
  "resume_loaded P req t =
     (if md_chat (metadata t) \<noteq> tr_chat req
      then State_Monad.return
             (Inl (mk_error EC_PermissionDenied ''resume: task belongs to a different chat''))
      else if is_terminal t
      then State_Monad.return
             (Inl (mk_error EC_InvalidState ''resume: task already in a terminal state''))
      else if downloader_id t = None \<or> downloader_kind t = DK_None
      then State_Monad.return
             (Inl (mk_error EC_InvalidState ''resume: task has no downloader binding''))
      else do {
        backend \<leftarrow> act_on_backend (dl_resume P) t;
        (case backend of
           Inl e \<Rightarrow> State_Monad.return (Inl e)
         | Inr _ \<Rightarrow> do {
             _ \<leftarrow> send_html P (tr_chat req)
                   (notice_html ''Resumed'' (tr_task_id req) ''Resumed at the download backend.'');
             State_Monad.return (Inr ())
           })
      })"

definition resume_execute :: "('e, 's) ports \<Rightarrow> task_request \<Rightarrow> ('s world, unit res) state" where
  "resume_execute P req = do {
     loaded \<leftarrow> find_task P (tr_task_id req);
     (case loaded of
        Inl e \<Rightarrow> State_Monad.return (Inl e)
      | Inr None \<Rightarrow> State_Monad.return (Inl (mk_error EC_NotFound ''resume: task not found''))
      | Inr (Some t) \<Rightarrow> resume_loaded P req t)
   }"

subsection \<open>What the calls change\<close>

lemma run_event_store [simp]: "w_store (run_event ev w) = w_store w"
  by (cases ev) auto

lemma suspend_store [simp]: "w_store (suspend P w) = w_store w"
proof -
  have "w_store (fold run_event evs w) = w_store w" for evs by (induction evs arbitrary: w) auto
  then show ?thesis by (simp add: suspend_def)
qed

lemma log_effect_store [simp]: "w_store (log_effect e w) = w_store w"
  by (simp add: log_effect_def)

lemma raised_suspend:
  assumes "a < reg_next (w_reg w)" "guard_cancelled a (w_reg w)"
  shows "guard_cancelled a (w_reg (suspend P w))"
proof -
  have ev: "a < reg_next (w_reg (run_event ev w)) \<and> guard_cancelled a (w_reg (run_event ev w))"
    if "a < reg_next (w_reg w)" "guard_cancelled a (w_reg w)" for ev w
    using that raised_step by (cases ev) (auto simp del: reg_step.simps)
  have "guard_cancelled a (w_reg (fold run_event evs w))" for evs
    using assms by (induction evs arbitrary: w) (auto simp: ev)
  then show ?thesis by (simp add: suspend_def)
qed

lemma reg_inv_suspend: "reg_inv (w_reg w) \<Longrightarrow> reg_inv (w_reg (suspend P w))"
proof -
  have ev: "reg_inv (w_reg (run_event ev w))" if "reg_inv (w_reg w)" for ev w
    using that reg_inv_step by (cases ev) (auto simp del: reg_step.simps)
  have "reg_inv (w_reg w) \<Longrightarrow> reg_inv (w_reg (fold run_event evs w))" for evs
    by (induction evs arbitrary: w) (auto simp: ev)
  then show "reg_inv (w_reg w) \<Longrightarrow> reg_inv (w_reg (suspend P w))" by (simp add: suspend_def)
qed

lemma wp_await_store:
  "(\<And>r w'. w_store w' = w_store w \<Longrightarrow> Q r w') \<Longrightarrow> wp (await P resp eff) Q w"
  by (simp add: wp_def await_def Let_def)

lemma wp_remove_store:
  fixes w :: "'s world"
  assumes "\<And>w'. w_store w' = w_store w \<Longrightarrow> Q () w'"
  shows "wp (remove_from_backend P t) Q w"
proof -
  have "wp (dl_remove P dk g True) (\<lambda>_. Q ()) w" for dk g
    unfolding dl_remove_def by (rule wp_await_store) (rule assms)
  with assms show ?thesis
    by (simp add: remove_from_backend_def split: option.split downloader_kind.split)
qed

text \<open>
  The only change a cancellation from chat \<open>c\<close> makes to the stored tasks: live tasks of that chat
  become \<open>Cancelled\<close>, everything else of them and all other tasks stay.
\<close>

definition cancels :: "chat_id \<Rightarrow> (task_id \<Rightarrow> task option) \<Rightarrow> (task_id \<Rightarrow> task option) \<Rightarrow> bool" where
  "cancels c V V' = (\<forall>i. V' i = V i \<or>
     (\<exists>t. V i = Some t \<and> md_chat (metadata t) = c \<and> \<not> is_terminal t \<and>
          V' i = Some (t\<lparr>state := Cancelled\<rparr>)))"

lemma cancels_refl [simp]: "cancels c V V"
  by (simp add: cancels_def)

lemma cancels_trans:
  assumes "cancels c V V'" "cancels c V' V''"
  shows "cancels c V V''"
  unfolding cancels_def
proof
  fix i
  from assms(1) consider "V' i = V i"
    | t where "V i = Some t" "md_chat (metadata t) = c" "\<not> is_terminal t"
        "V' i = Some (t\<lparr>state := Cancelled\<rparr>)"
    unfolding cancels_def by blast
  then show "V'' i = V i \<or> (\<exists>t. V i = Some t \<and> md_chat (metadata t) = c \<and> \<not> is_terminal t \<and>
      V'' i = Some (t\<lparr>state := Cancelled\<rparr>))"
  proof cases
    case 1
    with assms(2) show ?thesis unfolding cancels_def by metis
  next
    case 2
    then have "V'' i = V' i" using assms(2) unfolding cancels_def is_terminal_def by fastforce
    with 2 show ?thesis by auto
  qed
qed

lemma mark_cancelled_strip:
  "\<not> is_terminal t \<Longrightarrow> strip (snd (mark_cancelled now t)) = (strip t)\<lparr>state := Cancelled\<rparr>"
  by (simp add: task_op_defs strip_def)

context task_editing
begin

lemma wp_find:
  assumes "ok (w_store w)" "p_repo P = repo" "\<And>h. env_ok (p_env P h)"
    and "\<And>e. Q (Inl e) (suspend P (log_effect (E_Find i (Inl e)) w))"
    and "view (w_store w) i = None \<Longrightarrow> Q (Inr None) (suspend P (log_effect (E_Find i (Inr None)) w))"
    and "\<And>t. view (w_store w) i = Some (strip t) \<Longrightarrow> md_id (metadata t) = i \<Longrightarrow> can_store t \<Longrightarrow>
      Q (Inr (Some t)) (suspend P (log_effect (E_Find i (Inr (Some t))) w))"
  shows "wp (find_task P i) Q w"
proof -
  define r where "r = repo_find repo (p_env P (w_trace w)) i (w_store w)"
  have "Q r (suspend P (log_effect (E_Find i r) w))"
  proof (cases r)
    case (Inl e)
    then show ?thesis by (simp add: assms(4))
  next
    case (Inr x)
    show ?thesis
    proof (cases x)
      case None
      with Inr r_def find_None [OF assms(1)] assms(5) show ?thesis by simp
    next
      case (Some t)
      with Inr have "repo_find repo (p_env P (w_trace w)) i (w_store w) = Inr (Some t)"
        by (simp add: r_def)
      with find_Some [OF assms(1) this] find_can_store [OF assms(1,3) this] Inr Some assms(6)
      show ?thesis by simp
    qed
  qed
  then show ?thesis by (simp add: wp_def find_task_def Let_def r_def assms(2))
qed

lemma wp_save_cancelled:
  assumes w: "ok (w_store w)" "p_repo P = repo"
    and t: "view (w_store w) i = Some (strip t)" "md_id (metadata t) = i" "can_store t" "time_ok now"
      "\<not> is_terminal t" "md_chat (metadata t) = c"
    and Q: "\<And>r w'. ok (w_store w') \<Longrightarrow> cancels c (view (w_store w)) (view (w_store w')) \<Longrightarrow>
      (\<And>j. j \<noteq> i \<Longrightarrow> view (w_store w') j = view (w_store w) j) \<Longrightarrow>
      (r = Inr () \<Longrightarrow> view (w_store w') i = Some ((strip t)\<lparr>state := Cancelled\<rparr>)) \<Longrightarrow> Q r w'"
  shows "wp (save_task P (snd (mark_cancelled now t))) Q w"
proof -
  let ?t = "snd (mark_cancelled now t)"
  obtain r s where rs: "repo_save repo (p_env P (w_trace w)) ?t (w_store w) = (r, s)" by fastforce
  have can: "can_store ?t" using op_can_store [OF t(3,4), of MarkCancelled] by (simp add: op_ok_def)
  have id: "md_id (metadata ?t) = i" using t(2) by (simp add: task_op_defs)
  have ok: "ok s" by (rule save_ok [OF w(1) can rs])
  have other: "view s j = view (w_store w) j" if "j \<noteq> i" for j
    using save_view_other [OF w(1) can rs] that id by simp
  have self: "view s i = Some ((strip t)\<lparr>state := Cancelled\<rparr>)" if "r = Inr ()"
    using save_law [OF w(1) can] rs that id mark_cancelled_strip [OF t(5), of now] by auto
  have same: "s = w_store w" if "r = Inl e" for e using save_error rs that by blast
  have "cancels c (view (w_store w)) (view s)"
  proof (cases r)
    case (Inl e)
    then show ?thesis by (simp add: same)
  next
    case (Inr u)
    have "md_chat (metadata (strip t)) = c" "\<not> is_terminal (strip t)" using t(5,6) by simp_all
    with self other t(1) Inr show ?thesis unfolding cancels_def by fastforce
  qed
  with ok other self Q [of "suspend P (log_effect (E_Save ?t r) (w\<lparr>w_store := s\<rparr>))" r]
  show ?thesis by (simp add: wp_def save_task_def rs w(2))
qed

lemma wp_cancel_parked:
  assumes w: "ok (w_store w)" "p_repo P = repo" "\<And>h. time_ok (p_now P h)"
    and t: "view (w_store w) (tr_task_id req) = Some (strip t)" "md_id (metadata t) = tr_task_id req"
      "can_store t" "\<not> is_terminal t" "md_chat (metadata t) = tr_chat req"
  shows "wp (cancel_parked P req t) (\<lambda>r w'. ok (w_store w') \<and>
      cancels (tr_chat req) (view (w_store w)) (view (w_store w')) \<and>
      (\<forall>j. j \<noteq> tr_task_id req \<longrightarrow> view (w_store w') j = view (w_store w) j) \<and>
      (r = Inr () \<longrightarrow> view (w_store w') (tr_task_id req) = Some ((strip t)\<lparr>state := Cancelled\<rparr>))) w"
    (is "wp _ ?Q _")
  unfolding cancel_parked_def wp_bind wp_clock
proof (rule wp_remove_store)
  fix w1 :: "'s world"
  assume w1: "w_store w1 = w_store w"
  let ?now = "p_now P (w_trace w1)"
  have m: "mark_cancelled ?now t = (Inr (), snd (mark_cancelled ?now t))"
    using t(4) by (simp add: task_op_defs)
  have "wp (save_task P (snd (mark_cancelled ?now t))) (\<lambda>saved. wp (case saved of
       Inl e \<Rightarrow> State_Monad.return (Inl e)
     | Inr _ \<Rightarrow> do {
         _ \<leftarrow> send_html P (tr_chat req)
               (notice_html ''Cancelled'' (tr_task_id req) ''Task stopped and marked cancelled.'');
         State_Monad.return (Inr ())
       }) ?Q) w1"
    by (rule wp_save_cancelled [where i = "tr_task_id req" and c = "tr_chat req"])
      (use w w1 t in \<open>auto simp: send_html_def split: sum.split intro!: wp_await_store\<close>)
  then show "wp (case mark_cancelled ?now t of
        (Inl e, _) \<Rightarrow> State_Monad.return (Inl e)
      | (Inr _, t') \<Rightarrow> do {
          saved \<leftarrow> save_task P t';
          (case saved of
             Inl e \<Rightarrow> State_Monad.return (Inl e)
           | Inr _ \<Rightarrow> do {
               _ \<leftarrow> send_html P (tr_chat req)
                     (notice_html ''Cancelled'' (tr_task_id req) ''Task stopped and marked cancelled.'');
               State_Monad.return (Inr ())
             })
        }) ?Q w1"
    by (subst m) simp
qed

lemma wp_cancel_execute:
  fixes req :: task_request
  assumes w: "ok (w_store w)" "p_repo P = repo" "\<And>h. env_ok (p_env P h)" "\<And>h. time_ok (p_now P h)"
  defines "i \<equiv> tr_task_id req" and "c \<equiv> tr_chat req"
  shows "wp (cancel_execute P req) (\<lambda>r w'. ok (w_store w') \<and>
      cancels c (view (w_store w)) (view (w_store w')) \<and>
      (\<forall>j. j \<noteq> i \<longrightarrow> view (w_store w') j = view (w_store w) j) \<and>
      (r = Inr () \<longrightarrow> (\<exists>t. view (w_store w) i = Some t \<and> md_chat (metadata t) = c \<and> \<not> is_terminal t \<and>
        (view (w_store w') i = Some (t\<lparr>state := Cancelled\<rparr>) \<or>
         (\<exists>a x. held i a (w_reg (suspend P (log_effect (E_Find i x) w))) \<and>
                (reg_inv (w_reg w) \<longrightarrow> guard_cancelled a (w_reg w'))))))) w"
    (is "wp _ ?Q _")
  unfolding cancel_execute_def wp_bind i_def [symmetric]
proof (rule wp_find [OF w(1,2,3)])
  fix t
  assume t: "view (w_store w) i = Some (strip t)" "md_id (metadata t) = i" "can_store t"
  define w1 where "w1 = suspend P (log_effect (E_Find i (Inr (Some t))) w)"
  have w1: "w_store w1 = w_store w" "reg_inv (w_reg w) \<Longrightarrow> reg_inv (w_reg w1)"
    by (auto simp: w1_def log_effect_def intro!: reg_inv_suspend)
  have denied: "?Q (Inl e) w1" for e using w(1) w1 by simp
  have live: "wp (do {
        signalled \<leftarrow> signal_cancel i;
        if signalled
        then do {
          _ \<leftarrow> send_html P c (notice_html ''Cancelling'' i ''Graceful shutdown signal sent.'');
          State_Monad.return (Inr ())
        }
        else cancel_parked P req t
      }) ?Q w1" if own: "md_chat (metadata t) = c" "\<not> is_terminal t"
  proof (cases "reg_map (w_reg w1) i")
    case None
    have eq: "(\<exists>u. view (w_store w) i = Some u \<and> md_chat (metadata u) = c \<and> \<not> is_terminal u \<and> R u) = R (strip t)"
      for R using t own by auto
    have "wp (cancel_parked P req t) ?Q w1"
      by (rule wp_mono [OF wp_cancel_parked])
        (use w w1 t own in \<open>auto simp: i_def c_def eq [unfolded i_def c_def]\<close>)
    with None show ?thesis by (simp add: signal_cancel_def wp_def [of "State _"] cancel_flag_def)
  next
    case (Some a)
    define w2 where "w2 = w1\<lparr>w_reg := snd (cancel_flag i (w_reg w1))\<rparr>"
    have fl: "guard_cancelled a (w_reg w2)" "reg_inv (w_reg w) \<Longrightarrow> a < reg_next (w_reg w2)"
      "w_store w2 = w_store w"
      using Some w1 by (auto simp: w2_def reg_defs reg_inv_def)
    have "?Q (Inr ()) (suspend P (log_effect e w2))" for e
    proof -
      have "guard_cancelled a (w_reg (suspend P (log_effect e w2)))" if "reg_inv (w_reg w)"
        by (rule raised_suspend) (use fl(1) fl(2) [OF that] in \<open>simp_all add: log_effect_def\<close>)
      moreover have "held i a (w_reg (suspend P (log_effect (E_Find i (Inr (Some t))) w)))"
        using Some by (simp add: held_def w1_def)
      ultimately show ?thesis using w(1) fl(3) t(1) own by auto
    qed
    with Some show ?thesis
      by (simp add: signal_cancel_def wp_def [of "State _"] wp_def [of "send_html _ _ _"]
          cancel_flag_def w2_def send_html_def await_def Let_def)
  qed
  show "wp (case Inr (Some t) of
        Inl e \<Rightarrow> State_Monad.return (Inl e)
      | Inr None \<Rightarrow> State_Monad.return (Inl (mk_error EC_NotFound ''cancel: task not found''))
      | Inr (Some t) \<Rightarrow> cancel_loaded P req t) ?Q (suspend P (log_effect (E_Find i (Inr (Some t))) w))"
    using denied live unfolding w1_def [symmetric] cancel_loaded_def i_def [symmetric] c_def [symmetric]
    by (simp del: wp_bind)
qed (use w in auto)

lemma wp_cancel_effect:
  assumes "ok (w_store w)" "p_repo P = repo" "\<And>h. env_ok (p_env P h)" "\<And>h. time_ok (p_now P h)"
    and "\<And>r w'. ok (w_store w') \<Longrightarrow> cancels (tr_chat req) (view (w_store w)) (view (w_store w')) \<Longrightarrow> Q r w'"
  shows "wp (cancel_execute P req) Q w"
  by (rule wp_mono [OF wp_cancel_execute [OF assms(1-4)]]) (use assms(5) in blast)

lemma wp_cancel_each:
  assumes "ok (w_store w)" "p_repo P = repo" "\<And>h. env_ok (p_env P h)" "\<And>h. time_ok (p_now P h)"
  shows "wp (cancel_each P c ts res) (\<lambda>res' w'. ok (w_store w') \<and>
      cancels c (view (w_store w)) (view (w_store w')) \<and>
      car_cancelled res' + car_failed res' =
        car_cancelled res + car_failed res + length (filter (\<lambda>t. md_chat (metadata t) = c) ts)) w"
  using assms(1)
proof (induction ts arbitrary: res w)
  case Nil
  then show ?case by simp
next
  case (Cons t ts)
  show ?case
  proof (cases "md_chat (metadata t) = c")
    case False
    with Cons.IH [OF Cons.prems] show ?thesis by simp
  next
    case True
    let ?Q = "\<lambda>res' w'. ok (w_store w') \<and> cancels c (view (w_store w)) (view (w_store w')) \<and>
      car_cancelled res' + car_failed res' =
        Suc (car_cancelled res + car_failed res + length (filter (\<lambda>t. md_chat (metadata t) = c) ts))"
    have "wp (cancel_execute P \<lparr>tr_task_id = md_id (metadata t), tr_chat = c\<rparr>) (\<lambda>out. wp (case out of
           Inr _ \<Rightarrow> cancel_each P c ts (res\<lparr>car_cancelled := Suc (car_cancelled res)\<rparr>)
         | Inl _ \<Rightarrow> cancel_each P c ts (res\<lparr>car_failed := Suc (car_failed res)\<rparr>)) ?Q) w"
    proof (rule wp_cancel_effect [OF Cons.prems assms(2-4)])
      fix out and w1 :: "'s world"
      assume "ok (w_store w1)" "cancels (tr_chat \<lparr>tr_task_id = md_id (metadata t), tr_chat = c\<rparr>)
          (view (w_store w)) (view (w_store w1))"
      then show "wp (case out of
           Inr _ \<Rightarrow> cancel_each P c ts (res\<lparr>car_cancelled := Suc (car_cancelled res)\<rparr>)
         | Inl _ \<Rightarrow> cancel_each P c ts (res\<lparr>car_failed := Suc (car_failed res)\<rparr>)) ?Q w1"
        by (cases out) (auto intro!: wp_mono [OF Cons.IH] intro: cancels_trans)
    qed
    with True show ?thesis by simp
  qed
qed

lemma wp_cancel_all:
  assumes w: "ok (w_store w)" "p_repo P = repo" "\<And>h. env_ok (p_env P h)" "\<And>h. time_ok (p_now P h)"
  shows "wp (cancel_all P c) (\<lambda>r w'. ok (w_store w') \<and> cancels c (view (w_store w)) (view (w_store w')) \<and>
      (\<forall>res. r = Inr res \<longrightarrow> (\<exists>ts. repo_incomplete repo (p_env P (w_trace w)) (w_store w) = Inr ts \<and>
        car_cancelled res + car_failed res = length (filter (\<lambda>t. md_chat (metadata t) = c) ts)))) w"
    (is "wp _ ?Q _")
proof -
  define r where "r = repo_incomplete repo (p_env P (w_trace w)) (w_store w)"
  define w1 where "w1 = suspend P (log_effect (E_Incomplete r) w)"
  have w1: "w_store w1 = w_store w" by (simp add: w1_def)
  have "wp (case r of
        Inl e \<Rightarrow> State_Monad.return (Inl e)
      | Inr ts \<Rightarrow> do {
          res \<leftarrow> cancel_each P c ts \<lparr>car_cancelled = 0, car_failed = 0\<rparr>;
          _ \<leftarrow> send_html P c (bulk_html res);
          State_Monad.return (Inr res)
        }) ?Q w1"
  proof (cases r)
    case (Inl e)
    with w(1) w1 show ?thesis by simp
  next
    case (Inr ts)
    then have ts: "repo_incomplete repo (p_env P (w_trace w)) (w_store w) = Inr ts" by (simp add: r_def)
    have "wp (cancel_each P c ts \<lparr>car_cancelled = 0, car_failed = 0\<rparr>)
        (\<lambda>res. wp (send_html P c (bulk_html res)) (\<lambda>_. ?Q (Inr res))) w1"
      by (rule wp_mono [OF wp_cancel_each])
        (use w w1 ts in \<open>auto simp: send_html_def intro!: wp_await_store\<close>)
    with Inr show ?thesis by simp
  qed
  then show ?thesis
    by (simp add: cancel_all_def incomplete_tasks_def wp_def [of "State _"] Let_def r_def w1_def w(2))
qed

end

subsection \<open>Properties\<close>

lemma run_find:
  "run_state (find_task P i) w =
     (let r = repo_find (p_repo P) (p_env P (w_trace w)) i (w_store w)
      in (r, suspend P (log_effect (E_Find i r) w)))"
  by (simp add: find_task_def)

text \<open>
  C11. A request that comes from another chat than the task's is refused by cancel, pause and resume:
  it returns an error after the single lookup, with no message, no backend call, no write to the
  store and no signal to the running coroutine.
\<close>

theorem cross_chat_requests_denied:
  assumes "tab_ok fmt (w_store w)" "p_repo P = sqlite_repo fmt"
    and "tab_view (w_store w) (tr_task_id req) = Some t" "md_chat (metadata t) \<noteq> tr_chat req"
    and "use_case \<in> {cancel_execute, pause_execute, resume_execute}"
  shows "\<exists>e x. run_state (use_case P req) w = (Inl e, suspend P (log_effect (E_Find (tr_task_id req) x) w))"
proof -
  define r where "r = repo_find (sqlite_repo fmt) (p_env P (w_trace w)) (tr_task_id req) (w_store w)"
  have "md_chat (metadata u) \<noteq> tr_chat req" if "r = Inr (Some u)" for u
    using sq.find_Some(1) [OF assms(1), of "p_env P (w_trace w)" "tr_task_id req" u] that assms(3,4)
    by (auto simp: r_def)
  moreover have "r \<noteq> Inr None"
    using sq.find_None [OF assms(1), of "p_env P (w_trace w)" "tr_task_id req"] assms(3) by (auto simp: r_def)
  ultimately show ?thesis
    using assms(5) by (cases r)
      (auto simp: run_find assms(2) r_def [symmetric] cancel_execute_def pause_execute_def resume_execute_def
        cancel_loaded_def pause_loaded_def resume_loaded_def run_simps Let_def split: option.split)
qed

theorem cross_chat_requests_denied_witness:
  "\<exists>e x. run_state (cancel_execute quiet_ports \<lparr>tr_task_id = TaskId ''t1'', tr_chat = ChatId 666\<rparr>) example_world =
     (Inl e, suspend quiet_ports (log_effect (E_Find (TaskId ''t1'') x) example_world))"
  using cross_chat_requests_denied [of epoch_fmt example_world quiet_ports
      "\<lparr>tr_task_id = TaskId ''t1'', tr_chat = ChatId 666\<rparr>" "strip example_task" cancel_execute]
  by (simp add: example_world_def example_view example_task_def example_metadata_def)

text \<open>
  C9. Whatever the ports answer and whether it succeeds or fails, \<open>CancelTask\<close> changes at most the
  named task, only if that task is live and belongs to the requesting chat, and then only its state,
  to \<open>Cancelled\<close>; the store keeps its invariant.
\<close>

theorem cancel_changes_only_the_named_task:
  assumes "tab_ok fmt (w_store w)" "p_repo P = sqlite_repo fmt"
    and "\<And>h. fmt_iso fmt (env_now (p_env P h))" "\<And>h. fmt_iso fmt (p_now P h)"
    and "run_state (cancel_execute P req) w = (r, w')"
  shows "tab_ok fmt (w_store w') \<and> cancels (tr_chat req) (tab_view (w_store w)) (tab_view (w_store w')) \<and>
    (\<forall>j. j \<noteq> tr_task_id req \<longrightarrow> tab_view (w_store w') j = tab_view (w_store w) j)"
  using wp_run [OF sqe.wp_cancel_execute [OF assms(1-4)] assms(5)] by blast

theorem cancel_changes_only_the_named_task_witness:
  "tab_ok epoch_fmt (w_store (snd (run_state (cancel_execute quiet_ports
     \<lparr>tr_task_id = TaskId ''t1'', tr_chat = ChatId 100\<rparr>) example_world)))"
  using cancel_changes_only_the_named_task [of epoch_fmt example_world quiet_ports _
      "fst (run_state (cancel_execute quiet_ports \<lparr>tr_task_id = TaskId ''t1'', tr_chat = ChatId 100\<rparr>) example_world)"
      "snd (run_state (cancel_execute quiet_ports \<lparr>tr_task_id = TaskId ''t1'', tr_chat = ChatId 100\<rparr>) example_world)"]
  by (simp add: example_world_def)

text \<open>
  C4. When \<open>CancelTask\<close> reports success, the task was live and of the requesting chat, and the
  cancellation took effect: either the store now says \<open>Cancelled\<close>, or a coroutine was registered for
  the task when the lookup returned and the flag it holds is raised.
\<close>

theorem cancel_success_takes_effect:
  assumes "tab_ok fmt (w_store w)" "p_repo P = sqlite_repo fmt"
    and "\<And>h. fmt_iso fmt (env_now (p_env P h))" "\<And>h. fmt_iso fmt (p_now P h)"
    and "reg_inv (w_reg w)" "run_state (cancel_execute P req) w = (Inr (), w')"
  shows "\<exists>t. tab_view (w_store w) (tr_task_id req) = Some t \<and> md_chat (metadata t) = tr_chat req \<and>
    \<not> is_terminal t \<and>
    (tab_view (w_store w') (tr_task_id req) = Some (t\<lparr>state := Cancelled\<rparr>) \<or>
     (\<exists>a x. held (tr_task_id req) a (w_reg (suspend P (log_effect (E_Find (tr_task_id req) x) w))) \<and>
            guard_cancelled a (w_reg w')))"
  using wp_run [OF sqe.wp_cancel_execute [OF assms(1-4)] assms(6)] assms(5) by blast

lemma example_cancel_runs:
  "\<exists>w'. run_state (cancel_execute quiet_ports \<lparr>tr_task_id = TaskId ''t1'', tr_chat = ChatId 100\<rparr>)
     example_world = (Inr (), w')"
proof -
  have "fst (run_state (cancel_execute quiet_ports
      \<lparr>tr_task_id = TaskId ''t1'', tr_chat = ChatId 100\<rparr>) example_world) = Inr ()"
    by code_simp
  then show ?thesis by (metis prod.collapse)
qed

theorem cancel_success_takes_effect_witness:
  "\<exists>w'. run_state (cancel_execute quiet_ports \<lparr>tr_task_id = TaskId ''t1'', tr_chat = ChatId 100\<rparr>)
      example_world = (Inr (), w') \<and>
    (tab_view (w_store w') (TaskId ''t1'') = Some ((strip example_task)\<lparr>state := Cancelled\<rparr>) \<or>
     (\<exists>a. guard_cancelled a (w_reg w')))"
proof -
  let ?req = "\<lparr>tr_task_id = TaskId ''t1'', tr_chat = ChatId 100\<rparr>"
  obtain w' where w': "run_state (cancel_execute quiet_ports ?req) example_world = (Inr (), w')"
    using example_cancel_runs by blast
  from cancel_success_takes_effect [of epoch_fmt example_world quiet_ports, OF _ _ _ _ _ w']
  have "tab_view (w_store w') (TaskId ''t1'') = Some ((strip example_task)\<lparr>state := Cancelled\<rparr>) \<or>
     (\<exists>a. guard_cancelled a (w_reg w'))"
    by (auto simp: example_world_def example_view)
  with w' show ?thesis by blast
qed

text \<open>
  \<open>/cancelall\<close> in a chat changes only live tasks of that chat, each at most from its state to
  \<open>Cancelled\<close>, and the two counts it reports add up to the number of unfinished tasks of the chat.
\<close>

theorem cancel_all_stays_in_chat:
  assumes "tab_ok fmt (w_store w)" "p_repo P = sqlite_repo fmt"
    and "\<And>h. fmt_iso fmt (env_now (p_env P h))" "\<And>h. fmt_iso fmt (p_now P h)"
    and "run_state (cancel_all P c) w = (r, w')"
  shows "tab_ok fmt (w_store w') \<and> cancels c (tab_view (w_store w)) (tab_view (w_store w')) \<and>
    (\<forall>res. r = Inr res \<longrightarrow> (\<exists>ts. sqlite_incomplete (p_env P (w_trace w)) (w_store w) = Inr ts \<and>
       car_cancelled res + car_failed res = length (filter (\<lambda>t. md_chat (metadata t) = c) ts)))"
  using wp_run [OF sqe.wp_cancel_all [OF assms(1-4)] assms(5)] by (auto simp: sqlite_repo_def)

theorem cancel_all_stays_in_chat_witness:
  "tab_ok epoch_fmt (w_store (snd (run_state (cancel_all quiet_ports (ChatId 100)) example_world)))"
  using cancel_all_stays_in_chat [of epoch_fmt example_world quiet_ports "ChatId 100"
      "fst (run_state (cancel_all quiet_ports (ChatId 100)) example_world)"
      "snd (run_state (cancel_all quiet_ports (ChatId 100)) example_world)"]
  by (simp add: example_world_def)

text \<open>The common shape of pause and resume after the lookup.\<close>

lemma trace_suspend: "set (w_trace w) \<subseteq> set (w_trace (suspend P w))"
proof -
  have ev: "set (w_trace w) \<subseteq> set (w_trace (run_event ev w))" for ev and w :: "'s world"
    by (cases ev) auto
  have "set (w_trace w) \<subseteq> set (w_trace (fold run_event evs w))" for evs and w :: "'s world"
    by (induction evs arbitrary: w) (auto dest: subsetD [OF ev])
  then show ?thesis by (simp add: suspend_def)
qed

lemma wp_notify:
  assumes "\<And>x w'. w_store w' = w_store w \<Longrightarrow> set (w_trace w) \<subseteq> set (w_trace w') \<Longrightarrow> Q x w'"
  shows "wp (send_html P c html) Q w"
proof -
  have "set (w_trace w) \<subseteq> set (w_trace (suspend P (log_effect e w)))" for e
    using trace_suspend [of "log_effect e w" P] by (auto simp: log_effect_def)
  then show ?thesis by (simp add: wp_def send_html_def await_def Let_def assms)
qed

lemma wp_backend:
  assumes act: "\<And>dk g. act dk g = await P (\<lambda>h. resp h dk g) (eff dk g)"
    and bound: "downloader_id t = Some g" "downloader_kind t \<noteq> DK_None"
    and Q: "\<And>x w'. w_store w' = w_store w \<Longrightarrow> eff (downloader_kind t) g x \<in> set (w_trace w') \<Longrightarrow> Q x w'"
  shows "wp (act_on_backend act t) Q w"
proof -
  have "eff dk g x \<in> set (w_trace (suspend P (log_effect (eff dk g x) w)))" for dk x
    using trace_suspend [of "log_effect (eff dk g x) w" P] by (auto simp: log_effect_def)
  with bound Q show ?thesis
    by (cases "downloader_kind t") (auto simp: act_on_backend_def act wp_def await_def Let_def)
qed

lemma wp_pause:
  fixes w :: "task_row list world"
  assumes "tab_ok fmt (w_store w)" "p_repo P = sqlite_repo fmt"
  shows "wp (pause_execute P req) (\<lambda>r w'. w_store w' = w_store w \<and>
    (r = Inr () \<longrightarrow> (\<exists>t g. tab_view (w_store w) (tr_task_id req) = Some t \<and>
       md_chat (metadata t) = tr_chat req \<and> \<not> is_terminal t \<and> downloader_id t = Some g \<and>
       downloader_kind t \<noteq> DK_None \<and> E_Pause (downloader_kind t) g (Inr ()) \<in> set (w_trace w')))) w"
    (is "wp _ ?Q _")
proof -
  define r where "r = repo_find (sqlite_repo fmt) (p_env P (w_trace w)) (tr_task_id req) (w_store w)"
  define w1 where "w1 = suspend P (log_effect (E_Find (tr_task_id req) r) w)"
  have w1: "w_store w1 = w_store w" by (simp add: w1_def)
  have loaded: "wp (pause_loaded P req t) ?Q w1" if "r = Inr (Some t)" for t
  proof -
    have v: "tab_view (w_store w) (tr_task_id req) = Some (strip t)"
      using sq.find_Some(1) [OF assms(1)] that by (simp add: r_def)
    have call: "wp (act_on_backend (dl_pause P) t) (\<lambda>backend. wp (case backend of
         Inl e \<Rightarrow> State_Monad.return (Inl e)
       | Inr _ \<Rightarrow> do {
           _ \<leftarrow> send_html P (tr_chat req)
                 (notice_html ''Paused'' (tr_task_id req) ''Paused at the download backend.'');
           State_Monad.return (Inr ()) }) ?Q) w1"
      if "md_chat (metadata t) = tr_chat req" "\<not> is_terminal t" "downloader_id t = Some g"
        "downloader_kind t \<noteq> DK_None" for g
      by (rule wp_backend [where resp = "p_pause P" and eff = E_Pause and g = g])
        (use that v w1 in \<open>auto simp: dl_pause_def split: sum.split intro!: wp_notify\<close>)
    show ?thesis
      using call w1 by (auto simp: pause_loaded_def)
  qed
  have "wp (case r of
        Inl e \<Rightarrow> State_Monad.return (Inl e)
      | Inr None \<Rightarrow> State_Monad.return (Inl (mk_error EC_NotFound ''pause: task not found''))
      | Inr (Some t) \<Rightarrow> pause_loaded P req t) ?Q w1"
    using loaded w1 by (auto split: sum.split option.split)
  then show ?thesis
    by (simp add: pause_execute_def wp_def [of "find_task _ _"] run_find Let_def assms(2) r_def w1_def)
qed

lemma wp_resume:
  fixes w :: "task_row list world"
  assumes "tab_ok fmt (w_store w)" "p_repo P = sqlite_repo fmt"
  shows "wp (resume_execute P req) (\<lambda>r w'. w_store w' = w_store w \<and>
    (r = Inr () \<longrightarrow> (\<exists>t g. tab_view (w_store w) (tr_task_id req) = Some t \<and>
       md_chat (metadata t) = tr_chat req \<and> \<not> is_terminal t \<and> downloader_id t = Some g \<and>
       downloader_kind t \<noteq> DK_None \<and> E_Resume (downloader_kind t) g (Inr ()) \<in> set (w_trace w')))) w"
    (is "wp _ ?Q _")
proof -
  define r where "r = repo_find (sqlite_repo fmt) (p_env P (w_trace w)) (tr_task_id req) (w_store w)"
  define w1 where "w1 = suspend P (log_effect (E_Find (tr_task_id req) r) w)"
  have w1: "w_store w1 = w_store w" by (simp add: w1_def)
  have loaded: "wp (resume_loaded P req t) ?Q w1" if "r = Inr (Some t)" for t
  proof -
    have v: "tab_view (w_store w) (tr_task_id req) = Some (strip t)"
      using sq.find_Some(1) [OF assms(1)] that by (simp add: r_def)
    have call: "wp (act_on_backend (dl_resume P) t) (\<lambda>backend. wp (case backend of
         Inl e \<Rightarrow> State_Monad.return (Inl e)
       | Inr _ \<Rightarrow> do {
           _ \<leftarrow> send_html P (tr_chat req)
                 (notice_html ''Resumed'' (tr_task_id req) ''Resumed at the download backend.'');
           State_Monad.return (Inr ()) }) ?Q) w1"
      if "md_chat (metadata t) = tr_chat req" "\<not> is_terminal t" "downloader_id t = Some g"
        "downloader_kind t \<noteq> DK_None" for g
      by (rule wp_backend [where resp = "p_resume P" and eff = E_Resume and g = g])
        (use that v w1 in \<open>auto simp: dl_resume_def split: sum.split intro!: wp_notify\<close>)
    show ?thesis
      using call w1 by (auto simp: resume_loaded_def)
  qed
  have "wp (case r of
        Inl e \<Rightarrow> State_Monad.return (Inl e)
      | Inr None \<Rightarrow> State_Monad.return (Inl (mk_error EC_NotFound ''resume: task not found''))
      | Inr (Some t) \<Rightarrow> resume_loaded P req t) ?Q w1"
    using loaded w1 by (auto split: sum.split option.split)
  then show ?thesis
    by (simp add: resume_execute_def wp_def [of "find_task _ _"] run_find Let_def assms(2) r_def w1_def)
qed

text \<open>
  Pause and resume never write to the store. They report success only for a live task of the
  requesting chat that is bound to a backend, after that backend accepted the call for the task's own
  download.
\<close>

theorem pause_resume_reach_the_right_backend:
  assumes "tab_ok fmt (w_store w)" "p_repo P = sqlite_repo fmt"
    and "run_state (pause_execute P req) w = (r, w')" "run_state (resume_execute P req) w = (r', w'')"
  shows "w_store w' = w_store w \<and> w_store w'' = w_store w \<and>
    (r = Inr () \<longrightarrow> (\<exists>t g. tab_view (w_store w) (tr_task_id req) = Some t \<and>
       md_chat (metadata t) = tr_chat req \<and> \<not> is_terminal t \<and> downloader_id t = Some g \<and>
       downloader_kind t \<noteq> DK_None \<and> E_Pause (downloader_kind t) g (Inr ()) \<in> set (w_trace w'))) \<and>
    (r' = Inr () \<longrightarrow> (\<exists>t g. tab_view (w_store w) (tr_task_id req) = Some t \<and>
       md_chat (metadata t) = tr_chat req \<and> \<not> is_terminal t \<and> downloader_id t = Some g \<and>
       downloader_kind t \<noteq> DK_None \<and> E_Resume (downloader_kind t) g (Inr ()) \<in> set (w_trace w'')))"
  using wp_run [OF wp_pause [OF assms(1,2)] assms(3)] wp_run [OF wp_resume [OF assms(1,2)] assms(4)] by blast

theorem pause_resume_reach_the_right_backend_witness:
  "w_store (snd (run_state (pause_execute quiet_ports \<lparr>tr_task_id = TaskId ''t1'', tr_chat = ChatId 100\<rparr>)
     example_world)) = w_store example_world"
  using pause_resume_reach_the_right_backend [of epoch_fmt example_world quiet_ports _
      "fst (run_state (pause_execute quiet_ports \<lparr>tr_task_id = TaskId ''t1'', tr_chat = ChatId 100\<rparr>) example_world)"
      "snd (run_state (pause_execute quiet_ports \<lparr>tr_task_id = TaskId ''t1'', tr_chat = ChatId 100\<rparr>) example_world)"
      "fst (run_state (resume_execute quiet_ports \<lparr>tr_task_id = TaskId ''t1'', tr_chat = ChatId 100\<rparr>) example_world)"
      "snd (run_state (resume_execute quiet_ports \<lparr>tr_task_id = TaskId ''t1'', tr_chat = ChatId 100\<rparr>) example_world)"]
  by (simp add: example_world_def)

end
