(* ===== verification/Records.thy ===== *)
theory Records
  imports Ports
begin

text \<open>
  Plain data shared by the settings, RSS, status and presentation components: the rows of the
  \<open>rss_feeds\<close> and \<open>bot_settings\<close> tables and the host snapshot of
  \<open>include/cmlb/infrastructure/system/system_metrics.hpp\<close>. A \<open>double\<close> is the rational it denotes.
\<close>

record rss_feed =
  rf_feed_id :: int
  rf_title :: string
  rf_url :: string
  rf_chat :: chat_id
  rf_include_regex :: string
  rf_exclude_regex :: string
  rf_last_guid :: string
  rf_last_checked_at :: "systime option"
  rf_enabled :: bool
  rf_created_at :: systime

definition default_feed :: rss_feed where
  "default_feed = \<lparr>rf_feed_id = 0, rf_title = [], rf_url = [], rf_chat = ChatId 0,
     rf_include_regex = [], rf_exclude_regex = [], rf_last_guid = [], rf_last_checked_at = None,
     rf_enabled = True, rf_created_at = 0\<rparr>"

record bot_settings =
  bs_owner_id :: int
  bs_sudo_users :: "int list"
  bs_authorized_chats :: "int list"
  bs_download_dir :: string
  bs_leech_split_size :: int
  bs_upload_limit_bytes :: int
  bs_status_update_interval :: int
  bs_rss_poll_interval :: int
  bs_updated_at :: systime

definition default_bot_settings :: bot_settings where
  "default_bot_settings = \<lparr>bs_owner_id = 0, bs_sudo_users = [], bs_authorized_chats = [],
     bs_download_dir = ''downloads'', bs_leech_split_size = 2000000000, bs_upload_limit_bytes = 0,
     bs_status_update_interval = 5000, bs_rss_poll_interval = 60000, bs_updated_at = 0\<rparr>"

record system_snapshot =
  sm_cpu_usage_percent :: rat
  sm_ram_used_bytes :: int
  sm_ram_total_bytes :: int
  sm_disk_used_bytes :: int
  sm_disk_total_bytes :: int
  sm_bot_uptime :: int
  sm_system_uptime :: int
  sm_load_average_1m :: rat
  sm_load_average_5m :: rat
  sm_load_average_15m :: rat

definition default_snapshot :: system_snapshot where
  "default_snapshot = \<lparr>sm_cpu_usage_percent = 0, sm_ram_used_bytes = 0, sm_ram_total_bytes = 0,
     sm_disk_used_bytes = 0, sm_disk_total_bytes = 0, sm_bot_uptime = 0, sm_system_uptime = 0,
     sm_load_average_1m = 0, sm_load_average_5m = 0, sm_load_average_15m = 0\<rparr>"

text \<open>A command as \<open>/help\<close> lists it.\<close>

record command_description =
  cd_name :: string
  cd_description :: string
  cd_permission :: permission

text \<open>
  How the \<open>fmt\<close> library prints floating-point numbers: \<open>pr_quotient a b\<close> is the two-decimal
  rendering of \<open>a / b\<close>, and \<open>pr_fixed n x\<close> is \<open>x\<close> with \<open>n\<close> decimals. Both are parameters of the
  renderer; \<open>plain_printer\<close> says that what they print holds no angle bracket.
\<close>

record printer =
  pr_quotient :: "int \<Rightarrow> int \<Rightarrow> string"
  pr_fixed :: "nat \<Rightarrow> rat \<Rightarrow> string"

definition no_angle :: "string \<Rightarrow> bool" where
  "no_angle s = (CHR ''<'' \<notin> set s \<and> CHR ''>'' \<notin> set s)"

definition plain_printer :: "printer \<Rightarrow> bool" where
  "plain_printer pr = ((\<forall>a b. no_angle (pr_quotient pr a b)) \<and> (\<forall>n x. no_angle (pr_fixed pr n x)))"

text \<open>A printer that writes the integer part, to evaluate examples with.\<close>

definition floor_printer :: printer where
  "floor_printer = \<lparr>pr_quotient = (\<lambda>a b. int_to_string (a div b)), pr_fixed = (\<lambda>_ x. int_to_string \<lfloor>x\<rfloor>)\<rparr>"

record count_result =
  ct_files :: int
  ct_folders :: int
  ct_total_bytes :: int

end
