(* ===== verification/Html_Renderer.thy ===== *)
theory Html_Renderer
  imports Records Formatting
begin

text \<open>
  \<open>src/presentation/html_renderer.cpp\<close>: every text the bot sends, as a function of plain data. The
  progress bar and the percentage of \<open>src/core/formatting.cpp\<close> are here too. The lemmas show that a
  rendered message is balanced HTML whatever the texts in it are, with the one exception of the
  user-settings panel, whose three free-text fields are not escaped.
\<close>

subsection \<open>Progress\<close>

definition clamp_fraction :: "rat \<Rightarrow> rat" where
  "clamp_fraction f = (if f < 0 then 0 else if f > 1 then 1 else f)"

definition render_progress_bar :: "rat \<Rightarrow> nat \<Rightarrow> char \<Rightarrow> char \<Rightarrow> string" where
  "render_progress_bar fraction width filled blank =
     (let f = clamp_fraction fraction in
      if width = 0 then ''[]''
      else let fill_count = nat \<lfloor>f * of_nat width\<rfloor>; clamped = min fill_count width in
        ''['' @ replicate clamped filled @ replicate (width - clamped) blank @ '']'')"

definition format_percent :: "printer \<Rightarrow> rat \<Rightarrow> int \<Rightarrow> string" where
  "format_percent pr fraction decimals =
     (let f = clamp_fraction fraction * 100 in pr_fixed pr (nat (max decimals 0)) f @ ''%'')"

definition default_bar :: "rat \<Rightarrow> string" where
  "default_bar f = render_progress_bar f 12 (CHR ''#'') (CHR ''-'')"

definition status_fraction :: "download_status \<Rightarrow> rat" where
  "status_fraction s =
     (if dl_total_bytes s > 0 then of_int (dl_downloaded_bytes s) / of_int (dl_total_bytes s) else 0)"

subsection \<open>Building blocks\<close>

fun kind_label :: "task_kind \<Rightarrow> string" where
  "kind_label Mirror = ''Mirror''"
| "kind_label Leech = ''Leech''"
| "kind_label Clone = ''Clone''"

definition render_heading :: "string \<Rightarrow> string" where
  "render_heading s = ''<b><u>'' @ escape_html s @ ''</u></b>''"

definition render_code :: "string \<Rightarrow> string" where
  "render_code s = ''<code>'' @ escape_html s @ ''</code>''"

definition render_quote :: "string \<Rightarrow> string" where
  "render_quote s = ''<blockquote>'' @ escape_html s @ ''</blockquote>''"

definition render_usage :: "string \<Rightarrow> string \<Rightarrow> string" where
  "render_usage command syntx =
     (let normalized = (if command \<noteq> [] \<and> hd command = CHR ''/'' then tl command else command) in
      render_heading ''Usage'' @ newline @ render_code (''/'' @ normalized @ '' '' @ syntx))"

definition render_success :: "string \<Rightarrow> string \<Rightarrow> string" where
  "render_success title detail =
     (if detail = [] then render_heading title
      else render_heading title @ newline @ render_quote detail)"

definition render_notice :: "string \<Rightarrow> string \<Rightarrow> string" where
  "render_notice title detail =
     (if detail = [] then render_heading title
      else render_heading title @ newline @ render_quote detail)"

subsection \<open>Status panels\<close>

definition render_metrics_footer :: "printer \<Rightarrow> system_snapshot \<Rightarrow> int \<Rightarrow> string" where
  "render_metrics_footer pr metrics bot_uptime =
     (let fb = format_bytes (pr_quotient pr) in
      render_heading ''System'' @ newline @
      ''<b>CPU:</b> <code>'' @ pr_fixed pr 1 (sm_cpu_usage_percent metrics) @ ''%</code> | '' @
      ''<b>RAM:</b> <code>'' @ fb (sm_ram_used_bytes metrics) @ ''/'' @ fb (sm_ram_total_bytes metrics) @
      ''</code> | '' @
      ''<b>Disk:</b> <code>'' @ fb (sm_disk_used_bytes metrics) @ ''/'' @ fb (sm_disk_total_bytes metrics) @
      ''</code>'' @ newline @
      ''<b>Bot uptime:</b> <code>'' @ format_duration bot_uptime @ ''</code>'')"

definition transfer_lines :: "printer \<Rightarrow> download_status \<Rightarrow> string" where
  "transfer_lines pr s =
     (let fb = format_bytes (pr_quotient pr) in
      default_bar (status_fraction s) @ '' <code>'' @ format_percent pr (status_fraction s) 1 @
      ''</code>'' @ newline @
      ''<b>Size:</b> <code>'' @ fb (dl_downloaded_bytes s) @ '' / '' @ fb (dl_total_bytes s) @
      ''</code>'' @ newline @
      ''<b>Rate:</b> <code>'' @ format_rate (pr_quotient pr) (dl_download_speed_bps s) @
      ''</code> | <b>ETA:</b> <code>'' @ format_eta (dl_eta s) @ ''</code>'' @ newline @
      ''<b>State:</b> <code>'' @ download_state_to_string (dl_state s) @ ''</code>'')"

definition render_task_status :: "printer \<Rightarrow> task \<Rightarrow> download_status \<Rightarrow> string" where
  "render_task_status pr t s =
     (let name = (if dl_name s = [] then md_source_url (metadata t) else dl_name s) in
      render_heading (kind_label (md_kind (metadata t))) @ newline @
      render_quote name @ newline @ transfer_lines pr s)"

fun status_entries :: "printer \<Rightarrow> nat \<Rightarrow> download_status list \<Rightarrow> string" where
  "status_entries pr i [] = []"
| "status_entries pr i (s # ss) =
     ''<b>'' @ nat_digits (i + 1) @ ''.</b> <code>'' @ escape_html (dl_name s) @ ''</code>'' @ newline @
     transfer_lines pr s @ newline @ newline @ status_entries pr (i + 1) ss"

definition render_no_active_tasks :: "printer \<Rightarrow> system_snapshot \<Rightarrow> int \<Rightarrow> string" where
  "render_no_active_tasks pr metrics bot_uptime =
     render_heading ''Status'' @ newline @
     render_quote ''No active tasks. New mirror and leech jobs will appear here.'' @ newline @ newline @
     render_metrics_footer pr metrics bot_uptime"

definition render_status :: "printer \<Rightarrow> download_status list \<Rightarrow> system_snapshot \<Rightarrow> int \<Rightarrow> string" where
  "render_status pr active_list metrics bot_uptime =
     (if active_list = [] then render_no_active_tasks pr metrics bot_uptime
      else let shown = min (length active_list) 10 in
        render_heading ''Active Tasks'' @ newline @
        status_entries pr 0 (take shown active_list) @
        (if length active_list > shown
         then ''<i>... and '' @ nat_digits (length active_list - shown) @ '' more task(s)</i>'' @ newline @ newline
         else []) @
        render_metrics_footer pr metrics bot_uptime)"

fun join_with :: "string \<Rightarrow> string list \<Rightarrow> string" where
  "join_with sep [] = []"
| "join_with sep [x] = x"
| "join_with sep (x # y # xs) = x @ sep @ join_with sep (y # xs)"

definition render_stats :: "printer \<Rightarrow> system_snapshot \<Rightarrow> int \<Rightarrow> int \<Rightarrow> string list \<Rightarrow> string" where
  "render_stats pr metrics bot_uptime active_downloads unavailable =
     (let fb = format_bytes (pr_quotient pr);
          degraded_line =
            (if unavailable = [] then []
             else ''<b>Unavailable downloaders:</b> <code>'' @ join_with '', '' (map escape_html unavailable) @
                  ''</code>'' @ newline) in
      render_heading ''Bot Statistics'' @ newline @
      render_quote ''Live process and host-resource snapshot.'' @ newline @
      ''<b>Active downloads:</b> <code>'' @ int_to_string active_downloads @ ''</code>'' @ newline @
      degraded_line @
      ''<b>Bot uptime:</b> <code>'' @ format_duration bot_uptime @ ''</code>'' @ newline @
      ''<b>System uptime:</b> <code>'' @ format_duration (sm_system_uptime metrics) @ ''</code>'' @ newline @
      ''<b>CPU:</b> <code>'' @ pr_fixed pr 1 (sm_cpu_usage_percent metrics) @ ''%</code>'' @ newline @
      ''<b>RAM:</b> <code>'' @ fb (sm_ram_used_bytes metrics) @ '' / '' @ fb (sm_ram_total_bytes metrics) @
      ''</code>'' @ newline @
      ''<b>Disk:</b> <code>'' @ fb (sm_disk_used_bytes metrics) @ '' / '' @ fb (sm_disk_total_bytes metrics) @
      ''</code>'' @ newline @
      ''<b>Load avg:</b> <code>'' @ pr_fixed pr 2 (sm_load_average_1m metrics) @ '' / '' @
      pr_fixed pr 2 (sm_load_average_5m metrics) @ '' / '' @
      pr_fixed pr 2 (sm_load_average_15m metrics) @ ''</code>'')"

subsection \<open>Lists and settings\<close>

definition render_command :: "command_description \<Rightarrow> string" where
  "render_command cmd =
     ''<code>/'' @ cd_name cmd @ ''</code> <i>('' @ permission_to_string (cd_permission cmd) @ '')</i>'' @
     (if cd_description cmd = [] then [] else '' '' @ escape_html (cd_description cmd)) @ newline"

definition render_help :: "command_description list \<Rightarrow> string" where
  "render_help commands =
     render_heading ''Available Commands'' @ newline @
     render_quote ''Only commands available to your permission level are shown.'' @ newline @
     concat (map render_command commands)"

definition render_feed :: "rss_feed \<Rightarrow> string" where
  "render_feed feed =
     (let title_source = (if rf_title feed = [] then rf_url feed else rf_title feed);
          title = truncate_for_display title_source 80;
          url = truncate_for_display (rf_url feed) 120 in
      ''<code>'' @ int_to_string (rf_feed_id feed) @ ''</code> <b>'' @ escape_html title @ ''</b>'' @ newline @
      ''<code>'' @ escape_html url @ ''</code>'' @ newline)"

definition render_rss_subscriptions :: "rss_feed list \<Rightarrow> string" where
  "render_rss_subscriptions feeds =
     render_heading ''RSS Subscriptions'' @ newline @
     (if feeds = [] then render_quote ''No feeds are configured for this chat.''
      else let shown = min (length feeds) 20 in
        render_quote ''Feeds watched for this chat.'' @ newline @
        concat (map render_feed (take shown feeds)) @
        (if length feeds > shown
         then ''<i>... and '' @ nat_digits (length feeds - shown) @ '' more feed(s)</i>'' @ newline
         else []))"

definition value_or :: "'a option \<Rightarrow> 'a \<Rightarrow> 'a" where
  "value_or opt d = (case opt of Some v \<Rightarrow> v | None \<Rightarrow> d)"

definition render_user_settings :: "user_settings \<Rightarrow> string" where
  "render_user_settings s =
     render_heading ''User Settings'' @ newline @
     render_quote ''Personal defaults used for new mirror and leech tasks.'' @ newline @
     ''<b>User id:</b> <code>'' @ int_to_string (user_value (us_user_id s)) @ ''</code>'' @ newline @
     ''<b>Leech destination:</b> <code>'' @ destination_to_string (us_leech_destination s) @ ''</code>'' @ newline @
     ''<b>Mirror destination:</b> <code>'' @ destination_to_string (us_mirror_destination s) @ ''</code>'' @ newline @
     ''<b>Upload as document:</b> <code>'' @ (if us_upload_as_document s then ''yes'' else ''no'') @
     ''</code>'' @ newline @
     ''<b>Rclone remote:</b> <code>'' @ value_or (us_rclone_remote s) ''(none)'' @ ''</code>'' @ newline @
     ''<b>GDrive folder id:</b> <code>'' @ value_or (us_gdrive_folder_id s) ''(none)'' @ ''</code>'' @ newline @
     ''<b>Default thumbnail:</b> <code>'' @ value_or (us_default_thumb_path s) ''(none)'' @ ''</code>''"

definition render_id :: "int \<Rightarrow> string" where
  "render_id i = ''<code>'' @ int_to_string i @ ''</code>''"

definition render_id_list :: "int list \<Rightarrow> string" where
  "render_id_list ids =
     (if ids = [] then ''<i>(none)</i>''
      else let shown = min (length ids) 8 in
        join_with '', '' (map render_id (take shown ids)) @
        (if length ids > shown then '' <i>(+'' @ nat_digits (length ids - shown) @ '' more)</i>'' else []))"

definition render_bot_settings :: "printer \<Rightarrow> bot_settings \<Rightarrow> string" where
  "render_bot_settings pr s =
     (let fb = format_bytes (pr_quotient pr) in
      render_heading ''Bot Settings'' @ newline @
      render_quote ''Global controls for access, paths, limits, and polling.'' @ newline @
      ''<b>Owner id:</b> <code>'' @ int_to_string (bs_owner_id s) @ ''</code>'' @ newline @
      ''<b>Sudo users ('' @ nat_digits (length (bs_sudo_users s)) @ ''):</b> '' @
      render_id_list (bs_sudo_users s) @ newline @
      ''<b>Authorized chats ('' @ nat_digits (length (bs_authorized_chats s)) @ ''):</b> '' @
      render_id_list (bs_authorized_chats s) @ newline @
      ''<b>Download dir:</b> <code>'' @ escape_html (bs_download_dir s) @ ''</code>'' @ newline @
      ''<b>Leech split size:</b> <code>'' @ fb (bs_leech_split_size s) @ ''</code>'' @ newline @
      ''<b>Upload limit:</b> <code>'' @
      (if bs_upload_limit_bytes s = 0 then ''unlimited'' else fb (bs_upload_limit_bytes s)) @
      ''</code>'' @ newline @
      ''<b>Status update interval:</b> <code>'' @ int_to_string (bs_status_update_interval s) @
      '' ms</code>'' @ newline @
      ''<b>RSS poll interval:</b> <code>'' @ int_to_string (bs_rss_poll_interval s) @ '' ms</code>'')"

subsection \<open>Failures and greeting\<close>

definition internal_prefixes :: "string list" where
  "internal_prefixes = [''downloader add_uri: '', ''downloader status: '', ''download error: '',
     ''upload: '', ''mark_failed: '']"

definition starts_with :: "string \<Rightarrow> string \<Rightarrow> bool" where
  "starts_with s prefx = (take (length prefx) s = prefx)"

fun strip_first :: "string list \<Rightarrow> string \<Rightarrow> string" where
  "strip_first [] detail = detail"
| "strip_first (p # ps) detail =
     (if starts_with detail p then drop (length p) detail else strip_first ps detail)"

definition render_failure :: "string \<Rightarrow> app_error \<Rightarrow> string" where
  "render_failure stage err =
     (let trimmed = truncate_for_display (strip_first internal_prefixes (err_message err)) 512 in
      render_heading ''Failed'' @ newline @
      ''<b>Stage:</b> <code>'' @ escape_html stage @ ''</code>'' @ newline @
      ''<b>Reason:</b> '' @ escape_html (friendly_error_label (err_code err)) @ newline @
      render_quote trimmed)"

definition render_error :: "string \<Rightarrow> app_error \<Rightarrow> string" where
  "render_error task_name err =
     render_heading ''Error'' @ newline @
     ''<b>Task:</b> <code>'' @ escape_html task_name @ ''</code>'' @ newline @
     ''<b>Reason:</b> '' @ escape_html (friendly_error_label (err_code err)) @ newline @
     render_quote (truncate_for_display (err_message err) 512)"

definition render_greeting :: "string \<Rightarrow> string" where
  "render_greeting user_first_name =
     (let who = (if user_first_name = [] then ''there'' else user_first_name) in
      render_heading (''Hello, '' @ who @ ''!'') @ newline @
      render_quote ''High-speed mirror and leech orchestration for Telegram.'' @ newline @ newline @
      ''Send a URL, magnet link, or torrent file with <code>/mirror</code> '' @
      ''to upload to cloud storage, or <code>/leech</code> to receive it '' @
      ''back in this chat.'' @ newline @ newline @
      ''Type <code>/help</code> for the full command list and '' @
      ''<code>/settings</code> to configure your preferences.'')"

subsection \<open>Balanced HTML\<close>

text \<open>
  A reader of the tag structure: \<open>scan_html t st s\<close> reads \<open>s\<close> inside an unfinished tag \<open>t\<close> (reversed)
  or outside a tag, with the names of the open elements on the stack \<open>st\<close>.
\<close>

definition close_tag :: "string \<Rightarrow> string list \<Rightarrow> string list option" where
  "close_tag t st =
     (if t \<noteq> [] \<and> hd t = CHR ''/''
      then (case st of [] \<Rightarrow> None | opened # st' \<Rightarrow> if opened = tl t then Some st' else None)
      else Some (t # st))"

fun scan_html :: "string option \<Rightarrow> string list \<Rightarrow> string \<Rightarrow> bool" where
  "scan_html None st [] = (st = [])"
| "scan_html (Some t) st [] = False"
| "scan_html None st (c # cs) =
     (if c = CHR ''<'' then scan_html (Some []) st cs
      else if c = CHR ''>'' then False
      else scan_html None st cs)"
| "scan_html (Some t) st (c # cs) =
     (if c = CHR ''>''
      then (case close_tag (rev t) st of None \<Rightarrow> False | Some st' \<Rightarrow> scan_html None st' cs)
      else scan_html (Some (c # t)) st cs)"

definition balanced_html :: "string \<Rightarrow> bool" where
  "balanced_html s = scan_html None [] s"

text \<open>A neutral text leaves the open elements as they were, so neutral texts compose.\<close>

definition tag_neutral :: "string \<Rightarrow> bool" where
  "tag_neutral s = (\<forall>st r. scan_html None st (s @ r) = scan_html None st r)"

lemma neutral_balanced: "tag_neutral s \<Longrightarrow> balanced_html s"
  unfolding tag_neutral_def balanced_html_def by (metis append_Nil2 scan_html.simps(1))

lemma scan_neutral: "tag_neutral s \<Longrightarrow> scan_html None st (s @ r) = scan_html None st r"
  by (simp add: tag_neutral_def)

lemma neutral_Nil: "tag_neutral []"
  by (simp add: tag_neutral_def)

lemma neutral_append: "tag_neutral s \<Longrightarrow> tag_neutral s' \<Longrightarrow> tag_neutral (s @ s')"
  by (simp add: tag_neutral_def)

lemma neutral_plain: "no_angle s \<Longrightarrow> tag_neutral s"
  by (induction s) (auto simp: tag_neutral_def no_angle_def)

lemma no_angle_simps [simp]:
  "no_angle []" "no_angle (c # s) \<longleftrightarrow> c \<noteq> CHR ''<'' \<and> c \<noteq> CHR ''>'' \<and> no_angle s"
  "no_angle (s @ s') \<longleftrightarrow> no_angle s \<and> no_angle s'"
  by (auto simp: no_angle_def)

lemma no_angle_escape [simp]: "no_angle (escape_html s)"
  using escape_html_safe [of s] by (simp add: no_angle_def)

lemma is_digit_no_angle: "list_all is_digit s \<Longrightarrow> no_angle s"
  by (induction s) (auto simp: is_digit_def)

lemma no_angle_nat_digits [simp]: "no_angle (nat_digits n)"
  by (rule is_digit_no_angle) (auto simp: list_all_iff dest: nat_digits_digits)

lemma no_angle_int [simp]: "no_angle (int_to_string i)"
  by (simp add: int_to_string_def)

lemma no_angle_newline [simp]: "no_angle newline"
  by (simp add: newline_def)

lemma scan_plain [simp]: "no_angle s \<Longrightarrow> scan_html None st (s @ r) = scan_html None st r"
  using neutral_plain by (rule scan_neutral)

lemma scan_plain_end [simp]: "no_angle s \<Longrightarrow> scan_html None st s \<longleftrightarrow> st = []"
  using scan_plain [of s st "[]"] by simp

lemma neutral_concat: "(\<And>x. x \<in> set xs \<Longrightarrow> tag_neutral x) \<Longrightarrow> tag_neutral (concat xs)"
  by (induction xs) (auto simp: neutral_Nil neutral_append)

lemma neutral_join: "no_angle sep \<Longrightarrow> (\<And>x. x \<in> set xs \<Longrightarrow> tag_neutral x) \<Longrightarrow> tag_neutral (join_with sep xs)"
  by (induction sep xs rule: join_with.induct) (auto simp: neutral_Nil neutral_append neutral_plain)

subsection \<open>Every message is balanced\<close>

lemma no_angle_duration [simp]: "no_angle (format_duration d)"
  by (simp add: format_duration_def Let_def)

lemma no_angle_eta [simp]: "no_angle (format_eta d)"
  by (simp add: format_eta_def Let_def)

lemma no_angle_scaled:
  assumes "plain_printer pr" "list_all no_angle labels" "length labels = 6" "length scales = 6" "no_angle suffix"
  shows "no_angle (format_scaled (pr_quotient pr) scales labels b suffix)"
proof -
  have len: "unit_index ss a i idx < i + length ss \<or> unit_index ss a i idx = idx" for ss a i idx
  proof (induction ss arbitrary: i idx)
    case (Cons x ss)
    show ?case using Cons.IH [of "Suc i" i] by auto
  qed simp
  have "unit_index (tl scales) a 1 0 < 6" for a
    using len [of "tl scales" a 1 0] assms(4) by auto
  then have "no_angle (labels ! unit_index (tl scales) a 1 0)" for a
    using assms(2,3) by (auto simp: list_all_length)
  moreover have "no_angle (labels ! 0)" using assms(2,3) by (simp add: list_all_length)
  ultimately show ?thesis using assms by (simp add: format_scaled_def Let_def plain_printer_def)
qed

lemma no_angle_bytes [simp]: "plain_printer pr \<Longrightarrow> no_angle (format_bytes (pr_quotient pr) b)"
  and no_angle_rate [simp]: "plain_printer pr \<Longrightarrow> no_angle (format_rate (pr_quotient pr) b)"
  unfolding format_bytes_def format_rate_def format_binary_def
  by (rule no_angle_scaled; simp add: binary_labels_def binary_scales_def)+

lemma no_angle_fixed [simp]: "plain_printer pr \<Longrightarrow> no_angle (pr_fixed pr n x)"
  by (simp add: plain_printer_def)

lemma no_angle_percent [simp]: "plain_printer pr \<Longrightarrow> no_angle (format_percent pr f n)"
  by (simp add: format_percent_def Let_def)

lemma no_angle_replicate [simp]: "no_angle [c] \<Longrightarrow> no_angle (replicate n c)"
  by (auto simp: no_angle_def)

lemma no_angle_bar [simp]: "no_angle (default_bar f)"
  by (simp add: default_bar_def render_progress_bar_def Let_def)

lemma no_angle_state [simp]: "no_angle (download_state_to_string s)"
  by (cases s) simp_all

lemma no_angle_permission [simp]: "no_angle (permission_to_string p)"
  by (cases p) simp_all

lemma no_angle_destination [simp]: "no_angle (destination_to_string d)"
  by (cases d) simp_all

lemma neutral_heading: "tag_neutral (render_heading s)"
  by (simp add: tag_neutral_def render_heading_def close_tag_def)

lemma neutral_code: "tag_neutral (render_code s)"
  by (simp add: tag_neutral_def render_code_def close_tag_def)

lemma neutral_quote: "tag_neutral (render_quote s)"
  by (simp add: tag_neutral_def render_quote_def close_tag_def)

lemmas scan_blocks [simp] = scan_neutral [OF neutral_heading] scan_neutral [OF neutral_code]
  scan_neutral [OF neutral_quote]

lemma neutral_footer: "plain_printer pr \<Longrightarrow> tag_neutral (render_metrics_footer pr m u)"
  by (simp add: tag_neutral_def render_metrics_footer_def close_tag_def Let_def)

lemma neutral_transfer: "plain_printer pr \<Longrightarrow> tag_neutral (transfer_lines pr s)"
  by (simp add: tag_neutral_def transfer_lines_def close_tag_def Let_def)

lemma neutral_entries: "plain_printer pr \<Longrightarrow> tag_neutral (status_entries pr i ss)"
proof (induction ss arbitrary: i)
  case (Cons s ss)
  then show ?case
    using neutral_transfer [of pr s] by (simp add: tag_neutral_def close_tag_def)
qed (simp add: neutral_Nil)

lemma neutral_status: "plain_printer pr \<Longrightarrow> tag_neutral (render_status pr ds m u)"
  unfolding tag_neutral_def render_status_def render_no_active_tasks_def
  using neutral_footer [of pr m u] neutral_entries [of pr 0]
  by (simp add: scan_neutral close_tag_def Let_def)

lemma neutral_task_status: "plain_printer pr \<Longrightarrow> tag_neutral (render_task_status pr t s)"
  using neutral_transfer [of pr s] by (simp add: tag_neutral_def render_task_status_def Let_def)

lemma neutral_stats: "plain_printer pr \<Longrightarrow> tag_neutral (render_stats pr m u n names)"
proof -
  have "tag_neutral (join_with '', '' (map escape_html names))"
    by (rule neutral_join) (auto intro: neutral_plain)
  then show "plain_printer pr \<Longrightarrow> ?thesis"
    by (simp add: tag_neutral_def render_stats_def close_tag_def Let_def)
qed

lemma neutral_command: "no_angle (cd_name c) \<Longrightarrow> tag_neutral (render_command c)"
  by (simp add: tag_neutral_def render_command_def close_tag_def)

lemma neutral_help: "list_all (\<lambda>c. no_angle (cd_name c)) cs \<Longrightarrow> tag_neutral (render_help cs)"
  unfolding render_help_def
  by (intro neutral_append neutral_heading neutral_quote neutral_concat)
     (auto simp: list_all_iff intro: neutral_command neutral_plain)

lemma neutral_feed: "tag_neutral (render_feed f)"
  by (simp add: tag_neutral_def render_feed_def close_tag_def Let_def)

lemma neutral_feeds: "tag_neutral (render_rss_subscriptions fs)"
proof -
  have "tag_neutral (concat (map render_feed (take n fs)))" for n
    by (rule neutral_concat) (auto intro: neutral_feed)
  then show ?thesis
    by (simp add: tag_neutral_def render_rss_subscriptions_def close_tag_def Let_def)
qed

lemma neutral_ids: "tag_neutral (render_id_list ids)"
proof -
  have "tag_neutral (render_id i)" for i by (simp add: tag_neutral_def render_id_def close_tag_def)
  then have "tag_neutral (join_with '', '' (map render_id (take n ids)))" for n
    by (intro neutral_join) auto
  then show ?thesis by (simp add: tag_neutral_def render_id_list_def close_tag_def Let_def)
qed

lemma neutral_bot_settings: "plain_printer pr \<Longrightarrow> tag_neutral (render_bot_settings pr s)"
  by (simp add: tag_neutral_def render_bot_settings_def close_tag_def Let_def scan_neutral [OF neutral_ids])

lemma neutral_user_settings:
  assumes "\<forall>s \<in> {us_rclone_remote u, us_gdrive_folder_id u, us_default_thumb_path u}. pred_option no_angle s"
  shows "tag_neutral (render_user_settings u)"
proof -
  have "pred_option no_angle s \<Longrightarrow> no_angle (value_or s ''(none)'')" for s
    by (cases s) (simp_all add: value_or_def)
  with assms show ?thesis by (simp add: tag_neutral_def render_user_settings_def close_tag_def)
qed

lemma neutral_failure: "tag_neutral (render_failure stage e)" "tag_neutral (render_error name e)"
  by (simp_all add: tag_neutral_def render_failure_def render_error_def close_tag_def Let_def)

lemma neutral_greeting: "tag_neutral (render_greeting name)"
  by (simp add: tag_neutral_def render_greeting_def close_tag_def Let_def)

lemma neutral_small:
  "tag_neutral (render_usage c x)" "tag_neutral (render_success a b)" "tag_neutral (render_notice a b)"
  by (simp_all add: tag_neutral_def render_usage_def render_success_def render_notice_def Let_def)

subsection \<open>Properties\<close>

text \<open>
  Whatever names, error texts, URLs and titles a message shows, every message the renderer builds
  from them (status panels, statistics, feed lists, bot settings, usage hints, notices, failures and
  the greeting) is balanced HTML: user text can neither open nor close an element.
\<close>

theorem rendered_messages_balanced:
  assumes "plain_printer pr"
  shows "balanced_html (render_task_status pr t s) \<and> balanced_html (render_status pr ds m up) \<and>
    balanced_html (render_stats pr m up n names) \<and> balanced_html (render_rss_subscriptions feeds) \<and>
    balanced_html (render_bot_settings pr bs) \<and> balanced_html (render_failure stage e) \<and>
    balanced_html (render_error name e) \<and> balanced_html (render_greeting name) \<and>
    balanced_html (render_usage c x) \<and> balanced_html (render_success a b) \<and> balanced_html (render_notice a b)"
  using assms
  by (intro conjI neutral_balanced neutral_task_status neutral_status neutral_stats neutral_feeds
      neutral_bot_settings neutral_failure neutral_greeting neutral_small)

lemma plain_floor_printer: "plain_printer floor_printer"
  by (simp add: plain_printer_def floor_printer_def)

theorem rendered_messages_balanced_witness:
  "balanced_html (render_notice ''</b>'' ''<i>'') \<and>
   balanced_html (render_status floor_printer [empty_status\<lparr>dl_name := ''<x>''\<rparr>] default_snapshot 5)"
  using rendered_messages_balanced [OF plain_floor_printer] by simp

text \<open>
  The user-settings panel is the exception: a thumbnail path, remote or folder id with an angle
  bracket is copied into the message as it is, and the message is then not balanced.
\<close>

theorem user_settings_panel_unescaped:
  "\<not> balanced_html (render_user_settings
     \<lparr>us_user_id = UserId 1, us_leech_destination = UD_Telegram, us_mirror_destination = UD_Rclone,
      us_default_thumb_path = None, us_rclone_remote = Some ''a<b:'', us_gdrive_folder_id = None,
      us_upload_as_document = False, us_created_at = 0, us_updated_at = 0\<rparr>)"
  by (simp add: balanced_html_def render_user_settings_def close_tag_def value_or_def)

end
