(* ===== verification/Command_Parser.thy ===== *)
theory Command_Parser
  imports Domain
begin

text \<open>
  \<open>src/presentation/command_parser.cpp\<close>: the pure parser from a message text to a command request.
  A canonical text of a request is defined, and parsing it gives the request back.
\<close>

record command_request =
  cr_command :: string
  cr_arguments :: string
  cr_full_text :: string
  cr_sender :: user_id
  cr_chat :: chat_id
  cr_source_message :: message_id

definition trim :: "string \<Rightarrow> string" where
  "trim s = rev (dropWhile is_space (rev (dropWhile is_space s)))"

definition to_lower_ascii :: "string \<Rightarrow> string" where
  "to_lower_ascii s = map to_lower s"

definition parse_command ::
    "string \<Rightarrow> user_id \<Rightarrow> chat_id \<Rightarrow> message_id \<Rightarrow> command_request option" where
  "parse_command s sender chat msg =
     (let trimmed = trim s in
      if trimmed = [] \<or> hd trimmed \<noteq> CHR ''/'' then None
      else let body = tl trimmed in
        if body = [] then None
        else
          let head = takeWhile (\<lambda>c. \<not> is_space c) body;
              tail = drop (length head + 1) body;
              head = takeWhile (\<lambda>c. c \<noteq> CHR ''@'') head in
          if head = [] then None
          else Some \<lparr>cr_command = to_lower_ascii head, cr_arguments = trim tail, cr_full_text = s,
                     cr_sender = sender, cr_chat = chat, cr_source_message = msg\<rparr>)"

subsection \<open>Trimming\<close>

definition trimmed :: "string \<Rightarrow> bool" where
  "trimmed s = (s = [] \<or> \<not> is_space (hd s) \<and> \<not> is_space (last s))"

lemma trim_trimmed: "trimmed (trim s)"
proof (cases "trim s = []")
  case False
  let ?u = "dropWhile is_space s" and ?v = "dropWhile is_space (rev (dropWhile is_space s))"
  have v: "?v \<noteq> []" using False by (simp add: trim_def)
  have u: "?u \<noteq> []" using v by (metis dropWhile.simps(1) rev.simps(1))
  have "last (trim s) = hd ?v" by (simp add: trim_def last_rev)
  then have l: "\<not> is_space (last (trim s))" using hd_dropWhile [OF v] by simp
  obtain p where "rev ?u = p @ ?v" by (metis takeWhile_dropWhile_id)
  then have "?u = rev ?v @ rev p" by (metis rev_append rev_rev_ident)
  then have "hd (trim s) = hd ?u" using False unfolding trim_def by (metis hd_append2)
  then have "\<not> is_space (hd (trim s))" using hd_dropWhile [OF u] by simp
  with l show ?thesis by (simp add: trimmed_def)
qed (simp add: trimmed_def)

lemma trim_id: "trimmed s \<Longrightarrow> trim s = s"
proof -
  assume "trimmed s"
  moreover have "\<not> is_space (hd t) \<Longrightarrow> dropWhile is_space t = t" for t by (cases t) auto
  ultimately show ?thesis by (auto simp: trimmed_def trim_def hd_rev)
qed

lemma trim_strips: "\<exists>p q. s = p @ trim s @ q \<and> list_all is_space p \<and> list_all is_space q"
proof -
  let ?u = "dropWhile is_space s"
  have "rev ?u = takeWhile is_space (rev ?u) @ dropWhile is_space (rev ?u)" by simp
  then have "?u = trim s @ rev (takeWhile is_space (rev ?u))"
    unfolding trim_def by (metis rev_append rev_rev_ident)
  then have "s = takeWhile is_space s @ trim s @ rev (takeWhile is_space (rev ?u))"
    by (metis takeWhile_dropWhile_id)
  moreover have "list_all is_space (takeWhile is_space t)" for t
    by (auto simp: list_all_iff dest: set_takeWhileD)
  ultimately show ?thesis by (metis list_all_rev)
qed

lemma dropWhile_stop: "xs = [] \<or> \<not> P (hd xs) \<Longrightarrow> dropWhile P xs = xs"
  by (cases xs) auto

lemma trim_pad:
  assumes "list_all is_space p" "list_all is_space q" "trimmed s"
  shows "trim (p @ s @ q) = s"
proof (cases "s = []")
  case True
  have "dropWhile is_space (p @ q) = []"
    unfolding dropWhile_eq_Nil_conv using assms(1,2) by (simp only: list_all_iff set_append Un_iff) blast
  with True show ?thesis by (metis append_Nil dropWhile.simps(1) rev.simps(1) trim_def)
next
  case False
  with assms(3) have s: "\<not> is_space (hd (s @ q))" "\<not> is_space (hd (rev s))"
    by (auto simp: trimmed_def hd_rev)
  have "dropWhile is_space (p @ s @ q) = dropWhile is_space (s @ q)"
    using assms(1) by (intro dropWhile_append2) (auto simp: list_all_iff)
  also have "\<dots> = s @ q" using s(1) by (intro dropWhile_stop) simp
  finally have d: "dropWhile is_space (p @ s @ q) = s @ q" .
  have "dropWhile is_space (rev q @ rev s) = dropWhile is_space (rev s)"
    using assms(2) by (intro dropWhile_append2) (auto simp: list_all_iff)
  also have "\<dots> = rev s" using s(2) by (intro dropWhile_stop) simp
  finally show ?thesis by (simp add: trim_def d)
qed

subsection \<open>The grammar\<close>

text \<open>
  A command text: white space, a slash, a name, an optional \<open>@bot\<close> suffix, and, after at least one
  white-space character, the arguments.
\<close>

definition word_ok :: "string \<Rightarrow> bool" where
  "word_ok s = list_all (\<lambda>c. \<not> is_space c) s"

definition command_shape :: "string \<Rightarrow> string \<Rightarrow> string \<Rightarrow> string \<Rightarrow> bool" where
  "command_shape name suffx sep args =
     (name \<noteq> [] \<and> word_ok name \<and> CHR ''@'' \<notin> set name \<and>
      word_ok suffx \<and> (suffx = [] \<or> hd suffx = CHR ''@'') \<and>
      list_all is_space sep \<and> trimmed args \<and> (args = [] \<longleftrightarrow> sep = []))"

lemma space_slash [simp]: "\<not> is_space (CHR ''/'')"
  by (simp add: is_space_def)

lemma takeWhile_stop: "list_all P xs \<Longrightarrow> ys = [] \<or> \<not> P (hd ys) \<Longrightarrow> takeWhile P (xs @ ys) = xs"
  by (cases ys) (auto simp: list_all_iff takeWhile_append)

lemma word_last: "word_ok s \<Longrightarrow> s \<noteq> [] \<Longrightarrow> \<not> is_space (last s)"
  by (auto simp: word_ok_def list_all_iff)

lemma command_core_trimmed:
  assumes "command_shape name suffx sep args"
  shows "trimmed (''/'' @ name @ suffx @ sep @ args)"
proof -
  have "last (name @ suffx) = last suffx \<or> last (name @ suffx) = last name"
    by (cases suffx) auto
  moreover have "\<not> is_space (last (name @ suffx))"
    using assms by (intro word_last) (auto simp: command_shape_def word_ok_def)
  ultimately show ?thesis
    using assms by (cases "args = []") (auto simp: command_shape_def trimmed_def)
qed

lemma parse_complete:
  assumes sh: "command_shape name suffx sep args" and sp: "list_all is_space p" "list_all is_space q"
  shows "parse_command (p @ (''/'' @ name @ suffx @ sep @ args) @ q) u c m =
    Some \<lparr>cr_command = to_lower_ascii name, cr_arguments = args,
          cr_full_text = p @ (''/'' @ name @ suffx @ sep @ args) @ q,
          cr_sender = u, cr_chat = c, cr_source_message = m\<rparr>"
proof -
  have t: "trim (p @ (''/'' @ name @ suffx @ sep @ args) @ q) = CHR ''/'' # name @ suffx @ sep @ args"
    using trim_pad [OF sp command_core_trimmed [OF sh]] by simp
  have stop: "sep @ args = [] \<or> \<not> \<not> is_space (hd (sep @ args))"
    using sh by (cases sep) (auto simp: command_shape_def)
  have "takeWhile (\<lambda>c. \<not> is_space c) ((name @ suffx) @ (sep @ args)) = name @ suffx"
    using sh stop by (intro takeWhile_stop) (auto simp: command_shape_def word_ok_def)
  then have w: "takeWhile (\<lambda>c. \<not> is_space c) (name @ suffx @ sep @ args) = name @ suffx" by simp
  have a: "takeWhile (\<lambda>c. c \<noteq> CHR ''@'') (name @ suffx) = name"
    using sh by (intro takeWhile_stop) (auto simp: command_shape_def list_all_iff)
  have "drop (length (name @ suffx) + 1) (name @ suffx @ sep @ args) = tl sep @ args"
    using sh by (cases sep) (auto simp: command_shape_def)
  moreover have "trim (tl sep @ args @ []) = args"
    using sh by (intro trim_pad) (cases sep; auto simp: command_shape_def)+
  ultimately have d: "trim (drop (length (name @ suffx) + 1) (name @ suffx @ sep @ args)) = args" by simp
  have "name \<noteq> []" using sh by (simp add: command_shape_def)
  then show ?thesis unfolding parse_command_def Let_def t using a d w by simp
qed

lemma tail_shape:
  assumes "rest = [] \<or> is_space (hd rest)" "rest \<noteq> [] \<Longrightarrow> \<not> is_space (last rest)"
  shows "\<exists>sep. rest = sep @ trim (drop 1 rest) \<and> list_all is_space sep \<and> (trim (drop 1 rest) = [] \<longleftrightarrow> sep = [])"
proof (cases rest)
  case Nil
  then show ?thesis by (simp add: trim_def)
next
  case (Cons x tail)
  obtain p q where pq: "tail = p @ trim tail @ q" "list_all is_space p" "list_all is_space q"
    using trim_strips by blast
  have x: "is_space x" and l: "\<not> is_space (last (x # tail))" using assms Cons by auto
  have q: "q = []"
  proof (rule ccontr)
    assume "q \<noteq> []"
    then have "last (x # tail) \<in> set q" using pq(1) by (metis append_is_Nil_conv last.simps last_appendR last_in_set)
    with l pq(3) show False by (auto simp: list_all_iff)
  qed
  have "trim tail \<noteq> []"
  proof
    assume "trim tail = []"
    with pq q have "list_all is_space (x # tail)" using x by simp
    with l show False by (metis last_in_set list.distinct(1) list_all_iff)
  qed
  with pq q x Cons show ?thesis by (intro exI [of _ "x # p"]) auto
qed

lemma parse_sound:
  assumes "parse_command s u c m = Some r"
  shows "\<exists>p name suffx sep q. command_shape name suffx sep (cr_arguments r) \<and>
    s = p @ (''/'' @ name @ suffx @ sep @ cr_arguments r) @ q \<and>
    list_all is_space p \<and> list_all is_space q"
proof -
  define body where "body = tl (trim s)"
  define head where "head = takeWhile (\<lambda>c. \<not> is_space c) body"
  define rest where "rest = dropWhile (\<lambda>c. \<not> is_space c) body"
  define name where "name = takeWhile (\<lambda>c. c \<noteq> CHR ''@'') head"
  define suffx where "suffx = dropWhile (\<lambda>c. c \<noteq> CHR ''@'') head"
  have b: "body = head @ rest" "head = name @ suffx"
    by (simp_all add: head_def rest_def name_def suffx_def)
  have t: "trim s = CHR ''/'' # body"
    using assms by (cases "trim s") (auto simp: parse_command_def body_def Let_def split: if_splits)
  have ne: "name \<noteq> []" and args: "cr_arguments r = trim (drop (length head + 1) body)"
    using assms unfolding parse_command_def Let_def t
    by (auto simp: name_def head_def split: if_splits)
  have args': "cr_arguments r = trim (drop 1 rest)" using args b(1) by simp
  have "rest \<noteq> [] \<Longrightarrow> \<not> is_space (last rest)"
    using trim_trimmed [of s] unfolding t by (simp add: trimmed_def b(1) split: if_splits)
  moreover have "rest = [] \<or> is_space (hd rest)"
    using hd_dropWhile [of "\<lambda>c. \<not> is_space c" body] by (auto simp: rest_def)
  ultimately obtain sep where sep: "rest = sep @ cr_arguments r" "list_all is_space sep"
    "cr_arguments r = [] \<longleftrightarrow> sep = []"
    using tail_shape [of rest] args' by auto
  have wn: "word_ok (name @ suffx)"
    unfolding b(2) [symmetric] by (auto simp: word_ok_def head_def list_all_iff dest: set_takeWhileD)
  have "CHR ''@'' \<notin> set name" by (auto simp: name_def dest: set_takeWhileD)
  moreover have "suffx = [] \<or> hd suffx = CHR ''@''"
    using hd_dropWhile [of "\<lambda>c. c \<noteq> CHR ''@''" head] unfolding suffx_def by blast
  ultimately have "command_shape name suffx sep (cr_arguments r)"
    using ne wn sep trim_trimmed [of "drop 1 rest"] by (simp add: command_shape_def word_ok_def args')
  moreover obtain p q where "s = p @ trim s @ q" "list_all is_space p" "list_all is_space q"
    using trim_strips by blast
  ultimately show ?thesis
    using sep(1) b t by (intro exI [of _ p] exI [of _ name] exI [of _ suffx] exI [of _ sep] exI [of _ q]) simp
qed

subsection \<open>Properties\<close>

text \<open>
  C40. The parser accepts exactly the command grammar, with the parts the documentation promises: a
  text is parsed if and only if it is, up to surrounding white space, a slash, a non-empty name, an
  optional \<open>@bot\<close> suffix and arguments separated by white space; the request carries the lower-cased
  name, the trimmed arguments, the text and the sender, chat and message it came with.
\<close>

theorem parse_command_grammar:
  "parse_command s u c m = Some r \<longleftrightarrow>
     (\<exists>p name suffx sep args q. command_shape name suffx sep args \<and> list_all is_space p \<and>
        list_all is_space q \<and> s = p @ (''/'' @ name @ suffx @ sep @ args) @ q \<and>
        r = \<lparr>cr_command = to_lower_ascii name, cr_arguments = args, cr_full_text = s,
             cr_sender = u, cr_chat = c, cr_source_message = m\<rparr>)" (is "?l \<longleftrightarrow> ?r")
proof
  assume l: ?l
  then obtain p name suffx sep q where sh: "command_shape name suffx sep (cr_arguments r)"
    "s = p @ (''/'' @ name @ suffx @ sep @ cr_arguments r) @ q" "list_all is_space p" "list_all is_space q"
    using parse_sound by blast
  from parse_complete [OF sh(1,3,4)] l sh show ?r by (metis option.inject)
next
  assume ?r
  then show ?l by (elim exE conjE) (simp only: parse_complete)
qed

end
