(* ===== verification/Command_Dispatcher.thy ===== *)
theory Command_Dispatcher
  imports Html_Renderer Command_Parser Mirror_Url Leech_Url Task_Control "HOL-Library.AList"
begin

text \<open>
  \<open>src/presentation/command_dispatcher.cpp\<close>: the command table with its permission levels and
  aliases, the permission check, and one handler per built-in command. The collaborators of the
  dispatcher (\<open>Dependencies\<close>) are programs over an arbitrary world, so the lemmas hold for every
  behaviour of the use cases and of Telegram. The table entry of a command names its handler;
  \<open>run_handler\<close> is what the registered lambda does. A result \<open>None\<close> means that a use case did not
  return.
\<close>

subsection \<open>Collaborators\<close>

record drive_request =
  dr_source_url :: string
  dr_user :: user_id
  dr_chat :: chat_id

record status_request =
  sr_user :: user_id
  sr_chat :: chat_id
  sr_task_id :: "task_id option"
  sr_include_all_users :: bool

record stats_report =
  st_metrics :: system_snapshot
  st_bot_uptime :: int
  st_active_downloads :: int
  st_unavailable_downloaders :: "string list"

type_synonym keyboard = "(string \<times> string) list list"

record 'w deps =
  de_authority :: authority
  de_printer :: printer
  de_version :: string
  de_send :: "chat_id \<Rightarrow> string \<Rightarrow> ('w, message_id res) state"
  de_edit :: "chat_id \<Rightarrow> message_id \<Rightarrow> string \<Rightarrow> ('w, unit res) state"
  de_send_keyboard :: "chat_id \<Rightarrow> string \<Rightarrow> keyboard \<Rightarrow> ('w, message_id res) state"
  de_send_file :: "chat_id \<Rightarrow> string \<Rightarrow> string \<Rightarrow> string option \<Rightarrow> ('w, message_id res) state"
  de_clock :: "('w, int) state"
  de_log_exists :: "('w, bool option) state"
  de_log_size :: "('w, string + nat) state"
  de_mirror :: "mirror_request \<Rightarrow> ('w, task_id res option) state"
  de_leech :: "leech_request \<Rightarrow> ('w, task_id res option) state"
  de_clone :: "drive_request \<Rightarrow> ('w, string res) state"
  de_count :: "drive_request \<Rightarrow> ('w, count_result res) state"
  de_delete :: "drive_request \<Rightarrow> ('w, unit res) state"
  de_cancel :: "task_request \<Rightarrow> ('w, unit res) state"
  de_cancel_all :: "chat_id \<Rightarrow> ('w, cancel_all_result res) state"
  de_pause :: "task_request \<Rightarrow> ('w, unit res) state"
  de_resume :: "task_request \<Rightarrow> ('w, unit res) state"
  de_status :: "status_request \<Rightarrow> ('w, unit res) state"
  de_stats :: "('w, stats_report res) state"
  de_update_user :: "user_id \<Rightarrow> (user_settings \<Rightarrow> user_settings) option \<Rightarrow> ('w, user_settings res) state"
  de_update_bot :: "(bot_settings \<Rightarrow> bot_settings) option \<Rightarrow> ('w, bot_settings res) state"
  de_rss_add :: "rss_feed \<Rightarrow> ('w, int res) state"
  de_rss_list :: "chat_id \<Rightarrow> ('w, rss_feed list res) state"
  de_rss_remove :: "int \<Rightarrow> user_id \<Rightarrow> chat_id \<Rightarrow> ('w, unit res) state"

subsection \<open>Tokens and numbers\<close>

definition is_blank :: "char \<Rightarrow> bool" where
  "is_blank c = (byte_of c \<in> {32, 9, 13, 10})"

definition split_first_token :: "string \<Rightarrow> string \<times> string" where
  "split_first_token s =
     (let rest = dropWhile is_blank s in
      if rest = [] then ([], [])
      else let head = takeWhile (\<lambda>c. \<not> is_blank c) rest in
        (head, dropWhile is_blank (drop (length head) rest)))"

subsection \<open>The command table\<close>

datatype handler =
    H_mirror | H_qbmirror | H_leech | H_qbleech | H_clone | H_count | H_del | H_cancel | H_cancelall
  | H_pause | H_resume | H_status | H_settings | H_botsettings | H_help | H_start | H_stats
  | H_version | H_ping | H_log | H_rss

record entry =
  en_required :: permission
  en_handler :: handler
  en_description :: string

record dispatcher =
  dp_commands :: "(string \<times> entry) list"
  dp_aliases :: "(string \<times> string) list"

definition register_command :: "string \<Rightarrow> permission \<Rightarrow> string \<Rightarrow> handler \<Rightarrow> dispatcher \<Rightarrow> dispatcher" where
  "register_command name required descr h d =
     d\<lparr>dp_commands := AList.update name
         \<lparr>en_required = required, en_handler = h, en_description = descr\<rparr> (dp_commands d)\<rparr>"

definition register_alias :: "string \<Rightarrow> string \<Rightarrow> dispatcher \<Rightarrow> dispatcher" where
  "register_alias als canonical d = d\<lparr>dp_aliases := AList.update als canonical (dp_aliases d)\<rparr>"

definition register_builtins :: "dispatcher \<Rightarrow> dispatcher" where
  "register_builtins d =
     fold (\<lambda>f. f)
       [register_command ''mirror'' User
          ''Download a URL/magnet via aria2 and upload to GDrive/rclone.'' H_mirror,
        register_alias ''m'' ''mirror'',
        register_command ''qbmirror'' User
          ''Mirror via qBittorrent (use for torrents you intend to seed).'' H_qbmirror,
        register_alias ''qm'' ''qbmirror'',
        register_command ''leech'' User ''Download via aria2 and upload back to this chat.'' H_leech,
        register_alias ''l'' ''leech'',
        register_command ''qbleech'' User
          ''Leech via qBittorrent (use for torrents you intend to seed).'' H_qbleech,
        register_alias ''ql'' ''qbleech'',
        register_command ''clone'' User
          ''Server-side copy a GDrive file or folder to the configured parent.'' H_clone,
        register_command ''count'' User
          ''Recursively count files/folders/bytes in a GDrive resource.'' H_count,
        register_command ''del'' Admin
          ''Delete a GDrive file or folder (trash, recoverable for 30 days).'' H_del,
        register_command ''cancel'' User ''Cancel a running task by id (see /status for ids).'' H_cancel,
        register_command ''cancelall'' Admin ''Cancel every running task in this chat.'' H_cancelall,
        register_command ''pause'' User ''Pause a running task by id.'' H_pause,
        register_command ''resume'' User ''Resume a paused task by id.'' H_resume,
        register_command ''status'' User ''Show active tasks, or one task by id.'' H_status,
        register_command ''settings'' Anyone
          ''View / change your per-user upload preferences.'' H_settings,
        register_command ''botsettings'' Admin
          ''View / change bot-wide configuration (admins only).'' H_botsettings,
        register_command ''help'' Anyone ''Show this list of commands.'' H_help,
        register_command ''start'' Anyone ''Greet the bot and learn what it can do.'' H_start,
        register_command ''stats'' User ''CPU / RAM / disk usage and bot uptime.'' H_stats,
        register_command ''version'' Anyone ''Show the running cmlb build version.'' H_version,
        register_command ''ping'' Anyone ''Round-trip latency check against Telegram.'' H_ping,
        register_command ''log'' Owner
          ''Upload the current cmlb.log file to this chat (owner only).'' H_log,
        register_command ''rss'' User ''Manage RSS feeds (subcommands: add, list, remove).'' H_rss] d"

definition builtins :: dispatcher where
  "builtins = register_builtins \<lparr>dp_commands = [], dp_aliases = []\<rparr>"

subsection \<open>Handlers\<close>

definition finish :: "'a res \<Rightarrow> ('w, unit res option) state" where
  "finish r = State_Monad.return (Some (case r of Inl e \<Rightarrow> Inl e | Inr _ \<Rightarrow> Inr ()))"

definition stop :: "app_error \<Rightarrow> ('w, unit res option) state" where
  "stop e = State_Monad.return (Some (Inl e))"

definition fail :: "error_code \<Rightarrow> string \<Rightarrow> ('w, unit res option) state" where
  "fail c m = State_Monad.return (Some (Inl (mk_error c m)))"

text \<open>The shared argument guard: an empty argument list sends the usage text and fails.\<close>

definition require_arg ::
    "'w deps \<Rightarrow> command_request \<Rightarrow> string \<Rightarrow> string \<Rightarrow> ('w, unit res option) state \<Rightarrow> ('w, unit res option) state" where
  "require_arg D req usage err go =
     (if cr_arguments req \<noteq> [] then go
      else do { _ \<leftarrow> de_send D (cr_chat req) usage; fail EC_InvalidArgument err })"

definition start_mirror :: "'w deps \<Rightarrow> command_request \<Rightarrow> bool \<Rightarrow> ('w, unit res option) state" where
  "start_mirror D req qbit = do {
     result \<leftarrow> de_mirror D \<lparr>mr_url = cr_arguments req, mr_user = cr_sender req, mr_chat = cr_chat req,
       mr_source_message = cr_source_message req, mr_use_qbittorrent = qbit, mr_override_destination = None\<rparr>;
     (case result of None \<Rightarrow> State_Monad.return None | Some r \<Rightarrow> finish r)
   }"

definition start_leech :: "'w deps \<Rightarrow> command_request \<Rightarrow> bool \<Rightarrow> ('w, unit res option) state" where
  "start_leech D req qbit = do {
     result \<leftarrow> de_leech D \<lparr>lr_url = cr_arguments req, lr_user = cr_sender req, lr_chat = cr_chat req,
       lr_source_message = cr_source_message req, lr_use_qbittorrent = qbit\<rparr>;
     (case result of None \<Rightarrow> State_Monad.return None | Some r \<Rightarrow> finish r)
   }"

definition drive_request_of :: "command_request \<Rightarrow> drive_request" where
  "drive_request_of req = \<lparr>dr_source_url = cr_arguments req, dr_user = cr_sender req, dr_chat = cr_chat req\<rparr>"

text \<open>\<open>/cancel\<close>, \<open>/pause\<close> and \<open>/resume\<close>: the first token is the task id.\<close>

definition with_task ::
    "'w deps \<Rightarrow> command_request \<Rightarrow> string \<Rightarrow> (task_request \<Rightarrow> ('w, unit res) state) \<Rightarrow> ('w, unit res option) state" where
  "with_task D req name act =
     (let head = fst (split_first_token (cr_arguments req)) in
      if head = [] then do {
        _ \<leftarrow> de_send D (cr_chat req) (render_usage name ''<task_id>'');
        fail EC_InvalidArgument (''/'' @ name @ '' requires a task id'')
      } else do {
        r \<leftarrow> act \<lparr>tr_task_id = TaskId head, tr_chat = cr_chat req\<rparr>;
        finish r
      })"

definition status_handler :: "'w deps \<Rightarrow> command_request \<Rightarrow> ('w, unit res option) state" where
  "status_handler D req =
     (let head = fst (split_first_token (cr_arguments req)) in do {
        r \<leftarrow> de_status D \<lparr>sr_user = cr_sender req, sr_chat = cr_chat req,
          sr_task_id = (if head = [] then None else Some (TaskId head)),
          sr_include_all_users = can_run (de_authority D) (cr_sender req) (cr_chat req) Admin\<rparr>;
        finish r })"

definition settings_keyboard :: keyboard where
  "settings_keyboard =
     [[(''Cycle Upload Destination'', ''settings:upload:cycle''),
       (''Toggle Document Mode'', ''settings:doc:toggle'')], [(''Close'', ''close'')]]"

definition settings_handler :: "'w deps \<Rightarrow> command_request \<Rightarrow> ('w, unit res option) state" where
  "settings_handler D req = do {
     settings \<leftarrow> de_update_user D (cr_sender req) (Some (\<lambda>r. r));
     (case settings of
        Inl e \<Rightarrow> stop e
      | Inr s \<Rightarrow> do {
          r \<leftarrow> de_send_keyboard D (cr_chat req) (render_user_settings s) settings_keyboard;
          finish r })
   }"

definition botsettings_handler :: "'w deps \<Rightarrow> command_request \<Rightarrow> ('w, unit res option) state" where
  "botsettings_handler D req = do {
     settings \<leftarrow> de_update_bot D (Some (\<lambda>r. r));
     (case settings of
        Inl e \<Rightarrow> stop e
      | Inr s \<Rightarrow> do {
          r \<leftarrow> de_send_keyboard D (cr_chat req) (render_bot_settings (de_printer D) s) [[(''Close'', ''close'')]];
          finish r })
   }"

subsection \<open>Help\<close>

text \<open>\<open>std::string\<close> comparison is lexicographic on bytes.\<close>

fun bytes_le :: "string \<Rightarrow> string \<Rightarrow> bool" where
  "bytes_le [] ys = True"
| "bytes_le (x # xs) [] = False"
| "bytes_le (x # xs) (y # ys) = (byte_of x < byte_of y \<or> (x = y \<and> bytes_le xs ys))"

fun insert_by :: "('a \<Rightarrow> 'a \<Rightarrow> bool) \<Rightarrow> 'a \<Rightarrow> 'a list \<Rightarrow> 'a list" where
  "insert_by le x [] = [x]"
| "insert_by le x (y # ys) = (if le x y then x # y # ys else y # insert_by le x ys)"

definition sort_by :: "('a \<Rightarrow> 'a \<Rightarrow> bool) \<Rightarrow> 'a list \<Rightarrow> 'a list" where
  "sort_by le xs = foldr (insert_by le) xs []"

definition help_le :: "command_description \<Rightarrow> command_description \<Rightarrow> bool" where
  "help_le a b =
     (if cd_permission a \<noteq> cd_permission b
      then perm_level (cd_permission a) < perm_level (cd_permission b)
      else bytes_le (cd_name a) (cd_name b))"

definition aliases_of :: "dispatcher \<Rightarrow> string \<Rightarrow> string list" where
  "aliases_of d name = map fst (filter (\<lambda>(a, c). c = name) (dp_aliases d))"

definition describe :: "dispatcher \<Rightarrow> string \<times> entry \<Rightarrow> command_description" where
  "describe d ne =
     (case ne of (name, e) \<Rightarrow>
      let shortcuts = sort_by bytes_le (aliases_of d name) in
      \<lparr>cd_name = name,
       cd_description = en_description e @
         (if shortcuts = [] then []
          else '' (aliases: '' @ join_with '', '' (map (\<lambda>s. ''/'' @ s) shortcuts) @ '')''),
       cd_permission = en_required e\<rparr>)"

definition help_listing :: "authority \<Rightarrow> dispatcher \<Rightarrow> user_id \<Rightarrow> chat_id \<Rightarrow> command_description list" where
  "help_listing a d u c =
     sort_by help_le (map (describe d) (filter (\<lambda>(_, e). can_run a u c (en_required e)) (dp_commands d)))"

definition reply :: "'w deps \<Rightarrow> command_request \<Rightarrow> string \<Rightarrow> ('w, unit res option) state" where
  "reply D req html = do { r \<leftarrow> de_send D (cr_chat req) html; finish r }"

definition stats_handler :: "'w deps \<Rightarrow> command_request \<Rightarrow> ('w, unit res option) state" where
  "stats_handler D req = do {
     report \<leftarrow> de_stats D;
     (case report of
        Inl e \<Rightarrow> stop e
      | Inr r \<Rightarrow> reply D req (render_stats (de_printer D) (st_metrics r) (st_bot_uptime r)
                  (st_active_downloads r) (st_unavailable_downloaders r)))
   }"

definition version_html :: "string \<Rightarrow> string" where
  "version_html v = render_heading ''cmlb'' @ newline @ ''<b>Version:</b> <code>'' @ v @ ''</code>''"

definition ping_handler :: "'w deps \<Rightarrow> command_request \<Rightarrow> ('w, unit res option) state" where
  "ping_handler D req = do {
     start \<leftarrow> de_clock D;
     send \<leftarrow> de_send D (cr_chat req) (render_heading ''Pong'');
     (case send of
        Inl e \<Rightarrow> stop e
      | Inr m \<Rightarrow> do {
          now \<leftarrow> de_clock D;
          r \<leftarrow> de_edit D (cr_chat req) m (render_heading ''Pong'' @ newline @ ''<b>Latency:</b> <code>''
                @ int_to_string ((now - start) sdiv 1000000) @ '' ms</code>'');
          finish r })
   }"

definition log_notice :: "'w deps \<Rightarrow> command_request \<Rightarrow> string \<Rightarrow> string \<Rightarrow> error_code \<Rightarrow> string \<Rightarrow> ('w, unit res option) state" where
  "log_notice D req title detail code err = do {
     _ \<leftarrow> de_send D (cr_chat req) (render_notice title detail);
     fail code err
   }"

definition log_handler :: "'w deps \<Rightarrow> command_request \<Rightarrow> ('w, unit res option) state" where
  "log_handler D req = do {
     ex \<leftarrow> de_log_exists D;
     (if ex \<noteq> Some True
      then log_notice D req ''Log Unavailable'' ''logs/cmlb.log was not found.''
             EC_Io (''log file not found: '' @ ''logs/cmlb.log'')
      else do {
        size_res \<leftarrow> de_log_size D;
        (case size_res of
           Inl m \<Rightarrow> log_notice D req ''Log Unavailable'' (''Could not inspect logs/cmlb.log: '' @ m)
                     EC_Io (''log stat failed: '' @ m)
         | Inr n \<Rightarrow>
             if n > 50 * 1024 * 1024
             then log_notice D req ''Log Too Large''
                    (''logs/cmlb.log is '' @ format_bytes (pr_quotient (de_printer D)) (wrap64 (int n)) @
                     '', which is over the 50 MiB send limit.'')
                    EC_InvalidArgument ''log file too large to send''
             else do {
               r \<leftarrow> de_send_file D (cr_chat req) ''logs/cmlb.log'' ''cmlb.log'' None;
               finish r })
      })
   }"

definition rss_add_handler :: "'w deps \<Rightarrow> command_request \<Rightarrow> string \<Rightarrow> ('w, unit res option) state" where
  "rss_add_handler D req url =
     (if url = [] then do {
        _ \<leftarrow> de_send D (cr_chat req) (render_usage ''rss add'' ''<url>'');
        fail EC_InvalidArgument ''/rss add requires a url''
      } else do {
        added \<leftarrow> de_rss_add D (default_feed\<lparr>rf_url := url, rf_title := url, rf_chat := cr_chat req, rf_enabled := True\<rparr>);
        (case added of
           Inl e \<Rightarrow> stop e
         | Inr i \<Rightarrow> reply D req (render_success ''RSS Subscription Added''
                     (''Feed id '' @ int_to_string i @ '' is now active.'')))
      })"

definition rss_list_handler :: "'w deps \<Rightarrow> command_request \<Rightarrow> ('w, unit res option) state" where
  "rss_list_handler D req = do {
     feeds \<leftarrow> de_rss_list D (cr_chat req);
     (case feeds of
        Inl e \<Rightarrow> stop e
      | Inr fs \<Rightarrow> reply D req (render_rss_subscriptions fs))
   }"

definition rss_remove_handler :: "'w deps \<Rightarrow> command_request \<Rightarrow> string \<Rightarrow> ('w, unit res option) state" where
  "rss_remove_handler D req tail =
     (let head = fst (split_first_token tail) in
      if head = [] then do {
        _ \<leftarrow> de_send D (cr_chat req) (render_usage ''rss remove'' ''<id>'');
        fail EC_InvalidArgument ''/rss remove requires a feed id''
      } else
        (case stoll head of
           None \<Rightarrow> do {
             _ \<leftarrow> de_send D (cr_chat req) (render_notice ''RSS Error'' ''Feed id must be a number.'');
             fail EC_InvalidArgument ''feed id is not a number''
           }
         | Some feed_id \<Rightarrow> do {
             removed \<leftarrow> de_rss_remove D feed_id (cr_sender req) (cr_chat req);
             (case removed of
                Inl e \<Rightarrow> stop e
              | Inr _ \<Rightarrow> reply D req (render_success ''RSS Subscription Removed''
                          ''Feed will no longer be polled.''))
           }))"

definition rss_handler :: "'w deps \<Rightarrow> command_request \<Rightarrow> ('w, unit res option) state" where
  "rss_handler D req =
     (case split_first_token (cr_arguments req) of (sub, tail) \<Rightarrow>
      if sub = ''add'' then rss_add_handler D req tail
      else if sub = ''list'' then rss_list_handler D req
      else if sub = ''remove'' \<or> sub = ''delete'' \<or> sub = ''del'' then rss_remove_handler D req tail
      else do {
        _ \<leftarrow> de_send D (cr_chat req) (render_usage ''rss'' ''add <url> | list | remove <id>'');
        fail EC_InvalidArgument ''unknown rss subcommand''
      })"

fun run_handler :: "'w deps \<Rightarrow> dispatcher \<Rightarrow> handler \<Rightarrow> command_request \<Rightarrow> ('w, unit res option) state" where
  "run_handler D d H_mirror req =
     require_arg D req (render_usage ''mirror'' ''<url|magnet>'') ''/mirror requires a url'' (start_mirror D req False)"
| "run_handler D d H_qbmirror req =
     require_arg D req (render_usage ''qbmirror'' ''<magnet|torrent_url>'') ''/qbmirror requires a magnet/url''
       (start_mirror D req True)"
| "run_handler D d H_leech req =
     require_arg D req (render_usage ''leech'' ''<url|magnet>'') ''/leech requires a url'' (start_leech D req False)"
| "run_handler D d H_qbleech req =
     require_arg D req (render_usage ''qbleech'' ''<magnet|torrent_url>'') ''/qbleech requires a magnet/url''
       (start_leech D req True)"
| "run_handler D d H_clone req =
     require_arg D req (render_usage ''clone'' ''<drive_url>'') ''/clone requires a drive url''
       (do { r \<leftarrow> de_clone D (drive_request_of req); finish r })"
| "run_handler D d H_count req =
     require_arg D req (render_usage ''count'' ''<drive_url>'') ''/count requires a drive url''
       (do { r \<leftarrow> de_count D (drive_request_of req); finish r })"
| "run_handler D d H_del req =
     require_arg D req (render_usage ''del'' ''<drive_url>'') ''/del requires a drive url''
       (do { r \<leftarrow> de_delete D (drive_request_of req); finish r })"
| "run_handler D d H_cancel req = with_task D req ''cancel'' (de_cancel D)"
| "run_handler D d H_cancelall req = do { r \<leftarrow> de_cancel_all D (cr_chat req); finish r }"
| "run_handler D d H_pause req = with_task D req ''pause'' (de_pause D)"
| "run_handler D d H_resume req = with_task D req ''resume'' (de_resume D)"
| "run_handler D d H_status req = status_handler D req"
| "run_handler D d H_settings req = settings_handler D req"
| "run_handler D d H_botsettings req = botsettings_handler D req"
| "run_handler D d H_help req =
     reply D req (render_help (help_listing (de_authority D) d (cr_sender req) (cr_chat req)))"
| "run_handler D d H_start req = reply D req (render_greeting [])"
| "run_handler D d H_stats req = stats_handler D req"
| "run_handler D d H_version req = reply D req (version_html (de_version D))"
| "run_handler D d H_ping req = ping_handler D req"
| "run_handler D d H_log req = log_handler D req"
| "run_handler D d H_rss req = rss_handler D req"

subsection \<open>Dispatch\<close>

fun required_label :: "permission \<Rightarrow> string" where
  "required_label Anyone = ''anyone''"
| "required_label User = ''authorized user''"
| "required_label Admin = ''admin (sudo)''"
| "required_label Owner = ''owner''"

definition resolve_name :: "dispatcher \<Rightarrow> string \<Rightarrow> string" where
  "resolve_name d name = (case map_of (dp_aliases d) name of Some canonical \<Rightarrow> canonical | None \<Rightarrow> name)"

definition dispatch :: "'w deps \<Rightarrow> dispatcher \<Rightarrow> command_request \<Rightarrow> ('w, unit res option) state" where
  "dispatch D d req =
     (let name = resolve_name d (cr_command req) in
      case map_of (dp_commands d) name of
        None \<Rightarrow> do {
          _ \<leftarrow> de_send D (cr_chat req) (render_notice ''Unknown Command''
                (''/'' @ truncate_for_display name 64 @
                 '' is not registered. Use /help to see available commands.''));
          fail EC_InvalidArgument (''Unknown command: '' @ name)
        }
      | Some e \<Rightarrow>
          if \<not> can_run (de_authority D) (cr_sender req) (cr_chat req) (en_required e) then do {
            _ \<leftarrow> de_send D (cr_chat req) (render_notice ''Permission Denied''
                  (''/'' @ name @ '' requires '' @ required_label (en_required e) @ '' access.''));
            fail EC_PermissionDenied (''Sender lacks permission for command: '' @ name)
          }
          else run_handler D d (en_handler e) req)"

subsection \<open>The table\<close>

fun handler_level :: "handler \<Rightarrow> permission" where
  "handler_level H_settings = Anyone"
| "handler_level H_help = Anyone"
| "handler_level H_start = Anyone"
| "handler_level H_version = Anyone"
| "handler_level H_ping = Anyone"
| "handler_level H_del = Admin"
| "handler_level H_cancelall = Admin"
| "handler_level H_botsettings = Admin"
| "handler_level H_log = Owner"
| "handler_level _ = User"

lemmas builtins_defs = builtins_def register_builtins_def register_command_def register_alias_def

lemma builtin_names: "map fst (dp_commands builtins) =
    [''mirror'', ''qbmirror'', ''leech'', ''qbleech'', ''clone'', ''count'', ''del'', ''cancel'',
     ''cancelall'', ''pause'', ''resume'', ''status'', ''settings'', ''botsettings'', ''help'', ''start'',
     ''stats'', ''version'', ''ping'', ''log'', ''rss'']"
  by (simp add: builtins_defs)

lemma builtin_distinct: "distinct (map fst (dp_commands builtins))"
  unfolding builtin_names by simp

lemma builtin_levels: "\<forall>(n, e) \<in> set (dp_commands builtins). en_required e = handler_level (en_handler e)"
  by (simp add: builtins_defs)

lemma builtin_level: "map_of (dp_commands builtins) n = Some e \<Longrightarrow> en_required e = handler_level (en_handler e)"
  using builtin_levels by (auto dest: map_of_SomeD)

lemma builtin_names_plain: "n \<in> set (map fst (dp_commands builtins)) \<Longrightarrow> no_angle n"
  unfolding builtin_names by auto

subsection \<open>What a request can reach\<close>

text \<open>
  Two sets of collaborators that agree on what the sender of a request may use: messages to the
  chat of the request, the sender's own settings, use cases of the sender's level for the sender and
  the chat of the request, and nothing else.
\<close>

definition same_reach :: "command_request \<Rightarrow> 'w deps \<Rightarrow> 'w deps \<Rightarrow> bool" where
  "same_reach req D D' =
     (let u = cr_sender req; c = cr_chat req; may = can_run (de_authority D) u c in
      de_authority D' = de_authority D \<and> de_printer D' = de_printer D \<and> de_version D' = de_version D \<and>
      de_send D' c = de_send D c \<and> de_edit D' c = de_edit D c \<and>
      de_send_keyboard D' c = de_send_keyboard D c \<and> de_clock D' = de_clock D \<and>
      de_update_user D' u (Some (\<lambda>r. r)) = de_update_user D u (Some (\<lambda>r. r)) \<and>
      (may User \<longrightarrow>
        (\<forall>r. mr_user r = u \<longrightarrow> mr_chat r = c \<longrightarrow> de_mirror D' r = de_mirror D r) \<and>
        (\<forall>r. lr_user r = u \<longrightarrow> lr_chat r = c \<longrightarrow> de_leech D' r = de_leech D r) \<and>
        (\<forall>r. dr_user r = u \<longrightarrow> dr_chat r = c \<longrightarrow> de_clone D' r = de_clone D r) \<and>
        (\<forall>r. dr_user r = u \<longrightarrow> dr_chat r = c \<longrightarrow> de_count D' r = de_count D r) \<and>
        (\<forall>r. tr_chat r = c \<longrightarrow> de_cancel D' r = de_cancel D r) \<and>
        (\<forall>r. tr_chat r = c \<longrightarrow> de_pause D' r = de_pause D r) \<and>
        (\<forall>r. tr_chat r = c \<longrightarrow> de_resume D' r = de_resume D r) \<and>
        (\<forall>r. sr_user r = u \<longrightarrow> sr_chat r = c \<longrightarrow> (sr_include_all_users r \<longrightarrow> may Admin) \<longrightarrow>
             de_status D' r = de_status D r) \<and>
        de_stats D' = de_stats D \<and>
        (\<forall>f. rf_chat f = c \<longrightarrow> de_rss_add D' f = de_rss_add D f) \<and>
        de_rss_list D' c = de_rss_list D c \<and> (\<forall>i. de_rss_remove D' i u c = de_rss_remove D i u c)) \<and>
      (may Admin \<longrightarrow>
        (\<forall>r. dr_user r = u \<longrightarrow> dr_chat r = c \<longrightarrow> de_delete D' r = de_delete D r) \<and>
        de_cancel_all D' c = de_cancel_all D c \<and>
        de_update_bot D' (Some (\<lambda>r. r)) = de_update_bot D (Some (\<lambda>r. r))) \<and>
      (may Owner \<longrightarrow> de_log_exists D' = de_log_exists D \<and> de_log_size D' = de_log_size D \<and>
        de_send_file D' c = de_send_file D c))"

lemmas handler_defs = require_arg_def start_mirror_def start_leech_def drive_request_of_def with_task_def
  status_handler_def settings_handler_def botsettings_handler_def reply_def stats_handler_def
  ping_handler_def log_notice_def log_handler_def rss_add_handler_def rss_list_handler_def
  rss_remove_handler_def rss_handler_def

lemma run_handler_reach:
  assumes "same_reach req D D'" "can_run (de_authority D) (cr_sender req) (cr_chat req) (handler_level h)"
  shows "run_handler D' d h req = run_handler D d h req"
  using assms unfolding same_reach_def Let_def
  by (cases h) (simp_all add: handler_defs Let_def cong: if_cong sum.case_cong option.case_cong prod.case_cong)

subsection \<open>Sorting\<close>

lemma set_insert_by [simp]: "set (insert_by le x xs) = insert x (set xs)"
  by (induction xs) auto

lemma set_sort_by [simp]: "set (sort_by le xs) = set xs"
  by (induction xs) (auto simp: sort_by_def)

lemma sort_by_map: "(\<And>x y. le' (f x) (f y) = le x y) \<Longrightarrow> map f (sort_by le xs) = sort_by le' (map f xs)"
proof -
  assume h: "\<And>x y. le' (f x) (f y) = le x y"
  have i: "map f (insert_by le x ys) = insert_by le' (f x) (map f ys)" for x ys
    by (induction ys) (auto simp: h)
  show ?thesis by (induction xs) (auto simp: sort_by_def i)
qed

lemma distinct_insert_by: "distinct (map f (insert_by le x xs)) = distinct (map f (x # xs))"
  by (induction xs) auto

lemma distinct_sort_by: "distinct (map f (sort_by le xs)) = distinct (map f xs)"
proof (induction xs)
  case (Cons x xs)
  have "f ` set (sort_by le xs) = f ` set xs" by simp
  with Cons show ?case
    using distinct_insert_by [of f le x "sort_by le xs"] by (simp add: sort_by_def)
qed (simp add: sort_by_def)

lemma sorted_insert_by:
  assumes "\<And>a b. le a b \<or> le b a" "\<And>a b c. le a b \<Longrightarrow> le b c \<Longrightarrow> le a c" "sorted_wrt le xs"
  shows "sorted_wrt le (insert_by le x xs)"
  using assms(3)
proof (induction xs)
  case (Cons y ys)
  then show ?case using assms(1) [of x y] assms(2) by auto
qed simp

lemma sorted_sort_by:
  assumes "\<And>a b. le a b \<or> le b a" "\<And>a b c. le a b \<Longrightarrow> le b c \<Longrightarrow> le a c"
  shows "sorted_wrt le (sort_by le xs)"
  by (induction xs) (auto simp: sort_by_def intro!: sorted_insert_by assms(1) dest: assms(2))

lemma bytes_le_total: "bytes_le xs ys \<or> bytes_le ys xs"
proof (induction xs ys rule: bytes_le.induct)
  case (3 x xs y ys)
  then show ?case using linorder_cases [of "byte_of x" "byte_of y"] of_char_eq_iff by fastforce
qed auto

lemma bytes_le_trans: "bytes_le xs ys \<Longrightarrow> bytes_le ys zs \<Longrightarrow> bytes_le xs zs"
proof (induction xs ys arbitrary: zs rule: bytes_le.induct)
  case (3 x xs y ys)
  then show ?case by (cases zs) auto
qed auto

lemma help_le_total: "help_le a b \<or> help_le b a"
proof (cases "cd_permission a = cd_permission b")
  case True
  with bytes_le_total [of "cd_name a" "cd_name b"] show ?thesis by (simp add: help_le_def)
next
  case False
  then have "perm_level (cd_permission a) \<noteq> perm_level (cd_permission b)" by simp
  then consider "perm_level (cd_permission a) < perm_level (cd_permission b)"
    | "perm_level (cd_permission b) < perm_level (cd_permission a)" by linarith
  then show ?thesis using False by cases (simp_all add: help_le_def)
qed

lemma help_le_trans: "help_le a b \<Longrightarrow> help_le b c \<Longrightarrow> help_le a c"
  by (auto simp: help_le_def intro: bytes_le_trans split: if_splits)

lemma help_names:
  "set (map cd_name (help_listing a d u c)) = {n. \<exists>e. (n, e) \<in> set (dp_commands d) \<and> can_run a u c (en_required e)}"
  by (force simp: help_listing_def describe_def Let_def split: prod.splits)

lemma help_distinct: "distinct (map fst (dp_commands d)) \<Longrightarrow> distinct (map cd_name (help_listing a d u c))"
proof -
  assume "distinct (map fst (dp_commands d))"
  then have "distinct (map fst (filter (\<lambda>(_, e). can_run a u c (en_required e)) (dp_commands d)))"
    by (rule distinct_map_filter)
  moreover have "cd_name \<circ> describe d = fst"
    by (rule ext) (simp add: describe_def Let_def split: prod.splits)
  ultimately show ?thesis by (simp add: help_listing_def distinct_sort_by)
qed

subsection \<open>Properties\<close>

text \<open>
  C5. A command reaches only what its sender may use. If two sets of collaborators agree on messages
  to the chat of the request, on the sender's own settings and on the use cases of the sender's
  permission level called for that sender and that chat, then every command behaves the same with
  both: no command of any text can call anything else, act for another user or chat, or show all
  users' tasks to a sender who is not an admin.
\<close>

theorem dispatch_reaches_only_permitted:
  assumes "same_reach req D D'"
  shows "dispatch D' builtins req = dispatch D builtins req"
proof -
  have a: "de_authority D' = de_authority D" "de_send D' (cr_chat req) = de_send D (cr_chat req)"
    using assms by (simp_all add: same_reach_def Let_def)
  show ?thesis
  proof (cases "map_of (dp_commands builtins) (resolve_name builtins (cr_command req))")
    case None
    with a show ?thesis by (simp add: dispatch_def Let_def)
  next
    case (Some e)
    show ?thesis
    proof (cases "can_run (de_authority D) (cr_sender req) (cr_chat req) (en_required e)")
      case True
      with run_handler_reach [OF assms] builtin_level [OF Some] Some a show ?thesis
        by (simp add: dispatch_def Let_def)
    next
      case False
      with Some a show ?thesis by (simp add: dispatch_def Let_def)
    qed
  qed
qed

definition example_authority :: authority where
  "example_authority = \<lparr>owner = UserId 1, sudo_users = [UserId 2], authorized_chats = [ChatId 100]\<rparr>"

text \<open>Collaborators over a counter of calls: a message is one call, every use case fails.\<close>

definition counting_deps :: "nat deps" where
  "counting_deps =
     (let tick = State (\<lambda>n. (Inr (MessageId (int n)), Suc n)); no = State (\<lambda>n. (Inl (mk_error EC_NotFound []), n));
          no' = State (\<lambda>n. (Some (Inl (mk_error EC_NotFound [])), n)) in
      \<lparr>de_authority = example_authority, de_printer = floor_printer, de_version = ''1'',
       de_send = (\<lambda>_ _. tick), de_edit = (\<lambda>_ _ _. State (\<lambda>n. (Inr (), n))), de_send_keyboard = (\<lambda>_ _ _. tick),
       de_send_file = (\<lambda>_ _ _ _. tick), de_clock = State (\<lambda>n. (0, n)),
       de_log_exists = State (\<lambda>n. (Some True, n)), de_log_size = State (\<lambda>n. (Inr 1, n)),
       de_mirror = (\<lambda>_. no'), de_leech = (\<lambda>_. no'), de_clone = (\<lambda>_. State (\<lambda>n. (Inl (mk_error EC_NotFound []), n))),
       de_count = (\<lambda>_. State (\<lambda>n. (Inl (mk_error EC_NotFound []), n))), de_delete = (\<lambda>_. no), de_cancel = (\<lambda>_. no),
       de_cancel_all = (\<lambda>_. State (\<lambda>n. (Inl (mk_error EC_NotFound []), n))), de_pause = (\<lambda>_. no), de_resume = (\<lambda>_. no),
       de_status = (\<lambda>_. no), de_stats = State (\<lambda>n. (Inl (mk_error EC_NotFound []), n)),
       de_update_user = (\<lambda>_ _. State (\<lambda>n. (Inl (mk_error EC_NotFound []), n))),
       de_update_bot = (\<lambda>_. State (\<lambda>n. (Inl (mk_error EC_NotFound []), n))),
       de_rss_add = (\<lambda>_. State (\<lambda>n. (Inl (mk_error EC_NotFound []), n))),
       de_rss_list = (\<lambda>_. State (\<lambda>n. (Inl (mk_error EC_NotFound []), n))),
       de_rss_remove = (\<lambda>_ _ _. State (\<lambda>n. (Inl (mk_error EC_NotFound []), n)))\<rparr>)"

definition example_request :: "string \<Rightarrow> string \<Rightarrow> command_request" where
  "example_request cmd args = \<lparr>cr_command = cmd, cr_arguments = args, cr_full_text = [],
     cr_sender = UserId 3, cr_chat = ChatId 100, cr_source_message = MessageId 5\<rparr>"

theorem dispatch_reaches_only_permitted_witness:
  "dispatch (counting_deps\<lparr>de_delete := (\<lambda>_. State (\<lambda>n. (Inr (), n + 7)))\<rparr>) builtins (example_request ''del'' ''x'')
     = dispatch counting_deps builtins (example_request ''del'' ''x'')"
  by (rule dispatch_reaches_only_permitted)
     (simp add: same_reach_def counting_deps_def example_request_def can_run_def permission_of_def
        example_authority_def Let_def)

text \<open>
  A command that is not registered, or that the sender may not run, does exactly two things: it
  sends one notice to the chat of the request, and it returns \<open>InvalidArgument\<close> or
  \<open>PermissionDenied\<close>, whether or not the notice could be sent.
\<close>

theorem dispatch_refuses_with_one_notice:
  "(map_of (dp_commands d) (resolve_name d (cr_command req)) = None \<longrightarrow>
      (\<exists>html. dispatch D d req = do {
         _ \<leftarrow> de_send D (cr_chat req) html;
         State_Monad.return (Some (Inl (mk_error EC_InvalidArgument
           (''Unknown command: '' @ resolve_name d (cr_command req))))) })) \<and>
   (\<forall>e. map_of (dp_commands d) (resolve_name d (cr_command req)) = Some e \<longrightarrow>
      \<not> can_run (de_authority D) (cr_sender req) (cr_chat req) (en_required e) \<longrightarrow>
      (\<exists>html. dispatch D d req = do {
         _ \<leftarrow> de_send D (cr_chat req) html;
         State_Monad.return (Some (Inl (mk_error EC_PermissionDenied
           (''Sender lacks permission for command: '' @ resolve_name d (cr_command req))))) }))"
  by (auto simp: dispatch_def Let_def fail_def)

theorem dispatch_refuses_with_one_notice_witness:
  "run_state (dispatch counting_deps builtins (example_request ''del'' ''x'')) 4 =
     (Some (Inl (mk_error EC_PermissionDenied ''Sender lacks permission for command: del'')), 5)"
proof -
  have "resolve_name builtins ''del'' = ''del''" by (simp add: resolve_name_def builtins_defs)
  moreover obtain e where e: "map_of (dp_commands builtins) ''del'' = Some e" "en_required e = Admin"
    by (simp add: builtins_defs)
  ultimately obtain html where "dispatch counting_deps builtins (example_request ''del'' ''x'') = do {
      _ \<leftarrow> de_send counting_deps (cr_chat (example_request ''del'' ''x'')) html;
      State_Monad.return (Some (Inl (mk_error EC_PermissionDenied
        (''Sender lacks permission for command: '' @ ''del'')))) }"
    using dispatch_refuses_with_one_notice [of builtins "example_request ''del'' ''x''" counting_deps]
    by (auto simp: counting_deps_def example_request_def can_run_def permission_of_def
        example_authority_def Let_def)
  then show ?thesis by (simp add: run_simps counting_deps_def Let_def)
qed

text \<open>
  \<open>/help\<close> lists exactly the commands the sender can run, each once, ordered by permission level
  and then by name, and the message is balanced HTML.
\<close>

theorem help_lists_runnable_commands:
  "set (map cd_name (help_listing a builtins u c)) =
     {n. \<exists>e. map_of (dp_commands builtins) n = Some e \<and> can_run a u c (en_required e)} \<and>
   distinct (map cd_name (help_listing a builtins u c)) \<and>
   sorted_wrt help_le (help_listing a builtins u c) \<and>
   balanced_html (render_help (help_listing a builtins u c))"
proof (intro conjI)
  show "set (map cd_name (help_listing a builtins u c)) =
     {n. \<exists>e. map_of (dp_commands builtins) n = Some e \<and> can_run a u c (en_required e)}"
    unfolding help_names using builtin_distinct by (auto simp: map_of_eq_Some_iff)
  show "distinct (map cd_name (help_listing a builtins u c))"
    by (rule help_distinct [OF builtin_distinct])
  show "sorted_wrt help_le (help_listing a builtins u c)"
    unfolding help_listing_def by (rule sorted_sort_by [OF help_le_total help_le_trans])
  have "no_angle (cd_name x)" if "x \<in> set (help_listing a builtins u c)" for x
  proof -
    have "cd_name x \<in> set (map cd_name (help_listing a builtins u c))" using that by simp
    then have "cd_name x \<in> set (map fst (dp_commands builtins))" unfolding help_names by force
    then show ?thesis by (rule builtin_names_plain)
  qed
  then show "balanced_html (render_help (help_listing a builtins u c))"
    by (intro neutral_balanced neutral_help) (simp add: list_all_iff)
qed

end
