(* ===== verification/Show_Status.thy ===== *)
theory Show_Status
  imports Command_Dispatcher
begin

text \<open>
  The read-only use cases \<open>src/application/show_status.cpp\<close> and \<open>src/application/show_stats.cpp\<close>.
  They run in the world of the application layer; the host metrics, the uptime and the snapshot of a
  download that is asked for without a deadline are further ports.
\<close>

record status_ports =
  sp_snapshot :: "effect list \<Rightarrow> system_snapshot"
  sp_uptime :: "effect list \<Rightarrow> int"
  sp_status :: "effect list \<Rightarrow> downloader_kind \<Rightarrow> gid \<Rightarrow> download_status res"

subsection \<open>Texts\<close>

definition status_footer :: "printer \<Rightarrow> system_snapshot \<Rightarrow> int \<Rightarrow> string" where
  "status_footer pr metrics bot_uptime =
     (let fb = format_bytes (pr_quotient pr) in
      ''<b><u>System</u></b>'' @ newline @
      ''<b>CPU:</b> <code>'' @ pr_fixed pr 1 (sm_cpu_usage_percent metrics) @ ''%</code> | '' @
      ''<b>RAM:</b> <code>'' @ fb (sm_ram_used_bytes metrics) @ ''/'' @ fb (sm_ram_total_bytes metrics) @
      ''</code> | '' @
      ''<b>Disk:</b> <code>'' @ fb (sm_disk_used_bytes metrics) @ ''/'' @ fb (sm_disk_total_bytes metrics) @
      ''</code>'' @ newline @
      ''<b>Bot uptime:</b> <code>'' @ format_duration bot_uptime @ ''</code>'')"

definition status_idle :: "printer \<Rightarrow> system_snapshot \<Rightarrow> int \<Rightarrow> string" where
  "status_idle pr metrics bot_uptime =
     ''<b><u>Status</u></b>'' @ newline @
     ''<blockquote>No active tasks. New mirror and leech jobs will appear here.</blockquote>'' @ newline @ newline @
     status_footer pr metrics bot_uptime"

definition render_downloader_status :: "printer \<Rightarrow> download_status \<Rightarrow> nat \<Rightarrow> string" where
  "render_downloader_status pr s i =
     (let name = escape_html (if dl_name s = [] then ''(unnamed download)'' else dl_name s) in
      ''<b>'' @ nat_digits i @ ''.</b> <code>'' @ name @ ''</code>'' @ newline @ transfer_lines pr s)"

fun numbered :: "printer \<Rightarrow> nat \<Rightarrow> download_status list \<Rightarrow> string" where
  "numbered pr i [] = []"
| "numbered pr i (s # ss) =
     (if i \<noteq> 0 then newline @ newline else []) @ render_downloader_status pr s (i + 1) @ numbered pr (i + 1) ss"

definition render_status_list :: "printer \<Rightarrow> download_status list \<Rightarrow> system_snapshot \<Rightarrow> int \<Rightarrow> string" where
  "render_status_list pr active_list metrics bot_uptime =
     (if active_list = [] then status_idle pr metrics bot_uptime
      else let shown = min (length active_list) 10 in
        ''<b><u>Active Tasks</u></b>'' @ newline @ numbered pr 0 (take shown active_list) @
        (if length active_list > shown
         then newline @ newline @ ''<i>... and '' @ nat_digits (length active_list - shown) @ '' more task(s)</i>''
         else []) @ newline @ newline @ status_footer pr metrics bot_uptime)"

definition render_task_without_downloader :: "printer \<Rightarrow> task \<Rightarrow> system_snapshot \<Rightarrow> int \<Rightarrow> string" where
  "render_task_without_downloader pr t metrics bot_uptime =
     ''<b><u>Task Status</u></b>'' @ newline @
     ''<b>Task:</b> <code>'' @ task_value (md_id (metadata t)) @ ''</code>'' @ newline @
     ''<b>State:</b> <code>'' @ task_state_to_string (state t) @ ''</code>'' @ newline @
     ''<b>Source:</b>'' @ newline @ ''<blockquote>'' @
     escape_html (truncate_for_display (md_source_url (metadata t)) 200) @ ''</blockquote>'' @ newline @ newline @
     status_footer pr metrics bot_uptime"

definition status_not_found :: "task_id \<Rightarrow> string" where
  "status_not_found i =
     ''<b><u>Status</u></b>'' @ newline @ ''<b>Task:</b> <code>'' @ task_value i @ ''</code>'' @ newline @
     ''<blockquote>Task was not found.</blockquote>''"

subsection \<open>The status use case\<close>

definition visible_to_request :: "task \<Rightarrow> status_request \<Rightarrow> bool" where
  "visible_to_request t req =
     (if md_chat (metadata t) \<noteq> sr_chat req then False
      else sr_include_all_users req \<or> md_user (metadata t) = sr_user req)"

definition bound_download :: "task \<Rightarrow> (downloader_kind \<times> gid) option" where
  "bound_download t =
     (case (downloader_id t, downloader_kind t) of
        (None, _) \<Rightarrow> None
      | (Some g, DK_None) \<Rightarrow> None
      | (Some g, dk) \<Rightarrow> Some (dk, g))"

definition ask_status ::
    "('e, 's) ports \<Rightarrow> status_ports \<Rightarrow> downloader_kind \<Rightarrow> gid \<Rightarrow> ('s world, download_status res) state" where
  "ask_status P SP dk g = await P (\<lambda>h. sp_status SP h dk g) (E_Status dk g)"

definition send_result :: "('e, 's) ports \<Rightarrow> chat_id \<Rightarrow> string \<Rightarrow> ('s world, unit res) state" where
  "send_result P c html = do {
     sent \<leftarrow> send_html P c html;
     State_Monad.return (case sent of Inl e \<Rightarrow> Inl e | Inr _ \<Rightarrow> Inr ())
   }"

definition status_of_one ::
    "('e, 's) ports \<Rightarrow> status_ports \<Rightarrow> printer \<Rightarrow> status_request \<Rightarrow> system_snapshot \<Rightarrow> int \<Rightarrow> task_id \<Rightarrow>
     ('s world, unit res) state" where
  "status_of_one P SP pr req snapshot uptime i = do {
     loaded \<leftarrow> find_task P i;
     (case loaded of
        Inl e \<Rightarrow> State_Monad.return (Inl e)
      | Inr None \<Rightarrow> do {
          _ \<leftarrow> send_html P (sr_chat req) (status_not_found i);
          State_Monad.return (Inl (mk_error EC_NotFound ''status: task not found''))
        }
      | Inr (Some t) \<Rightarrow>
          if \<not> visible_to_request t req
          then State_Monad.return (Inl (mk_error EC_PermissionDenied
                 ''status: task is not visible to this requester''))
          else (case bound_download t of
             None \<Rightarrow> send_result P (sr_chat req) (render_task_without_downloader pr t snapshot uptime)
           | Some (dk, g) \<Rightarrow> do {
               status \<leftarrow> ask_status P SP dk g;
               (case status of
                  Inl e \<Rightarrow> State_Monad.return (Inl e)
                | Inr st \<Rightarrow> send_result P (sr_chat req) (render_status_list pr [st] snapshot uptime))
             }))
   }"

fun collect_statuses ::
    "('e, 's) ports \<Rightarrow> status_ports \<Rightarrow> status_request \<Rightarrow> task list \<Rightarrow> download_status list \<Rightarrow>
     ('s world, download_status list) state" where
  "collect_statuses P SP req [] acc = State_Monad.return acc"
| "collect_statuses P SP req (t # ts) acc =
     (if \<not> visible_to_request t req then collect_statuses P SP req ts acc
      else (case bound_download t of
         None \<Rightarrow> collect_statuses P SP req ts acc
       | Some (dk, g) \<Rightarrow> do {
           status \<leftarrow> ask_status P SP dk g;
           (case status of
              Inl e \<Rightarrow> collect_statuses P SP req ts acc
            | Inr st \<Rightarrow> collect_statuses P SP req ts (acc @ [st]))
         }))"

definition show_status ::
    "('e, 's) ports \<Rightarrow> status_ports \<Rightarrow> printer \<Rightarrow> status_request \<Rightarrow> ('s world, unit res) state" where
  "show_status P SP pr req = do {
     snapshot \<leftarrow> gets (\<lambda>w. sp_snapshot SP (w_trace w));
     uptime \<leftarrow> gets (\<lambda>w. sp_uptime SP (w_trace w));
     (case sr_task_id req of
        Some i \<Rightarrow> status_of_one P SP pr req snapshot uptime i
      | None \<Rightarrow> do {
          incomplete \<leftarrow> incomplete_tasks P;
          (case incomplete of
             Inl e \<Rightarrow> State_Monad.return (Inl e)
           | Inr ts \<Rightarrow> do {
               ds \<leftarrow> collect_statuses P SP req ts [];
               send_result P (sr_chat req) (render_status_list pr ds snapshot uptime)
             })
        })
   }"

subsection \<open>Statistics\<close>

text \<open>\<open>int\<close> addition of the two counts; each backend is asked for its number of active downloads.\<close>

definition add_backend_stats :: "string \<Rightarrow> int res \<Rightarrow> stats_report \<Rightarrow> stats_report" where
  "add_backend_stats name stats report =
     (case stats of
        Inl e \<Rightarrow> report\<lparr>st_unavailable_downloaders := st_unavailable_downloaders report @ [name]\<rparr>
      | Inr n \<Rightarrow> report\<lparr>st_active_downloads := st_active_downloads report + n\<rparr>)"

definition show_stats ::
    "(downloader_kind \<Rightarrow> ('w, int res) state) \<Rightarrow> ('w, system_snapshot) state \<Rightarrow> ('w, int) state \<Rightarrow>
     ('w, stats_report res) state" where
  "show_stats active_count snapshot uptime = do {
     s \<leftarrow> snapshot;
     u \<leftarrow> uptime;
     a \<leftarrow> active_count DK_Aria2;
     q \<leftarrow> active_count DK_Qbittorrent;
     State_Monad.return (Inr (add_backend_stats ''qbittorrent'' q (add_backend_stats ''aria2'' a
       \<lparr>st_metrics = s, st_bot_uptime = u, st_active_downloads = 0, st_unavailable_downloaders = []\<rparr>)))
   }"

lemma show_stats_degrades:
  assumes "run_state snapshot w = (s, w1)" "run_state uptime w1 = (u, w2)"
    "run_state (active_count DK_Aria2) w2 = (a, w3)" "run_state (active_count DK_Qbittorrent) w3 = (q, w4)"
  shows "\<exists>rep. run_state (show_stats active_count snapshot uptime) w = (Inr rep, w4) \<and>
    st_active_downloads rep = (case a of Inl _ \<Rightarrow> 0 | Inr n \<Rightarrow> n) + (case q of Inl _ \<Rightarrow> 0 | Inr n \<Rightarrow> n) \<and>
    (''aria2'' \<in> set (st_unavailable_downloaders rep) \<longleftrightarrow> isl a) \<and>
    (''qbittorrent'' \<in> set (st_unavailable_downloaders rep) \<longleftrightarrow> isl q)"
  using assms by (cases a; cases q) (simp_all add: show_stats_def add_backend_stats_def run_simps)

subsection \<open>The texts agree with the shared renderer\<close>

lemma status_footer_eq: "status_footer = render_metrics_footer"
  by (intro ext) (simp add: status_footer_def render_metrics_footer_def render_heading_def escape_char_def Let_def)

lemma status_idle_eq: "status_idle = render_no_active_tasks"
  by (intro ext)
    (simp add: status_idle_def render_no_active_tasks_def status_footer_eq render_heading_def render_quote_def
       escape_char_def)

lemma neutral_downloader_status: "plain_printer pr \<Longrightarrow> tag_neutral (render_downloader_status pr s i)"
  using neutral_transfer [of pr s] by (simp add: tag_neutral_def render_downloader_status_def close_tag_def Let_def)

lemma neutral_numbered: "plain_printer pr \<Longrightarrow> tag_neutral (numbered pr i ss)"
  by (induction ss arbitrary: i)
    (simp_all add: neutral_Nil neutral_append neutral_downloader_status neutral_plain)

lemma balanced_status_list: "plain_printer pr \<Longrightarrow> balanced_html (render_status_list pr ds m u)"
proof (rule neutral_balanced, cases "ds = []")
  case True
  assume "plain_printer pr"
  with True neutral_status [of pr "[]" m u] show "tag_neutral (render_status_list pr ds m u)"
    by (simp add: render_status_list_def status_idle_eq render_status_def)
next
  case False
  assume p: "plain_printer pr"
  with False show "tag_neutral (render_status_list pr ds m u)"
    using neutral_numbered [OF p] neutral_footer [OF p, of m u]
    by (simp add: tag_neutral_def render_status_list_def status_footer_eq close_tag_def Let_def)
qed

subsection \<open>What a status request looks at\<close>

text \<open>
  The calls a request may make, given the stored tasks: lookups, a snapshot of the download of a
  task of the chat that is the requester's own or that an admin asks about, and messages to the
  chat. Uploads of other coroutines may finish meanwhile.
\<close>

definition may_ask :: "(task_id \<Rightarrow> task option) \<Rightarrow> status_request \<Rightarrow> effect \<Rightarrow> bool" where
  "may_ask V req e =
     (case e of
        E_Find i r \<Rightarrow> True
      | E_Incomplete r \<Rightarrow> True
      | E_Status dk g r \<Rightarrow> (\<exists>i t. V i = Some t \<and> md_chat (metadata t) = sr_chat req \<and>
          (sr_include_all_users req \<or> md_user (metadata t) = sr_user req) \<and>
          downloader_id t = Some g \<and> downloader_kind t = dk)
      | E_Send c html r \<Rightarrow> c = sr_chat req
      | E_UploadDone f r \<Rightarrow> True
      | _ \<Rightarrow> False)"

definition only_asks :: "(task_id \<Rightarrow> task option) \<Rightarrow> status_request \<Rightarrow> 's world \<Rightarrow> 's world \<Rightarrow> bool" where
  "only_asks V req w0 w =
     (w_store w = w_store w0 \<and> (\<exists>es. w_trace w = es @ w_trace w0 \<and> list_all (may_ask V req) es))"

lemma only_asks_refl: "only_asks V req w w"
  by (simp add: only_asks_def)

lemma only_asks_suspend:
  fixes w0 w :: "'s world"
  assumes "only_asks V req w0 w"
  shows "only_asks V req w0 (suspend P w)"
proof -
  have ev: "only_asks V req w0 (run_event ev w)" if "only_asks V req w0 w" for ev and w :: "'s world"
    using that by (cases ev) (auto simp: only_asks_def may_ask_def)
  have "only_asks V req w0 (fold run_event evs w)" if "only_asks V req w0 w" for evs and w :: "'s world"
    using that by (induction evs arbitrary: w) (auto simp: ev)
  with assms show ?thesis by (simp add: suspend_def)
qed

lemma only_asks_log: "only_asks V req w0 w \<Longrightarrow> may_ask V req e \<Longrightarrow> only_asks V req w0 (log_effect e w)"
  by (auto simp: only_asks_def log_effect_def)

lemmas only_asks_call = only_asks_suspend [OF only_asks_log]

lemma wp_ask_send:
  "only_asks V req w0 w \<Longrightarrow> wp (send_result P (sr_chat req) html) (\<lambda>_. only_asks V req w0) w"
  by (simp add: send_result_def send_html_def wp_def await_def run_simps Let_def only_asks_call may_ask_def)

lemma bound_downloadD: "bound_download t = Some (dk, g) \<Longrightarrow> downloader_id t = Some g \<and> downloader_kind t = dk"
  by (auto simp: bound_download_def split: option.splits downloader_kind.splits)

lemma may_ask_status:
  assumes "V i = Some (strip t)" "visible_to_request t req" "bound_download t = Some (dk, g)"
  shows "may_ask V req (E_Status dk g r)"
proof -
  have "V i = Some (strip t) \<and> md_chat (metadata (strip t)) = sr_chat req \<and>
      (sr_include_all_users req \<or> md_user (metadata (strip t)) = sr_user req) \<and>
      downloader_id (strip t) = Some g \<and> downloader_kind (strip t) = dk"
    using assms bound_downloadD [OF assms(3)] by (auto simp: visible_to_request_def split: if_splits)
  then show ?thesis unfolding may_ask_def effect.case by blast
qed

lemma wp_ask_status:
  assumes "only_asks V req w0 w" "\<And>r. may_ask V req (E_Status dk g r)"
    and "\<And>r w'. only_asks V req w0 w' \<Longrightarrow> Q r w'"
  shows "wp (ask_status P SP dk g) Q w"
  using assms by (simp add: ask_status_def wp_def await_def Let_def only_asks_call)

lemma wp_collect:
  assumes "only_asks V req w0 w" "\<And>t. t \<in> set ts \<Longrightarrow> \<exists>i. V i = Some (strip t)"
    and Q: "\<And>ds w'. only_asks V req w0 w' \<Longrightarrow> Q ds w'"
  shows "wp (collect_statuses P SP req ts acc) Q w"
  using assms(1,2)
proof (induction ts arbitrary: acc w)
  case Nil
  then show ?case by (simp add: Q)
next
  case (Cons t ts)
  obtain i where i: "V i = Some (strip t)" using Cons.prems(2) by auto
  have rest: "wp (collect_statuses P SP req ts acc') Q w'" if "only_asks V req w0 w'" for acc' w'
    using Cons.IH that Cons.prems(2) by simp
  show ?case
  proof (cases "visible_to_request t req \<and> bound_download t \<noteq> None")
    case True
    then obtain dk g where b: "visible_to_request t req" "bound_download t = Some (dk, g)" by auto
    have "wp (ask_status P SP dk g) (\<lambda>status. wp (case status of
          Inl e \<Rightarrow> collect_statuses P SP req ts acc
        | Inr st \<Rightarrow> collect_statuses P SP req ts (acc @ [st])) Q) w"
      by (rule wp_ask_status [OF Cons.prems(1) may_ask_status [where V = V, OF i b]]) (simp split: sum.split add: rest)
    with b show ?thesis by simp
  next
    case False
    with rest [OF Cons.prems(1)] show ?thesis by (cases "bound_download t") auto
  qed
qed

lemma wp_find_eq:
  "wp (find_task P i) Q w = (let r = repo_find (p_repo P) (p_env P (w_trace w)) i (w_store w)
     in Q r (suspend P (log_effect (E_Find i r) w)))"
  by (simp add: wp_def find_task_def Let_def)

lemma wp_incomplete_eq:
  "wp (incomplete_tasks P) Q w = (let r = repo_incomplete (p_repo P) (p_env P (w_trace w)) (w_store w)
     in Q r (suspend P (log_effect (E_Incomplete r) w)))"
  by (simp add: wp_def incomplete_tasks_def Let_def)

lemma wp_ask_message:
  "only_asks V req w0 w \<Longrightarrow> (\<And>r w'. only_asks V req w0 w' \<Longrightarrow> Q r w') \<Longrightarrow> wp (send_html P (sr_chat req) html) Q w"
  by (simp add: send_html_def wp_def await_def Let_def only_asks_call may_ask_def)

lemma wp_status_of_one:
  fixes w :: "task_row list world"
  assumes ok: "tab_ok fmt (w_store w)" "p_repo P = sqlite_repo fmt"
  shows "wp (status_of_one P SP pr req sn up i) (\<lambda>_. only_asks (tab_view (w_store w)) req w) w"
proof -
  let ?V = "tab_view (w_store w)"
  let ?A = "only_asks ?V req w"
  define r where "r = repo_find (p_repo P) (p_env P (w_trace w)) i (w_store w)"
  let ?w = "suspend P (log_effect (E_Find i r) w)"
  have A: "?A ?w" by (rule only_asks_call [OF only_asks_refl]) (simp add: may_ask_def)
  have tell: "wp (send_html P (sr_chat req) html) (\<lambda>x. ?A) ?w" for html
    by (rule wp_ask_message [OF A])
  have bound: "wp (ask_status P SP dk g) (\<lambda>status. wp (case status of Inl e \<Rightarrow> State_Monad.return (Inl e)
      | Inr st \<Rightarrow> send_result P (sr_chat req) (render_status_list pr [st] sn up)) (\<lambda>_. ?A)) ?w"
    if t: "r = Inr (Some t)" "visible_to_request t req" "bound_download t = Some (dk, g)" for t dk g
  proof -
    have "?V i = Some (strip t)"
      using sq.find_Some(1) [OF ok(1)] t(1) by (simp add: r_def ok(2))
    from may_ask_status [where V = ?V, OF this t(2,3)] show ?thesis
      by (rule wp_ask_status [OF A]) (simp split: sum.split add: wp_ask_send)
  qed
  have "wp (case bound_download t of
       None \<Rightarrow> send_result P (sr_chat req) (render_task_without_downloader pr t sn up)
     | Some (dk, g) \<Rightarrow> do {
         status \<leftarrow> ask_status P SP dk g;
         (case status of
            Inl e \<Rightarrow> State_Monad.return (Inl e)
          | Inr st \<Rightarrow> send_result P (sr_chat req) (render_status_list pr [st] sn up))
       }) (\<lambda>_. ?A) ?w" if "r = Inr (Some t)" "visible_to_request t req" for t
    using bound [OF that] wp_ask_send [OF A] by (cases "bound_download t") auto
  with A tell show ?thesis
    unfolding status_of_one_def wp_bind wp_find_eq Let_def r_def [symmetric]
    by (auto split: sum.split option.split)
qed

lemma wp_status_of_all:
  fixes w :: "task_row list world"
  assumes ok: "tab_ok fmt (w_store w)" "p_repo P = sqlite_repo fmt"
  shows "wp (do {
      incomplete \<leftarrow> incomplete_tasks P;
      (case incomplete of
         Inl e \<Rightarrow> State_Monad.return (Inl e)
       | Inr ts \<Rightarrow> do {
           ds \<leftarrow> collect_statuses P SP req ts [];
           send_result P (sr_chat req) (render_status_list pr ds sn up)
         }) }) (\<lambda>_. only_asks (tab_view (w_store w)) req w) w"
proof -
  let ?V = "tab_view (w_store w)"
  let ?A = "only_asks ?V req w"
  define r where "r = repo_incomplete (p_repo P) (p_env P (w_trace w)) (w_store w)"
  let ?w = "suspend P (log_effect (E_Incomplete r) w)"
  have A: "?A ?w" by (rule only_asks_call [OF only_asks_refl]) (simp add: may_ask_def)
  have "wp (collect_statuses P SP req ts []) (\<lambda>ds. wp (send_result P (sr_chat req)
      (render_status_list pr ds sn up)) (\<lambda>_. ?A)) ?w" if "r = Inr ts" for ts
  proof (rule wp_collect [OF A])
    fix t assume "t \<in> set ts"
    with sq.incomplete_member(1) [OF ok(1)] that show "\<exists>i. ?V i = Some (strip t)"
      unfolding r_def ok(2) by blast
  qed (simp add: wp_ask_send)
  with A show ?thesis
    unfolding wp_bind wp_incomplete_eq Let_def r_def [symmetric] by (auto split: sum.split)
qed

lemma wp_show_status:
  fixes w :: "task_row list world"
  assumes "tab_ok fmt (w_store w)" "p_repo P = sqlite_repo fmt"
  shows "wp (show_status P SP pr req) (\<lambda>_. only_asks (tab_view (w_store w)) req w) w"
  unfolding show_status_def
  using wp_status_of_one [OF assms] wp_status_of_all [OF assms] by (auto split: option.split)

subsection \<open>Property\<close>

text \<open>
  A status request reads and never writes, and looks only at what its sender may see: it leaves
  the stored tasks as they are, asks a download backend only about the download of a stored task of
  the request's own chat which belongs to the requester unless the request is an admin's, and sends
  messages only to that chat.
\<close>

theorem status_reads_only_visible_tasks:
  fixes w w' :: "task_row list world"
  assumes "tab_ok fmt (w_store w)" "p_repo P = sqlite_repo fmt"
    and "run_state (show_status P SP pr req) w = (r, w')"
  shows "w_store w' = w_store w \<and>
    (\<exists>es. w_trace w' = es @ w_trace w \<and> list_all (may_ask (tab_view (w_store w)) req) es)"
  using wp_run [OF wp_show_status [OF assms(1,2)] assms(3)] by (simp add: only_asks_def)

definition example_status_ports :: status_ports where
  "example_status_ports = \<lparr>sp_snapshot = (\<lambda>_. default_snapshot), sp_uptime = (\<lambda>_. 5),
     sp_status = (\<lambda>_ _ _. Inr empty_status)\<rparr>"

theorem status_reads_only_visible_tasks_witness:
  "w_store (snd (run_state (show_status quiet_ports example_status_ports floor_printer
     \<lparr>sr_user = UserId 5, sr_chat = ChatId 100, sr_task_id = None, sr_include_all_users = True\<rparr>) example_world))
   = example_table"
  using status_reads_only_visible_tasks [of epoch_fmt example_world quiet_ports example_status_ports floor_printer
      "\<lparr>sr_user = UserId 5, sr_chat = ChatId 100, sr_task_id = None, sr_include_all_users = True\<rparr>"
      "fst (run_state (show_status quiet_ports example_status_ports floor_printer
     \<lparr>sr_user = UserId 5, sr_chat = ChatId 100, sr_task_id = None, sr_include_all_users = True\<rparr>) example_world)"]
  by (simp add: example_world_def)

end
