(* ===== verification/Callback_Dispatcher.thy ===== *)
theory Callback_Dispatcher
  imports Command_Dispatcher
begin

text \<open>
  \<open>src/presentation/callback_dispatcher.cpp\<close>: the payloads of inline buttons. As in the command
  dispatcher the collaborators are programs over an arbitrary world. A press runs its action, which
  yields an result, a toast text and an alert flag, and then answers the callback query. The two
  keyboard helpers of \<open>src/infrastructure/telegram/messenger.cpp\<close> are here too.
\<close>

record 'w callback_deps =
  cb_cancel :: "task_request \<Rightarrow> ('w, unit res) state"
  cb_pause :: "task_request \<Rightarrow> ('w, unit res) state"
  cb_resume :: "task_request \<Rightarrow> ('w, unit res) state"
  cb_update_user :: "user_id \<Rightarrow> (user_settings \<Rightarrow> user_settings) option \<Rightarrow> ('w, user_settings res) state"
  cb_delete_message :: "chat_id \<Rightarrow> message_id \<Rightarrow> ('w, unit res) state"
  cb_edit_keyboard :: "chat_id \<Rightarrow> message_id \<Rightarrow> string \<Rightarrow> keyboard \<Rightarrow> ('w, unit res) state"
  cb_answer :: "callback_query_id \<Rightarrow> string \<Rightarrow> bool \<Rightarrow> ('w, unit res) state"

definition refresh_close_row :: "string \<Rightarrow> keyboard" where
  "refresh_close_row refresh_data = [[(''Refresh'', refresh_data), (''Close'', ''close'')]]"

definition split_colon :: "string \<Rightarrow> string \<times> string" where
  "split_colon payload =
     (let head = takeWhile (\<lambda>c. c \<noteq> CHR '':'') payload in (head, drop (length head + 1) payload))"

fun next_destination :: "upload_destination \<Rightarrow> upload_destination" where
  "next_destination UD_Telegram = UD_GoogleDrive"
| "next_destination UD_GoogleDrive = UD_Rclone"
| "next_destination UD_Rclone = UD_Telegram"

subsection \<open>Actions\<close>

type_synonym reaction = "unit res \<times> string \<times> bool"

definition failed_reaction :: "app_error \<Rightarrow> reaction" where
  "failed_reaction e = (Inl e, friendly_error_label (err_code e), True)"

definition toast :: "string \<Rightarrow> ('w, reaction) state" where
  "toast s = State_Monad.return (Inr (), s, False)"

definition react :: "unit res \<Rightarrow> string \<Rightarrow> ('w, reaction) state" where
  "react r s = State_Monad.return (case r of Inl e \<Rightarrow> failed_reaction e | Inr _ \<Rightarrow> (Inr (), s, False))"

definition close_action :: "'w callback_deps \<Rightarrow> chat_id \<Rightarrow> message_id \<Rightarrow> ('w, reaction) state" where
  "close_action D chat msg =
     (if message_value msg \<noteq> 0 then do { r \<leftarrow> cb_delete_message D chat msg; react r [] } else toast [])"

definition settings_action ::
    "'w callback_deps \<Rightarrow> chat_id \<Rightarrow> user_id \<Rightarrow> message_id \<Rightarrow> (user_settings \<Rightarrow> user_settings) \<Rightarrow> string \<Rightarrow>
     ('w, reaction) state" where
  "settings_action D chat sender msg mutate ok_text = do {
     res \<leftarrow> cb_update_user D sender (Some mutate);
     (case res of
        Inl e \<Rightarrow> State_Monad.return (failed_reaction e)
      | Inr s \<Rightarrow>
          if message_value msg \<noteq> 0 then do {
            r \<leftarrow> cb_edit_keyboard D chat msg (render_user_settings s) settings_keyboard;
            react r ok_text
          } else toast ok_text)
   }"

definition cycle_upload :: "user_settings \<Rightarrow> user_settings" where
  "cycle_upload s = s\<lparr>us_mirror_destination := next_destination (us_mirror_destination s)\<rparr>"

definition toggle_document :: "user_settings \<Rightarrow> user_settings" where
  "toggle_document s = s\<lparr>us_upload_as_document := \<not> us_upload_as_document s\<rparr>"

definition task_action :: "'w callback_deps \<Rightarrow> chat_id \<Rightarrow> string \<Rightarrow> ('w, reaction) state" where
  "task_action D chat rest =
     (case split_colon rest of (verb, task_id_text) \<Rightarrow>
      let req = \<lparr>tr_task_id = TaskId task_id_text, tr_chat = chat\<rparr> in
      if task_id_text = [] then State_Monad.return (Inr (), ''Invalid task action'', True)
      else if verb = ''cancel'' then do { r \<leftarrow> cb_cancel D req; react r ''Cancelling task'' }
      else if verb = ''pause'' then do { r \<leftarrow> cb_pause D req; react r ''Task paused'' }
      else if verb = ''resume'' then do { r \<leftarrow> cb_resume D req; react r ''Task resumed'' }
      else toast ''Unknown action'')"

text \<open>The refresh toast ends with the UTF-8 bytes of the ellipsis character.\<close>

definition callback_action ::
    "'w callback_deps \<Rightarrow> chat_id \<Rightarrow> user_id \<Rightarrow> message_id \<Rightarrow> string \<Rightarrow> ('w, reaction) state" where
  "callback_action D chat sender msg payload =
     (case split_colon payload of (head, rest) \<Rightarrow>
      if head = ''close'' then close_action D chat msg
      else if head = ''status'' \<and> rest = ''refresh''
      then toast (''Refreshing'' @ [CHR 0xE2, CHR 0x80, CHR 0xA6])
      else if head = ''settings'' then
        (case split_colon rest of (section, action) \<Rightarrow>
         if section = ''upload'' \<and> action = ''cycle''
         then settings_action D chat sender msg cycle_upload ''Upload destination updated''
         else if section = ''doc'' \<and> action = ''toggle''
         then settings_action D chat sender msg toggle_document ''Setting toggled''
         else toast ''Unknown action'')
      else if head = ''task'' then task_action D chat rest
      else toast ''Unknown action'')"

definition callback_dispatch ::
    "'w callback_deps \<Rightarrow> chat_id \<Rightarrow> user_id \<Rightarrow> message_id \<Rightarrow> callback_query_id \<Rightarrow> string \<Rightarrow> ('w, unit res) state" where
  "callback_dispatch D chat sender msg query payload = do {
     (result, ack_text, ack_as_alert) \<leftarrow> callback_action D chat sender msg payload;
     ack \<leftarrow> cb_answer D query ack_text ack_as_alert;
     State_Monad.return
       (case (ack, result) of (Inl e, Inr _) \<Rightarrow> Inl e | _ \<Rightarrow> result)
   }"

subsection \<open>Lemmas\<close>

lemma split_colon_join: "CHR '':'' \<notin> set head \<Longrightarrow> split_colon (head @ CHR '':'' # tail) = (head, tail)"
proof -
  assume "CHR '':'' \<notin> set head"
  then have "takeWhile (\<lambda>c. c \<noteq> CHR '':'') (head @ CHR '':'' # tail) = head"
    by (subst takeWhile_append2) auto
  then show ?thesis by (simp add: split_colon_def)
qed

lemma split_colon_none: "CHR '':'' \<notin> set s \<Longrightarrow> split_colon s = (s, [])"
proof -
  assume "CHR '':'' \<notin> set s"
  then have "takeWhile (\<lambda>c. c \<noteq> CHR '':'') s = s" by (auto simp: takeWhile_eq_all_conv)
  then show ?thesis by (simp only: split_colon_def Let_def) simp
qed

lemma next_destination_cycle:
  "next_destination (next_destination (next_destination d)) = d" "next_destination d \<noteq> d"
  by (cases d; simp)+

lemma toggle_document_twice: "toggle_document (toggle_document s) = s"
  by (simp add: toggle_document_def)

lemmas reaction_defs = close_action_def settings_action_def task_action_def react_def toast_def
  failed_reaction_def

text \<open>A failed action is always shown as an alert with the label of its error code, and an action without failure is a plain toast.\<close>

definition honest_reaction :: "reaction \<Rightarrow> bool" where
  "honest_reaction x =
     (case x of (result, txt, alert) \<Rightarrow>
      (case result of Inl e \<Rightarrow> alert \<and> txt = friendly_error_label (err_code e)
       | Inr _ \<Rightarrow> alert \<longrightarrow> txt = ''Invalid task action''))"

lemma honest_failed [simp]: "honest_reaction (failed_reaction e)"
  by (simp add: honest_reaction_def failed_reaction_def)

lemma wp_honest_react: "wp (react r s) (\<lambda>x _. honest_reaction x) w"
  by (cases r) (simp_all add: react_def honest_reaction_def failed_reaction_def)

lemma wp_honest_toast: "wp (toast s) (\<lambda>x _. honest_reaction x) w"
  by (simp add: toast_def honest_reaction_def)

lemma wp_any: "(\<And>a w'. P a w') \<Longrightarrow> wp m P w"
  by (simp add: wp_def split: prod.splits)

lemma wp_honest_call: "wp (do { r \<leftarrow> m; react r s }) (\<lambda>x _. honest_reaction x) w"
  unfolding wp_bind by (rule wp_any) (rule wp_honest_react)

lemma wp_honest_settings: "wp (settings_action D chat u m f s) (\<lambda>x _. honest_reaction x) w"
  unfolding settings_action_def wp_bind [where f = "\<lambda>res. case res of Inl e \<Rightarrow> _ e | Inr s \<Rightarrow> _ s"]
proof (rule wp_any)
  fix res and w' :: 'a
  show "wp (case res of Inl e \<Rightarrow> State_Monad.return (failed_reaction e)
      | Inr s' \<Rightarrow> if message_value m \<noteq> 0 then do {
            r \<leftarrow> cb_edit_keyboard D chat m (render_user_settings s') settings_keyboard; react r s
          } else toast s) (\<lambda>x _. honest_reaction x) w'"
    by (cases res) (simp_all add: wp_honest_call [unfolded wp_bind] wp_honest_toast)
qed

lemma wp_honest_task: "wp (task_action D chat rest) (\<lambda>x _. honest_reaction x) w"
  unfolding task_action_def Let_def
  by (simp add: wp_honest_call [unfolded wp_bind] wp_honest_toast honest_reaction_def [of "(Inr (), _, _)"]
      split: prod.splits)

lemma wp_honest_close: "wp (close_action D chat m) (\<lambda>x _. honest_reaction x) w"
  by (simp add: close_action_def wp_honest_call [unfolded wp_bind] wp_honest_toast)

lemma wp_honest_action: "wp (callback_action D chat u m payload) (\<lambda>x _. honest_reaction x) w"
  unfolding callback_action_def
  by (simp add: wp_honest_settings wp_honest_task wp_honest_close wp_honest_toast split: prod.splits)

subsection \<open>What a press can reach\<close>

definition same_callback_reach :: "chat_id \<Rightarrow> user_id \<Rightarrow> message_id \<Rightarrow> callback_query_id \<Rightarrow>
    'w callback_deps \<Rightarrow> 'w callback_deps \<Rightarrow> bool" where
  "same_callback_reach c u m q D D' =
     ((\<forall>r. tr_chat r = c \<longrightarrow> cb_cancel D' r = cb_cancel D r) \<and>
      (\<forall>r. tr_chat r = c \<longrightarrow> cb_pause D' r = cb_pause D r) \<and>
      (\<forall>r. tr_chat r = c \<longrightarrow> cb_resume D' r = cb_resume D r) \<and>
      (\<forall>f \<in> {cycle_upload, toggle_document}. cb_update_user D' u (Some f) = cb_update_user D u (Some f)) \<and>
      cb_delete_message D' c m = cb_delete_message D c m \<and>
      cb_edit_keyboard D' c m = cb_edit_keyboard D c m \<and> cb_answer D' q = cb_answer D q)"

lemma callback_reach:
  assumes "same_callback_reach c u m q D D'"
  shows "callback_dispatch D' c u m q payload = callback_dispatch D c u m q payload"
proof -
  have "callback_action D' c u m payload = callback_action D c u m payload"
    using assms unfolding same_callback_reach_def callback_action_def
    by (simp add: close_action_def settings_action_def task_action_def Let_def
        cong: if_cong sum.case_cong prod.case_cong)
  with assms show ?thesis by (simp add: callback_dispatch_def same_callback_reach_def)
qed

subsection \<open>Properties\<close>

text \<open>
  A button press, whatever its payload, only deletes or edits the message it came from, changes
  only the presser's own settings (by cycling the destination or toggling the document flag), and
  names only tasks of its own chat to the cancel, pause and resume use cases: collaborators that agree
  on that give the same behaviour. Its action ends in a reaction that reports every failure as an
  alert with the label of the error, and the query is answered with exactly that reaction; the
  result is the failure of the action, or else that of the answer.
\<close>

theorem callback_contract:
  "(same_callback_reach c u m q D D' \<longrightarrow>
      callback_dispatch D' c u m q payload = callback_dispatch D c u m q payload) \<and>
   (case run_state (callback_action D c u m payload) w of ((result, txt, alert), w1) \<Rightarrow>
      honest_reaction (result, txt, alert) \<and>
      run_state (callback_dispatch D c u m q payload) w =
        (case run_state (cb_answer D q txt alert) w1 of (ack, w2) \<Rightarrow>
          (case result of Inl e \<Rightarrow> (Inl e, w2) | Inr _ \<Rightarrow> (ack, w2))))"
proof
  show "same_callback_reach c u m q D D' \<longrightarrow>
      callback_dispatch D' c u m q payload = callback_dispatch D c u m q payload"
    by (simp add: callback_reach)
  obtain o1 t a w1 where r: "run_state (callback_action D c u m payload) w = ((o1, t, a), w1)"
    by (metis prod.exhaust)
  have "honest_reaction (o1, t, a)" using wp_run [OF wp_honest_action r] by simp
  with r show "case run_state (callback_action D c u m payload) w of ((result, txt, alert), w1) \<Rightarrow>
      honest_reaction (result, txt, alert) \<and>
      run_state (callback_dispatch D c u m q payload) w =
        (case run_state (cb_answer D q txt alert) w1 of (ack, w2) \<Rightarrow>
          (case result of Inl e \<Rightarrow> (Inl e, w2) | Inr _ \<Rightarrow> (ack, w2)))"
    by (auto simp: callback_dispatch_def run_simps split: prod.splits sum.splits)
qed

text \<open>Collaborators that count their calls, for the example.\<close>

definition counting_callbacks :: "nat callback_deps" where
  "counting_callbacks =
     \<lparr>cb_cancel = (\<lambda>_. State (\<lambda>n. (Inl (mk_error EC_NotFound []), Suc n))),
      cb_pause = (\<lambda>_. State (\<lambda>n. (Inr (), Suc n))), cb_resume = (\<lambda>_. State (\<lambda>n. (Inr (), Suc n))),
      cb_update_user = (\<lambda>_ _. State (\<lambda>n. (Inl (mk_error EC_Database []), Suc n))),
      cb_delete_message = (\<lambda>_ _. State (\<lambda>n. (Inr (), Suc n))),
      cb_edit_keyboard = (\<lambda>_ _ _ _. State (\<lambda>n. (Inr (), Suc n))),
      cb_answer = (\<lambda>_ _ _. State (\<lambda>n. (Inr (), n + 10)))\<rparr>"

theorem callback_contract_witness:
  "callback_dispatch (counting_callbacks\<lparr>cb_cancel := (\<lambda>r. if tr_chat r = ChatId 1
       then cb_cancel counting_callbacks r else State (\<lambda>n. (Inr (), 0)))\<rparr>)
     (ChatId 1) (UserId 2) (MessageId 3) (CallbackQueryId 4) ''task:cancel:x'' =
   callback_dispatch counting_callbacks (ChatId 1) (UserId 2) (MessageId 3) (CallbackQueryId 4) ''task:cancel:x''"
proof -
  have "same_callback_reach (ChatId 1) (UserId 2) (MessageId 3) (CallbackQueryId 4) counting_callbacks
    (counting_callbacks\<lparr>cb_cancel := (\<lambda>r. if tr_chat r = ChatId 1
       then cb_cancel counting_callbacks r else State (\<lambda>n. (Inr (), 0)))\<rparr>)"
    by (simp add: same_callback_reach_def)
  with callback_contract [of "ChatId 1" "UserId 2" "MessageId 3" "CallbackQueryId 4" counting_callbacks _
      "''task:cancel:x''" 0] show ?thesis by blast
qed

end
