(* ===== verification/Settings.thy ===== *)
theory Settings
  imports Records Task_Repository Samples
begin

text \<open>
  Settings: the SQLite repositories \<open>sqlite_user_settings_repository.cpp\<close> and
  \<open>sqlite_bot_settings_repository.cpp\<close> and the use cases \<open>update_user_settings.cpp\<close> and
  \<open>update_bot_settings.cpp\<close>. A table is the list of its rows. The JSON library that stores the id
  lists of the bot settings is a pair of functions, of which the round trip on integer arrays is
  assumed where it is used. The interface \<open>UserSettingsRepository\<close> is the locale
  \<open>settings_repository\<close>, interpreted on the SQLite operations.
\<close>

subsection \<open>Calls on a store\<close>

text \<open>Pool and exceptions around a statement, shared by all repositories: a failed call changes nothing.\<close>

definition with_db :: "db_env \<Rightarrow> string \<Rightarrow> 's \<Rightarrow> 'a res \<times> 's \<Rightarrow> 'a res \<times> 's" where
  "with_db env what s body =
     (case env_acquire env of
        Inl e \<Rightarrow> (Inl e, s)
      | Inr _ \<Rightarrow> (case env_fault env of Some f \<Rightarrow> (Inl (fault_error what f), s) | None \<Rightarrow> body))"

lemma with_db_Inr: "with_db env what s body = (Inr x, s') \<Longrightarrow> body = (Inr x, s')"
  by (simp add: with_db_def split: sum.splits option.splits)

lemma with_db_cases: "with_db env what s body = (r, s') \<Longrightarrow> body = (r, s') \<or> (\<exists>e. r = Inl e) \<and> s' = s"
  by (auto simp: with_db_def split: sum.splits option.splits)

text \<open>The world of a use case over one store: the store and the number of calls made so far.\<close>

record 's calls =
  c_store :: 's
  c_count :: nat

definition db_call :: "(nat \<Rightarrow> 'e) \<Rightarrow> ('e \<Rightarrow> 's \<Rightarrow> 'a res \<times> 's) \<Rightarrow> ('s calls, 'a res) state" where
  "db_call envs f = State (\<lambda>w. case f (envs (c_count w)) (c_store w) of
     (r, s) \<Rightarrow> (r, \<lparr>c_store = s, c_count = Suc (c_count w)\<rparr>))"

definition db_clock :: "(nat \<Rightarrow> systime) \<Rightarrow> ('s calls, systime) state" where
  "db_clock now = State (\<lambda>w. (now (c_count w), w))"

lemma run_db_call [run_simps]: "run_state (db_call envs f) w =
    (case f (envs (c_count w)) (c_store w) of (r, s) \<Rightarrow> (r, \<lparr>c_store = s, c_count = Suc (c_count w)\<rparr>))"
  by (simp add: db_call_def)

lemma run_db_clock [run_simps]: "run_state (db_clock now) w = (now (c_count w), w)"
  by (simp add: db_clock_def)

subsection \<open>User settings rows\<close>

record user_row =
  ur_user :: int
  ur_leech :: string
  ur_mirror :: string
  ur_thumb :: "string option"
  ur_remote :: "string option"
  ur_folder :: "string option"
  ur_as_doc :: int
  ur_created :: string
  ur_updated :: string

definition default_user_settings :: "user_id \<Rightarrow> user_settings" where
  "default_user_settings u = \<lparr>us_user_id = u, us_leech_destination = UD_Telegram,
     us_mirror_destination = UD_GoogleDrive, us_default_thumb_path = None, us_rclone_remote = None,
     us_gdrive_folder_id = None, us_upload_as_document = False, us_created_at = 0, us_updated_at = 0\<rparr>"

definition settings_of_row :: "user_id \<Rightarrow> user_row \<Rightarrow> user_settings res" where
  "settings_of_row user r =
     (case parse_upload_destination (ur_leech r) of Inl e \<Rightarrow> Inl e | Inr leech \<Rightarrow>
     (case parse_upload_destination (ur_mirror r) of Inl e \<Rightarrow> Inl e | Inr mirror \<Rightarrow>
     (case parse_iso8601 (ur_created r) of Inl e \<Rightarrow> Inl e | Inr created \<Rightarrow>
     (case parse_iso8601 (ur_updated r) of Inl e \<Rightarrow> Inl e | Inr updated \<Rightarrow>
        Inr \<lparr>us_user_id = user, us_leech_destination = leech, us_mirror_destination = mirror,
             us_default_thumb_path = ur_thumb r, us_rclone_remote = ur_remote r,
             us_gdrive_folder_id = ur_folder r, us_upload_as_document = (ur_as_doc r \<noteq> 0),
             us_created_at = created, us_updated_at = updated\<rparr>))))"

definition row_of_settings :: "(int \<Rightarrow> string) \<Rightarrow> systime \<Rightarrow> user_settings \<Rightarrow> user_row" where
  "row_of_settings fmt now s =
     (let created = (if us_created_at s = 0 then now else us_created_at s) in
      \<lparr>ur_user = user_value (us_user_id s), ur_leech = destination_to_string (us_leech_destination s),
       ur_mirror = destination_to_string (us_mirror_destination s), ur_thumb = us_default_thumb_path s,
       ur_remote = us_rclone_remote s, ur_folder = us_gdrive_folder_id s,
       ur_as_doc = (if us_upload_as_document s then 1 else 0), ur_created = to_iso8601 fmt created,
       ur_updated = to_iso8601 fmt now\<rparr>)"

definition user_get :: "db_env \<Rightarrow> user_id \<Rightarrow> user_row list \<Rightarrow> user_settings option res \<times> user_row list" where
  "user_get env user tab =
     with_db env ''user_settings.get'' tab
       ((case List.find (\<lambda>r. ur_user r = user_value user) tab of
           None \<Rightarrow> Inr None
         | Some r \<Rightarrow> map_sum id Some (settings_of_row user r)), tab)"

definition user_save :: "(int \<Rightarrow> string) \<Rightarrow> db_env \<Rightarrow> user_settings \<Rightarrow> user_row list \<Rightarrow> unit res \<times> user_row list" where
  "user_save fmt env s tab =
     with_db env ''user_settings.save'' tab
       (Inr (), filter (\<lambda>r. ur_user r \<noteq> user_value (us_user_id s)) tab @ [row_of_settings fmt (env_now env) s])"

definition user_remove :: "db_env \<Rightarrow> user_id \<Rightarrow> user_row list \<Rightarrow> unit res \<times> user_row list" where
  "user_remove env user tab =
     with_db env ''user_settings.remove'' tab
       (if \<exists>r \<in> set tab. ur_user r = user_value user
        then (Inr (), filter (\<lambda>r. ur_user r \<noteq> user_value user) tab)
        else (Inl (mk_error EC_NotFound (''user_settings.remove: no row for user_id '' @
               int_to_string (user_value user))), tab))"

subsection \<open>The interface\<close>

text \<open>Settings without their timestamps, which every save stamps anew.\<close>

definition bare :: "user_settings \<Rightarrow> user_settings" where
  "bare s = s\<lparr>us_created_at := 0, us_updated_at := 0\<rparr>"

locale settings_repository =
  fixes get :: "'e \<Rightarrow> user_id \<Rightarrow> 's \<Rightarrow> user_settings option res \<times> 's"
    and save :: "'e \<Rightarrow> user_settings \<Rightarrow> 's \<Rightarrow> unit res \<times> 's"
    and remove :: "'e \<Rightarrow> user_id \<Rightarrow> 's \<Rightarrow> unit res \<times> 's"
    and view :: "'s \<Rightarrow> user_id \<Rightarrow> user_settings option"
    and ok :: "'s \<Rightarrow> bool"
    and can_save :: "'e \<Rightarrow> user_settings \<Rightarrow> bool"
  assumes get_law: "ok s \<Longrightarrow> get env u s = (r, s') \<Longrightarrow>
      s' = s \<and> (\<forall>x. r = Inr x \<longrightarrow> map_option bare x = view s u)"
    and get_can_save: "ok s \<Longrightarrow> get env u s = (Inr (Some x), s') \<Longrightarrow> can_save env' (default_user_settings u) \<Longrightarrow>
      can_save env' x"
    and can_save_stamp: "us_created_at x = us_created_at y \<Longrightarrow> can_save env x = can_save env y"
    and get_user: "ok s \<Longrightarrow> get env u s = (Inr (Some x), s') \<Longrightarrow> us_user_id x = u"
    and save_law: "ok s \<Longrightarrow> can_save env x \<Longrightarrow> save env x s = (Inr (), s') \<Longrightarrow>
      ok s' \<and> view s' = (view s)(us_user_id x \<mapsto> bare x)"
    and save_error: "save env x s = (Inl e, s') \<Longrightarrow> s' = s"
    and remove_law: "ok s \<Longrightarrow> remove env u s = (Inr (), s') \<Longrightarrow> ok s' \<and> view s' = (view s)(u := None)"
    and remove_error: "remove env u s = (Inl e, s') \<Longrightarrow> s' = s"

subsection \<open>Update use cases\<close>

definition update_user_settings ::
    "(user_id \<Rightarrow> ('w, user_settings option res) state) \<Rightarrow> (user_settings \<Rightarrow> ('w, unit res) state) \<Rightarrow>
     ('w, systime) state \<Rightarrow> user_id \<Rightarrow> (user_settings \<Rightarrow> user_settings) option \<Rightarrow> ('w, user_settings res) state" where
  "update_user_settings get save clk user mutate =
     (case mutate of
        None \<Rightarrow> State_Monad.return (Inl (mk_error EC_InvalidArgument ''update_user_settings: null mutator''))
      | Some f \<Rightarrow> do {
          loaded \<leftarrow> get user;
          (case loaded of
             Inl e \<Rightarrow> State_Monad.return (Inl e)
           | Inr x \<Rightarrow> do {
               now \<leftarrow> clk;
               let rec = f ((case x of Some r \<Rightarrow> r
                               | None \<Rightarrow> (default_user_settings user)\<lparr>us_created_at := now\<rparr>)
                            \<lparr>us_updated_at := now\<rparr>);
               saved \<leftarrow> save rec;
               State_Monad.return (case saved of Inl e \<Rightarrow> Inl e | Inr _ \<Rightarrow> Inr rec)
             })
        })"

definition update_bot_settings ::
    "('w, bot_settings res) state \<Rightarrow> (bot_settings \<Rightarrow> ('w, unit res) state) \<Rightarrow> ('w, systime) state \<Rightarrow>
     (bot_settings \<Rightarrow> bot_settings) option \<Rightarrow> ('w, bot_settings res) state" where
  "update_bot_settings load save clk mutate =
     (case mutate of
        None \<Rightarrow> State_Monad.return (Inl (mk_error EC_InvalidArgument ''update_bot_settings: null mutator''))
      | Some f \<Rightarrow> do {
          loaded \<leftarrow> load;
          (case loaded of
             Inl e \<Rightarrow> State_Monad.return (Inl e)
           | Inr r \<Rightarrow> do {
               now \<leftarrow> clk;
               let rec = (f r)\<lparr>bs_updated_at := now\<rparr>;
               saved \<leftarrow> save rec;
               State_Monad.return (case saved of Inl e \<Rightarrow> Inl e | Inr _ \<Rightarrow> Inr rec)
             })
        })"

subsection \<open>Bot settings row\<close>

datatype json = J_Int int | J_Array "json list" | J_Other

record bot_row =
  br_owner :: int
  br_sudo :: string
  br_chats :: string
  br_dir :: string
  br_split :: int
  br_limit :: int
  br_status_ms :: int
  br_rss_ms :: int
  br_updated :: string

definition encode_id_array :: "(json \<Rightarrow> string) \<Rightarrow> int list \<Rightarrow> string" where
  "encode_id_array dump ids = dump (J_Array (map J_Int ids))"

fun read_ids :: "json list \<Rightarrow> int list res" where
  "read_ids [] = Inr []"
| "read_ids (J_Int i # js) = map_sum id (Cons i) (read_ids js)"
| "read_ids (j # js) =
     Inl (mk_error EC_Deserialization ''bot_settings ID array contains non-integer entry'')"

definition decode_id_array :: "(string \<Rightarrow> string + json) \<Rightarrow> string \<Rightarrow> int list res" where
  "decode_id_array parse s =
     (case parse s of
        Inl what \<Rightarrow> Inl (mk_error EC_JsonParse (''bot_settings ID array parse failed: '' @ what))
      | Inr (J_Array js) \<Rightarrow> read_ids js
      | Inr _ \<Rightarrow> Inl (mk_error EC_Deserialization (''bot_settings ID array is not a JSON array: '' @ s)))"

definition bot_load :: "(string \<Rightarrow> string + json) \<Rightarrow> db_env \<Rightarrow> bot_row option \<Rightarrow> bot_settings res \<times> bot_row option" where
  "bot_load parse env row =
     with_db env ''bot_settings.load'' row
       ((case row of
           None \<Rightarrow> Inr default_bot_settings
         | Some r \<Rightarrow>
             (case decode_id_array parse (br_sudo r) of Inl e \<Rightarrow> Inl e | Inr sudo \<Rightarrow>
             (case decode_id_array parse (br_chats r) of Inl e \<Rightarrow> Inl e | Inr chats \<Rightarrow>
             (case parse_iso8601 (br_updated r) of Inl e \<Rightarrow> Inl e | Inr ts \<Rightarrow>
                Inr \<lparr>bs_owner_id = br_owner r, bs_sudo_users = sudo, bs_authorized_chats = chats,
                     bs_download_dir = br_dir r, bs_leech_split_size = br_split r,
                     bs_upload_limit_bytes = br_limit r, bs_status_update_interval = br_status_ms r,
                     bs_rss_poll_interval = br_rss_ms r, bs_updated_at = ts\<rparr>)))), row)"

definition bot_save :: "(json \<Rightarrow> string) \<Rightarrow> (int \<Rightarrow> string) \<Rightarrow> db_env \<Rightarrow> bot_settings \<Rightarrow> bot_row option \<Rightarrow>
    unit res \<times> bot_row option" where
  "bot_save dump fmt env s row =
     with_db env ''bot_settings.save'' row
       (Inr (), Some \<lparr>br_owner = bs_owner_id s, br_sudo = encode_id_array dump (bs_sudo_users s),
          br_chats = encode_id_array dump (bs_authorized_chats s), br_dir = bs_download_dir s,
          br_split = bs_leech_split_size s, br_limit = bs_upload_limit_bytes s,
          br_status_ms = bs_status_update_interval s, br_rss_ms = bs_rss_poll_interval s,
          br_updated = to_iso8601 fmt (env_now env)\<rparr>)"

lemma read_ids_ints [simp]: "read_ids (map J_Int ids) = Inr ids"
  by (induction ids) auto

lemma decode_encode_ids:
  "(\<And>is. parse (dump (J_Array (map J_Int is))) = Inr (J_Array (map J_Int is))) \<Longrightarrow>
   decode_id_array parse (encode_id_array dump ids) = Inr ids"
  by (simp add: decode_id_array_def encode_id_array_def)

lemma map_sum_Inl [simp]: "map_sum id f x = Inl e \<longleftrightarrow> x = Inl e"
  by (cases x) auto

lemma decode_ids_error: "decode_id_array parse s = Inl e \<Longrightarrow> err_code e \<in> {EC_JsonParse, EC_Deserialization}"
proof -
  have "read_ids js = Inl e \<Longrightarrow> err_code e = EC_Deserialization" for js
    by (induction js rule: read_ids.induct) (auto simp: mk_error_def)
  then show "decode_id_array parse s = Inl e \<Longrightarrow> ?thesis"
    by (auto simp: decode_id_array_def mk_error_def split: sum.splits json.splits)
qed

subsection \<open>The SQLite user settings keep the interface\<close>

definition user_can_save :: "(int \<Rightarrow> string) \<Rightarrow> db_env \<Rightarrow> user_settings \<Rightarrow> bool" where
  "user_can_save fmt env x =
     (fmt_iso fmt (env_now env) \<and> (us_created_at x = 0 \<or> fmt_iso fmt (us_created_at x)))"

definition utab_ok :: "(int \<Rightarrow> string) \<Rightarrow> user_row list \<Rightarrow> bool" where
  "utab_ok fmt tab =
     (distinct (map ur_user tab) \<and>
      (\<forall>r \<in> set tab. \<exists>env s. user_can_save fmt env s \<and> r = row_of_settings fmt (env_now env) s))"

definition utab_view :: "user_row list \<Rightarrow> user_id \<Rightarrow> user_settings option" where
  "utab_view tab u =
     (case List.find (\<lambda>r. ur_user r = user_value u) tab of
        None \<Rightarrow> None
      | Some r \<Rightarrow> (case settings_of_row u r of Inl _ \<Rightarrow> None | Inr s \<Rightarrow> Some (bare s)))"

lemma ur_user_row [simp]: "ur_user (row_of_settings fmt now s) = user_value (us_user_id s)"
  by (simp add: row_of_settings_def Let_def)

lemma settings_row_roundtrip:
  assumes "user_can_save fmt env s" "us_user_id s = u"
  shows "\<exists>s'. settings_of_row u (row_of_settings fmt (env_now env) s) = Inr s' \<and> bare s' = bare s \<and>
    us_user_id s' = u \<and> fmt_iso fmt (us_created_at s')"
proof -
  let ?c = "if us_created_at s = 0 then env_now env else us_created_at s"
  have "fmt_iso fmt ?c" "fmt_iso fmt (env_now env)" using assms by (auto simp: user_can_save_def)
  then have "settings_of_row u (row_of_settings fmt (env_now env) s) =
      Inr (s\<lparr>us_created_at := ?c div 1000000 * 1000000, us_updated_at := env_now env div 1000000 * 1000000\<rparr>)"
    using assms(2) by (simp add: settings_of_row_def row_of_settings_def Let_def iso_roundtrip)
  then show ?thesis using \<open>fmt_iso fmt ?c\<close> assms(2)
    by (intro exI [of _ "s\<lparr>us_created_at := ?c div 1000000 * 1000000, us_updated_at := env_now env div 1000000 * 1000000\<rparr>"])
      (simp add: bare_def)
qed

lemma utab_row:
  assumes "utab_ok fmt tab" "List.find (\<lambda>r. ur_user r = user_value u) tab = Some r"
  shows "\<exists>s'. settings_of_row u r = Inr s' \<and> us_user_id s' = u \<and> fmt_iso fmt (us_created_at s')"
proof -
  have r: "r \<in> set tab" "ur_user r = user_value u" using assms(2) by (auto simp: find_Some_iff)
  obtain env s where s: "user_can_save fmt env s" "r = row_of_settings fmt (env_now env) s"
    using assms(1) r(1) by (auto simp: utab_ok_def)
  have "us_user_id s = u" using r(2) s(2) by (cases "us_user_id s"; cases u) simp
  from settings_row_roundtrip [OF s(1) this] s(2) show ?thesis by blast
qed

lemma user_get_view:
  assumes "utab_ok fmt tab" "user_get env u tab = (r, tab')"
  shows "tab' = tab \<and> (\<forall>x. r = Inr x \<longrightarrow> map_option bare x = utab_view tab u)"
  using with_db_cases [OF assms(2) [unfolded user_get_def]]
  by (auto simp: utab_view_def split: option.splits sum.splits)

lemma user_get_Some:
  assumes "utab_ok fmt tab" "user_get env u tab = (Inr (Some x), tab')"
  shows "us_user_id x = u \<and> fmt_iso fmt (us_created_at x)"
proof -
  obtain r where r: "List.find (\<lambda>r. ur_user r = user_value u) tab = Some r" "settings_of_row u r = Inr x"
    using with_db_Inr [OF assms(2) [unfolded user_get_def]]
    by (auto split: option.splits elim!: sum_map_SomeE)
  from utab_row [OF assms(1) r(1)] r(2) show ?thesis by auto
qed

lemma user_view_save:
  assumes "user_can_save fmt env x"
  shows "utab_view (filter (\<lambda>r. ur_user r \<noteq> user_value (us_user_id x)) tab @ [row_of_settings fmt (env_now env) x])
    = (utab_view tab)(us_user_id x \<mapsto> bare x)"
proof
  fix u
  let ?k = "user_value (us_user_id x)"
  show "utab_view (filter (\<lambda>r. ur_user r \<noteq> ?k) tab @ [row_of_settings fmt (env_now env) x]) u =
      ((utab_view tab)(us_user_id x \<mapsto> bare x)) u"
  proof (cases "u = us_user_id x")
    case True
    have "List.find (\<lambda>r. ur_user r = ?k) (filter (\<lambda>r. ur_user r \<noteq> ?k) tab) = None"
      by (simp add: find_None_iff)
    with True settings_row_roundtrip [OF assms refl] show ?thesis
      by (auto simp: utab_view_def find_append)
  next
    case False
    then have ne: "user_value u \<noteq> ?k" by (cases u; cases "us_user_id x") auto
    then have "List.find (\<lambda>r. ur_user r = user_value u) (filter (\<lambda>r. ur_user r \<noteq> ?k) tab) =
        List.find (\<lambda>r. ur_user r = user_value u) tab"
      by (induction tab) auto
    with False ne show ?thesis by (auto simp: utab_view_def find_append split: option.splits)
  qed
qed

lemma utab_ok_save:
  assumes "user_can_save fmt env x" "utab_ok fmt tab"
  shows "utab_ok fmt (filter (\<lambda>r. ur_user r \<noteq> user_value (us_user_id x)) tab @ [row_of_settings fmt (env_now env) x])"
proof -
  have "\<exists>env' s. user_can_save fmt env' s \<and> row_of_settings fmt (env_now env) x = row_of_settings fmt (env_now env') s"
    using assms(1) by blast
  with assms(2) show ?thesis by (auto simp: utab_ok_def distinct_map_filter)
qed

lemma user_view_remove:
  "utab_view (filter (\<lambda>r. ur_user r \<noteq> user_value u) tab) = (utab_view tab)(u := None)"
proof
  fix v
  have "v \<noteq> u \<Longrightarrow> List.find (\<lambda>r. ur_user r = user_value v) (filter (\<lambda>r. ur_user r \<noteq> user_value u) tab) =
      List.find (\<lambda>r. ur_user r = user_value v) tab"
    by (cases u; cases v) (induction tab; auto)
  moreover have "List.find (\<lambda>r. ur_user r = user_value u) (filter (\<lambda>r. ur_user r \<noteq> user_value u) tab) = None"
    by (simp add: find_None_iff)
  ultimately show "utab_view (filter (\<lambda>r. ur_user r \<noteq> user_value u) tab) v = ((utab_view tab)(u := None)) v"
    by (simp add: utab_view_def)
qed

interpretation us: settings_repository user_get "user_save fmt" user_remove utab_view "utab_ok fmt" "user_can_save fmt"
  for fmt
proof
  fix s s' :: "user_row list" and env env' :: db_env and u x r e
  show "utab_ok fmt s \<Longrightarrow> user_get env u s = (r, s') \<Longrightarrow> s' = s \<and> (\<forall>x. r = Inr x \<longrightarrow> map_option bare x = utab_view s u)"
    by (rule user_get_view)
  show "utab_ok fmt s \<Longrightarrow> user_get env u s = (Inr (Some x), s') \<Longrightarrow>
      user_can_save fmt env' (default_user_settings u) \<Longrightarrow> user_can_save fmt env' x"
    using user_get_Some [of fmt s env u x s'] by (simp add: user_can_save_def)
  show "us_created_at x = us_created_at y \<Longrightarrow> user_can_save fmt env x = user_can_save fmt env y" for y
    by (simp add: user_can_save_def)
  show "utab_ok fmt s \<Longrightarrow> user_get env u s = (Inr (Some x), s') \<Longrightarrow> us_user_id x = u"
    using user_get_Some by blast
  show "utab_ok fmt s \<Longrightarrow> user_can_save fmt env x \<Longrightarrow> user_save fmt env x s = (Inr (), s') \<Longrightarrow>
      utab_ok fmt s' \<and> utab_view s' = (utab_view s)(us_user_id x \<mapsto> bare x)"
    using user_view_save [of fmt env x s] utab_ok_save [of fmt env x s]
    by (auto simp: user_save_def dest!: with_db_Inr)
  show "user_save fmt env x s = (Inl e, s') \<Longrightarrow> s' = s"
    by (auto simp: user_save_def dest: with_db_cases)
  show "utab_ok fmt s \<Longrightarrow> user_remove env u s = (Inr (), s') \<Longrightarrow>
      utab_ok fmt s' \<and> utab_view s' = (utab_view s)(u := None)"
    by (auto simp: user_remove_def user_view_remove utab_ok_def distinct_map_filter dest!: with_db_Inr split: if_splits)
  show "user_remove env u s = (Inl e, s') \<Longrightarrow> s' = s"
    by (auto simp: user_remove_def dest!: with_db_cases split: if_splits)
qed

subsection \<open>Updating through the interface\<close>

context settings_repository
begin

text \<open>The use case over the interface: the environment and the clock of each call are arbitrary.\<close>

definition update :: "(nat \<Rightarrow> 'e) \<Rightarrow> (nat \<Rightarrow> systime) \<Rightarrow> user_id \<Rightarrow> (user_settings \<Rightarrow> user_settings) option \<Rightarrow>
    ('s calls, user_settings res) state" where
  "update envs now = update_user_settings (\<lambda>u. db_call envs (\<lambda>env. get env u))
     (\<lambda>x. db_call envs (\<lambda>env. save env x)) (db_clock now)"

lemma update_law:
  assumes ok: "ok (c_store w)"
    and f: "\<And>s. us_user_id (f s) = us_user_id s" "\<And>s. us_created_at (f s) = us_created_at s"
      "\<And>s. bare (f s) = bare (f (bare s))"
    and fresh: "\<And>n m. can_save (envs n) ((default_user_settings u)\<lparr>us_created_at := now m\<rparr>)"
      "\<And>n. can_save (envs n) (default_user_settings u)"
    and run: "run_state (update envs now u (Some f)) w = (r, w')"
  shows "ok (c_store w') \<and> (case r of
      Inl e \<Rightarrow> c_store w' = c_store w
    | Inr rec \<Rightarrow> view (c_store w') = (view (c_store w))(u \<mapsto> bare rec) \<and>
        bare rec = bare (f (case view (c_store w) u of Some s \<Rightarrow> s | None \<Rightarrow> default_user_settings u)))"
proof -
  obtain g s1 where g: "get (envs (c_count w)) u (c_store w) = (g, s1)" by fastforce
  have s1: "s1 = c_store w" and gv: "\<And>x. g = Inr x \<Longrightarrow> map_option bare x = view (c_store w) u"
    using get_law [OF ok g] by auto
  show ?thesis
  proof (cases g)
    case (Inl e)
    with run g s1 ok show ?thesis by (auto simp: update_def update_user_settings_def run_simps)
  next
    case (Inr x)
    let ?m = "now (Suc (c_count w))"
    let ?old = "case x of Some r \<Rightarrow> r | None \<Rightarrow> (default_user_settings u)\<lparr>us_created_at := ?m\<rparr>"
    let ?rec = "f (?old\<lparr>us_updated_at := ?m\<rparr>)"
    obtain v s2 where v: "save (envs (Suc (c_count w))) ?rec (c_store w) = (v, s2)" by fastforce
    have old: "us_user_id ?old = u" "can_save (envs n) ?old" for n
      using get_user [OF ok, of _ u] get_can_save [OF ok, of _ u _ _ "envs n"] fresh g Inr
      by (auto simp: default_user_settings_def split: option.split)
    have can: "can_save (envs n) ?rec" for n
      using old(2) [of n] can_save_stamp [of ?rec ?old "envs n"] f(2) by simp
    have "bare (?old\<lparr>us_updated_at := ?m\<rparr>) = bare ?old" by (simp add: bare_def)
    moreover have "bare ?old = bare (case view (c_store w) u of Some s \<Rightarrow> s | None \<Rightarrow> default_user_settings u)"
      unfolding gv [OF Inr, symmetric] by (cases x) (simp_all add: bare_def)
    ultimately have b: "bare ?rec = bare (f (case view (c_store w) u of Some s \<Rightarrow> s | None \<Rightarrow> default_user_settings u))"
      using f(3) by metis
    have res: "r = (case v of Inl e \<Rightarrow> Inl e | Inr _ \<Rightarrow> Inr ?rec)" "c_store w' = s2"
      using run g Inr s1 v by (auto simp: update_def update_user_settings_def run_simps Let_def split: prod.splits)
    show ?thesis
    proof (cases v)
      case Inl
      with save_error v res ok show ?thesis by fastforce
    next
      case (Inr x')
      with save_law [OF ok can, of _ s2] v have "ok s2" "view s2 = (view (c_store w))(us_user_id ?rec \<mapsto> bare ?rec)"
        by auto
      with Inr res b f(1) old(1) show ?thesis by auto
    qed
  qed
qed

end

subsection \<open>Properties\<close>

text \<open>
  Updating a user's settings on the SQLite store applies the mutation to the stored settings, or
  to the defaults for a new user, and nothing else: on success the row of that user reads back as the
  returned record up to timestamps and every other user's row is unchanged; on any failure the table
  is unchanged.
\<close>

theorem user_settings_update_roundtrip:
  assumes "utab_ok fmt (c_store w)" "\<And>n. fmt_iso fmt (env_now (envs n))"
    and "\<And>s. us_user_id (f s) = us_user_id s" "\<And>s. us_created_at (f s) = us_created_at s"
      "\<And>s. bare (f s) = bare (f (bare s))"
    and "run_state (update_user_settings (\<lambda>u. db_call envs (\<lambda>env. user_get env u))
       (\<lambda>x. db_call envs (\<lambda>env. user_save fmt env x)) (db_clock (\<lambda>n. env_now (envs n))) u (Some f)) w = (r, w')"
  shows "utab_ok fmt (c_store w') \<and> (case r of
      Inl e \<Rightarrow> c_store w' = c_store w
    | Inr rec \<Rightarrow> utab_view (c_store w') = (utab_view (c_store w))(u \<mapsto> bare rec) \<and>
        bare rec = bare (f (case utab_view (c_store w) u of Some s \<Rightarrow> s | None \<Rightarrow> default_user_settings u)))"
  by (rule us.update_law [where envs = envs and now = "\<lambda>n. env_now (envs n)", OF assms(1,3-5)])
    (use assms(2,6) in \<open>auto simp: user_can_save_def default_user_settings_def us.update_def\<close>)

theorem user_settings_update_roundtrip_witness:
  "utab_ok epoch_fmt (c_store (snd (run_state (update_user_settings (\<lambda>u. db_call (\<lambda>_. good_env) (\<lambda>env. user_get env u))
       (\<lambda>x. db_call (\<lambda>_. good_env) (\<lambda>env. user_save epoch_fmt env x)) (db_clock (\<lambda>n. env_now good_env)) (UserId 5) (Some id))
       \<lparr>c_store = [], c_count = 0\<rparr>)))" (is "utab_ok _ (c_store (snd ?run))")
proof -
  have "utab_ok epoch_fmt (c_store \<lparr>c_store = [], c_count = 0\<rparr>)" by (simp add: utab_ok_def)
  then show ?thesis
    using user_settings_update_roundtrip [of epoch_fmt "\<lparr>c_store = [], c_count = 0\<rparr>" "\<lambda>_. good_env" id "UserId 5"
        "fst ?run" "snd ?run"] by (simp add: bare_def)
qed

text \<open>
  The bot settings read back as they were saved, id lists included, with the time of the save in
  milliseconds, for a JSON library that reads back the integer arrays it wrote; and before the first
  save the documented defaults are returned.
\<close>

theorem bot_settings_roundtrip:
  assumes "\<And>is. parse (dump (J_Array (map J_Int is))) = Inr (J_Array (map J_Int is))"
    and "fmt_iso fmt (env_now env)" "bot_save dump fmt env s row = (Inr (), row')"
    and "env_acquire env' = Inr ()" "env_fault env' = None"
  shows "bot_load parse env' row' = (Inr (s\<lparr>bs_updated_at := env_now env div 1000000 * 1000000\<rparr>), row') \<and>
    bot_load parse env' None = (Inr default_bot_settings, None)"
  using with_db_Inr [OF assms(3) [unfolded bot_save_def]] assms(1,2,4,5)
  by (auto simp: bot_load_def with_db_def decode_encode_ids iso_roundtrip)

text \<open>A dump of integer arrays that a reader inverts, for the example: unary entries.\<close>

fun unary_dump :: "json \<Rightarrow> string" where
  "unary_dump (J_Array js) = concat (map (\<lambda>j. case j of J_Int i \<Rightarrow>
      (if i < 0 then ''-'' else ''+'') @ replicate (nat \<bar>i\<bar>) (CHR ''1'') @ '','' | _ \<Rightarrow> []) js)"
| "unary_dump _ = []"

fun unary_read :: "bool \<Rightarrow> nat \<Rightarrow> string \<Rightarrow> json list" where
  "unary_read neg n [] = []"
| "unary_read neg n (c # cs) =
     (if c = CHR ''-'' then unary_read True 0 cs
      else if c = CHR ''+'' then unary_read False 0 cs
      else if c = CHR ''1'' then unary_read neg (Suc n) cs
      else J_Int (if neg then - int n else int n) # unary_read False 0 cs)"

lemma unary_read_ones: "unary_read neg n (replicate k (CHR ''1'') @ cs) = unary_read neg (n + k) cs"
  by (induction k arbitrary: n) auto

lemma unary_roundtrip: "unary_read b n (unary_dump (J_Array (map J_Int is))) = map J_Int is"
  by (induction "is" arbitrary: b n) (auto simp: unary_read_ones)

theorem bot_settings_roundtrip_witness:
  "bot_load (\<lambda>s. Inr (J_Array (unary_read False 0 s))) good_env
     (snd (bot_save unary_dump epoch_fmt good_env (default_bot_settings\<lparr>bs_sudo_users := [3, -1]\<rparr>) None)) =
   (Inr (default_bot_settings\<lparr>bs_sudo_users := [3, -1]\<rparr>),
     snd (bot_save unary_dump epoch_fmt good_env (default_bot_settings\<lparr>bs_sudo_users := [3, -1]\<rparr>) None))"
  using bot_settings_roundtrip [of "\<lambda>s. Inr (J_Array (unary_read False 0 s))" unary_dump epoch_fmt good_env
      "default_bot_settings\<lparr>bs_sudo_users := [3, -1]\<rparr>" None
      "snd (bot_save unary_dump epoch_fmt good_env (default_bot_settings\<lparr>bs_sudo_users := [3, -1]\<rparr>) None)" good_env]
  by (simp add: unary_roundtrip bot_save_def with_db_def good_env_def default_bot_settings_def del: unary_dump.simps)

end
