(* ===== verification/Bot.thy ===== *)
theory Bot
  imports Mirror_Url Leech_Url Task_Control Show_Status Callback_Dispatcher Settings
begin

text \<open>
  The wiring of \<open>main.cpp\<close>: the command and callback dispatchers over the use cases, and the two update
  handlers. The use cases on the tasks table are the modelled ones; the collaborators on other
  services and tables are fields of the given records, of which only is assumed that they leave the
  tasks table alone (\<open>apart\<close>).
\<close>

type_synonym bot_world = "task_row list world"

subsection \<open>Wiring\<close>

definition bot_deps ::
    "(db_env, task_row list) ports \<Rightarrow> status_ports \<Rightarrow> nat \<Rightarrow> int \<Rightarrow> int \<Rightarrow> bot_world deps \<Rightarrow> bot_world deps" where
  "bot_deps P SP fuel mirror_pool leech_pool D =
     D\<lparr>de_send := send_html P, de_edit := edit_html P,
       de_mirror := mirror_execute fuel P mirror_pool, de_leech := leech_execute fuel P leech_pool,
       de_cancel := cancel_execute P, de_cancel_all := cancel_all P,
       de_pause := pause_execute P, de_resume := resume_execute P,
       de_status := show_status P SP (de_printer D)\<rparr>"

definition bot_callbacks ::
    "(db_env, task_row list) ports \<Rightarrow> bot_world callback_deps \<Rightarrow> bot_world callback_deps" where
  "bot_callbacks P C =
     C\<lparr>cb_cancel := cancel_execute P, cb_pause := pause_execute P, cb_resume := resume_execute P\<rparr>"

definition on_new_message ::
    "'w deps \<Rightarrow> chat_id \<Rightarrow> user_id \<Rightarrow> message_id \<Rightarrow> string \<Rightarrow> ('w, unit res option) state" where
  "on_new_message D chat sender msg txt =
     (case parse_command txt sender chat msg of
        None \<Rightarrow> State_Monad.return (Some (Inr ()))
      | Some req \<Rightarrow> dispatch D builtins req)"

definition on_callback_query ::
    "'w callback_deps \<Rightarrow> chat_id \<Rightarrow> user_id \<Rightarrow> message_id \<Rightarrow> callback_query_id \<Rightarrow> string \<Rightarrow> ('w, unit res) state" where
  "on_callback_query C chat sender msg query payload = callback_dispatch C chat sender msg query payload"

subsection \<open>Programs that only cancel tasks of a chat\<close>

definition cancels_only :: "(int \<Rightarrow> string) \<Rightarrow> chat_id \<Rightarrow> (bot_world, 'a) state \<Rightarrow> bool" where
  "cancels_only fmt c m = (\<forall>w. tab_ok fmt (w_store w) \<longrightarrow>
     wp m (\<lambda>_ w'. tab_ok fmt (w_store w') \<and> cancels c (tab_view (w_store w)) (tab_view (w_store w'))) w)"

definition apart :: "(bot_world, 'a) state \<Rightarrow> bool" where
  "apart m = (\<forall>w. w_store (snd (run_state m w)) = w_store w)"

lemma cancels_only_return [intro!]: "cancels_only fmt c (State_Monad.return x)"
  by (simp add: cancels_only_def)

lemma cancels_only_bind [intro]:
  assumes "cancels_only fmt c m" "\<And>x. cancels_only fmt c (f x)"
  shows "cancels_only fmt c (State_Monad.bind m f)"
  unfolding cancels_only_def wp_bind
proof (intro allI impI)
  fix w :: bot_world
  assume ok: "tab_ok fmt (w_store w)"
  show "wp m (\<lambda>a. wp (f a) (\<lambda>_ w'. tab_ok fmt (w_store w') \<and> cancels c (tab_view (w_store w)) (tab_view (w_store w')))) w"
  proof (rule wp_mono [OF assms(1) [unfolded cancels_only_def, rule_format, OF ok]])
    fix a and w1 :: bot_world
    assume a: "tab_ok fmt (w_store w1) \<and> cancels c (tab_view (w_store w)) (tab_view (w_store w1))"
    show "wp (f a) (\<lambda>_ w'. tab_ok fmt (w_store w') \<and> cancels c (tab_view (w_store w)) (tab_view (w_store w'))) w1"
      using assms(2) [unfolded cancels_only_def, rule_format, of w1 a] a
      by (auto elim!: wp_mono intro: cancels_trans)
  qed
qed

lemma apart_cancels_only: "apart m \<Longrightarrow> cancels_only fmt c m"
  unfolding cancels_only_def wp_def
proof (intro allI impI)
  fix w :: bot_world
  assume "apart m" "tab_ok fmt (w_store w)"
  then show "case run_state m w of (_, w') \<Rightarrow> tab_ok fmt (w_store w') \<and> cancels c (tab_view (w_store w)) (tab_view (w_store w'))"
    unfolding apart_def case_prod_unfold by simp
qed

lemma await_apart: "apart (await P f g)"
  by (simp add: apart_def await_def run_simps Let_def)

lemma messages_cancel_nothing [intro!]:
  "cancels_only fmt c (send_html P ch t)" "cancels_only fmt c (edit_html P ch m t)"
  unfolding send_html_def edit_html_def by (rule apart_cancels_only, rule await_apart)+

text \<open>The use cases of the bot, as programs of this kind.\<close>

lemma use_cases_cancel_only:
  assumes "p_repo P = sqlite_repo fmt" "\<And>h. fmt_iso fmt (env_now (p_env P h))" "\<And>h. fmt_iso fmt (p_now P h)"
  shows "cancels_only fmt c (cancel_execute P \<lparr>tr_task_id = i, tr_chat = c\<rparr>)"
    and "cancels_only fmt c (cancel_all P c)"
    and "cancels_only fmt c (pause_execute P req)"
    and "cancels_only fmt c (resume_execute P req)"
    and "cancels_only fmt c (show_status P SP pr sreq)"
proof -
  note P = assms(1) and t = assms(2,3)
  show "cancels_only fmt c (cancel_execute P \<lparr>tr_task_id = i, tr_chat = c\<rparr>)"
    unfolding cancels_only_def
    using wp_mono [OF sqe.wp_cancel_execute [OF _ P t, of _ "\<lparr>tr_task_id = i, tr_chat = c\<rparr>"]] by auto
  show "cancels_only fmt c (cancel_all P c)"
    unfolding cancels_only_def using wp_mono [OF sqe.wp_cancel_all [OF _ P t]] by auto
  show "cancels_only fmt c (pause_execute P req)"
    unfolding cancels_only_def using wp_mono [OF wp_pause [OF _ P]] by fastforce
  show "cancels_only fmt c (resume_execute P req)"
    unfolding cancels_only_def using wp_mono [OF wp_resume [OF _ P]] by fastforce
  show "cancels_only fmt c (show_status P SP pr sreq)"
    unfolding cancels_only_def using wp_mono [OF wp_show_status [OF _ P]] by (fastforce simp: only_asks_def)
qed

text \<open>The collaborators that work on other services and tables.\<close>

definition deps_apart :: "bot_world deps \<Rightarrow> bool" where
  "deps_apart D =
     ((\<forall>c t k. apart (de_send_keyboard D c t k)) \<and> (\<forall>c p n cap. apart (de_send_file D c p n cap)) \<and>
      apart (de_clock D) \<and> apart (de_log_exists D) \<and> apart (de_log_size D) \<and>
      (\<forall>r. apart (de_clone D r)) \<and> (\<forall>r. apart (de_count D r)) \<and> (\<forall>r. apart (de_delete D r)) \<and>
      apart (de_stats D) \<and> (\<forall>u f. apart (de_update_user D u f)) \<and> (\<forall>f. apart (de_update_bot D f)) \<and>
      (\<forall>f. apart (de_rss_add D f)) \<and> (\<forall>c. apart (de_rss_list D c)) \<and> (\<forall>i u c. apart (de_rss_remove D i u c)))"

definition callbacks_apart :: "bot_world callback_deps \<Rightarrow> bool" where
  "callbacks_apart C =
     ((\<forall>u f. apart (cb_update_user C u f)) \<and> (\<forall>c m. apart (cb_delete_message C c m)) \<and>
      (\<forall>c m t k. apart (cb_edit_keyboard C c m t k)) \<and> (\<forall>q t a. apart (cb_answer C q t a)))"

lemma cancels_only_if [intro]: "cancels_only fmt c m \<Longrightarrow> cancels_only fmt c m' \<Longrightarrow> cancels_only fmt c (if b then m else m')"
  by simp

lemma ends_cancel_nothing [intro!]:
  "cancels_only fmt c (finish r)" "cancels_only fmt c (stop e)" "cancels_only fmt c (fail k m)"
  by (auto simp: finish_def stop_def fail_def)

lemma cancels_only_cases [intro]:
  "(\<And>e. cancels_only fmt c (f e)) \<Longrightarrow> (\<And>y. cancels_only fmt c (g y)) \<Longrightarrow>
    cancels_only fmt c (case r of Inl e \<Rightarrow> f e | Inr y \<Rightarrow> g y)"
  "cancels_only fmt c m \<Longrightarrow> (\<And>y. cancels_only fmt c (k y)) \<Longrightarrow>
    cancels_only fmt c (case x of None \<Rightarrow> m | Some y \<Rightarrow> k y)"
  "(\<And>a b. cancels_only fmt c (j a b)) \<Longrightarrow> cancels_only fmt c (case p of (a, b) \<Rightarrow> j a b)"
  by (auto split: sum.split option.split prod.split)

lemma deps_cancel_nothing:
  assumes "deps_apart D"
  shows "cancels_only fmt c (de_send_keyboard D ch t k)" "cancels_only fmt c (de_send_file D ch pa n cap)"
    "cancels_only fmt c (de_clock D)" "cancels_only fmt c (de_log_exists D)" "cancels_only fmt c (de_log_size D)"
    "cancels_only fmt c (de_clone D r)" "cancels_only fmt c (de_count D r)" "cancels_only fmt c (de_delete D r)"
    "cancels_only fmt c (de_stats D)" "cancels_only fmt c (de_update_user D u f)" "cancels_only fmt c (de_update_bot D g)"
    "cancels_only fmt c (de_rss_add D feed)" "cancels_only fmt c (de_rss_list D ch)"
    "cancels_only fmt c (de_rss_remove D i u ch)"
  using assms unfolding deps_apart_def by (blast intro: apart_cancels_only)+

lemma bot_deps_sel [simp]:
  "de_send (bot_deps P SP fuel mp lp D) = send_html P" "de_edit (bot_deps P SP fuel mp lp D) = edit_html P"
  "de_cancel (bot_deps P SP fuel mp lp D) = cancel_execute P" "de_cancel_all (bot_deps P SP fuel mp lp D) = cancel_all P"
  "de_pause (bot_deps P SP fuel mp lp D) = pause_execute P" "de_resume (bot_deps P SP fuel mp lp D) = resume_execute P"
  "de_status (bot_deps P SP fuel mp lp D) = show_status P SP (de_printer D)"
  "de_send_keyboard (bot_deps P SP fuel mp lp D) = de_send_keyboard D" "de_send_file (bot_deps P SP fuel mp lp D) = de_send_file D"
  "de_clock (bot_deps P SP fuel mp lp D) = de_clock D" "de_log_exists (bot_deps P SP fuel mp lp D) = de_log_exists D"
  "de_log_size (bot_deps P SP fuel mp lp D) = de_log_size D" "de_clone (bot_deps P SP fuel mp lp D) = de_clone D"
  "de_count (bot_deps P SP fuel mp lp D) = de_count D" "de_delete (bot_deps P SP fuel mp lp D) = de_delete D"
  "de_stats (bot_deps P SP fuel mp lp D) = de_stats D" "de_update_user (bot_deps P SP fuel mp lp D) = de_update_user D"
  "de_update_bot (bot_deps P SP fuel mp lp D) = de_update_bot D" "de_rss_add (bot_deps P SP fuel mp lp D) = de_rss_add D"
  "de_rss_list (bot_deps P SP fuel mp lp D) = de_rss_list D" "de_rss_remove (bot_deps P SP fuel mp lp D) = de_rss_remove D"
  "de_authority (bot_deps P SP fuel mp lp D) = de_authority D" "de_printer (bot_deps P SP fuel mp lp D) = de_printer D"
  by (simp_all add: bot_deps_def)

lemmas handler_bodies = require_arg_def with_task_def status_handler_def settings_handler_def botsettings_handler_def
  reply_def stats_handler_def ping_handler_def log_handler_def log_notice_def rss_handler_def rss_add_handler_def
  rss_list_handler_def rss_remove_handler_def Let_def

lemma handlers_cancel_only:
  assumes P: "p_repo P = sqlite_repo fmt" "\<And>h. fmt_iso fmt (env_now (p_env P h))" "\<And>h. fmt_iso fmt (p_now P h)"
    and D: "deps_apart D" and h: "h \<notin> {H_mirror, H_qbmirror, H_leech, H_qbleech}"
  shows "cancels_only fmt (cr_chat req) (run_handler (bot_deps P SP fuel mp lp D) d h req)"
  using h
  by (cases h; simp only: run_handler.simps handler_bodies bot_deps_sel insert_iff simp_thms)
    (intro cancels_only_bind cancels_only_if cancels_only_cases use_cases_cancel_only [OF P] deps_cancel_nothing [OF D]
      messages_cancel_nothing ends_cancel_nothing cancels_only_return)+

subsection \<open>Senders without permission\<close>

lemma apart_return [intro!]: "apart (State_Monad.return x)"
  by (simp add: apart_def run_simps)

lemma apart_bind [intro]: "apart m \<Longrightarrow> (\<And>x. apart (f x)) \<Longrightarrow> apart (State_Monad.bind m f)"
  by (simp add: apart_def run_simps case_prod_unfold)

lemma apart_cases [intro]:
  "(\<And>e. apart (f e)) \<Longrightarrow> (\<And>y. apart (g y)) \<Longrightarrow> apart (case r of Inl e \<Rightarrow> f e | Inr y \<Rightarrow> g y)"
  by (auto split: sum.split)

lemma apart_messages [intro!]: "apart (send_html P ch t)" "apart (edit_html P ch m t)"
  unfolding send_html_def edit_html_def by (rule await_apart)+

lemma apart_ends [intro!]: "apart (finish r)" "apart (stop e)" "apart (fail k m)"
  by (auto simp: finish_def stop_def fail_def)

lemma open_handlers_apart:
  assumes "deps_apart D" "handler_level h = Anyone"
  shows "apart (run_handler (bot_deps P SP fuel mp lp D) d h req)"
  using assms
  by (cases h) (auto simp only: run_handler.simps handler_bodies bot_deps_sel handler_level.simps deps_apart_def permission.distinct
      intro!: apart_bind apart_cases apart_messages apart_ends)

lemma not_user_Anyone:
  assumes "\<not> can_run a u c User" "can_run a u c r"
  shows "r = Anyone"
  using assms by (cases r) (auto simp: can_run_def)

lemma dispatch_apart:
  assumes "deps_apart D" "\<not> can_run (de_authority D) (cr_sender req) (cr_chat req) User"
  shows "apart (dispatch (bot_deps P SP fuel mp lp D) builtins req)"
proof (cases "map_of (dp_commands builtins) (resolve_name builtins (cr_command req))")
  case None
  then show ?thesis by (auto simp: dispatch_def Let_def)
next
  case (Some e)
  have "apart (run_handler (bot_deps P SP fuel mp lp D) builtins (en_handler e) req)"
    if "can_run (de_authority D) (cr_sender req) (cr_chat req) (en_required e)"
    using open_handlers_apart [OF assms(1)] not_user_Anyone [OF assms(2) that] builtin_level [OF Some] by metis
  with Some show ?thesis by (auto simp: dispatch_def Let_def)
qed

lemma dispatch_cancel_only:
  assumes P: "p_repo P = sqlite_repo fmt" "\<And>h. fmt_iso fmt (env_now (p_env P h))" "\<And>h. fmt_iso fmt (p_now P h)"
    and D: "deps_apart D"
    and h: "\<And>e. map_of (dp_commands builtins) (resolve_name builtins (cr_command req)) = Some e \<Longrightarrow>
      en_handler e \<notin> {H_mirror, H_qbmirror, H_leech, H_qbleech}"
  shows "cancels_only fmt (cr_chat req) (dispatch (bot_deps P SP fuel mp lp D) builtins req)"
proof (cases "map_of (dp_commands builtins) (resolve_name builtins (cr_command req))")
  case None
  then show ?thesis by (auto simp: dispatch_def Let_def)
next
  case (Some e)
  with handlers_cancel_only [OF P D h [OF Some], of req] show ?thesis by (auto simp: dispatch_def Let_def)
qed

subsection \<open>Buttons\<close>

lemma callback_cancel_only:
  assumes P: "p_repo P = sqlite_repo fmt" "\<And>h. fmt_iso fmt (env_now (p_env P h))" "\<And>h. fmt_iso fmt (p_now P h)"
    and C: "callbacks_apart C"
  shows "cancels_only fmt chat (callback_dispatch (bot_callbacks P C) chat sender msg query payload)"
proof -
  have sel: "cb_cancel (bot_callbacks P C) = cancel_execute P" "cb_pause (bot_callbacks P C) = pause_execute P"
    "cb_resume (bot_callbacks P C) = resume_execute P" "cb_update_user (bot_callbacks P C) = cb_update_user C"
    "cb_delete_message (bot_callbacks P C) = cb_delete_message C" "cb_edit_keyboard (bot_callbacks P C) = cb_edit_keyboard C"
    "cb_answer (bot_callbacks P C) = cb_answer C" by (simp_all add: bot_callbacks_def)
  have apart: "cancels_only fmt chat (cb_update_user C u f)" "cancels_only fmt chat (cb_delete_message C c m)"
    "cancels_only fmt chat (cb_edit_keyboard C c m t k)" "cancels_only fmt chat (cb_answer C q t a)" for u f c m t k q a
    using C unfolding callbacks_apart_def by (blast intro: apart_cancels_only)+
  show ?thesis
    unfolding callback_dispatch_def callback_action_def close_action_def settings_action_def task_action_def react_def toast_def
      sel Let_def
    by (intro cancels_only_bind cancels_only_if cancels_only_cases use_cases_cancel_only [OF P] apart cancels_only_return)
qed

subsection \<open>Properties\<close>


definition idle_callbacks :: "bot_world callback_deps" where
  "idle_callbacks = \<lparr>cb_cancel = (\<lambda>_. State_Monad.return (Inr ())), cb_pause = (\<lambda>_. State_Monad.return (Inr ())),
     cb_resume = (\<lambda>_. State_Monad.return (Inr ())),
     cb_update_user = (\<lambda>u _. State_Monad.return (Inr (default_user_settings u))),
     cb_delete_message = (\<lambda>_ _. State_Monad.return (Inr ())), cb_edit_keyboard = (\<lambda>_ _ _ _. State_Monad.return (Inr ())),
     cb_answer = (\<lambda>_ _ _. State_Monad.return (Inr ()))\<rparr>"

definition idle_deps :: "bot_world deps" where
  "idle_deps = \<lparr>de_authority = \<lparr>owner = UserId 1, sudo_users = [], authorized_chats = []\<rparr>, de_printer = floor_printer,
     de_version = [], de_send = (\<lambda>_ _. State_Monad.return (Inr (MessageId 1))), de_edit = (\<lambda>_ _ _. State_Monad.return (Inr ())),
     de_send_keyboard = (\<lambda>_ _ _. State_Monad.return (Inr (MessageId 1))),
     de_send_file = (\<lambda>_ _ _ _. State_Monad.return (Inr (MessageId 1))),
     de_clock = State_Monad.return 0, de_log_exists = State_Monad.return None, de_log_size = State_Monad.return (Inr 0),
     de_mirror = (\<lambda>_. State_Monad.return None), de_leech = (\<lambda>_. State_Monad.return None),
     de_clone = (\<lambda>_. State_Monad.return (Inr [])),
     de_count = (\<lambda>_. State_Monad.return (Inr \<lparr>ct_files = 0, ct_folders = 0, ct_total_bytes = 0\<rparr>)),
     de_delete = (\<lambda>_. State_Monad.return (Inr ())), de_cancel = (\<lambda>_. State_Monad.return (Inr ())),
     de_cancel_all = (\<lambda>_. State_Monad.return (Inr \<lparr>car_cancelled = 0, car_failed = 0\<rparr>)),
     de_pause = (\<lambda>_. State_Monad.return (Inr ())), de_resume = (\<lambda>_. State_Monad.return (Inr ())),
     de_status = (\<lambda>_. State_Monad.return (Inr ())),
     de_stats = State_Monad.return (Inl (mk_error EC_NotFound [])),
     de_update_user = (\<lambda>u _. State_Monad.return (Inr (default_user_settings u))),
     de_update_bot = (\<lambda>_. State_Monad.return (Inr default_bot_settings)),
     de_rss_add = (\<lambda>_. State_Monad.return (Inr 1)), de_rss_list = (\<lambda>_. State_Monad.return (Inr [])),
     de_rss_remove = (\<lambda>_ _ _. State_Monad.return (Inr ()))\<rparr>"

lemma idle_apart: "deps_apart idle_deps" "callbacks_apart idle_callbacks"
  by (simp_all add: deps_apart_def idle_deps_def callbacks_apart_def idle_callbacks_def apart_return)


text \<open>
  A button needs no permission: a press by any user at all on a task of the chat cancels the task,
  which the command \<open>/cancel\<close> refuses to senders without the \<open>User\<close> permission.
\<close>

theorem any_user_cancels_by_button:
  "map r_state (w_store (snd (run_state (on_callback_query (bot_callbacks quiet_ports idle_callbacks) (ChatId 100) anyone
     (MessageId 1) query ''task:cancel:t1'') example_world))) = [''Cancelled'']"
proof -
  let ?m = "cancel_execute quiet_ports \<lparr>tr_task_id = TaskId ''t1'', tr_chat = ChatId 100\<rparr>"
  have "map r_state (w_store (snd (run_state ?m example_world))) = [''Cancelled'']" by code_simp
  moreover have "callback_action (bot_callbacks quiet_ports idle_callbacks) (ChatId 100) anyone (MessageId 1) ''task:cancel:t1'' =
      do { r \<leftarrow> ?m; react r ''Cancelling task'' }"
    by (simp add: callback_action_def task_action_def split_colon_def bot_callbacks_def Let_def)
  ultimately show ?thesis
    by (simp add: on_callback_query_def callback_dispatch_def run_simps react_def case_prod_unfold bot_callbacks_def idle_callbacks_def)
qed

end
