(* ===== verification/Progress_Renderer.thy ===== *)
theory Progress_Renderer
  imports Callback_Dispatcher
begin

text \<open>
  \<open>src/presentation/progress_renderer.cpp\<close>: the per-chat status message. The coroutines of one chat
  run on its strand, so they interleave only at an await. A render is cut at its awaits into the
  functions below: \<open>render_begin\<close> and \<open>refresh_begin\<close> run up to the first messenger call,
  \<open>edit_done\<close> and \<open>send_done\<close> continue with its response. The token of the semaphore is held from
  the acquisition to the return. The relation \<open>step\<close> lets any number of periodic renders and user
  refreshes of a chat interleave. Two ghost components record what Telegram displays and the updates
  that succeeded: their stamp, whether they were periodic, and their text, newest first.
\<close>

subsection \<open>State and decisions\<close>

record chat_state =
  status_message_id :: message_id
  last_edit :: int
  last_rendered_html :: string
  sem_token :: bool

definition new_chat_state :: chat_state where
  "new_chat_state = \<lparr>status_message_id = MessageId 0, last_edit = 0, last_rendered_html = [], sem_token = True\<rparr>"

text \<open>What a coroutine waits for: the response of an edit or of a send, with the text it carries. A periodic render stamps the time it began; a refresh the time it ends.\<close>

datatype wait = is_W_Edit: W_Edit (wait_msg: message_id) (wait_html: string) (wait_began: "int option")
  | W_Send (wait_html: string) (wait_began: "int option")

datatype decision = Return_ok | Await wait

definition have_message :: "chat_state \<Rightarrow> bool" where
  "have_message s = (message_value (status_message_id s) \<noteq> 0)"

text \<open>The two panel builders give the same text for an empty list of downloads.\<close>

definition panel_html :: "printer \<Rightarrow> download_status list \<Rightarrow> system_snapshot \<Rightarrow> int \<Rightarrow> string" where
  "panel_html pr active_list snapshot uptime =
     (if active_list = [] then render_no_active_tasks pr snapshot uptime
      else render_status pr active_list snapshot uptime)"

definition render_begin :: "int \<Rightarrow> int \<Rightarrow> string \<Rightarrow> chat_state \<Rightarrow> decision \<times> chat_state" where
  "render_begin throttle now html s =
     (if \<not> sem_token s then (Return_ok, s)
      else if have_message s \<and> now - last_edit s < throttle then (Return_ok, s)
      else if have_message s \<and> html = last_rendered_html s then (Return_ok, s)
      else if \<not> have_message s then (Await (W_Send html (Some now)), s\<lparr>sem_token := False\<rparr>)
      else (Await (W_Edit (status_message_id s) html (Some now)), s\<lparr>sem_token := False\<rparr>))"

text \<open>A refresh waits for the token, so it begins only when the token is there.\<close>

definition refresh_begin :: "int \<Rightarrow> string \<Rightarrow> chat_state \<Rightarrow> decision \<times> chat_state" where
  "refresh_begin now html s =
     (if have_message s \<and> html = last_rendered_html s then (Return_ok, s\<lparr>last_edit := now\<rparr>)
      else if have_message s
      then (Await (W_Edit (status_message_id s) html None), s\<lparr>sem_token := False\<rparr>)
      else (Await (W_Send html None), s\<lparr>sem_token := False\<rparr>))"

definition stamp :: "int option \<Rightarrow> int \<Rightarrow> int" where
  "stamp began now = (case began of Some t \<Rightarrow> t | None \<Rightarrow> now)"

definition edit_done :: "message_id \<Rightarrow> string \<Rightarrow> int option \<Rightarrow> int \<Rightarrow> unit res \<Rightarrow> chat_state \<Rightarrow> decision \<times> chat_state" where
  "edit_done m html began now r s =
     (case r of
        Inl e \<Rightarrow> (Await (W_Send html began), s)
      | Inr _ \<Rightarrow> (Return_ok, s\<lparr>last_edit := stamp began now, last_rendered_html := html, sem_token := True\<rparr>))"

definition send_done :: "string \<Rightarrow> int option \<Rightarrow> int \<Rightarrow> message_id res \<Rightarrow> chat_state \<Rightarrow> unit res \<times> chat_state" where
  "send_done html began now r s =
     (case r of
        Inl e \<Rightarrow> (Inl e, s\<lparr>sem_token := True\<rparr>)
      | Inr m \<Rightarrow> (Inr (), s\<lparr>status_message_id := m, last_edit := stamp began now,
                          last_rendered_html := html, sem_token := True\<rparr>))"

subsection \<open>Interleaved renders of one chat\<close>

datatype label =
    L_Quiet
  | L_EditCall message_id string
  | L_EditOk message_id string
  | L_EditFail
  | L_SendCall string
  | L_SendOk message_id string
  | L_SendFail

record chat_world =
  cw_state :: chat_state
  cw_waiting :: "wait list"
  cw_now :: int
  cw_shown :: "message_id \<rightharpoonup> string"
  cw_updates :: "(int \<times> bool \<times> string) list"

definition quiet_panel :: "int \<Rightarrow> chat_world" where
  "quiet_panel now = \<lparr>cw_state = new_chat_state, cw_waiting = [], cw_now = now, cw_shown = Map.empty, cw_updates = []\<rparr>"

fun wait_label :: "wait \<Rightarrow> label" where
  "wait_label (W_Edit m html b) = L_EditCall m html"
| "wait_label (W_Send html b) = L_SendCall html"

text \<open>
  Telegram gives a sent message a new non-zero id and shows its text; a successful edit replaces the
  text of that message, a refused one leaves it; a message disappears when somebody deletes it. Time
  does not run backwards.
\<close>

inductive step :: "int \<Rightarrow> chat_world \<Rightarrow> label \<Rightarrow> chat_world \<Rightarrow> bool" for throttle where
  Tick: "cw_now w \<le> t \<Longrightarrow> step throttle w L_Quiet (w\<lparr>cw_now := t\<rparr>)"
| Render_skip: "render_begin throttle (cw_now w) html (cw_state w) = (Return_ok, s) \<Longrightarrow>
    step throttle w L_Quiet (w\<lparr>cw_state := s\<rparr>)"
| Render_call: "render_begin throttle (cw_now w) html (cw_state w) = (Await a, s) \<Longrightarrow>
    step throttle w (wait_label a) (w\<lparr>cw_state := s, cw_waiting := a # cw_waiting w\<rparr>)"
| Refresh_skip: "sem_token (cw_state w) \<Longrightarrow> refresh_begin (cw_now w) html (cw_state w) = (Return_ok, s) \<Longrightarrow>
    step throttle w L_Quiet (w\<lparr>cw_state := s\<rparr>)"
| Refresh_call: "sem_token (cw_state w) \<Longrightarrow> refresh_begin (cw_now w) html (cw_state w) = (Await a, s) \<Longrightarrow>
    step throttle w (wait_label a) (w\<lparr>cw_state := s, cw_waiting := a # cw_waiting w\<rparr>)"
| Edit_ok: "W_Edit m html b \<in> set (cw_waiting w) \<Longrightarrow>
    edit_done m html b (cw_now w) (Inr ()) (cw_state w) = (Return_ok, s) \<Longrightarrow>
    step throttle w (L_EditOk m html)
      (w\<lparr>cw_state := s, cw_waiting := remove1 (W_Edit m html b) (cw_waiting w),
         cw_shown := (cw_shown w)(m \<mapsto> html),
         cw_updates := (stamp b (cw_now w), b \<noteq> None, html) # cw_updates w\<rparr>)"
| Edit_fail: "W_Edit m html b \<in> set (cw_waiting w) \<Longrightarrow>
    edit_done m html b (cw_now w) (Inl e) (cw_state w) = (Await a, s) \<Longrightarrow>
    step throttle w L_EditFail
      (w\<lparr>cw_state := s, cw_waiting := a # remove1 (W_Edit m html b) (cw_waiting w)\<rparr>)"
| Send_ok: "W_Send html b \<in> set (cw_waiting w) \<Longrightarrow> message_value m \<noteq> 0 \<Longrightarrow> m \<notin> dom (cw_shown w) \<Longrightarrow>
    send_done html b (cw_now w) (Inr m) (cw_state w) = (Inr (), s) \<Longrightarrow>
    step throttle w (L_SendOk m html)
      (w\<lparr>cw_state := s, cw_waiting := remove1 (W_Send html b) (cw_waiting w),
         cw_shown := (cw_shown w)(m \<mapsto> html),
         cw_updates := (stamp b (cw_now w), b \<noteq> None, html) # cw_updates w\<rparr>)"
| Send_fail: "W_Send html b \<in> set (cw_waiting w) \<Longrightarrow>
    send_done html b (cw_now w) (Inl e) (cw_state w) = (Inl e, s) \<Longrightarrow>
    step throttle w L_SendFail
      (w\<lparr>cw_state := s, cw_waiting := remove1 (W_Send html b) (cw_waiting w)\<rparr>)"
| Deleted: "step throttle w L_Quiet (w\<lparr>cw_shown := (cw_shown w)(m := None)\<rparr>)"

inductive_cases stepE: "step throttle w l w'"

inductive reach :: "int \<Rightarrow> chat_world \<Rightarrow> bool" for throttle where
  Start: "reach throttle (quiet_panel now)"
| Step: "reach throttle w \<Longrightarrow> step throttle w l w' \<Longrightarrow> reach throttle w'"

lemmas panel_defs = render_begin_def refresh_begin_def edit_done_def send_done_def

subsection \<open>Invariant\<close>

text \<open>Each update differs from the one before it, and a periodic one comes a throttle interval later.\<close>

fun spaced :: "int \<Rightarrow> (int \<times> bool \<times> string) list \<Rightarrow> bool" where
  "spaced throttle ((t, periodic, html) # (t', periodic', html') # us) =
     ((periodic \<longrightarrow> throttle \<le> t - t') \<and> html \<noteq> html' \<and> spaced throttle ((t', periodic', html') # us))"
| "spaced throttle _ = True"

definition wait_ok :: "int \<Rightarrow> chat_state \<Rightarrow> int \<Rightarrow> wait \<Rightarrow> bool" where
  "wait_ok throttle s now a =
     ((is_W_Edit a \<longrightarrow> wait_msg a = status_message_id s \<and> have_message s) \<and>
      (\<forall>t. wait_began a = Some t \<longrightarrow> t \<le> now \<and> (have_message s \<longrightarrow> throttle \<le> t - last_edit s)) \<and>
      (have_message s \<longrightarrow> wait_html a \<noteq> last_rendered_html s))"

lemma have_message_token [simp]: "have_message (s\<lparr>sem_token := b\<rparr>) = have_message s"
  by (simp add: have_message_def)

lemma wait_ok_token [simp]: "wait_ok throttle (s\<lparr>sem_token := b\<rparr>) now a = wait_ok throttle s now a"
  by (simp add: wait_ok_def)

lemma wait_ok_later: "wait_ok throttle s now a \<Longrightarrow> now \<le> t \<Longrightarrow> wait_ok throttle s t a"
  by (auto simp: wait_ok_def)

text \<open>
  The token is there exactly when nobody waits, at most one coroutine waits, a waiting coroutine
  edits the cached message with a new text, and the cache describes the newest update and what
  Telegram shows.
\<close>

definition panel_inv :: "int \<Rightarrow> chat_world \<Rightarrow> bool" where
  "panel_inv throttle w =
     (length (cw_waiting w) = (if sem_token (cw_state w) then 0 else 1) \<and>
      list_all (wait_ok throttle (cw_state w) (cw_now w)) (cw_waiting w) \<and>
      (have_message (cw_state w) \<longleftrightarrow> cw_updates w \<noteq> []) \<and>
      (\<forall>t p html us. cw_updates w = (t, p, html) # us \<longrightarrow>
         t \<le> last_edit (cw_state w) \<and> html = last_rendered_html (cw_state w)) \<and>
      (have_message (cw_state w) \<longrightarrow> last_edit (cw_state w) \<le> cw_now w) \<and>
      spaced throttle (cw_updates w) \<and>
      (\<forall>html. cw_shown w (status_message_id (cw_state w)) = Some html \<longrightarrow>
         html = last_rendered_html (cw_state w)))"

lemma panel_inv_start: "panel_inv throttle (quiet_panel now)"
  by (simp add: panel_inv_def quiet_panel_def new_chat_state_def have_message_def)

lemma waiting_single:
  assumes "panel_inv throttle w" "a \<in> set (cw_waiting w)"
  shows "cw_waiting w = [a]" "wait_ok throttle (cw_state w) (cw_now w) a" "\<not> sem_token (cw_state w)"
proof -
  have "length (cw_waiting w) = 1" using assms by (cases "cw_waiting w") (auto simp: panel_inv_def split: if_splits)
  then obtain b where "cw_waiting w = [b]" by (auto simp: length_Suc_conv)
  with assms show "cw_waiting w = [a]" "wait_ok throttle (cw_state w) (cw_now w) a" "\<not> sem_token (cw_state w)"
    by (auto simp: panel_inv_def split: if_splits)
qed

lemma spaced_Cons:
  assumes "panel_inv throttle w" "wait_ok throttle (cw_state w) (cw_now w) a"
  shows "spaced throttle ((stamp (wait_began a) (cw_now w), wait_began a \<noteq> None, wait_html a) # cw_updates w)"
proof (cases "cw_updates w")
  case (Cons u us)
  obtain t p html where u: "u = (t, p, html)" by (metis prod.exhaust)
  have "have_message (cw_state w)" "t \<le> last_edit (cw_state w)" "html = last_rendered_html (cw_state w)"
    "spaced throttle (cw_updates w)"
    using assms(1) Cons u by (auto simp: panel_inv_def)
  with assms(2) Cons u show ?thesis
    by (auto simp: wait_ok_def stamp_def)
qed simp

lemma idle_call:
  assumes inv: "panel_inv throttle w" and tok: "sem_token (cw_state w)"
    and a: "wait_ok throttle (cw_state w) (cw_now w) a"
  shows "panel_inv throttle (w\<lparr>cw_state := (cw_state w)\<lparr>sem_token := False\<rparr>, cw_waiting := a # cw_waiting w\<rparr>)"
  using inv tok a by (simp add: panel_inv_def)

lemma inv_render_call:
  assumes inv: "panel_inv throttle w" and r: "render_begin throttle (cw_now w) html (cw_state w) = (Await a, s)"
  shows "panel_inv throttle (w\<lparr>cw_state := s, cw_waiting := a # cw_waiting w\<rparr>)"
proof -
  have tok: "sem_token (cw_state w)" and s: "s = (cw_state w)\<lparr>sem_token := False\<rparr>"
    using r by (auto simp: render_begin_def split: if_splits)
  have "wait_ok throttle (cw_state w) (cw_now w) a"
    using r by (auto simp: render_begin_def wait_ok_def split: if_splits)
  with idle_call [OF inv tok] s show ?thesis by simp
qed

lemma inv_refresh_call:
  assumes inv: "panel_inv throttle w" and tok: "sem_token (cw_state w)"
    and r: "refresh_begin (cw_now w) html (cw_state w) = (Await a, s)"
  shows "panel_inv throttle (w\<lparr>cw_state := s, cw_waiting := a # cw_waiting w\<rparr>)"
proof -
  have s: "s = (cw_state w)\<lparr>sem_token := False\<rparr>"
    using r by (auto simp: refresh_begin_def split: if_splits)
  have "wait_ok throttle (cw_state w) (cw_now w) a"
    using r by (auto simp: refresh_begin_def wait_ok_def split: if_splits)
  with idle_call [OF inv tok] s show ?thesis by simp
qed

lemma inv_update:
  assumes inv: "panel_inv throttle w" and a: "cw_waiting w = [a]" "wait_ok throttle (cw_state w) (cw_now w) a" and m: "message_value m \<noteq> 0"
  shows "panel_inv throttle (w\<lparr>cw_state := (cw_state w)\<lparr>status_message_id := m,
      last_edit := stamp (wait_began a) (cw_now w), last_rendered_html := wait_html a, sem_token := True\<rparr>,
      cw_waiting := [], cw_shown := (cw_shown w)(m \<mapsto> wait_html a),
      cw_updates := (stamp (wait_began a) (cw_now w), wait_began a \<noteq> None, wait_html a) # cw_updates w\<rparr>)"
proof -
  have "stamp (wait_began a) (cw_now w) \<le> cw_now w"
    using a(2) by (cases "wait_began a") (auto simp: wait_ok_def stamp_def)
  with spaced_Cons [OF inv a(2)] m show ?thesis by (simp add: panel_inv_def have_message_def)
qed

lemma panel_inv_step: "panel_inv throttle w \<Longrightarrow> step throttle w l w' \<Longrightarrow> panel_inv throttle w'"
proof (erule stepE, goal_cases)
  case (1 t)
  then show ?case by (auto simp: panel_inv_def list_all_iff intro: wait_ok_later)
next
  case (2 html s)
  then show ?case by (auto simp: render_begin_def split: if_splits)
next
  case (3 html a s)
  then show ?case by (simp add: inv_render_call)
next
  case (4 html s)
  then show ?case
    by (auto simp: refresh_begin_def panel_inv_def have_message_def split: if_splits)
next
  case (5 html a s)
  then show ?case by (simp add: inv_refresh_call)
next
  case (6 m html b s)
  note w = waiting_single [OF 6(1,4)]
  have m: "m = status_message_id (cw_state w)" "message_value m \<noteq> 0"
    using w(2) by (auto simp: wait_ok_def have_message_def)
  have "s = (cw_state w)\<lparr>status_message_id := m, last_edit := stamp b (cw_now w),
      last_rendered_html := html, sem_token := True\<rparr>"
    using 6(5) m(1) by (simp add: edit_done_def)
  with inv_update [OF 6(1) w(1,2) m(2)] 6 w(1) show ?case by simp
next
  case (7 m html b e a s)
  note w = waiting_single [OF 7(1,4)]
  have "a = W_Send html b" "s = cw_state w" using 7(5) by (auto simp: edit_done_def)
  moreover have "wait_ok throttle (cw_state w) (cw_now w) (W_Send html b)" using w(2) by (simp add: wait_ok_def)
  ultimately show ?case using 7 w by (simp add: panel_inv_def)
next
  case (8 html b m s)
  note w = waiting_single [OF 8(1,4)]
  have "s = (cw_state w)\<lparr>status_message_id := m, last_edit := stamp b (cw_now w),
      last_rendered_html := html, sem_token := True\<rparr>"
    using 8(7) by (simp add: send_done_def)
  with inv_update [OF 8(1) w(1,2) 8(5)] 8 w(1) show ?case by simp
next
  case (9 html b e s)
  note w = waiting_single [OF 9(1,4)]
  have "s = (cw_state w)\<lparr>sem_token := True\<rparr>" using 9(5) by (simp add: send_done_def)
  with 9 w show ?case by (auto simp: panel_inv_def have_message_def)
next
  case (10 m)
  then show ?case by (auto simp: panel_inv_def)
qed

lemma reach_inv: "reach throttle w \<Longrightarrow> panel_inv throttle w"
  by (induction rule: reach.induct) (auto intro: panel_inv_start panel_inv_step)

subsection \<open>The token comes back\<close>

text \<open>Responses of Telegram still needed before the token is released, at most.\<close>

definition work :: "chat_world \<Rightarrow> nat" where
  "work w = sum_list (map (\<lambda>a. if is_W_Edit a then 2 else 1) (cw_waiting w))"

fun is_response :: "label \<Rightarrow> bool" where
  "is_response (L_EditOk m h) = True"
| "is_response L_EditFail = True"
| "is_response (L_SendOk m h) = True"
| "is_response L_SendFail = True"
| "is_response _ = False"

lemma wait_label_no_response [simp]: "\<not> is_response (wait_label a)"
  by (cases a) simp_all

lemma response_works:
  assumes inv: "panel_inv throttle w" and st: "step throttle w l w'" "is_response l"
  shows "work w' < work w"
  using st
proof (cases rule: step.cases)
  case (Edit_ok m html b s)
  with waiting_single(1) [OF inv Edit_ok(3)] show ?thesis by (simp add: work_def)
next
  case (Edit_fail m html b e a s)
  then have "a = W_Send html b" by (simp add: edit_done_def)
  with Edit_fail waiting_single(1) [OF inv Edit_fail(3)] show ?thesis by (simp add: work_def)
next
  case (Send_ok html b m s)
  with waiting_single(1) [OF inv Send_ok(3)] show ?thesis by (simp add: work_def)
next
  case (Send_fail html b e s)
  with waiting_single(1) [OF inv Send_fail(3)] show ?thesis by (simp add: work_def)
qed (auto simp: st)

lemma response_enabled:
  assumes "panel_inv throttle w" "a \<in> set (cw_waiting w)"
  shows "\<exists>l w'. is_response l \<and> step throttle w l w'"
proof (cases a)
  case (W_Edit m html b)
  with assms(2) have "W_Edit m html b \<in> set (cw_waiting w)" by simp
  from step.Edit_ok [OF this, of _ throttle] have "\<exists>w'. step throttle w (L_EditOk m html) w'"
    by (simp add: edit_done_def) blast
  then show ?thesis by (metis is_response.simps(1))
next
  case (W_Send html b)
  with assms(2) have "W_Send html b \<in> set (cw_waiting w)" by simp
  from step.Send_fail [OF this, of _ _ throttle] have "\<exists>w'. step throttle w L_SendFail w'"
    by (simp add: send_done_def) blast
  then show ?thesis by (metis is_response.simps(4))
qed

subsection \<open>Properties\<close>

text \<open>
  C10. However the renders and refreshes of a chat interleave, at most one of them talks to Telegram
  at a time; the updates it makes differ each from the one before, and a periodic one begins at
  least one throttle interval after the stamp of the one before; and the cached message, while
  Telegram still shows it, shows the cached text.
\<close>

theorem status_panel_coherent:
  assumes "reach throttle w"
  shows "length (cw_waiting w) \<le> 1 \<and> (sem_token (cw_state w) \<longleftrightarrow> cw_waiting w = []) \<and>
    spaced throttle (cw_updates w) \<and>
    (\<forall>html. cw_shown w (status_message_id (cw_state w)) = Some html \<longrightarrow>
       html = last_rendered_html (cw_state w))"
  using reach_inv [OF assms] by (auto simp: panel_inv_def split: if_splits)

definition after_first_send :: chat_world where
  "after_first_send = \<lparr>cw_state = \<lparr>status_message_id = MessageId 7, last_edit = 5,
      last_rendered_html = ''x'', sem_token = True\<rparr>, cw_waiting = [], cw_now = 5,
      cw_shown = [MessageId 7 \<mapsto> ''x''], cw_updates = [(5, True, ''x'')]\<rparr>"

lemma reach_after_first_send: "reach 3000 after_first_send"
proof -
  let ?w0 = "quiet_panel 5"
  let ?w1 = "?w0\<lparr>cw_state := new_chat_state\<lparr>sem_token := False\<rparr>, cw_waiting := [W_Send ''x'' (Some 5)]\<rparr>"
  have "step 3000 ?w0 (wait_label (W_Send ''x'' (Some 5)))
    (?w0\<lparr>cw_state := new_chat_state\<lparr>sem_token := False\<rparr>, cw_waiting := W_Send ''x'' (Some 5) # cw_waiting ?w0\<rparr>)"
    by (rule Render_call [where html = "''x''"])
      (simp add: render_begin_def quiet_panel_def new_chat_state_def have_message_def)
  then have r1: "reach 3000 ?w1"
    using reach.Step [OF reach.Start] by (simp add: quiet_panel_def)
  have "step 3000 ?w1 (L_SendOk (MessageId 7) ''x'')
    (?w1\<lparr>cw_state := snd (send_done ''x'' (Some 5) 5 (Inr (MessageId 7)) (cw_state ?w1)),
       cw_waiting := remove1 (W_Send ''x'' (Some 5)) (cw_waiting ?w1),
       cw_shown := (cw_shown ?w1)(MessageId 7 \<mapsto> ''x''),
       cw_updates := (stamp (Some 5) (cw_now ?w1), Some (5 :: int) \<noteq> None, ''x'') # cw_updates ?w1\<rparr>)"
    by (rule Send_ok) (simp_all add: send_done_def quiet_panel_def)
  from reach.Step [OF r1 this] show ?thesis
    by (simp add: after_first_send_def send_done_def quiet_panel_def new_chat_state_def stamp_def)
qed

theorem status_panel_coherent_witness:
  "spaced 3000 (cw_updates after_first_send) \<and> length (cw_waiting after_first_send) \<le> 1"
  using status_panel_coherent [OF reach_after_first_send] by blast

text \<open>
  C39. No render is stuck and the token always comes back: while a coroutine holds the token, some
  response of Telegram lets it go on, every response, success or failure, brings the release nearer
  (at most two are needed), and with none outstanding the token is free again.
\<close>

theorem panel_token_returns:
  assumes "reach throttle w"
  shows "work w \<le> 2 \<and>
    (\<forall>l w'. step throttle w l w' \<longrightarrow> is_response l \<longrightarrow> work w' < work w) \<and>
    (cw_waiting w \<noteq> [] \<longrightarrow> (\<exists>l w'. is_response l \<and> step throttle w l w')) \<and>
    (work w = 0 \<longrightarrow> sem_token (cw_state w))"
proof -
  note inv = reach_inv [OF assms]
  have "cw_waiting w = [] \<or> (\<exists>a. cw_waiting w = [a])"
    using inv by (cases "cw_waiting w") (auto simp: panel_inv_def split: if_splits)
  then have "work w \<le> 2" by (auto simp: work_def)
  moreover have "work w = 0 \<longrightarrow> sem_token (cw_state w)"
    using inv by (cases "cw_waiting w") (auto simp: work_def panel_inv_def split: if_splits)
  moreover have "cw_waiting w \<noteq> [] \<longrightarrow> (\<exists>l w'. is_response l \<and> step throttle w l w')"
    using response_enabled [OF inv] by (meson last_in_set)
  ultimately show ?thesis using response_works [OF inv] by blast
qed

theorem panel_token_returns_witness:
  "sem_token (cw_state after_first_send)"
proof -
  have "work after_first_send = 0" by (simp add: work_def after_first_send_def)
  with panel_token_returns [OF reach_after_first_send] show ?thesis by blast
qed

end
