(* ===== verification/Rss_Store.thy ===== *)
theory Rss_Store
  imports Settings
begin

text \<open>
  RSS feeds: the SQLite repository \<open>sqlite_rss_feed_repository.cpp\<close> over the \<open>rss_feeds\<close> table (with its
  \<open>AUTOINCREMENT\<close> key and \<open>UNIQUE\<close> URL) and the use case \<open>rss_subscription.cpp\<close>. The interface
  \<open>RssFeedRepository\<close> is the locale \<open>rss_repository\<close>, interpreted on the SQLite operations; the
  subscription lemmas are proved in it. Ids are unbounded integers here, SQLite stops at \<open>2^63 - 1\<close>.
\<close>

subsection \<open>Rows\<close>

record rss_row =
  rr_id :: int
  rr_title :: string
  rr_url :: string
  rr_chat :: int
  rr_include :: string
  rr_exclude :: string
  rr_guid :: string
  rr_checked :: "string option"
  rr_enabled :: int
  rr_created :: string

text \<open>\<open>rt_seq\<close> is the entry of the table in \<open>sqlite_sequence\<close>: the largest id ever used.\<close>

record rss_table =
  rt_rows :: "rss_row list"
  rt_seq :: int

definition feed_of_row :: "rss_row \<Rightarrow> rss_feed res" where
  "feed_of_row r =
     (case parse_iso8601 (rr_created r) of Inl e \<Rightarrow> Inl e | Inr created \<Rightarrow>
     (case (case rr_checked r of None \<Rightarrow> Inr None | Some s \<Rightarrow> map_sum id Some (parse_iso8601 s)) of
        Inl e \<Rightarrow> Inl e
      | Inr checked \<Rightarrow>
        Inr \<lparr>rf_feed_id = rr_id r, rf_title = rr_title r, rf_url = rr_url r, rf_chat = ChatId (rr_chat r),
             rf_include_regex = rr_include r, rf_exclude_regex = rr_exclude r, rf_last_guid = rr_guid r,
             rf_last_checked_at = checked, rf_enabled = (rr_enabled r \<noteq> 0), rf_created_at = created\<rparr>))"

definition row_of_feed :: "(int \<Rightarrow> string) \<Rightarrow> int \<Rightarrow> rss_feed \<Rightarrow> rss_row" where
  "row_of_feed fmt i f =
     \<lparr>rr_id = i, rr_title = rf_title f, rr_url = rf_url f, rr_chat = chat_value (rf_chat f),
      rr_include = rf_include_regex f, rr_exclude = rf_exclude_regex f, rr_guid = rf_last_guid f,
      rr_checked = map_option (to_iso8601 fmt) (rf_last_checked_at f),
      rr_enabled = (if rf_enabled f then 1 else 0), rr_created = to_iso8601 fmt (rf_created_at f)\<rparr>"

fun collect_feeds :: "rss_row list \<Rightarrow> rss_feed list res" where
  "collect_feeds [] = Inr []"
| "collect_feeds (r # rs) =
     (case feed_of_row r of Inl e \<Rightarrow> Inl e | Inr f \<Rightarrow> map_sum id (Cons f) (collect_feeds rs))"

subsection \<open>Operations\<close>

definition rss_list_enabled :: "db_env \<Rightarrow> rss_table \<Rightarrow> rss_feed list res \<times> rss_table" where
  "rss_list_enabled env tab =
     with_db env ''rss_feeds.list_enabled'' tab
       (collect_feeds (sort_key rr_id (filter (\<lambda>r. rr_enabled r = 1) (rt_rows tab))), tab)"

definition rss_find :: "db_env \<Rightarrow> int \<Rightarrow> rss_table \<Rightarrow> rss_feed option res \<times> rss_table" where
  "rss_find env i tab =
     with_db env ''rss_feeds.find'' tab
       ((case List.find (\<lambda>r. rr_id r = i) (rt_rows tab) of
           None \<Rightarrow> Inr None
         | Some r \<Rightarrow> map_sum id Some (feed_of_row r)), tab)"

definition rss_save :: "(int \<Rightarrow> string) \<Rightarrow> db_env \<Rightarrow> rss_feed \<Rightarrow> rss_table \<Rightarrow> rss_feed res \<times> rss_table" where
  "rss_save fmt env feed tab =
     (let feed = (if rf_created_at feed = 0 then feed\<lparr>rf_created_at := env_now env\<rparr> else feed) in
      with_db env ''rss_feeds.save'' tab
        (if rf_feed_id feed = 0
         then (if \<exists>r \<in> set (rt_rows tab). rr_url r = rf_url feed
               then (Inl (mk_error EC_AlreadyExists (''rss_feeds.save: URL already exists: '' @ rf_url feed)), tab)
               else let i = rt_seq tab + 1 in
                 (Inr (feed\<lparr>rf_feed_id := i\<rparr>),
                  \<lparr>rt_rows = rt_rows tab @ [row_of_feed fmt i feed], rt_seq = i\<rparr>))
         else (Inr feed,
               \<lparr>rt_rows = filter (\<lambda>r. rr_id r \<noteq> rf_feed_id feed \<and> rr_url r \<noteq> rf_url feed) (rt_rows tab)
                           @ [row_of_feed fmt (rf_feed_id feed) feed],
                rt_seq = max (rt_seq tab) (rf_feed_id feed)\<rparr>)))"

definition rss_update_state ::
    "(int \<Rightarrow> string) \<Rightarrow> db_env \<Rightarrow> int \<Rightarrow> string \<Rightarrow> systime \<Rightarrow> rss_table \<Rightarrow> unit res \<times> rss_table" where
  "rss_update_state fmt env i guid checked tab =
     with_db env ''rss_feeds.update_state'' tab
       (if \<exists>r \<in> set (rt_rows tab). rr_id r = i
        then (Inr (), tab\<lparr>rt_rows := map (\<lambda>r. if rr_id r = i
                then r\<lparr>rr_guid := guid, rr_checked := Some (to_iso8601 fmt checked)\<rparr> else r) (rt_rows tab)\<rparr>)
        else (Inl (mk_error EC_NotFound (''rss_feeds.update_state: no row for feed_id '' @ int_to_string i)), tab))"

definition rss_remove :: "db_env \<Rightarrow> int \<Rightarrow> rss_table \<Rightarrow> unit res \<times> rss_table" where
  "rss_remove env i tab =
     with_db env ''rss_feeds.remove'' tab
       (if \<exists>r \<in> set (rt_rows tab). rr_id r = i
        then (Inr (), tab\<lparr>rt_rows := filter (\<lambda>r. rr_id r \<noteq> i) (rt_rows tab)\<rparr>)
        else (Inl (mk_error EC_NotFound (''rss_feeds.remove: no row for feed_id '' @ int_to_string i)), tab))"

subsection \<open>The interface\<close>

text \<open>A feed without its two times, which are stored in milliseconds.\<close>

definition untimed :: "rss_feed \<Rightarrow> rss_feed" where
  "untimed f = f\<lparr>rf_last_checked_at := None, rf_created_at := 0\<rparr>"

locale rss_repository =
  fixes list_enabled :: "'e \<Rightarrow> 's \<Rightarrow> rss_feed list res \<times> 's"
    and find_feed :: "'e \<Rightarrow> int \<Rightarrow> 's \<Rightarrow> rss_feed option res \<times> 's"
    and save_feed :: "'e \<Rightarrow> rss_feed \<Rightarrow> 's \<Rightarrow> rss_feed res \<times> 's"
    and update_state :: "'e \<Rightarrow> int \<Rightarrow> string \<Rightarrow> systime \<Rightarrow> 's \<Rightarrow> unit res \<times> 's"
    and remove_feed :: "'e \<Rightarrow> int \<Rightarrow> 's \<Rightarrow> unit res \<times> 's"
    and feeds :: "'s \<Rightarrow> int \<Rightarrow> rss_feed option"
    and ok :: "'s \<Rightarrow> bool"
    and can_save :: "'e \<Rightarrow> rss_feed \<Rightarrow> bool"
    and time_ok :: "systime \<Rightarrow> bool"
  assumes list_law: "ok s \<Longrightarrow> list_enabled env s = (all, s') \<Longrightarrow> s' = s \<and>
      (\<forall>fs. all = Inr fs \<longrightarrow> untimed ` set fs = {f. \<exists>i. feeds s i = Some f \<and> rf_enabled f} \<and>
         distinct (map rf_feed_id fs))"
    and find_law: "ok s \<Longrightarrow> find_feed env i s = (r, s') \<Longrightarrow> s' = s \<and>
      (\<forall>x. r = Inr x \<longrightarrow> map_option untimed x = feeds s i)"
    and id_law: "ok s \<Longrightarrow> feeds s i = Some f \<Longrightarrow> rf_feed_id f = i"
    and insert_law: "ok s \<Longrightarrow> can_save env f \<Longrightarrow> rf_feed_id f = 0 \<Longrightarrow> save_feed env f s = (Inr f', s') \<Longrightarrow>
      ok s' \<and> feeds s (rf_feed_id f') = None \<and> rf_feed_id f' \<noteq> 0 \<and>
      untimed f' = untimed (f\<lparr>rf_feed_id := rf_feed_id f'\<rparr>) \<and>
      feeds s' = (feeds s)(rf_feed_id f' \<mapsto> untimed f')"
    and save_error: "save_feed env f s = (Inl e, s') \<Longrightarrow> s' = s"
    and update_law: "ok s \<Longrightarrow> time_ok t \<Longrightarrow> update_state env i g t s = (Inr (), s') \<Longrightarrow>
      ok s' \<and> (\<exists>f. feeds s i = Some f \<and> feeds s' = (feeds s)(i \<mapsto> f\<lparr>rf_last_guid := g\<rparr>))"
    and update_error: "update_state env i g t s = (Inl e, s') \<Longrightarrow> s' = s"
    and remove_law: "ok s \<Longrightarrow> remove_feed env i s = (Inr (), s') \<Longrightarrow> ok s' \<and> feeds s' = (feeds s)(i := None)"
    and remove_error: "remove_feed env i s = (Inl e, s') \<Longrightarrow> s' = s"

subsection \<open>Subscriptions\<close>

definition rss_add :: "(rss_feed \<Rightarrow> ('w, rss_feed res) state) \<Rightarrow> rss_feed \<Rightarrow> ('w, int res) state" where
  "rss_add save feed =
     (if rf_url feed = [] then State_Monad.return (Inl (mk_error EC_InvalidArgument ''rss add: empty URL''))
      else if \<not> (take 7 (rf_url feed) = ''http://'' \<or> take 8 (rf_url feed) = ''https://'')
      then State_Monad.return (Inl (mk_error EC_InvalidArgument ''rss add: URL must start with http:// or https://''))
      else do {
        saved \<leftarrow> save (feed\<lparr>rf_feed_id := 0\<rparr>);
        State_Monad.return (map_sum id rf_feed_id saved)
      })"

definition rss_list_for_chat :: "('w, rss_feed list res) state \<Rightarrow> chat_id \<Rightarrow> ('w, rss_feed list res) state" where
  "rss_list_for_chat list_enabled chat = do {
     all \<leftarrow> list_enabled;
     State_Monad.return (map_sum id (filter (\<lambda>f. rf_chat f = chat)) all)
   }"

definition rss_unsubscribe ::
    "(int \<Rightarrow> ('w, rss_feed option res) state) \<Rightarrow> (int \<Rightarrow> ('w, unit res) state) \<Rightarrow> int \<Rightarrow> user_id \<Rightarrow> chat_id \<Rightarrow>
     ('w, unit res) state" where
  "rss_unsubscribe lookup remove feed_id requester requester_chat = do {
     loaded \<leftarrow> lookup feed_id;
     (case loaded of
        Inl e \<Rightarrow> State_Monad.return (Inl e)
      | Inr None \<Rightarrow> State_Monad.return (Inl (mk_error EC_NotFound ''rss remove: feed not found''))
      | Inr (Some f) \<Rightarrow>
          if rf_chat f \<noteq> requester_chat
          then State_Monad.return (Inl (mk_error EC_PermissionDenied ''rss remove: requester does not own feed''))
          else remove feed_id)
   }"

context rss_repository
begin

lemma find_Some: "ok s \<Longrightarrow> find_feed env i s = (Inr (Some f), s') \<Longrightarrow> s' = s \<and> feeds s i = Some (untimed f)"
  using find_law by fastforce

lemma unsubscribe_law:
  assumes ok: "ok (c_store w)"
    and run: "run_state (rss_unsubscribe (\<lambda>i. db_call envs (\<lambda>env. find_feed env i))
      (\<lambda>i. db_call envs (\<lambda>env. remove_feed env i)) i u c) w = (r, w')"
  shows "ok (c_store w') \<and> (case r of
      Inl e \<Rightarrow> c_store w' = c_store w
    | Inr _ \<Rightarrow> (\<exists>f. feeds (c_store w) i = Some f \<and> rf_chat f = c) \<and>
        feeds (c_store w') = (feeds (c_store w))(i := None))"
proof -
  obtain g s1 where g: "find_feed (envs (c_count w)) i (c_store w) = (g, s1)" by fastforce
  have s1: "s1 = c_store w" using find_law [OF ok g] by simp
  show ?thesis
  proof (cases "\<exists>f. g = Inr (Some f) \<and> rf_chat f = c")
    case False
    with run g s1 ok show ?thesis
      by (cases g) (auto simp: rss_unsubscribe_def run_simps split: option.splits if_splits)
  next
    case True
    then obtain f where f: "g = Inr (Some f)" "rf_chat f = c" by blast
    have v: "feeds (c_store w) i = Some (untimed f)" using find_Some [OF ok] g f(1) by blast
    obtain x s2 where x: "remove_feed (envs (Suc (c_count w))) i (c_store w) = (x, s2)" by fastforce
    have res: "r = x" "c_store w' = s2" using run g s1 f x by (auto simp: rss_unsubscribe_def run_simps)
    show ?thesis
    proof (cases x)
      case (Inl e)
      with res x remove_error ok show ?thesis by fastforce
    next
      case (Inr y)
      with res x remove_law [OF ok, of _ i s2] v f(2) show ?thesis by (auto simp: untimed_def)
    qed
  qed
qed

lemma subscribe_law:
  assumes ok: "ok (c_store w)" and can: "\<And>n. can_save (envs n) (f\<lparr>rf_feed_id := 0\<rparr>)"
    and run: "run_state (rss_add (\<lambda>f. db_call envs (\<lambda>env. save_feed env f)) f) w = (r, w')"
  shows "ok (c_store w') \<and> (case r of
      Inl e \<Rightarrow> c_store w' = c_store w
    | Inr i \<Rightarrow> feeds (c_store w) i = None \<and> i \<noteq> 0 \<and>
        feeds (c_store w') = (feeds (c_store w))(i \<mapsto> untimed (f\<lparr>rf_feed_id := i\<rparr>)) \<and>
        (take 7 (rf_url f) = ''http://'' \<or> take 8 (rf_url f) = ''https://''))"
proof (cases "rf_url f \<noteq> [] \<and> (take 7 (rf_url f) = ''http://'' \<or> take 8 (rf_url f) = ''https://'')")
  case False
  with run ok show ?thesis by (auto simp: rss_add_def run_simps split: if_splits)
next
  case True
  obtain x s1 where x: "save_feed (envs (c_count w)) (f\<lparr>rf_feed_id := 0\<rparr>) (c_store w) = (x, s1)" by fastforce
  have res: "r = map_sum id rf_feed_id x" "c_store w' = s1"
    using run x True by (auto simp: rss_add_def run_simps)
  show ?thesis
  proof (cases x)
    case (Inl e)
    with res x save_error ok show ?thesis by fastforce
  next
    case (Inr f')
    with insert_law [OF ok can _ x [unfolded Inr]] res True show ?thesis by auto
  qed
qed

lemma listing_law:
  assumes ok: "ok (c_store w)"
    and run: "run_state (rss_list_for_chat (db_call envs list_enabled) c) w = (Inr fs, w')"
  shows "c_store w' = c_store w \<and>
    untimed ` set fs = {f. \<exists>i. feeds (c_store w) i = Some f \<and> rf_enabled f \<and> rf_chat f = c}"
proof -
  obtain x s1 where x: "list_enabled (envs (c_count w)) (c_store w) = (x, s1)" by fastforce
  obtain all where all: "x = Inr all" "fs = filter (\<lambda>f. rf_chat f = c) all"
    using run x by (cases x) (auto simp: rss_list_for_chat_def run_simps)
  from list_law [OF ok x] all(1)
  have "s1 = c_store w" and l: "untimed ` set all = {f. \<exists>i. feeds (c_store w) i = Some f \<and> rf_enabled f}" by auto
  moreover have "untimed ` set fs = {f \<in> untimed ` set all. rf_chat f = c}"
    unfolding all(2) by (auto simp: untimed_def)
  ultimately show ?thesis using run x by (auto simp: rss_list_for_chat_def run_simps)
qed

end

subsection \<open>The SQLite feeds keep the interface\<close>

definition times_ok :: "(int \<Rightarrow> string) \<Rightarrow> rss_feed \<Rightarrow> bool" where
  "times_ok fmt f = (fmt_iso fmt (rf_created_at f) \<and> pred_option (fmt_iso fmt) (rf_last_checked_at f))"

definition rss_can_save :: "(int \<Rightarrow> string) \<Rightarrow> db_env \<Rightarrow> rss_feed \<Rightarrow> bool" where
  "rss_can_save fmt env f = times_ok fmt (if rf_created_at f = 0 then f\<lparr>rf_created_at := env_now env\<rparr> else f)"

definition row_ok :: "(int \<Rightarrow> string) \<Rightarrow> rss_row \<Rightarrow> bool" where
  "row_ok fmt r = (\<exists>f. times_ok fmt f \<and> r = row_of_feed fmt (rr_id r) f)"

definition rtab_ok :: "(int \<Rightarrow> string) \<Rightarrow> rss_table \<Rightarrow> bool" where
  "rtab_ok fmt tab =
     (distinct (map rr_id (rt_rows tab)) \<and> distinct (map rr_url (rt_rows tab)) \<and> 0 \<le> rt_seq tab \<and>
      (\<forall>r \<in> set (rt_rows tab). rr_id r \<le> rt_seq tab \<and> row_ok fmt r))"

definition row_view :: "rss_row \<Rightarrow> rss_feed option" where
  "row_view r = (case feed_of_row r of Inl _ \<Rightarrow> None | Inr f \<Rightarrow> Some (untimed f))"

definition rtab_feeds :: "rss_table \<Rightarrow> int \<Rightarrow> rss_feed option" where
  "rtab_feeds tab i = Option.bind (List.find (\<lambda>r. rr_id r = i) (rt_rows tab)) row_view"

lemma row_of_feed_sel [simp]:
  "rr_id (row_of_feed fmt i f) = i" "rr_url (row_of_feed fmt i f) = rf_url f"
  "rr_enabled (row_of_feed fmt i f) = (if rf_enabled f then 1 else 0)"
  by (simp_all add: row_of_feed_def)

lemma feed_of_row_roundtrip:
  assumes "times_ok fmt f"
  shows "\<exists>f'. feed_of_row (row_of_feed fmt i f) = Inr f' \<and> untimed f' = untimed (f\<lparr>rf_feed_id := i\<rparr>)"
proof -
  obtain c where c: "parse_iso8601 (to_iso8601 fmt (rf_created_at f)) = Inr c"
    using assms by (auto simp: times_ok_def iso_roundtrip)
  show ?thesis
    using assms c
    by (cases "rf_last_checked_at f")
      (auto simp: feed_of_row_def row_of_feed_def times_ok_def iso_roundtrip untimed_def)
qed

lemma row_ok_feed:
  assumes "row_ok fmt r"
  shows "\<exists>f. feed_of_row r = Inr f \<and> row_view r = Some (untimed f) \<and> rf_feed_id f = rr_id r \<and>
    rf_enabled f = (rr_enabled r = 1)"
proof -
  obtain f where f: "times_ok fmt f" "r = row_of_feed fmt (rr_id r) f" using assms by (auto simp: row_ok_def)
  obtain f' where f': "feed_of_row r = Inr f'" "untimed f' = untimed (f\<lparr>rf_feed_id := rr_id r\<rparr>)"
    using feed_of_row_roundtrip [OF f(1)] f(2) by metis
  have e: "rr_enabled r = (if rf_enabled f then 1 else 0)" using f(2) row_of_feed_sel(3) by metis
  have "rf_feed_id f' = rf_feed_id (untimed f')" "rf_enabled f' = rf_enabled (untimed f')"
    by (simp_all add: untimed_def)
  then have "rf_feed_id f' = rr_id r" "rf_enabled f' = rf_enabled f"
    unfolding f'(2) by (simp_all add: untimed_def)
  with f'(1) e show ?thesis by (auto simp: row_view_def)
qed

lemma rtab_feeds_row:
  assumes "rtab_ok fmt tab" "r \<in> set (rt_rows tab)"
  shows "rtab_feeds tab (rr_id r) = row_view r"
proof -
  have "List.find (\<lambda>q. rr_id q = rr_id r) (rt_rows tab) = Some r"
    using assms by (intro find_distinct_key) (auto simp: rtab_ok_def)
  then show ?thesis by (simp add: rtab_feeds_def)
qed

lemma rtab_feeds_SomeE:
  assumes "rtab_ok fmt tab" "rtab_feeds tab i = Some f"
  obtains r where "r \<in> set (rt_rows tab)" "rr_id r = i" "row_view r = Some f"
proof -
  obtain r where r: "List.find (\<lambda>r. rr_id r = i) (rt_rows tab) = Some r" "row_view r = Some f"
    using assms(2) by (auto simp: rtab_feeds_def bind_eq_Some_conv)
  then have "r \<in> set (rt_rows tab)" "rr_id r = i" by (auto simp: find_Some_iff)
  with r that show ?thesis by blast
qed

lemma rtab_feeds_id:
  assumes "rtab_ok fmt tab" "rtab_feeds tab i = Some f"
  shows "rf_feed_id f = i"
proof -
  obtain r where r: "r \<in> set (rt_rows tab)" "rr_id r = i" "row_view r = Some f"
    using rtab_feeds_SomeE [OF assms] .
  then obtain g where "row_view r = Some (untimed g)" "rf_feed_id g = rr_id r"
    using row_ok_feed assms(1) unfolding rtab_ok_def by metis
  with r show ?thesis by (auto simp: untimed_def)
qed

lemma collect_feeds_ok:
  assumes "\<forall>r \<in> set rs. row_ok fmt r"
  shows "\<exists>fs. collect_feeds rs = Inr fs \<and> map rf_feed_id fs = map rr_id rs \<and>
    map (Some \<circ> untimed) fs = map row_view rs"
  using assms
proof (induction rs)
  case (Cons r rs)
  from Cons.IH Cons.prems obtain fs where fs: "collect_feeds rs = Inr fs" "map rf_feed_id fs = map rr_id rs"
    "map (Some \<circ> untimed) fs = map row_view rs" by (metis list.set_intros(2))
  obtain f where "feed_of_row r = Inr f" "row_view r = Some (untimed f)" "rf_feed_id f = rr_id r"
    using row_ok_feed Cons.prems by (meson list.set_intros(1))
  with fs show ?case by (intro exI [of _ "f # fs"]) (simp add: comp_def)
qed simp

lemma rss_list_view:
  assumes ok: "rtab_ok fmt tab" and run: "rss_list_enabled env tab = (r, tab')"
  shows "tab' = tab \<and> (\<forall>fs. r = Inr fs \<longrightarrow>
    untimed ` set fs = {f. \<exists>i. rtab_feeds tab i = Some f \<and> rf_enabled f} \<and> distinct (map rf_feed_id fs))"
proof -
  let ?rs = "sort_key rr_id (filter (\<lambda>r. rr_enabled r = 1) (rt_rows tab))"
  obtain fs where fs: "collect_feeds ?rs = Inr fs" "map rf_feed_id fs = map rr_id ?rs"
    "map (Some \<circ> untimed) fs = map row_view ?rs"
    using collect_feeds_ok [of ?rs fmt] ok by (auto simp: rtab_ok_def)
  have d: "distinct (map rf_feed_id fs)"
    unfolding fs(2) using ok by (simp add: rtab_ok_def distinct_map_filter distinct_map distinct_sort)
      (auto simp: inj_on_def distinct_map)
  have "Some ` untimed ` set fs = row_view ` set ?rs"
    using arg_cong [OF fs(3), of set] by (simp add: image_image)
  also have "\<dots> = Some ` {f. \<exists>i. rtab_feeds tab i = Some f \<and> rf_enabled f}"
  proof (intro set_eqI iffI)
    fix x assume "x \<in> row_view ` set ?rs"
    then obtain q where q: "q \<in> set (rt_rows tab)" "rr_enabled q = 1" "x = row_view q" by auto
    then obtain f where "row_view q = Some (untimed f)" "rf_enabled f"
      using row_ok_feed ok unfolding rtab_ok_def by metis
    with q rtab_feeds_row [OF ok q(1)] show "x \<in> Some ` {f. \<exists>i. rtab_feeds tab i = Some f \<and> rf_enabled f}"
      by (auto simp: untimed_def image_iff)
  next
    fix x assume "x \<in> Some ` {f. \<exists>i. rtab_feeds tab i = Some f \<and> rf_enabled f}"
    then obtain f i where f: "x = Some f" "rtab_feeds tab i = Some f" "rf_enabled f" by blast
    obtain q where q: "q \<in> set (rt_rows tab)" "rr_id q = i" "row_view q = Some f"
      using rtab_feeds_SomeE [OF ok f(2)] .
    obtain g where "row_view q = Some (untimed g)" "rf_enabled g = (rr_enabled q = 1)"
      using row_ok_feed ok q(1) unfolding rtab_ok_def by metis
    with q f have "rr_enabled q = 1" by (auto simp: untimed_def)
    with q f(1) show "x \<in> row_view ` set ?rs" by force
  qed
  finally have "untimed ` set fs = {f. \<exists>i. rtab_feeds tab i = Some f \<and> rf_enabled f}"
    by (simp add: inj_image_eq_iff)
  with d with_db_cases [OF run [unfolded rss_list_enabled_def]] fs(1) show ?thesis by auto
qed

lemma rss_find_view:
  assumes "rtab_ok fmt tab" "rss_find env i tab = (r, tab')"
  shows "tab' = tab \<and> (\<forall>x. r = Inr x \<longrightarrow> map_option untimed x = rtab_feeds tab i)"
  using with_db_cases [OF assms(2) [unfolded rss_find_def]]
  by (auto simp: rtab_feeds_def row_view_def split: option.splits sum.splits)

lemma find_append_new:
  "List.find P (xs @ [y]) = (case List.find P xs of Some x \<Rightarrow> Some x | None \<Rightarrow> if P y then Some y else None)"
  by (induction xs) auto

lemma rss_insert:
  assumes ok: "rtab_ok fmt tab" and can: "rss_can_save fmt env f" and z: "rf_feed_id f = 0"
    and run: "rss_save fmt env f tab = (Inr f', tab')"
  shows "rtab_ok fmt tab' \<and> rtab_feeds tab (rf_feed_id f') = None \<and> rf_feed_id f' \<noteq> 0 \<and>
    untimed f' = untimed (f\<lparr>rf_feed_id := rf_feed_id f'\<rparr>) \<and>
    rtab_feeds tab' = (rtab_feeds tab)(rf_feed_id f' \<mapsto> untimed f')"
proof -
  let ?f = "if rf_created_at f = 0 then f\<lparr>rf_created_at := env_now env\<rparr> else f"
  let ?i = "rt_seq tab + 1"
  let ?r = "row_of_feed fmt ?i ?f"
  have t: "times_ok fmt ?f" using can by (simp add: rss_can_save_def)
  have u: "rf_url f \<notin> rr_url ` set (rt_rows tab)" "f' = ?f\<lparr>rf_feed_id := ?i\<rparr>"
    "tab' = \<lparr>rt_rows = rt_rows tab @ [?r], rt_seq = ?i\<rparr>"
    using with_db_Inr [OF run [unfolded rss_save_def Let_def]] z by (auto split: if_splits)
  have new: "?i \<notin> rr_id ` set (rt_rows tab)" using ok by (auto simp: rtab_ok_def)
  have none: "List.find (\<lambda>r. rr_id r = ?i) (rt_rows tab) = None" using new by (force simp: find_None_iff image_iff)
  have rok: "row_ok fmt ?r" unfolding row_ok_def row_of_feed_sel using t by blast
  have v: "row_view ?r = Some (untimed f')"
    using feed_of_row_roundtrip [OF t, of ?i] u(2) by (auto simp: row_view_def untimed_def)
  have "rtab_ok fmt tab'"
    using ok u(1) new rok unfolding u(3) rtab_ok_def by (force simp: image_iff)
  moreover have "rtab_feeds tab' = (rtab_feeds tab)(?i \<mapsto> untimed f')"
    unfolding u(3) rtab_feeds_def by (rule ext) (auto simp: find_append_new none v split: option.split)
  moreover have "0 \<le> rt_seq tab" using ok by (simp add: rtab_ok_def)
  ultimately show ?thesis using none u(2) by (simp add: rtab_feeds_def untimed_def)
qed

lemma find_map_key:
  "(\<And>x. k (g x) = k x) \<Longrightarrow> List.find (\<lambda>x. k x = i) (map g xs) = map_option g (List.find (\<lambda>x. k x = i) xs)"
  by (induction xs) auto

lemma row_ok_poll:
  assumes "row_ok fmt r" "fmt_iso fmt t"
  shows "row_ok fmt (r\<lparr>rr_guid := g, rr_checked := Some (to_iso8601 fmt t)\<rparr>)"
    and "row_view (r\<lparr>rr_guid := g, rr_checked := Some (to_iso8601 fmt t)\<rparr>) =
      map_option (\<lambda>f. f\<lparr>rf_last_guid := g\<rparr>) (row_view r)"
proof -
  obtain f where f: "times_ok fmt f" "r = row_of_feed fmt (rr_id r) f" using assms by (auto simp: row_ok_def)
  let ?f = "f\<lparr>rf_last_guid := g, rf_last_checked_at := Some t\<rparr>"
  have t: "times_ok fmt ?f" using f(1) assms(2) by (simp add: times_ok_def)
  have r: "r\<lparr>rr_guid := g, rr_checked := Some (to_iso8601 fmt t)\<rparr> = row_of_feed fmt (rr_id r) ?f"
    by (subst f(2)) (simp add: row_of_feed_def)
  show "row_ok fmt (r\<lparr>rr_guid := g, rr_checked := Some (to_iso8601 fmt t)\<rparr>)"
    unfolding r row_ok_def row_of_feed_sel using t by blast
  have "row_view (row_of_feed fmt (rr_id r) ?f) = Some (untimed (?f\<lparr>rf_feed_id := rr_id r\<rparr>))"
    using feed_of_row_roundtrip [OF t, of "rr_id r"] by (auto simp: row_view_def)
  moreover have "row_view r = Some (untimed (f\<lparr>rf_feed_id := rr_id r\<rparr>))"
    using feed_of_row_roundtrip [OF f(1), of "rr_id r"] f(2) by (auto simp: row_view_def)
  ultimately show "row_view (r\<lparr>rr_guid := g, rr_checked := Some (to_iso8601 fmt t)\<rparr>) =
      map_option (\<lambda>f. f\<lparr>rf_last_guid := g\<rparr>) (row_view r)"
    unfolding r by (simp add: untimed_def)
qed

lemma rss_update:
  assumes ok: "rtab_ok fmt tab" and t: "fmt_iso fmt t" and run: "rss_update_state fmt env i g t tab = (Inr (), tab')"
  shows "rtab_ok fmt tab' \<and> (\<exists>f. rtab_feeds tab i = Some f \<and> rtab_feeds tab' = (rtab_feeds tab)(i \<mapsto> f\<lparr>rf_last_guid := g\<rparr>))"
proof -
  let ?g = "\<lambda>r. if rr_id r = i then r\<lparr>rr_guid := g, rr_checked := Some (to_iso8601 fmt t)\<rparr> else r"
  obtain r where r: "r \<in> set (rt_rows tab)" "rr_id r = i" and tab': "tab' = tab\<lparr>rt_rows := map ?g (rt_rows tab)\<rparr>"
    using with_db_Inr [OF run [unfolded rss_update_state_def]] by (auto split: if_splits)
  have rok: "row_ok fmt q" if "q \<in> set (rt_rows tab)" for q using ok that by (simp add: rtab_ok_def)
  have "map rr_id (map ?g (rt_rows tab)) = map rr_id (rt_rows tab)"
    "map rr_url (map ?g (rt_rows tab)) = map rr_url (rt_rows tab)" by simp_all
  then have "distinct (map rr_id (map ?g (rt_rows tab)))" "distinct (map rr_url (map ?g (rt_rows tab)))"
    using ok by (simp_all only: rtab_ok_def)
  then have "rtab_ok fmt tab'"
    using ok rok t by (auto simp: tab' rtab_ok_def row_ok_poll(1))
  moreover obtain f where f: "rtab_feeds tab i = Some f"
    using rtab_feeds_row [OF ok r(1)] r(2) row_ok_feed [OF rok [OF r(1)]] by auto
  moreover have "rtab_feeds tab' = (rtab_feeds tab)(i \<mapsto> f\<lparr>rf_last_guid := g\<rparr>)"
  proof
    fix j
    have e: "List.find (\<lambda>r. rr_id r = j) (map ?g (rt_rows tab)) =
        map_option ?g (List.find (\<lambda>r. rr_id r = j) (rt_rows tab))"
      by (rule find_map_key) simp
    have fr: "List.find (\<lambda>q. rr_id q = i) (rt_rows tab) = Some r"
      using find_distinct_key [of rr_id "rt_rows tab" r] ok r by (simp add: rtab_ok_def)
    show "rtab_feeds tab' j = ((rtab_feeds tab)(i \<mapsto> f\<lparr>rf_last_guid := g\<rparr>)) j"
    proof (cases "j = i")
      case True
      have "row_view r = Some f" using f fr by (simp add: rtab_feeds_def)
      with True e fr row_ok_poll(2) [OF rok [OF r(1)] t, of g] r(2) show ?thesis
        by (simp add: tab' rtab_feeds_def)
    next
      case False
      show ?thesis
      proof (cases "List.find (\<lambda>r. rr_id r = j) (rt_rows tab)")
        case None
        with False e show ?thesis by (simp add: tab' rtab_feeds_def)
      next
        case (Some q)
        then have "rr_id q = j" by (auto simp: find_Some_iff)
        with False e Some show ?thesis by (simp add: tab' rtab_feeds_def)
      qed
    qed
  qed
  ultimately show ?thesis by blast
qed

lemma rss_remove_view:
  assumes ok: "rtab_ok fmt tab" and run: "rss_remove env i tab = (Inr (), tab')"
  shows "rtab_ok fmt tab' \<and> rtab_feeds tab' = (rtab_feeds tab)(i := None)"
proof -
  have tab': "tab' = tab\<lparr>rt_rows := filter (\<lambda>r. rr_id r \<noteq> i) (rt_rows tab)\<rparr>"
    using with_db_Inr [OF run [unfolded rss_remove_def]] by (auto split: if_splits)
  have "List.find (\<lambda>r. rr_id r = i) (filter (\<lambda>r. rr_id r \<noteq> i) xs) = None" for xs :: "rss_row list" by (simp add: find_None_iff)
  moreover have "j \<noteq> i \<Longrightarrow> List.find (\<lambda>r. rr_id r = j) (filter (\<lambda>r. rr_id r \<noteq> i) xs) = List.find (\<lambda>r. rr_id r = j) xs"
    for j and xs :: "rss_row list"
    by (induction xs) auto
  ultimately have "rtab_feeds tab' = (rtab_feeds tab)(i := None)"
    unfolding tab' rtab_feeds_def by (auto simp: fun_eq_iff)
  with ok show ?thesis unfolding tab' by (auto simp: rtab_ok_def distinct_map_filter)
qed

interpretation rf: rss_repository rss_list_enabled rss_find "rss_save fmt" "rss_update_state fmt" rss_remove
  rtab_feeds "rtab_ok fmt" "rss_can_save fmt" "fmt_iso fmt" for fmt
proof
  show "rss_save fmt env f s = (Inl e, s') \<Longrightarrow> s' = s" for env f s e s'
    unfolding rss_save_def Let_def by (drule with_db_cases) (auto split: if_splits)
  show "rss_update_state fmt env i g t s = (Inl e, s') \<Longrightarrow> s' = s" for env i g t s e s'
    unfolding rss_update_state_def by (drule with_db_cases) (auto split: if_splits)
  show "rss_remove env i s = (Inl e, s') \<Longrightarrow> s' = s" for env i s e s'
    unfolding rss_remove_def by (drule with_db_cases) (auto split: if_splits)
qed (fact rss_list_view rss_find_view rtab_feeds_id rss_insert rss_update rss_remove_view)+

subsection \<open>Properties\<close>



text \<open>
  Saving a feed that has an id and a URL already used by another feed does not report
  \<open>AlreadyExists\<close>: the other feed, here one of another chat, is silently deleted.
\<close>

theorem rss_save_evicts_other_feed:
  "\<exists>tab f. rtab_ok epoch_fmt tab \<and> rss_can_save epoch_fmt good_env f \<and> rtab_feeds tab 2 \<noteq> None \<and>
     (case rss_save epoch_fmt good_env f tab of (r, tab') \<Rightarrow> (\<exists>f'. r = Inr f') \<and> rtab_feeds tab' 2 = None)"
proof -
  let ?f = "\<lambda>i. default_feed\<lparr>rf_feed_id := i, rf_url := (if i = 1 then ''a'' else ''b''), rf_chat := ChatId i\<rparr>"
  let ?r = "\<lambda>i. row_of_feed epoch_fmt i (?f i)"
  have t: "times_ok epoch_fmt (?f i)" for i by (simp add: times_ok_def default_feed_def)
  have ok: "row_ok epoch_fmt (?r i)" for i unfolding row_ok_def row_of_feed_sel using t by blast
  have "rtab_ok epoch_fmt \<lparr>rt_rows = [?r 1, ?r 2], rt_seq = 2\<rparr>" using ok [of 1] ok [of 2] by (simp add: rtab_ok_def)
  moreover have "rtab_feeds \<lparr>rt_rows = [?r 1, ?r 2], rt_seq = 2\<rparr> 2 \<noteq> None"
    using feed_of_row_roundtrip [OF t [of 2], of 2] by (auto simp: rtab_feeds_def row_view_def)
  ultimately show ?thesis
    by (intro exI [of _ "\<lparr>rt_rows = [?r 1, ?r 2], rt_seq = 2\<rparr>"] exI [of _ "(?f 1)\<lparr>rf_url := rf_url (?f 2)\<rparr>"])
      (simp add: rss_save_def Let_def with_db_def good_env_def rss_can_save_def times_ok_def default_feed_def rtab_feeds_def)
qed

end
