(* ===== verification/Regex.thy ===== *)
theory Regex
  imports Prelude
begin

text \<open>
  The part of \<open>std::regex\<close> (ECMAScript grammar) that the sources use: patterns that are sequences of
  one-character classes, greedy and lazy repetitions of a class, optional classes, word boundaries and
  non-nested capture groups. The matcher backtracks in the order ECMAScript prescribes, so that the
  match it returns is the one \<open>regex_search\<close> and \<open>cregex_iterator\<close> report. Limits of an implementation
  on the length of the subject are not modelled.
\<close>

subsection \<open>Patterns\<close>

datatype elem =
    One "char \<Rightarrow> bool"
  | Star "char \<Rightarrow> bool"
  | Lazy "char \<Rightarrow> bool"
  | Opt "char \<Rightarrow> bool"
  | Boundary
  | Group nat

text \<open>\<open>Group k\<close> opens group \<open>k\<close>; \<open>Group 0\<close> closes the group that is open.\<close>

abbreviation Plus :: "(char \<Rightarrow> bool) \<Rightarrow> elem list" where
  "Plus c \<equiv> [One c, Star c]"

definition lit :: "string \<Rightarrow> elem list" where
  "lit w = map (\<lambda>c. One ((=) c)) w"

definition ilit :: "string \<Rightarrow> elem list" where
  "ilit w = map (\<lambda>c. One (\<lambda>x. to_lower x = to_lower c)) w"

definition is_alpha_char :: "char \<Rightarrow> bool" where
  "is_alpha_char c = (97 \<le> byte_of (to_lower c) \<and> byte_of (to_lower c) \<le> 122)"

definition is_word_char :: "char \<Rightarrow> bool" where
  "is_word_char c = (is_digit c \<or> is_alpha_char c \<or> c = CHR ''_'')"

subsection \<open>Matching\<close>

text \<open>
  A match is the list of the characters it consumes, each with the group it is consumed in.
  \<open>p\<close> is the character before the subject.
\<close>

type_synonym taken = "(nat \<times> char) list"

fun word_end :: "char option \<Rightarrow> bool" where
  "word_end None = False"
| "word_end (Some c) = is_word_char c"

definition first_char :: "string \<Rightarrow> char option" where
  "first_char s = (case s of [] \<Rightarrow> None | x # _ \<Rightarrow> Some x)"

function (sequential) rmatch :: "elem list \<Rightarrow> nat \<Rightarrow> char option \<Rightarrow> string \<Rightarrow> (taken \<times> string) option" where
  "rmatch [] k p s = Some ([], s)"
| "rmatch (Group j # es) k p s = rmatch es j p s"
| "rmatch (Boundary # es) k p s = (if word_end p \<noteq> word_end (first_char s) then rmatch es k p s else None)"
| "rmatch (One c # es) k p [] = None"
| "rmatch (One c # es) k p (x # s) =
     (if c x then map_option (apfst (Cons (k, x))) (rmatch es k (Some x) s) else None)"
| "rmatch (Opt c # es) k p [] = rmatch es k p []"
| "rmatch (Opt c # es) k p (x # s) =
     (case (if c x then map_option (apfst (Cons (k, x))) (rmatch es k (Some x) s) else None) of
        Some m \<Rightarrow> Some m
      | None \<Rightarrow> rmatch es k p (x # s))"
| "rmatch (Star c # es) k p [] = rmatch es k p []"
| "rmatch (Star c # es) k p (x # s) =
     (case (if c x then map_option (apfst (Cons (k, x))) (rmatch (Star c # es) k (Some x) s) else None) of
        Some m \<Rightarrow> Some m
      | None \<Rightarrow> rmatch es k p (x # s))"
| "rmatch (Lazy c # es) k p [] = rmatch es k p []"
| "rmatch (Lazy c # es) k p (x # s) =
     (case rmatch es k p (x # s) of
        Some m \<Rightarrow> Some m
      | None \<Rightarrow> if c x then map_option (apfst (Cons (k, x))) (rmatch (Lazy c # es) k (Some x) s) else None)"
  by pat_completeness auto
termination by (relation "measure (\<lambda>(es, k, p, s). length es + length s)") auto

text \<open>The leftmost match: what is before it, the match, what is after it.\<close>

fun rsearch :: "elem list \<Rightarrow> char option \<Rightarrow> string \<Rightarrow> (string \<times> taken \<times> string) option" where
  "rsearch es p [] = map_option (Pair []) (rmatch es 0 p [])"
| "rsearch es p (x # s) =
     (case rmatch es 0 p (x # s) of
        Some m \<Rightarrow> Some ([], m)
      | None \<Rightarrow> map_option (apfst (Cons x)) (rsearch es (Some x) s))"

definition regex_search :: "elem list \<Rightarrow> string \<Rightarrow> taken option" where
  "regex_search es s = map_option (\<lambda>(a, m, r). m) (rsearch es None s)"

definition whole :: "taken \<Rightarrow> string" where
  "whole m = map snd m"

definition capture :: "nat \<Rightarrow> taken \<Rightarrow> string" where
  "capture k m = map snd (filter (\<lambda>(j, _). j = k) m)"

lemma rmatch_split: "rmatch es k p s = Some (m, r) \<Longrightarrow> s = map snd m @ r"
  by (induction es k p s arbitrary: m r rule: rmatch.induct)
    (force split: if_splits option.splits)+

lemma rsearch_split: "rsearch es p s = Some (a, m, r) \<Longrightarrow> s = a @ map snd m @ r"
  by (induction es p s arbitrary: a m r rule: rsearch.induct)
    (auto dest: rmatch_split split: option.splits)

text \<open>All matches from left to right, each with the text before it; an empty match ends the scan.\<close>

function all_matches :: "elem list \<Rightarrow> char option \<Rightarrow> string \<Rightarrow> (string \<times> taken) list" where
  "all_matches es p s =
     (case rsearch es p s of
        None \<Rightarrow> []
      | Some (a, m, r) \<Rightarrow> if m = [] then [] else (a, m) # all_matches es (Some (snd (last m))) r)"
  by auto
termination
  by (relation "measure (\<lambda>(es, p, s). length s)") (auto dest!: rsearch_split)

declare all_matches.simps [simp del]

subsection \<open>Lemmas on matching\<close>

lemma lit_simps [simp]: "lit [] = []" "lit (c # w) = One ((=) c) # lit w"
  by (simp_all add: lit_def)

lemma ilit_simps [simp]: "ilit [] = []" "ilit (c # w) = One (\<lambda>x. to_lower x = to_lower c) # ilit w"
  by (simp_all add: ilit_def)

lemma ilit_append: "ilit (u @ v) = ilit u @ ilit v"
  by (simp add: ilit_def)

definition tagged :: "nat \<Rightarrow> string \<Rightarrow> taken" where
  "tagged k w = map (Pair k) w"

lemma tagged_simps [simp]: "tagged k [] = []" "tagged k (c # w) = (k, c) # tagged k w"
  by (simp_all add: tagged_def)

lemma capture_simps [simp]:
  "capture k [] = []" "capture k ((j, c) # m) = (if j = k then c # capture k m else capture k m)"
  "capture k (m @ m') = capture k m @ capture k m'"
  by (simp_all add: capture_def)

lemma capture_tagged [simp]: "capture k (tagged j w) = (if j = k then w else [])"
  by (induction w) auto

lemma whole_simps [simp]:
  "whole [] = []" "whole ((j, c) # m) = c # whole m" "whole (m @ m') = whole m @ whole m'" "whole (tagged k w) = w"
  by (simp_all add: whole_def tagged_def comp_def)

definition after :: "char option \<Rightarrow> string \<Rightarrow> char option" where
  "after p w = (if w = [] then p else Some (last w))"

lemma after_simps [simp]: "after p [] = p" "after p (c # w) = after (Some c) w"
  by (simp_all add: after_def)

lemma rmatch_lit: "rmatch (lit w @ es) k p (w @ s) = map_option (apfst ((@) (tagged k w))) (rmatch es k (after p w) s)"
proof (induction w arbitrary: p)
  case Nil
  then show ?case by (simp add: apfst_def map_prod_def option.map_ident)
next
  case (Cons c w)
  then show ?case by (simp add: option.map_comp comp_def apfst_def map_prod_def prod.case_eq_if)
qed

lemma rmatch_ilit:
  "rmatch (ilit w @ es) k p (w @ s) = map_option (apfst ((@) (tagged k w))) (rmatch es k (after p w) s)"
proof (induction w arbitrary: p)
  case Nil
  then show ?case by (simp add: apfst_def map_prod_def option.map_ident)
next
  case (Cons c w)
  then show ?case by (simp add: option.map_comp comp_def apfst_def map_prod_def prod.case_eq_if)
qed

lemma rmatch_star:
  assumes "\<forall>x \<in> set w. c x" "rmatch es k (after p w) s = Some (m, r)" "s \<noteq> [] \<Longrightarrow> \<not> c (hd s)"
  shows "rmatch (Star c # es) k p (w @ s) = Some (tagged k w @ m, r)"
  using assms(1,2)
proof (induction w arbitrary: p)
  case Nil
  then show ?case using assms(3) by (cases s) auto
qed auto

text \<open>A lazy repetition of every character ends where the rest of the pattern is first found.\<close>

lemma rmatch_lazy_any:
  "rmatch (Lazy (\<lambda>_. True) # Group 0 # es) k p s =
   map_option (\<lambda>(a, m, r). (tagged k a @ m, r)) (rsearch es p s)"
  by (induction s arbitrary: p)
    (auto split: option.splits simp: option.map_comp option.map_ident comp_def prod.case_eq_if apfst_def map_prod_def)

lemma all_matches_none: "rsearch es p s = None \<Longrightarrow> all_matches es p s = []"
  by (simp add: all_matches.simps)

text \<open>
  No match of \<open>es\<close> begins inside \<open>w\<close>, whatever follows: a search that starts in front of \<open>w\<close> goes on
  behind it.
\<close>

definition shift :: "string \<Rightarrow> (string \<times> taken \<times> string) option \<Rightarrow> (string \<times> taken \<times> string) option" where
  "shift w x = map_option (\<lambda>(a, q). (w @ a, q)) x"

definition opaque :: "elem list \<Rightarrow> string \<Rightarrow> bool" where
  "opaque es w = (\<forall>p s. rsearch es p (w @ s) = shift w (rsearch es (after p w) s))"

lemma shift_simps [simp]:
  "shift [] x = x" "shift w None = None" "shift w (Some (a, q)) = Some (w @ a, q)"
  "shift u (shift v x) = shift (u @ v) x"
  by (cases x; auto simp: shift_def)+

lemma after_append [simp]: "after p (u @ v) = after (after p u) v"
  by (simp add: after_def)

lemma rsearch_Cons_shift:
  "rmatch es 0 p (x # s) = None \<Longrightarrow> rsearch es p (x # s) = shift [x] (rsearch es (Some x) s)"
  by (simp add: shift_def apfst_def map_prod_def)

lemma opaque_rsearch: "opaque es w \<Longrightarrow> rsearch es p (w @ s) = shift w (rsearch es (after p w) s)"
  by (simp add: opaque_def)

lemma opaque_Nil [simp]: "opaque es []"
  by (simp add: opaque_def)

lemma opaque_append [intro]: "opaque es u \<Longrightarrow> opaque es v \<Longrightarrow> opaque es (u @ v)"
  unfolding opaque_def by (metis after_append append_assoc shift_simps(4))

lemma opaque_Cons:
  assumes "\<And>p s. rmatch es 0 p (x # w @ s) = None" "opaque es w"
  shows "opaque es (x # w)"
  unfolding opaque_def
  by (auto simp: rsearch_Cons_shift [OF assms(1)] opaque_rsearch [OF assms(2)] simp del: rsearch.simps)

lemma opaque_clean: "\<forall>x \<in> set w. \<not> c x \<Longrightarrow> opaque (One c # es) w"
  by (induction w) (auto intro!: opaque_Cons)

lemma opaque_none: "opaque (One c # es) w \<Longrightarrow> rsearch (One c # es) p w = None"
  using opaque_rsearch [of "One c # es" w p "[]"] by simp

lemma opaque_matches:
  "opaque es w \<Longrightarrow> map snd (all_matches es p (w @ s)) = map snd (all_matches es (after p w) s)"
  by (subst (1 2) all_matches.simps) (auto simp: opaque_rsearch split: option.split)

lemma all_matches_hit:
  "rmatch es 0 p s = Some (m, r) \<Longrightarrow> m \<noteq> [] \<Longrightarrow>
   map snd (all_matches es p s) = m # map snd (all_matches es (Some (snd (last m))) r)"
  by (subst all_matches.simps) (cases s; simp)

lemma to_lower_angle [simp]: "to_lower c = to_lower (CHR ''<'') \<longleftrightarrow> c = CHR ''<''"
proof
  assume l: "to_lower c = to_lower (CHR ''<'')"
  have "byte_of (to_lower c) = 60" unfolding l by (simp add: to_lower_def)
  then have "byte_of c = byte_of (CHR ''<'')" by (simp add: to_lower_def split: if_splits)
  then show "c = CHR ''<''" by (simp only: of_char_eq_iff)
qed simp

text \<open>A tag name is a word of letters.\<close>

definition tag_name :: "string \<Rightarrow> bool" where
  "tag_name t = (t \<noteq> [] \<and> list_all is_alpha_char t)"

lemma not_word_neq: "is_alpha_char a \<Longrightarrow> \<not> is_word_char x \<Longrightarrow> to_lower x \<noteq> to_lower a"
  by (auto simp: is_word_char_def is_alpha_char_def)

text \<open>A name followed by a boundary does not match another name.\<close>

lemma rmatch_name_fails:
  assumes "list_all is_alpha_char t" "list_all is_alpha_char t'" "map to_lower t \<noteq> map to_lower t'"
    "\<not> is_word_char x" "t = [] \<Longrightarrow> word_end p"
  shows "rmatch (ilit t @ Boundary # es) k p (t' @ x # s) = None"
  using assms
proof (induction t arbitrary: t' p)
  case Nil
  then show ?case by (cases t') (auto simp: first_char_def is_word_char_def)
next
  case (Cons a t)
  then show ?case
    by (cases t') (auto simp: is_word_char_def dest: not_word_neq)
qed

lemma rmatch_word_fails:
  assumes "list_all is_alpha_char t" "list_all is_alpha_char t'" "map to_lower t \<noteq> map to_lower t'"
    "\<not> is_word_char x" "\<not> is_word_char y"
  shows "rmatch (ilit t @ ilit [y] @ es) k p (t' @ x # s) = None"
  using assms
proof (induction t arbitrary: t' p)
  case Nil
  then show ?case by (cases t') (auto dest: not_word_neq [of _ y])
next
  case (Cons a t)
  then show ?case
    by (cases t') (auto simp: is_word_char_def dest: not_word_neq)
qed

text \<open>What the scan reports, put together with the text between the matches, is the subject.\<close>

lemma all_matches_cover:
  "\<exists>r. s = concat (map (\<lambda>(a, m). a @ whole m) (all_matches es p s)) @ r"
proof (induction es p s rule: all_matches.induct)
  case (1 es p s)
  show ?case
  proof (cases "rsearch es p s")
    case (Some q)
    obtain a m r where q: "q = (a, m, r)" by (cases q)
    have s: "s = a @ map snd m @ r" using rsearch_split Some q by blast
    show ?thesis
    proof (cases "m = []")
      case False
      from 1 [OF Some [unfolded q], OF refl refl False] obtain r'
        where "r = concat (map (\<lambda>(a, m). a @ whole m) (all_matches es (Some (snd (last m))) r)) @ r'" by blast
      then show ?thesis using s Some q False
        by (subst all_matches.simps) (auto simp: whole_def)
    qed (use Some q in \<open>simp add: all_matches.simps\<close>)
  qed (simp add: all_matches.simps)
qed

end
