(* ===== verification/Rss_Document.thy ===== *)
theory Rss_Document
  imports Regex Errors Records
begin

text \<open>
  The RSS 2.0 and Atom 1.0 reader \<open>rss_document_parser.cpp\<close>. The patterns are the literal ones of
  the source; \<open>std::get_time\<close> and \<open>timegm\<close>, which depend on the locale of the process, are the
  parameters \<open>gt\<close> (format and text to a broken-down time) and \<open>tg\<close> (seconds since the epoch).
\<close>

subsection \<open>Patterns\<close>

abbreviation any_char :: "char \<Rightarrow> bool" where
  "any_char \<equiv> \<lambda>_. True"

abbreviation not_char :: "char \<Rightarrow> char \<Rightarrow> bool" where
  "not_char c \<equiv> \<lambda>x. x \<noteq> c"

definition rss_root_regex :: "elem list" where
  "rss_root_regex = ilit ''<rss'' @ [Boundary]"

definition atom_root_regex :: "elem list" where
  "atom_root_regex = ilit ''<feed'' @ [Boundary]"

text \<open>\<open><tag\b[^>]*>([\s\S]*?)</tag>\<close>, the shape of the item, entry and text patterns.\<close>

definition element_regex :: "string \<Rightarrow> elem list" where
  "element_regex tag =
     ilit (''<'' @ tag) @ [Boundary, Star (not_char (CHR ''>''))] @ ilit ''>'' @
     [Group 1, Lazy any_char, Group 0] @ ilit (''</'' @ tag @ ''>'')"

definition item_regex :: "elem list" where
  "item_regex = element_regex ''item''"

definition atom_entry_regex :: "elem list" where
  "atom_entry_regex = element_regex ''entry''"

definition tag_regex :: "string \<Rightarrow> elem list" where
  "tag_regex tag =
     ilit (''<'' @ tag) @ [Boundary, Group 1, Star (not_char (CHR ''>'')), Group 0, Opt ((=) (CHR ''/''))] @ ilit ''>''"

definition attr_regex :: "string \<Rightarrow> char \<Rightarrow> elem list" where
  "attr_regex attr q =
     ilit attr @ [Star is_space] @ ilit ''='' @ [Star is_space] @ ilit [q] @ [Group 1, Star (not_char q), Group 0] @ ilit [q]"

definition is_hex_char :: "char \<Rightarrow> bool" where
  "is_hex_char c = (is_digit c \<or> 97 \<le> byte_of (to_lower c) \<and> byte_of (to_lower c) \<le> 102)"

definition magnet_regex :: "elem list" where
  "magnet_regex =
     lit ''magnet:?xt=urn:btih:'' @ Plus is_hex_char @
     [Star (\<lambda>c. c \<noteq> CHR 0x22 \<and> c \<noteq> CHR ''<'' \<and> \<not> is_space c)]"

subsection \<open>Reading elements and attributes\<close>

definition xml_space :: "char \<Rightarrow> bool" where
  "xml_space c = (c = CHR '' '' \<or> c = CHR 0x09 \<or> c = CHR 0x0D \<or> c = CHR 0x0A)"

definition strip_xml :: "string \<Rightarrow> string" where
  "strip_xml s = rev (dropWhile xml_space (rev (dropWhile xml_space s)))"

definition unwrap_cdata :: "string \<Rightarrow> string" where
  "unwrap_cdata body =
     (if take 9 body = ''<![CDATA['' \<and> drop (length body - 3) body = '']]>'' \<and> 3 \<le> length body
      then take (length body - 9 - 3) (drop 9 body) else body)"

definition first_tag_text :: "string \<Rightarrow> string \<Rightarrow> string option" where
  "first_tag_text xml tag =
     map_option (\<lambda>m. unwrap_cdata (strip_xml (capture 1 m))) (regex_search (element_regex tag) xml)"

definition attr_of_tag :: "string \<Rightarrow> string \<Rightarrow> string \<Rightarrow> string option" where
  "attr_of_tag xml tag attr =
     (case regex_search (tag_regex tag) xml of
        None \<Rightarrow> None
      | Some m \<Rightarrow>
          (let attrs = capture 1 m in
           case regex_search (attr_regex attr (CHR 0x22)) attrs of
             Some am \<Rightarrow> Some (capture 1 am)
           | None \<Rightarrow> map_option (capture 1) (regex_search (attr_regex attr (CHR 0x27)) attrs)))"

definition for_each_tag :: "string \<Rightarrow> string \<Rightarrow> (string \<Rightarrow> 'a \<Rightarrow> 'a) \<Rightarrow> 'a \<Rightarrow> 'a" where
  "for_each_tag xml tag sink = fold (\<lambda>(_, m). sink (capture 1 m)) (all_matches (tag_regex tag) None xml)"

definition extract_magnet :: "string \<Rightarrow> string option" where
  "extract_magnet xml = map_option whole (regex_search magnet_regex xml)"

definition find_attr :: "string \<Rightarrow> string \<Rightarrow> string option" where
  "find_attr attrs name = map_option (capture 1) (regex_search (attr_regex name (CHR 0x22)) attrs)"

definition parse_rfc822 :: "(string \<Rightarrow> string \<Rightarrow> 'tm option) \<Rightarrow> ('tm \<Rightarrow> int) \<Rightarrow> string \<Rightarrow> systime option" where
  "parse_rfc822 gt tg s =
     (case (case gt ''%a, %d %b %Y %H:%M:%S'' s of
              Some tm \<Rightarrow> Some tm
            | None \<Rightarrow> gt ''%d %b %Y %H:%M:%S'' s) of
        None \<Rightarrow> None
      | Some tm \<Rightarrow> if tg tm = - 1 then None else Some (tg tm * 1000000000))"

definition parse_rfc3339 :: "(string \<Rightarrow> string \<Rightarrow> 'tm option) \<Rightarrow> ('tm \<Rightarrow> int) \<Rightarrow> string \<Rightarrow> systime option" where
  "parse_rfc3339 gt tg s =
     (case gt ''%Y-%m-%dT%H:%M:%S'' s of
        None \<Rightarrow> None
      | Some tm \<Rightarrow> if tg tm = - 1 then None else Some (tg tm * 1000000000))"

subsection \<open>Documents\<close>

record rss_entry =
  re_guid :: string
  re_title :: string
  re_link :: string
  re_magnet :: "string option"
  re_torrent_url :: "string option"
  re_description :: "string option"
  re_published_at :: "systime option"

record rss_document =
  rd_title :: string
  rd_link :: string
  rd_description :: "string option"
  rd_entries :: "rss_entry list"

definition text_or_empty :: "string option \<Rightarrow> string" where
  "text_or_empty v = (case v of None \<Rightarrow> [] | Some s \<Rightarrow> s)"

text \<open>The magnet link of the description, else of the whole body.\<close>

definition magnet_of :: "string option \<Rightarrow> string \<Rightarrow> string option" where
  "magnet_of description body =
     (case Option.bind description extract_magnet of Some m \<Rightarrow> Some m | None \<Rightarrow> extract_magnet body)"

definition parse_rss_item :: "(string \<Rightarrow> string \<Rightarrow> 'tm option) \<Rightarrow> ('tm \<Rightarrow> int) \<Rightarrow> string \<Rightarrow> rss_entry" where
  "parse_rss_item gt tg body =
     (let link = text_or_empty (first_tag_text body ''link'');
          guid = text_or_empty (first_tag_text body ''guid'');
          description = first_tag_text body ''description'' in
      \<lparr>re_guid = (if guid = [] then link else guid),
       re_title = text_or_empty (first_tag_text body ''title''),
       re_link = link,
       re_magnet = magnet_of description body,
       re_torrent_url =
         (if attr_of_tag body ''enclosure'' ''type'' = Some ''application/x-bittorrent''
          then attr_of_tag body ''enclosure'' ''url'' else None),
       re_description = description,
       re_published_at = Option.bind (first_tag_text body ''pubDate'') (parse_rfc822 gt tg)\<rparr>)"

definition before_first :: "elem list \<Rightarrow> string \<Rightarrow> string" where
  "before_first es xml = (case rsearch es None xml of None \<Rightarrow> xml | Some (a, _) \<Rightarrow> a)"

definition parse_rss :: "(string \<Rightarrow> string \<Rightarrow> 'tm option) \<Rightarrow> ('tm \<Rightarrow> int) \<Rightarrow> string \<Rightarrow> rss_document res" where
  "parse_rss gt tg xml =
     (let channel_view = before_first item_regex xml in
      Inr \<lparr>rd_title = text_or_empty (first_tag_text channel_view ''title''),
           rd_link = text_or_empty (first_tag_text channel_view ''link''),
           rd_description = first_tag_text channel_view ''description'',
           rd_entries = map (\<lambda>(_, m). parse_rss_item gt tg (capture 1 m)) (all_matches item_regex None xml)\<rparr>)"

text \<open>The state of the scan over the \<open>link\<close> elements of an entry: the alternate link and the torrent.\<close>

definition atom_entry_link :: "string \<Rightarrow> string \<times> string option \<Rightarrow> string \<times> string option" where
  "atom_entry_link attrs = (\<lambda>(alternate_link, torrent_url).
     case find_attr attrs ''href'' of
       None \<Rightarrow> (alternate_link, torrent_url)
     | Some href \<Rightarrow>
         (let rel = (case find_attr attrs ''rel'' of None \<Rightarrow> ''alternate'' | Some r \<Rightarrow> r);
              kind = (case find_attr attrs ''type'' of None \<Rightarrow> [] | Some t \<Rightarrow> t) in
          if kind = ''application/x-bittorrent'' then (alternate_link, Some href)
          else if rel = ''alternate'' \<and> alternate_link = [] then (href, torrent_url)
          else (alternate_link, torrent_url)))"

definition parse_atom_entry :: "(string \<Rightarrow> string \<Rightarrow> 'tm option) \<Rightarrow> ('tm \<Rightarrow> int) \<Rightarrow> string \<Rightarrow> rss_entry" where
  "parse_atom_entry gt tg body =
     (let description = (case first_tag_text body ''summary'' of
                           Some v \<Rightarrow> Some v | None \<Rightarrow> first_tag_text body ''content'');
          guid = text_or_empty (first_tag_text body ''id'');
          links = for_each_tag body ''link'' atom_entry_link ([], None) in
      \<lparr>re_guid = (if guid = [] then fst links else guid),
       re_title = text_or_empty (first_tag_text body ''title''),
       re_link = fst links,
       re_magnet = magnet_of description body,
       re_torrent_url = snd links,
       re_description = description,
       re_published_at =
         (case first_tag_text body ''published'' of
            Some pub \<Rightarrow> parse_rfc3339 gt tg pub
          | None \<Rightarrow> Option.bind (first_tag_text body ''updated'') (parse_rfc3339 gt tg))\<rparr>)"

definition atom_feed_link :: "string \<Rightarrow> string \<Rightarrow> string" where
  "atom_feed_link attrs link =
     (if link \<noteq> [] then link
      else case find_attr attrs ''href'' of
        None \<Rightarrow> link
      | Some href \<Rightarrow>
          (if (case find_attr attrs ''rel'' of None \<Rightarrow> ''alternate'' | Some r \<Rightarrow> r) = ''alternate'' then href else link))"

definition parse_atom :: "(string \<Rightarrow> string \<Rightarrow> 'tm option) \<Rightarrow> ('tm \<Rightarrow> int) \<Rightarrow> string \<Rightarrow> rss_document res" where
  "parse_atom gt tg xml =
     (let header_view = before_first atom_entry_regex xml in
      Inr \<lparr>rd_title = text_or_empty (first_tag_text header_view ''title''),
           rd_link = for_each_tag header_view ''link'' atom_feed_link [],
           rd_description = first_tag_text header_view ''subtitle'',
           rd_entries = map (\<lambda>(_, m). parse_atom_entry gt tg (capture 1 m)) (all_matches atom_entry_regex None xml)\<rparr>)"

definition parse :: "(string \<Rightarrow> string \<Rightarrow> 'tm option) \<Rightarrow> ('tm \<Rightarrow> int) \<Rightarrow> string \<Rightarrow> rss_document res" where
  "parse gt tg xml =
     (if xml = [] then Inl (mk_error EC_Deserialization ''empty RSS document'')
      else if regex_search rss_root_regex xml \<noteq> None then parse_rss gt tg xml
      else if regex_search atom_root_regex xml \<noteq> None then parse_atom gt tg xml
      else Inl (mk_error EC_Deserialization ''document is neither RSS 2.0 nor Atom 1.0''))"

subsection \<open>Printed documents\<close>

text \<open>A printer for RSS documents, as the reference the reader is compared with.\<close>

definition open_tag :: "string \<Rightarrow> string \<Rightarrow> string" where
  "open_tag tag attrs = ''<'' @ tag @ attrs @ ''>''"

definition end_tag :: "string \<Rightarrow> string" where
  "end_tag tag = ''</'' @ tag @ ''>''"

definition xml_elem :: "string \<Rightarrow> string \<Rightarrow> string" where
  "xml_elem tag body = open_tag tag [] @ body @ end_tag tag"

definition enclosure :: "string option \<Rightarrow> string" where
  "enclosure torrent_url =
     (case torrent_url of
        None \<Rightarrow> []
      | Some url \<Rightarrow> open_tag ''enclosure'' ('' type=\"application/x-bittorrent\" url=\"'' @ url @ ''\"/''))"

definition optional_elem :: "string \<Rightarrow> string option \<Rightarrow> string" where
  "optional_elem tag body = (case body of None \<Rightarrow> [] | Some b \<Rightarrow> xml_elem tag b)"

definition item_body :: "rss_entry \<Rightarrow> string \<Rightarrow> string" where
  "item_body e date =
     xml_elem ''title'' (re_title e) @ xml_elem ''link'' (re_link e) @ xml_elem ''guid'' (re_guid e) @
     optional_elem ''description'' (re_description e) @ enclosure (re_torrent_url e) @ xml_elem ''pubDate'' date"

definition channel_head :: "rss_document \<Rightarrow> string" where
  "channel_head d =
     open_tag ''rss'' '' version=\"2.0\"'' @ open_tag ''channel'' [] @ xml_elem ''title'' (rd_title d) @
     xml_elem ''link'' (rd_link d) @ optional_elem ''description'' (rd_description d)"

definition print_rss :: "rss_document \<Rightarrow> string list \<Rightarrow> string" where
  "print_rss d dates =
     channel_head d @ concat (map (\<lambda>(e, date). xml_elem ''item'' (item_body e date)) (zip (rd_entries d) dates)) @
     end_tag ''channel'' @ end_tag ''rss''"

subsection \<open>Printed text and the patterns\<close>

definition attrs_ok :: "string \<Rightarrow> bool" where
  "attrs_ok attrs = ((attrs = [] \<or> hd attrs = CHR '' '') \<and> no_angle attrs)"

definition other_name :: "string \<Rightarrow> string \<Rightarrow> bool" where
  "other_name t t' = (tag_name t \<and> tag_name t' \<and> map to_lower t \<noteq> map to_lower t')"

text \<open>A pattern that begins with an opening tag, and one that is a closing tag.\<close>

definition opens :: "string \<Rightarrow> elem list \<Rightarrow> bool" where
  "opens t es = (\<exists>es'. es = ilit (''<'' @ t) @ Boundary # es')"

lemma opens_regex [simp]: "opens t (element_regex t)" "opens t (tag_regex t)"
  "opens ''item'' item_regex" "opens ''entry'' atom_entry_regex" "opens ''rss'' rss_root_regex" "opens ''feed'' atom_root_regex"
  by (auto simp: opens_def element_regex_def tag_regex_def item_regex_def atom_entry_regex_def rss_root_regex_def
      atom_root_regex_def)

lemma not_word_chars [simp]: "\<not> is_word_char (CHR '' '')" "\<not> is_word_char (CHR ''>'')" "\<not> is_word_char (CHR ''/'')"
  by (simp_all add: is_word_char_def is_digit_def is_alpha_char_def to_lower_def)

lemma opaque_text:
  assumes "CHR ''<'' \<notin> set w" "opens t es"
  shows "opaque es w"
proof -
  have "\<forall>x \<in> set w. \<not> to_lower x = to_lower (CHR ''<'')" using assms(1) by auto
  then show ?thesis using assms(2) unfolding opens_def append.simps ilit_simps by (auto simp only: append.simps intro!: opaque_clean)
qed

lemma opaque_close_text: "CHR ''<'' \<notin> set w \<Longrightarrow> opaque (ilit (end_tag t)) w"
  unfolding end_tag_def append.simps ilit_simps by (rule opaque_clean) (auto simp only: to_lower_angle)

lemma opaque_angle:
  assumes "\<And>p s. rmatch es 0 p (CHR ''<'' # w @ s) = None" "opaque es w"
  shows "opaque es (''<'' @ w)"
  using opaque_Cons [OF assms] by simp

lemma tag_name_no_angle: "tag_name t \<Longrightarrow> CHR ''<'' \<notin> set t"
  by (auto simp: tag_name_def list_all_iff is_alpha_char_def to_lower_def)

lemma opaque_open_tag:
  assumes "opens t es" "other_name t t'" "attrs_ok attrs"
  shows "opaque es (open_tag t' attrs)"
  unfolding open_tag_def
proof (rule opaque_angle)
  obtain x u where u: "attrs @ ''>'' = x # u" "\<not> is_word_char x"
    using assms(3) by (cases attrs) (auto simp: attrs_ok_def)
  fix p s
  obtain es' where es: "es = ilit (''<'' @ t) @ Boundary # es'" using assms(1) by (auto simp: opens_def)
  have "(t' @ attrs @ ''>'') @ s = t' @ x # u @ s" using u(1) by (metis append_Cons append_assoc)
  moreover have "rmatch (ilit t @ Boundary # es') 0 (Some (CHR ''<'')) (t' @ x # u @ s) = None"
    using assms(2) u(2) by (intro rmatch_name_fails) (auto simp: other_name_def tag_name_def)
  ultimately show "rmatch es 0 p (CHR ''<'' # (t' @ attrs @ ''>'') @ s) = None" by (simp add: es)
next
  show "opaque es (t' @ attrs @ ''>'')"
    using assms by (intro opaque_text) (auto simp: attrs_ok_def no_angle_def other_name_def tag_name_no_angle)
qed

lemma opaque_close_tag:
  assumes "opens t es" "tag_name t" "tag_name t'"
  shows "opaque es (end_tag t')"
proof -
  obtain a u where t: "t = a # u" "is_alpha_char a" using assms(2) by (cases t) (auto simp: tag_name_def)
  have a: "to_lower (CHR ''/'') \<noteq> to_lower a" by (rule not_word_neq [OF t(2)]) simp
  obtain es' where es: "es = ilit (''<'' @ t) @ Boundary # es'" using assms(1) by (auto simp: opens_def)
  have "opaque es (''<'' @ (''/'' @ t' @ ''>''))"
  proof (rule opaque_angle)
    show "opaque es (''/'' @ t' @ ''>'')"
      using assms by (intro opaque_text [OF _ assms(1)]) (auto simp: tag_name_no_angle)
  qed (use a in \<open>simp add: es t(1)\<close>)
  then show ?thesis by (simp add: end_tag_def)
qed

lemma closing_open_tag:
  assumes "tag_name t'" "attrs_ok attrs"
  shows "opaque (ilit (end_tag t)) (open_tag t' attrs)"
  unfolding open_tag_def
proof (rule opaque_angle)
  obtain a u where t: "t' = a # u" "is_alpha_char a" using assms(1) by (cases t') (auto simp: tag_name_def)
  have "to_lower (CHR ''/'') \<noteq> to_lower a" by (rule not_word_neq [OF t(2)]) simp
  then show "rmatch (ilit (end_tag t)) 0 p (CHR ''<'' # (t' @ attrs @ ''>'') @ s) = None" for p s
    by (simp add: end_tag_def t(1))
  show "opaque (ilit (end_tag t)) (t' @ attrs @ ''>'')"
    using assms by (intro opaque_close_text) (auto simp: tag_name_no_angle attrs_ok_def no_angle_def)
qed

lemma closing_close_tag:
  assumes "other_name t t'"
  shows "opaque (ilit (end_tag t)) (end_tag t')"
proof -
  have e: "end_tag t' = ''<'' @ (''/'' @ t' @ ''>'')" by (simp add: end_tag_def)
  show ?thesis unfolding e
  proof (rule opaque_angle)
    show "opaque (ilit (end_tag t)) (''/'' @ t' @ ''>'')"
      using assms by (intro opaque_close_text) (auto simp: tag_name_no_angle other_name_def)
    show "rmatch (ilit (end_tag t)) 0 p (CHR ''<'' # (''/'' @ t' @ ''>'') @ s) = None" for p s
      using rmatch_word_fails [of t t' "CHR ''>''" "CHR ''>''" "[]" 0 "Some (CHR ''/'')" s] assms
      by (simp add: end_tag_def ilit_append other_name_def tag_name_def)
  qed
qed

lemma closing_hit:
  assumes "opaque (ilit (end_tag t)) b"
  shows "rsearch (ilit (end_tag t)) p (b @ end_tag t @ s) = Some (b, tagged 0 (end_tag t), s)"
proof -
  have "rmatch (ilit (end_tag t)) 0 q (end_tag t @ s) = Some (tagged 0 (end_tag t), s)" for q
    using rmatch_ilit [of "end_tag t" "[]"] by simp
  then have "rsearch (ilit (end_tag t)) q (end_tag t @ s) = Some ([], tagged 0 (end_tag t), s)" for q
    by (cases "end_tag t @ s") simp_all
  then show ?thesis using opaque_rsearch [OF assms] by simp
qed

definition elem_match :: "string \<Rightarrow> string \<Rightarrow> taken" where
  "elem_match t b = tagged 0 (open_tag t []) @ tagged 1 b @ tagged 0 (end_tag t)"

lemma tagged_append: "tagged k (u @ v) = tagged k u @ tagged k v"
  by (simp add: tagged_def)

lemma boundary_after_name: "tag_name t \<Longrightarrow> \<not> is_word_char x \<Longrightarrow> word_end (after p t) \<noteq> word_end (first_char (x # s))"
  by (auto simp: tag_name_def after_def first_char_def is_word_char_def list_all_iff)

lemma element_hit:
  assumes "tag_name t" "opaque (ilit (end_tag t)) b"
  shows "rmatch (element_regex t) 0 p (xml_elem t b @ s) = Some (elem_match t b, s)"
proof -
  let ?rest = "[Group 1, Lazy any_char, Group 0] @ ilit (''</'' @ t @ ''>'')"
  have g: "to_lower (CHR ''>'') = to_lower (CHR ''>'')" ..
  have rest: "rmatch ?rest 0 q (b @ end_tag t @ s) = Some (tagged 1 b @ tagged 0 (end_tag t), s)" for q
    using closing_hit [OF assms(2), of q s] by (simp add: rmatch_lazy_any end_tag_def)
  have "rmatch (Boundary # Star (not_char (CHR ''>'')) # ilit ''>'' @ ?rest) 0 (after (Some (CHR ''<'')) t)
      (CHR ''>'' # b @ end_tag t @ s) = Some ((0, CHR ''>'') # tagged 1 b @ tagged 0 (end_tag t), s)"
    using boundary_after_name [OF assms(1), of "CHR ''>''"] rest by simp
  then show ?thesis
    using rmatch_ilit [of "''<'' @ t" "Boundary # Star (not_char (CHR ''>'')) # ilit ''>'' @ ?rest" 0 p
        "CHR ''>'' # b @ end_tag t @ s"]
    by (simp add: element_regex_def xml_elem_def open_tag_def elem_match_def tagged_append)
qed

lemma element_found:
  assumes "tag_name t" "opaque (element_regex t) a" "opaque (ilit (end_tag t)) b"
  shows "rsearch (element_regex t) p (a @ xml_elem t b @ s) = Some (a, elem_match t b, s)"
proof -
  have "rsearch (element_regex t) q (xml_elem t b @ s) = Some ([], elem_match t b, s)" for q
    using element_hit [OF assms(1,3), of q s] by (cases "xml_elem t b @ s") simp_all
  then show ?thesis using opaque_rsearch [OF assms(2)] by simp
qed

text \<open>Text that stands for itself between two tags: no angle bracket, nothing for the reader to strip.\<close>

definition plain_text :: "string \<Rightarrow> bool" where
  "plain_text s = (CHR ''<'' \<notin> set s \<and> (s \<noteq> [] \<longrightarrow> \<not> xml_space (hd s) \<and> \<not> xml_space (last s)))"

lemma strip_plain: "plain_text s \<Longrightarrow> strip_xml s = s"
proof -
  assume a: "plain_text s"
  have "\<not> xml_space (hd t) \<Longrightarrow> dropWhile xml_space t = t" for t by (cases t) auto
  with a show ?thesis by (cases "s = []") (auto simp: strip_xml_def plain_text_def hd_rev)
qed

lemma unwrap_plain: "CHR ''<'' \<notin> set s \<Longrightarrow> unwrap_cdata s = s"
proof -
  assume "CHR ''<'' \<notin> set s"
  then have "take 9 s \<noteq> ''<![CDATA[''" by (metis in_set_takeD list.set_intros(1))
  then show ?thesis by (simp add: unwrap_cdata_def)
qed

lemma first_tag_text_found:
  assumes "tag_name t" "opaque (element_regex t) a" "plain_text b"
  shows "first_tag_text (a @ xml_elem t b @ s) t = Some b"
proof -
  have "opaque (ilit (end_tag t)) b" using assms(3) by (intro opaque_close_text) (simp add: plain_text_def)
  from element_found [OF assms(1,2) this, of None s]
  show ?thesis
    using assms(3) by (simp add: first_tag_text_def regex_search_def elem_match_def strip_plain unwrap_plain plain_text_def)
qed

lemma first_tag_text_absent:
  assumes "opaque (element_regex t) a"
  shows "first_tag_text a t = None"
proof -
  obtain c es where e: "element_regex t = One c # es" by (auto simp: element_regex_def)
  show ?thesis using opaque_none assms unfolding first_tag_text_def regex_search_def e by simp
qed

lemma tag_found:
  assumes "tag_name t" "opaque (tag_regex t) a" "attrs_ok attrs"
  shows "\<exists>m. regex_search (tag_regex t) (a @ open_tag t attrs @ s) = Some m \<and> capture 1 m = attrs"
proof -
  obtain x u where u: "attrs @ ''>'' = x # u" "\<not> is_word_char x"
    using assms(3) by (cases attrs) (auto simp: attrs_ok_def)
  have star: "rmatch (Star (not_char (CHR ''>'')) # Group 0 # Opt ((=) (CHR ''/'')) # ilit ''>'') 1 q (attrs @ CHR ''>'' # s) =
      Some (tagged 1 attrs @ [(0, CHR ''>'')], s)" for q
    using assms(3) by (intro rmatch_star) (auto simp: attrs_ok_def no_angle_def)
  have "word_end (after (Some (CHR ''<'')) t) \<noteq> word_end (first_char (attrs @ CHR ''>'' # s))"
    using boundary_after_name [OF assms(1) u(2), of "Some (CHR ''<'')" "u @ s"] u(1)
    by (metis append_Cons append_Nil append_assoc)
  then have "rmatch (tag_regex t) 0 q (open_tag t attrs @ s) =
      Some (tagged 0 (''<'' @ t) @ tagged 1 attrs @ [(0, CHR ''>'')], s)" for q
    using rmatch_ilit [of "''<'' @ t" "Boundary # Group 1 # Star (not_char (CHR ''>'')) # Group 0 # Opt ((=) (CHR ''/'')) # ilit ''>''"
        0 q "attrs @ CHR ''>'' # s"] star
    by (simp add: tag_regex_def open_tag_def)
  then have "rsearch (tag_regex t) q (open_tag t attrs @ s) =
      Some ([], tagged 0 (''<'' @ t) @ tagged 1 attrs @ [(0, CHR ''>'')], s)" for q
    by (cases "open_tag t attrs @ s") simp_all
  then show ?thesis using opaque_rsearch [OF assms(2)] by (simp add: regex_search_def)
qed

lemma tag_absent:
  assumes "opaque (tag_regex t) a"
  shows "attr_of_tag a t attr = None"
proof -
  obtain c es where e: "tag_regex t = One c # es" by (auto simp: tag_regex_def)
  show ?thesis using opaque_none assms unfolding attr_of_tag_def regex_search_def e by simp
qed

definition url_ok :: "string \<Rightarrow> bool" where
  "url_ok u = (no_angle u \<and> CHR 0x22 \<notin> set u)"

abbreviation enclosure_attrs :: "string \<Rightarrow> string" where
  "enclosure_attrs u \<equiv> '' type=\"application/x-bittorrent\" url=\"'' @ u @ ''\"/''"

lemma rmatch_value:
  "CHR 0x22 \<notin> set v \<Longrightarrow>
   rmatch (Star (\<lambda>x. x \<noteq> CHR 0x22) # Group 0 # One (\<lambda>x. to_lower x = to_lower (CHR 0x22)) # []) 1 p (v @ CHR 0x22 # s) =
   Some (tagged 1 v @ [(0, CHR 0x22)], s)"
  by (rule rmatch_star) auto

lemma enclosure_type:
  "map_option (capture 1) (regex_search (attr_regex ''type'' (CHR 0x22)) (enclosure_attrs u)) = Some ''application/x-bittorrent''"
  by (simp add: regex_search_def attr_regex_def to_lower_def is_space_def)

lemma enclosure_url:
  "CHR 0x22 \<notin> set u \<Longrightarrow> map_option (capture 1) (regex_search (attr_regex ''url'' (CHR 0x22)) (enclosure_attrs u)) = Some u"
  using rmatch_value [of u] by (simp add: regex_search_def attr_regex_def to_lower_def is_space_def)

lemma opaque_elem:
  "opens t es \<Longrightarrow> other_name t t' \<Longrightarrow> CHR ''<'' \<notin> set b \<Longrightarrow> opaque es (xml_elem t' b)"
  unfolding xml_elem_def
  by (intro opaque_append opaque_open_tag opaque_close_tag opaque_text) (auto simp: other_name_def attrs_ok_def no_angle_def)

lemma closing_elem:
  "other_name t t' \<Longrightarrow> CHR ''<'' \<notin> set b \<Longrightarrow> opaque (ilit (end_tag t)) (xml_elem t' b)"
  unfolding xml_elem_def
  by (intro opaque_append closing_open_tag closing_close_tag opaque_close_text)
    (auto simp: other_name_def attrs_ok_def no_angle_def)

lemma opaque_optional:
  "opens t es \<Longrightarrow> other_name t t' \<Longrightarrow> \<forall>x. b = Some x \<longrightarrow> CHR ''<'' \<notin> set x \<Longrightarrow> opaque es (optional_elem t' b)"
  by (cases b) (auto simp: optional_elem_def intro!: opaque_elem)

lemma closing_optional:
  "other_name t t' \<Longrightarrow> \<forall>x. b = Some x \<longrightarrow> CHR ''<'' \<notin> set x \<Longrightarrow> opaque (ilit (end_tag t)) (optional_elem t' b)"
  by (cases b) (auto simp: optional_elem_def intro!: closing_elem)

lemma enclosure_attrs_ok: "url_ok u \<Longrightarrow> attrs_ok (enclosure_attrs u)"
  by (simp add: attrs_ok_def url_ok_def no_angle_def)

lemma enclosure_name: "tag_name ''enclosure''"
  by (simp add: tag_name_def is_alpha_char_def to_lower_def)

lemma opaque_enclosure:
  "opens t es \<Longrightarrow> other_name t ''enclosure'' \<Longrightarrow> \<forall>x. u = Some x \<longrightarrow> url_ok x \<Longrightarrow> opaque es (enclosure u)"
  using enclosure_attrs_ok by (cases u) (auto simp: enclosure_def intro!: opaque_open_tag)

lemma closing_enclosure:
  "\<forall>x. u = Some x \<longrightarrow> url_ok x \<Longrightarrow> opaque (ilit (end_tag t)) (enclosure u)"
  using enclosure_attrs_ok by (cases u) (auto simp: enclosure_def intro!: closing_open_tag enclosure_name)

lemmas opaques =
  opaque_append closing_elem closing_optional closing_enclosure
  opaque_elem [OF opens_regex(1)] opaque_optional [OF opens_regex(1)] opaque_enclosure [OF opens_regex(1)]
  opaque_elem [OF opens_regex(2)] opaque_optional [OF opens_regex(2)] opaque_enclosure [OF opens_regex(2)]

text \<open>An entry the printer can write: every text stands for itself, the torrent URL has no quote.\<close>

definition entry_ok :: "rss_entry \<times> string \<Rightarrow> bool" where
  "entry_ok = (\<lambda>(e, date).
     plain_text (re_title e) \<and> plain_text (re_link e) \<and> plain_text (re_guid e) \<and> plain_text date \<and>
     (\<forall>d. re_description e = Some d \<longrightarrow> plain_text d) \<and> (\<forall>u. re_torrent_url e = Some u \<longrightarrow> url_ok u))"

definition doc_ok :: "rss_document \<Rightarrow> bool" where
  "doc_ok d = (plain_text (rd_title d) \<and> plain_text (rd_link d) \<and> (\<forall>x. rd_description d = Some x \<longrightarrow> plain_text x))"

text \<open>What the reader makes of a printed entry.\<close>

definition read_entry :: "(string \<Rightarrow> string \<Rightarrow> 'tm option) \<Rightarrow> ('tm \<Rightarrow> int) \<Rightarrow> rss_entry \<Rightarrow> string \<Rightarrow> rss_entry" where
  "read_entry gt tg e date =
     e\<lparr>re_guid := (if re_guid e = [] then re_link e else re_guid e),
       re_magnet := magnet_of (re_description e) (item_body e date),
       re_published_at := parse_rfc822 gt tg date\<rparr>"

lemmas names = other_name_def tag_name_def to_lower_def is_alpha_char_def

lemma item_text:
  assumes "entry_ok (e, date)"
  shows "first_tag_text (item_body e date) ''title'' = Some (re_title e)"
    and "first_tag_text (item_body e date) ''link'' = Some (re_link e)"
    and "first_tag_text (item_body e date) ''guid'' = Some (re_guid e)"
    and "first_tag_text (item_body e date) ''description'' = re_description e"
    and "first_tag_text (item_body e date) ''pubDate'' = Some date"
proof -
  note ok = assms [unfolded entry_ok_def, simplified]
  have c: "CHR ''<'' \<notin> set (re_title e)" "CHR ''<'' \<notin> set (re_link e)" "CHR ''<'' \<notin> set (re_guid e)"
     "CHR ''<'' \<notin> set date" "\<forall>d. re_description e = Some d \<longrightarrow> CHR ''<'' \<notin> set d" "\<forall>u. re_torrent_url e = Some u \<longrightarrow> url_ok u"
    using ok by (auto simp: plain_text_def)
  let ?t = "xml_elem ''title'' (re_title e)" and ?l = "xml_elem ''link'' (re_link e)" and ?g = "xml_elem ''guid'' (re_guid e)"
    and ?d = "optional_elem ''description'' (re_description e)" and ?e = "enclosure (re_torrent_url e)"
    and ?p = "xml_elem ''pubDate'' date"
  show "first_tag_text (item_body e date) ''title'' = Some (re_title e)"
    using first_tag_text_found [of "''title''" "[]" "re_title e" "?l @ ?g @ ?d @ ?e @ ?p"] ok
    by (simp add: item_body_def names)
  have "opaque (element_regex ''link'') ?t" using c by (intro opaques) (simp_all add: names)
  then show "first_tag_text (item_body e date) ''link'' = Some (re_link e)"
    using first_tag_text_found [of "''link''" ?t "re_link e" "?g @ ?d @ ?e @ ?p"] ok
    by (simp add: item_body_def names)
  have "opaque (element_regex ''guid'') (?t @ ?l)" using c by (intro opaques) (simp_all add: names)
  then show "first_tag_text (item_body e date) ''guid'' = Some (re_guid e)"
    using first_tag_text_found [of "''guid''" "?t @ ?l" "re_guid e" "?d @ ?e @ ?p"] ok
    by (simp add: item_body_def names)
  have "opaque (element_regex ''pubDate'') (?t @ ?l @ ?g @ ?d @ ?e)"
    using c by (intro opaques) (simp_all add: names)
  then show "first_tag_text (item_body e date) ''pubDate'' = Some date"
    using first_tag_text_found [of "''pubDate''" "?t @ ?l @ ?g @ ?d @ ?e" date "[]"] ok
    by (simp add: item_body_def names)
  have o: "opaque (element_regex ''description'') (?t @ ?l @ ?g)" "opaque (element_regex ''description'') (?e @ ?p)"
    using c by (intro opaques; simp add: names)+
  show "first_tag_text (item_body e date) ''description'' = re_description e"
  proof (cases "re_description e")
    case None
    then show ?thesis using first_tag_text_absent [OF opaque_append [OF o]] by (simp add: item_body_def optional_elem_def)
  next
    case (Some d)
    then show ?thesis using first_tag_text_found [of "''description''" "?t @ ?l @ ?g" d "?e @ ?p"] ok o(1)
      by (simp add: item_body_def optional_elem_def names)
  qed
qed

lemma item_torrent:
  assumes "entry_ok (e, date)"
  shows "(if attr_of_tag (item_body e date) ''enclosure'' ''type'' = Some ''application/x-bittorrent''
      then attr_of_tag (item_body e date) ''enclosure'' ''url'' else None) = re_torrent_url e"
proof -
  note ok = assms [unfolded entry_ok_def, simplified]
  have c: "CHR ''<'' \<notin> set (re_title e)" "CHR ''<'' \<notin> set (re_link e)" "CHR ''<'' \<notin> set (re_guid e)"
     "CHR ''<'' \<notin> set date" "\<forall>d. re_description e = Some d \<longrightarrow> CHR ''<'' \<notin> set d"
    using ok by (auto simp: plain_text_def)
  let ?a = "xml_elem ''title'' (re_title e) @ xml_elem ''link'' (re_link e) @ xml_elem ''guid'' (re_guid e) @
    optional_elem ''description'' (re_description e)" and ?p = "xml_elem ''pubDate'' date"
  have o: "opaque (tag_regex ''enclosure'') ?a" "opaque (tag_regex ''enclosure'') ?p"
    using c by (intro opaques; simp add: names)+
  show ?thesis
  proof (cases "re_torrent_url e")
    case None
    then show ?thesis using tag_absent [OF opaque_append [OF o]] by (simp add: item_body_def enclosure_def)
  next
    case (Some u)
    then have u: "url_ok u" using ok by blast
    obtain m where "regex_search (tag_regex ''enclosure'') (?a @ open_tag ''enclosure'' (enclosure_attrs u) @ ?p) = Some m"
      "capture 1 m = enclosure_attrs u"
      using tag_found [OF enclosure_name o(1) enclosure_attrs_ok [OF u]] by blast
    moreover have "item_body e date = ?a @ open_tag ''enclosure'' (enclosure_attrs u) @ ?p"
      by (simp add: item_body_def enclosure_def Some)
    moreover have "CHR 0x22 \<notin> set u" using u by (simp add: url_ok_def)
    ultimately show ?thesis
      using enclosure_type [of u] enclosure_url [of u] unfolding attr_of_tag_def Let_def Some
      by (auto simp del: append.simps split: option.splits)
  qed
qed

lemma item_read: "entry_ok (e, date) \<Longrightarrow> parse_rss_item gt tg (item_body e date) = read_entry gt tg e date"
  using item_torrent [of e date]
  by (simp add: parse_rss_item_def item_text read_entry_def text_or_empty_def Let_def)

lemma item_closes: "entry_ok (e, date) \<Longrightarrow> opaque (ilit (end_tag ''item'')) (item_body e date)"
  unfolding item_body_def by (intro opaques) (auto simp: entry_ok_def plain_text_def names)

lemma items_found:
  assumes "\<forall>x \<in> set xs. entry_ok x" "opaque item_regex s"
  shows "map (capture 1) (map snd (all_matches item_regex p (concat (map (\<lambda>(e, date). xml_elem ''item'' (item_body e date)) xs) @ s))) =
    map (\<lambda>(e, date). item_body e date) xs"
  using assms(1)
proof (induction xs arbitrary: p)
  case Nil
  obtain c es where "item_regex = One c # es" by (auto simp: item_regex_def element_regex_def)
  with assms(2) opaque_none all_matches_none show ?case by (metis append_Nil concat.simps(1) list.simps(8))
next
  case (Cons x xs)
  obtain e date where x: "x = (e, date)" by (cases x)
  have "tag_name ''item''" by (simp add: names)
  from element_hit [OF this item_closes, of e date p] Cons.prems x
  have "rmatch item_regex 0 p (xml_elem ''item'' (item_body e date) @ r) = Some (elem_match ''item'' (item_body e date), r)" for r
    by (simp add: item_regex_def)
  from all_matches_hit [OF this] obtain q where "map snd (all_matches item_regex p (xml_elem ''item'' (item_body e date) @ r)) =
      elem_match ''item'' (item_body e date) # map snd (all_matches item_regex q r)" for r
    by (auto simp: elem_match_def open_tag_def)
  with Cons x show ?case by (simp add: elem_match_def del: map_map)
qed

lemma opaque_head_tags:
  "other_name t ''rss'' \<Longrightarrow> other_name t ''channel'' \<Longrightarrow>
   opaque (element_regex t) (open_tag ''rss'' '' version=\"2.0\"'' @ open_tag ''channel'' [])"
  by (intro opaque_append opaque_open_tag [OF opens_regex(1)]) (auto simp: attrs_ok_def no_angle_def)

lemma opaque_tail_tags:
  "tag_name t \<Longrightarrow> opaque (element_regex t) (end_tag ''channel'' @ end_tag ''rss'')"
  by (intro opaque_append opaque_close_tag [OF opens_regex(1)]) (auto simp: names)

lemma channel_text:
  assumes "doc_ok d" "opaque (element_regex ''description'') s"
  shows "first_tag_text (channel_head d @ s) ''title'' = Some (rd_title d)"
    and "first_tag_text (channel_head d @ s) ''link'' = Some (rd_link d)"
    and "first_tag_text (channel_head d @ s) ''description'' = rd_description d"
proof -
  note ok = assms(1) [unfolded doc_ok_def]
  have c: "CHR ''<'' \<notin> set (rd_title d)" "CHR ''<'' \<notin> set (rd_link d)" "\<forall>x. rd_description d = Some x \<longrightarrow> CHR ''<'' \<notin> set x"
    using ok by (auto simp: plain_text_def)
  let ?h = "open_tag ''rss'' '' version=\"2.0\"'' @ open_tag ''channel'' []"
    and ?t = "xml_elem ''title'' (rd_title d)" and ?l = "xml_elem ''link'' (rd_link d)"
    and ?d = "optional_elem ''description'' (rd_description d)"
  have "opaque (element_regex ''title'') ?h" by (rule opaque_head_tags) (simp_all add: names)
  then show "first_tag_text (channel_head d @ s) ''title'' = Some (rd_title d)"
    using first_tag_text_found [of "''title''" ?h "rd_title d" "?l @ ?d @ s"] ok by (simp add: channel_head_def names)
  have "opaque (element_regex ''link'') (?h @ ?t)"
    using c by (intro opaque_append [OF opaque_head_tags] opaques) (simp_all add: names)
  then show "first_tag_text (channel_head d @ s) ''link'' = Some (rd_link d)"
    using first_tag_text_found [of "''link''" "?h @ ?t" "rd_link d" "?d @ s"] ok by (simp add: channel_head_def names)
  have o: "opaque (element_regex ''description'') (?h @ ?t @ ?l)"
    using c by (intro opaque_append [OF opaque_head_tags] opaques) (simp_all add: names)
  show "first_tag_text (channel_head d @ s) ''description'' = rd_description d"
  proof (cases "rd_description d")
    case None
    then show ?thesis using first_tag_text_absent [OF opaque_append [OF o assms(2)]] by (simp add: channel_head_def optional_elem_def)
  next
    case (Some x)
    then show ?thesis using first_tag_text_found [of "''description''" "?h @ ?t @ ?l" x s] ok o
      by (simp add: channel_head_def optional_elem_def names)
  qed
qed

lemma channel_no_item: "doc_ok d \<Longrightarrow> opaque item_regex (channel_head d)"
proof -
  assume "doc_ok d"
  then have "opaque (element_regex ''item'') (xml_elem ''title'' (rd_title d) @
     xml_elem ''link'' (rd_link d) @ optional_elem ''description'' (rd_description d))"
    by (intro opaques) (auto simp: doc_ok_def plain_text_def names)
  moreover have "opaque (element_regex ''item'') (open_tag ''rss'' '' version=\"2.0\"'' @ open_tag ''channel'' [])"
    by (rule opaque_head_tags) (simp_all add: names)
  ultimately show ?thesis using opaque_append by (fastforce simp: item_regex_def channel_head_def)
qed

lemma rss_root_found: "regex_search rss_root_regex (channel_head d @ s) \<noteq> None"
  by (simp add: regex_search_def rss_root_regex_def channel_head_def open_tag_def first_char_def names is_word_char_def is_digit_def)

text \<open>The text before the first item is the head of the channel, or everything when there is no item.\<close>

lemma channel_view:
  assumes "doc_ok d" "\<forall>x \<in> set xs. entry_ok x"
  shows "\<exists>s. before_first item_regex (channel_head d @
      concat (map (\<lambda>(e, date). xml_elem ''item'' (item_body e date)) xs) @ end_tag ''channel'' @ end_tag ''rss'') =
      channel_head d @ s \<and> opaque (element_regex ''description'') s"
proof (cases xs)
  case Nil
  have t: "opaque (element_regex t) (end_tag ''channel'' @ end_tag ''rss'')" if "tag_name t" for t
    using that by (rule opaque_tail_tags)
  obtain c es where i: "item_regex = One c # es" by (auto simp: item_regex_def element_regex_def)
  have "opaque item_regex (channel_head d @ end_tag ''channel'' @ end_tag ''rss'')"
    using channel_no_item [OF assms(1)] t [of "''item''"] by (auto simp: item_regex_def names)
  then have "rsearch item_regex None (channel_head d @ end_tag ''channel'' @ end_tag ''rss'') = None"
    unfolding i by (rule opaque_none)
  with t [of "''description''"] Nil show ?thesis by (auto simp: before_first_def names)
next
  case (Cons x ys)
  obtain e date where x: "x = (e, date)" by (cases x)
  have "tag_name ''item''" by (simp add: names)
  from element_found [OF this channel_no_item [OF assms(1), unfolded item_regex_def] item_closes] assms(2) x Cons
  show ?thesis by (auto simp: before_first_def item_regex_def)
qed

text \<open>
  C14. Reading a printed RSS document gives the document back: the channel's title, link and
  description, and every entry in document order with its title, link, description and torrent URL;
  an entry without a guid is identified by its link. The magnet link is the one found in the
  description, else in the body, and the publication time is that of the entry's date.
\<close>

theorem rss_document_roundtrip:
  assumes "doc_ok d" "length dates = length (rd_entries d)" "\<forall>x \<in> set (zip (rd_entries d) dates). entry_ok x"
  shows "parse gt tg (print_rss d dates) = Inr (d\<lparr>rd_entries := map2 (read_entry gt tg) (rd_entries d) dates\<rparr>)"
proof -
  let ?xs = "zip (rd_entries d) dates"
  obtain s where s: "before_first item_regex (print_rss d dates) = channel_head d @ s" "opaque (element_regex ''description'') s"
    using channel_view [OF assms(1,3)] by (auto simp: print_rss_def)
  have "opaque item_regex (end_tag ''channel'' @ end_tag ''rss'')"
    unfolding item_regex_def by (rule opaque_tail_tags) (simp add: names)
  from items_found [OF assms(3) this] opaque_matches [OF channel_no_item [OF assms(1)]]
  have "map (capture 1) (map snd (all_matches item_regex None (print_rss d dates))) = map (\<lambda>(e, date). item_body e date) ?xs"
    by (simp add: print_rss_def del: map_map)
  then have "map (parse_rss_item gt tg) (map (capture 1) (map snd (all_matches item_regex None (print_rss d dates)))) =
      map (parse_rss_item gt tg) (map (\<lambda>(e, date). item_body e date) ?xs)" by (rule arg_cong)
  also have "\<dots> = map2 (read_entry gt tg) (rd_entries d) dates"
    using assms(3) by (auto simp: item_read)
  finally have e: "map (\<lambda>(_, m). parse_rss_item gt tg (capture 1 m)) (all_matches item_regex None (print_rss d dates)) =
      map2 (read_entry gt tg) (rd_entries d) dates" by (simp add: comp_def case_prod_unfold)
  have ne: "print_rss d dates \<noteq> []" and root: "regex_search rss_root_regex (print_rss d dates) \<noteq> None"
    using rss_root_found by (auto simp: print_rss_def channel_head_def open_tag_def simp del: not_None_eq)
  then have "parse gt tg (print_rss d dates) = parse_rss gt tg (print_rss d dates)" by (simp add: parse_def)
  also have "\<dots> = Inr (d\<lparr>rd_entries := map2 (read_entry gt tg) (rd_entries d) dates\<rparr>)"
    unfolding parse_rss_def Let_def s(1) e channel_text [OF assms(1) s(2)] by (simp add: text_or_empty_def)
  finally show ?thesis .
qed

theorem rss_document_roundtrip_witness:
  "parse (\<lambda>_ _. Some ()) (\<lambda>_. 1) (print_rss \<lparr>rd_title = ''News'', rd_link = ''http://x'', rd_description = None,
     rd_entries = [\<lparr>re_guid = ''7'', re_title = ''A b'', re_link = [], re_magnet = None,
       re_torrent_url = Some ''http://x/a?b=c'', re_description = Some ''d'', re_published_at = None\<rparr>]\<rparr> [''today'']) =
   Inr \<lparr>rd_title = ''News'', rd_link = ''http://x'', rd_description = None,
     rd_entries = [read_entry (\<lambda>_ _. Some ()) (\<lambda>_. 1) \<lparr>re_guid = ''7'', re_title = ''A b'', re_link = [], re_magnet = None,
       re_torrent_url = Some ''http://x/a?b=c'', re_description = Some ''d'', re_published_at = None\<rparr> ''today'']\<rparr>"
  by (subst rss_document_roundtrip) (simp_all add: doc_ok_def entry_ok_def plain_text_def xml_space_def url_ok_def no_angle_def)

end
