(* ===== verification/Encodings.thy ===== *)
theory Encodings
  imports Prelude
begin

unbundle bit_operations_syntax

text \<open>
  The text encodings of the adapters: \<open>base64_encode\<close> of \<open>src/infrastructure/download/aria2_downloader.cpp\<close>,
  \<open>url_encode\<close> and \<open>make_form\<close> of \<open>qbittorrent_downloader.cpp\<close> and \<open>url_escape\<close> of \<open>google_drive_uploader.cpp\<close>. Each is
  shown to be undone by the decoder of its standard.
\<close>

subsection \<open>Splitting at the last separator\<close>

text \<open>\<open>rfind\<close> of a character: the text before its last occurrence and the text after it.\<close>

definition split_last :: "char \<Rightarrow> string \<Rightarrow> (string \<times> string) option" where
  "split_last d s =
     (let tail = rev (takeWhile (\<lambda>c. c \<noteq> d) (rev s)) in
      if length tail = length s then None else Some (take (length s - length tail - 1) s, tail))"

text \<open>\<open>path::filename\<close>.\<close>

definition path_filename :: "string \<Rightarrow> string" where
  "path_filename p = rev (takeWhile (\<lambda>c. c \<noteq> CHR ''/'') (rev p))"

lemma split_last_append:
  assumes "d \<notin> set q"
  shows "split_last d (p @ d # q) = Some (p, q)"
proof -
  have "takeWhile (\<lambda>c. c \<noteq> d) (rev q @ d # rev p) = rev q"
    using assms by (simp add: takeWhile_append takeWhile_eq_all_conv)
  then show ?thesis by (simp add: split_last_def)
qed

lemma split_last_none: "d \<notin> set s \<Longrightarrow> split_last d s = None"
proof -
  assume "d \<notin> set s"
  then have tw: "takeWhile (\<lambda>c. c \<noteq> d) (rev s) = rev s" by (auto simp: takeWhile_eq_all_conv)
  show ?thesis by (simp add: split_last_def tw)
qed

lemma authority_split:
  assumes "d \<notin> set a"
  shows "takeWhile (\<lambda>c. c \<noteq> d) (a @ d # t) = a" "dropWhile (\<lambda>c. c \<noteq> d) (a @ d # t) = d # t"
    "takeWhile (\<lambda>c. c \<noteq> d) a = a" "dropWhile (\<lambda>c. c \<noteq> d) a = []"
  using assms by (auto simp: takeWhile_append dropWhile_append takeWhile_eq_all_conv dropWhile_eq_Nil_conv)

subsection \<open>Base64\<close>

type_synonym byte = "8 word"

text \<open>\<open>static_cast<unsigned>\<close>: the arithmetic runs on 32-bit words.\<close>

definition b64_table :: string where
  "b64_table = ''ABCDEFGHIJKLMNOPQRSTUVWXYZabcdefghijklmnopqrstuvwxyz0123456789+/''"

definition sextet :: "32 word \<Rightarrow> 32 word" where
  "sextet x = x AND 0x3F"

definition b64_char :: "32 word \<Rightarrow> char" where
  "b64_char x = b64_table ! unat (sextet x)"

definition unsigned_of :: "byte \<Rightarrow> 32 word" where
  "unsigned_of b = ucast b"

fun base64_encode :: "byte list \<Rightarrow> string" where
  "base64_encode (x0 # x1 # x2 # rest) =
     (let b0 = unsigned_of x0; b1 = unsigned_of x1; b2 = unsigned_of x2 in
      [b64_char (drop_bit 2 b0), b64_char (push_bit 4 b0 OR drop_bit 4 b1),
       b64_char (push_bit 2 b1 OR drop_bit 6 b2), b64_char b2] @ base64_encode rest)"
| "base64_encode [x0, x1] =
     (let b0 = unsigned_of x0; b1 = unsigned_of x1 in
      [b64_char (drop_bit 2 b0), b64_char (push_bit 4 b0 OR drop_bit 4 b1), b64_char (push_bit 2 b1), CHR ''=''])"
| "base64_encode [x0] =
     (let b0 = unsigned_of x0; b1 = 0 in
      [b64_char (drop_bit 2 b0), b64_char (push_bit 4 b0 OR drop_bit 4 b1), CHR ''='', CHR ''=''])"
| "base64_encode [] = []"

text \<open>The decoder of RFC 4648, which aria2 applies to the torrent it is sent.\<close>

definition b64_value :: "char \<Rightarrow> 32 word option" where
  "b64_value c = map_option of_nat (map_of (zip b64_table [0..<64]) c)"

definition b64_byte :: "32 word \<Rightarrow> byte" where
  "b64_byte x = ucast x"

fun base64_decode :: "string \<Rightarrow> byte list option" where
  "base64_decode [] = Some []"
| "base64_decode (c0 # c1 # c2 # c3 # rest) =
     (case (b64_value c0, b64_value c1) of
        (Some s0, Some s1) \<Rightarrow>
          (let x0 = b64_byte (push_bit 2 s0 OR drop_bit 4 s1) in
           if c2 = CHR ''='' then (if c3 = CHR ''='' \<and> rest = [] then Some [x0] else None)
           else case b64_value c2 of
             None \<Rightarrow> None
           | Some s2 \<Rightarrow>
               (let x1 = b64_byte (push_bit 4 s1 OR drop_bit 2 s2) in
                if c3 = CHR ''='' then (if rest = [] then Some [x0, x1] else None)
                else case b64_value c3 of
                  None \<Rightarrow> None
                | Some s3 \<Rightarrow> map_option (\<lambda>xs. x0 # x1 # b64_byte (push_bit 6 s2 OR s3) # xs) (base64_decode rest)))
      | _ \<Rightarrow> None)"
| "base64_decode _ = None"

lemma b64_table_inverse: "i < 64 \<Longrightarrow> map_of (zip b64_table [0..<64]) (b64_table ! i) = Some i"
proof -
  have "list_all (\<lambda>i. map_of (zip b64_table [0..<64]) (b64_table ! i) = Some i) [0..<64]" by code_simp
  then show "i < 64 \<Longrightarrow> ?thesis" by (simp add: list_all_iff)
qed

lemma b64_table_no_pad: "i < 64 \<Longrightarrow> b64_table ! i \<noteq> CHR ''=''"
proof -
  have "list_all (\<lambda>i. b64_table ! i \<noteq> CHR ''='') [0..<64]" by code_simp
  then show "i < 64 \<Longrightarrow> ?thesis" by (simp add: list_all_iff)
qed

lemma sextet_bound: "unat (sextet x) < 64"
proof -
  have "sextet x = take_bit 6 x" by (simp add: sextet_def take_bit_eq_mask mask_numeral)
  then have "unat (sextet x) = take_bit 6 (unat x)" by (simp add: unsigned_take_bit_eq)
  then show ?thesis using take_bit_nat_less_exp [of 6 "unat x"] by simp
qed

lemma b64_value_char [simp]: "b64_value (b64_char x) = Some (sextet x)"
  by (simp add: b64_value_def b64_char_def b64_table_inverse sextet_bound)

lemma b64_char_no_pad [simp]: "b64_char x \<noteq> CHR ''=''"
  by (simp add: b64_char_def b64_table_no_pad sextet_bound)

lemma bit_sextet [bit_simps]: "bit (sextet x) n \<longleftrightarrow> bit x n \<and> n < 6"
proof -
  have "sextet x = take_bit 6 x" by (simp add: sextet_def take_bit_eq_mask mask_numeral)
  then show ?thesis by (auto simp: bit_simps)
qed

lemma bit_unsigned_of [bit_simps]: "bit (unsigned_of x) n \<longleftrightarrow> n < 8 \<and> bit x n"
  by (auto simp: unsigned_of_def bit_simps dest: bit_imp_le_length)

lemma less8_cases: "n < (8 :: nat) \<Longrightarrow> n = 0 \<or> n = Suc 0 \<or> n = 2 \<or> n = 3 \<or> n = 4 \<or> n = 5 \<or> n = 6 \<or> n = 7"
  by linarith

text \<open>The bits of each byte are found again in the two characters that carry them.\<close>

lemma b64_byte0 [simp]:
  "b64_byte (push_bit 2 (sextet (drop_bit 2 (unsigned_of x))) OR
     drop_bit 4 (sextet (push_bit 4 (unsigned_of x) OR drop_bit 4 (unsigned_of y)))) = x"
  unfolding b64_byte_def
  by (rule bit_word_eqI) (auto simp: bit_simps dest!: less8_cases simp flip: numeral_2_eq_2 numeral_3_eq_3)

lemma b64_byte0_last [simp]:
  "b64_byte (push_bit 2 (sextet (drop_bit 2 (unsigned_of x))) OR drop_bit 4 (sextet (push_bit 4 (unsigned_of x)))) = x"
  unfolding b64_byte_def
  by (rule bit_word_eqI) (auto simp: bit_simps dest!: less8_cases simp flip: numeral_2_eq_2 numeral_3_eq_3)

lemma b64_byte1 [simp]:
  "b64_byte (push_bit 4 (sextet (push_bit 4 v OR drop_bit 4 (unsigned_of x))) OR
     drop_bit 2 (sextet (push_bit 2 (unsigned_of x) OR drop_bit 6 (unsigned_of y)))) = x"
  unfolding b64_byte_def
  by (rule bit_word_eqI) (auto simp: bit_simps dest!: less8_cases simp flip: numeral_2_eq_2 numeral_3_eq_3)

lemma b64_byte1_last [simp]:
  "b64_byte (push_bit 4 (sextet (push_bit 4 v OR drop_bit 4 (unsigned_of x))) OR drop_bit 2 (sextet (push_bit 2 (unsigned_of x)))) = x"
  unfolding b64_byte_def
  by (rule bit_word_eqI) (auto simp: bit_simps dest!: less8_cases simp flip: numeral_2_eq_2 numeral_3_eq_3)

lemma b64_byte2 [simp]:
  "b64_byte (push_bit 6 (sextet (push_bit 2 v OR drop_bit 6 (unsigned_of x))) OR sextet (unsigned_of x)) = x"
  unfolding b64_byte_def
  by (rule bit_word_eqI) (auto simp: bit_simps dest!: less8_cases simp flip: numeral_2_eq_2 numeral_3_eq_3)

lemma base64_roundtrip: "base64_decode (base64_encode xs) = Some xs"
  by (induction xs rule: base64_encode.induct) (simp_all add: Let_def)

lemma base64_length: "length (base64_encode xs) = 4 * ((length xs + 2) div 3)"
proof (induction xs rule: base64_encode.induct)
  case (1 x0 x1 x2 rest)
  have "(5 + length rest) div 3 = Suc ((2 + length rest) div 3)" by simp
  with 1 show ?case by (simp add: Let_def)
qed (simp_all add: Let_def)

subsection \<open>Percent encoding\<close>

definition unreserved :: "char \<Rightarrow> bool" where
  "unreserved c = (let b = byte_of c in
     (65 \<le> b \<and> b \<le> 90) \<or> (97 \<le> b \<and> b \<le> 122) \<or> (48 \<le> b \<and> b \<le> 57) \<or>
     c = CHR ''-'' \<or> c = CHR ''_'' \<or> c = CHR ''.'' \<or> c = CHR ''~'')"

definition upper_hex :: string where
  "upper_hex = ''0123456789ABCDEF''"

definition url_encode_char :: "char \<Rightarrow> string" where
  "url_encode_char c =
     (if unreserved c then [c] else [CHR ''%'', upper_hex ! (byte_of c div 16), upper_hex ! (byte_of c mod 16)])"

definition url_encode :: "string \<Rightarrow> string" where
  "url_encode s = concat (map url_encode_char s)"

text \<open>The variant of the Drive adapter searches a table and prints with \<open>%{:02X}\<close>.\<close>

definition escape_safe :: string where
  "escape_safe = ''ABCDEFGHIJKLMNOPQRSTUVWXYZabcdefghijklmnopqrstuvwxyz0123456789-_.~''"

definition url_escape :: "string \<Rightarrow> string" where
  "url_escape s = concat (map (\<lambda>c. if c \<in> set escape_safe then [c]
     else [CHR ''%'', upper_hex ! (byte_of c div 16), upper_hex ! (byte_of c mod 16)]) s)"

text \<open>\<open>make_form\<close> puts the separator before every field but the first.\<close>

definition make_form :: "(string \<times> string) list \<Rightarrow> string" where
  "make_form fields =
     fst (fold (\<lambda>(k, v) (out, first). (out @ (if first then [] else ''&'') @ url_encode k @ ''='' @ url_encode v, False))
       fields ([], True))"

text \<open>The decoders of RFC 3986 and of \<open>application/x-www-form-urlencoded\<close>.\<close>

definition hex_value :: "char \<Rightarrow> nat option" where
  "hex_value c = map_of (zip upper_hex [0..<16]) c"

fun url_decode :: "string \<Rightarrow> string option" where
  "url_decode [] = Some []"
| "url_decode (c # cs) =
     (if c \<noteq> CHR ''%'' then map_option (Cons c) (url_decode cs)
      else case cs of
        a # b # rest \<Rightarrow>
          (case (hex_value a, hex_value b) of
             (Some x, Some y) \<Rightarrow> map_option (Cons (char_of (16 * x + y))) (url_decode rest)
           | _ \<Rightarrow> None)
      | _ \<Rightarrow> None)"

definition decode_field :: "string \<Rightarrow> (string \<times> string) option" where
  "decode_field s =
     (case dropWhile (\<lambda>c. c \<noteq> CHR ''='') s of
        [] \<Rightarrow> None
      | _ # v \<Rightarrow> (case (url_decode (takeWhile (\<lambda>c. c \<noteq> CHR ''='') s), url_decode v) of
            (Some k, Some v) \<Rightarrow> Some (k, v) | _ \<Rightarrow> None))"

lemma dropWhile_shorter: "dropWhile P s = c # rest \<Longrightarrow> length rest < length s"
  using length_dropWhile_le [of P s] by simp

function form_decode :: "string \<Rightarrow> (string \<times> string) list option" where
  "form_decode s =
     (case (decode_field (takeWhile (\<lambda>c. c \<noteq> CHR ''&'') s), dropWhile (\<lambda>c. c \<noteq> CHR ''&'') s) of
        (None, _) \<Rightarrow> None
      | (Some f, []) \<Rightarrow> Some [f]
      | (Some f, _ # rest) \<Rightarrow> map_option (Cons f) (form_decode rest))"
  by pat_completeness auto
termination
  by (relation "measure length") (auto dest: dropWhile_shorter dropWhile_shorter [OF sym])

declare form_decode.simps [simp del]

lemma hex_value_digit [simp]: "x < 16 \<Longrightarrow> hex_value (upper_hex ! x) = Some x"
proof -
  have "list_all (\<lambda>x. hex_value (upper_hex ! x) = Some x) [0..<16]" by code_simp
  then show "x < 16 \<Longrightarrow> ?thesis" by (simp add: list_all_iff)
qed

lemma upper_hex_unreserved [simp]: "x < 16 \<Longrightarrow> unreserved (upper_hex ! x)"
proof -
  have "list_all (\<lambda>x. unreserved (upper_hex ! x)) [0..<16]" by code_simp
  then show "x < 16 \<Longrightarrow> ?thesis" by (simp add: list_all_iff)
qed

lemma reserved_chars [simp]: "\<not> unreserved CHR ''%''" "\<not> unreserved CHR ''&''" "\<not> unreserved CHR ''=''"
  by code_simp+

lemma byte_div_16 [simp]: "byte_of c div 16 < 16"
  using byte_of_less [of c] by linarith

lemma url_decode_char [simp]: "url_decode (url_encode_char c @ t) = map_option (Cons c) (url_decode t)"
proof (cases "unreserved c")
  case True
  then have "c \<noteq> CHR ''%''" by auto
  with True show ?thesis by (simp add: url_encode_char_def)
qed (simp add: url_encode_char_def)

lemma url_encode_simps [simp]: "url_encode [] = []" "url_encode (c # s) = url_encode_char c @ url_encode s"
  by (simp_all add: url_encode_def)

lemma url_roundtrip [simp]: "url_decode (url_encode s) = Some s"
  by (induction s) simp_all

lemma url_encode_safe: "c \<in> set (url_encode s) \<Longrightarrow> unreserved c \<or> c = CHR ''%''"
  by (induction s) (auto simp: url_encode_char_def split: if_splits)

lemma url_encode_separators [simp]: "CHR ''&'' \<notin> set (url_encode s)" "CHR ''='' \<notin> set (url_encode s)"
  using url_encode_safe [of "CHR ''&''" s] url_encode_safe [of "CHR ''=''" s] by auto

lemma byte_eq_iff: "byte_of c = byte_of d \<longleftrightarrow> c = d"
  by (metis char_of_char)

lemma escape_safe_iff: "c \<in> set escape_safe \<longleftrightarrow> unreserved c"
proof -
  have bytes: "map byte_of escape_safe = [65..<91] @ [97..<123] @ [48..<58] @ [45, 95, 46, 126]" by code_simp
  have "c \<in> set escape_safe \<longleftrightarrow> byte_of c \<in> set (map byte_of escape_safe)"
    by (auto simp: byte_eq_iff)
  also have "\<dots> \<longleftrightarrow> unreserved c"
    unfolding bytes unreserved_def Let_def
    using byte_eq_iff [of c "CHR ''-''"] byte_eq_iff [of c "CHR ''_''"] byte_eq_iff [of c "CHR ''.''"]
      byte_eq_iff [of c "CHR ''~''"]
    by (simp only: set_append set_upt Un_iff atLeastLessThan_iff list.set insert_iff empty_iff) auto
  finally show ?thesis .
qed

lemma url_escape_eq: "url_escape s = url_encode s"
  unfolding url_escape_def url_encode_def by (rule arg_cong [of _ _ concat], rule map_cong)
    (auto simp: url_encode_char_def escape_safe_iff)

text \<open>A form as its fields joined by \<open>&\<close>.\<close>

definition form_field :: "string \<times> string \<Rightarrow> string" where
  "form_field f = url_encode (fst f) @ ''='' @ url_encode (snd f)"

lemma form_fold:
  "fst (fold (\<lambda>(k, v) (out, first). (out @ (if first then [] else ''&'') @ url_encode k @ ''='' @ url_encode v, False))
     fields (out, False)) = out @ concat (map (\<lambda>f. ''&'' @ form_field f) fields)"
  by (induction fields arbitrary: out) (auto simp: form_field_def)

lemma make_form_Cons: "make_form (f # fields) = form_field f @ concat (map (\<lambda>f. ''&'' @ form_field f) fields)"
  using form_fold [of fields "form_field f"] by (cases f) (simp add: make_form_def form_field_def)

lemma decode_field_roundtrip [simp]: "decode_field (form_field f) = Some f"
proof -
  have "takeWhile (\<lambda>c. c \<noteq> CHR ''='') (form_field f) = url_encode (fst f)"
    "dropWhile (\<lambda>c. c \<noteq> CHR ''='') (form_field f) = CHR ''='' # url_encode (snd f)"
    by (auto simp: form_field_def takeWhile_append2 dropWhile_append2 takeWhile_append dropWhile_append)
  then show ?thesis by (simp add: decode_field_def)
qed

lemma form_field_no_amp: "CHR ''&'' \<notin> set (form_field f)"
  by (simp add: form_field_def)

lemma form_roundtrip: "fields \<noteq> [] \<Longrightarrow> form_decode (make_form fields) = Some fields"
proof (induction fields)
  case (Cons f fields)
  let ?rest = "concat (map (\<lambda>f. ''&'' @ form_field f) fields)"
  have split: "takeWhile (\<lambda>c. c \<noteq> CHR ''&'') (form_field f @ ?rest) = form_field f"
    "dropWhile (\<lambda>c. c \<noteq> CHR ''&'') (form_field f @ ?rest) = ?rest"
    using form_field_no_amp [of f] by (cases fields; auto simp: takeWhile_append dropWhile_append)+
  show ?case
  proof (cases fields)
    case Nil
    have tw: "takeWhile (\<lambda>c. c \<noteq> CHR ''&'') (form_field f) = form_field f" "dropWhile (\<lambda>c. c \<noteq> CHR ''&'') (form_field f) = []"
      using form_field_no_amp [of f] by (auto simp: takeWhile_eq_all_conv dropWhile_eq_Nil_conv)
    show ?thesis unfolding Nil by (subst form_decode.simps) (simp add: make_form_Cons tw)
  next
    case (Cons g gs)
    then have "?rest = CHR ''&'' # make_form fields" by (simp add: make_form_Cons)
    with split Cons Cons.IH show ?thesis by (subst form_decode.simps) (simp add: make_form_Cons [of f])
  qed
qed simp


subsection \<open>Base64url\<close>

text \<open>\<open>base64url\<close>: the URL alphabet, without padding.\<close>

definition to_url_char :: "char \<Rightarrow> char" where
  "to_url_char c = (let c = (if c = CHR ''+'' then CHR ''-'' else c) in if c = CHR ''/'' then CHR ''_'' else c)"

definition base64url :: "byte list \<Rightarrow> string" where
  "base64url xs = rev (dropWhile (\<lambda>c. c = CHR ''='') (rev (map to_url_char (base64_encode xs))))"

definition text_bytes :: "string \<Rightarrow> byte list" where
  "text_bytes s = map (\<lambda>c. of_nat (byte_of c)) s"

text \<open>A reader of tokens undoes the alphabet and pads to a multiple of four.\<close>

definition of_url_char :: "char \<Rightarrow> char" where
  "of_url_char c = (if c = CHR ''-'' then CHR ''+'' else if c = CHR ''_'' then CHR ''/'' else c)"

definition base64url_decode :: "string \<Rightarrow> byte list option" where
  "base64url_decode s = base64_decode (map of_url_char s @ replicate ((4 - length s mod 4) mod 4) CHR ''='')"

lemma table_chars: "i < 64 \<Longrightarrow> of_url_char (to_url_char (b64_table ! i)) = b64_table ! i \<and> to_url_char (b64_table ! i) \<noteq> CHR ''=''
    \<and> to_url_char (b64_table ! i) \<noteq> CHR ''.''"
proof -
  have "list_all (\<lambda>i. of_url_char (to_url_char (b64_table ! i)) = b64_table ! i \<and> to_url_char (b64_table ! i) \<noteq> CHR ''=''
    \<and> to_url_char (b64_table ! i) \<noteq> CHR ''.'') [0..<64]" by code_simp
  then show "i < 64 \<Longrightarrow> ?thesis" by (simp add: list_all_iff)
qed

lemma url_chars [simp]: "of_url_char (to_url_char (b64_char x)) = b64_char x" "to_url_char (b64_char x) \<noteq> CHR ''=''"
    "to_url_char (b64_char x) \<noteq> CHR ''.''"
  using table_chars [OF sextet_bound, of x] by (simp_all add: b64_char_def)

lemma to_url_pad [simp]: "to_url_char CHR ''='' = CHR ''=''" by code_simp

text \<open>The encoding without its padding, and how much padding there is.\<close>

fun unpadded :: "byte list \<Rightarrow> string" where
  "unpadded (x0 # x1 # x2 # rest) = take 4 (base64_encode [x0, x1, x2]) @ unpadded rest"
| "unpadded [x0, x1] = take 3 (base64_encode [x0, x1])"
| "unpadded [x0] = take 2 (base64_encode [x0])"
| "unpadded [] = []"

lemma unpadded_chars: "c \<in> set (unpadded xs) \<Longrightarrow> \<exists>x. c = b64_char x"
  by (induction xs rule: unpadded.induct) (auto simp: Let_def)

lemma encode_unpadded: "base64_encode xs = unpadded xs @ replicate ((4 - length (unpadded xs) mod 4) mod 4) CHR ''=''"
  by (induction xs rule: unpadded.induct) (simp_all add: Let_def numeral_2_eq_2)

lemma base64url_unpadded: "base64url xs = map to_url_char (unpadded xs)"
proof -
  define u where "u = map to_url_char (unpadded xs)"
  have "to_url_char c \<noteq> CHR ''=''" if "c \<in> set (unpadded xs)" for c using unpadded_chars [OF that] by auto
  then have no: "CHR ''='' \<notin> set (rev u)" by (auto simp: u_def) metis
  have strip: "dropWhile (\<lambda>c. c = CHR ''='') (replicate n CHR ''='' @ rev u) = rev u" for n
  proof (induction n)
    case 0
    from no show ?case by (cases "rev u") auto
  qed simp
  show ?thesis
    by (subst base64url_def, subst encode_unpadded) (simp add: u_def [symmetric] strip)
qed

lemma base64url_roundtrip: "base64url_decode (base64url xs) = Some xs"
proof -
  have "map of_url_char (base64url xs) = unpadded xs"
    by (auto simp: base64url_unpadded intro!: map_idI dest!: unpadded_chars)
  then show ?thesis
    using base64_roundtrip [of xs] encode_unpadded [of xs] by (simp add: base64url_decode_def base64url_unpadded)
qed

lemma base64url_no_dot: "CHR ''.'' \<notin> set (base64url xs)"
proof -
  have "to_url_char c \<noteq> CHR ''.''" if "c \<in> set (unpadded xs)" for c using unpadded_chars [OF that] by auto
  then show ?thesis by (auto simp: base64url_unpadded) metis
qed

lemma text_bytes_inj: "text_bytes s = text_bytes t \<Longrightarrow> s = t"
proof -
  have "inj (\<lambda>c. of_nat (byte_of c) :: byte)"
  proof (rule injI)
    fix c d assume "(of_nat (byte_of c) :: byte) = of_nat (byte_of d)"
    then have "unat (of_nat (byte_of c) :: byte) = unat (of_nat (byte_of d) :: byte)" by simp
    then have "byte_of c = byte_of d" using byte_of_less [of c] byte_of_less [of d]
      by (simp add: unat_of_nat take_bit_nat_eq_self)
    then show "c = d" by (simp add: byte_eq_iff)
  qed
  then show "text_bytes s = text_bytes t \<Longrightarrow> s = t" by (simp add: text_bytes_def inj_map_eq_map)
qed

end
