(* ===== verification/Http_Client.thy ===== *)
theory Http_Client
  imports Errors Encodings "HOL-Library.AList"
begin

text \<open>
  The HTTP client of \<open>src/infrastructure/http/beast_http_client.cpp\<close>: URLs, the headers that go on the wire, the pool
  of idle connections and the exchange with its redirects. Sockets, TLS and the HTTP parser of Boost are
  collaborators of the request.
\<close>

subsection \<open>Requests and responses\<close>

datatype http_method = HM_Get | HM_Post | HM_Put | HM_Delete | HM_Patch | HM_Head

type_synonym http_header = "string \<times> string"

record http_request =
  hq_method :: http_method
  hq_url :: string
  hq_headers :: "http_header list"
  hq_body :: string
  hq_timeout :: int

record http_response =
  hr_status_code :: int
  hr_headers :: "http_header list"
  hr_body :: string
  hr_duration :: int

definition default_request :: http_request where
  "default_request = \<lparr>hq_method = HM_Get, hq_url = [], hq_headers = [], hq_body = [], hq_timeout = 30000\<rparr>"

subsection \<open>URLs\<close>

record parsed_url =
  pu_https :: bool
  pu_host :: string
  pu_port :: string
  pu_target :: string

definition starts_with :: "string \<Rightarrow> string \<Rightarrow> bool" where
  "starts_with p s = (take (length p) s = p)"

definition default_port :: "bool \<Rightarrow> string" where
  "default_port https = (if https then ''443'' else ''80'')"

definition parse_url :: "string \<Rightarrow> parsed_url option" where
  "parse_url url =
     (case (if starts_with ''https://'' url then Some (True, drop 8 url)
            else if starts_with ''http://'' url then Some (False, drop 7 url) else None) of
        None \<Rightarrow> None
      | Some (https, rest) \<Rightarrow>
          (let authority = takeWhile (\<lambda>c. c \<noteq> CHR ''/'') rest;
               target = dropWhile (\<lambda>c. c \<noteq> CHR ''/'') rest;
               target = (if target = [] then ''/'' else target) in
           if CHR ''@'' \<in> set authority then None
           else case split_last CHR '':'' authority of
               Some (host, port) \<Rightarrow>
                 if host = [] \<or> port = [] \<or> \<not> list_all is_digit port then None
                 else Some \<lparr>pu_https = https, pu_host = host, pu_port = port, pu_target = target\<rparr>
             | None \<Rightarrow>
                 if authority = [] then None
                 else Some \<lparr>pu_https = https, pu_host = authority, pu_port = default_port https, pu_target = target\<rparr>))"

definition iequals :: "string \<Rightarrow> string \<Rightarrow> bool" where
  "iequals a b = (length a = length b \<and> list_all2 (\<lambda>x y. to_lower x = to_lower y) a b)"

definition same_origin :: "parsed_url \<Rightarrow> parsed_url \<Rightarrow> bool" where
  "same_origin a b = (pu_https a = pu_https b \<and> iequals (pu_host a) (pu_host b) \<and> pu_port a = pu_port b)"

definition url_base :: "parsed_url \<Rightarrow> string" where
  "url_base u = (if pu_https u then ''https://'' else ''http://'') @ pu_host u @
     (if pu_port u \<noteq> default_port (pu_https u) then '':'' @ pu_port u else [])"

definition resolve_redirect :: "parsed_url \<Rightarrow> string \<Rightarrow> string option" where
  "resolve_redirect current location =
     (if location = [] then None
      else if starts_with ''http://'' location \<or> starts_with ''https://'' location then Some location
      else if starts_with ''/'' location then Some (url_base current @ location)
      else (let tgt = (case split_last CHR ''/'' (pu_target current) of None \<Rightarrow> ''/'' | Some (p, _) \<Rightarrow> p @ ''/'') in
        Some (url_base current @ tgt @ location)))"

subsection \<open>Errors of the transport\<close>

text \<open>The classes of error codes that \<open>translate_ec\<close> tells apart.\<close>

datatype net_error = NE_Timeout string | NE_Aborted string | NE_Connection string | NE_Other string

fun translate_ec :: "net_error \<Rightarrow> string \<Rightarrow> app_error" where
  "translate_ec (NE_Timeout m) context = mk_error EC_Timeout (context @ '': '' @ m)"
| "translate_ec (NE_Aborted m) context = mk_error EC_Cancelled (context @ '': '' @ m)"
| "translate_ec (NE_Connection m) context = mk_error EC_Network (context @ '': '' @ m)"
| "translate_ec (NE_Other m) context = mk_error EC_Io (context @ '': '' @ m)"

subsection \<open>Headers on the wire\<close>

text \<open>\<open>fields::set\<close> replaces every field of that name; names compare without case.\<close>

definition set_field :: "string \<Rightarrow> string \<Rightarrow> http_header list \<Rightarrow> http_header list" where
  "set_field n v hs = filter (\<lambda>h. \<not> iequals (fst h) n) hs @ [(n, v)]"

definition field_of :: "string \<Rightarrow> http_header list \<Rightarrow> string option" where
  "field_of n hs = map_option snd (find (\<lambda>h. iequals (fst h) n) hs)"

definition kUserAgent :: string where
  "kUserAgent = ''cmlb/1.0 (+https://github.com/cmlb)''"

definition copy_headers :: "http_header list \<Rightarrow> http_header list" where
  "copy_headers headers =
     fold (\<lambda>(n, v) req. if iequals n ''host'' \<or> iequals n ''content-length'' then req else set_field n v req) headers []"

definition apply_headers :: "http_header list \<Rightarrow> string \<Rightarrow> string option \<Rightarrow> http_header list" where
  "apply_headers headers host_with_port body =
     (let saw = (\<lambda>n. list_ex (\<lambda>h. iequals (fst h) n) headers);
          req = copy_headers headers;
          req = set_field ''Host'' host_with_port req;
          req = (if saw ''user-agent'' then req else set_field ''User-Agent'' kUserAgent req);
          req = (if saw ''accept'' then req else set_field ''Accept'' ''*/*'' req);
          req = (if saw ''connection'' then req else set_field ''Connection'' ''keep-alive'' req) in
      case body of None \<Rightarrow> req | Some b \<Rightarrow> set_field ''Content-Length'' (int_to_string (int (length b))) req)"

subsection \<open>The exchange\<close>

text \<open>
  An endpoint is scheme, host and port. A socket is a value of the transport; taking one from the pool or
  opening it, writing a request and reading its response are collaborators.
\<close>

type_synonym endpoint = "bool \<times> string \<times> string"

record wire_request =
  wr_endpoint :: endpoint
  wr_method :: http_method
  wr_target :: string
  wr_headers :: "http_header list"
  wr_body :: string

record ('w, 's) transport =
  tr_take :: "endpoint \<Rightarrow> ('w, 's option) state"
  tr_open :: "endpoint \<Rightarrow> int \<Rightarrow> ('w, 's res) state"
  tr_exchange :: "'s \<Rightarrow> wire_request \<Rightarrow> int \<Rightarrow> ('w, (http_response \<times> bool) res) state"
  tr_return :: "endpoint \<Rightarrow> 's \<Rightarrow> ('w, unit) state"
  tr_close :: "'s \<Rightarrow> ('w, unit) state"
  tr_now :: "('w, int) state"

definition kMaxRedirects :: nat where "kMaxRedirects = 5"

definition connect_socket :: "('w, 's) transport \<Rightarrow> endpoint \<Rightarrow> int \<Rightarrow> ('w, 's res) state" where
  "connect_socket T key timeout = do {
     s \<leftarrow> tr_take T key;
     (case s of Some sock \<Rightarrow> State_Monad.return (Inr sock) | None \<Rightarrow> tr_open T key timeout)
   }"

text \<open>One hop: connect, exchange, and give the socket back when the peer keeps it open.\<close>

definition send_wire :: "('w, 's) transport \<Rightarrow> wire_request \<Rightarrow> int \<Rightarrow> ('w, http_response res) state" where
  "send_wire T wire timeout = do {
     s \<leftarrow> connect_socket T (wr_endpoint wire) timeout;
     (case s of
        Inl e \<Rightarrow> State_Monad.return (Inl e)
      | Inr sock \<Rightarrow> do {
          ex \<leftarrow> tr_exchange T sock wire timeout;
          (case ex of
             Inl e \<Rightarrow> State_Monad.return (Inl e)
           | Inr (resp, reusable) \<Rightarrow> do {
               _ \<leftarrow> (if reusable then tr_return T (wr_endpoint wire) sock else tr_close T sock);
               State_Monad.return (Inr resp)
             })
        })
   }"

definition has_body :: "http_method \<Rightarrow> bool" where
  "has_body m = (m = HM_Post \<or> m = HM_Put \<or> m = HM_Patch)"

definition endpoint_of :: "parsed_url \<Rightarrow> endpoint" where
  "endpoint_of u = (pu_https u, pu_host u, pu_port u)"

definition host_with_port :: "parsed_url \<Rightarrow> string" where
  "host_with_port u = pu_host u @ (if pu_port u \<noteq> default_port (pu_https u) then '':'' @ pu_port u else [])"

definition strip_authorization :: "http_header list \<Rightarrow> http_header list" where
  "strip_authorization hs = filter (\<lambda>h. \<not> iequals (fst h) ''authorization'') hs"

definition make_wire :: "parsed_url \<Rightarrow> http_method \<Rightarrow> http_header list \<Rightarrow> string \<Rightarrow> wire_request" where
  "make_wire u m headers body =
     \<lparr>wr_endpoint = endpoint_of u, wr_method = m, wr_target = pu_target u,
      wr_headers = apply_headers headers (host_with_port u) (if has_body m then Some body else None),
      wr_body = (if has_body m then body else [])\<rparr>"

definition is_redirect :: "int \<Rightarrow> bool" where
  "is_redirect code = (code = 301 \<or> code = 302 \<or> code = 303 \<or> code = 307 \<or> code = 308)"

text \<open>
  The loop of \<open>request\<close>. The first argument counts the hops that are left after this one (\<open>kMaxRedirects - hop\<close>);
  \<open>download\<close> is the variant of \<open>download_to_file\<close>, which always sends GET without a body.
\<close>

definition too_many_redirects :: "string \<Rightarrow> app_error" where
  "too_many_redirects url =
     mk_error EC_Network (''too many redirects (max '' @ nat_digits kMaxRedirects @ ''): '' @ url)"

fun request_loop ::
    "('w, 's) transport \<Rightarrow> int \<Rightarrow> int \<Rightarrow> parsed_url \<Rightarrow> nat \<Rightarrow> bool \<Rightarrow> http_method \<Rightarrow> string \<Rightarrow> http_header list \<Rightarrow> string \<Rightarrow>
     ('w, http_response res) state" where
  "request_loop T timeout start orig 0 redirected m url headers body = State_Monad.return (Inl (too_many_redirects url))"
| "request_loop T timeout start orig (Suc hops) redirected m url headers body =
     (case parse_url url of
        None \<Rightarrow> State_Monad.return (Inl (mk_error EC_InvalidArgument (''malformed URL (redirect): '' @ url)))
      | Some parsed \<Rightarrow>
          (let headers = (if redirected \<and> \<not> same_origin orig parsed then strip_authorization headers else headers) in
           do {
             r \<leftarrow> send_wire T (make_wire parsed m headers body) timeout;
             (case r of
                Inl e \<Rightarrow> State_Monad.return (Inl e)
              | Inr resp \<Rightarrow>
                  if is_redirect (hr_status_code resp) \<and> hops > 0 then
                    (case field_of ''location'' (hr_headers resp) of
                       None \<Rightarrow> do { now \<leftarrow> tr_now T; State_Monad.return (Inr (resp\<lparr>hr_duration := now - start\<rparr>)) }
                     | Some location \<Rightarrow>
                         (case resolve_redirect parsed location of
                            None \<Rightarrow> State_Monad.return (Inl (mk_error EC_Network (''redirect target malformed: '' @ location)))
                          | Some next \<Rightarrow>
                              (let keep = hr_status_code resp = 307 \<or> hr_status_code resp = 308 in
                               request_loop T timeout start orig hops True (if keep then m else HM_Get) next headers
                                 (if keep then body else []))))
                  else do { now \<leftarrow> tr_now T; State_Monad.return (Inr (resp\<lparr>hr_duration := now - start\<rparr>)) })
           }))"

definition http_send :: "('w, 's) transport \<Rightarrow> http_request \<Rightarrow> ('w, http_response res) state" where
  "http_send T req = do {
     start \<leftarrow> tr_now T;
     (let timeout = (if hq_timeout req \<le> 0 then 30000 else hq_timeout req) in
      case parse_url (hq_url req) of
        None \<Rightarrow> State_Monad.return (Inl (mk_error EC_InvalidArgument (''malformed URL: '' @ hq_url req)))
      | Some orig \<Rightarrow>
          request_loop T timeout start orig (Suc kMaxRedirects) False (hq_method req) (hq_url req) (hq_headers req) (hq_body req))
   }"

definition http_get :: "('w, 's) transport \<Rightarrow> string \<Rightarrow> http_header list \<Rightarrow> ('w, http_response res) state" where
  "http_get T url headers = http_send T (default_request\<lparr>hq_url := url, hq_headers := headers\<rparr>)"

definition http_post :: "('w, 's) transport \<Rightarrow> string \<Rightarrow> string \<Rightarrow> http_header list \<Rightarrow> ('w, http_response res) state" where
  "http_post T url body headers =
     http_send T (default_request\<lparr>hq_method := HM_Post, hq_url := url, hq_body := body, hq_headers := headers\<rparr>)"

text \<open>
  \<open>download_to_file\<close>: the same loop with an exchange that streams into the file, a GET throughout and a timeout of
  one minute. \<open>T\<close> carries that exchange.
\<close>

definition download_to_file :: "('w, 's) transport \<Rightarrow> string \<Rightarrow> http_header list \<Rightarrow> ('w, http_response res) state" where
  "download_to_file T url headers = do {
     start \<leftarrow> tr_now T;
     (case parse_url url of
        None \<Rightarrow> State_Monad.return (Inl (mk_error EC_InvalidArgument (''malformed URL: '' @ url)))
      | Some orig \<Rightarrow> request_loop T 60000 start orig (Suc kMaxRedirects) False HM_Get url headers [])
   }"

subsection \<open>The pool of idle connections\<close>

text \<open>
  For each endpoint the idle sockets with the time of their last use, the oldest first; plain and TLS
  sockets are kept in two maps.
\<close>

type_synonym 's idle_map = "(endpoint \<times> ('s \<times> int) list) list"

record 's http_pool =
  hp_plain :: "'s idle_map"
  hp_tls :: "'s idle_map"

definition kMaxEndpoints :: nat where "kMaxEndpoints = 32"

definition kMaxSocketsPerEndpoint :: nat where "kMaxSocketsPerEndpoint = 8"

definition kIdleEviction :: int where "kIdleEviction = 60000"

definition idle_of :: "endpoint \<Rightarrow> 's idle_map \<Rightarrow> ('s \<times> int) list" where
  "idle_of key m = (case map_of m key of Some q \<Rightarrow> q | None \<Rightarrow> [])"

definition prune_locked :: "int \<Rightarrow> ('s \<times> int) list \<Rightarrow> ('s \<times> int) list" where
  "prune_locked now q = dropWhile (\<lambda>x. snd x < now - kIdleEviction) q"

text \<open>\<open>operator[]\<close> makes an entry for the endpoint when there is none.\<close>

definition take_idle :: "int \<Rightarrow> endpoint \<Rightarrow> 's idle_map \<Rightarrow> 's option \<times> 's idle_map" where
  "take_idle now key m =
     (let q = prune_locked now (idle_of key m) in
      if q = [] then (None, AList.update key [] m)
      else (Some (fst (last q)), AList.update key (butlast q) m))"

definition return_idle :: "nat \<Rightarrow> int \<Rightarrow> endpoint \<Rightarrow> 's \<Rightarrow> 's idle_map \<Rightarrow> 's idle_map" where
  "return_idle others now key sock m =
     (if length m + others \<ge> kMaxEndpoints \<and> map_of m key = None then m
      else let q = idle_of key m in
        if length q \<ge> kMaxSocketsPerEndpoint then AList.update key q m
        else AList.update key (q @ [(sock, now)]) m)"

definition take_socket :: "int \<Rightarrow> endpoint \<Rightarrow> 's http_pool \<Rightarrow> 's option \<times> 's http_pool" where
  "take_socket now key p =
     (if fst key then (case take_idle now key (hp_tls p) of (s, m) \<Rightarrow> (s, p\<lparr>hp_tls := m\<rparr>))
      else (case take_idle now key (hp_plain p) of (s, m) \<Rightarrow> (s, p\<lparr>hp_plain := m\<rparr>)))"

definition return_socket :: "int \<Rightarrow> endpoint \<Rightarrow> 's \<Rightarrow> 's http_pool \<Rightarrow> 's http_pool" where
  "return_socket now key sock p =
     (if fst key then p\<lparr>hp_tls := return_idle (length (hp_plain p)) now key sock (hp_tls p)\<rparr>
      else p\<lparr>hp_plain := return_idle (length (hp_tls p)) now key sock (hp_plain p)\<rparr>)"

subsection \<open>Streaming to a file\<close>

text \<open>
  The callbacks of \<open>exchange_to_file\<close> for the chunks that arrive (their size and time): at most one per
  \<open>kProgressMinInterval\<close>, and one at the end. \<open>last_cb\<close> starts an interval before the first chunk.
\<close>

definition kProgressMinInterval :: int where "kProgressMinInterval = 250"

fun stream_callbacks :: "int \<Rightarrow> int \<Rightarrow> (int \<times> int) list \<Rightarrow> (int \<times> int) list \<times> int" where
  "stream_callbacks last_cb downloaded [] = ([], downloaded)"
| "stream_callbacks last_cb downloaded ((got, now) # chunks) =
     (if got > 0 then
        (let downloaded = downloaded + got in
         if now - last_cb \<ge> kProgressMinInterval
         then (case stream_callbacks now downloaded chunks of (cbs, n) \<Rightarrow> ((now, downloaded) # cbs, n))
         else stream_callbacks last_cb downloaded chunks)
      else stream_callbacks last_cb downloaded chunks)"

subsection \<open>What goes on the wire\<close>

lemma iequals_refl [simp]: "iequals a a"
  by (simp add: iequals_def list.rel_refl)

lemma iequals_lower: "iequals a b \<longleftrightarrow> map to_lower a = map to_lower b"
proof
  show "iequals a b \<Longrightarrow> map to_lower a = map to_lower b"
    by (auto simp: iequals_def list_all2_conv_all_nth intro: nth_equalityI)
  show "map to_lower a = map to_lower b \<Longrightarrow> iequals a b"
    by (auto simp: iequals_def list_all2_conv_all_nth dest: map_eq_imp_length_eq) (metis map_eq_imp_length_eq nth_map)
qed

lemma iequals_trans: "iequals a b \<Longrightarrow> iequals b c = iequals a c"
  by (simp add: iequals_lower)

lemma same_origin_refl [simp]: "same_origin u u"
  by (simp add: same_origin_def)

definition carries :: "string \<Rightarrow> http_header list \<Rightarrow> bool" where
  "carries n hs = list_ex (\<lambda>h. iequals (fst h) n) hs"

lemma carries_simps [simp]: "\<not> carries n []" "carries n (h # hs) \<longleftrightarrow> iequals (fst h) n \<or> carries n hs"
  by (simp_all add: carries_def)

lemma carries_set_field: "carries n (set_field m v hs) \<longleftrightarrow> iequals m n \<or> carries n hs"
  unfolding carries_def set_field_def by (induction hs) (auto simp: iequals_lower)

lemma field_of_set_field: "field_of n (set_field m v hs) = (if iequals m n then Some v else field_of n hs)"
  unfolding field_of_def set_field_def by (induction hs) (auto simp: iequals_lower)

lemma carries_copy_headers: "carries n (copy_headers hs) \<Longrightarrow> carries n hs"
proof -
  have "carries n (fold (\<lambda>(n, v) req. if iequals n ''host'' \<or> iequals n ''content-length'' then req else set_field n v req)
      hs req) \<Longrightarrow> carries n hs \<or> carries n req" for req
  proof (induction hs arbitrary: req)
    case (Cons x hs)
    obtain m v where x: "x = (m, v)" by (cases x)
    have "carries n hs \<or> carries n (if iequals m ''host'' \<or> iequals m ''content-length'' then req else set_field m v req)"
      using Cons.IH Cons.prems by (simp add: x)
    then show ?case by (auto simp: x carries_set_field split: if_splits)
  qed simp
  from this [of "[]"] show "carries n (copy_headers hs) \<Longrightarrow> carries n hs"
    by (auto simp: copy_headers_def)
qed

lemma field_names [simp]:
  "\<not> iequals ''Host'' ''authorization''" "\<not> iequals ''User-Agent'' ''authorization''"
  "\<not> iequals ''Accept'' ''authorization''" "\<not> iequals ''Connection'' ''authorization''"
  "\<not> iequals ''Content-Length'' ''authorization''" "iequals ''Host'' ''host''" "\<not> iequals ''User-Agent'' ''host''"
  "\<not> iequals ''Accept'' ''host''" "\<not> iequals ''Connection'' ''host''" "\<not> iequals ''Content-Length'' ''host''"
  by code_simp+

lemma host_field [simp]: "field_of ''host'' (apply_headers hs h b) = Some h"
  by (simp add: apply_headers_def Let_def field_of_set_field split: option.splits)

lemma authorization_applied: "carries ''authorization'' (apply_headers hs h b) \<Longrightarrow> carries ''authorization'' hs"
  by (rule carries_copy_headers) (simp add: apply_headers_def Let_def carries_set_field split: option.splits if_splits)

lemma strip_no_authorization [simp]: "\<not> carries ''authorization'' (strip_authorization hs)"
  by (auto simp: carries_def strip_authorization_def list_ex_iff)

subsection \<open>Watching the wire\<close>

text \<open>A transport whose exchanges are recorded beside its own world.\<close>

definition beside :: "('w, 'a) state \<Rightarrow> ('w \<times> 'l, 'a) state" where
  "beside m = State (\<lambda>(w, l). case run_state m w of (a, w') \<Rightarrow> (a, (w', l)))"

definition spied :: "('w, 's) transport \<Rightarrow> ('w \<times> wire_request list, 's) transport" where
  "spied T = \<lparr>tr_take = (\<lambda>k. beside (tr_take T k)), tr_open = (\<lambda>k t. beside (tr_open T k t)),
     tr_exchange = (\<lambda>s wire t. State (\<lambda>(w, l). case run_state (tr_exchange T s wire t) w of (a, w') \<Rightarrow> (a, (w', l @ [wire])))),
     tr_return = (\<lambda>k s. beside (tr_return T k s)), tr_close = (\<lambda>s. beside (tr_close T s)), tr_now = beside (tr_now T)\<rparr>"

lemma wp_beside: "(\<And>a w'. Q a (w', l)) \<Longrightarrow> wp (beside m) Q (w, l)"
  by (simp add: wp_def beside_def split: prod.splits)

lemma spied_now [simp]: "tr_now (spied T) = beside (tr_now T)"
  by (simp add: spied_def)

lemma wp_send_wire:
  assumes "\<And>r w' l'. l' = l \<or> l' = l @ [wire] \<Longrightarrow> Q r (w', l')"
  shows "wp (send_wire (spied T) wire t) Q (w, l)"
proof -
  have exch: "wp (tr_exchange (spied T) s wire t) R (w1, l)" if "\<And>a w'. R a (w', l @ [wire])" for s R w1
    using that by (simp add: wp_def spied_def split: prod.splits)
  have giveback: "wp (tr_return (spied T) k s) R (w1, l1)" "wp (tr_close (spied T) s) R (w1, l1)"
    if "\<And>a w'. R a (w', l1)" for k s R w1 l1
    using that by (auto simp: spied_def intro: wp_beside)
  show ?thesis
    unfolding send_wire_def connect_socket_def wp_bind
    using assms by (auto simp: spied_def wp_bind intro!: wp_beside exch [unfolded spied_def, simplified] giveback [unfolded spied_def, simplified]
        split: option.splits sum.splits prod.splits if_splits)
qed

definition wire_origin :: "wire_request \<Rightarrow> parsed_url" where
  "wire_origin wire = \<lparr>pu_https = fst (wr_endpoint wire), pu_host = fst (snd (wr_endpoint wire)),
     pu_port = snd (snd (wr_endpoint wire)), pu_target = wr_target wire\<rparr>"

definition wire_ok :: "parsed_url \<Rightarrow> wire_request \<Rightarrow> bool" where
  "wire_ok orig wire =
     ((carries ''authorization'' (wr_headers wire) \<longrightarrow> same_origin orig (wire_origin wire)) \<and>
      field_of ''host'' (wr_headers wire) = Some (host_with_port (wire_origin wire)) \<and>
      (\<not> has_body (wr_method wire) \<longrightarrow> wr_body wire = []))"

lemma make_wire_origin [simp]: "wire_origin (make_wire u m hs b) = u"
  by (simp add: wire_origin_def make_wire_def endpoint_of_def)

lemma make_wire_ok:
  assumes "same_origin orig u \<or> \<not> carries ''authorization'' hs"
  shows "wire_ok orig (make_wire u m hs b)"
proof -
  have "carries ''authorization'' (wr_headers (make_wire u m hs b)) \<Longrightarrow> carries ''authorization'' hs"
    by (simp add: make_wire_def authorization_applied)
  with assms have "carries ''authorization'' (wr_headers (make_wire u m hs b)) \<longrightarrow> same_origin orig u" by blast
  then show ?thesis unfolding wire_ok_def make_wire_origin by (simp add: make_wire_def)
qed

definition sent_ok :: "parsed_url \<Rightarrow> nat \<Rightarrow> wire_request list \<Rightarrow> wire_request list \<Rightarrow> bool" where
  "sent_ok orig n l l' = (\<exists>new. l' = l @ new \<and> length new \<le> n \<and> list_all (wire_ok orig) new)"

lemma sent_ok_refl [simp]: "sent_ok orig n l l"
  by (simp add: sent_ok_def)

lemma sent_ok_step:
  assumes "sent_ok orig n l1 l'" "l1 = l \<or> l1 = l @ [wire]" "wire_ok orig wire"
  shows "sent_ok orig (Suc n) l l'"
  using assms by (auto simp: sent_ok_def)

lemma wp_request_loop:
  assumes "redirected \<or> parse_url url = Some orig"
  shows "wp (request_loop (spied T) t start orig n redirected m url hs body) (\<lambda>_ (w', l'). sent_ok orig n l l') (w, l)"
  using assms
proof (induction n arbitrary: redirected m url hs body w l)
  case (Suc n)
  show ?case
  proof (cases "parse_url url")
    case None
    then show ?thesis by simp
  next
    case (Some parsed)
    define hs' where "hs' = (if redirected \<and> \<not> same_origin orig parsed then strip_authorization hs else hs)"
    define wire where "wire = make_wire parsed m hs' body"
    have wire: "wire_ok orig wire"
      unfolding wire_def by (rule make_wire_ok) (use Suc.prems Some in \<open>auto simp: hs'_def\<close>)
    have again: "wp (request_loop (spied T) t start orig n True m' url' hs' body') (\<lambda>_ (w', l'). sent_ok orig (Suc n) l l') (w1, l1)"
      if "l1 = l \<or> l1 = l @ [wire]" for m' url' body' w1 l1
      by (rule wp_mono [OF Suc.IH]) (use sent_ok_step [OF _ that wire] in auto)
    have ready: "wp (tr_now (spied T)) (\<lambda>now. wp (State_Monad.return (g now)) (\<lambda>_ (w', l'). sent_ok orig (Suc n) l l')) (w1, l1)"
      if "l1 = l \<or> l1 = l @ [wire]" for g :: "int \<Rightarrow> http_response res" and w1 l1
      unfolding spied_def transport.simps
      by (rule wp_beside) (use sent_ok_step [OF sent_ok_refl that wire, of n] in simp)
    show ?thesis
      unfolding request_loop.simps Some option.case Let_def hs'_def [symmetric] wire_def [symmetric] wp_bind
    proof (rule wp_send_wire)
      fix r w1 l1
      assume l1: "l1 = l \<or> l1 = l @ [wire]"
      note [simp] = sent_ok_step [OF sent_ok_refl l1 wire, of n]
      show "wp (case r of Inl e \<Rightarrow> State_Monad.return (Inl e)
          | Inr resp \<Rightarrow>
              if is_redirect (hr_status_code resp) \<and> 0 < n
              then case field_of ''location'' (hr_headers resp) of
                     None \<Rightarrow> tr_now (spied T) \<bind> (\<lambda>now. State_Monad.return (Inr (resp\<lparr>hr_duration := now - start\<rparr>)))
                   | Some location \<Rightarrow>
                       (case resolve_redirect parsed location of
                          None \<Rightarrow> State_Monad.return (Inl (mk_error EC_Network (''redirect target malformed: '' @ location)))
                        | Some next \<Rightarrow>
                            request_loop (spied T) t start orig n True
                              (if hr_status_code resp = 307 \<or> hr_status_code resp = 308 then m else HM_Get) next hs'
                              (if hr_status_code resp = 307 \<or> hr_status_code resp = 308 then body else []))
              else tr_now (spied T) \<bind> (\<lambda>now. State_Monad.return (Inr (resp\<lparr>hr_duration := now - start\<rparr>))))
        (\<lambda>_ (w', l'). sent_ok orig (Suc n) l l') (w1, l1)"
        using again [OF l1] ready [OF l1] by (auto simp: wp_bind split: sum.splits option.splits)
    qed
  qed
qed simp

subsection \<open>Redirect targets\<close>

lemma parse_base:
  assumes "CHR ''/'' \<notin> set (pu_host u)" "CHR ''@'' \<notin> set (pu_host u)" "CHR '':'' \<notin> set (pu_host u)" "pu_host u \<noteq> []"
    and "pu_port u \<noteq> []" "list_all is_digit (pu_port u)"
  shows "parse_url (url_base u @ CHR ''/'' # t) = Some (u\<lparr>pu_target := CHR ''/'' # t\<rparr>)"
proof -
  have no: "d \<notin> set (pu_port u)" if "\<not> is_digit d" for d using assms(6) that by (auto simp: list_all_iff)
  have nd: "\<not> is_digit CHR ''/''" "\<not> is_digit CHR ''@''" "\<not> is_digit CHR '':''" by code_simp+
  define a where "a = pu_host u @ (if pu_port u \<noteq> default_port (pu_https u) then '':'' @ pu_port u else [])"
  have a: "CHR ''/'' \<notin> set a" "CHR ''@'' \<notin> set a" using assms no nd by (auto simp: a_def)
  have scheme: "(if starts_with ''https://'' ((if b then ''https://'' else ''http://'') @ r)
      then Some (True, drop 8 ((if b then ''https://'' else ''http://'') @ r))
      else if starts_with ''http://'' ((if b then ''https://'' else ''http://'') @ r)
      then Some (False, drop 7 ((if b then ''https://'' else ''http://'') @ r)) else None) = Some (b, r)" for b r
    by (cases b) (simp_all add: starts_with_def take_Cons' drop_Cons')
  have colon: "split_last CHR '':'' a =
      (if pu_port u \<noteq> default_port (pu_https u) then Some (pu_host u, pu_port u) else None)"
    using split_last_append [OF no [OF nd(3)], of "pu_host u"] split_last_none [OF assms(3)] by (simp add: a_def)
  have eq: "url_base u @ CHR ''/'' # t = (if pu_https u then ''https://'' else ''http://'') @ a @ CHR ''/'' # t"
    by (simp add: url_base_def a_def)
  show ?thesis
    unfolding parse_url_def eq scheme using assms(4,5,6) a(2)
    by (simp add: Let_def authority_split(1,2) [OF a(1)] colon) (simp add: a_def)
qed

lemma split_last_Some: "split_last d s = Some (p, q) \<Longrightarrow> s = p @ d # q"
proof -
  assume split: "split_last d s = Some (p, q)"
  define r where "r = takeWhile (\<lambda>c. c \<noteq> d) (rev s)"
  have q: "q = rev r" and p: "p = take (length s - length r - 1) s" and len: "length r \<noteq> length s"
    using split by (auto simp: split_last_def r_def Let_def split: if_splits)
  have dw: "rev s = r @ dropWhile (\<lambda>c. c \<noteq> d) (rev s)" by (simp add: r_def)
  then have "dropWhile (\<lambda>c. c \<noteq> d) (rev s) \<noteq> []" using len by (metis append_Nil2 length_rev)
  then obtain z where z: "dropWhile (\<lambda>c. c \<noteq> d) (rev s) = d # z" by (metis (mono_tags) hd_dropWhile list.collapse)
  then have "rev s = r @ d # z" using dw by simp
  then have "s = rev (r @ d # z)" by (metis rev_rev_ident)
  then have "s = rev z @ d # rev r" by simp
  with q p show "s = p @ d # q" by simp
qed

text \<open>What the parser accepted has a host and a numeric port, and its target begins with a slash.\<close>

lemma parse_url_shape:
  assumes "parse_url url = Some u"
  shows "pu_host u \<noteq> [] \<and> pu_port u \<noteq> [] \<and> list_all is_digit (pu_port u) \<and> CHR ''/'' \<notin> set (pu_host u) \<and>
    CHR ''@'' \<notin> set (pu_host u) \<and> (\<exists>t. pu_target u = CHR ''/'' # t)"
proof -
  obtain https rest where parsed: "(let authority = takeWhile (\<lambda>c. c \<noteq> CHR ''/'') rest;
               target = dropWhile (\<lambda>c. c \<noteq> CHR ''/'') rest;
               target = (if target = [] then ''/'' else target) in
           if CHR ''@'' \<in> set authority then None
           else case split_last CHR '':'' authority of
               Some (host, port) \<Rightarrow>
                 if host = [] \<or> port = [] \<or> \<not> list_all is_digit port then None
                 else Some \<lparr>pu_https = https, pu_host = host, pu_port = port, pu_target = target\<rparr>
             | None \<Rightarrow>
                 if authority = [] then None
                 else Some \<lparr>pu_https = https, pu_host = authority, pu_port = default_port https, pu_target = target\<rparr>) = Some u"
    using assms by (auto simp: parse_url_def split: option.splits prod.splits)
  define a where "a = takeWhile (\<lambda>c. c \<noteq> CHR ''/'') rest"
  define d where "d = dropWhile (\<lambda>c. c \<noteq> CHR ''/'') rest"
  define tg where "tg = (if d = [] then ''/'' else d)"
  have a: "CHR ''/'' \<notin> set a" by (auto simp: a_def dest: set_takeWhileD)
  have "d \<noteq> [] \<Longrightarrow> hd d = CHR ''/''" using hd_dropWhile [of "\<lambda>c. c \<noteq> CHR ''/''" rest] by (simp add: d_def)
  then have tg: "\<exists>t. tg = CHR ''/'' # t" by (cases d) (auto simp: tg_def)
  have digits: "list_all is_digit (default_port b)" "default_port b \<noteq> []" for b
    by (simp_all add: default_port_def is_digit_def)
  note parsed = parsed [unfolded Let_def, folded a_def d_def, folded tg_def]
  from parsed have at: "CHR ''@'' \<notin> set a" by (auto split: if_splits)
  show ?thesis
  proof (cases "split_last CHR '':'' a")
    case None
    with parsed at have "a \<noteq> []" "u = \<lparr>pu_https = https, pu_host = a, pu_port = default_port https, pu_target = tg\<rparr>"
      by (simp_all split: if_splits)
    with a at tg digits show ?thesis by simp
  next
    case (Some hp)
    obtain h p where hp: "hp = (h, p)" by (cases hp)
    with parsed at Some have "h \<noteq> []" "p \<noteq> []" "list_all is_digit p"
      "u = \<lparr>pu_https = https, pu_host = h, pu_port = p, pu_target = tg\<rparr>"
      by (simp_all split: if_splits)
    moreover have "a = h @ CHR '':'' # p" using Some hp by (intro split_last_Some) simp
    ultimately show ?thesis using a at tg by simp
  qed
qed

subsection \<open>Invariant of the pool\<close>

definition queue_ok :: "int \<Rightarrow> ('s \<times> int) list \<Rightarrow> bool" where
  "queue_ok now q = (length q \<le> kMaxSocketsPerEndpoint \<and> sorted (map snd q) \<and> list_all (\<lambda>x. snd x \<le> now) q)"

definition idle_ok :: "int \<Rightarrow> 's idle_map \<Rightarrow> bool" where
  "idle_ok now m = (\<forall>key. queue_ok now (idle_of key m))"

definition pool_ok :: "int \<Rightarrow> 's http_pool \<Rightarrow> bool" where
  "pool_ok now p = (idle_ok now (hp_plain p) \<and> idle_ok now (hp_tls p))"

definition pool_idle :: "endpoint \<Rightarrow> 's http_pool \<Rightarrow> ('s \<times> int) list" where
  "pool_idle key p = idle_of key (if fst key then hp_tls p else hp_plain p)"

lemma idle_okD: "idle_ok t m \<Longrightarrow> queue_ok t (idle_of k m)"
  unfolding idle_ok_def by blast

lemma idle_okI: "(\<And>k. queue_ok t (idle_of k m)) \<Longrightarrow> idle_ok t m"
  unfolding idle_ok_def by blast

lemma idle_of_update [simp]: "idle_of k (AList.update key q m) = (if k = key then q else idle_of k m)"
  by (simp add: idle_of_def update_conv')

lemma queue_ok_later: "queue_ok t q \<Longrightarrow> t \<le> now \<Longrightarrow> queue_ok now q"
  by (auto simp: queue_ok_def list_all_iff)

lemma queue_ok_sub:
  assumes "queue_ok t (p @ q)" shows "queue_ok t p" "queue_ok t q"
  using assms by (auto simp: queue_ok_def sorted_append)

lemma prune_suffix: "\<exists>old. q = old @ prune_locked now q"
  unfolding prune_locked_def by (metis takeWhile_dropWhile_id)

lemma prune_ok: "queue_ok t q \<Longrightarrow> queue_ok t (prune_locked now q)"
  using queue_ok_sub(2) prune_suffix by metis

lemma prune_fresh:
  assumes "queue_ok t q" "x \<in> set (prune_locked now q)"
  shows "now - kIdleEviction \<le> snd x"
proof -
  obtain y ys where p: "prune_locked now q = y # ys" using assms(2) by (cases "prune_locked now q") auto
  have "\<not> snd y < now - kIdleEviction"
    using p hd_dropWhile [of "\<lambda>x. snd x < now - kIdleEviction" q] by (simp add: prune_locked_def)
  moreover have "snd y \<le> snd x"
    using prune_ok [OF assms(1), of now] assms(2) by (auto simp: p queue_ok_def)
  ultimately show ?thesis by simp
qed

lemma take_idle_ok:
  assumes "idle_ok t m" "t \<le> now" "take_idle now key m = (r, m')"
  shows "idle_ok now m'"
    and "r = Some s \<Longrightarrow> \<exists>u old. now - kIdleEviction \<le> u \<and> idle_of key m = old @ idle_of key m' @ [(s, u)]"
    and "k \<noteq> key \<Longrightarrow> idle_of k m' = idle_of k m"
proof -
  let ?q = "prune_locked now (idle_of key m)"
  have q: "queue_ok t (idle_of key m)" using assms(1) by (rule idle_okD)
  have q': "queue_ok now ?q" using prune_ok [OF q] assms(2) queue_ok_later by blast
  have m': "m' = AList.update key (butlast ?q) m" "r = (if ?q = [] then None else Some (fst (last ?q)))"
    using assms(3) by (auto simp: take_idle_def Let_def split: if_splits)
  have "queue_ok now (butlast ?q)" using queue_ok_sub(1) [of now "butlast ?q" "[last ?q]"] q' by (cases "?q = []") auto
  then show "idle_ok now m'" using assms(1,2) by (intro idle_okI) (auto simp: m' intro: queue_ok_later idle_okD)
  show "\<exists>u old. now - kIdleEviction \<le> u \<and> idle_of key m = old @ idle_of key m' @ [(s, u)]" if "r = Some s"
  proof -
    have ne: "?q \<noteq> []" and s: "fst (last ?q) = s" using that m'(2) by (auto split: if_splits)
    obtain old where "idle_of key m = old @ ?q" using prune_suffix [of "idle_of key m"] by blast
    moreover have "?q = butlast ?q @ [(s, snd (last ?q))]" using ne s by (metis append_butlast_last_id prod.collapse)
    moreover have "now - kIdleEviction \<le> snd (last ?q)" using prune_fresh [OF q] ne by simp
    ultimately show ?thesis using m'(1) by (metis idle_of_update)
  qed
  show "k \<noteq> key \<Longrightarrow> idle_of k m' = idle_of k m" by (simp add: m')
qed

lemma return_idle_ok:
  assumes "idle_ok t m" "t \<le> now"
  shows "idle_ok now (return_idle others now key sock m)"
proof -
  have q: "queue_ok now (idle_of k m)" for k using assms by (blast intro: queue_ok_later idle_okD)
  have "queue_ok now (idle_of key m @ [(sock, now)])" if "\<not> kMaxSocketsPerEndpoint \<le> length (idle_of key m)"
    using q [of key] that by (auto simp: queue_ok_def sorted_append list_all_iff)
  with q show ?thesis by (intro idle_okI) (auto simp: return_idle_def Let_def)
qed

text \<open>A history of the pool: each operation comes some time after the one before it.\<close>

datatype 's pool_op = PO_Take nat endpoint | PO_Return nat endpoint 's

fun pool_step :: "'s pool_op \<Rightarrow> int \<times> 's http_pool \<Rightarrow> int \<times> 's http_pool" where
  "pool_step (PO_Take d key) (now, p) = (now + int d, snd (take_socket (now + int d) key p))"
| "pool_step (PO_Return d key s) (now, p) = (now + int d, return_socket (now + int d) key s p)"

definition empty_pool :: "'s http_pool" where
  "empty_pool = \<lparr>hp_plain = [], hp_tls = []\<rparr>"

lemma take_socket_ok:
  assumes "pool_ok t p" "t \<le> now" "take_socket now key p = (r, p')"
  shows "pool_ok now p'"
    and "r = Some s \<Longrightarrow> \<exists>u old. now - kIdleEviction \<le> u \<and> pool_idle key p = old @ pool_idle key p' @ [(s, u)]"
    and "k \<noteq> key \<Longrightarrow> pool_idle k p' = pool_idle k p"
proof -
  have later: "idle_ok now m" if "idle_ok t m" for m :: "'a idle_map"
    using that assms(2) by (blast intro: idle_okI queue_ok_later idle_okD)
  obtain m where m: "take_idle now key (if fst key then hp_tls p else hp_plain p) = (r, m)"
    and p': "p' = (if fst key then p\<lparr>hp_tls := m\<rparr> else p\<lparr>hp_plain := m\<rparr>)"
    using assms(3) by (auto simp: take_socket_def split: if_splits prod.splits)
  have ok: "idle_ok t (if fst key then hp_tls p else hp_plain p)" using assms(1) by (simp add: pool_ok_def)
  note taken = take_idle_ok [OF ok assms(2) m]
  show "pool_ok now p'" using taken(1) later assms(1) by (simp add: p' pool_ok_def)
  show "r = Some s \<Longrightarrow> \<exists>u old. now - kIdleEviction \<le> u \<and> pool_idle key p = old @ pool_idle key p' @ [(s, u)]"
    using taken(2) by (simp add: p' pool_idle_def split: if_splits)
  show "k \<noteq> key \<Longrightarrow> pool_idle k p' = pool_idle k p"
    using taken(3) [of k] by (cases "fst k"; cases "fst key") (simp_all add: p' pool_idle_def)
qed

lemma pool_step_ok:
  assumes "pool_ok now p" "pool_step op (now, p) = (now', p')"
  shows "pool_ok now' p'"
proof (cases op)
  case (PO_Take d key)
  then show ?thesis
    using assms take_socket_ok(1) [OF assms(1), of "now + int d" key "fst (take_socket (now + int d) key p)" "snd (take_socket (now + int d) key p)"]
    by auto
next
  case (PO_Return d key s)
  have "idle_ok (now + int d) m" if "idle_ok now m" for m :: "'a idle_map"
    using that by (intro idle_okI queue_ok_later [OF idle_okD [OF that]]) simp
  with PO_Return assms show ?thesis
    by (auto simp: pool_ok_def return_socket_def intro!: return_idle_ok [of now])
qed

lemma pool_run_ok: "pool_ok now p \<Longrightarrow> fold pool_step ops (now, p) = (now', p') \<Longrightarrow> pool_ok now' p'"
proof (induction ops arbitrary: now p)
  case (Cons op ops)
  obtain n1 p1 where st: "pool_step op (now, p) = (n1, p1)" by (cases "pool_step op (now, p)")
  show ?case by (rule Cons.IH [OF pool_step_ok [OF Cons.prems(1) st]]) (use Cons.prems(2) st in simp)
qed simp

text \<open>
  The pool of idle connections: after any sequence of takes and returns no endpoint holds more than eight
  sockets, and a socket that is handed out was returned for the same scheme, host and port, was idle for at
  most sixty seconds and leaves the pool, so that no two requests share it; the sockets of other
  endpoints stay.
\<close>
theorem http_pool_hands_out_once:
  assumes "fold pool_step ops (0, empty_pool) = (now, p)"
  shows "length (pool_idle key p) \<le> 8 \<and>
    (\<forall>d s p'. take_socket (now + int d) key p = (Some s, p') \<longrightarrow>
       (\<exists>u old. now + int d - 60000 \<le> u \<and> pool_idle key p = old @ pool_idle key p' @ [(s, u)]) \<and>
       (\<forall>k. k \<noteq> key \<longrightarrow> pool_idle k p' = pool_idle k p))"
proof -
  have "pool_ok 0 (empty_pool :: 'a http_pool)"
    by (simp add: pool_ok_def idle_ok_def empty_pool_def idle_of_def queue_ok_def)
  then have ok: "pool_ok now p" using assms by (rule pool_run_ok)
  then have "queue_ok now (pool_idle key p)" by (auto simp: pool_ok_def pool_idle_def intro: idle_okD)
  then have "length (pool_idle key p) \<le> 8" by (simp add: queue_ok_def kMaxSocketsPerEndpoint_def)
  moreover have "(\<exists>u old. now + int d - 60000 \<le> u \<and> pool_idle key p = old @ pool_idle key p' @ [(s, u)]) \<and>
       (\<forall>k. k \<noteq> key \<longrightarrow> pool_idle k p' = pool_idle k p)"
    if "take_socket (now + int d) key p = (Some s, p')" for d s p'
    using take_socket_ok(2,3) [OF ok _ that] by (auto simp: kIdleEviction_def)
  ultimately show ?thesis by blast
qed

theorem http_pool_hands_out_once_witness:
  "take_socket 5 (True, ''a'', ''443'') (snd (fold pool_step [PO_Return 5 (True, ''a'', ''443'') (7 :: nat)] (0, empty_pool))) =
     (Some 7, \<lparr>hp_plain = [], hp_tls = [((True, ''a'', ''443''), [])]\<rparr>) \<and>
   pool_idle (True, ''a'', ''443'') (snd (fold pool_step [PO_Return 5 (True, ''a'', ''443'') (7 :: nat)] (0, empty_pool))) = [(7, 5)]"
proof -
  let ?p = "\<lparr>hp_plain = [], hp_tls = [((True, ''a'', ''443''), [(7 :: nat, 5)])]\<rparr>"
  have run: "fold pool_step [PO_Return 5 (True, ''a'', ''443'') (7 :: nat)] (0, empty_pool) = (5, ?p)" by code_simp
  have taken: "take_socket (5 + int 0) (True, ''a'', ''443'') ?p = (Some 7, \<lparr>hp_plain = [], hp_tls = [((True, ''a'', ''443''), [])]\<rparr>)"
    by code_simp
  from http_pool_hands_out_once [OF run, of "(True, ''a'', ''443'')"] taken
  obtain u old where "pool_idle (True, ''a'', ''443'') ?p =
      old @ pool_idle (True, ''a'', ''443'') \<lparr>hp_plain = [], hp_tls = [((True, ''a'', ''443''), [])]\<rparr> @ [(7, u)]"
    by blast
  then have "pool_idle (True, ''a'', ''443'') ?p = [(7, 5)]" by (simp add: pool_idle_def idle_of_def)
  with run taken show ?thesis by simp
qed

lemma wp_http_send:
  "wp (http_send (spied T) req) (\<lambda>r (w', l').
     case parse_url (hq_url req) of
       None \<Rightarrow> l' = l \<and> r = Inl (mk_error EC_InvalidArgument (''malformed URL: '' @ hq_url req))
     | Some orig \<Rightarrow> sent_ok orig 6 l l') (w, l)"
proof (cases "parse_url (hq_url req)")
  case None
  then show ?thesis by (auto simp: http_send_def spied_def Let_def intro!: wp_beside)
next
  case (Some orig)
  have "wp (request_loop (spied T) t start orig (Suc kMaxRedirects) False (hq_method req) (hq_url req) (hq_headers req) (hq_body req))
      (\<lambda>r (w', l'). sent_ok orig 6 l l') (w1, l)" for t start w1
    using wp_request_loop [of False "hq_url req" orig T t start "Suc kMaxRedirects"] Some by (simp add: kMaxRedirects_def del: request_loop.simps)
  then show ?thesis
    unfolding http_send_def Let_def Some option.case wp_bind spied_now by (intro wp_beside) auto
qed


text \<open>
  A redirect to a path, absolute or relative, stays on the server: read back, its URL has the scheme, host and
  port of the URL it came from and a target that is the given path, or that path in the
  directory of the current one.
\<close>
theorem http_path_redirects_stay:
  assumes "parse_url url = Some current" "CHR '':'' \<notin> set (pu_host current)"
    and "location \<noteq> []" "\<not> starts_with ''http://'' location" "\<not> starts_with ''https://'' location"
  shows "\<exists>next t. resolve_redirect current location = Some next \<and> parse_url next = Some (current\<lparr>pu_target := t\<rparr>) \<and>
    (if hd location = CHR ''/'' then t = location
     else \<exists>dir leaf. pu_target current = dir @ ''/'' @ leaf \<and> CHR ''/'' \<notin> set leaf \<and> t = dir @ ''/'' @ location)"
proof -
  note shape = parse_url_shape [OF assms(1)]
  have base: "parse_url (url_base current @ CHR ''/'' # t) = Some (current\<lparr>pu_target := CHR ''/'' # t\<rparr>)" for t
    using shape assms(2) by (intro parse_base) auto
  show ?thesis
  proof (cases "hd location = CHR ''/''")
    case True
    then obtain t where t: "location = CHR ''/'' # t" using assms(3) by (cases location) auto
    then have "resolve_redirect current location = Some (url_base current @ CHR ''/'' # t)"
      using assms(4,5) by (simp add: resolve_redirect_def starts_with_def)
    with base [of t] t show ?thesis by auto
  next
    case False
    then have slash: "\<not> starts_with ''/'' location" using assms(3) by (cases location) (auto simp: starts_with_def)
    obtain t where t: "pu_target current = CHR ''/'' # t" using shape by blast
    obtain dir leaf where split: "split_last CHR ''/'' (pu_target current) = Some (dir, leaf)"
      and parts: "pu_target current = dir @ CHR ''/'' # leaf" "CHR ''/'' \<notin> set leaf"
      using split_last_append split_list_last [of "CHR ''/''" "pu_target current"] t by (metis list.set_intros(1))
    have "resolve_redirect current location = Some (url_base current @ dir @ ''/'' @ location)"
      using assms(3-5) slash split by (simp add: resolve_redirect_def)
    moreover have "\<exists>d. dir @ ''/'' @ location = CHR ''/'' # d" using parts(1) t by (cases dir) auto
    ultimately show ?thesis using base False parts by fastforce
  qed
qed

theorem http_path_redirects_stay_witness:
  "resolve_redirect \<lparr>pu_https = True, pu_host = ''a.b'', pu_port = ''443'', pu_target = ''/x/y''\<rparr> ''z'' = Some ''https://a.b/x/z'' \<and>
   parse_url ''https://a.b/x/z'' = Some \<lparr>pu_https = True, pu_host = ''a.b'', pu_port = ''443'', pu_target = ''/x/z''\<rparr>"
proof -
  have "parse_url ''https://a.b/x/y'' = Some \<lparr>pu_https = True, pu_host = ''a.b'', pu_port = ''443'', pu_target = ''/x/y''\<rparr>" by code_simp
  note stay = http_path_redirects_stay [OF this, of "''z''"]
  have res: "resolve_redirect \<lparr>pu_https = True, pu_host = ''a.b'', pu_port = ''443'', pu_target = ''/x/y''\<rparr> ''z'' = Some ''https://a.b/x/z''"
    by code_simp
  have "parse_url ''https://a.b/x/z'' = Some \<lparr>pu_https = True, pu_host = ''a.b'', pu_port = ''443'', pu_target = ''/x/z''\<rparr>" by code_simp
  with res stay show ?thesis by simp
qed

text \<open>A server that answers every request with a redirect to one place.\<close>

definition redirecting :: "string \<Rightarrow> (unit, unit) transport" where
  "redirecting location = \<lparr>tr_take = (\<lambda>_. State_Monad.return None), tr_open = (\<lambda>_ _. State_Monad.return (Inr ())),
     tr_exchange = (\<lambda>_ _ _. State_Monad.return
       (Inr (\<lparr>hr_status_code = 302, hr_headers = [(''Location'', location)], hr_body = [], hr_duration = 0\<rparr>, True))),
     tr_return = (\<lambda>_ _. State_Monad.return ()), tr_close = (\<lambda>_. State_Monad.return ()), tr_now = State_Monad.return 0\<rparr>"

text \<open>
  The redirect limit is not reported: the sixth redirect response is returned as the result, and the
  error after the loop is never reached.
\<close>
theorem http_redirect_limit_not_reported:
  "run_state (http_get (spied (redirecting ''http://a/'')) ''http://a/'' []) ((), []) =
     (Inr \<lparr>hr_status_code = 302, hr_headers = [(''Location'', ''http://a/'')], hr_body = [], hr_duration = 0\<rparr>,
      (), replicate 6 (make_wire \<lparr>pu_https = False, pu_host = ''a'', pu_port = ''80'', pu_target = ''/''\<rparr> HM_Get [] []))"
  by code_simp

text \<open>A session cookie is sent on to the server a redirect names.\<close>
theorem http_cookie_follows_redirect:
  "list_ex (\<lambda>wire. wr_endpoint wire = (False, ''b'', ''80'') \<and> field_of ''cookie'' (wr_headers wire) = Some ''SID=1'')
     (snd (snd (run_state (http_get (spied (redirecting ''http://b/'')) ''http://a/'' [(''Cookie'', ''SID=1'')]) ((), []))))"
  by code_simp

lemma update_new: "k \<notin> fst ` set xs \<Longrightarrow> AList.update k v xs = xs @ [(k, v)]"
  by (induction xs) auto

text \<open>
  The bound on endpoints has no effect: looking for an idle socket makes an entry for its endpoint, and a
  socket is accepted whenever its endpoint has an entry.
\<close>
theorem http_pool_endpoints_unbounded:
  "\<exists>ops. let m = hp_plain (snd (fold pool_step ops (0, empty_pool :: nat http_pool))) in
     length m = n \<and> list_all (\<lambda>key. idle_of key (return_idle others now key s m) = [(s, now)]) (map fst m)"
proof -
  let ?key = "\<lambda>i. (False, replicate i CHR ''a'', ''80'') :: endpoint"
  let ?ops = "map (\<lambda>i. PO_Take 0 (?key i)) [0..<n]"
  let ?m = "\<lambda>n. map (\<lambda>i. (?key i, [] :: (nat \<times> int) list)) [0..<n]"
  have none: "idle_of k (?m n) = []" for k n
    by (auto simp: idle_of_def split: option.splits dest!: map_of_SomeD)
  have m: "hp_plain (snd (fold pool_step ?ops (0, empty_pool :: nat http_pool))) = ?m n"
  proof (induction n)
    case (Suc n)
    let ?run = "fold pool_step (map (\<lambda>i. PO_Take 0 (?key i)) [0..<n]) (0, empty_pool :: nat http_pool)"
    obtain t p where run: "?run = (t, p)" by (cases ?run)
    then have "hp_plain p = ?m n" using Suc by simp
    moreover have "AList.update (?key n) [] (?m n) = ?m n @ [(?key n, [])]" by (rule update_new) auto
    ultimately show ?case using run none by (simp add: take_socket_def take_idle_def prune_locked_def)
  qed (simp add: empty_pool_def)
  have "idle_of key (return_idle others now key s (?m n)) = [(s, now)]" if "key \<in> fst ` set (?m n)" for key
  proof -
    have "map_of (?m n) key \<noteq> None" using that by (simp add: map_of_eq_None_iff)
    then show ?thesis by (simp add: return_idle_def none kMaxSocketsPerEndpoint_def)
  qed
  with m show ?thesis by (intro exI [of _ ?ops]) (simp add: Let_def list_all_iff)
qed

subsection \<open>Progress of a download\<close>

lemma stream_total: "snd (stream_callbacks last_cb n chunks) = n + sum_list (map (\<lambda>c. max 0 (fst c)) chunks)"
  by (induction last_cb n chunks rule: stream_callbacks.induct) (auto simp: Let_def max_def split: prod.splits)

lemma stream_first: "fst (stream_callbacks last_cb n chunks) = (t, d) # cbs \<Longrightarrow> last_cb + kProgressMinInterval \<le> t \<and> n < d"
  by (induction last_cb n chunks rule: stream_callbacks.induct) (auto simp: Let_def split: prod.splits if_splits)

lemma stream_spaced:
  "sorted_wrt (\<lambda>(t, d) (t', d'). t + kProgressMinInterval \<le> t' \<and> d < d') (fst (stream_callbacks last_cb n chunks)) \<and>
   (\<forall>(t, d) \<in> set (fst (stream_callbacks last_cb n chunks)). last_cb + kProgressMinInterval \<le> t \<and> n < d \<and>
      d \<le> snd (stream_callbacks last_cb n chunks))"
proof (induction last_cb n chunks rule: stream_callbacks.induct)
  case (2 last_cb n got now chunks)
  have mono: "n + got \<le> snd (stream_callbacks lc (n + got) chunks)" for lc
    by (auto simp: stream_total intro!: sum_list_nonneg)
  show ?case
  proof (cases "got > 0 \<and> now - last_cb \<ge> kProgressMinInterval")
    case True
    with "2.IH"(1) mono [of now] show ?thesis
      by (auto simp: Let_def kProgressMinInterval_def split: prod.splits) (fastforce)+
  next
    case False
    with "2.IH" show ?thesis by (auto simp: Let_def split: prod.splits if_splits) fastforce+
  qed
qed simp

text \<open>
  While a body is streamed to a file, progress callbacks come at least 250 ms apart with a strictly
  growing byte count that never exceeds what was received, and the count reported at the end is the number
  of bytes of all chunks.
\<close>
theorem http_progress_spaced:
  "sorted_wrt (\<lambda>(t, d) (t', d'). t + 250 \<le> t' \<and> d < d') (fst (stream_callbacks last_cb 0 chunks)) \<and>
   list_all (\<lambda>(t, d). 0 < d \<and> d \<le> snd (stream_callbacks last_cb 0 chunks)) (fst (stream_callbacks last_cb 0 chunks)) \<and>
   snd (stream_callbacks last_cb 0 chunks) = sum_list (map (\<lambda>c. max 0 (fst c)) chunks)"
  using stream_spaced [of last_cb 0 chunks] stream_total [of last_cb 0 chunks]
  by (auto simp: kProgressMinInterval_def list_all_iff)

end
