(* ===== verification/Rss_Poller.thy ===== *)
theory Rss_Poller
  imports Rss_Store Rss_Document Http_Client
begin

text \<open>
  The feed poller \<open>rss_feed_poller.cpp\<close>: one pass over the enabled feeds (\<open>poll_once\<close>), the work on
  one feed (\<open>process_feed\<close>) and the loop (\<open>run\<close>). What the poller calls is in \<open>poller_deps\<close>: the
  repository, the HTTP client, the handler of new entries, the clock, the cancellation state and
  \<open>std::regex\<close> on the user's pattern (\<open>None\<close> when the pattern is rejected). A handler that throws
  returns \<open>None\<close>. The loop has fuel, one unit for each pass.
\<close>

subsection \<open>Operations\<close>

record ('w, 'tm) poller_deps =
  pd_list_enabled :: "('w, rss_feed list res) state"
  pd_update_state :: "int \<Rightarrow> string \<Rightarrow> systime \<Rightarrow> ('w, unit res) state"
  pd_get :: "string \<Rightarrow> ('w, http_response res) state"
  pd_on_new_entry :: "rss_feed \<Rightarrow> rss_entry \<Rightarrow> ('w, unit option) state"
  pd_now :: "('w, systime) state"
  pd_cancelled :: "('w, bool) state"
  pd_regex :: "string \<Rightarrow> string \<Rightarrow> bool option"
  pd_get_time :: "string \<Rightarrow> string \<Rightarrow> 'tm option"
  pd_timegm :: "'tm \<Rightarrow> int"

definition matches_optional_regex :: "(string \<Rightarrow> string \<Rightarrow> bool option) \<Rightarrow> string option \<Rightarrow> string \<Rightarrow> bool \<Rightarrow> bool" where
  "matches_optional_regex rx pattern subject default_when_unset =
     (case pattern of
        None \<Rightarrow> default_when_unset
      | Some p \<Rightarrow> if p = [] then default_when_unset else rx p subject = Some True)"

definition entry_passes_filters :: "(string \<Rightarrow> string \<Rightarrow> bool option) \<Rightarrow> rss_feed \<Rightarrow> rss_entry \<Rightarrow> bool" where
  "entry_passes_filters rx feed entry =
     (if \<not> matches_optional_regex rx (Some (rf_include_regex feed)) (re_title entry) True then False
      else if matches_optional_regex rx (Some (rf_exclude_regex feed)) (re_title entry) False then False
      else True)"

text \<open>\<open>operator<\<close> of \<open>std::string\<close>: lexicographic on unsigned bytes.\<close>

fun str_less :: "string \<Rightarrow> string \<Rightarrow> bool" where
  "str_less [] ys = (ys \<noteq> [])"
| "str_less (x # xs) [] = False"
| "str_less (x # xs) (y # ys) = (byte_of x < byte_of y \<or> x = y \<and> str_less xs ys)"

definition is_new :: "string \<Rightarrow> rss_entry \<Rightarrow> bool" where
  "is_new previous_guid entry = (previous_guid = [] \<or> str_less previous_guid (re_guid entry))"

fun process_entries ::
    "('w, 'tm) poller_deps \<Rightarrow> rss_feed \<Rightarrow> string \<Rightarrow> string \<Rightarrow> rss_entry list \<Rightarrow> ('w, string) state" where
  "process_entries d feed previous_guid newest_guid [] = State_Monad.return newest_guid"
| "process_entries d feed previous_guid newest_guid (entry # entries) =
     (if \<not> is_new previous_guid entry then process_entries d feed previous_guid newest_guid entries
      else
        (let newest = (if str_less newest_guid (re_guid entry) then re_guid entry else newest_guid) in
         if \<not> entry_passes_filters (pd_regex d) feed entry
         then process_entries d feed previous_guid newest entries
         else do {
           _ \<leftarrow> pd_on_new_entry d feed entry;
           process_entries d feed previous_guid newest entries
         }))"

definition process_feed :: "('w, 'tm) poller_deps \<Rightarrow> rss_feed \<Rightarrow> ('w, unit) state" where
  "process_feed d feed = do {
     http_result \<leftarrow> pd_get d (rf_url feed);
     (case http_result of
        Inl _ \<Rightarrow> State_Monad.return ()
      | Inr resp \<Rightarrow>
          if hr_status_code resp < 200 \<or> 300 \<le> hr_status_code resp then State_Monad.return ()
          else case parse (pd_get_time d) (pd_timegm d) (hr_body resp) of
            Inl _ \<Rightarrow> State_Monad.return ()
          | Inr doc \<Rightarrow> do {
              newest_guid \<leftarrow> process_entries d feed (rf_last_guid feed) (rf_last_guid feed) (rd_entries doc);
              now \<leftarrow> pd_now d;
              _ \<leftarrow> pd_update_state d (rf_feed_id feed) newest_guid now;
              State_Monad.return ()
            })
   }"

definition poll_interval :: int where
  "poll_interval = 5 * 60 * 1000000000"

definition poll_due :: "systime \<Rightarrow> rss_feed \<Rightarrow> bool" where
  "poll_due now feed = (case rf_last_checked_at feed of None \<Rightarrow> True | Some t \<Rightarrow> \<not> now - t < poll_interval)"

fun poll_feeds :: "('w, 'tm) poller_deps \<Rightarrow> systime \<Rightarrow> rss_feed list \<Rightarrow> ('w, unit) state" where
  "poll_feeds d now [] = State_Monad.return ()"
| "poll_feeds d now (feed # feeds) =
     (if \<not> poll_due now feed then poll_feeds d now feeds
      else do {
        cancelled \<leftarrow> pd_cancelled d;
        if cancelled then State_Monad.return ()
        else do {
          _ \<leftarrow> process_feed d feed;
          poll_feeds d now feeds
        }
      })"

definition poll_once :: "('w, 'tm) poller_deps \<Rightarrow> ('w, unit) state" where
  "poll_once d = do {
     feeds_result \<leftarrow> pd_list_enabled d;
     (case feeds_result of
        Inl _ \<Rightarrow> State_Monad.return ()
      | Inr feeds \<Rightarrow> do {
          now \<leftarrow> pd_now d;
          poll_feeds d now feeds
        })
   }"

text \<open>\<open>sleep\<close> is the one-minute timer; it answers whether the wait was aborted.\<close>

fun poller_run :: "nat \<Rightarrow> ('w, 'tm) poller_deps \<Rightarrow> ('w, bool) state \<Rightarrow> ('w, unit option) state" where
  "poller_run 0 d sleep = State_Monad.return None"
| "poller_run (Suc n) d sleep = do {
     cancelled \<leftarrow> pd_cancelled d;
     if cancelled then State_Monad.return (Some ())
     else do {
       _ \<leftarrow> poll_once d;
       aborted \<leftarrow> sleep;
       if aborted then State_Monad.return (Some ()) else poller_run n d sleep
     }
   }"

text \<open>The handler of \<open>main.cpp\<close>: what a new entry asks to mirror.\<close>

definition rss_source :: "rss_entry \<Rightarrow> string" where
  "rss_source entry =
     (case re_magnet entry of Some m \<Rightarrow> m | None \<Rightarrow> (case re_torrent_url entry of Some t \<Rightarrow> t | None \<Rightarrow> re_link entry))"

subsection \<open>The order of guids\<close>

lemma str_less_irrefl [simp]: "\<not> str_less s s"
  by (induction s) auto

lemma str_less_Nil [simp]: "\<not> str_less s []"
  by (cases s) auto

lemma str_less_trans: "str_less a b \<Longrightarrow> str_less b c \<Longrightarrow> str_less a c"
proof (induction a b arbitrary: c rule: str_less.induct)
  case (1 ys)
  then show ?case by (cases c) auto
next
  case (3 x xs y ys)
  then show ?case by (cases c) auto
qed simp

lemma str_less_total: "\<not> str_less a b \<Longrightarrow> a \<noteq> b \<Longrightarrow> str_less b a"
proof (induction a b rule: str_less.induct)
  case (3 x xs y ys)
  show ?case
  proof (cases "x = y")
    case False
    then have "byte_of x < byte_of y \<or> byte_of y < byte_of x" by (metis linorder_neqE_nat of_char_eq_iff)
    with 3 show ?thesis by auto
  qed (use 3 in auto)
qed auto

definition str_max :: "string \<Rightarrow> string \<Rightarrow> string" where
  "str_max a b = (if str_less a b then b else a)"

lemma str_max_ge: "\<not> str_less (str_max a b) a" "\<not> str_less (str_max a b) b"
  using str_less_trans [of b a b] by (auto simp: str_max_def dest: str_less_trans)

subsection \<open>What one feed delivers\<close>

text \<open>The reference: the entries to hand to the handler, and the guid to record.\<close>

definition deliveries :: "('w, 'tm) poller_deps \<Rightarrow> rss_feed \<Rightarrow> rss_entry list \<Rightarrow> rss_entry list" where
  "deliveries d feed entries =
     filter (\<lambda>e. is_new (rf_last_guid feed) e \<and> entry_passes_filters (pd_regex d) feed e) entries"

definition newest :: "string \<Rightarrow> rss_entry list \<Rightarrow> string" where
  "newest previous entries = fold (\<lambda>e g. str_max g (re_guid e)) (filter (is_new previous) entries) previous"

fun deliver :: "('w, 'tm) poller_deps \<Rightarrow> rss_feed \<Rightarrow> rss_entry list \<Rightarrow> ('w, unit) state" where
  "deliver d feed [] = State_Monad.return ()"
| "deliver d feed (e # es) = do { _ \<leftarrow> pd_on_new_entry d feed e; deliver d feed es }"

lemma process_entries_reference:
  "run_state (process_entries d feed prev g es) w =
   (fold (\<lambda>e g. str_max g (re_guid e)) (filter (is_new prev) es) g,
    snd (run_state (deliver d feed (filter (\<lambda>e. is_new prev e \<and> entry_passes_filters (pd_regex d) feed e) es)) w))"
  by (induction es arbitrary: g w) (auto simp: run_simps str_max_def Let_def split: prod.split)

lemma fold_str_max:
  "\<not> str_less (fold (\<lambda>e g. str_max g (re_guid e)) es g) g \<and>
   (\<forall>e \<in> set es. \<not> str_less (fold (\<lambda>e g. str_max g (re_guid e)) es g) (re_guid e))"
proof (induction es arbitrary: g)
  case (Cons e es)
  let ?m = "fold (\<lambda>e g. str_max g (re_guid e)) es (str_max g (re_guid e))"
  have m: "\<not> str_less ?m (str_max g (re_guid e))" using Cons by blast
  have "\<not> str_less ?m x" if "\<not> str_less (str_max g (re_guid e)) x" for x
    using m that str_less_trans str_less_total by metis
  with Cons str_max_ge show ?case by auto
qed simp

lemma newest_ge: "\<not> str_less (newest prev es) prev"
  and newest_covers: "e \<in> set es \<Longrightarrow> \<not> str_less (newest prev es) (re_guid e)"
proof -
  show g: "\<not> str_less (newest prev es) prev" using fold_str_max unfolding newest_def by blast
  assume e: "e \<in> set es"
  show "\<not> str_less (newest prev es) (re_guid e)"
  proof (cases "is_new prev e")
    case True
    with e fold_str_max [of "filter (is_new prev) es" prev] show ?thesis by (auto simp: newest_def)
  next
    case False
    then have "\<not> str_less prev (re_guid e)" by (simp add: is_new_def)
    with g show ?thesis using str_less_trans str_less_total by metis
  qed
qed

text \<open>The document a feed's URL answered with, if there is one.\<close>

definition fetched :: "('w, 'tm) poller_deps \<Rightarrow> http_response res \<Rightarrow> rss_document option" where
  "fetched d r =
     (case r of
        Inl _ \<Rightarrow> None
      | Inr resp \<Rightarrow>
          if 200 \<le> hr_status_code resp \<and> hr_status_code resp < 300
          then (case parse (pd_get_time d) (pd_timegm d) (hr_body resp) of Inl _ \<Rightarrow> None | Inr doc \<Rightarrow> Some doc)
          else None)"

lemma process_feed_reference:
  "run_state (process_feed d feed) w = run_state (do {
     r \<leftarrow> pd_get d (rf_url feed);
     (case fetched d r of
        None \<Rightarrow> State_Monad.return ()
      | Some doc \<Rightarrow> do {
          _ \<leftarrow> deliver d feed (deliveries d feed (rd_entries doc));
          now \<leftarrow> pd_now d;
          _ \<leftarrow> pd_update_state d (rf_feed_id feed) (newest (rf_last_guid feed) (rd_entries doc)) now;
          State_Monad.return ()
        })
   }) w"
  by (auto simp: process_feed_def fetched_def run_simps process_entries_reference deliveries_def newest_def case_prod_unfold
      split: sum.split)


definition entry_named :: "string \<Rightarrow> rss_entry" where
  "entry_named g = \<lparr>re_guid = g, re_title = [], re_link = [], re_magnet = None, re_torrent_url = None,
     re_description = None, re_published_at = None\<rparr>"

definition idle_poller :: "(unit, unit) poller_deps" where
  "idle_poller = \<lparr>pd_list_enabled = State_Monad.return (Inr []), pd_update_state = (\<lambda>_ _ _. State_Monad.return (Inr ())),
     pd_get = (\<lambda>_. State_Monad.return (Inr \<lparr>hr_status_code = 200, hr_headers = [], hr_body = [], hr_duration = 0\<rparr>)),
     pd_on_new_entry = (\<lambda>_ _. State_Monad.return (Some ())), pd_now = State_Monad.return 0,
     pd_cancelled = State_Monad.return False, pd_regex = (\<lambda>_ _. None), pd_get_time = (\<lambda>_ _. None), pd_timegm = (\<lambda>_. 0)\<rparr>"


text \<open>
  Guids are compared as strings: with the guid 9 recorded, an entry with the guid 10 is never
  delivered, by this poll or a later one.
\<close>

theorem poll_drops_entry_ten:
  "deliveries d (default_feed\<lparr>rf_last_guid := ''9''\<rparr>) [entry_named ''10''] = [] \<and>
   newest ''9'' [entry_named ''10''] = ''9''"
  by (simp add: deliveries_def newest_def is_new_def entry_named_def)

subsection \<open>Polling over a repository\<close>

text \<open>
  The poller on a repository: the repository calls act on the store, every other call on the rest of
  the world.
\<close>

record ('s, 'x) poll_world =
  pw_calls :: "'s calls"
  pw_rest :: 'x

definition on_calls :: "('s calls, 'a) state \<Rightarrow> (('s, 'x) poll_world, 'a) state" where
  "on_calls m = State (\<lambda>w. case run_state m (pw_calls w) of (a, c) \<Rightarrow> (a, w\<lparr>pw_calls := c\<rparr>))"

definition on_rest :: "('x, 'a) state \<Rightarrow> (('s, 'x) poll_world, 'a) state" where
  "on_rest m = State (\<lambda>w. case run_state m (pw_rest w) of (a, x) \<Rightarrow> (a, w\<lparr>pw_rest := x\<rparr>))"

definition repository_poller ::
    "('s calls, rss_feed list res) state \<Rightarrow> (int \<Rightarrow> string \<Rightarrow> systime \<Rightarrow> ('s calls, unit res) state) \<Rightarrow>
     ('x, 'tm) poller_deps \<Rightarrow> (('s, 'x) poll_world, 'tm) poller_deps" where
  "repository_poller list_enabled update_state d =
     \<lparr>pd_list_enabled = on_calls list_enabled,
      pd_update_state = (\<lambda>i g t. on_calls (update_state i g t)),
      pd_get = (\<lambda>u. on_rest (pd_get d u)),
      pd_on_new_entry = (\<lambda>f e. on_rest (pd_on_new_entry d f e)),
      pd_now = on_rest (pd_now d), pd_cancelled = on_rest (pd_cancelled d),
      pd_regex = pd_regex d, pd_get_time = pd_get_time d, pd_timegm = pd_timegm d\<rparr>"

text \<open>What polling may change: the recorded guid of a feed, upwards.\<close>

definition guid_raised :: "rss_feed \<Rightarrow> rss_feed \<Rightarrow> bool" where
  "guid_raised f f' = (f' = f\<lparr>rf_last_guid := rf_last_guid f'\<rparr> \<and> \<not> str_less (rf_last_guid f') (rf_last_guid f))"

definition polled :: "(int \<Rightarrow> rss_feed option) \<Rightarrow> (int \<Rightarrow> rss_feed option) \<Rightarrow> bool" where
  "polled m m' = (\<forall>i. rel_option guid_raised (m i) (m' i))"

lemma guid_raised_refl: "guid_raised f f"
  by (simp add: guid_raised_def)

lemma guid_raised_trans: "guid_raised f g \<Longrightarrow> guid_raised g h \<Longrightarrow> guid_raised f h"
  unfolding guid_raised_def by (metis rss_feed.update_convs(7) rss_feed.surjective str_less_total str_less_trans)

lemma polled_refl: "polled m m"
  by (simp add: polled_def option.rel_refl guid_raised_refl)

lemma polled_trans: "polled m m' \<Longrightarrow> polled m' m'' \<Longrightarrow> polled m m''"
  unfolding polled_def
proof
  fix i assume "\<forall>i. rel_option guid_raised (m i) (m' i)" "\<forall>i. rel_option guid_raised (m' i) (m'' i)"
  then have "rel_option guid_raised (m i) (m' i)" "rel_option guid_raised (m' i) (m'' i)" by blast+
  then show "rel_option guid_raised (m i) (m'' i)"
    by (cases "m i"; cases "m' i"; cases "m'' i") (auto intro: guid_raised_trans)
qed

lemma polled_None: "polled m m' \<Longrightarrow> m' i = None \<longleftrightarrow> m i = None"
  unfolding polled_def by (metis option.rel_distinct(1,2) option.collapse)

lemma run_on_rest: "run_state (on_rest m) w = (fst (run_state m (pw_rest w)), w\<lparr>pw_rest := snd (run_state m (pw_rest w))\<rparr>)"
  by (simp add: on_rest_def split: prod.split)

lemma run_on_calls: "run_state (on_calls m) w = (fst (run_state m (pw_calls w)), w\<lparr>pw_calls := snd (run_state m (pw_calls w))\<rparr>)"
  by (simp add: on_calls_def split: prod.split)

lemma repository_poller_sel [simp]:
  "pd_list_enabled (repository_poller l u d) = on_calls l" "pd_update_state (repository_poller l u d) i g t = on_calls (u i g t)"
  "pd_get (repository_poller l u d) url = on_rest (pd_get d url)"
  "pd_on_new_entry (repository_poller l u d) f e = on_rest (pd_on_new_entry d f e)"
  "pd_now (repository_poller l u d) = on_rest (pd_now d)" "pd_cancelled (repository_poller l u d) = on_rest (pd_cancelled d)"
  by (simp_all add: repository_poller_def)

lemma deliver_keeps_store: "pw_calls (snd (run_state (deliver (repository_poller l u d) f es) w)) = pw_calls w"
  by (induction es arbitrary: w) (simp_all add: run_simps run_on_rest case_prod_unfold)

text \<open>On a repository, a feed is left alone or its newest guid is recorded.\<close>

lemma process_feed_store:
  "pw_calls (snd (run_state (process_feed (repository_poller l u d) f) w)) = pw_calls w \<or>
   (\<exists>es x. pw_calls (snd (run_state (process_feed (repository_poller l u d) f) w)) =
      snd (run_state (u (rf_feed_id f) (newest (rf_last_guid f) es) (fst (run_state (pd_now d) x))) (pw_calls w)))"
  unfolding process_feed_reference
  by (auto simp: run_simps run_on_rest run_on_calls case_prod_unfold deliver_keeps_store split: option.split)

context rss_repository
begin

abbreviation store_poller :: "(nat \<Rightarrow> 'e) \<Rightarrow> ('x, 'tm) poller_deps \<Rightarrow> (('s, 'x) poll_world, 'tm) poller_deps" where
  "store_poller envs d \<equiv>
     repository_poller (db_call envs list_enabled) (\<lambda>i g t. db_call envs (\<lambda>env. update_state env i g t)) d"

lemma update_polled:
  assumes "ok (c_store c)" "time_ok t" "feeds (c_store c) i = Some f" "\<not> str_less g (rf_last_guid f)"
    and c': "c' = snd (run_state (db_call envs (\<lambda>env. update_state env i g t)) c)"
  shows "ok (c_store c') \<and> polled (feeds (c_store c)) (feeds (c_store c')) \<and>
    (\<forall>j. j \<noteq> i \<longrightarrow> feeds (c_store c') j = feeds (c_store c) j)"
proof -
  obtain r s where u: "update_state (envs (c_count c)) i g t (c_store c) = (r, s)" by fastforce
  then have s: "c_store c' = s" by (simp add: c' run_simps)
  show ?thesis
  proof (cases r)
    case (Inl e)
    with u update_error have "s = c_store c" by blast
    with assms(1) s show ?thesis by (simp add: polled_refl)
  next
    case (Inr x)
    with update_law [OF assms(1,2), of "envs (c_count c)" i g s] u assms(3)
    have "ok s" "feeds s = (feeds (c_store c))(i \<mapsto> f\<lparr>rf_last_guid := g\<rparr>)" by auto
    with s assms(3,4) show ?thesis by (auto simp: polled_def guid_raised_def option.rel_refl)
  qed
qed

lemma poll_feeds_polled:
  assumes time: "\<And>x. time_ok (fst (run_state (pd_now d) x))"
    and "ok (c_store (pw_calls w))" "distinct (map rf_feed_id fs)"
    "\<forall>f \<in> set fs. feeds (c_store (pw_calls w)) (rf_feed_id f) = Some (untimed f)"
    and "w' = snd (run_state (poll_feeds (store_poller envs d) now fs) w)"
  shows "ok (c_store (pw_calls w')) \<and> polled (feeds (c_store (pw_calls w))) (feeds (c_store (pw_calls w')))"
  using assms(2-)
proof (induction fs arbitrary: w w')
  case Nil
  then show ?case by (simp add: run_simps polled_refl)
next
  case (Cons f fs)
  let ?d = "store_poller envs d"
  define c where "c = on_rest (pd_cancelled d)"
  define w1 where "w1 = snd (run_state (on_rest (pd_cancelled d)) w)"
  define w2 where "w2 = snd (run_state (process_feed ?d f) w1)"
  have w1: "pw_calls w1 = pw_calls w" by (simp add: w1_def run_on_rest)
  have inv: "ok (c_store (pw_calls w2)) \<and> polled (feeds (c_store (pw_calls w))) (feeds (c_store (pw_calls w2))) \<and>
      (\<forall>j. j \<noteq> rf_feed_id f \<longrightarrow> feeds (c_store (pw_calls w2)) j = feeds (c_store (pw_calls w)) j)"
  proof (cases "pw_calls w2 = pw_calls w1")
    case True
    with w1 Cons.prems(1) show ?thesis by (simp add: polled_refl)
  next
    case False
    then obtain es x where e: "pw_calls w2 = snd (run_state (db_call envs (\<lambda>env. update_state env (rf_feed_id f)
        (newest (rf_last_guid f) es) (fst (run_state (pd_now d) x)))) (pw_calls w))"
      using process_feed_store [of "db_call envs list_enabled" "\<lambda>i g t. db_call envs (\<lambda>env. update_state env i g t)" d f w1]
      unfolding w2_def [symmetric] w1 by blast
    have "rf_last_guid (untimed f) = rf_last_guid f" by (simp add: untimed_def)
    with Cons.prems newest_ge show ?thesis by (intro update_polled [OF _ time _ _ e]) auto
  qed
  have "w' = w1 \<or> w' = snd (run_state (poll_feeds ?d now fs) w2) \<or> w' = snd (run_state (poll_feeds ?d now fs) w)"
    using Cons.prems(4) by (auto simp: run_simps w1_def w2_def case_prod_unfold split: if_splits)
  moreover have ?case if "w' = w1" using that w1 Cons.prems(1) by (simp add: polled_refl)
  moreover have ?case if "w' = snd (run_state (poll_feeds ?d now fs) w)"
    using Cons.IH [OF _ _ _ that] Cons.prems by simp
  moreover have ?case if "w' = snd (run_state (poll_feeds ?d now fs) w2)"
  proof -
    have "\<forall>g \<in> set fs. feeds (c_store (pw_calls w2)) (rf_feed_id g) = Some (untimed g)"
      using inv Cons.prems(2,3) by (auto simp: image_iff)
    from Cons.IH [OF _ _ this that] inv Cons.prems show ?thesis by (auto intro: polled_trans)
  qed
  ultimately show ?case by blast
qed

lemma poll_once_polled:
  assumes "\<And>x. time_ok (fst (run_state (pd_now d) x))" "ok (c_store (pw_calls w))"
    and w': "w' = snd (run_state (poll_once (store_poller envs d)) w)"
  shows "ok (c_store (pw_calls w')) \<and> polled (feeds (c_store (pw_calls w))) (feeds (c_store (pw_calls w')))"
proof -
  let ?c = "pw_calls w"
  obtain r s where l: "list_enabled (envs (c_count ?c)) (c_store ?c) = (r, s)" by fastforce
  have s: "s = c_store ?c" using list_law [OF assms(2) l] by blast
  define w1 where "w1 = w\<lparr>pw_calls := \<lparr>c_store = s, c_count = Suc (c_count ?c)\<rparr>\<rparr>"
  define w2 where "w2 = snd (run_state (on_rest (pd_now d)) w1)"
  have st: "c_store (pw_calls w1) = c_store ?c" "c_store (pw_calls w2) = c_store ?c"
    by (simp_all add: w1_def w2_def s run_on_rest)
  show ?thesis
  proof (cases r)
    case (Inl e)
    then have "w' = w1" using l unfolding w' w1_def by (simp add: poll_once_def run_simps run_on_calls)
    with st assms(2) show ?thesis by (simp add: polled_refl)
  next
    case (Inr fs)
    have fs: "untimed ` set fs = {f. \<exists>i. feeds (c_store ?c) i = Some f \<and> rf_enabled f}" "distinct (map rf_feed_id fs)"
      using list_law [OF assms(2) l] Inr by auto
    have "feeds (c_store ?c) (rf_feed_id f) = Some (untimed f)" if "f \<in> set fs" for f
    proof -
      have "untimed f \<in> untimed ` set fs" using that by (rule imageI)
      then obtain i where i: "feeds (c_store ?c) i = Some (untimed f)" unfolding fs(1) mem_Collect_eq by blast
      then have "rf_feed_id (untimed f) = i" by (rule id_law [OF assms(2)])
      with i show ?thesis by (simp add: untimed_def)
    qed
    moreover have "w' = snd (run_state (poll_feeds (store_poller envs d) (fst (run_state (on_rest (pd_now d)) w1)) fs) w2)"
      using l Inr unfolding w' w1_def w2_def by (simp add: poll_once_def run_simps run_on_calls case_prod_unfold)
    ultimately show ?thesis using poll_feeds_polled [OF assms(1), of w2 fs w'] fs(2) assms(2) st by simp
  qed
qed

lemma poller_run_polled:
  assumes time: "\<And>x. time_ok (fst (run_state (pd_now d) x))" and "ok (c_store (pw_calls w))"
    and "w' = snd (run_state (poller_run n (store_poller envs d) (on_rest sleep)) w)"
  shows "ok (c_store (pw_calls w')) \<and> polled (feeds (c_store (pw_calls w))) (feeds (c_store (pw_calls w')))"
  using assms(2-)
proof (induction n arbitrary: w w')
  case 0
  then show ?case by (simp add: run_simps polled_refl)
next
  case (Suc n)
  let ?d = "store_poller envs d"
  define w1 where "w1 = snd (run_state (on_rest (pd_cancelled d)) w)"
  define w2 where "w2 = snd (run_state (poll_once ?d) w1)"
  define w3 where "w3 = snd (run_state (on_rest sleep) w2)"
  have keep: "pw_calls w1 = pw_calls w" "pw_calls w3 = pw_calls w2" by (simp_all add: w1_def w3_def run_on_rest)
  have p: "ok (c_store (pw_calls w2)) \<and> polled (feeds (c_store (pw_calls w))) (feeds (c_store (pw_calls w2)))"
    using poll_once_polled [OF time, of w1 w2] Suc.prems(1) w2_def keep by simp
  have "w' = w1 \<or> w' = w3 \<or> w' = snd (run_state (poller_run n ?d (on_rest sleep)) w3)"
    using Suc.prems(2) by (simp add: run_simps w1_def w2_def w3_def case_prod_unfold split: if_splits)
  moreover have ?case if "w' = w1" using that keep Suc.prems(1) by (simp add: polled_refl)
  moreover have ?case if "w' = w3" using that keep p by simp
  moreover have ?case if "w' = snd (run_state (poller_run n ?d (on_rest sleep)) w3)"
    using Suc.IH [OF _ that] p keep by (auto intro: polled_trans)
  ultimately show ?case by blast
qed

end

text \<open>The poller on the SQLite repository.\<close>

definition sqlite_poller ::
    "(int \<Rightarrow> string) \<Rightarrow> (nat \<Rightarrow> db_env) \<Rightarrow> ('x, 'tm) poller_deps \<Rightarrow> ((rss_table, 'x) poll_world, 'tm) poller_deps" where
  "sqlite_poller fmt envs d =
     repository_poller (db_call envs rss_list_enabled) (\<lambda>i g t. db_call envs (\<lambda>env. rss_update_state fmt env i g t)) d"

text \<open>
  However long the poller runs on the SQLite repository and whatever its calls to the network, the
  handler and the database answer, the table stays well formed and the subscriptions stay as they
  were: no feed appears or disappears, and of a feed only the recorded guid (and the check time)
  changes, and the guid never goes back.
\<close>

theorem poller_keeps_subscriptions:
  assumes "rtab_ok fmt (c_store (pw_calls w))" "\<And>x. fmt_iso fmt (fst (run_state (pd_now d) x))"
  shows "let w' = snd (run_state (poller_run n (sqlite_poller fmt envs d) (on_rest sleep)) w) in
    rtab_ok fmt (c_store (pw_calls w')) \<and>
    polled (rtab_feeds (c_store (pw_calls w))) (rtab_feeds (c_store (pw_calls w')))"
  unfolding Let_def sqlite_poller_def by (rule rf.poller_run_polled [OF assms(2,1) refl])

theorem poller_keeps_subscriptions_witness:
  "let w' = snd (run_state (poller_run 2 (sqlite_poller epoch_fmt (\<lambda>_. good_env) idle_poller) (on_rest (State_Monad.return False)))
     \<lparr>pw_calls = \<lparr>c_store = \<lparr>rt_rows = [row_of_feed epoch_fmt 1 default_feed], rt_seq = 1\<rparr>, c_count = 0\<rparr>, pw_rest = ()\<rparr>) in
   rtab_ok epoch_fmt (c_store (pw_calls w')) \<and> rtab_feeds (c_store (pw_calls w')) 1 \<noteq> None"
proof -
  let ?tab = "\<lparr>rt_rows = [row_of_feed epoch_fmt 1 default_feed], rt_seq = 1\<rparr>"
  let ?w = "\<lparr>pw_calls = \<lparr>c_store = ?tab, c_count = 0\<rparr>, pw_rest = ()\<rparr>"
  have t: "times_ok epoch_fmt default_feed" by (simp add: times_ok_def default_feed_def)
  then have "row_ok epoch_fmt (row_of_feed epoch_fmt 1 default_feed)" unfolding row_ok_def row_of_feed_sel by blast
  then have ok: "rtab_ok epoch_fmt (c_store (pw_calls ?w))" by (simp add: rtab_ok_def)
  have f: "rtab_feeds ?tab 1 \<noteq> None"
    using feed_of_row_roundtrip [OF t, of 1] by (auto simp: rtab_feeds_def row_view_def)
  have now: "fmt_iso epoch_fmt (fst (run_state (pd_now idle_poller) x))" for x by (simp add: idle_poller_def run_simps)
  note r = poller_keeps_subscriptions [OF ok now, of 2 "\<lambda>_. good_env" "State_Monad.return False", unfolded Let_def]
  have "rtab_feeds (c_store (pw_calls ?w)) 1 \<noteq> None" using f by simp
  with polled_None [OF conjunct2 [OF r], of 1] conjunct1 [OF r] show ?thesis unfolding Let_def by (intro conjI) simp_all
qed

end
