(* ===== verification/Schema_Migrator.thy ===== *)
theory Schema_Migrator
  imports Task_Repository
begin

text \<open>
  The schema migrator \<open>schema_migrator.cpp\<close>. A database is its tables with their columns, its
  indexes and the rows of \<open>schema_version\<close>; a connection is the committed database and, inside a
  transaction, the working copy. Every statement may fail: \<open>flt n\<close> is the failure of the \<open>n\<close>-th
  statement the migrator sends, next to the failures the statement causes by itself.
\<close>

subsection \<open>Databases\<close>

record database =
  db_tables :: "(string \<times> string list) list"
  db_indexes :: "string list"
  db_versions :: "(int \<times> string) list"

record connection =
  cn_committed :: database
  cn_work :: "database option"

datatype ddl =
    CreateTable string "string list"
  | CreateIndex string string string
  | AddColumn string string

text \<open>A statement of a migration on a database: \<open>CREATE \<dots> IF NOT EXISTS\<close> and \<open>ALTER TABLE \<dots> ADD COLUMN\<close>.\<close>

definition exec_ddl :: "ddl \<Rightarrow> database \<Rightarrow> string + database" where
  "exec_ddl st db =
     (case st of
        CreateTable t cols \<Rightarrow>
          Inr (if map_of (db_tables db) t \<noteq> None then db else db\<lparr>db_tables := db_tables db @ [(t, cols)]\<rparr>)
      | CreateIndex i t col \<Rightarrow>
          (if i \<in> set (db_indexes db) then Inr db
           else case map_of (db_tables db) t of
             None \<Rightarrow> Inl (''no such table: main.'' @ t)
           | Some cols \<Rightarrow> if col \<in> set cols then Inr (db\<lparr>db_indexes := db_indexes db @ [i]\<rparr>)
                          else Inl (''no such column: '' @ col))
      | AddColumn t col \<Rightarrow>
          (case map_of (db_tables db) t of
             None \<Rightarrow> Inl (''no such table: '' @ t)
           | Some cols \<Rightarrow>
               if col \<in> set cols then Inl (''duplicate column name: '' @ col)
               else Inr (db\<lparr>db_tables := map (\<lambda>(u, cs). if u = t then (u, cs @ [col]) else (u, cs)) (db_tables db)\<rparr>)))"

text \<open>
  \<open>sqlite3_exec\<close>: the statements in order, up to the first that fails; the error message if one fails,
  the database the statements that ran made, and the next statement number.
\<close>

fun exec_script :: "(nat \<Rightarrow> string option) \<Rightarrow> nat \<Rightarrow> ddl list \<Rightarrow> database \<Rightarrow> string option \<times> database \<times> nat" where
  "exec_script flt n [] db = (None, db, n)"
| "exec_script flt n (st # sts) db =
     (case flt n of
        Some msg \<Rightarrow> (Some msg, db, Suc n)
      | None \<Rightarrow> (case exec_ddl st db of
           Inl msg \<Rightarrow> (Some msg, db, Suc n)
         | Inr db' \<Rightarrow> exec_script flt (Suc n) sts db'))"

subsection \<open>The registry\<close>

record migration =
  mg_version :: int
  mg_name :: string
  mg_sql :: "ddl list"

definition version_columns :: "string list" where
  "version_columns = [''version'', ''name'', ''applied_at'']"

definition v0001_initial_schema :: "ddl list" where
  "v0001_initial_schema =
     [CreateTable ''schema_version'' version_columns,
      CreateTable ''bot_settings'' [''id'', ''owner_id'', ''sudo_users'', ''authorized_chats'', ''download_dir'',
        ''leech_split_size'', ''upload_limit_bytes'', ''status_update_interval_ms'', ''rss_poll_interval_ms'', ''updated_at''],
      CreateTable ''user_settings'' [''user_id'', ''leech_destination'', ''mirror_destination'', ''default_thumb_path'',
        ''rclone_remote'', ''gdrive_folder_id'', ''upload_as_document'', ''created_at'', ''updated_at''],
      CreateTable ''tasks'' [''id'', ''user_id'', ''chat_id'', ''status_message_id'', ''kind'', ''state'', ''source_url'',
        ''error_message'', ''created_at'', ''updated_at''],
      CreateIndex ''idx_tasks_user_id'' ''tasks'' ''user_id'',
      CreateIndex ''idx_tasks_state'' ''tasks'' ''state'']"

definition v0002_rss_feeds :: "ddl list" where
  "v0002_rss_feeds =
     [CreateTable ''rss_feeds'' [''feed_id'', ''title'', ''url'', ''chat_id'', ''include_regex'', ''exclude_regex'',
        ''last_guid'', ''last_checked_at'', ''enabled'', ''created_at''],
      CreateIndex ''idx_rss_feeds_enabled'' ''rss_feeds'' ''enabled'']"

definition v0003_task_downloader_attachment :: "ddl list" where
  "v0003_task_downloader_attachment =
     [AddColumn ''tasks'' ''downloader_kind'',
      AddColumn ''tasks'' ''downloader_id'',
      CreateIndex ''idx_tasks_downloader_id'' ''tasks'' ''downloader_id'']"

definition migrations :: "migration list" where
  "migrations =
     [\<lparr>mg_version = 1, mg_name = ''V0001__initial_schema'', mg_sql = v0001_initial_schema\<rparr>,
      \<lparr>mg_version = 2, mg_name = ''V0002__rss_feeds'', mg_sql = v0002_rss_feeds\<rparr>,
      \<lparr>mg_version = 3, mg_name = ''V0003__task_downloader_attachment'', mg_sql = v0003_task_downloader_attachment\<rparr>]"

subsection \<open>Operations\<close>

type_synonym 'a migrating = "'a res \<times> connection \<times> nat"

text \<open>A statement outside a migration body: it fails as \<open>flt\<close> says, else runs on the database in use.\<close>

definition in_use :: "connection \<Rightarrow> database" where
  "in_use cn = (case cn_work cn of None \<Rightarrow> cn_committed cn | Some db \<Rightarrow> db)"

definition put_db :: "database \<Rightarrow> connection \<Rightarrow> connection" where
  "put_db db cn = (case cn_work cn of None \<Rightarrow> cn\<lparr>cn_committed := db\<rparr> | Some _ \<Rightarrow> cn\<lparr>cn_work := Some db\<rparr>)"

definition ensure_schema_version_table :: "(nat \<Rightarrow> string option) \<Rightarrow> nat \<Rightarrow> connection \<Rightarrow> unit migrating" where
  "ensure_schema_version_table flt n cn =
     (case exec_script flt n [CreateTable ''schema_version'' version_columns] (in_use cn) of
        (Some msg, _, n') \<Rightarrow> (Inl (mk_error EC_Migration (''Failed to ensure schema_version table: '' @ msg)), cn, n')
      | (None, db, n') \<Rightarrow> (Inr (), put_db db cn, n'))"

definition max_version :: "database \<Rightarrow> int" where
  "max_version db = (if db_versions db = [] then 0 else Max (set (map fst (db_versions db))))"

definition read_current_version :: "(nat \<Rightarrow> string option) \<Rightarrow> nat \<Rightarrow> connection \<Rightarrow> int migrating" where
  "read_current_version flt n cn =
     (case flt n of
        Some msg \<Rightarrow> (Inl (mk_error EC_Database (''Failed to read schema_version: '' @ msg)), cn, Suc n)
      | None \<Rightarrow>
          if map_of (db_tables (in_use cn)) ''schema_version'' = None
          then (Inl (mk_error EC_Database ''Failed to read schema_version: no such table: schema_version''), cn, Suc n)
          else (Inr (max_version (in_use cn)), cn, Suc n))"

text \<open>\<open>ROLLBACK\<close>: the working copy is dropped, unless the statement fails.\<close>

definition rollback :: "(nat \<Rightarrow> string option) \<Rightarrow> nat \<Rightarrow> connection \<Rightarrow> string option \<times> connection \<times> nat" where
  "rollback flt n cn =
     (case flt n of
        Some msg \<Rightarrow> (Some msg, cn, Suc n)
      | None \<Rightarrow> if cn_work cn = None then (Some ''cannot rollback - no transaction is active'', cn, Suc n)
                else (None, cn\<lparr>cn_work := None\<rparr>, Suc n))"

text \<open>The handler at the end of \<open>apply_one\<close>: roll back, ignoring a failure, and report the first error.\<close>

definition threw :: "(nat \<Rightarrow> string option) \<Rightarrow> nat \<Rightarrow> connection \<Rightarrow> migration \<Rightarrow> string \<Rightarrow> unit migrating" where
  "threw flt n cn m msg =
     (case rollback flt n cn of
        (_, cn', n') \<Rightarrow> (Inl (mk_error EC_Migration (''Migration '' @ mg_name m @ '' threw: '' @ msg)), cn', n'))"

definition apply_one :: "(nat \<Rightarrow> string option) \<Rightarrow> nat \<Rightarrow> connection \<Rightarrow> migration \<Rightarrow> unit migrating" where
  "apply_one flt n cn m =
     (case (case flt n of Some msg \<Rightarrow> Some msg
            | None \<Rightarrow> if cn_work cn = None then None else Some ''cannot start a transaction within a transaction'') of
        Some msg \<Rightarrow>
          (Inl (mk_error EC_Migration (''Failed to BEGIN for migration '' @ mg_name m @ '': '' @ msg)), cn, Suc n)
      | None \<Rightarrow>
          (case exec_script flt (Suc n) (mg_sql m) (cn_committed cn) of
             (Some msg, db, n1) \<Rightarrow>
               (case rollback flt n1 (cn\<lparr>cn_work := Some db\<rparr>) of
                  (Some msg', cn', n2) \<Rightarrow> threw flt n2 cn' m msg'
                | (None, cn', n2) \<Rightarrow>
                    (Inl (mk_error EC_Migration (''Migration '' @ mg_name m @ '' failed: '' @ msg)), cn', n2))
           | (None, db, n1) \<Rightarrow>
               (case (case flt n1 of Some msg \<Rightarrow> Some msg
                      | None \<Rightarrow> if mg_version m \<in> set (map fst (db_versions db))
                                then Some ''UNIQUE constraint failed: schema_version.version'' else None) of
                  Some msg \<Rightarrow> threw flt (Suc n1) (cn\<lparr>cn_work := Some db\<rparr>) m msg
                | None \<Rightarrow>
                    (let db' = db\<lparr>db_versions := db_versions db @ [(mg_version m, mg_name m)]\<rparr> in
                     case flt (Suc n1) of
                       Some msg \<Rightarrow> threw flt (Suc (Suc n1)) (cn\<lparr>cn_work := Some db'\<rparr>) m msg
                     | None \<Rightarrow> (Inr (), \<lparr>cn_committed = db', cn_work = None\<rparr>, Suc (Suc n1))))))"

fun apply_pending :: "(nat \<Rightarrow> string option) \<Rightarrow> nat \<Rightarrow> connection \<Rightarrow> int \<Rightarrow> migration list \<Rightarrow> unit migrating" where
  "apply_pending flt n cn current [] = (Inr (), cn, n)"
| "apply_pending flt n cn current (m # ms) =
     (if mg_version m \<le> current then apply_pending flt n cn current ms
      else case apply_one flt n cn m of
        (Inl e, cn', n') \<Rightarrow> (Inl e, cn', n')
      | (Inr _, cn', n') \<Rightarrow> apply_pending flt n' cn' current ms)"

definition current_version :: "unit res \<Rightarrow> (nat \<Rightarrow> string option) \<Rightarrow> nat \<Rightarrow> connection \<Rightarrow> int migrating" where
  "current_version acquired flt n cn =
     (case acquired of
        Inl e \<Rightarrow> (Inl e, cn, n)
      | Inr _ \<Rightarrow>
          (case ensure_schema_version_table flt n cn of
             (Inl e, cn', n') \<Rightarrow> (Inl e, cn', n')
           | (Inr _, cn', n') \<Rightarrow> read_current_version flt n' cn'))"

definition migrate :: "unit res \<Rightarrow> (nat \<Rightarrow> string option) \<Rightarrow> nat \<Rightarrow> connection \<Rightarrow> unit migrating" where
  "migrate acquired flt n cn =
     (case acquired of
        Inl e \<Rightarrow> (Inl e, cn, n)
      | Inr _ \<Rightarrow>
          (case ensure_schema_version_table flt n cn of
             (Inl e, cn', n') \<Rightarrow> (Inl e, cn', n')
           | (Inr _, cn', n') \<Rightarrow>
               (case read_current_version flt n' cn' of
                  (Inl e, cn'', n'') \<Rightarrow> (Inl e, cn'', n'')
                | (Inr current, cn'', n'') \<Rightarrow> apply_pending flt n'' cn'' current migrations)))"

subsection \<open>Schemas\<close>

text \<open>The database as it is after the first \<open>k\<close> migrations, written out.\<close>

definition task_columns :: "string list" where
  "task_columns = [''id'', ''user_id'', ''chat_id'', ''status_message_id'', ''kind'', ''state'', ''source_url'',
     ''error_message'', ''created_at'', ''updated_at'']"

definition settings_tables :: "(string \<times> string list) list" where
  "settings_tables =
     [(''bot_settings'', [''id'', ''owner_id'', ''sudo_users'', ''authorized_chats'', ''download_dir'', ''leech_split_size'',
        ''upload_limit_bytes'', ''status_update_interval_ms'', ''rss_poll_interval_ms'', ''updated_at'']),
      (''user_settings'', [''user_id'', ''leech_destination'', ''mirror_destination'', ''default_thumb_path'',
        ''rclone_remote'', ''gdrive_folder_id'', ''upload_as_document'', ''created_at'', ''updated_at''])]"

definition rss_columns :: "string list" where
  "rss_columns = [''feed_id'', ''title'', ''url'', ''chat_id'', ''include_regex'', ''exclude_regex'', ''last_guid'',
     ''last_checked_at'', ''enabled'', ''created_at'']"

definition blank :: database where
  "blank = \<lparr>db_tables = [], db_indexes = [], db_versions = []\<rparr>"

definition schema_at :: "nat \<Rightarrow> database" where
  "schema_at k =
     \<lparr>db_tables = (''schema_version'', version_columns) #
        (if k = 0 then []
         else settings_tables @ [(''tasks'', task_columns @ (if k < 3 then [] else [''downloader_kind'', ''downloader_id'']))]) @
        (if k < 2 then [] else [(''rss_feeds'', rss_columns)]),
      db_indexes =
        (if k = 0 then [] else [''idx_tasks_user_id'', ''idx_tasks_state'']) @
        (if k < 2 then [] else [''idx_rss_feeds_enabled'']) @ (if k < 3 then [] else [''idx_tasks_downloader_id'']),
      db_versions = map (\<lambda>m. (mg_version m, mg_name m)) (take k migrations)\<rparr>"

lemma exec_script_result:
  "exec_script flt n sts db = (None, db', n') \<Longrightarrow> fst (snd (exec_script (\<lambda>_. None) 0 sts db)) = db'"
proof -
  have pure: "fst (exec_script (\<lambda>_. None) i sts db) = fst (exec_script (\<lambda>_. None) j sts db)"
    "fst (snd (exec_script (\<lambda>_. None) i sts db)) = fst (snd (exec_script (\<lambda>_. None) j sts db))" for i j sts db
    by (induction sts arbitrary: i j db) (auto split: sum.split)
  assume "exec_script flt n sts db = (None, db', n')"
  then show ?thesis
  proof (induction sts arbitrary: n db)
    case (Cons st sts)
    then obtain d where d: "flt n = None" "exec_ddl st db = Inr d" "exec_script flt (Suc n) sts d = (None, db', n')"
      by (auto split: option.splits sum.splits)
    show ?case using Cons.IH [OF d(3)] pure(2) [of "Suc 0" sts d 0] d(2) by simp
  qed simp
qed

text \<open>The script of each migration takes the schema before it to the one after it.\<close>

lemma scripts_run:
  "fst (exec_script (\<lambda>_. None) n (mg_sql (migrations ! 0)) (schema_at 0)) = None"
  "fst (snd (exec_script (\<lambda>_. None) n (mg_sql (migrations ! 0)) (schema_at 0))) = (schema_at 1)\<lparr>db_versions := []\<rparr>"
  "fst (exec_script (\<lambda>_. None) n (mg_sql (migrations ! 1)) (schema_at 1)) = None"
  "fst (snd (exec_script (\<lambda>_. None) n (mg_sql (migrations ! 1)) (schema_at 1))) =
     (schema_at 2)\<lparr>db_versions := db_versions (schema_at 1)\<rparr>"
  "fst (exec_script (\<lambda>_. None) n (mg_sql (migrations ! 2)) (schema_at 2)) = None"
  "fst (snd (exec_script (\<lambda>_. None) n (mg_sql (migrations ! 2)) (schema_at 2))) =
     (schema_at 3)\<lparr>db_versions := db_versions (schema_at 2)\<rparr>"
  by (simp_all add: migrations_def v0001_initial_schema_def v0002_rss_feeds_def v0003_task_downloader_attachment_def
      exec_ddl_def schema_at_def settings_tables_def task_columns_def rss_columns_def version_columns_def)

subsection \<open>Migrating\<close>

lemma rollback_committed: "rollback flt n cn = (x, cn', n') \<Longrightarrow> cn_committed cn' = cn_committed cn"
  by (auto simp: rollback_def split: option.splits if_splits)

lemma threw_committed: "threw flt n cn m msg = (r, cn', n') \<Longrightarrow> (\<exists>e. r = Inl e) \<and> cn_committed cn' = cn_committed cn"
  by (auto simp: threw_def dest: rollback_committed split: prod.splits)

text \<open>A migration is applied in full, or the committed database is what it was.\<close>

lemma apply_one_atomic:
  assumes run: "apply_one flt n cn m = (r, cn', n')"
  shows "(\<exists>e. r = Inl e) \<and> cn_committed cn' = cn_committed cn \<or>
    (\<exists>db. r = Inr () \<and> fst (snd (exec_script (\<lambda>_. None) 0 (mg_sql m) (cn_committed cn))) = db \<and>
       cn' = \<lparr>cn_committed = db\<lparr>db_versions := db_versions db @ [(mg_version m, mg_name m)]\<rparr>, cn_work = None\<rparr>)"
proof -
  obtain x db n1 where e: "exec_script flt (Suc n) (mg_sql m) (cn_committed cn) = (x, db, n1)" by (metis prod_cases3)
  have res: "x = None \<Longrightarrow> fst (snd (exec_script (\<lambda>_. None) 0 (mg_sql m) (cn_committed cn))) = db"
    using exec_script_result e by blast
  show ?thesis
  proof (cases x)
    case (Some msg)
    with run e show ?thesis
      by (auto simp: apply_one_def dest!: rollback_committed threw_committed split: option.splits if_splits prod.splits)
  next
    case None
    with run e res show ?thesis
      by (auto simp: apply_one_def Let_def dest!: threw_committed split: option.splits if_splits)
  qed
qed

lemma schema_step:
  assumes "apply_one flt n \<lparr>cn_committed = schema_at i, cn_work = None\<rparr> (migrations ! i) = (r, cn', n')" "i < 3"
  shows "(\<exists>e. r = Inl e) \<and> cn_committed cn' = schema_at i \<or>
    r = Inr () \<and> cn' = \<lparr>cn_committed = schema_at (Suc i), cn_work = None\<rparr>"
proof -
  have "i = 0 \<or> i = 1 \<or> i = 2" using assms(2) by auto
  then have "(fst (snd (exec_script (\<lambda>_. None) 0 (mg_sql (migrations ! i)) (schema_at i))))
      \<lparr>db_versions := db_versions (schema_at i) @ [(mg_version (migrations ! i), mg_name (migrations ! i))]\<rparr> = schema_at (Suc i)"
    "db_versions (fst (snd (exec_script (\<lambda>_. None) 0 (mg_sql (migrations ! i)) (schema_at i)))) = db_versions (schema_at i)"
    using scripts_run by (auto simp: schema_at_def take_Suc_conv_app_nth migrations_def numeral_eq_Suc)
  with apply_one_atomic [OF assms(1)] show ?thesis by auto
qed

lemma migrations_at:
  assumes "i < 3"
  shows "drop i migrations = migrations ! i # drop (Suc i) migrations" "mg_version (migrations ! i) = int (Suc i)"
proof -
  have "i < length migrations" using assms by (simp add: migrations_def)
  then show "drop i migrations = migrations ! i # drop (Suc i) migrations" by (simp only: Cons_nth_drop_Suc)
  show "mg_version (migrations ! i) = int (Suc i)" using assms by (auto simp: migrations_def less_Suc_eq numeral_eq_Suc)
qed

lemma apply_from:
  assumes "apply_pending flt n \<lparr>cn_committed = schema_at i, cn_work = None\<rparr> (int k) (drop i migrations) = (r, cn', n')" "k \<le> i" "i \<le> 3"
  shows "r = Inr () \<and> cn' = \<lparr>cn_committed = schema_at 3, cn_work = None\<rparr> \<or>
    (\<exists>e j. r = Inl e \<and> i \<le> j \<and> j < 3 \<and> cn_committed cn' = schema_at j)"
  using assms
proof (induction "3 - i" arbitrary: i n)
  case 0
  then show ?case by (auto simp: migrations_def)
next
  case (Suc d)
  then have i: "i < 3" by simp
  note m = migrations_at(1) [OF i] and v = migrations_at(2) [OF i]
  obtain x cn1 n1 where a: "apply_one flt n \<lparr>cn_committed = schema_at i, cn_work = None\<rparr> (migrations ! i) = (x, cn1, n1)"
    by (metis prod_cases3)
  from schema_step [OF a i] show ?case
  proof (elim disjE conjE exE)
    assume x: "x = Inr ()" "cn1 = \<lparr>cn_committed = schema_at (Suc i), cn_work = None\<rparr>"
    then have "apply_pending flt n1 cn1 (int k) (drop (Suc i) migrations) = (r, cn', n')"
      using Suc.prems(1,2) m v a by simp
    from Suc.hyps(1) [OF _ this [unfolded x(2)]] Suc.hyps(2) Suc.prems(2) i show ?thesis by fastforce
  qed (use Suc.prems m v a i in auto)
qed

lemma apply_skip:
  "i \<le> k \<Longrightarrow> k \<le> 3 \<Longrightarrow> apply_pending flt n cn (int k) (drop i migrations) = apply_pending flt n cn (int k) (drop k migrations)"
proof (induction "k - i" arbitrary: i)
  case (Suc d)
  then have "i < 3" "Suc i \<le> k" "d = k - Suc i" by simp_all
  with Suc.hyps(1) [of "Suc i"] Suc.prems(2) migrations_at show ?case by simp
qed simp

lemma max_version_at: "k \<le> 3 \<Longrightarrow> max_version (schema_at k) = int k"
  by (auto simp: max_version_def schema_at_def migrations_def le_Suc_eq numeral_eq_Suc)

text \<open>What a database can be: never migrated, or at one of the versions.\<close>

definition at_version :: "nat \<Rightarrow> database \<Rightarrow> bool" where
  "at_version k db = (k \<le> 3 \<and> (db = schema_at k \<or> k = 0 \<and> db = blank))"

lemma ensure_at:
  assumes "at_version k db" "ensure_schema_version_table flt n \<lparr>cn_committed = db, cn_work = None\<rparr> = (r, cn', n')"
  shows "(\<exists>e. r = Inl e) \<and> cn' = \<lparr>cn_committed = db, cn_work = None\<rparr> \<or>
    r = Inr () \<and> cn' = \<lparr>cn_committed = schema_at k, cn_work = None\<rparr>"
  using assms
  by (auto simp: ensure_schema_version_table_def at_version_def exec_ddl_def schema_at_def blank_def in_use_def put_db_def
      split: option.splits)

lemma migrate_at:
  assumes k: "at_version k db" and run: "migrate acquired flt n \<lparr>cn_committed = db, cn_work = None\<rparr> = (r, cn', n')"
  shows "r = Inr () \<and> cn' = \<lparr>cn_committed = schema_at 3, cn_work = None\<rparr> \<or>
    (\<exists>e j. r = Inl e \<and> k \<le> j \<and> at_version j (cn_committed cn'))"
proof (cases acquired)
  case (Inl e)
  with k run show ?thesis by (auto simp: migrate_def)
next
  case (Inr u)
  obtain x cn1 n1 where e: "ensure_schema_version_table flt n \<lparr>cn_committed = db, cn_work = None\<rparr> = (x, cn1, n1)"
    by (metis prod_cases3)
  from ensure_at [OF k e] show ?thesis
  proof (elim disjE conjE exE)
    assume x: "x = Inr ()" "cn1 = \<lparr>cn_committed = schema_at k, cn_work = None\<rparr>"
    have k3: "k \<le> 3" and kk: "at_version k (schema_at k)" using k by (simp_all add: at_version_def)
    show ?thesis
    proof (cases "flt n1")
      case None
      then have "read_current_version flt n1 cn1 = (Inr (int k), cn1, Suc n1)"
        by (simp add: read_current_version_def x(2) in_use_def max_version_at [OF k3]) (simp add: schema_at_def)
      then have "apply_pending flt (Suc n1) cn1 (int k) (drop 0 migrations) = (r, cn', n')"
        using run e x(1) Inr by (simp add: migrate_def)
      then have "apply_pending flt (Suc n1) \<lparr>cn_committed = schema_at k, cn_work = None\<rparr> (int k) (drop k migrations) = (r, cn', n')"
        using apply_skip [of 0 k] k3 by (simp add: x(2))
      from apply_from [OF this order_refl k3] show ?thesis by (auto simp: at_version_def)
    next
      case (Some msg)
      with run e x Inr kk show ?thesis by (auto simp: migrate_def read_current_version_def)
    qed
  qed (use k run e Inr in \<open>auto simp: migrate_def\<close>)
qed

text \<open>Without failures every migration is applied.\<close>

lemma apply_one_fine:
  assumes "i < 3"
  shows "\<exists>n'. apply_one (\<lambda>_. None) n \<lparr>cn_committed = schema_at i, cn_work = None\<rparr> (migrations ! i) =
    (Inr (), \<lparr>cn_committed = schema_at (Suc i), cn_work = None\<rparr>, n')"
proof -
  let ?c = "\<lparr>cn_committed = schema_at i, cn_work = None\<rparr>"
  obtain x db n1 where e: "exec_script (\<lambda>_. None) (Suc n) (mg_sql (migrations ! i)) (schema_at i) = (x, db, n1)"
    by (metis prod_cases3)
  have i: "i = 0 \<or> i = 1 \<or> i = 2" using assms by auto
  then have "x = None" using scripts_run e by (metis fst_conv)
  moreover have "mg_version (migrations ! i) \<notin> set (map fst (db_versions db))"
    using i scripts_run(2,4,6) [of "Suc n"] e by (auto simp: schema_at_def migrations_def)
  ultimately have "fst (apply_one (\<lambda>_. None) n ?c (migrations ! i)) = Inr ()"
    using e by (simp add: apply_one_def Let_def)
  then obtain cn' n' where "apply_one (\<lambda>_. None) n ?c (migrations ! i) = (Inr (), cn', n')"
    by (cases "apply_one (\<lambda>_. None) n ?c (migrations ! i)") auto
  with schema_step [OF _ assms] show ?thesis by blast
qed

lemma apply_from_fine:
  "k \<le> i \<Longrightarrow> i \<le> 3 \<Longrightarrow>
   fst (apply_pending (\<lambda>_. None) n \<lparr>cn_committed = schema_at i, cn_work = None\<rparr> (int k) (drop i migrations)) = Inr ()"
proof (induction "3 - i" arbitrary: i n)
  case 0
  then show ?case by (simp add: migrations_def)
next
  case (Suc d)
  then have i: "i < 3" "d = 3 - Suc i" "k \<le> Suc i" "Suc i \<le> 3" by simp_all
  obtain n' where "apply_one (\<lambda>_. None) n \<lparr>cn_committed = schema_at i, cn_work = None\<rparr> (migrations ! i) =
      (Inr (), \<lparr>cn_committed = schema_at (Suc i), cn_work = None\<rparr>, n')" using apply_one_fine [OF i(1)] by blast
  with Suc.hyps(1) [OF i(2-4)] migrations_at [OF i(1)] Suc.prems(1) show ?case by simp
qed

text \<open>
  C15. Migrating is atomic and complete. Started on a database that was never migrated or is at some
  version, whatever statement fails: success means the committed database is at the last version, its
  schema is the written-out one and its version rows are those of the registry; failure leaves the
  committed database at some version not below the one it had, with no half-applied migration.
\<close>

theorem migrate_atomic:
  assumes "at_version k db" "migrate acquired flt n \<lparr>cn_committed = db, cn_work = None\<rparr> = (r, cn', n')"
  shows "(r = Inr () \<longrightarrow> cn' = \<lparr>cn_committed = schema_at 3, cn_work = None\<rparr>) \<and>
    (\<forall>e. r = Inl e \<longrightarrow> (\<exists>j. k \<le> j \<and> at_version j (cn_committed cn')))"
  using migrate_at [OF assms] by auto

theorem migrate_atomic_witness:
  "\<exists>r cn' n'. migrate (Inr ()) (\<lambda>n. if n = 12 then Some ''disk I/O error'' else None) 0
     \<lparr>cn_committed = blank, cn_work = None\<rparr> = (r, cn', n') \<and>
     (r = Inr () \<longrightarrow> cn' = \<lparr>cn_committed = schema_at 3, cn_work = None\<rparr>) \<and>
     (\<forall>e. r = Inl e \<longrightarrow> (\<exists>j. at_version j (cn_committed cn')))"
proof -
  obtain r cn' n' where run: "migrate (Inr ()) (\<lambda>n. if n = 12 then Some ''disk I/O error'' else None) 0
     \<lparr>cn_committed = blank, cn_work = None\<rparr> = (r, cn', n')" by (metis prod_cases3)
  have "at_version 0 blank" by (simp add: at_version_def)
  from migrate_atomic [OF this run] run show ?thesis by blast
qed

text \<open>
  When no statement fails the migrator succeeds from every version, and on a database that is up to
  date it changes nothing, whatever statement fails: running it at every start is safe. The schema it
  ends with has the columns the task and feed repositories read and write.
\<close>

theorem migrate_succeeds_and_repeats:
  assumes "at_version k db"
  shows "(\<exists>n'. migrate (Inr ()) (\<lambda>_. None) n \<lparr>cn_committed = db, cn_work = None\<rparr> =
      (Inr (), \<lparr>cn_committed = schema_at 3, cn_work = None\<rparr>, n')) \<and>
    cn_committed (fst (snd (migrate acquired flt n \<lparr>cn_committed = schema_at 3, cn_work = None\<rparr>))) = schema_at 3 \<and>
    map_of (db_tables (schema_at 3)) ''tasks'' =
      Some [''id'', ''user_id'', ''chat_id'', ''status_message_id'', ''kind'', ''state'', ''source_url'', ''error_message'',
        ''created_at'', ''updated_at'', ''downloader_kind'', ''downloader_id''] \<and>
    map_of (db_tables (schema_at 3)) ''rss_feeds'' =
      Some [''feed_id'', ''title'', ''url'', ''chat_id'', ''include_regex'', ''exclude_regex'', ''last_guid'',
        ''last_checked_at'', ''enabled'', ''created_at'']"
proof (intro conjI)
  obtain x cn1 n1 where e: "ensure_schema_version_table (\<lambda>_. None) n \<lparr>cn_committed = db, cn_work = None\<rparr> = (x, cn1, n1)"
    by (metis prod_cases3)
  have x: "x = Inr ()" using e assms
    by (auto simp: ensure_schema_version_table_def exec_ddl_def split: option.splits prod.splits)
  then have c: "cn1 = \<lparr>cn_committed = schema_at k, cn_work = None\<rparr>" using ensure_at [OF assms e] by simp
  have k3: "k \<le> 3" using assms by (simp add: at_version_def)
  have v: "read_current_version (\<lambda>_. None) n1 cn1 = (Inr (int k), cn1, Suc n1)"
    by (simp add: read_current_version_def c in_use_def max_version_at [OF k3]) (simp add: schema_at_def)
  have "apply_pending (\<lambda>_. None) (Suc n1) cn1 (int k) migrations =
      apply_pending (\<lambda>_. None) (Suc n1) cn1 (int k) (drop k migrations)" using apply_skip [of 0 k] k3 by simp
  then have f: "fst (migrate (Inr ()) (\<lambda>_. None) n \<lparr>cn_committed = db, cn_work = None\<rparr>) = Inr ()"
    using e x v apply_from_fine [OF order_refl k3] by (simp add: migrate_def c)
  obtain r cn' n' where run: "migrate (Inr ()) (\<lambda>_. None) n \<lparr>cn_committed = db, cn_work = None\<rparr> = (r, cn', n')"
    by (metis prod_cases3)
  with f migrate_at [OF assms run] show "\<exists>n'. migrate (Inr ()) (\<lambda>_. None) n \<lparr>cn_committed = db, cn_work = None\<rparr> =
      (Inr (), \<lparr>cn_committed = schema_at 3, cn_work = None\<rparr>, n')" by auto
next
  obtain r cn' n' where run: "migrate acquired flt n \<lparr>cn_committed = schema_at 3, cn_work = None\<rparr> = (r, cn', n')"
    by (metis prod_cases3)
  have "at_version 3 (schema_at 3)" by (simp add: at_version_def)
  from migrate_at [OF this run] run
  show "cn_committed (fst (snd (migrate acquired flt n \<lparr>cn_committed = schema_at 3, cn_work = None\<rparr>))) = schema_at 3"
    by (auto simp: at_version_def)
qed (simp_all add: schema_at_def settings_tables_def task_columns_def rss_columns_def)

theorem migrate_succeeds_and_repeats_witness:
  "\<exists>n'. migrate (Inr ()) (\<lambda>_. None) 0 \<lparr>cn_committed = blank, cn_work = None\<rparr> =
     (Inr (), \<lparr>cn_committed = schema_at 3, cn_work = None\<rparr>, n')"
proof -
  have "at_version 0 blank" by (simp add: at_version_def)
  from migrate_succeeds_and_repeats [OF this] show ?thesis by blast
qed

end
