(* ===== verification/Drive_Resource.thy ===== *)
theory Drive_Resource
  imports Command_Dispatcher Regex
begin

text \<open>
  The Google Drive commands \<open>clone_drive_resource.cpp\<close>, \<open>count_drive_resource.cpp\<close> and
  \<open>delete_drive_resource.cpp\<close>: the extraction of the Drive id from a link (the same function in the
  three files) and the three use cases over the messenger and \<open>DriveResourceOperations\<close>.
\<close>

subsection \<open>Drive ids\<close>

definition id_char :: "char \<Rightarrow> bool" where
  "id_char c = (is_alpha_char c \<or> is_digit c \<or> c = CHR ''_'' \<or> c = CHR ''-'')"

abbreviation captured_id :: "elem list" where
  "captured_id \<equiv> Group 1 # Plus id_char @ [Group 0]"

definition file_re :: "elem list" where
  "file_re = lit ''/file/d/'' @ captured_id"

definition folder_re :: "elem list" where
  "folder_re = lit ''/folders/'' @ captured_id"

definition query_re :: "elem list" where
  "query_re = [One (\<lambda>c. c = CHR ''?'' \<or> c = CHR ''&'')] @ lit ''id='' @ captured_id"

definition extract_drive_id :: "string \<Rightarrow> string" where
  "extract_drive_id input =
     (case regex_search file_re input of Some m \<Rightarrow> capture 1 m
      | None \<Rightarrow> (case regex_search folder_re input of Some m \<Rightarrow> capture 1 m
      | None \<Rightarrow> (case regex_search query_re input of Some m \<Rightarrow> capture 1 m
      | None \<Rightarrow> input)))"

subsection \<open>The use cases\<close>

record 'w drive_deps =
  dv_send :: "chat_id \<Rightarrow> string \<Rightarrow> ('w, message_id res) state"
  dv_edit :: "chat_id \<Rightarrow> message_id \<Rightarrow> string \<Rightarrow> ('w, unit res) state"
  dv_copy :: "string \<Rightarrow> string \<Rightarrow> ('w, string res) state"
  dv_count :: "string \<Rightarrow> ('w, count_result res) state"
  dv_remove :: "string \<Rightarrow> ('w, unit res) state"

definition headed :: "string \<Rightarrow> string" where
  "headed h = ''<b><u>'' @ h @ ''</u></b>'' @ newline"

definition failed_panel :: "string \<Rightarrow> app_error \<Rightarrow> string" where
  "failed_panel h e = headed h @ ''<blockquote>'' @ escape_html (err_message e) @ ''</blockquote>''"

definition drive_id_panel :: "string \<Rightarrow> string \<Rightarrow> string" where
  "drive_id_panel h i = headed h @ ''<b>Drive id:</b> <code>'' @ escape_html i @ ''</code>''"

definition count_panel :: "printer \<Rightarrow> count_result \<Rightarrow> string" where
  "count_panel pr c =
     headed ''Drive Count'' @
     ''<b>Files:</b> <code>'' @ int_to_string (ct_files c) @ ''</code>'' @ newline @
     ''<b>Folders:</b> <code>'' @ int_to_string (ct_folders c) @ ''</code>'' @ newline @
     ''<b>Total:</b> <code>'' @ format_bytes (pr_quotient pr) (ct_total_bytes c) @ ''</code>''"

definition clone_execute :: "'w drive_deps \<Rightarrow> string \<Rightarrow> drive_request \<Rightarrow> ('w, string res) state" where
  "clone_execute D target_folder_id req =
     (if dr_source_url req = [] then State_Monad.return (Inl (mk_error EC_InvalidArgument ''clone: empty source URL''))
      else if target_folder_id = []
      then State_Monad.return (Inl (mk_error EC_InvalidConfiguration ''clone: target folder id not configured''))
      else do {
        progress \<leftarrow> dv_send D (dr_chat req) (headed ''Cloning'' @ ''<blockquote>Drive copy started.</blockquote>'');
        (case progress of
           Inl e \<Rightarrow> State_Monad.return (Inl e)
         | Inr msg \<Rightarrow> do {
             copied \<leftarrow> dv_copy D (extract_drive_id (dr_source_url req)) target_folder_id;
             (case copied of
                Inl e \<Rightarrow> do {
                  _ \<leftarrow> dv_edit D (dr_chat req) msg (failed_panel ''Clone Failed'' e);
                  State_Monad.return (Inl e)
                }
              | Inr new_id \<Rightarrow> do {
                  _ \<leftarrow> dv_edit D (dr_chat req) msg (drive_id_panel ''Cloned'' new_id);
                  State_Monad.return (Inr new_id)
                })
           })
      })"

definition count_execute :: "'w drive_deps \<Rightarrow> printer \<Rightarrow> drive_request \<Rightarrow> ('w, count_result res) state" where
  "count_execute D pr req =
     (if dr_source_url req = [] then State_Monad.return (Inl (mk_error EC_InvalidArgument ''count: empty source URL''))
      else do {
        progress \<leftarrow> dv_send D (dr_chat req) (headed ''Counting'' @ ''<blockquote>Drive folder scan started.</blockquote>'');
        (case progress of
           Inl e \<Rightarrow> State_Monad.return (Inl e)
         | Inr msg \<Rightarrow> do {
             counted \<leftarrow> dv_count D (extract_drive_id (dr_source_url req));
             (case counted of
                Inl e \<Rightarrow> do {
                  _ \<leftarrow> dv_edit D (dr_chat req) msg (failed_panel ''Count Failed'' e);
                  State_Monad.return (Inl e)
                }
              | Inr c \<Rightarrow> do {
                  _ \<leftarrow> dv_edit D (dr_chat req) msg (count_panel pr c);
                  State_Monad.return (Inr c)
                })
           })
      })"

definition delete_execute :: "'w drive_deps \<Rightarrow> drive_request \<Rightarrow> ('w, unit res) state" where
  "delete_execute D req =
     (if dr_source_url req = [] then State_Monad.return (Inl (mk_error EC_InvalidArgument ''delete: empty source URL''))
      else do {
        removed \<leftarrow> dv_remove D (extract_drive_id (dr_source_url req));
        (case removed of
           Inl e \<Rightarrow> do {
             _ \<leftarrow> dv_send D (dr_chat req) (failed_panel ''Delete Failed'' e);
             State_Monad.return (Inl e)
           }
         | Inr _ \<Rightarrow> do {
             _ \<leftarrow> dv_send D (dr_chat req) (drive_id_panel ''Deleted'' (extract_drive_id (dr_source_url req)));
             State_Monad.return (Inr ())
           })
      })"

subsection \<open>Lemmas on ids\<close>

lemma id_found:
  assumes "w \<noteq> []" "\<forall>c \<in> set w. id_char c" "s = [] \<or> \<not> id_char (hd s)"
  shows "rmatch captured_id k p (w @ s) = Some (tagged 1 w, s)"
proof -
  obtain c u where w: "w = c # u" using assms(1) by (cases w) auto
  have "rmatch (Star id_char # [Group 0]) 1 (Some c) (u @ s) = Some (tagged 1 u @ [], s)"
    using assms w by (intro rmatch_star) auto
  then show ?thesis using assms(2) w by simp
qed

lemma id_behind:
  assumes "w \<noteq> []" "\<forall>c \<in> set w. id_char c" "s = [] \<or> \<not> id_char (hd s)"
  shows "rmatch (lit b @ captured_id) k p (b @ w @ s) = Some (tagged k b @ tagged 1 w, s)"
  using id_found [OF assms] by (simp add: rmatch_lit)

text \<open>A search finds an id behind a text in which the pattern does not begin.\<close>

lemma search_id:
  assumes "opaque es a" "\<And>p. rmatch es 0 p (b @ w @ s) = Some (tagged 0 b @ tagged 1 w, s)" "b \<noteq> []"
  shows "\<exists>m. regex_search es (a @ b @ w @ s) = Some m \<and> capture 1 m = w"
proof -
  have "rsearch es p (b @ w @ s) = Some ([], tagged 0 b @ tagged 1 w, s)" for p
    using assms(2,3) by (cases "b @ w @ s") auto
  with assms(1) opaque_rsearch show ?thesis by (simp add: regex_search_def opaque_rsearch)
qed

lemma search_none: "opaque (One c # es) a \<Longrightarrow> regex_search (One c # es) a = None"
  by (simp add: regex_search_def opaque_none)

lemma drive_prefix: "opaque file_re ''https://drive.google.com''"
  unfolding file_re_def by (intro opaque_Cons opaque_Nil) simp_all

lemma folder_prefix: "opaque folder_re ''https://drive.google.com/drive''" "opaque file_re ''https://drive.google.com/drive/folders''"
  unfolding folder_re_def file_re_def by (intro opaque_Cons opaque_Nil; simp)+

lemma query_prefix: "opaque query_re ''https://drive.google.com/open''" "opaque file_re ''https://drive.google.com''"
  "opaque folder_re ''https://drive.google.com''"
  unfolding folder_re_def file_re_def query_re_def by (intro opaque_Cons opaque_Nil; simp)+

lemma lit_absent: "c \<in> set w \<Longrightarrow> c \<notin> set s \<Longrightarrow> rmatch (lit w @ es) k p s = None"
proof (induction w arbitrary: s p)
  case (Cons a w)
  then show ?case by (cases s) auto
qed simp

text \<open>No match starts at a last slash.\<close>

lemma last_slash:
  assumes "CHR ''/'' \<notin> set t"
  shows "rsearch (lit (CHR ''/'' # w @ ''/'') @ es) p (CHR ''/'' # t) = None"
proof -
  have "rmatch (lit (CHR ''/'' # w @ ''/'') @ es) 0 p (CHR ''/'' # t) = None"
    using lit_absent [of "CHR ''/''" "w @ ''/''" t] assms by simp
  moreover have "rsearch (lit (CHR ''/'' # w @ ''/'') @ es) (Some (CHR ''/'')) t = None"
    unfolding lit_simps append.simps using assms by (intro opaque_none opaque_clean) auto
  ultimately show ?thesis by simp
qed

lemma no_id_behind:
  assumes "opaque file_re a" "CHR ''/'' \<notin> set t"
  shows "regex_search file_re (a @ ''/'' @ t) = None"
proof -
  have "rsearch file_re p (''/'' @ t) = None" for p
    using last_slash [OF assms(2), of "''file/d''"] by (simp add: file_re_def)
  then show ?thesis using assms(1) by (simp add: regex_search_def opaque_rsearch)
qed

lemma no_folder_behind:
  assumes "opaque folder_re a" "CHR ''/'' \<notin> set t"
  shows "regex_search folder_re (a @ ''/'' @ t) = None"
proof -
  have "rsearch folder_re p (''/'' @ t) = None" for p
    using last_slash [OF assms(2), of "''folders''"] by (simp add: folder_re_def)
  then show ?thesis using assms(1) by (simp add: regex_search_def opaque_rsearch)
qed

lemma id_no_slash: "\<forall>c \<in> set w. id_char c \<Longrightarrow> CHR ''/'' \<notin> set w" "\<forall>c \<in> set w. id_char c \<Longrightarrow> CHR ''?'' \<notin> set w"
    "\<forall>c \<in> set w. id_char c \<Longrightarrow> CHR ''&'' \<notin> set w"
  by (auto simp: id_char_def is_alpha_char_def is_digit_def to_lower_def)

text \<open>
  The Drive id is found in every form of link the commands document: a file link with anything
  behind the id, a folder link and an \<open>open?id=\<close> link with parameters behind the id, and a bare id,
  which is taken as it is.
\<close>

theorem drive_id_extracted:
  assumes "w \<noteq> []" "\<forall>c \<in> set w. id_char c" "s = [] \<or> \<not> id_char (hd s)"
  shows "extract_drive_id (''https://drive.google.com/file/d/'' @ w @ s) = w \<and>
    (CHR ''/'' \<notin> set s \<longrightarrow> extract_drive_id (''https://drive.google.com/drive/folders/'' @ w @ s) = w) \<and>
    (CHR ''/'' \<notin> set s \<longrightarrow> extract_drive_id (''https://drive.google.com/open?id='' @ w @ s) = w) \<and>
    extract_drive_id w = w"
proof (intro conjI impI)
  have "\<exists>m. regex_search file_re (''https://drive.google.com'' @ ''/file/d/'' @ w @ s) = Some m \<and> capture 1 m = w"
    by (intro search_id drive_prefix) (use id_behind [OF assms] in \<open>simp_all only: file_re_def list.simps not_False_eq_True\<close>)
  then show "extract_drive_id (''https://drive.google.com/file/d/'' @ w @ s) = w"
    by (auto simp: extract_drive_id_def)
next
  assume slash: "CHR ''/'' \<notin> set s"
  have "regex_search file_re (''https://drive.google.com/drive/folders'' @ ''/'' @ w @ s) = None"
    using slash id_no_slash [OF assms(2)] by (intro no_id_behind folder_prefix) simp
  moreover have "\<exists>m. regex_search folder_re (''https://drive.google.com/drive'' @ ''/folders/'' @ w @ s) = Some m \<and> capture 1 m = w"
    by (intro search_id folder_prefix) (use id_behind [OF assms] in \<open>simp_all only: folder_re_def list.simps not_False_eq_True\<close>)
  ultimately show "extract_drive_id (''https://drive.google.com/drive/folders/'' @ w @ s) = w"
    by (auto simp: extract_drive_id_def)
  next
  assume slash: "CHR ''/'' \<notin> set s"
  have "regex_search file_re (''https://drive.google.com'' @ ''/'' @ (''open?id='' @ w @ s)) = None"
    "regex_search folder_re (''https://drive.google.com'' @ ''/'' @ (''open?id='' @ w @ s)) = None"
    using slash id_no_slash [OF assms(2)] by (intro no_id_behind no_folder_behind query_prefix; simp)+
  moreover have "rmatch query_re 0 p (''?id='' @ w @ s) = Some (tagged 0 ''?id='' @ tagged 1 w, s)" for p
    using id_behind [OF assms, of "''id=''"] by (simp add: query_re_def)
  then have "\<exists>m. regex_search query_re (''https://drive.google.com/open'' @ ''?id='' @ w @ s) = Some m \<and> capture 1 m = w"
    by (intro search_id query_prefix) simp_all
  ultimately show "extract_drive_id (''https://drive.google.com/open?id='' @ w @ s) = w"
    by (auto simp: extract_drive_id_def)
  next
  have "regex_search file_re w = None" "regex_search folder_re w = None" "regex_search query_re w = None"
    unfolding file_re_def folder_re_def query_re_def lit_simps append.simps
    using id_no_slash [OF assms(2)] by (intro search_none opaque_clean; auto)+
  then show "extract_drive_id w = w" by (simp add: extract_drive_id_def)
qed

theorem drive_id_extracted_witness:
  "extract_drive_id ''https://drive.google.com/file/d/1aB_-9/view'' = ''1aB_-9''"
  using drive_id_extracted [of "''1aB_-9''" "''/view''"]
  by (simp add: id_char_def is_alpha_char_def is_digit_def to_lower_def)

subsection \<open>What the commands do to the Drive\<close>

datatype drive_call = Sent chat_id | Edited chat_id message_id | Copied string string | Counted string | Removed string

definition record_call :: "drive_call \<Rightarrow> ('w, 'a) state \<Rightarrow> ('w \<times> drive_call list, 'a) state" where
  "record_call c m = State (\<lambda>(w, calls). case run_state m w of (a, w') \<Rightarrow> (a, w', calls @ [c]))"

text \<open>The same collaborators, with every call recorded.\<close>

definition recorded :: "'w drive_deps \<Rightarrow> ('w \<times> drive_call list) drive_deps" where
  "recorded D = \<lparr>dv_send = (\<lambda>c t. record_call (Sent c) (dv_send D c t)),
     dv_edit = (\<lambda>c m t. record_call (Edited c m) (dv_edit D c m t)),
     dv_copy = (\<lambda>i f. record_call (Copied i f) (dv_copy D i f)),
     dv_count = (\<lambda>i. record_call (Counted i) (dv_count D i)),
     dv_remove = (\<lambda>i. record_call (Removed i) (dv_remove D i))\<rparr>"

lemma run_recorded [run_simps]:
  "run_state (record_call c m) (w, calls) = (fst (run_state m w), snd (run_state m w), calls @ [c])"
  by (simp add: record_call_def split: prod.split)

text \<open>
  A Drive command acts once, on the resource its link names, and reports to the chat it came from.
  Deleting removes the extracted id and nothing else, and sends one message whatever the Drive
  answers; cloning and counting first announce themselves, do not touch the Drive when the announcement
  fails, else make one call on the extracted id and edit the announcement exactly once; an empty link
  makes no call at all.
\<close>

theorem drive_commands_act_once:
  "let i = extract_drive_id (dr_source_url req); c = dr_chat req; empty_link = (dr_source_url req = []) in
   (case run_state (delete_execute (recorded D) req) (w, []) of (r, _, made) \<Rightarrow>
      made = (if empty_link then [] else [Removed i, Sent c]) \<and>
      (r = Inr () \<longleftrightarrow> \<not> empty_link \<and> fst (run_state (dv_remove D i) w) = Inr ())) \<and>
   (case run_state (clone_execute (recorded D) folder req) (w, []) of (r, _, made) \<Rightarrow>
      (if empty_link \<or> folder = [] then made = [] \<and> (\<exists>e. r = Inl e)
       else made = [Sent c] \<and> (\<exists>e. r = Inl e) \<or> (\<exists>m. made = [Sent c, Copied i folder, Edited c m]))) \<and>
   (case run_state (count_execute (recorded D) pr req) (w, []) of (r, _, made) \<Rightarrow>
      (if empty_link then made = [] \<and> (\<exists>e. r = Inl e)
       else made = [Sent c] \<and> (\<exists>e. r = Inl e) \<or> (\<exists>m. made = [Sent c, Counted i, Edited c m])))"
  unfolding Let_def
  by (auto simp: delete_execute_def clone_execute_def count_execute_def recorded_def run_simps split: sum.split)

end
