(* ===== verification/Configuration.thy ===== *)
theory Configuration
  imports Complex_Main Errors
begin

text \<open>
  The configuration loader \<open>configuration.cpp\<close>: the sections of \<open>configuration.hpp\<close>, their reading from
  a JSON document, the overrides by \<open>CMLB_*\<close> environment variables and the validation. The JSON
  library is the parameter \<open>json_ops\<close> (look-up and typed \<open>get\<close>, whose failure is the exception's
  text); \<open>env\<close> is the environment, \<open>strtod\<close> the C function with its error checks. Paths are the strings
  they are made from; durations are counted in the unit of the field.
\<close>

subsection \<open>Sections\<close>

text \<open>A \<open>double\<close> as far as the validation looks at it.\<close>

datatype fp = NaN | Infinite bool | Finite rat

fun fp_negative :: "fp \<Rightarrow> bool" where
  "fp_negative NaN = False"
| "fp_negative (Infinite neg) = neg"
| "fp_negative (Finite x) = (x < 0)"

record telegram_config =
  tg_api_id :: int
  tg_api_hash :: string
  tg_bot_token :: string
  tg_database_directory :: string
  tg_owner_id :: int
  tg_sudo_users :: "int list"
  tg_authorized_chats :: "int list"
  tg_upload_chunk_size_kb :: int
  tg_download_chunk_size_kb :: int
  tg_connection_retry_count_max :: int
  tg_prefer_ipv6 :: bool
  tg_upload_parallelism :: int
  tg_upload_files_parallelism :: int

record aria2_config =
  ar_rpc_url :: string
  ar_secret :: string
  ar_max_concurrent_downloads :: int
  ar_request_timeout :: int
  ar_max_connection_per_server :: int
  ar_split :: int
  ar_min_split_size :: string
  ar_disk_cache :: string
  ar_max_tries :: int
  ar_retry_wait :: int
  ar_max_overall_download_limit :: int
  ar_max_overall_upload_limit :: int
  ar_enable_dht :: bool
  ar_enable_pex :: bool
  ar_bt_max_peers :: int
  ar_user_agent :: string

record qbittorrent_config =
  qb_url :: string
  qb_username :: string
  qb_password :: string
  qb_seed_ratio_limit :: fp
  qb_seed_time_limit :: int
  qb_max_active_downloads :: int
  qb_max_active_uploads :: int
  qb_max_active_torrents :: int
  qb_max_connections :: int
  qb_max_connections_per_torrent :: int
  qb_max_uploads :: int
  qb_max_uploads_per_torrent :: int
  qb_up_limit :: int
  qb_dl_limit :: int
  qb_dht :: bool
  qb_pex :: bool
  qb_lsd :: bool
  qb_anonymous_mode :: bool
  qb_async_io_threads :: int
  qb_disk_cache_mib :: int

record rclone_config =
  rc_executable :: string
  rc_config_path :: string
  rc_transfers :: int
  rc_checkers :: int
  rc_multi_thread_streams :: int
  rc_multi_thread_cutoff :: string
  rc_drive_chunk_size :: string
  rc_buffer_size :: string
  rc_use_mmap :: bool
  rc_fast_list :: bool
  rc_drive_acknowledge_abuse :: bool
  rc_log_level :: string
  rc_extra_args :: "string list"

record google_drive_config =
  gd_credentials_path :: string
  gd_parent_folder_id :: string
  gd_use_service_accounts :: bool
  gd_sa_folder :: string
  gd_chunk_size :: int
  gd_parallel_chunks_per_file :: int
  gd_parallel_files_per_directory :: int
  gd_max_retries :: int
  gd_initial_retry_delay :: int

record database_config =
  dc_path :: string
  dc_busy_timeout :: int
  dc_wal_mode :: bool

record logging_config =
  lc_logs_dir :: string
  lc_level :: string
  lc_console :: bool

record paths_config =
  pc_download_dir :: string
  pc_data_dir :: string

record app_config =
  cf_telegram :: telegram_config
  cf_aria2 :: aria2_config
  cf_qbittorrent :: qbittorrent_config
  cf_rclone :: rclone_config
  cf_google_drive :: google_drive_config
  cf_database :: database_config
  cf_logging :: logging_config
  cf_paths :: paths_config

definition default_telegram_config :: telegram_config where
  "default_telegram_config = \<lparr>tg_api_id = 0,
     tg_api_hash = [],
     tg_bot_token = [],
     tg_database_directory = ''tdlib'',
     tg_owner_id = 0,
     tg_sudo_users = [],
     tg_authorized_chats = [],
     tg_upload_chunk_size_kb = 2048,
     tg_download_chunk_size_kb = 1024,
     tg_connection_retry_count_max = 5,
     tg_prefer_ipv6 = False,
     tg_upload_parallelism = 4,
     tg_upload_files_parallelism = 2\<rparr>"

definition default_aria2_config :: aria2_config where
  "default_aria2_config = \<lparr>ar_rpc_url = ''ws://localhost:6800/jsonrpc'',
     ar_secret = [],
     ar_max_concurrent_downloads = 5,
     ar_request_timeout = 30,
     ar_max_connection_per_server = 16,
     ar_split = 16,
     ar_min_split_size = ''1M'',
     ar_disk_cache = ''128M'',
     ar_max_tries = 5,
     ar_retry_wait = 5,
     ar_max_overall_download_limit = 0,
     ar_max_overall_upload_limit = 0,
     ar_enable_dht = True,
     ar_enable_pex = True,
     ar_bt_max_peers = 55,
     ar_user_agent = ''aria2/1.37.0''\<rparr>"

definition default_qbittorrent_config :: qbittorrent_config where
  "default_qbittorrent_config = \<lparr>qb_url = ''http://localhost:8080'',
     qb_username = ''admin'',
     qb_password = [],
     qb_seed_ratio_limit = Finite 1,
     qb_seed_time_limit = 60,
     qb_max_active_downloads = 8,
     qb_max_active_uploads = 8,
     qb_max_active_torrents = 16,
     qb_max_connections = 500,
     qb_max_connections_per_torrent = 100,
     qb_max_uploads = 20,
     qb_max_uploads_per_torrent = 5,
     qb_up_limit = 0,
     qb_dl_limit = 0,
     qb_dht = True,
     qb_pex = True,
     qb_lsd = True,
     qb_anonymous_mode = False,
     qb_async_io_threads = 8,
     qb_disk_cache_mib = 256\<rparr>"

definition default_rclone_config :: rclone_config where
  "default_rclone_config = \<lparr>rc_executable = ''rclone'',
     rc_config_path = [],
     rc_transfers = 8,
     rc_checkers = 16,
     rc_multi_thread_streams = 4,
     rc_multi_thread_cutoff = ''250M'',
     rc_drive_chunk_size = ''64M'',
     rc_buffer_size = ''32M'',
     rc_use_mmap = True,
     rc_fast_list = True,
     rc_drive_acknowledge_abuse = True,
     rc_log_level = ''NOTICE'',
     rc_extra_args = []\<rparr>"

definition default_google_drive_config :: google_drive_config where
  "default_google_drive_config = \<lparr>gd_credentials_path = ''service_account.json'',
     gd_parent_folder_id = [],
     gd_use_service_accounts = True,
     gd_sa_folder = ''accounts'',
     gd_chunk_size = 8388608,
     gd_parallel_chunks_per_file = 4,
     gd_parallel_files_per_directory = 4,
     gd_max_retries = 6,
     gd_initial_retry_delay = 500\<rparr>"

definition default_database_config :: database_config where
  "default_database_config = \<lparr>dc_path = ''data/cmlb.db'',
     dc_busy_timeout = 5000,
     dc_wal_mode = True\<rparr>"

definition default_logging_config :: logging_config where
  "default_logging_config = \<lparr>lc_logs_dir = ''logs'',
     lc_level = ''info'',
     lc_console = True\<rparr>"

definition default_paths_config :: paths_config where
  "default_paths_config = \<lparr>pc_download_dir = ''downloads'',
     pc_data_dir = ''data''\<rparr>"

definition default_app_config :: app_config where
  "default_app_config = \<lparr>cf_telegram = default_telegram_config, cf_aria2 = default_aria2_config, cf_qbittorrent = default_qbittorrent_config, cf_rclone = default_rclone_config, cf_google_drive = default_google_drive_config, cf_database = default_database_config, cf_logging = default_logging_config, cf_paths = default_paths_config\<rparr>"

subsection \<open>Reading JSON\<close>

record 'j json_ops =
  jo_is_object :: "'j \<Rightarrow> bool"
  jo_find :: "'j \<Rightarrow> string \<Rightarrow> 'j option"
  jo_is_null :: "'j \<Rightarrow> bool"
  jo_int32 :: "'j \<Rightarrow> string + int"
  jo_int64 :: "'j \<Rightarrow> string + int"
  jo_size :: "'j \<Rightarrow> string + int"
  jo_bool :: "'j \<Rightarrow> string + bool"
  jo_double :: "'j \<Rightarrow> string + fp"
  jo_string :: "'j \<Rightarrow> string + string"
  jo_ids :: "'j \<Rightarrow> string + int list"
  jo_strings :: "'j \<Rightarrow> string + string list"

text \<open>A section being read, with the errors so far.\<close>

type_synonym 'c reading = "'c \<times> app_error list"

definition in_order :: "('a \<Rightarrow> 'a) list \<Rightarrow> 'a \<Rightarrow> 'a" where
  "in_order fs = fold (\<lambda>f. f) fs"

definition read_field ::
    "'j json_ops \<Rightarrow> 'j \<Rightarrow> string \<Rightarrow> ('j \<Rightarrow> string + 'v) \<Rightarrow> ('v \<Rightarrow> 'c \<Rightarrow> 'c) \<Rightarrow> 'c reading \<Rightarrow> 'c reading" where
  "read_field J obj key get_as store = (\<lambda>(c, errors).
     case jo_find J obj key of
       None \<Rightarrow> (c, errors)
     | Some v \<Rightarrow>
         if jo_is_null J v then (c, errors)
         else case get_as v of
           Inr x \<Rightarrow> (store x c, errors)
         | Inl what \<Rightarrow> (c, errors @ [mk_error EC_JsonParse (''field '' @ [CHR 0x27] @ key @ [CHR 0x27] @ '': '' @ what)]))"

definition section_of :: "'j json_ops \<Rightarrow> 'j \<Rightarrow> string \<Rightarrow> 'j option" where
  "section_of J doc key =
     (case jo_find J doc key of None \<Rightarrow> None | Some v \<Rightarrow> if jo_is_object J v then Some v else None)"

definition parse_telegram :: "'j json_ops \<Rightarrow> 'j \<Rightarrow> telegram_config reading \<Rightarrow> telegram_config reading" where
  "parse_telegram J obj = in_order [
     read_field J obj ''api_id'' (jo_int32 J) (\<lambda>v. tg_api_id_update (\<lambda>_. v)),
     read_field J obj ''api_hash'' (jo_string J) (\<lambda>v. tg_api_hash_update (\<lambda>_. v)),
     read_field J obj ''bot_token'' (jo_string J) (\<lambda>v. tg_bot_token_update (\<lambda>_. v)),
     read_field J obj ''database_directory'' (jo_string J) (\<lambda>v. tg_database_directory_update (\<lambda>_. v)),
     read_field J obj ''owner_id'' (jo_int64 J) (\<lambda>v. tg_owner_id_update (\<lambda>_. v)),
     read_field J obj ''sudo_users'' (jo_ids J) (\<lambda>v. tg_sudo_users_update (\<lambda>_. v)),
     read_field J obj ''authorized_chats'' (jo_ids J) (\<lambda>v. tg_authorized_chats_update (\<lambda>_. v)),
     read_field J obj ''upload_chunk_size_kb'' (jo_int32 J) (\<lambda>v. tg_upload_chunk_size_kb_update (\<lambda>_. v)),
     read_field J obj ''download_chunk_size_kb'' (jo_int32 J) (\<lambda>v. tg_download_chunk_size_kb_update (\<lambda>_. v)),
     read_field J obj ''connection_retry_count_max'' (jo_int32 J) (\<lambda>v. tg_connection_retry_count_max_update (\<lambda>_. v)),
     read_field J obj ''prefer_ipv6'' (jo_bool J) (\<lambda>v. tg_prefer_ipv6_update (\<lambda>_. v)),
     read_field J obj ''upload_parallelism'' (jo_int32 J) (\<lambda>v. tg_upload_parallelism_update (\<lambda>_. v)),
     read_field J obj ''upload_files_parallelism'' (jo_int32 J) (\<lambda>v. tg_upload_files_parallelism_update (\<lambda>_. v))]"

definition parse_aria2 :: "'j json_ops \<Rightarrow> 'j \<Rightarrow> aria2_config reading \<Rightarrow> aria2_config reading" where
  "parse_aria2 J obj = in_order [
     read_field J obj ''rpc_url'' (jo_string J) (\<lambda>v. ar_rpc_url_update (\<lambda>_. v)),
     read_field J obj ''secret'' (jo_string J) (\<lambda>v. ar_secret_update (\<lambda>_. v)),
     read_field J obj ''max_concurrent_downloads'' (jo_int32 J) (\<lambda>v. ar_max_concurrent_downloads_update (\<lambda>_. v)),
     read_field J obj ''request_timeout'' (jo_int64 J) (\<lambda>v. ar_request_timeout_update (\<lambda>_. v)),
     read_field J obj ''max_connection_per_server'' (jo_int32 J) (\<lambda>v. ar_max_connection_per_server_update (\<lambda>_. v)),
     read_field J obj ''split'' (jo_int32 J) (\<lambda>v. ar_split_update (\<lambda>_. v)),
     read_field J obj ''min_split_size'' (jo_string J) (\<lambda>v. ar_min_split_size_update (\<lambda>_. v)),
     read_field J obj ''disk_cache'' (jo_string J) (\<lambda>v. ar_disk_cache_update (\<lambda>_. v)),
     read_field J obj ''max_tries'' (jo_int32 J) (\<lambda>v. ar_max_tries_update (\<lambda>_. v)),
     read_field J obj ''retry_wait'' (jo_int64 J) (\<lambda>v. ar_retry_wait_update (\<lambda>_. v)),
     read_field J obj ''max_overall_download_limit'' (jo_int64 J) (\<lambda>v. ar_max_overall_download_limit_update (\<lambda>_. v)),
     read_field J obj ''max_overall_upload_limit'' (jo_int64 J) (\<lambda>v. ar_max_overall_upload_limit_update (\<lambda>_. v)),
     read_field J obj ''enable_dht'' (jo_bool J) (\<lambda>v. ar_enable_dht_update (\<lambda>_. v)),
     read_field J obj ''enable_pex'' (jo_bool J) (\<lambda>v. ar_enable_pex_update (\<lambda>_. v)),
     read_field J obj ''bt_max_peers'' (jo_int32 J) (\<lambda>v. ar_bt_max_peers_update (\<lambda>_. v)),
     read_field J obj ''user_agent'' (jo_string J) (\<lambda>v. ar_user_agent_update (\<lambda>_. v))]"

definition parse_qbittorrent :: "'j json_ops \<Rightarrow> 'j \<Rightarrow> qbittorrent_config reading \<Rightarrow> qbittorrent_config reading" where
  "parse_qbittorrent J obj = in_order [
     read_field J obj ''url'' (jo_string J) (\<lambda>v. qb_url_update (\<lambda>_. v)),
     read_field J obj ''username'' (jo_string J) (\<lambda>v. qb_username_update (\<lambda>_. v)),
     read_field J obj ''password'' (jo_string J) (\<lambda>v. qb_password_update (\<lambda>_. v)),
     read_field J obj ''seed_ratio_limit'' (jo_double J) (\<lambda>v. qb_seed_ratio_limit_update (\<lambda>_. v)),
     read_field J obj ''seed_time_limit'' (jo_int64 J) (\<lambda>v. qb_seed_time_limit_update (\<lambda>_. v)),
     read_field J obj ''max_active_downloads'' (jo_int32 J) (\<lambda>v. qb_max_active_downloads_update (\<lambda>_. v)),
     read_field J obj ''max_active_uploads'' (jo_int32 J) (\<lambda>v. qb_max_active_uploads_update (\<lambda>_. v)),
     read_field J obj ''max_active_torrents'' (jo_int32 J) (\<lambda>v. qb_max_active_torrents_update (\<lambda>_. v)),
     read_field J obj ''max_connections'' (jo_int32 J) (\<lambda>v. qb_max_connections_update (\<lambda>_. v)),
     read_field J obj ''max_connections_per_torrent'' (jo_int32 J) (\<lambda>v. qb_max_connections_per_torrent_update (\<lambda>_. v)),
     read_field J obj ''max_uploads'' (jo_int32 J) (\<lambda>v. qb_max_uploads_update (\<lambda>_. v)),
     read_field J obj ''max_uploads_per_torrent'' (jo_int32 J) (\<lambda>v. qb_max_uploads_per_torrent_update (\<lambda>_. v)),
     read_field J obj ''up_limit'' (jo_int64 J) (\<lambda>v. qb_up_limit_update (\<lambda>_. v)),
     read_field J obj ''dl_limit'' (jo_int64 J) (\<lambda>v. qb_dl_limit_update (\<lambda>_. v)),
     read_field J obj ''dht'' (jo_bool J) (\<lambda>v. qb_dht_update (\<lambda>_. v)),
     read_field J obj ''pex'' (jo_bool J) (\<lambda>v. qb_pex_update (\<lambda>_. v)),
     read_field J obj ''lsd'' (jo_bool J) (\<lambda>v. qb_lsd_update (\<lambda>_. v)),
     read_field J obj ''anonymous_mode'' (jo_bool J) (\<lambda>v. qb_anonymous_mode_update (\<lambda>_. v)),
     read_field J obj ''async_io_threads'' (jo_int32 J) (\<lambda>v. qb_async_io_threads_update (\<lambda>_. v)),
     read_field J obj ''disk_cache_mib'' (jo_int32 J) (\<lambda>v. qb_disk_cache_mib_update (\<lambda>_. v))]"

definition parse_rclone :: "'j json_ops \<Rightarrow> 'j \<Rightarrow> rclone_config reading \<Rightarrow> rclone_config reading" where
  "parse_rclone J obj = in_order [
     read_field J obj ''executable'' (jo_string J) (\<lambda>v. rc_executable_update (\<lambda>_. v)),
     (if jo_find J obj ''executable'' = None \<and> jo_find J obj ''path'' \<noteq> None
      then read_field J obj ''path'' (jo_string J) (\<lambda>v. rc_executable_update (\<lambda>_. v)) else id),
     read_field J obj ''config_path'' (jo_string J) (\<lambda>v. rc_config_path_update (\<lambda>_. v)),
     read_field J obj ''transfers'' (jo_int32 J) (\<lambda>v. rc_transfers_update (\<lambda>_. v)),
     read_field J obj ''checkers'' (jo_int32 J) (\<lambda>v. rc_checkers_update (\<lambda>_. v)),
     read_field J obj ''multi_thread_streams'' (jo_int32 J) (\<lambda>v. rc_multi_thread_streams_update (\<lambda>_. v)),
     read_field J obj ''multi_thread_cutoff'' (jo_string J) (\<lambda>v. rc_multi_thread_cutoff_update (\<lambda>_. v)),
     read_field J obj ''drive_chunk_size'' (jo_string J) (\<lambda>v. rc_drive_chunk_size_update (\<lambda>_. v)),
     read_field J obj ''buffer_size'' (jo_string J) (\<lambda>v. rc_buffer_size_update (\<lambda>_. v)),
     read_field J obj ''use_mmap'' (jo_bool J) (\<lambda>v. rc_use_mmap_update (\<lambda>_. v)),
     read_field J obj ''fast_list'' (jo_bool J) (\<lambda>v. rc_fast_list_update (\<lambda>_. v)),
     read_field J obj ''drive_acknowledge_abuse'' (jo_bool J) (\<lambda>v. rc_drive_acknowledge_abuse_update (\<lambda>_. v)),
     read_field J obj ''log_level'' (jo_string J) (\<lambda>v. rc_log_level_update (\<lambda>_. v)),
     read_field J obj ''extra_args'' (jo_strings J) (\<lambda>v. rc_extra_args_update (\<lambda>_. v))]"

definition parse_gdrive :: "'j json_ops \<Rightarrow> 'j \<Rightarrow> google_drive_config reading \<Rightarrow> google_drive_config reading" where
  "parse_gdrive J obj = in_order [
     read_field J obj ''credentials_path'' (jo_string J) (\<lambda>v. gd_credentials_path_update (\<lambda>_. v)),
     read_field J obj ''parent_folder_id'' (jo_string J) (\<lambda>v. gd_parent_folder_id_update (\<lambda>_. v)),
     read_field J obj ''use_service_accounts'' (jo_bool J) (\<lambda>v. gd_use_service_accounts_update (\<lambda>_. v)),
     read_field J obj ''sa_folder'' (jo_string J) (\<lambda>v. gd_sa_folder_update (\<lambda>_. v)),
     read_field J obj ''chunk_size'' (jo_size J) (\<lambda>v. gd_chunk_size_update (\<lambda>_. v)),
     read_field J obj ''parallel_chunks_per_file'' (jo_int32 J) (\<lambda>v. gd_parallel_chunks_per_file_update (\<lambda>_. v)),
     read_field J obj ''parallel_files_per_directory'' (jo_int32 J) (\<lambda>v. gd_parallel_files_per_directory_update (\<lambda>_. v)),
     read_field J obj ''max_retries'' (jo_int32 J) (\<lambda>v. gd_max_retries_update (\<lambda>_. v)),
     read_field J obj ''initial_retry_delay'' (jo_int64 J) (\<lambda>v. gd_initial_retry_delay_update (\<lambda>_. v))]"

definition parse_database :: "'j json_ops \<Rightarrow> 'j \<Rightarrow> database_config reading \<Rightarrow> database_config reading" where
  "parse_database J obj = in_order [
     read_field J obj ''path'' (jo_string J) (\<lambda>v. dc_path_update (\<lambda>_. v)),
     read_field J obj ''busy_timeout'' (jo_int64 J) (\<lambda>v. dc_busy_timeout_update (\<lambda>_. v)),
     read_field J obj ''wal_mode'' (jo_bool J) (\<lambda>v. dc_wal_mode_update (\<lambda>_. v))]"

definition parse_logging :: "'j json_ops \<Rightarrow> 'j \<Rightarrow> logging_config reading \<Rightarrow> logging_config reading" where
  "parse_logging J obj = in_order [
     read_field J obj ''logs_dir'' (jo_string J) (\<lambda>v. lc_logs_dir_update (\<lambda>_. v)),
     read_field J obj ''level'' (jo_string J) (\<lambda>v. lc_level_update (\<lambda>_. v)),
     read_field J obj ''console'' (jo_bool J) (\<lambda>v. lc_console_update (\<lambda>_. v))]"

definition parse_paths :: "'j json_ops \<Rightarrow> 'j \<Rightarrow> paths_config reading \<Rightarrow> paths_config reading" where
  "parse_paths J obj = in_order [
     read_field J obj ''download_dir'' (jo_string J) (\<lambda>v. pc_download_dir_update (\<lambda>_. v)),
     read_field J obj ''data_dir'' (jo_string J) (\<lambda>v. pc_data_dir_update (\<lambda>_. v))]"

subsection \<open>Environment overrides\<close>

text \<open>\<open>std::from_chars\<close> on the whole text, for the integer type with the given bounds.\<close>

definition parse_int :: "int \<Rightarrow> int \<Rightarrow> string \<Rightarrow> int option" where
  "parse_int lo hi s =
     (let neg = (lo < 0 \<and> s \<noteq> [] \<and> hd s = CHR ''-'');
          digits = (if neg then tl s else s);
          v = (if neg then - int (digits_val digits) else int (digits_val digits)) in
      if digits = [] \<or> \<not> list_all is_digit digits then None
      else if lo \<le> v \<and> v \<le> hi then Some v else None)"

definition parse_bool :: "string \<Rightarrow> bool option" where
  "parse_bool s =
     (if s \<in> set [''1'', ''true'', ''TRUE'', ''True'', ''yes'', ''on''] then Some True
      else if s \<in> set [''0'', ''false'', ''FALSE'', ''False'', ''no'', ''off''] then Some False
      else None)"

definition is_separator :: "char \<Rightarrow> bool" where
  "is_separator c = (c = CHR '','' \<or> c = CHR '' '' \<or> c = CHR 0x09)"

abbreviation "int32_min \<equiv> - 2147483648 :: int"
abbreviation "int32_max \<equiv> 2147483647 :: int"
abbreviation "int64_min \<equiv> - 9223372036854775808 :: int"
abbreviation "int64_max \<equiv> 9223372036854775807 :: int"
abbreviation "size_max \<equiv> 18446744073709551615 :: int"

function parse_id_list :: "string \<Rightarrow> int list" where
  "parse_id_list s =
     (let rest = dropWhile is_separator s; token = takeWhile (\<lambda>c. \<not> is_separator c) rest in
      if token = [] then []
      else (case parse_int int64_min int64_max token of None \<Rightarrow> [] | Some v \<Rightarrow> [v]) @
        parse_id_list (dropWhile (\<lambda>c. \<not> is_separator c) rest))"
  by auto
termination
proof (relation "measure length")
  fix s rest token :: string
  assume a: "rest = dropWhile is_separator s" "token = takeWhile (\<lambda>c. \<not> is_separator c) rest" "token \<noteq> []"
  have "length rest = length token + length (dropWhile (\<lambda>c. \<not> is_separator c) rest)"
    unfolding a(2) by (metis length_append takeWhile_dropWhile_id)
  moreover have "length rest \<le> length s" unfolding a(1) by (rule length_dropWhile_le)
  ultimately show "(dropWhile (\<lambda>c. \<not> is_separator c) rest, s) \<in> measure length"
    using a(3) by (cases token) auto
qed simp

declare parse_id_list.simps [simp del]

text \<open>An override: absent or malformed variables leave the section as it is.\<close>

definition env_apply :: "(string \<Rightarrow> 'v option) \<Rightarrow> (string \<Rightarrow> string option) \<Rightarrow> string \<Rightarrow> ('v \<Rightarrow> 'c \<Rightarrow> 'c) \<Rightarrow> 'c \<Rightarrow> 'c" where
  "env_apply parse_as env name store c =
     (case env name of
        None \<Rightarrow> c
      | Some v \<Rightarrow> (case parse_as v of Some x \<Rightarrow> store x c | None \<Rightarrow> c))"

definition env_int32 :: "(string \<Rightarrow> string option) \<Rightarrow> string \<Rightarrow> (int \<Rightarrow> 'c \<Rightarrow> 'c) \<Rightarrow> 'c \<Rightarrow> 'c" where
  "env_int32 = env_apply (parse_int int32_min int32_max)"

definition env_int64 :: "(string \<Rightarrow> string option) \<Rightarrow> string \<Rightarrow> (int \<Rightarrow> 'c \<Rightarrow> 'c) \<Rightarrow> 'c \<Rightarrow> 'c" where
  "env_int64 = env_apply (parse_int int64_min int64_max)"

definition env_size :: "(string \<Rightarrow> string option) \<Rightarrow> string \<Rightarrow> (int \<Rightarrow> 'c \<Rightarrow> 'c) \<Rightarrow> 'c \<Rightarrow> 'c" where
  "env_size = env_apply (parse_int 0 size_max)"

definition env_bool :: "(string \<Rightarrow> string option) \<Rightarrow> string \<Rightarrow> (bool \<Rightarrow> 'c \<Rightarrow> 'c) \<Rightarrow> 'c \<Rightarrow> 'c" where
  "env_bool = env_apply parse_bool"

definition env_double ::
    "(string \<Rightarrow> fp option) \<Rightarrow> (string \<Rightarrow> string option) \<Rightarrow> string \<Rightarrow> (fp \<Rightarrow> 'c \<Rightarrow> 'c) \<Rightarrow> 'c \<Rightarrow> 'c" where
  "env_double strtod = env_apply strtod"

definition env_string :: "(string \<Rightarrow> string option) \<Rightarrow> string \<Rightarrow> (string \<Rightarrow> 'c \<Rightarrow> 'c) \<Rightarrow> 'c \<Rightarrow> 'c" where
  "env_string = env_apply Some"

definition env_ids :: "(string \<Rightarrow> string option) \<Rightarrow> string \<Rightarrow> (int list \<Rightarrow> 'c \<Rightarrow> 'c) \<Rightarrow> 'c \<Rightarrow> 'c" where
  "env_ids = env_apply (\<lambda>s. Some (parse_id_list s))"

definition override_telegram :: "(string \<Rightarrow> fp option) \<Rightarrow> (string \<Rightarrow> string option) \<Rightarrow> telegram_config \<Rightarrow> telegram_config" where
  "override_telegram strtod env = in_order [
     env_int32 env ''CMLB_TELEGRAM_API_ID'' (\<lambda>v. tg_api_id_update (\<lambda>_. v)),
     env_string env ''CMLB_TELEGRAM_API_HASH'' (\<lambda>v. tg_api_hash_update (\<lambda>_. v)),
     env_string env ''CMLB_TELEGRAM_BOT_TOKEN'' (\<lambda>v. tg_bot_token_update (\<lambda>_. v)),
     env_string env ''CMLB_TELEGRAM_DATABASE_DIRECTORY'' (\<lambda>v. tg_database_directory_update (\<lambda>_. v)),
     env_int64 env ''CMLB_TELEGRAM_OWNER_ID'' (\<lambda>v. tg_owner_id_update (\<lambda>_. v)),
     env_ids env ''CMLB_TELEGRAM_SUDO_USERS'' (\<lambda>v. tg_sudo_users_update (\<lambda>_. v)),
     env_ids env ''CMLB_TELEGRAM_AUTHORIZED_CHATS'' (\<lambda>v. tg_authorized_chats_update (\<lambda>_. v)),
     env_int32 env ''CMLB_TELEGRAM_UPLOAD_CHUNK_SIZE_KB'' (\<lambda>v. tg_upload_chunk_size_kb_update (\<lambda>_. v)),
     env_int32 env ''CMLB_TELEGRAM_DOWNLOAD_CHUNK_SIZE_KB'' (\<lambda>v. tg_download_chunk_size_kb_update (\<lambda>_. v)),
     env_int32 env ''CMLB_TELEGRAM_CONNECTION_RETRY_COUNT_MAX'' (\<lambda>v. tg_connection_retry_count_max_update (\<lambda>_. v)),
     env_bool env ''CMLB_TELEGRAM_PREFER_IPV6'' (\<lambda>v. tg_prefer_ipv6_update (\<lambda>_. v)),
     env_int32 env ''CMLB_TELEGRAM_UPLOAD_PARALLELISM'' (\<lambda>v. tg_upload_parallelism_update (\<lambda>_. v)),
     env_int32 env ''CMLB_TELEGRAM_UPLOAD_FILES_PARALLELISM'' (\<lambda>v. tg_upload_files_parallelism_update (\<lambda>_. v))]"

definition override_aria2 :: "(string \<Rightarrow> fp option) \<Rightarrow> (string \<Rightarrow> string option) \<Rightarrow> aria2_config \<Rightarrow> aria2_config" where
  "override_aria2 strtod env = in_order [
     env_string env ''CMLB_ARIA2_RPC_URL'' (\<lambda>v. ar_rpc_url_update (\<lambda>_. v)),
     env_string env ''CMLB_ARIA2_SECRET'' (\<lambda>v. ar_secret_update (\<lambda>_. v)),
     env_int32 env ''CMLB_ARIA2_MAX_CONCURRENT_DOWNLOADS'' (\<lambda>v. ar_max_concurrent_downloads_update (\<lambda>_. v)),
     env_int64 env ''CMLB_ARIA2_REQUEST_TIMEOUT'' (\<lambda>v. ar_request_timeout_update (\<lambda>_. v)),
     env_int32 env ''CMLB_ARIA2_MAX_CONNECTION_PER_SERVER'' (\<lambda>v. ar_max_connection_per_server_update (\<lambda>_. v)),
     env_int32 env ''CMLB_ARIA2_SPLIT'' (\<lambda>v. ar_split_update (\<lambda>_. v)),
     env_string env ''CMLB_ARIA2_MIN_SPLIT_SIZE'' (\<lambda>v. ar_min_split_size_update (\<lambda>_. v)),
     env_string env ''CMLB_ARIA2_DISK_CACHE'' (\<lambda>v. ar_disk_cache_update (\<lambda>_. v)),
     env_int32 env ''CMLB_ARIA2_MAX_TRIES'' (\<lambda>v. ar_max_tries_update (\<lambda>_. v)),
     env_int64 env ''CMLB_ARIA2_RETRY_WAIT'' (\<lambda>v. ar_retry_wait_update (\<lambda>_. v)),
     env_int64 env ''CMLB_ARIA2_MAX_OVERALL_DOWNLOAD_LIMIT'' (\<lambda>v. ar_max_overall_download_limit_update (\<lambda>_. v)),
     env_int64 env ''CMLB_ARIA2_MAX_OVERALL_UPLOAD_LIMIT'' (\<lambda>v. ar_max_overall_upload_limit_update (\<lambda>_. v)),
     env_bool env ''CMLB_ARIA2_ENABLE_DHT'' (\<lambda>v. ar_enable_dht_update (\<lambda>_. v)),
     env_bool env ''CMLB_ARIA2_ENABLE_PEX'' (\<lambda>v. ar_enable_pex_update (\<lambda>_. v)),
     env_int32 env ''CMLB_ARIA2_BT_MAX_PEERS'' (\<lambda>v. ar_bt_max_peers_update (\<lambda>_. v)),
     env_string env ''CMLB_ARIA2_USER_AGENT'' (\<lambda>v. ar_user_agent_update (\<lambda>_. v))]"

definition override_qbittorrent :: "(string \<Rightarrow> fp option) \<Rightarrow> (string \<Rightarrow> string option) \<Rightarrow> qbittorrent_config \<Rightarrow> qbittorrent_config" where
  "override_qbittorrent strtod env = in_order [
     env_string env ''CMLB_QBITTORRENT_URL'' (\<lambda>v. qb_url_update (\<lambda>_. v)),
     env_string env ''CMLB_QBITTORRENT_USERNAME'' (\<lambda>v. qb_username_update (\<lambda>_. v)),
     env_string env ''CMLB_QBITTORRENT_PASSWORD'' (\<lambda>v. qb_password_update (\<lambda>_. v)),
     env_double strtod env ''CMLB_QBITTORRENT_SEED_RATIO_LIMIT'' (\<lambda>v. qb_seed_ratio_limit_update (\<lambda>_. v)),
     env_int64 env ''CMLB_QBITTORRENT_SEED_TIME_LIMIT'' (\<lambda>v. qb_seed_time_limit_update (\<lambda>_. v)),
     env_int32 env ''CMLB_QBITTORRENT_MAX_ACTIVE_DOWNLOADS'' (\<lambda>v. qb_max_active_downloads_update (\<lambda>_. v)),
     env_int32 env ''CMLB_QBITTORRENT_MAX_ACTIVE_UPLOADS'' (\<lambda>v. qb_max_active_uploads_update (\<lambda>_. v)),
     env_int32 env ''CMLB_QBITTORRENT_MAX_ACTIVE_TORRENTS'' (\<lambda>v. qb_max_active_torrents_update (\<lambda>_. v)),
     env_int32 env ''CMLB_QBITTORRENT_MAX_CONNECTIONS'' (\<lambda>v. qb_max_connections_update (\<lambda>_. v)),
     env_int32 env ''CMLB_QBITTORRENT_MAX_CONNECTIONS_PER_TORRENT'' (\<lambda>v. qb_max_connections_per_torrent_update (\<lambda>_. v)),
     env_int32 env ''CMLB_QBITTORRENT_MAX_UPLOADS'' (\<lambda>v. qb_max_uploads_update (\<lambda>_. v)),
     env_int32 env ''CMLB_QBITTORRENT_MAX_UPLOADS_PER_TORRENT'' (\<lambda>v. qb_max_uploads_per_torrent_update (\<lambda>_. v)),
     env_int64 env ''CMLB_QBITTORRENT_UP_LIMIT'' (\<lambda>v. qb_up_limit_update (\<lambda>_. v)),
     env_int64 env ''CMLB_QBITTORRENT_DL_LIMIT'' (\<lambda>v. qb_dl_limit_update (\<lambda>_. v)),
     env_bool env ''CMLB_QBITTORRENT_DHT'' (\<lambda>v. qb_dht_update (\<lambda>_. v)),
     env_bool env ''CMLB_QBITTORRENT_PEX'' (\<lambda>v. qb_pex_update (\<lambda>_. v)),
     env_bool env ''CMLB_QBITTORRENT_LSD'' (\<lambda>v. qb_lsd_update (\<lambda>_. v)),
     env_bool env ''CMLB_QBITTORRENT_ANONYMOUS_MODE'' (\<lambda>v. qb_anonymous_mode_update (\<lambda>_. v)),
     env_int32 env ''CMLB_QBITTORRENT_ASYNC_IO_THREADS'' (\<lambda>v. qb_async_io_threads_update (\<lambda>_. v)),
     env_int32 env ''CMLB_QBITTORRENT_DISK_CACHE_MIB'' (\<lambda>v. qb_disk_cache_mib_update (\<lambda>_. v))]"

definition override_rclone :: "(string \<Rightarrow> fp option) \<Rightarrow> (string \<Rightarrow> string option) \<Rightarrow> rclone_config \<Rightarrow> rclone_config" where
  "override_rclone strtod env = in_order [
     env_string env ''CMLB_RCLONE_EXECUTABLE'' (\<lambda>v. rc_executable_update (\<lambda>_. v)),
     env_string env ''CMLB_RCLONE_CONFIG_PATH'' (\<lambda>v. rc_config_path_update (\<lambda>_. v)),
     env_int32 env ''CMLB_RCLONE_TRANSFERS'' (\<lambda>v. rc_transfers_update (\<lambda>_. v)),
     env_int32 env ''CMLB_RCLONE_CHECKERS'' (\<lambda>v. rc_checkers_update (\<lambda>_. v)),
     env_int32 env ''CMLB_RCLONE_MULTI_THREAD_STREAMS'' (\<lambda>v. rc_multi_thread_streams_update (\<lambda>_. v)),
     env_string env ''CMLB_RCLONE_MULTI_THREAD_CUTOFF'' (\<lambda>v. rc_multi_thread_cutoff_update (\<lambda>_. v)),
     env_string env ''CMLB_RCLONE_DRIVE_CHUNK_SIZE'' (\<lambda>v. rc_drive_chunk_size_update (\<lambda>_. v)),
     env_string env ''CMLB_RCLONE_BUFFER_SIZE'' (\<lambda>v. rc_buffer_size_update (\<lambda>_. v)),
     env_bool env ''CMLB_RCLONE_USE_MMAP'' (\<lambda>v. rc_use_mmap_update (\<lambda>_. v)),
     env_bool env ''CMLB_RCLONE_FAST_LIST'' (\<lambda>v. rc_fast_list_update (\<lambda>_. v)),
     env_bool env ''CMLB_RCLONE_DRIVE_ACKNOWLEDGE_ABUSE'' (\<lambda>v. rc_drive_acknowledge_abuse_update (\<lambda>_. v)),
     env_string env ''CMLB_RCLONE_LOG_LEVEL'' (\<lambda>v. rc_log_level_update (\<lambda>_. v))]"

definition override_google_drive :: "(string \<Rightarrow> fp option) \<Rightarrow> (string \<Rightarrow> string option) \<Rightarrow> google_drive_config \<Rightarrow> google_drive_config" where
  "override_google_drive strtod env = in_order [
     env_string env ''CMLB_GOOGLE_DRIVE_CREDENTIALS_PATH'' (\<lambda>v. gd_credentials_path_update (\<lambda>_. v)),
     env_string env ''CMLB_GOOGLE_DRIVE_PARENT_FOLDER_ID'' (\<lambda>v. gd_parent_folder_id_update (\<lambda>_. v)),
     env_bool env ''CMLB_GOOGLE_DRIVE_USE_SERVICE_ACCOUNTS'' (\<lambda>v. gd_use_service_accounts_update (\<lambda>_. v)),
     env_string env ''CMLB_GOOGLE_DRIVE_SA_FOLDER'' (\<lambda>v. gd_sa_folder_update (\<lambda>_. v)),
     env_size env ''CMLB_GOOGLE_DRIVE_CHUNK_SIZE'' (\<lambda>v. gd_chunk_size_update (\<lambda>_. v)),
     env_int32 env ''CMLB_GOOGLE_DRIVE_PARALLEL_CHUNKS_PER_FILE'' (\<lambda>v. gd_parallel_chunks_per_file_update (\<lambda>_. v)),
     env_int32 env ''CMLB_GOOGLE_DRIVE_PARALLEL_FILES_PER_DIRECTORY'' (\<lambda>v. gd_parallel_files_per_directory_update (\<lambda>_. v)),
     env_int32 env ''CMLB_GOOGLE_DRIVE_MAX_RETRIES'' (\<lambda>v. gd_max_retries_update (\<lambda>_. v)),
     env_int64 env ''CMLB_GOOGLE_DRIVE_INITIAL_RETRY_DELAY_MS'' (\<lambda>v. gd_initial_retry_delay_update (\<lambda>_. v))]"

definition override_database :: "(string \<Rightarrow> fp option) \<Rightarrow> (string \<Rightarrow> string option) \<Rightarrow> database_config \<Rightarrow> database_config" where
  "override_database strtod env = in_order [
     env_string env ''CMLB_DATABASE_PATH'' (\<lambda>v. dc_path_update (\<lambda>_. v)),
     env_int64 env ''CMLB_DATABASE_BUSY_TIMEOUT'' (\<lambda>v. dc_busy_timeout_update (\<lambda>_. v)),
     env_bool env ''CMLB_DATABASE_WAL_MODE'' (\<lambda>v. dc_wal_mode_update (\<lambda>_. v))]"

definition override_logging :: "(string \<Rightarrow> fp option) \<Rightarrow> (string \<Rightarrow> string option) \<Rightarrow> logging_config \<Rightarrow> logging_config" where
  "override_logging strtod env = in_order [
     env_string env ''CMLB_LOGGING_LOGS_DIR'' (\<lambda>v. lc_logs_dir_update (\<lambda>_. v)),
     env_string env ''CMLB_LOGGING_LEVEL'' (\<lambda>v. lc_level_update (\<lambda>_. v)),
     env_bool env ''CMLB_LOGGING_CONSOLE'' (\<lambda>v. lc_console_update (\<lambda>_. v))]"

definition override_paths :: "(string \<Rightarrow> fp option) \<Rightarrow> (string \<Rightarrow> string option) \<Rightarrow> paths_config \<Rightarrow> paths_config" where
  "override_paths strtod env = in_order [
     env_string env ''CMLB_PATHS_DOWNLOAD_DIR'' (\<lambda>v. pc_download_dir_update (\<lambda>_. v)),
     env_string env ''CMLB_PATHS_DATA_DIR'' (\<lambda>v. pc_data_dir_update (\<lambda>_. v))]"

definition apply_env_overrides ::
    "(string \<Rightarrow> fp option) \<Rightarrow> (string \<Rightarrow> string option) \<Rightarrow> app_config \<Rightarrow> app_config" where
  "apply_env_overrides strtod env cfg =
     \<lparr>cf_telegram = override_telegram strtod env (cf_telegram cfg),
      cf_aria2 = override_aria2 strtod env (cf_aria2 cfg),
      cf_qbittorrent = override_qbittorrent strtod env (cf_qbittorrent cfg),
      cf_rclone = override_rclone strtod env (cf_rclone cfg),
      cf_google_drive = override_google_drive strtod env (cf_google_drive cfg),
      cf_database = override_database strtod env (cf_database cfg),
      cf_logging = override_logging strtod env (cf_logging cfg),
      cf_paths = override_paths strtod env (cf_paths cfg)\<rparr>"

subsection \<open>Validation\<close>

definition has_prefix :: "string \<Rightarrow> string \<Rightarrow> bool" where
  "has_prefix p s = (take (length p) s = p)"

definition quoted :: "string \<Rightarrow> string" where
  "quoted s = [CHR 0x27] @ s @ [CHR 0x27]"

definition bad :: "string \<Rightarrow> app_error" where
  "bad msg = mk_error EC_InvalidConfiguration msg"

definition qbit_pos :: "string \<Rightarrow> int \<Rightarrow> app_error list" where
  "qbit_pos name v = (if v < 1 then [bad (''qbittorrent.'' @ name @ '' must be >= 1'')] else [])"

definition kMinChunk :: int where
  "kMinChunk = 256 * 1024"

definition kMaxChunk :: int where
  "kMaxChunk = 512 * 1024 * 1024"

definition validate_telegram :: "app_config \<Rightarrow> app_error list" where
  "validate_telegram cfg = concat [
     if tg_api_id (cf_telegram cfg) = 0
      then [bad ''telegram.api_id must be non-zero''] else [],
     if tg_api_hash (cf_telegram cfg) = []
      then [bad ''telegram.api_hash must not be empty''] else [],
     if tg_owner_id (cf_telegram cfg) = 0
      then [bad ''telegram.owner_id must be non-zero''] else [],
     if tg_bot_token (cf_telegram cfg) = []
      then [bad ''telegram.bot_token must not be empty''] else [],
     if tg_upload_chunk_size_kb (cf_telegram cfg) < 1 \<or> 65536 < tg_upload_chunk_size_kb (cf_telegram cfg)
      then [bad ''telegram.upload_chunk_size_kb must be in [1, 65536]''] else [],
     if tg_download_chunk_size_kb (cf_telegram cfg) < 1 \<or> 65536 < tg_download_chunk_size_kb (cf_telegram cfg)
      then [bad ''telegram.download_chunk_size_kb must be in [1, 65536]''] else [],
     if tg_connection_retry_count_max (cf_telegram cfg) < 0
      then [bad ''telegram.connection_retry_count_max must be >= 0''] else [],
     if tg_upload_parallelism (cf_telegram cfg) < 1 \<or> 32 < tg_upload_parallelism (cf_telegram cfg)
      then [bad ''telegram.upload_parallelism must be in [1, 32]''] else [],
     if tg_upload_files_parallelism (cf_telegram cfg) < 1 \<or> 32 < tg_upload_files_parallelism (cf_telegram cfg)
      then [bad ''telegram.upload_files_parallelism must be in [1, 32]''] else []]"

definition validate_aria2 :: "app_config \<Rightarrow> app_error list" where
  "validate_aria2 cfg = concat [
     if ar_rpc_url (cf_aria2 cfg) = [] then [bad ''aria2.rpc_url must not be empty'']
      else if \<not> has_prefix ''ws://'' (ar_rpc_url (cf_aria2 cfg)) \<and> \<not> has_prefix ''wss://'' (ar_rpc_url (cf_aria2 cfg))
      then [bad ''aria2.rpc_url must start with ws:// or wss://''] else [],
     if ar_max_concurrent_downloads (cf_aria2 cfg) \<le> 0
      then [bad ''aria2.max_concurrent_downloads must be positive''] else [],
     if ar_request_timeout (cf_aria2 cfg) \<le> 0
      then [bad ''aria2.request_timeout must be positive''] else [],
     if ar_max_connection_per_server (cf_aria2 cfg) < 1 \<or> 16 < ar_max_connection_per_server (cf_aria2 cfg)
      then [bad ''aria2.max_connection_per_server must be in [1, 16]''] else [],
     if ar_split (cf_aria2 cfg) < 1 \<or> 16 < ar_split (cf_aria2 cfg)
      then [bad ''aria2.split must be in [1, 16]''] else [],
     if ar_max_tries (cf_aria2 cfg) < 0
      then [bad ''aria2.max_tries must be >= 0''] else [],
     if ar_retry_wait (cf_aria2 cfg) < 0
      then [bad ''aria2.retry_wait must be >= 0''] else [],
     if ar_bt_max_peers (cf_aria2 cfg) < 1
      then [bad ''aria2.bt_max_peers must be >= 1''] else [],
     if ar_max_overall_download_limit (cf_aria2 cfg) < 0
      then [bad ''aria2.max_overall_download_limit must be >= 0''] else [],
     if ar_max_overall_upload_limit (cf_aria2 cfg) < 0
      then [bad ''aria2.max_overall_upload_limit must be >= 0''] else []]"

definition validate_qbittorrent :: "app_config \<Rightarrow> app_error list" where
  "validate_qbittorrent cfg = concat [
     if qb_url (cf_qbittorrent cfg) = [] then [bad ''qbittorrent.url must not be empty'']
      else if \<not> has_prefix ''http://'' (qb_url (cf_qbittorrent cfg)) \<and> \<not> has_prefix ''https://'' (qb_url (cf_qbittorrent cfg))
      then [bad (''qbittorrent.url must start with http:// or https:// (got '' @ quoted (qb_url (cf_qbittorrent cfg)) @ '')'')] else [],
     if fp_negative (qb_seed_ratio_limit (cf_qbittorrent cfg))
      then [bad ''qbittorrent.seed_ratio_limit must be >= 0''] else [],
     if qb_seed_time_limit (cf_qbittorrent cfg) < 0
      then [bad ''qbittorrent.seed_time_limit must be >= 0''] else [],
     qbit_pos ''max_active_downloads'' (qb_max_active_downloads (cf_qbittorrent cfg)),
     qbit_pos ''max_active_uploads'' (qb_max_active_uploads (cf_qbittorrent cfg)),
     qbit_pos ''max_active_torrents'' (qb_max_active_torrents (cf_qbittorrent cfg)),
     qbit_pos ''max_connections'' (qb_max_connections (cf_qbittorrent cfg)),
     qbit_pos ''max_connections_per_torrent'' (qb_max_connections_per_torrent (cf_qbittorrent cfg)),
     qbit_pos ''max_uploads'' (qb_max_uploads (cf_qbittorrent cfg)),
     qbit_pos ''max_uploads_per_torrent'' (qb_max_uploads_per_torrent (cf_qbittorrent cfg)),
     qbit_pos ''async_io_threads'' (qb_async_io_threads (cf_qbittorrent cfg)),
     if qb_disk_cache_mib (cf_qbittorrent cfg) < - 1
      then [bad ''qbittorrent.disk_cache_mib must be -1 or >= 0''] else [],
     if qb_up_limit (cf_qbittorrent cfg) < - 1
      then [bad ''qbittorrent.up_limit must be -1 (unlimited), 0 (qBit default), or > 0 (bytes/sec)''] else [],
     if qb_dl_limit (cf_qbittorrent cfg) < - 1
      then [bad ''qbittorrent.dl_limit must be -1 (unlimited), 0 (qBit default), or > 0 (bytes/sec)''] else []]"

definition validate_rclone :: "app_config \<Rightarrow> app_error list" where
  "validate_rclone cfg = concat [
     if rc_transfers (cf_rclone cfg) < 1 \<or> 64 < rc_transfers (cf_rclone cfg)
      then [bad ''rclone.transfers must be in [1, 64]''] else [],
     if rc_checkers (cf_rclone cfg) < 1 \<or> 256 < rc_checkers (cf_rclone cfg)
      then [bad ''rclone.checkers must be in [1, 256]''] else [],
     if rc_multi_thread_streams (cf_rclone cfg) < 1 \<or> 64 < rc_multi_thread_streams (cf_rclone cfg)
      then [bad ''rclone.multi_thread_streams must be in [1, 64]''] else [],
     if rc_log_level (cf_rclone cfg) \<notin> set [''DEBUG'', ''INFO'', ''NOTICE'', ''ERROR'']
      then [bad (''rclone.log_level must be one of DEBUG, INFO, NOTICE, ERROR (got '' @ quoted (rc_log_level (cf_rclone cfg)) @ '')'')] else []]"

definition validate_google_drive :: "app_config \<Rightarrow> app_error list" where
  "validate_google_drive cfg = concat [
     if gd_chunk_size (cf_google_drive cfg) < kMinChunk \<or> kMaxChunk < gd_chunk_size (cf_google_drive cfg)
      then [bad ''google_drive.chunk_size must be in [256 KiB, 512 MiB]''] else [],
     if gd_chunk_size (cf_google_drive cfg) mod kMinChunk \<noteq> 0
      then [bad ''google_drive.chunk_size must be a multiple of 256 KiB''] else [],
     if gd_parallel_chunks_per_file (cf_google_drive cfg) < 1 \<or> 64 < gd_parallel_chunks_per_file (cf_google_drive cfg)
      then [bad ''google_drive.parallel_chunks_per_file must be in [1, 64]''] else [],
     if gd_parallel_files_per_directory (cf_google_drive cfg) < 1 \<or> 64 < gd_parallel_files_per_directory (cf_google_drive cfg)
      then [bad ''google_drive.parallel_files_per_directory must be in [1, 64]''] else [],
     if gd_max_retries (cf_google_drive cfg) < 0
      then [bad ''google_drive.max_retries must be >= 0''] else [],
     if gd_initial_retry_delay (cf_google_drive cfg) < 0
      then [bad ''google_drive.initial_retry_delay must be >= 0''] else []]"

definition validate_host :: "app_config \<Rightarrow> app_error list" where
  "validate_host cfg = concat [
     if dc_path (cf_database cfg) = []
      then [bad ''database.path must not be empty''] else [],
     if dc_busy_timeout (cf_database cfg) < 0 then [bad ''database.busy_timeout must be >= 0'']
      else if 60000 < dc_busy_timeout (cf_database cfg)
      then [bad (''database.busy_timeout must be <= 60000 ms (longer waits indicate a deeper deadlock; raise '' @
        ''deliberately if absolutely required)'')] else [],
     case parse_log_level (lc_level (cf_logging cfg)) of Inr _ \<Rightarrow> []
      | Inl _ \<Rightarrow> [bad (''logging.level is not a recognized level: '' @ lc_level (cf_logging cfg))],
     if lc_logs_dir (cf_logging cfg) = []
      then [bad ''logging.logs_dir must not be empty''] else [],
     if pc_download_dir (cf_paths cfg) = []
      then [bad ''paths.download_dir must not be empty''] else [],
     if pc_data_dir (cf_paths cfg) = []
      then [bad ''paths.data_dir must not be empty''] else []]"

definition validate :: "app_config \<Rightarrow> app_error list" where
  "validate cfg =
     validate_telegram cfg @ validate_aria2 cfg @ validate_qbittorrent cfg @ validate_rclone cfg @ validate_google_drive cfg @ validate_host cfg"

subsection \<open>Loading\<close>

definition parse_sections :: "'j json_ops \<Rightarrow> 'j \<Rightarrow> app_config reading" where
  "parse_sections J doc =
     (case (case section_of J doc ''telegram'' of None \<Rightarrow> (default_telegram_config, []) | Some s \<Rightarrow> parse_telegram J s (default_telegram_config, [])) of (tg, e1) \<Rightarrow>
      (case (case section_of J doc ''aria2'' of None \<Rightarrow> (default_aria2_config, e1) | Some s \<Rightarrow> parse_aria2 J s (default_aria2_config, e1)) of (ar, e2) \<Rightarrow>
      (case (case section_of J doc ''qbittorrent'' of None \<Rightarrow> (default_qbittorrent_config, e2) | Some s \<Rightarrow> parse_qbittorrent J s (default_qbittorrent_config, e2)) of (qb, e3) \<Rightarrow>
      (case (case section_of J doc ''rclone'' of None \<Rightarrow> (default_rclone_config, e3) | Some s \<Rightarrow> parse_rclone J s (default_rclone_config, e3)) of (rc, e4) \<Rightarrow>
      (case (case section_of J doc ''google_drive'' of
               Some s \<Rightarrow> parse_gdrive J s (default_google_drive_config, e4)
             | None \<Rightarrow> (case section_of J doc ''gdrive'' of None \<Rightarrow> (default_google_drive_config, e4)
                        | Some s \<Rightarrow> parse_gdrive J s (default_google_drive_config, e4))) of (gd, e5) \<Rightarrow>
      (case (case section_of J doc ''database'' of None \<Rightarrow> (default_database_config, e5) | Some s \<Rightarrow> parse_database J s (default_database_config, e5)) of (dc, e6) \<Rightarrow>
      (case (case section_of J doc ''logging'' of None \<Rightarrow> (default_logging_config, e6) | Some s \<Rightarrow> parse_logging J s (default_logging_config, e6)) of (lc, e7) \<Rightarrow>
      (case (case section_of J doc ''paths'' of None \<Rightarrow> (default_paths_config, e7) | Some s \<Rightarrow> parse_paths J s (default_paths_config, e7)) of (pc, e8) \<Rightarrow>
        (\<lparr>cf_telegram = tg, cf_aria2 = ar, cf_qbittorrent = qb, cf_rclone = rc, cf_google_drive = gd, cf_database = dc,
          cf_logging = lc, cf_paths = pc\<rparr>, e8)))))))))"

text \<open>The top-level aliases of older files; their errors are dropped.\<close>

definition legacy_text :: "'j json_ops \<Rightarrow> 'j \<Rightarrow> string \<Rightarrow> string" where
  "legacy_text J doc key = fst (read_field J doc key (jo_string J) (\<lambda>v _. v) ([], []))"

definition apply_legacy :: "'j json_ops \<Rightarrow> 'j \<Rightarrow> app_config \<Rightarrow> app_config" where
  "apply_legacy J doc cfg =
     (let dl = legacy_text J doc ''download_dir''; level = legacy_text J doc ''log_level'';
          cfg = (if dl = [] then cfg else cfg\<lparr>cf_paths := (cf_paths cfg)\<lparr>pc_download_dir := dl\<rparr>\<rparr>) in
      if level = [] then cfg else cfg\<lparr>cf_logging := (cf_logging cfg)\<lparr>lc_level := level\<rparr>\<rparr>)"

definition error_line :: "app_error \<Rightarrow> string" where
  "error_line e = ''['' @ error_code_name (err_code e) @ ''] '' @ err_message e"

fun join_lines :: "string list \<Rightarrow> string" where
  "join_lines [] = []"
| "join_lines [l] = l"
| "join_lines (l # ls) = l @ newline @ join_lines ls"

definition from_json ::
    "'j json_ops \<Rightarrow> (string \<Rightarrow> fp option) \<Rightarrow> (string \<Rightarrow> string option) \<Rightarrow> 'j \<Rightarrow> app_config res" where
  "from_json J strtod env doc =
     (if \<not> jo_is_object J doc then Inl (mk_error EC_InvalidConfiguration ''root of config JSON must be an object'')
      else case parse_sections J doc of (cfg, parse_errors) \<Rightarrow>
        (let cfg = apply_env_overrides strtod env (apply_legacy J doc cfg);
             errors = parse_errors @ validate cfg in
         if errors \<noteq> [] then Inl (mk_error EC_InvalidConfiguration (join_lines (map error_line errors)))
         else Inr cfg))"

text \<open>
  \<open>open_file\<close> is the file's text, \<open>None\<close> when it cannot be opened and \<open>Some None\<close> when reading fails; the
  text is checked by one JSON parser and read by another, each with its own error text.
\<close>

definition load ::
    "'j json_ops \<Rightarrow> (string \<Rightarrow> fp option) \<Rightarrow> (string \<Rightarrow> string option) \<Rightarrow> (string \<Rightarrow> string option option) \<Rightarrow>
     (string \<Rightarrow> string option) \<Rightarrow> (string \<Rightarrow> string + 'j) \<Rightarrow> string \<Rightarrow> app_config res" where
  "load J strtod env open_file precheck parse_json path =
     (case open_file path of
        None \<Rightarrow> Inl (mk_error EC_FileSystem (''cannot open config file: '' @ path))
      | Some None \<Rightarrow> Inl (mk_error EC_Io (''failed to read '' @ path))
      | Some (Some contents) \<Rightarrow>
          (case precheck contents of
             Some what \<Rightarrow> Inl (mk_error EC_JsonParse (''JSON parse error in '' @ path @ '': '' @ what))
           | None \<Rightarrow>
               (case parse_json contents of
                  Inl what \<Rightarrow> Inl (mk_error EC_JsonParse (''JSON parse error in '' @ path @ '': '' @ what))
                | Inr doc \<Rightarrow> from_json J strtod env doc)))"

subsection \<open>What a configuration that was accepted satisfies\<close>

definition telegram_ok :: "telegram_config \<Rightarrow> bool" where
  "telegram_ok c = (tg_api_id c \<noteq> 0 \<and> tg_api_hash c \<noteq> [] \<and> tg_owner_id c \<noteq> 0 \<and> tg_bot_token c \<noteq> [] \<and>
     tg_upload_chunk_size_kb c \<in> {1..65536} \<and> tg_download_chunk_size_kb c \<in> {1..65536} \<and>
     0 \<le> tg_connection_retry_count_max c \<and> tg_upload_parallelism c \<in> {1..32} \<and> tg_upload_files_parallelism c \<in> {1..32})"

definition aria2_ok :: "aria2_config \<Rightarrow> bool" where
  "aria2_ok c = ((has_prefix ''ws://'' (ar_rpc_url c) \<or> has_prefix ''wss://'' (ar_rpc_url c)) \<and>
     0 < ar_max_concurrent_downloads c \<and> 0 < ar_request_timeout c \<and> ar_max_connection_per_server c \<in> {1..16} \<and>
     ar_split c \<in> {1..16} \<and> 0 \<le> ar_max_tries c \<and> 0 \<le> ar_retry_wait c \<and> 1 \<le> ar_bt_max_peers c \<and>
     0 \<le> ar_max_overall_download_limit c \<and> 0 \<le> ar_max_overall_upload_limit c)"

definition qbittorrent_ok :: "qbittorrent_config \<Rightarrow> bool" where
  "qbittorrent_ok c = ((has_prefix ''http://'' (qb_url c) \<or> has_prefix ''https://'' (qb_url c)) \<and>
     \<not> fp_negative (qb_seed_ratio_limit c) \<and> 0 \<le> qb_seed_time_limit c \<and>
     (\<forall>n \<in> {qb_max_active_downloads c, qb_max_active_uploads c, qb_max_active_torrents c, qb_max_connections c,
        qb_max_connections_per_torrent c, qb_max_uploads c, qb_max_uploads_per_torrent c, qb_async_io_threads c}. 1 \<le> n) \<and>
     - 1 \<le> qb_disk_cache_mib c \<and> - 1 \<le> qb_up_limit c \<and> - 1 \<le> qb_dl_limit c)"

definition rclone_ok :: "rclone_config \<Rightarrow> bool" where
  "rclone_ok c = (rc_transfers c \<in> {1..64} \<and> rc_checkers c \<in> {1..256} \<and> rc_multi_thread_streams c \<in> {1..64} \<and>
     rc_log_level c \<in> {''DEBUG'', ''INFO'', ''NOTICE'', ''ERROR''})"

definition google_drive_ok :: "google_drive_config \<Rightarrow> bool" where
  "google_drive_ok c = (gd_chunk_size c \<in> {262144..536870912} \<and> 262144 dvd gd_chunk_size c \<and>
     gd_parallel_chunks_per_file c \<in> {1..64} \<and> gd_parallel_files_per_directory c \<in> {1..64} \<and>
     0 \<le> gd_max_retries c \<and> 0 \<le> gd_initial_retry_delay c)"

definition host_ok :: "app_config \<Rightarrow> bool" where
  "host_ok c = (dc_path (cf_database c) \<noteq> [] \<and> dc_busy_timeout (cf_database c) \<in> {0..60000} \<and>
     (\<exists>l. parse_log_level (lc_level (cf_logging c)) = Inr l) \<and> lc_logs_dir (cf_logging c) \<noteq> [] \<and>
     pc_download_dir (cf_paths c) \<noteq> [] \<and> pc_data_dir (cf_paths c) \<noteq> [])"

definition config_ok :: "app_config \<Rightarrow> bool" where
  "config_ok c = (telegram_ok (cf_telegram c) \<and> aria2_ok (cf_aria2 c) \<and> qbittorrent_ok (cf_qbittorrent c) \<and>
     rclone_ok (cf_rclone c) \<and> google_drive_ok (cf_google_drive c) \<and> host_ok c)"

lemma if_nil [simp]: "(if b then [x] else []) = [] \<longleftrightarrow> \<not> b"
  by simp

lemma has_prefix_Nil: "has_prefix p [] \<longleftrightarrow> p = []"
  by (auto simp: has_prefix_def)

lemma validate_telegram_iff: "validate_telegram c = [] \<longleftrightarrow> telegram_ok (cf_telegram c)"
  unfolding validate_telegram_def telegram_ok_def concat_eq_Nil_conv by (auto simp del: if_split)

lemma validate_aria2_iff: "validate_aria2 c = [] \<longleftrightarrow> aria2_ok (cf_aria2 c)"
  unfolding validate_aria2_def aria2_ok_def concat_eq_Nil_conv by (auto simp: has_prefix_Nil)

lemma validate_qbittorrent_iff: "validate_qbittorrent c = [] \<longleftrightarrow> qbittorrent_ok (cf_qbittorrent c)"
  unfolding validate_qbittorrent_def qbittorrent_ok_def concat_eq_Nil_conv qbit_pos_def by (auto simp: has_prefix_Nil)

lemma validate_rclone_iff: "validate_rclone c = [] \<longleftrightarrow> rclone_ok (cf_rclone c)"
  unfolding validate_rclone_def rclone_ok_def concat_eq_Nil_conv by auto

lemma validate_google_drive_iff: "validate_google_drive c = [] \<longleftrightarrow> google_drive_ok (cf_google_drive c)"
  unfolding validate_google_drive_def google_drive_ok_def concat_eq_Nil_conv
  by (auto simp: kMinChunk_def kMaxChunk_def dvd_eq_mod_eq_0)

lemma validate_host_iff: "validate_host c = [] \<longleftrightarrow> host_ok c"
  unfolding validate_host_def host_ok_def concat_eq_Nil_conv by (auto split: sum.splits)

lemma validate_iff: "validate c = [] \<longleftrightarrow> config_ok c"
  by (simp add: validate_def config_ok_def validate_telegram_iff validate_aria2_iff validate_qbittorrent_iff
      validate_rclone_iff validate_google_drive_iff validate_host_iff)

subsection \<open>Numbers in the environment\<close>

lemma parse_int_bounds: "parse_int lo hi s = Some v \<Longrightarrow> lo \<le> v \<and> v \<le> hi"
  by (auto simp: parse_int_def Let_def split: if_splits)

lemma nat_digits_all: "list_all is_digit (nat_digits n)"
  using nat_digits_digits by (auto simp: list_all_iff)

lemma minus_not_digit: "\<not> is_digit (CHR ''-'')"
  by (simp add: is_digit_def)

lemma nat_digits_hd: "hd (nat_digits n) \<noteq> CHR ''-''"
  using nat_digits_digits [of "hd (nat_digits n)" n] minus_not_digit by (metis hd_in_set nat_digits_nonempty)

lemma parse_int_roundtrip:
  assumes "lo \<le> v" "v \<le> hi" "0 \<le> hi"
  shows "parse_int lo hi (int_to_string v) = Some v"
  using assms by (auto simp: parse_int_def int_to_string_def Let_def nat_digits_all nat_digits_hd)

fun join_ids :: "int list \<Rightarrow> string" where
  "join_ids [] = []"
| "join_ids [i] = int_to_string i"
| "join_ids (i # is) = int_to_string i @ '','' @ join_ids is"

lemma int_token: "list_all (\<lambda>c. \<not> is_separator c) (int_to_string i)"
proof -
  have "is_digit c \<Longrightarrow> \<not> is_separator c" for c by (auto simp: is_digit_def is_separator_def)
  then have "list_all (\<lambda>c. \<not> is_separator c) (nat_digits n)" for n using nat_digits_digits by (auto simp: list_all_iff)
  then show ?thesis by (simp add: int_to_string_def is_separator_def)
qed

lemma int_to_string_nonempty [simp]: "int_to_string i \<noteq> []"
  by (simp add: int_to_string_def)

lemma parse_id_list_token:
  assumes "list_all (\<lambda>c. \<not> is_separator c) t" "t \<noteq> []" "s = [] \<or> is_separator (hd s)"
  shows "parse_id_list (t @ s) =
    (case parse_int int64_min int64_max t of None \<Rightarrow> [] | Some v \<Rightarrow> [v]) @ parse_id_list s"
proof -
  have "dropWhile is_separator (t @ s) = t @ s" using assms(1,2) by (cases t) auto
  moreover have "takeWhile (\<lambda>c. \<not> is_separator c) (t @ s) = t"
    using assms(1,3) by (cases s) (auto simp: list_all_iff takeWhile_append2)
  moreover have "dropWhile (\<lambda>c. \<not> is_separator c) (t @ s) = s"
    using assms(1,3) by (cases s) (auto simp: list_all_iff dropWhile_append2)
  ultimately show ?thesis using assms(2) by (subst parse_id_list.simps) (simp add: Let_def)
qed

lemma parse_id_list_sep: "is_separator c \<Longrightarrow> parse_id_list (c # s) = parse_id_list s"
  by (subst (1 2) parse_id_list.simps) simp

text \<open>
  Integers in the environment are read back exactly and never wrap: an accepted value is within the
  bounds of its field's type, every value of the type is accepted in decimal, and a comma-separated
  list of 64-bit ids is read as these ids, in order.
\<close>

theorem env_integers_roundtrip:
  "(\<forall>s v. parse_int lo hi s = Some v \<longrightarrow> lo \<le> v \<and> v \<le> hi) \<and>
   (lo \<le> v \<longrightarrow> v \<le> hi \<longrightarrow> 0 \<le> hi \<longrightarrow> parse_int lo hi (int_to_string v) = Some v) \<and>
   (list_all (\<lambda>i. int64_min \<le> i \<and> i \<le> int64_max) ids \<longrightarrow> parse_id_list (join_ids ids) = ids)"
proof (intro conjI impI allI)
  show "list_all (\<lambda>i. int64_min \<le> i \<and> i \<le> int64_max) ids \<Longrightarrow> parse_id_list (join_ids ids) = ids"
  proof (induction ids rule: join_ids.induct)
    case 1
    then show ?case by (simp add: parse_id_list.simps)
  next
    case (2 i)
    then show ?case
      using parse_id_list_token [OF int_token, of i "[]"] by (simp add: parse_int_roundtrip) (simp add: parse_id_list.simps)
  next
    case (3 i j js)
    have c: "is_separator (CHR '','')" by (simp add: is_separator_def)
    then have "parse_id_list (int_to_string i @ CHR '','' # join_ids (j # js)) =
        [i] @ parse_id_list (CHR '','' # join_ids (j # js))"
      using parse_id_list_token [OF int_token, of i "CHR '','' # join_ids (j # js)"] 3 by (simp add: parse_int_roundtrip)
    with 3 c show ?case by (simp add: parse_id_list_sep)
  qed
qed (use parse_int_bounds parse_int_roundtrip in blast)+

theorem env_integers_roundtrip_witness:
  "parse_int int32_min int32_max ''-42'' = Some (- 42) \<and> parse_id_list ''7,-1001'' = [7, - 1001]"
proof -
  have s: "int_to_string (- 42) = ''-42''" "join_ids [7, - 1001] = ''7,-1001''"
    by code_simp+
  from env_integers_roundtrip [of int32_min int32_max "- 42" "[7, - 1001]"] show ?thesis by (simp add: s del: join_ids.simps)
qed

subsection \<open>Overrides\<close>

lemma env_apply_None [simp]: "env n = None \<Longrightarrow> env_apply p env n st c = c"
  by (simp add: env_apply_def)

lemmas override_defs = override_telegram_def override_aria2_def override_qbittorrent_def override_rclone_def
  override_google_drive_def override_database_def override_logging_def override_paths_def

lemmas env_defs = env_int32_def env_int64_def env_size_def env_bool_def env_double_def env_string_def env_ids_def

lemma no_overrides: "apply_env_overrides strtod (\<lambda>_. None) cfg = cfg"
  by (simp add: apply_env_overrides_def override_defs env_defs in_order_def)

text \<open>The value a variable gives a field.\<close>

definition env_value :: "(string \<Rightarrow> 'v option) \<Rightarrow> (string \<Rightarrow> string option) \<Rightarrow> string \<Rightarrow> 'v \<Rightarrow> 'v" where
  "env_value parse_as env name v = (case Option.bind (env name) parse_as of None \<Rightarrow> v | Some x \<Rightarrow> x)"

lemma env_value_idem [simp]: "env_value p env n (env_value p env n v) = env_value p env n v"
  by (simp add: env_value_def split: option.splits)

text \<open>What an override does to a section, field by field.\<close>

lemma telegram_int_values:
  "env_apply p env n (\<lambda>v. tg_api_id_update (\<lambda>_. v)) c = tg_api_id_update (\<lambda>_. env_value p env n (tg_api_id c)) c"
  "env_apply p env n (\<lambda>v. tg_owner_id_update (\<lambda>_. v)) c = tg_owner_id_update (\<lambda>_. env_value p env n (tg_owner_id c)) c"
  "env_apply p env n (\<lambda>v. tg_upload_chunk_size_kb_update (\<lambda>_. v)) c = tg_upload_chunk_size_kb_update (\<lambda>_. env_value p env n (tg_upload_chunk_size_kb c)) c"
  "env_apply p env n (\<lambda>v. tg_download_chunk_size_kb_update (\<lambda>_. v)) c = tg_download_chunk_size_kb_update (\<lambda>_. env_value p env n (tg_download_chunk_size_kb c)) c"
  "env_apply p env n (\<lambda>v. tg_connection_retry_count_max_update (\<lambda>_. v)) c = tg_connection_retry_count_max_update (\<lambda>_. env_value p env n (tg_connection_retry_count_max c)) c"
  "env_apply p env n (\<lambda>v. tg_upload_parallelism_update (\<lambda>_. v)) c = tg_upload_parallelism_update (\<lambda>_. env_value p env n (tg_upload_parallelism c)) c"
  "env_apply p env n (\<lambda>v. tg_upload_files_parallelism_update (\<lambda>_. v)) c = tg_upload_files_parallelism_update (\<lambda>_. env_value p env n (tg_upload_files_parallelism c)) c"
  by (simp_all add: env_apply_def env_value_def split: option.splits)

lemma telegram_string_values:
  "env_apply p env n (\<lambda>v. tg_api_hash_update (\<lambda>_. v)) c = tg_api_hash_update (\<lambda>_. env_value p env n (tg_api_hash c)) c"
  "env_apply p env n (\<lambda>v. tg_bot_token_update (\<lambda>_. v)) c = tg_bot_token_update (\<lambda>_. env_value p env n (tg_bot_token c)) c"
  "env_apply p env n (\<lambda>v. tg_database_directory_update (\<lambda>_. v)) c = tg_database_directory_update (\<lambda>_. env_value p env n (tg_database_directory c)) c"
  by (simp_all add: env_apply_def env_value_def split: option.splits)

lemma telegram_ids_values:
  "env_apply p env n (\<lambda>v. tg_sudo_users_update (\<lambda>_. v)) c = tg_sudo_users_update (\<lambda>_. env_value p env n (tg_sudo_users c)) c"
  "env_apply p env n (\<lambda>v. tg_authorized_chats_update (\<lambda>_. v)) c = tg_authorized_chats_update (\<lambda>_. env_value p env n (tg_authorized_chats c)) c"
  by (simp_all add: env_apply_def env_value_def split: option.splits)

lemma telegram_bool_values:
  "env_apply p env n (\<lambda>v. tg_prefer_ipv6_update (\<lambda>_. v)) c = tg_prefer_ipv6_update (\<lambda>_. env_value p env n (tg_prefer_ipv6 c)) c"
  by (simp_all add: env_apply_def env_value_def split: option.splits)

lemma aria2_string_values:
  "env_apply p env n (\<lambda>v. ar_rpc_url_update (\<lambda>_. v)) c = ar_rpc_url_update (\<lambda>_. env_value p env n (ar_rpc_url c)) c"
  "env_apply p env n (\<lambda>v. ar_secret_update (\<lambda>_. v)) c = ar_secret_update (\<lambda>_. env_value p env n (ar_secret c)) c"
  "env_apply p env n (\<lambda>v. ar_min_split_size_update (\<lambda>_. v)) c = ar_min_split_size_update (\<lambda>_. env_value p env n (ar_min_split_size c)) c"
  "env_apply p env n (\<lambda>v. ar_disk_cache_update (\<lambda>_. v)) c = ar_disk_cache_update (\<lambda>_. env_value p env n (ar_disk_cache c)) c"
  "env_apply p env n (\<lambda>v. ar_user_agent_update (\<lambda>_. v)) c = ar_user_agent_update (\<lambda>_. env_value p env n (ar_user_agent c)) c"
  by (simp_all add: env_apply_def env_value_def split: option.splits)

lemma aria2_int_values:
  "env_apply p env n (\<lambda>v. ar_max_concurrent_downloads_update (\<lambda>_. v)) c = ar_max_concurrent_downloads_update (\<lambda>_. env_value p env n (ar_max_concurrent_downloads c)) c"
  "env_apply p env n (\<lambda>v. ar_request_timeout_update (\<lambda>_. v)) c = ar_request_timeout_update (\<lambda>_. env_value p env n (ar_request_timeout c)) c"
  "env_apply p env n (\<lambda>v. ar_max_connection_per_server_update (\<lambda>_. v)) c = ar_max_connection_per_server_update (\<lambda>_. env_value p env n (ar_max_connection_per_server c)) c"
  "env_apply p env n (\<lambda>v. ar_split_update (\<lambda>_. v)) c = ar_split_update (\<lambda>_. env_value p env n (ar_split c)) c"
  "env_apply p env n (\<lambda>v. ar_max_tries_update (\<lambda>_. v)) c = ar_max_tries_update (\<lambda>_. env_value p env n (ar_max_tries c)) c"
  "env_apply p env n (\<lambda>v. ar_retry_wait_update (\<lambda>_. v)) c = ar_retry_wait_update (\<lambda>_. env_value p env n (ar_retry_wait c)) c"
  "env_apply p env n (\<lambda>v. ar_max_overall_download_limit_update (\<lambda>_. v)) c = ar_max_overall_download_limit_update (\<lambda>_. env_value p env n (ar_max_overall_download_limit c)) c"
  "env_apply p env n (\<lambda>v. ar_max_overall_upload_limit_update (\<lambda>_. v)) c = ar_max_overall_upload_limit_update (\<lambda>_. env_value p env n (ar_max_overall_upload_limit c)) c"
  "env_apply p env n (\<lambda>v. ar_bt_max_peers_update (\<lambda>_. v)) c = ar_bt_max_peers_update (\<lambda>_. env_value p env n (ar_bt_max_peers c)) c"
  by (simp_all add: env_apply_def env_value_def split: option.splits)

lemma aria2_bool_values:
  "env_apply p env n (\<lambda>v. ar_enable_dht_update (\<lambda>_. v)) c = ar_enable_dht_update (\<lambda>_. env_value p env n (ar_enable_dht c)) c"
  "env_apply p env n (\<lambda>v. ar_enable_pex_update (\<lambda>_. v)) c = ar_enable_pex_update (\<lambda>_. env_value p env n (ar_enable_pex c)) c"
  by (simp_all add: env_apply_def env_value_def split: option.splits)

lemma qbittorrent_string_values:
  "env_apply p env n (\<lambda>v. qb_url_update (\<lambda>_. v)) c = qb_url_update (\<lambda>_. env_value p env n (qb_url c)) c"
  "env_apply p env n (\<lambda>v. qb_username_update (\<lambda>_. v)) c = qb_username_update (\<lambda>_. env_value p env n (qb_username c)) c"
  "env_apply p env n (\<lambda>v. qb_password_update (\<lambda>_. v)) c = qb_password_update (\<lambda>_. env_value p env n (qb_password c)) c"
  by (simp_all add: env_apply_def env_value_def split: option.splits)

lemma qbittorrent_double_values:
  "env_apply p env n (\<lambda>v. qb_seed_ratio_limit_update (\<lambda>_. v)) c = qb_seed_ratio_limit_update (\<lambda>_. env_value p env n (qb_seed_ratio_limit c)) c"
  by (simp_all add: env_apply_def env_value_def split: option.splits)

lemma qbittorrent_int_values:
  "env_apply p env n (\<lambda>v. qb_seed_time_limit_update (\<lambda>_. v)) c = qb_seed_time_limit_update (\<lambda>_. env_value p env n (qb_seed_time_limit c)) c"
  "env_apply p env n (\<lambda>v. qb_max_active_downloads_update (\<lambda>_. v)) c = qb_max_active_downloads_update (\<lambda>_. env_value p env n (qb_max_active_downloads c)) c"
  "env_apply p env n (\<lambda>v. qb_max_active_uploads_update (\<lambda>_. v)) c = qb_max_active_uploads_update (\<lambda>_. env_value p env n (qb_max_active_uploads c)) c"
  "env_apply p env n (\<lambda>v. qb_max_active_torrents_update (\<lambda>_. v)) c = qb_max_active_torrents_update (\<lambda>_. env_value p env n (qb_max_active_torrents c)) c"
  "env_apply p env n (\<lambda>v. qb_max_connections_update (\<lambda>_. v)) c = qb_max_connections_update (\<lambda>_. env_value p env n (qb_max_connections c)) c"
  "env_apply p env n (\<lambda>v. qb_max_connections_per_torrent_update (\<lambda>_. v)) c = qb_max_connections_per_torrent_update (\<lambda>_. env_value p env n (qb_max_connections_per_torrent c)) c"
  "env_apply p env n (\<lambda>v. qb_max_uploads_update (\<lambda>_. v)) c = qb_max_uploads_update (\<lambda>_. env_value p env n (qb_max_uploads c)) c"
  "env_apply p env n (\<lambda>v. qb_max_uploads_per_torrent_update (\<lambda>_. v)) c = qb_max_uploads_per_torrent_update (\<lambda>_. env_value p env n (qb_max_uploads_per_torrent c)) c"
  "env_apply p env n (\<lambda>v. qb_up_limit_update (\<lambda>_. v)) c = qb_up_limit_update (\<lambda>_. env_value p env n (qb_up_limit c)) c"
  "env_apply p env n (\<lambda>v. qb_dl_limit_update (\<lambda>_. v)) c = qb_dl_limit_update (\<lambda>_. env_value p env n (qb_dl_limit c)) c"
  "env_apply p env n (\<lambda>v. qb_async_io_threads_update (\<lambda>_. v)) c = qb_async_io_threads_update (\<lambda>_. env_value p env n (qb_async_io_threads c)) c"
  "env_apply p env n (\<lambda>v. qb_disk_cache_mib_update (\<lambda>_. v)) c = qb_disk_cache_mib_update (\<lambda>_. env_value p env n (qb_disk_cache_mib c)) c"
  by (simp_all add: env_apply_def env_value_def split: option.splits)

lemma qbittorrent_bool_values:
  "env_apply p env n (\<lambda>v. qb_dht_update (\<lambda>_. v)) c = qb_dht_update (\<lambda>_. env_value p env n (qb_dht c)) c"
  "env_apply p env n (\<lambda>v. qb_pex_update (\<lambda>_. v)) c = qb_pex_update (\<lambda>_. env_value p env n (qb_pex c)) c"
  "env_apply p env n (\<lambda>v. qb_lsd_update (\<lambda>_. v)) c = qb_lsd_update (\<lambda>_. env_value p env n (qb_lsd c)) c"
  "env_apply p env n (\<lambda>v. qb_anonymous_mode_update (\<lambda>_. v)) c = qb_anonymous_mode_update (\<lambda>_. env_value p env n (qb_anonymous_mode c)) c"
  by (simp_all add: env_apply_def env_value_def split: option.splits)

lemma rclone_string_values:
  "env_apply p env n (\<lambda>v. rc_executable_update (\<lambda>_. v)) c = rc_executable_update (\<lambda>_. env_value p env n (rc_executable c)) c"
  "env_apply p env n (\<lambda>v. rc_config_path_update (\<lambda>_. v)) c = rc_config_path_update (\<lambda>_. env_value p env n (rc_config_path c)) c"
  "env_apply p env n (\<lambda>v. rc_multi_thread_cutoff_update (\<lambda>_. v)) c = rc_multi_thread_cutoff_update (\<lambda>_. env_value p env n (rc_multi_thread_cutoff c)) c"
  "env_apply p env n (\<lambda>v. rc_drive_chunk_size_update (\<lambda>_. v)) c = rc_drive_chunk_size_update (\<lambda>_. env_value p env n (rc_drive_chunk_size c)) c"
  "env_apply p env n (\<lambda>v. rc_buffer_size_update (\<lambda>_. v)) c = rc_buffer_size_update (\<lambda>_. env_value p env n (rc_buffer_size c)) c"
  "env_apply p env n (\<lambda>v. rc_log_level_update (\<lambda>_. v)) c = rc_log_level_update (\<lambda>_. env_value p env n (rc_log_level c)) c"
  by (simp_all add: env_apply_def env_value_def split: option.splits)

lemma rclone_int_values:
  "env_apply p env n (\<lambda>v. rc_transfers_update (\<lambda>_. v)) c = rc_transfers_update (\<lambda>_. env_value p env n (rc_transfers c)) c"
  "env_apply p env n (\<lambda>v. rc_checkers_update (\<lambda>_. v)) c = rc_checkers_update (\<lambda>_. env_value p env n (rc_checkers c)) c"
  "env_apply p env n (\<lambda>v. rc_multi_thread_streams_update (\<lambda>_. v)) c = rc_multi_thread_streams_update (\<lambda>_. env_value p env n (rc_multi_thread_streams c)) c"
  by (simp_all add: env_apply_def env_value_def split: option.splits)

lemma rclone_bool_values:
  "env_apply p env n (\<lambda>v. rc_use_mmap_update (\<lambda>_. v)) c = rc_use_mmap_update (\<lambda>_. env_value p env n (rc_use_mmap c)) c"
  "env_apply p env n (\<lambda>v. rc_fast_list_update (\<lambda>_. v)) c = rc_fast_list_update (\<lambda>_. env_value p env n (rc_fast_list c)) c"
  "env_apply p env n (\<lambda>v. rc_drive_acknowledge_abuse_update (\<lambda>_. v)) c = rc_drive_acknowledge_abuse_update (\<lambda>_. env_value p env n (rc_drive_acknowledge_abuse c)) c"
  by (simp_all add: env_apply_def env_value_def split: option.splits)

lemma google_drive_string_values:
  "env_apply p env n (\<lambda>v. gd_credentials_path_update (\<lambda>_. v)) c = gd_credentials_path_update (\<lambda>_. env_value p env n (gd_credentials_path c)) c"
  "env_apply p env n (\<lambda>v. gd_parent_folder_id_update (\<lambda>_. v)) c = gd_parent_folder_id_update (\<lambda>_. env_value p env n (gd_parent_folder_id c)) c"
  "env_apply p env n (\<lambda>v. gd_sa_folder_update (\<lambda>_. v)) c = gd_sa_folder_update (\<lambda>_. env_value p env n (gd_sa_folder c)) c"
  by (simp_all add: env_apply_def env_value_def split: option.splits)

lemma google_drive_bool_values:
  "env_apply p env n (\<lambda>v. gd_use_service_accounts_update (\<lambda>_. v)) c = gd_use_service_accounts_update (\<lambda>_. env_value p env n (gd_use_service_accounts c)) c"
  by (simp_all add: env_apply_def env_value_def split: option.splits)

lemma google_drive_int_values:
  "env_apply p env n (\<lambda>v. gd_chunk_size_update (\<lambda>_. v)) c = gd_chunk_size_update (\<lambda>_. env_value p env n (gd_chunk_size c)) c"
  "env_apply p env n (\<lambda>v. gd_parallel_chunks_per_file_update (\<lambda>_. v)) c = gd_parallel_chunks_per_file_update (\<lambda>_. env_value p env n (gd_parallel_chunks_per_file c)) c"
  "env_apply p env n (\<lambda>v. gd_parallel_files_per_directory_update (\<lambda>_. v)) c = gd_parallel_files_per_directory_update (\<lambda>_. env_value p env n (gd_parallel_files_per_directory c)) c"
  "env_apply p env n (\<lambda>v. gd_max_retries_update (\<lambda>_. v)) c = gd_max_retries_update (\<lambda>_. env_value p env n (gd_max_retries c)) c"
  "env_apply p env n (\<lambda>v. gd_initial_retry_delay_update (\<lambda>_. v)) c = gd_initial_retry_delay_update (\<lambda>_. env_value p env n (gd_initial_retry_delay c)) c"
  by (simp_all add: env_apply_def env_value_def split: option.splits)

lemma database_string_values:
  "env_apply p env n (\<lambda>v. dc_path_update (\<lambda>_. v)) c = dc_path_update (\<lambda>_. env_value p env n (dc_path c)) c"
  by (simp_all add: env_apply_def env_value_def split: option.splits)

lemma database_int_values:
  "env_apply p env n (\<lambda>v. dc_busy_timeout_update (\<lambda>_. v)) c = dc_busy_timeout_update (\<lambda>_. env_value p env n (dc_busy_timeout c)) c"
  by (simp_all add: env_apply_def env_value_def split: option.splits)

lemma database_bool_values:
  "env_apply p env n (\<lambda>v. dc_wal_mode_update (\<lambda>_. v)) c = dc_wal_mode_update (\<lambda>_. env_value p env n (dc_wal_mode c)) c"
  by (simp_all add: env_apply_def env_value_def split: option.splits)

lemma logging_string_values:
  "env_apply p env n (\<lambda>v. lc_logs_dir_update (\<lambda>_. v)) c = lc_logs_dir_update (\<lambda>_. env_value p env n (lc_logs_dir c)) c"
  "env_apply p env n (\<lambda>v. lc_level_update (\<lambda>_. v)) c = lc_level_update (\<lambda>_. env_value p env n (lc_level c)) c"
  by (simp_all add: env_apply_def env_value_def split: option.splits)

lemma logging_bool_values:
  "env_apply p env n (\<lambda>v. lc_console_update (\<lambda>_. v)) c = lc_console_update (\<lambda>_. env_value p env n (lc_console c)) c"
  by (simp_all add: env_apply_def env_value_def split: option.splits)

lemma paths_string_values:
  "env_apply p env n (\<lambda>v. pc_download_dir_update (\<lambda>_. v)) c = pc_download_dir_update (\<lambda>_. env_value p env n (pc_download_dir c)) c"
  "env_apply p env n (\<lambda>v. pc_data_dir_update (\<lambda>_. v)) c = pc_data_dir_update (\<lambda>_. env_value p env n (pc_data_dir c)) c"
  by (simp_all add: env_apply_def env_value_def split: option.splits)

lemmas field_values = telegram_int_values telegram_string_values telegram_ids_values telegram_bool_values aria2_string_values aria2_int_values aria2_bool_values qbittorrent_string_values qbittorrent_double_values qbittorrent_int_values qbittorrent_bool_values
  rclone_string_values
  rclone_int_values
  rclone_bool_values google_drive_string_values google_drive_bool_values google_drive_int_values database_string_values database_int_values database_bool_values logging_string_values logging_bool_values paths_string_values

lemma override_telegram_idem: "override_telegram strtod env (override_telegram strtod env c) = override_telegram strtod env c"
  by (simp add: override_telegram_def env_defs in_order_def field_values)

lemma override_aria2_idem: "override_aria2 strtod env (override_aria2 strtod env c) = override_aria2 strtod env c"
  by (simp add: override_aria2_def env_defs in_order_def field_values)

lemma override_qbittorrent_idem: "override_qbittorrent strtod env (override_qbittorrent strtod env c) = override_qbittorrent strtod env c"
  by (simp add: override_qbittorrent_def env_defs in_order_def field_values)

lemma override_rclone_idem: "override_rclone strtod env (override_rclone strtod env c) = override_rclone strtod env c"
  by (simp add: override_rclone_def env_defs in_order_def field_values)

lemma override_google_drive_idem: "override_google_drive strtod env (override_google_drive strtod env c) = override_google_drive strtod env c"
  by (simp add: override_google_drive_def env_defs in_order_def field_values)

lemma override_database_idem: "override_database strtod env (override_database strtod env c) = override_database strtod env c"
  by (simp add: override_database_def env_defs in_order_def field_values)

lemma override_logging_idem: "override_logging strtod env (override_logging strtod env c) = override_logging strtod env c"
  by (simp add: override_logging_def env_defs in_order_def field_values)

lemma override_paths_idem: "override_paths strtod env (override_paths strtod env c) = override_paths strtod env c"
  by (simp add: override_paths_def env_defs in_order_def field_values)

text \<open>
  The environment has the last word, and only where it speaks. Without variables the configuration
  is untouched; a well-formed variable replaces what the file says and a malformed one leaves it, shown
  for the fields that decide who the bot obeys and where it writes; applying the overrides twice is
  applying them once.
\<close>

theorem environment_overrides:
  "apply_env_overrides strtod (\<lambda>_. None) cfg = cfg \<and>
   apply_env_overrides strtod env (apply_env_overrides strtod env cfg) = apply_env_overrides strtod env cfg \<and>
   (let c = apply_env_overrides strtod env cfg in
     tg_bot_token (cf_telegram c) = env_value Some env ''CMLB_TELEGRAM_BOT_TOKEN'' (tg_bot_token (cf_telegram cfg)) \<and>
     tg_owner_id (cf_telegram c) =
       env_value (parse_int int64_min int64_max) env ''CMLB_TELEGRAM_OWNER_ID'' (tg_owner_id (cf_telegram cfg)) \<and>
     tg_sudo_users (cf_telegram c) =
       env_value (\<lambda>s. Some (parse_id_list s)) env ''CMLB_TELEGRAM_SUDO_USERS'' (tg_sudo_users (cf_telegram cfg)) \<and>
     tg_authorized_chats (cf_telegram c) =
       env_value (\<lambda>s. Some (parse_id_list s)) env ''CMLB_TELEGRAM_AUTHORIZED_CHATS'' (tg_authorized_chats (cf_telegram cfg)) \<and>
     gd_chunk_size (cf_google_drive c) =
       env_value (parse_int 0 size_max) env ''CMLB_GOOGLE_DRIVE_CHUNK_SIZE'' (gd_chunk_size (cf_google_drive cfg)) \<and>
     dc_path (cf_database c) = env_value Some env ''CMLB_DATABASE_PATH'' (dc_path (cf_database cfg)) \<and>
     pc_download_dir (cf_paths c) = env_value Some env ''CMLB_PATHS_DOWNLOAD_DIR'' (pc_download_dir (cf_paths cfg)) \<and>
     rc_extra_args (cf_rclone c) = rc_extra_args (cf_rclone cfg))"
  unfolding Let_def
proof (intro conjI)
  show "apply_env_overrides strtod (\<lambda>_. None) cfg = cfg" by (rule no_overrides)
  show "apply_env_overrides strtod env (apply_env_overrides strtod env cfg) = apply_env_overrides strtod env cfg"
    by (simp add: apply_env_overrides_def override_telegram_idem override_aria2_idem override_qbittorrent_idem override_rclone_idem override_google_drive_idem override_database_idem override_logging_idem override_paths_idem)
qed (simp_all add: apply_env_overrides_def override_defs env_defs in_order_def field_values)


end
