(* ===== verification/Json.thy ===== *)
theory Json
  imports Configuration
begin

text \<open>
  JSON documents as the adapters use them. The library \<open>nlohmann::json\<close> is the parameter \<open>json_view\<close> of the code that
  reads documents; documents the code builds are values of \<open>json_out\<close>, and printing them is a
  parameter too.
\<close>

text \<open>
  \<open>jv_field\<close> is \<open>contains\<close> with \<open>operator[]\<close>; \<open>jv_string\<close>, \<open>jv_integer\<close>, \<open>jv_number\<close> and \<open>jv_array\<close> are the type tests with
  \<open>get\<close>; \<open>jv_get_int\<close> is \<open>get<int>\<close>, \<open>jv_at_string\<close> is \<open>at(k).get<std::string>()\<close>, and \<open>jv_value_int\<close>, \<open>jv_value_int64\<close>, \<open>jv_value_string\<close> are \<open>value\<close> with a default. A
  left value is the text of the exception that is thrown.
\<close>

record 'j json_view =
  jv_parse :: "string \<Rightarrow> string + 'j"
  jv_field :: "'j \<Rightarrow> string \<Rightarrow> 'j option"
  jv_is_object :: "'j \<Rightarrow> bool"
  jv_string :: "'j \<Rightarrow> string option"
  jv_integer :: "'j \<Rightarrow> int option"
  jv_number :: "'j \<Rightarrow> rat option"
  jv_array :: "'j \<Rightarrow> 'j list option"
  jv_get_int :: "'j \<Rightarrow> string + int"
  jv_at_string :: "'j \<Rightarrow> string \<Rightarrow> string + string"
  jv_value_int :: "'j \<Rightarrow> string \<Rightarrow> int \<Rightarrow> string + int"
  jv_value_int64 :: "'j \<Rightarrow> string \<Rightarrow> int \<Rightarrow> string + int"
  jv_value_string :: "'j \<Rightarrow> string \<Rightarrow> string \<Rightarrow> string + string"

definition string_member :: "'j json_view \<Rightarrow> 'j \<Rightarrow> string \<Rightarrow> string option" where
  "string_member J j k = Option.bind (jv_field J j k) (jv_string J)"

text \<open>A sequence of calls any of which may throw.\<close>

definition and_then :: "string + 'a \<Rightarrow> ('a \<Rightarrow> string + 'b) \<Rightarrow> string + 'b" where
  "and_then m f = (case m of Inl x \<Rightarrow> Inl x | Inr a \<Rightarrow> f a)"

lemma and_then_simps [simp]: "and_then (Inl x) f = Inl x" "and_then (Inr a) f = f a"
  by (simp_all add: and_then_def)

lemma and_then_Inr: "and_then m f = Inr b \<longleftrightarrow> (\<exists>a. m = Inr a \<and> f a = Inr b)"
  by (cases m) simp_all

subsection \<open>Documents that are built\<close>

datatype json_out =
    JO_String string
  | JO_Int int
  | JO_Bool bool
  | JO_Double fp
  | JO_Array "json_out list"
  | JO_Object "(string \<times> json_out) list"

text \<open>Such a document, read as an answer.\<close>

definition out_view :: "json_out json_view" where
  "out_view = \<lparr>jv_parse = (\<lambda>s. Inr (JO_String s)),
     jv_field = (\<lambda>j k. case j of JO_Object ms \<Rightarrow> map_of ms k | _ \<Rightarrow> None),
     jv_is_object = (\<lambda>j. case j of JO_Object _ \<Rightarrow> True | _ \<Rightarrow> False),
     jv_string = (\<lambda>j. case j of JO_String s \<Rightarrow> Some s | _ \<Rightarrow> None),
     jv_integer = (\<lambda>j. case j of JO_Int i \<Rightarrow> Some i | _ \<Rightarrow> None),
     jv_number = (\<lambda>j. case j of JO_Double (Finite q) \<Rightarrow> Some q | JO_Int i \<Rightarrow> Some (of_int i) | _ \<Rightarrow> None),
     jv_array = (\<lambda>j. case j of JO_Array xs \<Rightarrow> Some xs | _ \<Rightarrow> None),
     jv_get_int = (\<lambda>j. case j of JO_Int i \<Rightarrow> Inr i | _ \<Rightarrow> Inl ''type must be number''),
     jv_at_string = (\<lambda>j k. case j of JO_Object ms \<Rightarrow> (case map_of ms k of Some (JO_String s) \<Rightarrow> Inr s
        | Some _ \<Rightarrow> Inl ''type must be string'' | None \<Rightarrow> Inl ''key not found'') | _ \<Rightarrow> Inl ''cannot use at()''),
     jv_value_int = (\<lambda>j k d. case j of JO_Object ms \<Rightarrow> (case map_of ms k of None \<Rightarrow> Inr d | Some (JO_Int i) \<Rightarrow> Inr i
        | Some _ \<Rightarrow> Inl ''type must be number'') | _ \<Rightarrow> Inl ''cannot use value()''),
     jv_value_int64 = (\<lambda>j k d. case j of JO_Object ms \<Rightarrow> (case map_of ms k of None \<Rightarrow> Inr d | Some (JO_Int i) \<Rightarrow> Inr i
        | Some _ \<Rightarrow> Inl ''type must be number'') | _ \<Rightarrow> Inl ''cannot use value()''),
     jv_value_string = (\<lambda>j k d. case j of JO_Object ms \<Rightarrow> (case map_of ms k of None \<Rightarrow> Inr d | Some (JO_String s) \<Rightarrow> Inr s
        | Some _ \<Rightarrow> Inl ''type must be string'') | _ \<Rightarrow> Inl ''cannot use value()'')\<rparr>"

end
