(* ===== verification/Aria2_Rpc.thy ===== *)
theory Aria2_Rpc
  imports Json "HOL-Library.AList"
begin

text \<open>
  The JSON-RPC connection of \<open>src/infrastructure/download/aria2_downloader.cpp\<close> (\<open>Aria2Downloader::Impl\<close>): the
  pending calls, the coroutine of each call and the reader. All of them run on one strand, so a step is
  what a coroutine does between two suspension points. The JSON library is the parameter \<open>json_view\<close>.
\<close>

subsection \<open>Calls and their slots\<close>

text \<open>
  The frame of a call: its request id, how far its coroutine is, the slot \<open>PendingCall\<close> it shares with
  the reader, and what \<open>with_timeout\<close> returned. \<open>P_Posted\<close> is the post of \<open>send_text\<close>, \<open>P_Woken\<close> the post after
  the wait.
\<close>

datatype phase = P_Posted | P_Writing | P_Waiting | P_Woken | P_Gone

record 'j frame =
  fr_id :: string
  fr_phase :: phase
  fr_response :: "'j option"
  fr_failure :: "app_error option"
  fr_result :: "'j res option"

text \<open>\<open>pending_\<close> maps request ids to the shared slots, here to the index of their frame.\<close>

record 'j rpc =
  rc_connected :: bool
  rc_stream :: bool
  rc_pending :: "(string \<times> nat) list"
  rc_frame :: "nat \<Rightarrow> 'j frame"
  rc_next :: nat

definition new_frame :: "string \<Rightarrow> 'j frame" where
  "new_frame i = \<lparr>fr_id = i, fr_phase = P_Posted, fr_response = None, fr_failure = None, fr_result = None\<rparr>"

definition fresh_rpc :: "'j rpc" where
  "fresh_rpc = \<lparr>rc_connected = False, rc_stream = False, rc_pending = [], rc_frame = (\<lambda>_. new_frame []), rc_next = 0\<rparr>"

definition set_frame :: "nat \<Rightarrow> 'j frame \<Rightarrow> 'j rpc \<Rightarrow> 'j rpc" where
  "set_frame n f st = st\<lparr>rc_frame := (rc_frame st)(n := f)\<rparr>"

text \<open>\<open>wake->cancel()\<close> wakes a coroutine that waits on the timer, and nobody else.\<close>

definition wake :: "'j frame \<Rightarrow> 'j frame" where
  "wake f = (if fr_phase f = P_Waiting then f\<lparr>fr_phase := P_Woken\<rparr> else f)"

definition erase_pending :: "string \<Rightarrow> 'j rpc \<Rightarrow> 'j rpc" where
  "erase_pending i st = st\<lparr>rc_pending := AList.delete i (rc_pending st)\<rparr>"

definition fail_all_pending :: "app_error \<Rightarrow> 'j rpc \<Rightarrow> 'j rpc" where
  "fail_all_pending e st =
     st\<lparr>rc_frame := (\<lambda>n. if n \<in> snd ` set (rc_pending st)
                         then wake ((rc_frame st n)\<lparr>fr_failure := Some e\<rparr>) else rc_frame st n)\<rparr>"

text \<open>The coroutine of a call ends; a result it brings after the deadline is dropped.\<close>

definition leave :: "'j res \<Rightarrow> 'j frame \<Rightarrow> 'j frame" where
  "leave r f = f\<lparr>fr_phase := P_Gone, fr_result := (case fr_result f of None \<Rightarrow> Some r | Some r' \<Rightarrow> Some r')\<rparr>"

definition finish :: "nat \<Rightarrow> 'j res \<Rightarrow> 'j rpc \<Rightarrow> 'j rpc" where
  "finish n r st = erase_pending (fr_id (rc_frame st n)) (set_frame n (leave r (rc_frame st n)) st)"

subsection \<open>The steps\<close>

definition not_connected :: app_error where
  "not_connected = mk_error EC_Network ''aria2 WebSocket not connected''"

definition no_stream :: app_error where
  "no_stream = mk_error EC_Network ''aria2 WebSocket stream not initialized''"

definition connection_lost :: app_error where
  "connection_lost = mk_error EC_Network ''aria2 connection lost''"

definition abandoned :: app_error where
  "abandoned = mk_error EC_Aria2Rpc ''aria2 RPC slot abandoned without response''"

text \<open>\<open>call_with_correlation\<close> up to its first suspension after the slot is set up; \<open>emplace\<close> keeps an entry that is there.\<close>

definition begin_call :: "string \<Rightarrow> 'j rpc \<Rightarrow> 'j rpc" where
  "begin_call i st =
     (let n = rc_next st;
          st = set_frame n (new_frame i) (st\<lparr>rc_next := Suc n,
                 rc_pending := (if i \<in> fst ` set (rc_pending st) then rc_pending st else (i, n) # rc_pending st)\<rparr>) in
      if rc_connected st then st else finish n (Inl not_connected) st)"

definition write_begin :: "nat \<Rightarrow> 'j rpc \<Rightarrow> 'j rpc" where
  "write_begin n st =
     (if rc_stream st then set_frame n ((rc_frame st n)\<lparr>fr_phase := P_Writing\<rparr>) st
      else finish n (Inl no_stream) st)"

text \<open>
  After the write the call waits on its timer; when its deadline has passed meanwhile, the next
  \<open>co_await\<close> throws and the rest of the coroutine does not run.
\<close>

definition write_ok :: "nat \<Rightarrow> 'j rpc \<Rightarrow> 'j rpc" where
  "write_ok n st =
     (let f = rc_frame st n in
      set_frame n (f\<lparr>fr_phase := (if fr_result f = None then P_Waiting else P_Gone)\<rparr>) st)"

definition write_failed :: "bool \<Rightarrow> string \<Rightarrow> nat \<Rightarrow> 'j rpc \<Rightarrow> 'j rpc" where
  "write_failed system msg n st =
     (let e = mk_error EC_Network msg in
      finish n (Inl e) (if system then fail_all_pending e st else st))"

definition slot_result :: "'j frame \<Rightarrow> 'j res" where
  "slot_result f =
     (case fr_response f of Some v \<Rightarrow> Inr v
      | None \<Rightarrow> (case fr_failure f of Some e \<Rightarrow> Inl e | None \<Rightarrow> Inl abandoned))"

definition resume_call :: "nat \<Rightarrow> 'j rpc \<Rightarrow> 'j rpc" where
  "resume_call n st = finish n (slot_result (rc_frame st n)) st"

text \<open>
  \<open>with_timeout\<close>: the deadline decides the result and cancels the coroutine, which stops at a wait on the
  timer without erasing its entry; elsewhere it goes on to its next suspension.
\<close>

definition timeout_error :: "int \<Rightarrow> app_error" where
  "timeout_error ms = mk_error EC_Timeout (''operation exceeded '' @ int_to_string ms @ ''ms deadline'')"

definition expire :: "int \<Rightarrow> nat \<Rightarrow> 'j rpc \<Rightarrow> 'j rpc" where
  "expire ms n st =
     (let f = rc_frame st n in
      set_frame n (f\<lparr>fr_result := Some (Inl (timeout_error ms)),
                    fr_phase := (if fr_phase f = P_Waiting then P_Gone else fr_phase f)\<rparr>) st)"

text \<open>\<open>handle_message\<close>; an exception (left) ends the read loop.\<close>

definition reply_of :: "'j json_view \<Rightarrow> 'j \<Rightarrow> string + 'j res" where
  "reply_of J doc =
     (case jv_field J doc ''error'' of
        Some e \<Rightarrow>
          (case jv_value_int J e ''code'' (- 1) of
             Inl x \<Rightarrow> Inl x
           | Inr code \<Rightarrow>
               (case jv_value_string J e ''message'' ''unknown'' of
                  Inl x \<Rightarrow> Inl x
                | Inr m \<Rightarrow> Inr (Inl (mk_error EC_Aria2Rpc (''aria2 RPC error '' @ int_to_string code @ '': '' @ m)))))
      | None \<Rightarrow>
          (case jv_field J doc ''result'' of
             Some v \<Rightarrow> Inr (Inr v)
           | None \<Rightarrow> Inr (Inl (mk_error EC_Aria2Rpc ''aria2 response missing both result and error''))))"

definition message_id_of :: "'j json_view \<Rightarrow> 'j \<Rightarrow> string option" where
  "message_id_of J doc = Option.bind (jv_field J doc ''id'') (jv_string J)"

definition fill_slot :: "'j res \<Rightarrow> 'j frame \<Rightarrow> 'j frame" where
  "fill_slot r f = (case r of Inl e \<Rightarrow> f\<lparr>fr_failure := Some e\<rparr> | Inr v \<Rightarrow> f\<lparr>fr_response := Some v\<rparr>)"

definition handle_message :: "'j json_view \<Rightarrow> string \<Rightarrow> 'j rpc \<Rightarrow> string + 'j rpc" where
  "handle_message J txt st =
     (case jv_parse J txt of
        Inl _ \<Rightarrow> Inr st
      | Inr doc \<Rightarrow>
          (case message_id_of J doc of
             None \<Rightarrow> Inr st
           | Some i \<Rightarrow>
               (case map_of (rc_pending st) i of
                  None \<Rightarrow> Inr st
                | Some n \<Rightarrow>
                    (case reply_of J doc of
                       Inl x \<Rightarrow> Inl x
                     | Inr r \<Rightarrow> Inr (set_frame n (wake (fill_slot r (rc_frame st n))) st)))))"

text \<open>The end of \<open>read_until_disconnect\<close>, and a successful \<open>connect_once\<close>.\<close>

definition disconnect :: "'j rpc \<Rightarrow> 'j rpc" where
  "disconnect st = (fail_all_pending connection_lost (st\<lparr>rc_connected := False\<rparr>))\<lparr>rc_stream := False\<rparr>"

definition connect :: "'j rpc \<Rightarrow> 'j rpc" where
  "connect st = st\<lparr>rc_connected := True, rc_stream := True\<rparr>"

datatype rpc_event =
    E_Connect
  | E_Lost
  | E_Message string
  | E_Call string
  | E_WriteBegin nat
  | E_WriteOk nat
  | E_WriteFailed nat bool string
  | E_Resume nat
  | E_Timeout nat

definition at_phase :: "'j rpc \<Rightarrow> nat \<Rightarrow> phase \<Rightarrow> bool" where
  "at_phase st n p = (n < rc_next st \<and> fr_phase (rc_frame st n) = p)"

definition expired :: "'j rpc \<Rightarrow> nat \<Rightarrow> bool" where
  "expired st n = (fr_result (rc_frame st n) \<noteq> None)"

text \<open>
  One step of the connection. A call whose deadline passed while it was posted throws at its write, so
  a failed write is possible from there too.
\<close>

inductive rpc_step :: "'j json_view \<Rightarrow> int \<Rightarrow> 'j rpc \<Rightarrow> rpc_event \<Rightarrow> 'j rpc \<Rightarrow> bool" for J ms where
  Connected: "\<not> rc_connected st \<Longrightarrow> rpc_step J ms st E_Connect (connect st)"
| Lost: "rc_connected st \<Longrightarrow> rpc_step J ms st E_Lost (disconnect st)"
| Message: "rc_connected st \<Longrightarrow> handle_message J txt st = Inr st' \<Longrightarrow> rpc_step J ms st (E_Message txt) st'"
| Message_threw: "rc_connected st \<Longrightarrow> handle_message J txt st = Inl x \<Longrightarrow>
    rpc_step J ms st (E_Message txt) (disconnect st)"
| Called: "rpc_step J ms st (E_Call i) (begin_call i st)"
| Write_begin: "at_phase st n P_Posted \<Longrightarrow> \<not> expired st n \<or> \<not> rc_stream st \<Longrightarrow>
    rpc_step J ms st (E_WriteBegin n) (write_begin n st)"
| Write_ok: "at_phase st n P_Writing \<Longrightarrow> rpc_step J ms st (E_WriteOk n) (write_ok n st)"
| Write_failed: "at_phase st n P_Writing \<or> (at_phase st n P_Posted \<and> expired st n \<and> system) \<Longrightarrow>
    rpc_step J ms st (E_WriteFailed n system msg) (write_failed system msg n st)"
| Resume: "at_phase st n P_Woken \<Longrightarrow> rpc_step J ms st (E_Resume n) (resume_call n st)"
| Timeout: "n < rc_next st \<Longrightarrow> \<not> expired st n \<Longrightarrow> rpc_step J ms st (E_Timeout n) (expire ms n st)"

text \<open>Runs with their history, the newest event first.\<close>

inductive rpc_run :: "'j json_view \<Rightarrow> int \<Rightarrow> rpc_event list \<Rightarrow> 'j rpc \<Rightarrow> bool" for J ms where
  Start: "rpc_run J ms [] fresh_rpc"
| Step: "rpc_run J ms tr st \<Longrightarrow> rpc_step J ms st e st' \<Longrightarrow> rpc_run J ms (e # tr) st'"

inductive_cases rpc_stepE: "rpc_step J ms st e st'"

lemmas rpc_defs = begin_call_def write_begin_def write_ok_def write_failed_def resume_call_def expire_def
  finish_def set_frame_def erase_pending_def disconnect_def connect_def fail_all_pending_def

subsection \<open>What a result is due to\<close>

text \<open>The document answers the request \<open>i\<close> with \<open>r\<close>; or reading it throws.\<close>

definition answers :: "'j json_view \<Rightarrow> string \<Rightarrow> string \<Rightarrow> 'j res \<Rightarrow> bool" where
  "answers J txt i r =
     (case jv_parse J txt of Inl _ \<Rightarrow> False
      | Inr doc \<Rightarrow> message_id_of J doc = Some i \<and> reply_of J doc = Inr r)"

definition unreadable :: "'j json_view \<Rightarrow> string \<Rightarrow> bool" where
  "unreadable J txt =
     (case jv_parse J txt of Inl _ \<Rightarrow> False
      | Inr doc \<Rightarrow> (case reply_of J doc of Inl _ \<Rightarrow> True | Inr _ \<Rightarrow> False))"

fun explains :: "'j json_view \<Rightarrow> int \<Rightarrow> nat \<Rightarrow> string \<Rightarrow> rpc_event \<Rightarrow> 'j res \<Rightarrow> bool" where
  "explains J ms n i (E_Message txt) r = (answers J txt i r \<or> unreadable J txt \<and> r = Inl connection_lost)"
| "explains J ms n i E_Lost r = (r = Inl connection_lost)"
| "explains J ms n i (E_Call i') r = (i' = i \<and> r = Inl not_connected)"
| "explains J ms n i (E_WriteBegin m) r = (m = n \<and> r = Inl no_stream)"
| "explains J ms n i (E_WriteFailed m system msg) r = ((m = n \<or> system) \<and> r = Inl (mk_error EC_Network msg))"
| "explains J ms n i (E_Timeout m) r = (m = n \<and> r = Inl (timeout_error ms))"
| "explains J ms n i _ r = False"

fun calls :: "rpc_event list \<Rightarrow> nat" where
  "calls [] = 0"
| "calls (E_Call i # tr) = Suc (calls tr)"
| "calls (e # tr) = calls tr"

text \<open>The events since the \<open>n\<close>-th call began, that one included.\<close>

fun since :: "nat \<Rightarrow> rpc_event list \<Rightarrow> rpc_event list" where
  "since n [] = []"
| "since n (e # tr) = (if n < calls (e # tr) then e # since n tr else [])"

lemma calls_Cons: "calls (e # tr) = (case e of E_Call _ \<Rightarrow> Suc (calls tr) | _ \<Rightarrow> calls tr)"
  by (cases e) simp_all

lemma since_Cons [simp]: "n < calls tr \<Longrightarrow> since n (e # tr) = e # since n tr"
  by (cases e) simp_all

declare since.simps(2) [simp del]

definition due :: "'j json_view \<Rightarrow> int \<Rightarrow> nat \<Rightarrow> rpc_event list \<Rightarrow> string \<Rightarrow> 'j res \<Rightarrow> bool" where
  "due J ms n tr i r = (\<exists>e \<in> set (since n tr). explains J ms n i e r)"

lemma due_Cons [simp]: "n < calls tr \<Longrightarrow> due J ms n (e # tr) i r = (explains J ms n i e r \<or> due J ms n tr i r)"
  by (simp add: due_def)

definition accounted :: "'j json_view \<Rightarrow> int \<Rightarrow> nat \<Rightarrow> rpc_event list \<Rightarrow> 'j frame \<Rightarrow> bool" where
  "accounted J ms n tr f =
     ((\<forall>v. fr_response f = Some v \<longrightarrow> due J ms n tr (fr_id f) (Inr v)) \<and>
      (\<forall>e. fr_failure f = Some e \<longrightarrow> due J ms n tr (fr_id f) (Inl e)) \<and>
      (\<forall>r. fr_result f = Some r \<longrightarrow> due J ms n tr (fr_id f) r) \<and>
      (fr_phase f = P_Woken \<longrightarrow> fr_response f \<noteq> None \<or> fr_failure f \<noteq> None) \<and>
      (fr_phase f = P_Gone \<longrightarrow> fr_result f \<noteq> None) \<and>
      (fr_phase f = P_Waiting \<longrightarrow> fr_result f = None))"

lemma accounted_Cons: "n < calls tr \<Longrightarrow> accounted J ms n tr f \<Longrightarrow> accounted J ms n (e # tr) f"
  by (auto simp: accounted_def)

lemma accounted_new [simp]: "accounted J ms n tr (new_frame i)"
  by (simp add: accounted_def new_frame_def)

lemma accounted_wake: "accounted J ms n tr f \<Longrightarrow> fr_response f \<noteq> None \<or> fr_failure f \<noteq> None \<Longrightarrow> accounted J ms n tr (wake f)"
  by (auto simp: accounted_def wake_def)

lemma accounted_fail: "accounted J ms n tr f \<Longrightarrow> due J ms n tr (fr_id f) (Inl e) \<Longrightarrow>
    accounted J ms n tr (wake (f\<lparr>fr_failure := Some e\<rparr>))"
  by (rule accounted_wake) (auto simp: accounted_def)

lemma accounted_fill: "accounted J ms n tr f \<Longrightarrow> due J ms n tr (fr_id f) r \<Longrightarrow> accounted J ms n tr (wake (fill_slot r f))"
  by (rule accounted_wake) (auto simp: accounted_def fill_slot_def split: sum.splits)

lemma accounted_leave: "accounted J ms n tr f \<Longrightarrow> due J ms n tr (fr_id f) r \<or> fr_result f \<noteq> None \<Longrightarrow> accounted J ms n tr (leave r f)"
  by (auto simp: accounted_def leave_def split: option.splits)

lemma accounted_slot: "accounted J ms n tr f \<Longrightarrow> fr_phase f = P_Woken \<Longrightarrow> due J ms n tr (fr_id f) (slot_result f)"
  by (auto simp: accounted_def slot_result_def split: option.splits)

text \<open>
  Every entry of \<open>pending_\<close> leads to a frame with its id, no id has two entries, and every frame can
  account for what is in its slot and for its result.
\<close>

definition rpc_inv :: "'j json_view \<Rightarrow> int \<Rightarrow> rpc_event list \<Rightarrow> 'j rpc \<Rightarrow> bool" where
  "rpc_inv J ms tr st =
     (rc_next st = calls tr \<and>
      distinct (map fst (rc_pending st)) \<and>
      (\<forall>(i, n) \<in> set (rc_pending st). n < rc_next st \<and> fr_id (rc_frame st n) = i) \<and>
      (\<forall>n < rc_next st. accounted J ms n tr (rc_frame st n)))"

lemma frame_id_simps [simp]:
  "fr_id (wake f) = fr_id f" "fr_id (leave r f) = fr_id f" "fr_id (fill_slot r f) = fr_id f" "fr_id (new_frame i) = i"
  by (simp_all add: wake_def leave_def fill_slot_def new_frame_def split: sum.splits)

lemma set_delete: "set (AList.delete k xs) = {x \<in> set xs. fst x \<noteq> k}"
  by (auto simp: AList.delete_eq)

lemma rpc_invD:
  assumes "rpc_inv J ms tr st"
  shows "rc_next st = calls tr"
    and "\<And>i n. (i, n) \<in> set (rc_pending st) \<Longrightarrow> n < calls tr"
    and "\<And>i n. (i, n) \<in> set (rc_pending st) \<Longrightarrow> fr_id (rc_frame st n) = i"
    and "\<And>n. n < calls tr \<Longrightarrow> accounted J ms n tr (rc_frame st n)"
    and "\<And>n e. n < calls tr \<Longrightarrow> accounted J ms n (e # tr) (rc_frame st n)"
  using assms by (auto simp: rpc_inv_def intro: accounted_Cons)

lemma rpc_inv_update:
  assumes inv: "rpc_inv J ms tr st" and same: "calls (e # tr) = calls tr"
    and "rc_next st' = rc_next st"
    and "set (rc_pending st') \<subseteq> set (rc_pending st)" "distinct (map fst (rc_pending st'))"
    and "\<And>n. n < calls tr \<Longrightarrow> fr_id (rc_frame st' n) = fr_id (rc_frame st n)"
    and "\<And>n. n < calls tr \<Longrightarrow> accounted J ms n (e # tr) (rc_frame st' n)"
  shows "rpc_inv J ms (e # tr) st'"
  unfolding rpc_inv_def using assms rpc_invD [OF inv] by (auto; blast)

lemma finish_sel [simp]:
  "rc_next (finish n r st) = rc_next st"
  "rc_pending (finish n r st) = AList.delete (fr_id (rc_frame st n)) (rc_pending st)"
  "rc_frame (finish n r st) m = (if m = n then leave r (rc_frame st n) else rc_frame st m)"
  by (simp_all add: finish_def erase_pending_def set_frame_def)

lemma fail_all_sel [simp]:
  "rc_next (fail_all_pending e st) = rc_next st" "rc_pending (fail_all_pending e st) = rc_pending st"
  "rc_frame (fail_all_pending e st) n =
     (if n \<in> snd ` set (rc_pending st) then wake ((rc_frame st n)\<lparr>fr_failure := Some e\<rparr>) else rc_frame st n)"
  by (simp_all add: fail_all_pending_def)

lemma fail_all_id [simp]: "fr_id (if b then wake (f\<lparr>fr_failure := e\<rparr>) else f) = fr_id f"
  by simp

lemma finish_inv:
  assumes "rpc_inv J ms tr st" "calls (ev # tr) = calls tr" "n < calls tr"
    and "explains J ms n (fr_id (rc_frame st n)) ev r \<or> due J ms n tr (fr_id (rc_frame st n)) r"
  shows "rpc_inv J ms (ev # tr) (finish n r st)"
  by (rule rpc_inv_update [OF assms(1,2)])
    (use assms rpc_invD [OF assms(1)] in \<open>auto simp: set_delete rpc_inv_def intro!: accounted_leave intro: distinct_delete\<close>)

lemma fail_all_accounted:
  assumes "rpc_inv J ms tr st" "n < calls tr" "\<And>i. explains J ms n i ev (Inl e)"
  shows "accounted J ms n (ev # tr) (rc_frame (fail_all_pending e st) n)"
  using assms rpc_invD [OF assms(1)] by (auto intro!: accounted_fail)

lemma disconnect_inv:
  assumes "rpc_inv J ms tr st" "calls (ev # tr) = calls tr" "\<And>n i. explains J ms n i ev (Inl connection_lost)"
  shows "rpc_inv J ms (ev # tr) (disconnect st)"
proof (rule rpc_inv_update [OF assms(1,2)])
  fix n assume n: "n < calls tr"
  have "rc_frame (disconnect st) n = rc_frame (fail_all_pending connection_lost st) n"
    by (simp add: disconnect_def)
  with fail_all_accounted [OF assms(1) n assms(3)] show "accounted J ms n (ev # tr) (rc_frame (disconnect st) n)"
    by simp
qed (use assms in \<open>auto simp: disconnect_def rpc_inv_def\<close>)

lemma write_failed_inv:
  assumes inv: "rpc_inv J ms tr st" and n: "n < calls tr"
  shows "rpc_inv J ms (E_WriteFailed n system msg # tr) (write_failed system msg n st)"
proof (rule rpc_inv_update [OF inv])
  fix m assume m: "m < calls tr"
  let ?e = "mk_error EC_Network msg" and ?ev = "E_WriteFailed n system msg"
  let ?st = "if system then fail_all_pending ?e st else st"
  have acc: "accounted J ms m (?ev # tr) (rc_frame ?st m)"
    using fail_all_accounted [OF inv m, of ?ev ?e] rpc_invD(5) [OF inv m] by (cases system) auto
  show "accounted J ms m (?ev # tr) (rc_frame (write_failed system msg n st) m)"
    using acc m by (auto simp: write_failed_def Let_def simp del: fail_all_sel intro!: accounted_leave)
qed (use inv in \<open>auto simp: write_failed_def Let_def set_delete rpc_inv_def intro: distinct_delete\<close>)

lemma handle_messageE:
  assumes handled: "handle_message J t st = Inr st'"
  obtains (same) "st' = st"
  | (slot) i n r where "answers J t i r" "map_of (rc_pending st) i = Some n"
      "st' = set_frame n (wake (fill_slot r (rc_frame st n))) st"
proof (cases "st' = st")
  case False
  then obtain doc i n r where "jv_parse J t = Inr doc" "message_id_of J doc = Some i" "reply_of J doc = Inr r"
    and "map_of (rc_pending st) i = Some n" "st' = set_frame n (wake (fill_slot r (rc_frame st n))) st"
    using handled by (auto simp: handle_message_def split: sum.splits option.splits)
  then show thesis by (intro slot) (auto simp: answers_def)
qed (rule same)

lemma message_inv:
  assumes inv: "rpc_inv J ms tr st" and handled: "handle_message J t st = Inr st'"
  shows "rpc_inv J ms (E_Message t # tr) st'"
  using handled
proof (cases rule: handle_messageE)
  case same
  then show ?thesis
    using rpc_inv_update [OF inv, of "E_Message t" st] rpc_invD [OF inv] inv by (auto simp: rpc_inv_def)
next
  case (slot i n r)
  note st' = slot(3)
  have reg: "(i, n) \<in> set (rc_pending st)" using slot(2) by (rule map_of_SomeD)
  have ans: "explains J ms n i (E_Message t) r" using slot(1) by simp
  show ?thesis
  proof (rule rpc_inv_update [OF inv])
    fix m assume m: "m < calls tr"
    show "accounted J ms m (E_Message t # tr) (rc_frame st' m)"
    proof (cases "m = n")
      case True
      with ans m rpc_invD(3) [OF inv reg] have "due J ms n (E_Message t # tr) (fr_id (rc_frame st n)) r" by simp
      with True rpc_invD(5) [OF inv m] show ?thesis by (auto simp: st' set_frame_def intro!: accounted_fill)
    qed (use rpc_invD(5) [OF inv m] in \<open>simp add: st' set_frame_def\<close>)
  qed (use inv in \<open>auto simp: st' set_frame_def rpc_inv_def\<close>)
qed

lemma begin_inv:
  assumes inv: "rpc_inv J ms tr st"
  shows "rpc_inv J ms (E_Call i # tr) (begin_call i st)"
proof -
  let ?n = "rc_next st" and ?tr = "E_Call i # tr"
  let ?p = "if i \<in> fst ` set (rc_pending st) then rc_pending st else (i, ?n) # rc_pending st"
  let ?st = "set_frame ?n (new_frame i) (st\<lparr>rc_next := Suc ?n, rc_pending := ?p\<rparr>)"
  note D = rpc_invD [OF inv]
  have inv': "rpc_inv J ms ?tr ?st"
    using inv D(1,3,5) by (auto simp: rpc_inv_def set_frame_def less_Suc_eq)
  have due: "due J ms ?n ?tr i (Inl not_connected)"
    using D(1) by (simp add: due_def since.simps(2))
  have "accounted J ms ?n ?tr (leave (Inl not_connected) (new_frame i))"
    by (rule accounted_leave) (use due in simp_all)
  then have "rpc_inv J ms ?tr (finish ?n (Inl not_connected) ?st)"
    using inv' by (auto simp: rpc_inv_def set_delete set_frame_def less_Suc_eq intro: distinct_delete split: if_splits)
  with inv' show ?thesis by (simp add: begin_call_def Let_def)
qed

lemma rpc_step_inv:
  assumes inv: "rpc_inv J ms tr st" and step: "rpc_step J ms st ev st'"
  shows "rpc_inv J ms (ev # tr) st'"
  using step
proof cases
  case Connected
  then show ?thesis using inv rpc_invD(5) [OF inv] by (auto simp: connect_def rpc_inv_def)
next
  case Lost
  then show ?thesis using disconnect_inv [OF inv] by simp
next
  case (Message t)
  then show ?thesis using message_inv [OF inv] by simp
next
  case (Message_threw t x)
  then have "unreadable J t"
    by (auto simp: handle_message_def unreadable_def split: sum.splits option.splits)
  with Message_threw show ?thesis using disconnect_inv [OF inv] by simp
next
  case (Called i)
  then show ?thesis using begin_inv [OF inv] by simp
next
  case (Write_begin n)
  with finish_inv [OF inv, of "E_WriteBegin n" n "Inl no_stream"] rpc_invD [OF inv] inv show ?thesis
    by (auto simp: write_begin_def at_phase_def set_frame_def accounted_def intro!: rpc_inv_update [OF inv])
      (auto simp: rpc_inv_def)
next
  case (Write_ok n)
  with rpc_invD [OF inv] inv show ?thesis
    by (auto simp: write_ok_def Let_def at_phase_def set_frame_def accounted_def intro!: rpc_inv_update [OF inv])
      (auto simp: rpc_inv_def)
next
  case (Write_failed n system msg)
  then show ?thesis using write_failed_inv [OF inv] rpc_invD(1) [OF inv] by (auto simp: at_phase_def)
next
  case (Resume n)
  then have "n < calls tr" "fr_phase (rc_frame st n) = P_Woken" using rpc_invD(1) [OF inv] by (simp_all add: at_phase_def)
  with Resume accounted_slot [OF rpc_invD(4) [OF inv]] show ?thesis
    by (auto simp: resume_call_def intro!: finish_inv [OF inv])
next
  case (Timeout n)
  with rpc_invD [OF inv] inv show ?thesis
    by (auto simp: expire_def Let_def set_frame_def accounted_def expired_def intro!: rpc_inv_update [OF inv])
      (auto simp: rpc_inv_def)
qed

lemma rpc_run_inv: "rpc_run J ms tr st \<Longrightarrow> rpc_inv J ms tr st"
  by (induction rule: rpc_run.induct) (simp add: rpc_inv_def fresh_rpc_def, rule rpc_step_inv)

subsection \<open>The pending table\<close>

text \<open>
  While no deadline passes and request ids do not repeat, the table holds exactly the calls whose
  coroutine has not ended.
\<close>

definition live :: "'j rpc \<Rightarrow> nat \<Rightarrow> bool" where
  "live st n = (n < rc_next st \<and> fr_phase (rc_frame st n) \<noteq> P_Gone)"

definition tidy :: "'j rpc \<Rightarrow> bool" where
  "tidy st =
     ((\<forall>i n. (i, n) \<in> set (rc_pending st) \<longleftrightarrow> live st n \<and> fr_id (rc_frame st n) = i) \<and>
      (\<forall>n. live st n \<longrightarrow> fr_result (rc_frame st n) = None))"

definition ids_differ :: "'j rpc \<Rightarrow> bool" where
  "ids_differ st = (\<forall>m n. m < rc_next st \<longrightarrow> n < rc_next st \<longrightarrow> fr_id (rc_frame st m) = fr_id (rc_frame st n) \<longrightarrow> m = n)"

fun call_ids :: "rpc_event list \<Rightarrow> string list" where
  "call_ids [] = []"
| "call_ids (E_Call i # tr) = i # call_ids tr"
| "call_ids (_ # tr) = call_ids tr"

lemma frame_gone_simps [simp]:
  "fr_phase (wake f) = P_Gone \<longleftrightarrow> fr_phase f = P_Gone" "fr_result (wake f) = fr_result f"
  "fr_phase (fill_slot r f) = fr_phase f" "fr_result (fill_slot r f) = fr_result f"
  "fr_phase (leave r f) = P_Gone" "fr_phase (new_frame i) = P_Posted" "fr_result (new_frame i) = None"
  by (simp_all add: wake_def fill_slot_def leave_def new_frame_def split: sum.splits)

lemma tidy_registered:
  assumes "tidy st"
  shows "n \<in> snd ` set (rc_pending st) \<longleftrightarrow> live st n"
proof -
  have "n \<in> snd ` set (rc_pending st) \<longleftrightarrow> (\<exists>i. (i, n) \<in> set (rc_pending st))" by force
  with assms show ?thesis by (simp add: tidy_def)
qed

lemma same_frames_tidy:
  assumes "tidy st" "rc_next st' = rc_next st" "rc_pending st' = rc_pending st"
    and "\<And>n. live st n \<Longrightarrow> fr_phase (rc_frame st' n) \<noteq> P_Gone \<and> fr_result (rc_frame st' n) = None"
    and "\<And>n. \<not> live st n \<Longrightarrow> rc_frame st' n = rc_frame st n"
    and "\<And>n. fr_id (rc_frame st' n) = fr_id (rc_frame st n)"
  shows "tidy st'"
proof -
  have "live st' n = live st n" for n
    using assms(2,4,5) by (cases "live st n") (auto simp: live_def)
  with assms show ?thesis by (simp add: tidy_def)
qed

lemma finish_tidy:
  assumes "tidy st" "ids_differ st" "n < rc_next st"
  shows "tidy (finish n r st)"
  using assms by (auto simp: tidy_def live_def ids_differ_def set_delete split: if_splits)

lemma fail_all_tidy: "tidy st \<Longrightarrow> tidy (fail_all_pending e st)"
  by (rule same_frames_tidy) (auto simp: tidy_def live_def)

lemma disconnect_tidy: "tidy st \<Longrightarrow> tidy (disconnect st)"
  by (rule same_frames_tidy [of st]) (auto simp: tidy_def live_def disconnect_def)

lemma step_ids:
  assumes "rpc_step J ms st ev st'"
  shows "map (\<lambda>n. fr_id (rc_frame st' n)) [0..<rc_next st'] =
    map (\<lambda>n. fr_id (rc_frame st n)) [0..<rc_next st] @ (case ev of E_Call i \<Rightarrow> [i] | _ \<Rightarrow> [])"
  using assms
  by cases (auto simp: rpc_defs handle_message_def Let_def new_frame_def split: sum.splits option.splits)

lemma run_ids: "rpc_run J ms tr st \<Longrightarrow> map (\<lambda>n. fr_id (rc_frame st n)) [0..<rc_next st] = rev (call_ids tr)"
proof (induction rule: rpc_run.induct)
  case (Step tr st e st')
  then show ?case by (cases e) (simp_all add: step_ids [OF Step.hyps(2)])
qed (simp add: fresh_rpc_def)

lemma run_ids_differ:
  assumes "rpc_run J ms tr st" "distinct (call_ids tr)"
  shows "ids_differ st"
proof -
  have "distinct (map (\<lambda>n. fr_id (rc_frame st n)) [0..<rc_next st])"
    using run_ids [OF assms(1)] assms(2) by simp
  then show ?thesis by (auto simp: ids_differ_def distinct_map inj_on_def)
qed

lemma begin_tidy:
  assumes t: "tidy st" and new: "\<And>n. n < rc_next st \<Longrightarrow> fr_id (rc_frame st n) \<noteq> i" and d: "ids_differ st"
  shows "tidy (begin_call i st)"
proof -
  let ?n = "rc_next st"
  let ?p = "if i \<in> fst ` set (rc_pending st) then rc_pending st else (i, ?n) # rc_pending st"
  let ?st = "set_frame ?n (new_frame i) (st\<lparr>rc_next := Suc ?n, rc_pending := ?p\<rparr>)"
  have "i \<notin> fst ` set (rc_pending st)" using t new by (auto simp: tidy_def live_def)
  then have "tidy ?st" using t by (auto simp: tidy_def live_def set_frame_def less_Suc_eq)
  moreover have "ids_differ ?st" using d new by (auto simp: ids_differ_def set_frame_def less_Suc_eq)
  ultimately have "tidy (finish ?n r ?st)" for r by (rule finish_tidy) (simp add: set_frame_def)
  with \<open>tidy ?st\<close> show ?thesis by (simp add: begin_call_def Let_def)
qed

lemma step_tidy:
  assumes t: "tidy st" and d: "ids_differ st" and step: "rpc_step J ms st ev st'" and d': "ids_differ st'"
    and quiet: "\<And>n. ev \<noteq> E_Timeout n"
  shows "tidy st'"
  using step
proof cases
  case Connected
  with t show ?thesis by (auto simp: connect_def tidy_def live_def)
next
  case Lost
  with disconnect_tidy [OF t] show ?thesis by simp
next
  case (Message x)
  from Message(3) show ?thesis
  proof (cases rule: handle_messageE)
    case (slot i n r)
    then have "live st n" using t by (auto simp: tidy_def dest: map_of_SomeD)
    then show ?thesis
      unfolding slot(3) using t by (intro same_frames_tidy [OF t]) (auto simp: set_frame_def tidy_def live_def)
  qed (simp add: t)
next
  case (Message_threw x y)
  with disconnect_tidy [OF t] show ?thesis by simp
next
  case (Called i)
  have "fr_id (rc_frame st n) \<noteq> i" if "n < rc_next st" for n
  proof -
    have "rc_next st' = Suc (rc_next st)" "fr_id (rc_frame st' (rc_next st)) = i" "rc_frame st' n = rc_frame st n"
      using that by (auto simp: Called begin_call_def Let_def set_frame_def)
    with d' that show ?thesis unfolding ids_differ_def by (metis less_Suc_eq nat_neq_iff)
  qed
  with begin_tidy [OF t _ d] Called show ?thesis by simp
next
  case (Write_begin n)
  with t finish_tidy [OF t d, of n] show ?thesis
    by (auto simp: write_begin_def at_phase_def set_frame_def live_def tidy_def intro!: same_frames_tidy [OF t])
next
  case (Write_ok n)
  with t show ?thesis
    by (auto simp: write_ok_def Let_def at_phase_def set_frame_def live_def tidy_def intro!: same_frames_tidy [OF t])
next
  case (Write_failed n system msg)
  then have "n < rc_next st" by (auto simp: at_phase_def)
  moreover have "ids_differ (fail_all_pending e st)" for e
    using d by (auto simp: ids_differ_def)
  ultimately show ?thesis using Write_failed fail_all_tidy [OF t] t d
    by (auto simp: write_failed_def Let_def simp del: fail_all_sel(3) intro!: finish_tidy)
next
  case (Resume n)
  with finish_tidy [OF t d, of n] show ?thesis by (simp add: resume_call_def at_phase_def)
next
  case (Timeout n)
  with quiet show ?thesis by blast
qed

lemma run_tidy:
  "rpc_run J ms tr st \<Longrightarrow> distinct (call_ids tr) \<Longrightarrow> (\<And>n. E_Timeout n \<notin> set tr) \<Longrightarrow> tidy st"
proof (induction rule: rpc_run.induct)
  case Start
  then show ?case by (simp add: fresh_rpc_def tidy_def live_def)
next
  case (Step tr st e st')
  have dist: "distinct (call_ids tr)" using Step.prems(1) by (cases e) auto
  have run: "rpc_run J ms (e # tr) st'" using Step.hyps by (rule rpc_run.Step)
  have "tidy st" using Step.IH [OF dist] Step.prems(2) by simp
  then show ?case
    using step_tidy [OF _ run_ids_differ [OF Step.hyps(1) dist] Step.hyps(2) run_ids_differ [OF run Step.prems(1)]]
      Step.prems(2) by force
qed

lemma explains_not_abandoned: "explains J ms n i e r \<Longrightarrow> r \<noteq> Inl abandoned"
  by (cases e) (auto simp: abandoned_def connection_lost_def not_connected_def no_stream_def timeout_error_def
      answers_def reply_of_def split: sum.splits option.splits)

lemma explains_value: "explains J ms n i e (Inr v) \<Longrightarrow> \<exists>t. e = E_Message t \<and> answers J t i (Inr v)"
  by (cases e) auto

text \<open>A connection over a one-line document format: the request id, a colon and the result.\<close>

definition line_json :: "string json_view" where
  "line_json = \<lparr>jv_parse = Inr,
     jv_field = (\<lambda>d k. if k = ''id'' then Some (takeWhile (\<lambda>c. c \<noteq> CHR '':'') d)
                     else if k = ''result'' then Some (tl (dropWhile (\<lambda>c. c \<noteq> CHR '':'') d)) else None),
     jv_is_object = (\<lambda>_. True), jv_string = Some, jv_integer = (\<lambda>_. None), jv_number = (\<lambda>_. None),
     jv_array = (\<lambda>_. None), jv_get_int = (\<lambda>_. Inl []), jv_at_string = (\<lambda>_ _. Inl []),
     jv_value_int = (\<lambda>_ _ d. Inr d), jv_value_int64 = (\<lambda>_ _ d. Inr d), jv_value_string = (\<lambda>_ _ d. Inr d)\<rparr>"

text \<open>The steps as a function, to run concrete histories.\<close>

fun rpc_exec :: "'j json_view \<Rightarrow> int \<Rightarrow> rpc_event \<Rightarrow> 'j rpc \<Rightarrow> 'j rpc option" where
  "rpc_exec J ms E_Connect st = (if rc_connected st then None else Some (connect st))"
| "rpc_exec J ms E_Lost st = (if rc_connected st then Some (disconnect st) else None)"
| "rpc_exec J ms (E_Message t) st =
     (if \<not> rc_connected st then None
      else case handle_message J t st of Inl _ \<Rightarrow> Some (disconnect st) | Inr st' \<Rightarrow> Some st')"
| "rpc_exec J ms (E_Call i) st = Some (begin_call i st)"
| "rpc_exec J ms (E_WriteBegin n) st =
     (if at_phase st n P_Posted \<and> (\<not> expired st n \<or> \<not> rc_stream st) then Some (write_begin n st) else None)"
| "rpc_exec J ms (E_WriteOk n) st = (if at_phase st n P_Writing then Some (write_ok n st) else None)"
| "rpc_exec J ms (E_WriteFailed n system msg) st =
     (if at_phase st n P_Writing \<or> at_phase st n P_Posted \<and> expired st n \<and> system
      then Some (write_failed system msg n st) else None)"
| "rpc_exec J ms (E_Resume n) st = (if at_phase st n P_Woken then Some (resume_call n st) else None)"
| "rpc_exec J ms (E_Timeout n) st = (if n < rc_next st \<and> \<not> expired st n then Some (expire ms n st) else None)"

lemma rpc_exec_iff: "rpc_exec J ms e st = Some st' \<longleftrightarrow> rpc_step J ms st e st'"
proof
  show "rpc_exec J ms e st = Some st' \<Longrightarrow> rpc_step J ms st e st'"
    by (cases e) (auto intro: rpc_step.intros split: if_splits sum.splits)
  show "rpc_step J ms st e st' \<Longrightarrow> rpc_exec J ms e st = Some st'"
    by (erule rpc_stepE) auto
qed

fun replay :: "'j json_view \<Rightarrow> int \<Rightarrow> rpc_event list \<Rightarrow> 'j rpc option" where
  "replay J ms [] = Some fresh_rpc"
| "replay J ms (e # tr) = Option.bind (replay J ms tr) (rpc_exec J ms e)"

lemma replay_run: "replay J ms tr = Some st \<Longrightarrow> rpc_run J ms tr st"
  by (induction tr arbitrary: st) (auto simp: rpc_exec_iff Option.bind_eq_Some_conv intro: rpc_run.intros)

definition sample_events :: "rpc_event list" where
  "sample_events = [E_Resume 0, E_Message ''a:done'', E_WriteOk 0, E_WriteBegin 0, E_Call ''a'', E_Connect]"

definition early_events :: "rpc_event list" where
  "early_events = [E_WriteOk 0, E_Message ''a:done'', E_WriteBegin 0, E_Call ''a'', E_Connect]"

definition expiring_events :: "rpc_event list" where
  "expiring_events = [E_Timeout 0, E_WriteOk 0, E_WriteBegin 0, E_Call ''a'', E_Connect]"

lemma replayed: "(case replay J ms tr of None \<Rightarrow> False | Some st \<Rightarrow> P st) \<Longrightarrow> \<exists>st. rpc_run J ms tr st \<and> P st"
  by (cases "replay J ms tr") (auto dest: replay_run)

text \<open>
  C18. Whatever the daemon sends and however calls, writes, failures, reconnects and deadlines interleave,
  the result of a call has a cause after the call began, addressed to it: a value is the result
  of a message that carries the request id of this very call, an error is the daemon's answer to that
  id, a lost connection, a failed write or the call's own deadline. No call ends with an
  abandoned slot.
\<close>
theorem aria2_results_accounted:
  assumes "rpc_run J ms tr st" "n < rc_next st" "fr_result (rc_frame st n) = Some r"
  shows "(\<exists>e \<in> set (since n tr). explains J ms n (rev (call_ids tr) ! n) e r) \<and>
    (\<forall>v. r = Inr v \<longrightarrow> (\<exists>t. E_Message t \<in> set (since n tr) \<and> answers J t (rev (call_ids tr) ! n) (Inr v))) \<and>
    r \<noteq> Inl abandoned"
proof -
  have id: "fr_id (rc_frame st n) = rev (call_ids tr) ! n"
    using arg_cong [OF run_ids [OF assms(1)], of "\<lambda>xs. xs ! n"] assms(2) by simp
  have "accounted J ms n tr (rc_frame st n)"
    using rpc_run_inv [OF assms(1)] assms(2) by (simp add: rpc_inv_def)
  then obtain e where "e \<in> set (since n tr)" "explains J ms n (rev (call_ids tr) ! n) e r"
    using assms(3) id by (auto simp: accounted_def due_def)
  then show ?thesis using explains_value [of J ms n] explains_not_abandoned [of J ms n] by blast
qed

theorem aria2_results_accounted_witness:
  "\<exists>t. E_Message t \<in> set (since 0 sample_events) \<and> answers line_json t ''a'' (Inr ''done'')"
proof -
  have "case replay line_json 5000 sample_events of None \<Rightarrow> False
      | Some st \<Rightarrow> 0 < rc_next st \<and> fr_result (rc_frame st 0) = Some (Inr ''done'')"
    by code_simp
  then obtain st where st: "rpc_run line_json 5000 sample_events st" "0 < rc_next st"
      "fr_result (rc_frame st 0) = Some (Inr ''done'')"
    by (auto dest!: replayed)
  have "rev (call_ids sample_events) ! 0 = ''a''" by code_simp
  with aria2_results_accounted [OF st] show ?thesis by simp
qed

text \<open>
  As long as request ids differ and no deadline passes, \<open>pending_\<close> holds exactly the calls that
  have not ended. A waiting call is woken by the answer to its id and by the loss of the connection, and
  a woken call ends with a result at its next step.
\<close>
theorem aria2_pending_exact:
  assumes "rpc_run J ms tr st" "distinct (call_ids tr)" "\<forall>n. E_Timeout n \<notin> set tr"
  shows "(\<forall>i n. (i, n) \<in> set (rc_pending st) \<longleftrightarrow> live st n \<and> fr_id (rc_frame st n) = i) \<and>
    (\<forall>n t r st'. at_phase st n P_Waiting \<longrightarrow> answers J t (fr_id (rc_frame st n)) r \<longrightarrow>
       rpc_step J ms st (E_Message t) st' \<longrightarrow> at_phase st' n P_Woken) \<and>
    (\<forall>n st'. rpc_step J ms st E_Lost st' \<longrightarrow> \<not> at_phase st' n P_Waiting) \<and>
    (\<forall>n st'. at_phase st n P_Woken \<longrightarrow> rpc_step J ms st (E_Resume n) st' \<longrightarrow>
       \<not> live st' n \<and> fr_result (rc_frame st' n) = Some (slot_result (rc_frame st n)))"
proof -
  have t: "tidy st" using run_tidy [OF assms(1,2)] assms(3) by blast
  note inv = rpc_run_inv [OF assms(1)]
  have reg: "map_of (rc_pending st) (fr_id (rc_frame st n)) = Some n" if "live st n" for n
    using t that inv by (intro map_of_is_SomeI) (auto simp: tidy_def rpc_inv_def)
  have "at_phase st' n P_Woken" if "at_phase st n P_Waiting" "answers J x (fr_id (rc_frame st n)) r"
    "rpc_step J ms st (E_Message x) st'" for n x r st'
  proof -
    have "live st n" using that(1) by (simp add: at_phase_def live_def)
    then have handled: "handle_message J x st = Inr (set_frame n (wake (fill_slot r (rc_frame st n))) st)"
      using reg [of n] that(2) by (auto simp: handle_message_def answers_def split: sum.splits)
    from that(3) have "st' = set_frame n (wake (fill_slot r (rc_frame st n))) st"
      by cases (use handled in simp_all)
    with that(1) show ?thesis by (simp add: at_phase_def set_frame_def wake_def)
  qed
  moreover have "\<not> at_phase st' n P_Waiting" if "rpc_step J ms st E_Lost st'" for n st'
  proof -
    have st': "st' = disconnect st" using that by cases simp_all
    show ?thesis using tidy_registered [OF t, of n]
      by (auto simp: st' at_phase_def disconnect_def wake_def live_def)
  qed
  moreover have "\<not> live st' n \<and> fr_result (rc_frame st' n) = Some (slot_result (rc_frame st n))"
    if "at_phase st n P_Woken" "rpc_step J ms st (E_Resume n) st'" for n st'
  proof -
    have st': "st' = resume_call n st" using that(2) by cases simp_all
    have "live st n" using that(1) by (simp add: at_phase_def live_def)
    then have "fr_result (rc_frame st n) = None" using t by (simp add: tidy_def)
    then show ?thesis by (simp add: st' resume_call_def live_def leave_def)
  qed
  ultimately show ?thesis using t unfolding tidy_def by blast
qed

theorem aria2_pending_exact_witness:
  "\<exists>st st'. rpc_run line_json 5000 (drop 2 sample_events) st \<and> (''a'', 0) \<in> set (rc_pending st) \<and>
     rpc_step line_json 5000 st (E_Message ''a:done'') st' \<and> at_phase st' 0 P_Woken"
proof -
  have "case replay line_json 5000 (drop 2 sample_events) of None \<Rightarrow> False
      | Some st \<Rightarrow> at_phase st 0 P_Waiting \<and> fr_id (rc_frame st 0) = ''a'' \<and>
          (case rpc_exec line_json 5000 (E_Message ''a:done'') st of None \<Rightarrow> False | Some _ \<Rightarrow> True)"
    by code_simp
  from replayed [OF this] obtain st st' where st: "rpc_run line_json 5000 (drop 2 sample_events) st"
      "at_phase st 0 P_Waiting" "fr_id (rc_frame st 0) = ''a''"
      "rpc_step line_json 5000 st (E_Message ''a:done'') st'"
    by (auto simp flip: rpc_exec_iff split: option.splits)
  have "answers line_json ''a:done'' ''a'' (Inr ''done'')"
    by (simp add: answers_def line_json_def message_id_of_def reply_of_def)
  moreover have "live st 0" using st(2) by (simp add: live_def at_phase_def)
  moreover have "distinct (call_ids (drop 2 sample_events))" "\<forall>n. E_Timeout n \<notin> set (drop 2 sample_events)"
    by (simp_all add: sample_events_def)
  note exact = aria2_pending_exact [OF st(1) this]
  ultimately have "at_phase st' 0 P_Woken" "(''a'', 0) \<in> set (rc_pending st)"
    using exact [THEN conjunct2, THEN conjunct1, rule_format, of 0 "''a:done''" "Inr ''done''" st']
      exact [THEN conjunct1, rule_format, of "''a''" 0] st by simp_all
  with st show ?thesis by blast
qed

text \<open>
  The wake-up of a call can be lost: when the answer is read before the write has completed, cancelling
  the timer wakes nobody, and the call then waits although its answer is in the slot.
\<close>
theorem aria2_early_answer_is_missed:
  "\<exists>st. rpc_run line_json 5000 early_events st \<and>
     at_phase st 0 P_Waiting \<and> fr_response (rc_frame st 0) = Some ''done''"
proof -
  have "case replay line_json 5000 early_events of
      None \<Rightarrow> False | Some st \<Rightarrow> at_phase st 0 P_Waiting \<and> fr_response (rc_frame st 0) = Some ''done''"
    by code_simp
  from replayed [OF this] show ?thesis .
qed

text \<open>A call whose deadline passes while it waits leaves its entry in \<open>pending_\<close>.\<close>
theorem aria2_timeout_keeps_entry:
  "\<exists>st. rpc_run line_json 5000 expiring_events st \<and>
     \<not> live st 0 \<and> rc_pending st = [(''a'', 0)]"
proof -
  have "case replay line_json 5000 expiring_events of
      None \<Rightarrow> False | Some st \<Rightarrow> \<not> live st 0 \<and> rc_pending st = [(''a'', 0)]"
    by (simp add: expiring_events_def rpc_defs fresh_rpc_def new_frame_def at_phase_def expired_def live_def Let_def)
  from replayed [OF this] show ?thesis .
qed

end
