(* ===== verification/Aria2_Downloader.thy ===== *)
theory Aria2_Downloader
  imports Aria2_Rpc Encodings Ports
begin

text \<open>
  The download backend of \<open>src/infrastructure/download/aria2_downloader.cpp\<close> above its connection: request ids and
  documents, the addresses it connects to and when it connects again, the reading of status documents, and
  the operations of \<open>DownloaderInterface\<close>. An operation reaches the daemon through \<open>rpc\<close>, which stands for
  \<open>Impl::call\<close>.
\<close>

subsection \<open>Connecting\<close>

record ws_url =
  wu_tls :: bool
  wu_host :: string
  wu_port :: string
  wu_target :: string

definition parse_ws_url :: "string \<Rightarrow> ws_url option" where
  "parse_ws_url url =
     (case (if take 6 url = ''wss://'' then Some (True, drop 6 url)
            else if take 5 url = ''ws://'' then Some (False, drop 5 url) else None) of
        None \<Rightarrow> None
      | Some (tls, rest) \<Rightarrow>
          (let authority = takeWhile (\<lambda>c. c \<noteq> CHR ''/'') rest;
               target = dropWhile (\<lambda>c. c \<noteq> CHR ''/'') rest;
               target = (if target = [] then ''/'' else target);
               (host, port) = (case split_last CHR '':'' authority of
                   None \<Rightarrow> (authority, if tls then ''443'' else ''80'')
                 | Some hp \<Rightarrow> hp) in
           if host = [] \<or> port = [] then None
           else Some \<lparr>wu_tls = tls, wu_host = host, wu_port = port, wu_target = target\<rparr>))"

text \<open>
  The delays of \<open>run_loop\<close>, in seconds: \<open>True\<close> is a round in which the connection was made (and then lost),
  \<open>False\<close> one in which connecting failed.
\<close>

definition kReconnectInitial :: nat where "kReconnectInitial = 1"

definition kReconnectMax :: nat where "kReconnectMax = 30"

fun reconnect_delays :: "nat \<Rightarrow> bool list \<Rightarrow> nat list" where
  "reconnect_delays backoff [] = []"
| "reconnect_delays backoff (ok # rounds) =
     (let backoff = (if ok then kReconnectInitial else backoff) in
      backoff # reconnect_delays (min (backoff * 2) kReconnectMax) rounds)"

subsection \<open>Requests\<close>

definition id_alphabet :: string where
  "id_alphabet = ''abcdefghijklmnopqrstuvwxyz0123456789''"

text \<open>Twelve draws of the uniform distribution over the alphabet.\<close>

definition make_request_id :: "nat list \<Rightarrow> string" where
  "make_request_id draws = map (\<lambda>d. id_alphabet ! d) draws"

definition build_request :: "aria2_config \<Rightarrow> string \<Rightarrow> string \<Rightarrow> json_out list \<Rightarrow> json_out" where
  "build_request cfg i mthd params =
     (let params = (if ar_secret cfg = [] then params else JO_String (''token:'' @ ar_secret cfg) # params) in
      JO_Object [(''jsonrpc'', JO_String ''2.0''), (''id'', JO_String i), (''method'', JO_String mthd),
        (''params'', JO_Array params)])"

definition build_global_throughput_options :: "(string \<times> string) list" where
  "build_global_throughput_options =
     [(''max-connection-per-server'', ''16''), (''split'', ''16''), (''min-split-size'', ''1M''),
      (''disk-cache'', ''128M''), (''max-tries'', ''5''), (''retry-wait'', ''5''),
      (''max-overall-download-limit'', ''0''), (''max-overall-upload-limit'', ''0''),
      (''max-file-not-found'', ''10''), (''max-concurrent-downloads'', ''16'')]"

record download_options =
  op_save_directory :: "string option"
  op_extras :: "(string \<times> string) list"

definition throughput_defaults :: "(string \<times> string) list" where
  "throughput_defaults =
     [(''max-connection-per-server'', ''16''), (''split'', ''16''), (''min-split-size'', ''1M''),
      (''max-tries'', ''5''), (''retry-wait'', ''5''), (''continue'', ''true''), (''file-allocation'', ''falloc''),
      (''piece-length'', ''1M''), (''check-integrity'', ''false''), (''allow-overwrite'', ''false''),
      (''auto-file-renaming'', ''true''), (''always-resume'', ''true'')]"

definition build_options :: "download_options \<Rightarrow> (string \<times> string) list" where
  "build_options opts =
     (let out = throughput_defaults;
          out = (case op_save_directory opts of None \<Rightarrow> out | Some d \<Rightarrow> AList.update ''dir'' d out) in
      fold (\<lambda>(k, v) out. AList.update k v out) (op_extras opts) out)"

definition options_json :: "(string \<times> string) list \<Rightarrow> json_out" where
  "options_json out = JO_Object (map (\<lambda>(k, v). (k, JO_String v)) out)"

subsection \<open>Reading the daemon's documents\<close>

definition aria2_parse_state :: "string \<Rightarrow> download_state" where
  "aria2_parse_state s =
     (if s = ''active'' then DS_Downloading
      else if s = ''waiting'' then DS_Queued
      else if s = ''paused'' then DS_Paused
      else if s = ''complete'' then DS_Complete
      else if s = ''error'' then DS_Error
      else if s = ''removed'' then DS_Removed
      else DS_Queued)"

text \<open>Numbers come as strings; a missing member reads as the null document and gives the fallback.\<close>

definition json_str_int64 :: "'j json_view \<Rightarrow> 'j option \<Rightarrow> int \<Rightarrow> int" where
  "json_str_int64 J v fallback =
     (case v of
        None \<Rightarrow> fallback
      | Some j \<Rightarrow>
          (case jv_string J j of
             Some s \<Rightarrow> (case stoll s of Some i \<Rightarrow> i | None \<Rightarrow> fallback)
           | None \<Rightarrow> (case jv_integer J j of Some i \<Rightarrow> i | None \<Rightarrow> fallback)))"

text \<open>\<open>static_cast<int>\<close> of a 64-bit value.\<close>

definition wrap32 :: "int \<Rightarrow> int" where
  "wrap32 x = (x + 2 ^ 31) mod 2 ^ 32 - 2 ^ 31"

text \<open>The paths of a \<open>files\<close> member, as \<open>status\<close> and \<open>remove\<close> read it.\<close>

definition file_paths :: "'j json_view \<Rightarrow> 'j \<Rightarrow> string list" where
  "file_paths J j =
     (case Option.bind (jv_field J j ''files'') (jv_array J) of
        None \<Rightarrow> []
      | Some fs \<Rightarrow> List.map_filter (\<lambda>f. string_member J f ''path'') fs)"

definition aria2_eta :: "int \<Rightarrow> int \<Rightarrow> int \<Rightarrow> int" where
  "aria2_eta total_bytes downloaded speed =
     (if speed > 0 \<and> total_bytes > 0
      then (let remaining = wrap64 (total_bytes - downloaded) in if remaining > 0 then remaining div speed else 0)
      else 0)"

definition aria2_to_status :: "'j json_view \<Rightarrow> 'j \<Rightarrow> download_status" where
  "aria2_to_status J j =
     (let num = (\<lambda>k. json_str_int64 J (jv_field J j k) 0);
          files = file_paths J j;
          name = (case files of [] \<Rightarrow> [] | f # _ \<Rightarrow> path_filename f);
          s = empty_status\<lparr>
            dl_id := (case string_member J j ''gid'' of Some g \<Rightarrow> Gid g | None \<Rightarrow> Gid []),
            dl_state := (case string_member J j ''status'' of Some t \<Rightarrow> aria2_parse_state t | None \<Rightarrow> DS_Queued),
            dl_total_bytes := num ''totalLength'', dl_downloaded_bytes := num ''completedLength'',
            dl_uploaded_bytes := num ''uploadLength'', dl_download_speed_bps := num ''downloadSpeed'',
            dl_upload_speed_bps := num ''uploadSpeed'',
            dl_eta := aria2_eta (num ''totalLength'') (num ''completedLength'') (num ''downloadSpeed''),
            dl_error_message := string_member J j ''errorMessage'',
            dl_save_path := string_member J j ''dir'', dl_files := files, dl_name := name\<rparr> in
      case jv_field J j ''bittorrent'' of
        None \<Rightarrow> s
      | Some bt \<Rightarrow>
          if \<not> jv_is_object J bt then s
          else s\<lparr>
            dl_name := (case jv_field J bt ''info'' of
                None \<Rightarrow> name
              | Some info \<Rightarrow> if jv_is_object J info
                  then (case string_member J info ''name'' of Some n \<Rightarrow> n | None \<Rightarrow> name) else name),
            dl_num_seeders := map_option (\<lambda>v. wrap32 (json_str_int64 J (Some v) 0)) (jv_field J j ''numSeeders''),
            dl_num_leechers := map_option (\<lambda>v. wrap32 (json_str_int64 J (Some v) 0)) (jv_field J j ''connections''),
            dl_seed_ratio := (if dl_uploaded_bytes s > 0 \<and> dl_downloaded_bytes s > 0
                then Some (of_int (dl_uploaded_bytes s) / of_int (dl_downloaded_bytes s)) else None)\<rparr>)"

subsection \<open>The operations\<close>

type_synonym ('w, 'j) rpc_call = "string \<Rightarrow> json_out list \<Rightarrow> ('w, 'j res) state"

definition gid_of_reply :: "'j json_view \<Rightarrow> string \<Rightarrow> 'j res \<Rightarrow> gid res" where
  "gid_of_reply J err r =
     (case r of
        Inl e \<Rightarrow> Inl e
      | Inr v \<Rightarrow> (case jv_string J v of None \<Rightarrow> Inl (mk_error EC_Aria2Rpc err) | Some g \<Rightarrow> Inr (Gid g)))"

definition aria2_add_uri :: "'j json_view \<Rightarrow> ('w, 'j) rpc_call \<Rightarrow> string \<Rightarrow> download_options \<Rightarrow> ('w, gid res) state" where
  "aria2_add_uri J rpc uri opts = do {
     r \<leftarrow> rpc ''aria2.addUri'' [JO_Array [JO_String uri], options_json (build_options opts)];
     State_Monad.return (gid_of_reply J ''aria2.addUri returned non-string gid'' r)
   }"

definition aria2_add_torrent :: "'j json_view \<Rightarrow> ('w, 'j) rpc_call \<Rightarrow> byte list \<Rightarrow> download_options \<Rightarrow> ('w, gid res) state" where
  "aria2_add_torrent J rpc torrent opts = do {
     r \<leftarrow> rpc ''aria2.addTorrent'' [JO_String (base64_encode torrent), JO_Array [], options_json (build_options opts)];
     State_Monad.return (gid_of_reply J ''aria2.addTorrent returned non-string gid'' r)
   }"

definition unit_of_reply :: "'j res \<Rightarrow> unit res" where
  "unit_of_reply r = (case r of Inl e \<Rightarrow> Inl e | Inr _ \<Rightarrow> Inr ())"

definition aria2_pause :: "('w, 'j) rpc_call \<Rightarrow> gid \<Rightarrow> ('w, unit res) state" where
  "aria2_pause rpc g = do { r \<leftarrow> rpc ''aria2.pause'' [JO_String (gid_value g)]; State_Monad.return (unit_of_reply r) }"

definition aria2_resume :: "('w, 'j) rpc_call \<Rightarrow> gid \<Rightarrow> ('w, unit res) state" where
  "aria2_resume rpc g = do { r \<leftarrow> rpc ''aria2.unpause'' [JO_String (gid_value g)]; State_Monad.return (unit_of_reply r) }"

fun unlink_all :: "(string \<Rightarrow> ('w, unit) state) \<Rightarrow> string list \<Rightarrow> ('w, unit) state" where
  "unlink_all unlink [] = State_Monad.return ()"
| "unlink_all unlink (p # ps) = do { _ \<leftarrow> unlink p; unlink_all unlink ps }"

definition aria2_remove ::
    "'j json_view \<Rightarrow> ('w, 'j) rpc_call \<Rightarrow> (string \<Rightarrow> ('w, unit) state) \<Rightarrow> gid \<Rightarrow> bool \<Rightarrow> ('w, unit res) state" where
  "aria2_remove J rpc unlink g delete_files = do {
     files \<leftarrow> (if delete_files then do {
         r \<leftarrow> rpc ''aria2.tellStatus'' [JO_String (gid_value g), JO_Array [JO_String ''files'']];
         State_Monad.return (case r of Inl _ \<Rightarrow> [] | Inr j \<Rightarrow> if jv_is_object J j then file_paths J j else [])
       } else State_Monad.return []);
     r \<leftarrow> rpc ''aria2.remove'' [JO_String (gid_value g)];
     (case r of
        Inl e \<Rightarrow> State_Monad.return (Inl e)
      | Inr _ \<Rightarrow> do {
          _ \<leftarrow> (if delete_files then unlink_all unlink files else State_Monad.return ());
          State_Monad.return (Inr ())
        })
   }"

definition aria2_status :: "'j json_view \<Rightarrow> ('w, 'j) rpc_call \<Rightarrow> gid \<Rightarrow> ('w, download_status res) state" where
  "aria2_status J rpc g = do {
     r \<leftarrow> rpc ''aria2.tellStatus'' [JO_String (gid_value g)];
     State_Monad.return (case r of
        Inl e \<Rightarrow> Inl e
      | Inr j \<Rightarrow> if jv_is_object J j then Inr (aria2_to_status J j)
               else Inl (mk_error EC_Aria2Rpc ''aria2.tellStatus returned non-object''))
   }"

text \<open>\<open>None\<close>: reading an element that is not an object throws out of the coroutine.\<close>

definition aria2_active :: "'j json_view \<Rightarrow> ('w, 'j) rpc_call \<Rightarrow> ('w, download_status list res option) state" where
  "aria2_active J rpc = do {
     r \<leftarrow> rpc ''aria2.tellActive'' [];
     State_Monad.return (case r of
        Inl e \<Rightarrow> Some (Inl e)
      | Inr j \<Rightarrow> (case jv_array J j of
            None \<Rightarrow> Some (Inl (mk_error EC_Aria2Rpc ''aria2.tellActive returned non-array''))
          | Some xs \<Rightarrow> if list_all (jv_is_object J) xs then Some (Inr (map (aria2_to_status J) xs)) else None))
   }"

record global_stats =
  gs_download_speed_bps :: int
  gs_upload_speed_bps :: int
  gs_active_count :: int
  gs_waiting_count :: int
  gs_stopped_count :: int

definition aria2_global_stats :: "'j json_view \<Rightarrow> ('w, 'j) rpc_call \<Rightarrow> ('w, global_stats res) state" where
  "aria2_global_stats J rpc = do {
     r \<leftarrow> rpc ''aria2.getGlobalStat'' [];
     State_Monad.return (case r of
        Inl e \<Rightarrow> Inl e
      | Inr j \<Rightarrow> if \<not> jv_is_object J j then Inl (mk_error EC_Aria2Rpc ''aria2.getGlobalStat returned non-object'')
          else (let num = (\<lambda>k. json_str_int64 J (jv_field J j k) 0) in
            Inr \<lparr>gs_download_speed_bps = num ''downloadSpeed'', gs_upload_speed_bps = num ''uploadSpeed'',
                 gs_active_count = wrap32 (num ''numActive''), gs_waiting_count = wrap32 (num ''numWaiting''),
                 gs_stopped_count = wrap32 (num ''numStopped'')\<rparr>))
   }"

subsection \<open>Addresses\<close>

definition print_ws_url :: "ws_url \<Rightarrow> string" where
  "print_ws_url u = (if wu_tls u then ''wss://'' else ''ws://'') @ wu_host u @ '':'' @ wu_port u @ wu_target u"

lemma parse_scheme:
  "(if take 6 ((if b then ''wss://'' else ''ws://'') @ r) = ''wss://''
    then Some (True, drop 6 ((if b then ''wss://'' else ''ws://'') @ r))
    else if take 5 ((if b then ''wss://'' else ''ws://'') @ r) = ''ws://''
    then Some (False, drop 5 ((if b then ''wss://'' else ''ws://'') @ r)) else None) = Some (b, r)"
  by (cases b) (simp_all add: take_Cons' drop_Cons')

lemma ws_url_roundtrip:
  assumes "wu_host u \<noteq> []" "wu_port u \<noteq> []" "CHR ''/'' \<notin> set (wu_host u)" "CHR ''/'' \<notin> set (wu_port u)"
    and "CHR '':'' \<notin> set (wu_port u)" "wu_target u = CHR ''/'' # t"
  shows "parse_ws_url (print_ws_url u) = Some u"
proof -
  define a where "a = wu_host u @ '':'' @ wu_port u"
  have eq: "print_ws_url u = (if wu_tls u then ''wss://'' else ''ws://'') @ a @ CHR ''/'' # t"
    by (simp add: print_ws_url_def assms(6) a_def)
  have "CHR ''/'' \<notin> set a" using assms by (simp add: a_def)
  note split = authority_split(1,2) [OF this]
  have colon: "split_last CHR '':'' a = Some (wu_host u, wu_port u)"
    unfolding a_def using split_last_append [OF assms(5)] by simp
  show ?thesis
    unfolding parse_ws_url_def eq parse_scheme using assms(1,2) by (simp add: Let_def split colon) (simp add: assms(6) [symmetric])
qed

lemma ws_url_default_port:
  assumes "h \<noteq> []" "CHR ''/'' \<notin> set h" "CHR '':'' \<notin> set h"
  shows "parse_ws_url ((if tls then ''wss://'' else ''ws://'') @ h) =
    Some \<lparr>wu_tls = tls, wu_host = h, wu_port = (if tls then ''443'' else ''80''), wu_target = ''/''\<rparr>"
  unfolding parse_ws_url_def parse_scheme
  using assms(1) by (simp add: Let_def authority_split(3,4) [OF assms(2)] split_last_none [OF assms(3)])

subsection \<open>Options\<close>

lemma map_of_updates: "map_of (fold (\<lambda>(k, v) out. AList.update k v out) kvs out) k =
    (case map_of (rev kvs) k of Some v \<Rightarrow> Some v | None \<Rightarrow> map_of out k)"
proof (induction kvs arbitrary: out)
  case (Cons kv kvs)
  then show ?case by (cases kv) (auto simp: update_conv' map_add_def split: option.splits)
qed simp

lemma build_options_lookup:
  "map_of (build_options opts) k =
     (case map_of (rev (op_extras opts)) k of
        Some v \<Rightarrow> Some v
      | None \<Rightarrow> if k = ''dir'' \<and> op_save_directory opts \<noteq> None then op_save_directory opts
               else map_of throughput_defaults k)"
  by (auto simp: build_options_def Let_def map_of_updates update_conv' split: option.splits)

subsection \<open>Reconnecting\<close>

lemma reconnect_bounds: "1 \<le> b \<Longrightarrow> b \<le> 30 \<Longrightarrow> d \<in> set (reconnect_delays b rounds) \<Longrightarrow> 1 \<le> d \<and> d \<le> 30"
proof (induction rounds arbitrary: b)
  case (Cons ok rounds)
  then show ?case
    using Cons.IH [of "min (2 * (if ok then 1 else b)) 30"]
    by (auto simp: Let_def kReconnectInitial_def kReconnectMax_def mult.commute split: if_splits)
qed simp

lemma reconnect_doubles:
  "reconnect_delays (min (2 ^ k) 30) (replicate n False) = map (\<lambda>i. min (2 ^ i) 30) [k..<k + n]"
proof (induction n arbitrary: k)
  case (Suc n)
  have "min (min (2 ^ k) 30 * 2) kReconnectMax = min (2 ^ Suc k) (30 :: nat)"
    by (auto simp: kReconnectMax_def min_def)
  moreover have "[k..<k + Suc n] = k # [Suc k..<Suc k + n]" by (simp add: upt_conv_Cons)
  ultimately show ?case using Suc.IH [of "Suc k"] by (simp add: Let_def del: power_Suc)
qed simp

lemma reconnect_append:
  "\<exists>b. reconnect_delays b0 (xs @ ys) = reconnect_delays b0 xs @ reconnect_delays b ys"
  by (induction xs arbitrary: b0) (auto simp: Let_def)

lemma reconnect_length [simp]: "length (reconnect_delays b rounds) = length rounds"
  by (induction rounds arbitrary: b) (simp_all add: Let_def)

lemma reconnect_after_success:
  "drop (length xs) (reconnect_delays b0 (xs @ True # replicate n False)) = map (\<lambda>i. min (2 ^ i) 30) [0..<Suc n]"
proof -
  obtain b where "reconnect_delays b0 (xs @ True # replicate n False) = reconnect_delays b0 xs @ reconnect_delays b (True # replicate n False)"
    using reconnect_append [of b0 xs] by blast
  moreover have "reconnect_delays b (True # replicate n False) = map (\<lambda>i. min (2 ^ i) 30) [0..<Suc n]"
    using reconnect_doubles [of 1 n] by (simp add: Let_def kReconnectInitial_def kReconnectMax_def upt_conv_Cons del: upt_Suc)
  ultimately show ?thesis by simp
qed

subsection \<open>Properties\<close>

text \<open>The world of the operations as the list of what they did; \<open>ans\<close> is whatever the daemon answers.\<close>

datatype aria2_effect = AE_Rpc string "json_out list" | AE_Unlink string

definition logged_rpc :: "(string \<Rightarrow> aria2_effect list \<Rightarrow> 'j res) \<Rightarrow> (aria2_effect list, 'j) rpc_call" where
  "logged_rpc ans m ps = State (\<lambda>l. (ans m l, l @ [AE_Rpc m ps]))"

definition logged_unlink :: "string \<Rightarrow> (aria2_effect list, unit) state" where
  "logged_unlink p = State (\<lambda>l. ((), l @ [AE_Unlink p]))"

lemma run_logged [run_simps]:
  "run_state (logged_rpc ans m ps) l = (ans m l, l @ [AE_Rpc m ps])"
  "run_state (logged_unlink p) l = ((), l @ [AE_Unlink p])"
  by (simp_all add: logged_rpc_def logged_unlink_def)

lemma run_unlink_all [run_simps]: "run_state (unlink_all logged_unlink ps) l = ((), l @ map AE_Unlink ps)"
  by (induction ps arbitrary: l) (simp_all add: run_simps)

text \<open>
  Removing a download sends the daemon the removal of that download and of no other. Files are unlinked
  only when asked for and only after the daemon removed the download, and then exactly those that the
  daemon reported for it just before; pausing and resuming are one call for that download.
\<close>
theorem aria2_remove_scope:
  "run_state (aria2_remove J (logged_rpc ans) logged_unlink g delete_files) [] =
     (let ask = AE_Rpc ''aria2.tellStatus'' [JO_String (gid_value g), JO_Array [JO_String ''files'']];
          rm = AE_Rpc ''aria2.remove'' [JO_String (gid_value g)];
          before = (if delete_files then [ask] else []);
          files = (case ans ''aria2.tellStatus'' [] of Inr j \<Rightarrow> if jv_is_object J j then file_paths J j else [] | Inl _ \<Rightarrow> []) in
      (unit_of_reply (ans ''aria2.remove'' before),
       before @ [rm] @ (if delete_files \<and> \<not> isl (ans ''aria2.remove'' before) then map AE_Unlink files else []))) \<and>
   run_state (aria2_pause (logged_rpc ans) g) l =
     (unit_of_reply (ans ''aria2.pause'' l), l @ [AE_Rpc ''aria2.pause'' [JO_String (gid_value g)]]) \<and>
   run_state (aria2_resume (logged_rpc ans) g) l =
     (unit_of_reply (ans ''aria2.unpause'' l), l @ [AE_Rpc ''aria2.unpause'' [JO_String (gid_value g)]])"
  by (auto simp: aria2_remove_def aria2_pause_def aria2_resume_def run_simps Let_def unit_of_reply_def split: sum.splits)

text \<open>
  The addresses and payloads survive their encoding: the URL of host, port and path is read back as
  those, an address without a port gets the default of its scheme, the torrent sent as Base64 decodes to the
  torrent, and an option of the request is the caller's last value for it, then the save directory,
  then the default.
\<close>
theorem aria2_requests_roundtrip:
  assumes "wu_host u \<noteq> []" "wu_port u \<noteq> []" "CHR ''/'' \<notin> set (wu_host u)" "CHR ''/'' \<notin> set (wu_port u)"
    and "CHR '':'' \<notin> set (wu_port u)" "wu_target u = CHR ''/'' # t"
  shows "parse_ws_url (print_ws_url u) = Some u \<and>
    (CHR '':'' \<notin> set (wu_host u) \<longrightarrow>
      parse_ws_url ((if wu_tls u then ''wss://'' else ''ws://'') @ wu_host u) =
        Some (u\<lparr>wu_port := (if wu_tls u then ''443'' else ''80''), wu_target := ''/''\<rparr>)) \<and>
    base64_decode (base64_encode torrent) = Some torrent \<and>
    length (base64_encode torrent) = 4 * ((length torrent + 2) div 3) \<and>
    map_of (build_options opts) k =
      (case map_of (rev (op_extras opts)) k of
         Some v \<Rightarrow> Some v
       | None \<Rightarrow> if k = ''dir'' \<and> op_save_directory opts \<noteq> None then op_save_directory opts
                else map_of throughput_defaults k)"
proof -
  have "CHR '':'' \<notin> set (wu_host u) \<longrightarrow>
      parse_ws_url ((if wu_tls u then ''wss://'' else ''ws://'') @ wu_host u) =
        Some (u\<lparr>wu_port := (if wu_tls u then ''443'' else ''80''), wu_target := ''/''\<rparr>)"
    using ws_url_default_port [OF assms(1,3), of "wu_tls u"] by (cases u) simp
  with ws_url_roundtrip [OF assms] show ?thesis
    using base64_roundtrip base64_length build_options_lookup by blast
qed

theorem aria2_requests_roundtrip_witness:
  "parse_ws_url (print_ws_url \<lparr>wu_tls = False, wu_host = ''localhost'', wu_port = ''6800'', wu_target = ''/jsonrpc''\<rparr>) =
     Some \<lparr>wu_tls = False, wu_host = ''localhost'', wu_port = ''6800'', wu_target = ''/jsonrpc''\<rparr> \<and>
   base64_decode (base64_encode [77, 97]) = Some [77, 97] \<and>
   map_of (build_options \<lparr>op_save_directory = Some ''/d'', op_extras = [(''split'', ''4'')]\<rparr>) ''split'' = Some ''4''"
  using aria2_requests_roundtrip [of "\<lparr>wu_tls = False, wu_host = ''localhost'', wu_port = ''6800'', wu_target = ''/jsonrpc''\<rparr>"
      "''jsonrpc''" "[77, 97]" "\<lparr>op_save_directory = Some ''/d'', op_extras = [(''split'', ''4'')]\<rparr>" "''split''"]
  by simp

text \<open>
  The delay before a new connection attempt is between one and thirty seconds, and after a
  connection was lost the delays of the failing attempts double from one second up to thirty.
\<close>
theorem aria2_reconnect_backoff:
  "(\<forall>d \<in> set (reconnect_delays kReconnectInitial rounds). 1 \<le> d \<and> d \<le> 30) \<and>
   drop (length xs) (reconnect_delays kReconnectInitial (xs @ True # replicate n False)) =
     map (\<lambda>i. min (2 ^ i) 30) [0..<Suc n]"
  using reconnect_bounds [of kReconnectInitial] reconnect_after_success [of xs kReconnectInitial n]
  by (simp add: kReconnectInitial_def)

definition half_done :: json_out where
  "half_done = JO_Object [(''status'', JO_String ''active''), (''totalLength'', JO_String ''20''),
     (''completedLength'', JO_String ''10''),
     (''files'', JO_Array [
        JO_Object [(''path'', JO_String ''/d/a''), (''length'', JO_String ''10''), (''completedLength'', JO_String ''10'')],
        JO_Object [(''path'', JO_String ''/d/b''), (''length'', JO_String ''10''), (''completedLength'', JO_String ''0'')]])]"

text \<open>
  A file of which nothing has been downloaded is listed like a finished one: the adapter does not
  look at the progress of single files, although callers upload listed files while the download runs.
\<close>
theorem aria2_lists_unfinished_files:
  "dl_state (aria2_to_status out_view half_done) = DS_Downloading \<and>
   dl_files (aria2_to_status out_view half_done) = [''/d/a'', ''/d/b''] \<and> supports_pipelining DK_Aria2"
  by code_simp

end
