(* ===== verification/Qbittorrent_Downloader.thy ===== *)
theory Qbittorrent_Downloader
  imports Json Http_Client Encodings Ports
begin

text \<open>
  The download backend of \<open>src/infrastructure/download/qbittorrent_downloader.cpp\<close>: the session with its cookie, the
  request that logs in again when the cookie is refused, and the operations. The HTTP client is the
  parameter \<open>http\<close>; it may change the session too, since other coroutines share it.
\<close>

subsection \<open>Requests\<close>

definition kDefaultRequestTimeout :: int where "kDefaultRequestTimeout = 30000"

text \<open>\<open>find\<close> of a text in another: what follows its first occurrence.\<close>

fun find_text :: "string \<Rightarrow> string \<Rightarrow> string option" where
  "find_text p [] = (if p = [] then Some [] else None)"
| "find_text p (c # s) = (if take (length p) (c # s) = p then Some (drop (length p) (c # s)) else find_text p s)"

definition parse_sid :: "string \<Rightarrow> string" where
  "parse_sid set_cookie =
     (case find_text ''SID='' set_cookie of None \<Rightarrow> [] | Some rest \<Rightarrow> takeWhile (\<lambda>c. c \<noteq> CHR '';'') rest)"

record multipart_file =
  mf_field_name :: string
  mf_file_name :: string
  mf_content_type :: string
  mf_bytes :: string

definition crlf :: string where "crlf = [CHR 0x0D, CHR 0x0A]"

definition quote_mark :: string where "quote_mark = [CHR 0x22]"

definition build_multipart :: "string \<Rightarrow> (string \<times> string) list \<Rightarrow> multipart_file list \<Rightarrow> string" where
  "build_multipart boundary text_fields files =
     concat (map (\<lambda>(name, value). ''--'' @ boundary @ crlf @
        ''Content-Disposition: form-data; name='' @ quote_mark @ name @ quote_mark @ crlf @ crlf @ value @ crlf) text_fields) @
     concat (map (\<lambda>f. ''--'' @ boundary @ crlf @
        ''Content-Disposition: form-data; name='' @ quote_mark @ mf_field_name f @ quote_mark @ ''; filename='' @
        quote_mark @ mf_file_name f @ quote_mark @ crlf @
        ''Content-Type: '' @ mf_content_type f @ crlf @ crlf @ mf_bytes f @ crlf) files) @
     ''--'' @ boundary @ ''--'' @ crlf"

definition qb_parse_state :: "string \<Rightarrow> download_state" where
  "qb_parse_state s =
     (if s \<in> set [''downloading'', ''metaDL'', ''stalledDL'', ''checkingDL'', ''forcedDL''] then DS_Downloading
      else if s \<in> set [''queuedDL'', ''queuedUP'', ''allocating''] then DS_Queued
      else if s \<in> set [''pausedDL'', ''pausedUP''] then DS_Paused
      else if s \<in> set [''uploading'', ''stalledUP'', ''forcedUP'', ''checkingUP''] then DS_Seeding
      else if s \<in> set [''error'', ''missingFiles'', ''unknown''] then DS_Error
      else if s = ''moving'' then DS_Downloading
      else DS_Queued)"

text \<open>The constructor strips the slashes at the end of the configured address.\<close>

definition strip_slashes :: "string \<Rightarrow> string" where
  "strip_slashes url = rev (dropWhile (\<lambda>c. c = CHR ''/'') (rev url))"

definition qb_new :: "qbittorrent_config \<Rightarrow> qbittorrent_config" where
  "qb_new cfg = cfg\<lparr>qb_url := strip_slashes (qb_url cfg)\<rparr>"

definition api_url :: "qbittorrent_config \<Rightarrow> string \<Rightarrow> string" where
  "api_url cfg path = qb_url cfg @ (if path \<noteq> [] \<and> hd path \<noteq> CHR ''/'' then ''/'' else []) @ path"

definition qb_get :: "qbittorrent_config \<Rightarrow> string \<Rightarrow> http_request" where
  "qb_get cfg path = default_request\<lparr>hq_url := api_url cfg path, hq_timeout := kDefaultRequestTimeout\<rparr>"

definition form_post :: "qbittorrent_config \<Rightarrow> string \<Rightarrow> string \<Rightarrow> http_request" where
  "form_post cfg path body = default_request\<lparr>hq_method := HM_Post, hq_url := api_url cfg path,
     hq_headers := [(''Content-Type'', ''application/x-www-form-urlencoded'')], hq_body := body,
     hq_timeout := kDefaultRequestTimeout\<rparr>"

subsection \<open>The session\<close>

record qb_session =
  qs_session_id :: string
  qs_connected :: bool

type_synonym ('w, 'a) qb = "(qb_session \<times> 'w, 'a) state"

type_synonym 'w qb_http = "http_request \<Rightarrow> ('w, http_response res) qb"

definition no_session :: qb_session where
  "no_session = \<lparr>qs_session_id = [], qs_connected = False\<rparr>"

definition session_id :: "('w, string) qb" where
  "session_id = State (\<lambda>(s, w). (qs_session_id s, (s, w)))"

definition qb_connected :: "('w, bool) qb" where
  "qb_connected = State (\<lambda>(s, w). (qs_connected s, (s, w)))"

definition store_session :: "string \<Rightarrow> ('w, unit) qb" where
  "store_session sid = State (\<lambda>(s, w). ((), (\<lparr>qs_session_id = sid, qs_connected = (sid \<noteq> [])\<rparr>, w)))"

definition clear_session :: "('w, unit) qb" where
  "clear_session = State (\<lambda>(s, w). ((), (no_session, w)))"

text \<open>\<open>dump\<close> prints a document.\<close>

definition fp_positive :: "fp \<Rightarrow> bool" where
  "fp_positive x = (case x of NaN \<Rightarrow> False | Infinite neg \<Rightarrow> \<not> neg | Finite q \<Rightarrow> q > 0)"

definition preferences :: "qbittorrent_config \<Rightarrow> json_out" where
  "preferences cfg = JO_Object (
     [(''max_active_downloads'', JO_Int (qb_max_active_downloads cfg)),
      (''max_active_uploads'', JO_Int (qb_max_active_uploads cfg)),
      (''max_active_torrents'', JO_Int (qb_max_active_torrents cfg)),
      (''max_connec'', JO_Int (qb_max_connections cfg)),
      (''max_connec_per_torrent'', JO_Int (qb_max_connections_per_torrent cfg)),
      (''max_uploads'', JO_Int (qb_max_uploads cfg)),
      (''max_uploads_per_torrent'', JO_Int (qb_max_uploads_per_torrent cfg)),
      (''up_limit'', JO_Int (qb_up_limit cfg)), (''dl_limit'', JO_Int (qb_dl_limit cfg)),
      (''dht'', JO_Bool (qb_dht cfg)), (''pex'', JO_Bool (qb_pex cfg)), (''lsd'', JO_Bool (qb_lsd cfg)),
      (''anonymous_mode'', JO_Bool (qb_anonymous_mode cfg)), (''async_io_threads'', JO_Int (qb_async_io_threads cfg)),
      (''disk_cache'', JO_Int (qb_disk_cache_mib cfg))] @
     (if fp_positive (qb_seed_ratio_limit cfg)
      then [(''max_ratio_enabled'', JO_Bool True), (''max_ratio'', JO_Double (qb_seed_ratio_limit cfg))]
      else [(''max_ratio_enabled'', JO_Bool False)]) @
     (if qb_seed_time_limit cfg > 0
      then [(''max_seeding_time_enabled'', JO_Bool True), (''max_seeding_time'', JO_Int (qb_seed_time_limit cfg))]
      else [(''max_seeding_time_enabled'', JO_Bool False)]) @
     [(''max_ratio_act'', JO_Int 0)])"

definition preferences_request :: "qbittorrent_config \<Rightarrow> (json_out \<Rightarrow> string) \<Rightarrow> string \<Rightarrow> http_request" where
  "preferences_request cfg dump sid =
     (let req = form_post cfg ''/api/v2/app/setPreferences'' (''json='' @ url_encode (dump (preferences cfg))) in
      req\<lparr>hq_headers := hq_headers req @ [(''Referer'', qb_url cfg), (''Cookie'', ''SID='' @ sid)]\<rparr>)"

definition push_preferences :: "qbittorrent_config \<Rightarrow> (json_out \<Rightarrow> string) \<Rightarrow> 'w qb_http \<Rightarrow> ('w, unit res) qb" where
  "push_preferences cfg dump http = do {
     sid \<leftarrow> session_id;
     resp \<leftarrow> http (preferences_request cfg dump sid);
     State_Monad.return (case resp of
        Inl e \<Rightarrow> Inl e
      | Inr r \<Rightarrow> if hr_status_code r \<noteq> 200
          then Inl (mk_error EC_QbittorrentApi (''setPreferences HTTP '' @ int_to_string (hr_status_code r) @ '': '' @ hr_body r))
          else Inr ())
   }"

definition login_request :: "qbittorrent_config \<Rightarrow> http_request" where
  "login_request cfg =
     (let req = form_post cfg ''/api/v2/auth/login''
           (make_form [(''username'', qb_username cfg), (''password'', qb_password cfg)]) in
      req\<lparr>hq_headers := hq_headers req @ [(''Referer'', qb_url cfg)]\<rparr>)"

text \<open>The first \<open>Set-Cookie\<close> header with a session id.\<close>

definition find_sid :: "http_header list \<Rightarrow> string option" where
  "find_sid hs =
     (case filter (\<lambda>(n, v). (n = ''Set-Cookie'' \<or> n = ''set-cookie'') \<and> parse_sid v \<noteq> []) hs of
        [] \<Rightarrow> None | (n, v) # _ \<Rightarrow> Some (parse_sid v))"

definition login :: "qbittorrent_config \<Rightarrow> (json_out \<Rightarrow> string) \<Rightarrow> 'w qb_http \<Rightarrow> ('w, unit res) qb" where
  "login cfg dump http = do {
     resp \<leftarrow> http (login_request cfg);
     (case resp of
        Inl e \<Rightarrow> State_Monad.return (Inl e)
      | Inr r \<Rightarrow>
          if hr_status_code r \<noteq> 200
          then State_Monad.return (Inl (mk_error EC_Unauthenticated
            (''qBittorrent login HTTP '' @ int_to_string (hr_status_code r))))
          else if find_text ''Ok.'' (hr_body r) = None
          then State_Monad.return (Inl (mk_error EC_Unauthenticated (''qBittorrent login rejected: '' @ hr_body r)))
          else case find_sid (hr_headers r) of
            None \<Rightarrow> State_Monad.return (Inl (mk_error EC_Unauthenticated ''qBittorrent login: SID cookie missing''))
          | Some sid \<Rightarrow> do {
              _ \<leftarrow> store_session sid;
              _ \<leftarrow> push_preferences cfg dump http;
              State_Monad.return (Inr ())
            })
   }"

definition ensure_login :: "qbittorrent_config \<Rightarrow> (json_out \<Rightarrow> string) \<Rightarrow> 'w qb_http \<Rightarrow> ('w, unit res) qb" where
  "ensure_login cfg dump http = do {
     c \<leftarrow> qb_connected;
     (if c then State_Monad.return (Inr ()) else login cfg dump http)
   }"

definition with_cookie :: "string \<Rightarrow> http_request \<Rightarrow> http_request" where
  "with_cookie sid req = req\<lparr>hq_headers := hq_headers req @ [(''Cookie'', ''SID='' @ sid)]\<rparr>"

definition drop_cookies :: "http_request \<Rightarrow> http_request" where
  "drop_cookies req = req\<lparr>hq_headers := filter (\<lambda>h. fst h \<noteq> ''Cookie'') (hq_headers req)\<rparr>"

definition authed_request ::
    "qbittorrent_config \<Rightarrow> (json_out \<Rightarrow> string) \<Rightarrow> 'w qb_http \<Rightarrow> http_request \<Rightarrow> ('w, http_response res) qb" where
  "authed_request cfg dump http req = do {
     l \<leftarrow> ensure_login cfg dump http;
     (case l of
        Inl e \<Rightarrow> State_Monad.return (Inl e)
      | Inr _ \<Rightarrow> do {
          sid \<leftarrow> session_id;
          resp \<leftarrow> http (with_cookie sid req);
          (case resp of
             Inl e \<Rightarrow> State_Monad.return (Inl e)
           | Inr r \<Rightarrow>
               if hr_status_code r \<noteq> 403 then State_Monad.return (Inr r)
               else do {
                 _ \<leftarrow> clear_session;
                 l \<leftarrow> login cfg dump http;
                 (case l of
                    Inl e \<Rightarrow> State_Monad.return (Inl e)
                  | Inr _ \<Rightarrow> do {
                      sid' \<leftarrow> session_id;
                      http (with_cookie sid' (drop_cookies (with_cookie sid req)))
                    })
               })
        })
   }"

subsection \<open>Reading answers\<close>

text \<open>\<open>to_status\<close>, in the order in which its calls may throw.\<close>

definition opt_int :: "'j json_view \<Rightarrow> 'j \<Rightarrow> string \<Rightarrow> string + int option" where
  "opt_int J j k = (case jv_field J j k of None \<Rightarrow> Inr None | Some v \<Rightarrow> and_then (jv_get_int J v) (\<lambda>i. Inr (Some i)))"

definition qb_to_status :: "'j json_view \<Rightarrow> 'j \<Rightarrow> string + download_status" where
  "qb_to_status J j =
     and_then (jv_value_int64 J j ''size'' 0) (\<lambda>size.
     and_then (jv_value_int64 J j ''completed'' 0) (\<lambda>completed.
     and_then (jv_value_int64 J j ''uploaded'' 0) (\<lambda>uploaded.
     and_then (jv_value_int64 J j ''dlspeed'' 0) (\<lambda>dlspeed.
     and_then (jv_value_int64 J j ''upspeed'' 0) (\<lambda>upspeed.
     and_then (jv_value_int64 J j ''eta'' 0) (\<lambda>eta.
     and_then (opt_int J j ''num_seeds'') (\<lambda>seeds.
     and_then (opt_int J j ''num_leechs'') (\<lambda>leechs.
       Inr (empty_status\<lparr>
         dl_id := (case string_member J j ''hash'' of Some h \<Rightarrow> Gid h | None \<Rightarrow> Gid []),
         dl_name := (case string_member J j ''name'' of Some n \<Rightarrow> n | None \<Rightarrow> []),
         dl_state := (case string_member J j ''state'' of Some t \<Rightarrow> qb_parse_state t | None \<Rightarrow> DS_Queued),
         dl_total_bytes := size, dl_downloaded_bytes := completed, dl_uploaded_bytes := uploaded,
         dl_download_speed_bps := dlspeed, dl_upload_speed_bps := upspeed, dl_eta := eta,
         dl_save_path := string_member J j ''save_path'', dl_num_seeders := seeds, dl_num_leechers := leechs,
         dl_seed_ratio := Option.bind (jv_field J j ''ratio'') (jv_number J)\<rparr>)))))))))"

fun read_all :: "('j \<Rightarrow> string + 'a) \<Rightarrow> 'j list \<Rightarrow> string + 'a list" where
  "read_all f [] = Inr []"
| "read_all f (j # js) = and_then (f j) (\<lambda>a. and_then (read_all f js) (\<lambda>as. Inr (a # as)))"

text \<open>A request, the test of its status code, and what reads the body of a good answer.\<close>

definition checked ::
    "qbittorrent_config \<Rightarrow> (json_out \<Rightarrow> string) \<Rightarrow> 'w qb_http \<Rightarrow> http_request \<Rightarrow> string \<Rightarrow> ('w, http_response res) qb" where
  "checked cfg dump http req what = do {
     resp \<leftarrow> authed_request cfg dump http req;
     State_Monad.return (case resp of
        Inl e \<Rightarrow> Inl e
      | Inr r \<Rightarrow> if hr_status_code r \<noteq> 200
          then Inl (mk_error EC_QbittorrentApi (what @ '' HTTP '' @ int_to_string (hr_status_code r)))
          else Inr r)
   }"

definition json_error :: "string + 'a \<Rightarrow> 'a res" where
  "json_error x = (case x of Inl m \<Rightarrow> Inl (mk_error EC_JsonParse m) | Inr a \<Rightarrow> Inr a)"

definition snapshot_hashes ::
    "'j json_view \<Rightarrow> qbittorrent_config \<Rightarrow> (json_out \<Rightarrow> string) \<Rightarrow> 'w qb_http \<Rightarrow> ('w, string set res) qb" where
  "snapshot_hashes J cfg dump http = do {
     resp \<leftarrow> checked cfg dump http (qb_get cfg ''/api/v2/torrents/info'') ''torrents/info'';
     State_Monad.return (case resp of
        Inl e \<Rightarrow> Inl e
      | Inr r \<Rightarrow> json_error (and_then (jv_parse J (hr_body r)) (\<lambda>arr.
          Inr (case jv_array J arr of None \<Rightarrow> {} | Some ts \<Rightarrow> set (List.map_filter (\<lambda>t. string_member J t ''hash'') ts)))))
   }"

subsection \<open>Operations\<close>

record qb_options =
  qo_save_directory :: "string option"
  qo_extras :: "(string \<times> string) list"

text \<open>\<open>iter\<close> is the order in which an \<open>unordered_set\<close> lists its elements, \<open>boundary\<close> what \<open>random_boundary\<close> drew.\<close>

definition add_request ::
    "qbittorrent_config \<Rightarrow> string \<Rightarrow> (string \<times> string) list \<Rightarrow> multipart_file list \<Rightarrow> http_request" where
  "add_request cfg boundary text_fields files =
     default_request\<lparr>hq_method := HM_Post, hq_url := api_url cfg ''/api/v2/torrents/add'',
       hq_headers := [(''Content-Type'', ''multipart/form-data; boundary='' @ boundary)],
       hq_body := build_multipart boundary text_fields files, hq_timeout := kDefaultRequestTimeout\<rparr>"

definition add_fields :: "(string \<times> string) list \<Rightarrow> qb_options \<Rightarrow> (string \<times> string) list" where
  "add_fields text_fields opts =
     text_fields @ (case qo_save_directory opts of None \<Rightarrow> [] | Some d \<Rightarrow> [(''savepath'', d)]) @ qo_extras opts"

definition add_common ::
    "'j json_view \<Rightarrow> qbittorrent_config \<Rightarrow> (json_out \<Rightarrow> string) \<Rightarrow> (string set \<Rightarrow> string list) \<Rightarrow> string \<Rightarrow> 'w qb_http \<Rightarrow>
     (string \<times> string) list \<Rightarrow> multipart_file list \<Rightarrow> qb_options \<Rightarrow> ('w, gid res) qb" where
  "add_common J cfg dump iter boundary http text_fields files opts = do {
     before_res \<leftarrow> snapshot_hashes J cfg dump http;
     (case before_res of
        Inl e \<Rightarrow> State_Monad.return (Inl e)
      | Inr before \<Rightarrow> do {
          resp \<leftarrow> authed_request cfg dump http (add_request cfg boundary (add_fields text_fields opts) files);
          (case resp of
             Inl e \<Rightarrow> State_Monad.return (Inl e)
           | Inr r \<Rightarrow>
               if hr_status_code r \<noteq> 200
               then State_Monad.return (Inl (mk_error EC_QbittorrentApi
                 (''torrents/add HTTP '' @ int_to_string (hr_status_code r) @ '': '' @ hr_body r)))
               else if find_text ''Fails'' (hr_body r) \<noteq> None
               then State_Monad.return (Inl (mk_error EC_QbittorrentApi (''torrents/add rejected: '' @ hr_body r)))
               else do {
                 after_res \<leftarrow> snapshot_hashes J cfg dump http;
                 State_Monad.return (case after_res of
                    Inl e \<Rightarrow> Inl e
                  | Inr after \<Rightarrow>
                      (case find (\<lambda>h. h \<notin> before) (iter after) of
                         Some h \<Rightarrow> Inr (Gid h)
                       | None \<Rightarrow> Inl (mk_error EC_QbittorrentApi
                           ''torrents/add accepted but no new hash visible (duplicate?)'')))
               })
        })
   }"

definition qb_add_uri ::
    "'j json_view \<Rightarrow> qbittorrent_config \<Rightarrow> (json_out \<Rightarrow> string) \<Rightarrow> (string set \<Rightarrow> string list) \<Rightarrow> string \<Rightarrow> 'w qb_http \<Rightarrow>
     string \<Rightarrow> qb_options \<Rightarrow> ('w, gid res) qb" where
  "qb_add_uri J cfg dump iter boundary http uri opts =
     add_common J cfg dump iter boundary http [(''urls'', uri)] [] opts"

definition qb_add_torrent ::
    "'j json_view \<Rightarrow> qbittorrent_config \<Rightarrow> (json_out \<Rightarrow> string) \<Rightarrow> (string set \<Rightarrow> string list) \<Rightarrow> string \<Rightarrow> 'w qb_http \<Rightarrow>
     string \<Rightarrow> qb_options \<Rightarrow> ('w, gid res) qb" where
  "qb_add_torrent J cfg dump iter boundary http torrent opts =
     add_common J cfg dump iter boundary http []
       [\<lparr>mf_field_name = ''torrents'', mf_file_name = ''upload.torrent'', mf_content_type = ''application/x-bittorrent'',
         mf_bytes = torrent\<rparr>] opts"

definition done_of :: "http_response res \<Rightarrow> unit res" where
  "done_of r = (case r of Inl e \<Rightarrow> Inl e | Inr _ \<Rightarrow> Inr ())"

definition qb_pause :: "qbittorrent_config \<Rightarrow> (json_out \<Rightarrow> string) \<Rightarrow> 'w qb_http \<Rightarrow> gid \<Rightarrow> ('w, unit res) qb" where
  "qb_pause cfg dump http g = do {
     r \<leftarrow> checked cfg dump http (form_post cfg ''/api/v2/torrents/pause'' (''hashes='' @ url_encode (gid_value g))) ''torrents/pause'';
     State_Monad.return (done_of r)
   }"

definition qb_resume :: "qbittorrent_config \<Rightarrow> (json_out \<Rightarrow> string) \<Rightarrow> 'w qb_http \<Rightarrow> gid \<Rightarrow> ('w, unit res) qb" where
  "qb_resume cfg dump http g = do {
     r \<leftarrow> checked cfg dump http (form_post cfg ''/api/v2/torrents/resume'' (''hashes='' @ url_encode (gid_value g))) ''torrents/resume'';
     State_Monad.return (done_of r)
   }"

definition remove_body :: "gid \<Rightarrow> bool \<Rightarrow> string" where
  "remove_body g delete_files =
     make_form [(''hashes'', gid_value g), (''deleteFiles'', if delete_files then ''true'' else ''false'')]"

definition qb_remove :: "qbittorrent_config \<Rightarrow> (json_out \<Rightarrow> string) \<Rightarrow> 'w qb_http \<Rightarrow> gid \<Rightarrow> bool \<Rightarrow> ('w, unit res) qb" where
  "qb_remove cfg dump http g delete_files = do {
     r \<leftarrow> checked cfg dump http (form_post cfg ''/api/v2/torrents/delete'' (remove_body g delete_files)) ''torrents/delete'';
     State_Monad.return (done_of r)
   }"

definition qb_status ::
    "'j json_view \<Rightarrow> qbittorrent_config \<Rightarrow> (json_out \<Rightarrow> string) \<Rightarrow> 'w qb_http \<Rightarrow> gid \<Rightarrow> ('w, download_status res) qb" where
  "qb_status J cfg dump http g = do {
     resp \<leftarrow> checked cfg dump http (qb_get cfg (''/api/v2/torrents/info?hashes='' @ url_encode (gid_value g))) ''torrents/info'';
     State_Monad.return (case resp of
        Inl e \<Rightarrow> Inl e
      | Inr r \<Rightarrow>
          (case jv_parse J (hr_body r) of
             Inl m \<Rightarrow> Inl (mk_error EC_JsonParse m)
           | Inr arr \<Rightarrow>
               (case jv_array J arr of
                  Some (t # _) \<Rightarrow> json_error (qb_to_status J t)
                | _ \<Rightarrow> Inl (mk_error EC_NotFound (''qBittorrent torrent not found: '' @ gid_value g)))))
   }"

definition qb_active ::
    "'j json_view \<Rightarrow> qbittorrent_config \<Rightarrow> (json_out \<Rightarrow> string) \<Rightarrow> 'w qb_http \<Rightarrow> ('w, download_status list res) qb" where
  "qb_active J cfg dump http = do {
     resp \<leftarrow> checked cfg dump http (qb_get cfg ''/api/v2/torrents/info?filter=downloading'') ''torrents/info'';
     State_Monad.return (case resp of
        Inl e \<Rightarrow> Inl e
      | Inr r \<Rightarrow> json_error (and_then (jv_parse J (hr_body r)) (\<lambda>arr.
          case jv_array J arr of None \<Rightarrow> Inr [] | Some ts \<Rightarrow> read_all (qb_to_status J) ts)))
   }"

record qb_stats =
  st_download_speed_bps :: int
  st_upload_speed_bps :: int
  st_active_count :: int
  st_waiting_count :: int
  st_stopped_count :: int

definition count_state :: "download_state \<Rightarrow> qb_stats \<Rightarrow> qb_stats" where
  "count_state ds st =
     (case ds of
        DS_Downloading \<Rightarrow> st\<lparr>st_active_count := st_active_count st + 1\<rparr>
      | DS_Queued \<Rightarrow> st\<lparr>st_waiting_count := st_waiting_count st + 1\<rparr>
      | _ \<Rightarrow> st\<lparr>st_stopped_count := st_stopped_count st + 1\<rparr>)"

text \<open>The counts stop at the first element whose state cannot be read, and keep what was counted.\<close>

fun count_states :: "'j json_view \<Rightarrow> 'j list \<Rightarrow> qb_stats \<Rightarrow> qb_stats" where
  "count_states J [] st = st"
| "count_states J (t # ts) st =
     (case jv_value_string J t ''state'' [] of
        Inl _ \<Rightarrow> st
      | Inr s \<Rightarrow> count_states J ts (count_state (qb_parse_state s) st))"

definition qb_global_stats ::
    "'j json_view \<Rightarrow> qbittorrent_config \<Rightarrow> (json_out \<Rightarrow> string) \<Rightarrow> 'w qb_http \<Rightarrow> ('w, qb_stats res) qb" where
  "qb_global_stats J cfg dump http = do {
     resp \<leftarrow> checked cfg dump http (qb_get cfg ''/api/v2/transfer/info'') ''transfer/info'';
     (case resp of
        Inl e \<Rightarrow> State_Monad.return (Inl e)
      | Inr r \<Rightarrow>
          (case and_then (jv_parse J (hr_body r)) (\<lambda>j.
                and_then (jv_value_int64 J j ''dl_info_speed'' 0) (\<lambda>dl.
                and_then (jv_value_int64 J j ''up_info_speed'' 0) (\<lambda>up.
                  Inr \<lparr>st_download_speed_bps = dl, st_upload_speed_bps = up, st_active_count = 0, st_waiting_count = 0,
                       st_stopped_count = 0\<rparr>))) of
             Inl m \<Rightarrow> State_Monad.return (Inl (mk_error EC_JsonParse m))
           | Inr stats \<Rightarrow> do {
               info \<leftarrow> authed_request cfg dump http (qb_get cfg ''/api/v2/torrents/info'');
               State_Monad.return (Inr (case info of
                  Inl _ \<Rightarrow> stats
                | Inr i \<Rightarrow>
                    if hr_status_code i \<noteq> 200 then stats
                    else case jv_parse J (hr_body i) of
                        Inl _ \<Rightarrow> stats
                      | Inr arr \<Rightarrow> (case jv_array J arr of None \<Rightarrow> stats | Some ts \<Rightarrow> count_states J ts stats)))
             }))
   }"

subsection \<open>What the server is sent\<close>

text \<open>A client that records the requests with their answers beside its own world.\<close>

type_synonym sent = "http_request \<times> http_response res"

definition spied_http :: "'w qb_http \<Rightarrow> ('w \<times> sent list) qb_http" where
  "spied_http http req = State (\<lambda>(s, w, l). case run_state (http req) (s, w) of (r, s', w') \<Rightarrow> (r, s', w', l @ [(req, r)]))"

lemma wp_spied: "(\<And>r s' w'. Q r (s', w', l @ [(req, r)])) \<Longrightarrow> wp (spied_http http req) Q (s, w, l)"
  by (simp add: wp_def spied_http_def split: prod.splits)

lemma wp_session [simp]:
  "wp session_id Q (s, x) = Q (qs_session_id s) (s, x)" "wp qb_connected R (s, x) = R (qs_connected s) (s, x)"
  "wp (store_session sid) U (s, x) = U () (\<lparr>qs_session_id = sid, qs_connected = (sid \<noteq> [])\<rparr>, x)"
  "wp clear_session U (s, x) = U () (no_session, x)"
  by (simp_all add: wp_def session_id_def qb_connected_def store_session_def clear_session_def)

definition login_trace :: "qbittorrent_config \<Rightarrow> (json_out \<Rightarrow> string) \<Rightarrow> sent list \<Rightarrow> bool" where
  "login_trace cfg dump t =
     (t = [] \<or> map fst t = [login_request cfg] \<or> (\<exists>sid. map fst t = [login_request cfg, preferences_request cfg dump sid]))"

definition refused :: "http_response res \<Rightarrow> bool" where
  "refused r = (case r of Inl _ \<Rightarrow> False | Inr resp \<Rightarrow> hr_status_code resp = 403)"

text \<open>The first try, and after a refusal the login and the second try.\<close>

inductive authed_trace :: "qbittorrent_config \<Rightarrow> (json_out \<Rightarrow> string) \<Rightarrow> http_request \<Rightarrow> sent list \<Rightarrow> bool" for cfg dump req where
  Not_in: "login_trace cfg dump p \<Longrightarrow> authed_trace cfg dump req p"
| Once: "login_trace cfg dump p \<Longrightarrow> authed_trace cfg dump req (p @ [(with_cookie sid req, r)])"
| Again_not_in: "login_trace cfg dump p \<Longrightarrow> refused r \<Longrightarrow> login_trace cfg dump q \<Longrightarrow>
    authed_trace cfg dump req (p @ [(with_cookie sid req, r)] @ q)"
| Twice: "login_trace cfg dump p \<Longrightarrow> refused r \<Longrightarrow> login_trace cfg dump q \<Longrightarrow>
    authed_trace cfg dump req (p @ [(with_cookie sid req, r)] @ q @ [(with_cookie sid' req, r')])"

lemma login_trace_Nil [simp]: "login_trace cfg dump []"
  by (simp add: login_trace_def)

lemma login_trace_one: "login_trace cfg dump [(login_request cfg, r)]"
  by (simp add: login_trace_def)

lemma login_trace_two: "login_trace cfg dump [(login_request cfg, r), (preferences_request cfg dump sid, r')]"
  by (auto simp: login_trace_def)

lemma wp_push:
  "(\<And>r s' w' sid r'. Q r (s', w', l @ [(preferences_request cfg dump sid, r')])) \<Longrightarrow>
     wp (push_preferences cfg dump (spied_http http)) Q (s, w, l)"
  by (auto simp: push_preferences_def intro!: wp_spied)

lemma wp_login:
  assumes "\<And>r s' w' t. login_trace cfg dump t \<Longrightarrow> Q r (s', w', l @ t)"
  shows "wp (login cfg dump (spied_http http)) Q (s, w, l)"
proof -
  have one: "Q r (s', w', l @ [(login_request cfg, a)])" for r s' w' a
    by (rule assms) (rule login_trace_one)
  have two: "Q r (s', w', (l @ [(login_request cfg, a)]) @ [(preferences_request cfg dump sid, b)])" for r s' w' sid a b
    using assms [OF login_trace_two] by simp
  have push: "wp (push_preferences cfg dump (spied_http http)) (\<lambda>_. Q (Inr ())) (s', w', l @ [(login_request cfg, a)])" for s' w' a
    by (rule wp_push) (rule two)
  show ?thesis
    unfolding login_def wp_bind [of "spied_http http _"]
    by (rule wp_spied) (auto simp: one push split: sum.splits option.splits)
qed

lemma drop_with_cookie:
  assumes "list_all (\<lambda>h. fst h \<noteq> ''Cookie'') (hq_headers req)"
  shows "drop_cookies (with_cookie sid req) = req"
proof -
  have "filter (\<lambda>h. fst h \<noteq> ''Cookie'') (hq_headers req) = hq_headers req"
    using assms by (simp add: filter_id_conv list_all_iff)
  then show ?thesis by (simp add: drop_cookies_def with_cookie_def)
qed

lemma wp_authed:
  assumes plain: "list_all (\<lambda>h. fst h \<noteq> ''Cookie'') (hq_headers req)"
    and Q: "\<And>r s' w' t. authed_trace cfg dump req t \<Longrightarrow> Q r (s', w', l @ t)"
  shows "wp (authed_request cfg dump (spied_http http) req) Q (s, w, l)"
proof -
  have again: "wp (spied_http http (with_cookie sid' (drop_cookies (with_cookie sid req)))) Q
      (s1, w1, l @ p @ [(with_cookie sid req, a)] @ q)"
    if "login_trace cfg dump p" "refused a" "login_trace cfg dump q" for sid sid' s1 w1 p q a
    unfolding drop_with_cookie [OF plain]
    by (rule wp_spied) (use Q [OF authed_trace.Twice [OF that]] in simp)
  have stop: "Q r (s1, w1, l @ p @ [(with_cookie sid req, a)] @ q)"
    if "login_trace cfg dump p" "refused a" "login_trace cfg dump q" for r s1 w1 p q sid a
    by (rule Q) (rule authed_trace.Again_not_in [OF that])
  have once: "Q r (s1, w1, l @ p @ [(with_cookie sid req, a)])" if "login_trace cfg dump p" for r s1 w1 p sid a
    by (rule Q) (rule authed_trace.Once [OF that])
  have retry: "wp (login cfg dump (spied_http http)) (\<lambda>lr. wp (case lr of Inl e \<Rightarrow> State_Monad.return (Inl e)
        | Inr _ \<Rightarrow> session_id \<bind> (\<lambda>sid'. spied_http http (with_cookie sid' (drop_cookies (with_cookie sid req))))) Q)
      (s1, w1, l @ p @ [(with_cookie sid req, a)])" if "login_trace cfg dump p" "refused a" for s1 w1 p sid a
    by (rule wp_login) (use that stop again in \<open>auto split: sum.splits\<close>)
  have main: "wp (session_id \<bind> (\<lambda>sid. spied_http http (with_cookie sid req) \<bind> (\<lambda>resp.
       case resp of Inl e \<Rightarrow> State_Monad.return (Inl e)
       | Inr r \<Rightarrow> if hr_status_code r \<noteq> 403 then State_Monad.return (Inr r)
          else clear_session \<bind> (\<lambda>_. login cfg dump (spied_http http) \<bind> (\<lambda>l.
            case l of Inl e \<Rightarrow> State_Monad.return (Inl e)
            | Inr _ \<Rightarrow> session_id \<bind> (\<lambda>sid'. spied_http http (with_cookie sid' (drop_cookies (with_cookie sid req))))))))) Q (s1, w1, l @ p)"
    if "login_trace cfg dump p" for s1 w1 p
    unfolding wp_bind wp_session
    by (rule wp_spied) (use that once [of p] retry [of p] in \<open>auto simp: refused_def wp_bind split: sum.splits\<close>)
  have bad: "Q r (s1, w1, l @ p)" if "login_trace cfg dump p" for r s1 w1 p
    by (rule Q) (rule authed_trace.Not_in [OF that])
  have enter: "wp (ensure_login cfg dump (spied_http http)) (\<lambda>lr. wp (case lr of Inl e \<Rightarrow> State_Monad.return (Inl e)
      | Inr u \<Rightarrow> k u) Q) (s, w, l)"
    if "\<And>s1 w1 p. login_trace cfg dump p \<Longrightarrow> wp (k ()) Q (s1, w1, l @ p)" for k :: "unit \<Rightarrow> (_, http_response res) state"
  proof -
    have "wp (login cfg dump (spied_http http)) (\<lambda>lr. wp (case lr of Inl e \<Rightarrow> State_Monad.return (Inl e) | Inr u \<Rightarrow> k u) Q) (s, w, l)"
      by (rule wp_login) (auto simp: bad that split: sum.splits)
    with that [of "[]" s w] show ?thesis by (auto simp: ensure_login_def)
  qed
  show ?thesis
    unfolding authed_request_def wp_bind [of "ensure_login _ _ _"] by (rule enter) (rule main)
qed

lemma wp_checked:
  assumes "list_all (\<lambda>h. fst h \<noteq> ''Cookie'') (hq_headers req)"
    and "\<And>r s' w' t. authed_trace cfg dump req t \<Longrightarrow> Q r (s', w', l @ t)"
  shows "wp (checked cfg dump (spied_http http) req what) Q (s, w, l)"
  unfolding checked_def wp_bind wp_return by (rule wp_authed [OF assms(1)]) (rule assms(2))

lemma authed_trace_length: "authed_trace cfg dump req t \<Longrightarrow> length t \<le> 6"
proof -
  have len: "length t \<le> 2" if "login_trace cfg dump t" for t
    using that by (auto simp: login_trace_def dest!: arg_cong [of _ _ length])
  show "authed_trace cfg dump req t \<Longrightarrow> length t \<le> 6"
  proof (induction rule: authed_trace.induct)
    case (Not_in p)
    then show ?case using len [of p] by simp
  next
    case (Once p sid r)
    then show ?case using len [of p] by simp
  next
    case (Again_not_in p r q sid)
    then show ?case using len [of p] len [of q] by simp
  next
    case (Twice p r q sid sid' r')
    then show ?case using len [of p] len [of q] by simp
  qed
qed

text \<open>The session requests, or the request itself with a cookie.\<close>

definition sent_for :: "qbittorrent_config \<Rightarrow> (json_out \<Rightarrow> string) \<Rightarrow> http_request \<Rightarrow> http_request \<Rightarrow> bool" where
  "sent_for cfg dump req q =
     (q = login_request cfg \<or> (\<exists>sid. q = preferences_request cfg dump sid) \<or> (\<exists>sid. q = with_cookie sid req))"

lemma login_trace_sent: "login_trace cfg dump t \<Longrightarrow> x \<in> set t \<Longrightarrow> sent_for cfg dump req (fst x)"
  unfolding login_trace_def sent_for_def by (metis (no_types, lifting) empty_iff imageI insert_iff list.set(1,2) set_map)

lemma sent_for_cookie [simp]: "sent_for cfg dump req (with_cookie sid req)"
  by (auto simp: sent_for_def)

lemma authed_trace_sent: "authed_trace cfg dump req t \<Longrightarrow> x \<in> set t \<Longrightarrow> sent_for cfg dump req (fst x)"
  by (induction rule: authed_trace.induct) (auto dest: login_trace_sent)

subsection \<open>Properties\<close>


text \<open>A server that refuses the first cookie and accepts the second login.\<close>

definition expiring_server :: "nat qb_http" where
  "expiring_server req = State (\<lambda>(s, n).
     (Inr (\<lparr>hr_status_code = (if n = 0 then 403 else 200), hr_headers = [(''Set-Cookie'', ''SID=two; path=/'')],
            hr_body = ''Ok.'', hr_duration = 0\<rparr>), s, Suc n))"

definition default_qb_config :: qbittorrent_config where
  "default_qb_config = \<lparr>qb_url = ''http://q'', qb_username = ''u'', qb_password = ''p&q'', qb_seed_ratio_limit = Finite 0,
     qb_seed_time_limit = 0, qb_max_active_downloads = 1, qb_max_active_uploads = 1, qb_max_active_torrents = 1,
     qb_max_connections = 1, qb_max_connections_per_torrent = 1, qb_max_uploads = 1, qb_max_uploads_per_torrent = 1,
     qb_up_limit = 0, qb_dl_limit = 0, qb_dht = True, qb_pex = True, qb_lsd = True, qb_anonymous_mode = False,
     qb_async_io_threads = 1, qb_disk_cache_mib = 1\<rparr>"



lemma hashes_form: "''hashes='' @ url_encode g = make_form [(''hashes'', g)]"
proof -
  have "url_encode ''hashes'' = ''hashes''" by code_simp
  then show ?thesis by (simp add: make_form_Cons form_field_def)
qed

text \<open>The session requests, or a form posted to \<open>path\<close> with the given fields.\<close>

definition posts_form :: "qbittorrent_config \<Rightarrow> (json_out \<Rightarrow> string) \<Rightarrow> string \<Rightarrow> (string \<times> string) list \<Rightarrow> sent \<Rightarrow> bool" where
  "posts_form cfg dump path fs x =
     (fst x = login_request cfg \<or> (\<exists>sid. fst x = preferences_request cfg dump sid) \<or>
      (hq_method (fst x) = HM_Post \<and> hq_url (fst x) = api_url cfg path \<and> form_decode (hq_body (fst x)) = Some fs))"

lemma wp_posts:
  assumes "fs \<noteq> []"
  shows "wp (checked cfg dump (spied_http http) (form_post cfg path (make_form fs)) what)
     (\<lambda>r (s', w', l). list_all (posts_form cfg dump path fs) l) (s, w, [])"
proof (rule wp_checked)
  show "list_all (\<lambda>h. fst h \<noteq> ''Cookie'') (hq_headers (form_post cfg path (make_form fs)))"
    by (simp add: form_post_def)
  fix r s' w' t
  assume t: "authed_trace cfg dump (form_post cfg path (make_form fs)) t"
  have "posts_form cfg dump path fs x" if "x \<in> set t" for x
    using authed_trace_sent [OF t that] form_roundtrip [OF assms]
    by (auto simp: sent_for_def posts_form_def with_cookie_def form_post_def)
  then show "case (s', w', [] @ t) of (s', w', l) \<Rightarrow> list_all (posts_form cfg dump path fs) l"
    by (simp add: list_all_iff)
qed

lemma posts_run:
  assumes "fs \<noteq> []"
    and "op = checked cfg dump (spied_http http) (form_post cfg path (make_form fs)) what \<bind> (\<lambda>r. State_Monad.return (done_of r))"
  shows "list_all (posts_form cfg dump path fs) (snd (snd (snd (run_state op (s, w, [])))))"
proof -
  have "wp op (\<lambda>r (s', w', l). list_all (posts_form cfg dump path fs) l) (s, w, [])"
    unfolding assms(2) wp_bind wp_return by (rule wp_posts) (rule assms(1))
  then show ?thesis by (auto simp: wp_def split: prod.splits)
qed

text \<open>
  Whatever the torrent hash is, pausing, resuming and removing a torrent post exactly that hash, and
  for removal the choice about its files, to the endpoint of the operation: besides logging in, no request goes elsewhere
  and none carries another hash, since a reader of the form gets the fields back.
\<close>
theorem qb_requests_addressed:
  "list_all (posts_form cfg dump ''/api/v2/torrents/pause'' [(''hashes'', gid_value g)])
     (snd (snd (snd (run_state (qb_pause cfg dump (spied_http http) g) (s, w, []))))) \<and>
   list_all (posts_form cfg dump ''/api/v2/torrents/resume'' [(''hashes'', gid_value g)])
     (snd (snd (snd (run_state (qb_resume cfg dump (spied_http http) g) (s, w, []))))) \<and>
   list_all (posts_form cfg dump ''/api/v2/torrents/delete''
       [(''hashes'', gid_value g), (''deleteFiles'', if del then ''true'' else ''false'')])
     (snd (snd (snd (run_state (qb_remove cfg dump (spied_http http) g del) (s, w, [])))))"
proof (intro conjI)
  show "list_all (posts_form cfg dump ''/api/v2/torrents/pause'' [(''hashes'', gid_value g)])
     (snd (snd (snd (run_state (qb_pause cfg dump (spied_http http) g) (s, w, [])))))"
    by (rule posts_run, simp, simp only: qb_pause_def hashes_form)
  show "list_all (posts_form cfg dump ''/api/v2/torrents/resume'' [(''hashes'', gid_value g)])
     (snd (snd (snd (run_state (qb_resume cfg dump (spied_http http) g) (s, w, [])))))"
    by (rule posts_run, simp, simp only: qb_resume_def hashes_form)
  show "list_all (posts_form cfg dump ''/api/v2/torrents/delete''
       [(''hashes'', gid_value g), (''deleteFiles'', if del then ''true'' else ''false'')])
     (snd (snd (snd (run_state (qb_remove cfg dump (spied_http http) g del) (s, w, [])))))"
    by (rule posts_run, simp, simp only: qb_remove_def remove_body_def)
qed

text \<open>
  Adding a torrent answers with a hash that the second listing shows and the first did not. Nothing ties it to the torrent
  that was added: of several new hashes the first that the set happens to list is returned.
\<close>

lemma qb_add_returns_new:
  assumes run: "run_state (add_common J cfg dump iter boundary http fs files opts) \<sigma> = (Inr g, \<sigma>')"
    and iter: "\<And>S. set (iter S) \<subseteq> S"
  obtains before \<sigma>1 \<sigma>2 after where
    "run_state (snapshot_hashes J cfg dump http) \<sigma> = (Inr before, \<sigma>1)"
    "run_state (snapshot_hashes J cfg dump http) \<sigma>2 = (Inr after, \<sigma>')"
    "gid_value g \<in> after - before" "find (\<lambda>h. h \<notin> before) (iter after) = Some (gid_value g)"
proof -
  from run obtain before \<sigma>1 \<sigma>2 after h where
    1: "run_state (snapshot_hashes J cfg dump http) \<sigma> = (Inr before, \<sigma>1)" and
    2: "run_state (snapshot_hashes J cfg dump http) \<sigma>2 = (Inr after, \<sigma>')" and
    h: "find (\<lambda>h. h \<notin> before) (iter after) = Some h" "g = Gid h"
    by (auto simp: add_common_def State_Monad.bind_def split: prod.splits sum.splits if_splits option.splits)
  from h(1) have "h \<in> set (iter after)" "h \<notin> before" by (auto simp: find_Some_iff)
  with iter [of after] h(2) have "gid_value g \<in> after - before" by auto
  with that 1 2 h show thesis by simp
qed

end
