(* ===== verification/Drive_Client.thy ===== *)
theory Drive_Client
  imports Json Http_Client Encodings Records
begin

text \<open>
  The Drive REST client of \<open>src/infrastructure/upload/google_drive_uploader.cpp\<close>: credentials, the signed token and its cache,
  folders, listings, and the operations copy, count and remove. OpenSSL, the HTTP client, the JSON library,
  clocks and the file system are collaborators. A collaborator may change the token cache, since
  all coroutines share it.
\<close>

subsection \<open>State and collaborators\<close>

record drive_token =
  tk_value :: string
  tk_expires_at :: int

record service_key =
  sk_client_email :: string
  sk_private_key_pem :: string
  sk_token_uri :: string

type_synonym ('w, 'a) gd = "(drive_token \<times> 'w, 'a) state"

record ('w, 'j) drive_env =
  ge_json :: "'j json_view"
  ge_dump :: "json_out \<Rightarrow> string"
  ge_http :: "http_request \<Rightarrow> ('w, http_response res) gd"
  ge_steady :: "('w, int) gd"
  ge_wall :: "('w, int) gd"
  ge_sign :: "string \<Rightarrow> string \<Rightarrow> byte list res"
  ge_cancelled :: "('w, bool) gd"
  ge_config :: google_drive_config
  ge_key :: "service_key option"

definition no_token :: drive_token where
  "no_token = \<lparr>tk_value = [], tk_expires_at = 0\<rparr>"

definition default_token_uri :: string where
  "default_token_uri = ''https://oauth2.googleapis.com/token''"

subsection \<open>Credentials\<close>

text \<open>
  \<open>content\<close> is what the credentials file holds, if it can be opened; \<open>read_stream\<close> is the stream operator of the
  JSON library.
\<close>

definition read_key :: "'j json_view \<Rightarrow> 'j \<Rightarrow> string + service_key" where
  "read_key J doc =
     and_then (jv_at_string J doc ''client_email'') (\<lambda>email.
     and_then (jv_at_string J doc ''private_key'') (\<lambda>pem.
     and_then (if jv_field J doc ''token_uri'' \<noteq> None then jv_at_string J doc ''token_uri'' else Inr default_token_uri) (\<lambda>uri.
       Inr \<lparr>sk_client_email = email, sk_private_key_pem = pem, sk_token_uri = uri\<rparr>)))"

definition load_service_account ::
    "'j json_view \<Rightarrow> (string \<Rightarrow> string + 'j) \<Rightarrow> string \<Rightarrow> string option \<Rightarrow> service_key res" where
  "load_service_account J read_stream path content =
     (case content of
        None \<Rightarrow> Inl (mk_error EC_NotFound (''gdrive: cannot open credentials file '' @ path))
      | Some txt \<Rightarrow>
          (case read_stream txt of
             Inl m \<Rightarrow> Inl (mk_error EC_JsonParse (''gdrive: credentials JSON parse failed: '' @ m))
           | Inr doc \<Rightarrow>
               (case read_key J doc of
                  Inl m \<Rightarrow> Inl (mk_error EC_InvalidConfiguration (''gdrive: missing field in credentials: '' @ m))
                | Inr key \<Rightarrow>
                    if sk_client_email key = [] \<or> sk_private_key_pem key = []
                    then Inl (mk_error EC_InvalidConfiguration ''gdrive: client_email / private_key must be non-empty'')
                    else Inr key)))"

text \<open>The constructor: without credentials the uploader is not ready.\<close>

definition new_uploader ::
    "('w, 'j) drive_env \<Rightarrow> (string \<Rightarrow> string + 'j) \<Rightarrow> string option \<Rightarrow> ('w, 'j) drive_env" where
  "new_uploader E read_stream content =
     E\<lparr>ge_key := (case load_service_account (ge_json E) read_stream (gd_credentials_path (ge_config E)) content of
                    Inl _ \<Rightarrow> None | Inr key \<Rightarrow> Some key)\<rparr>"

subsection \<open>Tokens\<close>

definition jwt_header :: json_out where
  "jwt_header = JO_Object [(''alg'', JO_String ''RS256''), (''typ'', JO_String ''JWT'')]"

definition jwt_claims :: "service_key \<Rightarrow> int \<Rightarrow> json_out" where
  "jwt_claims key iat = JO_Object [(''iss'', JO_String (sk_client_email key)),
     (''scope'', JO_String ''https://www.googleapis.com/auth/drive''), (''aud'', JO_String (sk_token_uri key)),
     (''exp'', JO_Int (iat + 3600)), (''iat'', JO_Int iat)]"

definition build_signed_jwt :: "('w, 'j) drive_env \<Rightarrow> service_key \<Rightarrow> int \<Rightarrow> string res" where
  "build_signed_jwt E key iat =
     (let signing_input = base64url (text_bytes (ge_dump E jwt_header)) @ ''.'' @ base64url (text_bytes (ge_dump E (jwt_claims key iat))) in
      case ge_sign E signing_input (sk_private_key_pem key) of
        Inl e \<Rightarrow> Inl e
      | Inr sig \<Rightarrow> Inr (signing_input @ ''.'' @ base64url sig))"

definition make_request :: "http_method \<Rightarrow> string \<Rightarrow> http_request" where
  "make_request m url = default_request\<lparr>hq_method := m, hq_url := url\<rparr>"

definition add_header :: "string \<Rightarrow> string \<Rightarrow> http_request \<Rightarrow> http_request" where
  "add_header n v req = req\<lparr>hq_headers := hq_headers req @ [(n, v)]\<rparr>"

definition header_lookup :: "http_response \<Rightarrow> string \<Rightarrow> string option" where
  "header_lookup r n = map_option snd (List.find (\<lambda>h. iequals (fst h) n) (hr_headers r))"

definition success :: "http_response \<Rightarrow> bool" where
  "success r = (hr_status_code r div 100 = 2)"

definition token_request :: "service_key \<Rightarrow> string \<Rightarrow> http_request" where
  "token_request key jwt =
     (add_header ''Content-Type'' ''application/x-www-form-urlencoded'' (make_request HM_Post (sk_token_uri key)))
       \<lparr>hq_body := ''grant_type=urn:ietf:params:oauth:grant-type:jwt-bearer&assertion='' @ url_escape jwt\<rparr>"

definition read_token :: "'j json_view \<Rightarrow> string \<Rightarrow> string + string \<times> int" where
  "read_token J body =
     and_then (jv_parse J body) (\<lambda>doc. and_then (jv_at_string J doc ''access_token'') (\<lambda>tok.
     and_then (jv_value_int J doc ''expires_in'' 3600) (\<lambda>expires. Inr (tok, expires))))"

text \<open>The service account is there whenever the uploader is ready; without it nothing calls this.\<close>

definition mint_bearer :: "('w, 'j) drive_env \<Rightarrow> service_key \<Rightarrow> ('w, drive_token res) gd" where
  "mint_bearer E key = do {
     iat \<leftarrow> ge_wall E;
     (case build_signed_jwt E key iat of
        Inl e \<Rightarrow> State_Monad.return (Inl e)
      | Inr jwt \<Rightarrow> do {
          r \<leftarrow> ge_http E (token_request key jwt);
          (case r of
             Inl e \<Rightarrow> State_Monad.return (Inl e)
           | Inr resp \<Rightarrow>
               if hr_status_code resp \<noteq> 200
               then State_Monad.return (Inl (mk_error EC_Unauthenticated
                 (''gdrive: token exchange returned '' @ int_to_string (hr_status_code resp) @ '': '' @ hr_body resp)))
               else case read_token (ge_json E) (hr_body resp) of
                   Inl m \<Rightarrow> State_Monad.return (Inl (mk_error EC_JsonParse (''gdrive: token response parse failed: '' @ m)))
                 | Inr (tok, expires) \<Rightarrow> do {
                     now \<leftarrow> ge_steady E;
                     State_Monad.return (Inr \<lparr>tk_value = ''Bearer '' @ tok, tk_expires_at = now + 1000 * expires\<rparr>)
                   })
        })
   }"

definition cached_token :: "('w, drive_token) gd" where
  "cached_token = State (\<lambda>(t, w). (t, (t, w)))"

definition store_token :: "drive_token \<Rightarrow> ('w, unit) gd" where
  "store_token t = State (\<lambda>(_, w). ((), (t, w)))"

definition invalidate_bearer_cache :: "('w, unit) gd" where
  "invalidate_bearer_cache = store_token no_token"

text \<open>A ready uploader has its key; the operations look at \<open>ready_\<close> first.\<close>

definition key_of :: "('w, 'j) drive_env \<Rightarrow> service_key" where
  "key_of E = (case ge_key E of Some k \<Rightarrow> k | None \<Rightarrow> \<lparr>sk_client_email = [], sk_private_key_pem = [], sk_token_uri = default_token_uri\<rparr>)"

definition acquire_bearer :: "('w, 'j) drive_env \<Rightarrow> ('w, string res) gd" where
  "acquire_bearer E = do {
     now \<leftarrow> ge_steady E;
     t \<leftarrow> cached_token;
     (if tk_value t \<noteq> [] \<and> tk_expires_at t - 60000 > now then State_Monad.return (Inr (tk_value t))
      else do {
        fresh \<leftarrow> mint_bearer E (key_of E);
        (case fresh of
           Inl e \<Rightarrow> State_Monad.return (Inl e)
         | Inr t \<Rightarrow> do { _ \<leftarrow> store_token t; State_Monad.return (Inr (tk_value t)) })
      })
   }"

subsection \<open>Folders and listings\<close>

definition kFolderMime :: string where
  "kFolderMime = ''application/vnd.google-apps.folder''"

definition files_url :: string where
  "files_url = ''https://www.googleapis.com/drive/v3/files''"

text \<open>A request with the bearer, and one with a JSON body.\<close>

definition bearer_request :: "http_method \<Rightarrow> string \<Rightarrow> string \<Rightarrow> http_request" where
  "bearer_request m url bearer = add_header ''Authorization'' bearer (make_request m url)"

definition json_request :: "string \<Rightarrow> string \<Rightarrow> string \<Rightarrow> http_request" where
  "json_request url bearer body =
     (add_header ''Content-Type'' ''application/json; charset=UTF-8'' (bearer_request HM_Post url bearer))\<lparr>hq_body := body\<rparr>"

definition api_error :: "string \<Rightarrow> http_response \<Rightarrow> app_error" where
  "api_error what r = mk_error EC_GoogleDriveApi (what @ '' returned '' @ int_to_string (hr_status_code r) @ '': '' @ hr_body r)"

definition read_id :: "'j json_view \<Rightarrow> string \<Rightarrow> string \<Rightarrow> string res" where
  "read_id J what body =
     (case and_then (jv_parse J body) (\<lambda>doc. jv_at_string J doc ''id'') of
        Inl m \<Rightarrow> Inl (mk_error EC_JsonParse (what @ m))
      | Inr i \<Rightarrow> Inr i)"

definition folder_body :: "string \<Rightarrow> string \<Rightarrow> json_out" where
  "folder_body name parent = JO_Object [(''name'', JO_String name), (''mimeType'', JO_String kFolderMime),
     (''parents'', JO_Array [JO_String parent])]"

definition create_folder :: "('w, 'j) drive_env \<Rightarrow> string \<Rightarrow> string \<Rightarrow> ('w, string res) gd" where
  "create_folder E name parent = do {
     b \<leftarrow> acquire_bearer E;
     (case b of
        Inl e \<Rightarrow> State_Monad.return (Inl e)
      | Inr bearer \<Rightarrow> do {
          r \<leftarrow> ge_http E (json_request files_url bearer (ge_dump E (folder_body name parent)));
          State_Monad.return (case r of
             Inl e \<Rightarrow> Inl e
           | Inr resp \<Rightarrow> if \<not> success resp then Inl (api_error ''gdrive: create folder'' resp)
               else read_id (ge_json E) ''gdrive: create folder parse: '' (hr_body resp))
        })
   }"

definition metadata_request :: "string \<Rightarrow> string \<Rightarrow> http_request" where
  "metadata_request bearer i = bearer_request HM_Get (files_url @ ''/'' @ url_escape i @ ''?fields=id,name,mimeType,size,parents'') bearer"

definition fetch_metadata :: "('w, 'j) drive_env \<Rightarrow> string \<Rightarrow> string \<Rightarrow> ('w, 'j res) gd" where
  "fetch_metadata E bearer i = do {
     r \<leftarrow> ge_http E (metadata_request bearer i);
     State_Monad.return (case r of
        Inl e \<Rightarrow> Inl e
      | Inr resp \<Rightarrow>
          if hr_status_code resp = 404 then Inl (mk_error EC_NotFound (''gdrive: id not found: '' @ i))
          else if \<not> success resp then Inl (mk_error EC_GoogleDriveApi
            (''gdrive: metadata fetch '' @ i @ '' returned '' @ int_to_string (hr_status_code resp) @ '': '' @ hr_body resp))
          else case jv_parse (ge_json E) (hr_body resp) of
              Inl m \<Rightarrow> Inl (mk_error EC_JsonParse (''gdrive: metadata parse: '' @ m))
            | Inr doc \<Rightarrow> Inr doc)
   }"

definition list_request :: "string \<Rightarrow> string \<Rightarrow> string \<Rightarrow> http_request" where
  "list_request bearer parent page_token =
     bearer_request HM_Get (files_url @ ''?q='' @ url_escape ([CHR 0x27] @ parent @ [CHR 0x27]) @
       ''+in+parents+and+trashed%3Dfalse&fields=nextPageToken,files(id,name,mimeType,size)&pageSize=1000'' @
       (if page_token \<noteq> [] then ''&pageToken='' @ url_escape page_token else [])) bearer"

definition read_page :: "'j json_view \<Rightarrow> string \<Rightarrow> string + 'j list \<times> string option" where
  "read_page J body =
     and_then (jv_parse J body) (\<lambda>doc.
       Inr (case Option.bind (jv_field J doc ''files'') (jv_array J) of None \<Rightarrow> [] | Some fs \<Rightarrow> fs,
            string_member J doc ''nextPageToken''))"

text \<open>
  What a loop over answers of the server comes to: a result, an exception that nothing catches, or no end
  within the fuel.
\<close>

datatype 'a flow = F_Done "'a res" | F_Thrown string | F_Fuel

fun list_children :: "nat \<Rightarrow> ('w, 'j) drive_env \<Rightarrow> string \<Rightarrow> string \<Rightarrow> 'j list \<Rightarrow> string \<Rightarrow> ('w, 'j list flow) gd" where
  "list_children 0 E bearer parent out page_token = State_Monad.return F_Fuel"
| "list_children (Suc n) E bearer parent out page_token = do {
     r \<leftarrow> ge_http E (list_request bearer parent page_token);
     (case r of
        Inl e \<Rightarrow> State_Monad.return (F_Done (Inl e))
      | Inr resp \<Rightarrow>
          if \<not> success resp then State_Monad.return (F_Done (Inl (api_error (''gdrive: list children of '' @ parent) resp)))
          else case read_page (ge_json E) (hr_body resp) of
              Inl m \<Rightarrow> State_Monad.return (F_Done (Inl (mk_error EC_JsonParse (''gdrive: list children parse: '' @ m))))
            | Inr (fs, None) \<Rightarrow> State_Monad.return (F_Done (Inr (out @ fs)))
            | Inr (fs, Some tok) \<Rightarrow> list_children n E bearer parent (out @ fs) tok)
   }"

subsection \<open>Count\<close>

definition not_ready :: app_error where
  "not_ready = mk_error EC_InvalidState ''gdrive: uploader not ready''"

text \<open>One child; a text member of the wrong type throws.\<close>

definition child_size :: "'j json_view \<Rightarrow> 'j \<Rightarrow> int" where
  "child_size J child =
     (case string_member J child ''size'' of None \<Rightarrow> 0
      | Some s \<Rightarrow> (case stoll s of None \<Rightarrow> 0 | Some n \<Rightarrow> n))"

definition no_totals :: count_result where
  "no_totals = \<lparr>ct_files = 0, ct_folders = 0, ct_total_bytes = 0\<rparr>"

definition count_child :: "'j json_view \<Rightarrow> 'j \<Rightarrow> count_result \<times> string list \<Rightarrow> string + count_result \<times> string list" where
  "count_child J child = (\<lambda>(totals, queue).
     and_then (jv_value_string J child ''mimeType'' []) (\<lambda>cmime.
       if cmime = kFolderMime then
         and_then (jv_value_string J child ''id'' []) (\<lambda>cid.
           Inr (totals\<lparr>ct_folders := ct_folders totals + 1\<rparr>, if cid = [] then queue else cid # queue))
       else Inr (totals\<lparr>ct_files := ct_files totals + 1, ct_total_bytes := ct_total_bytes totals + child_size J child\<rparr>, queue)))"

fun count_children :: "'j json_view \<Rightarrow> 'j list \<Rightarrow> count_result \<times> string list \<Rightarrow> string + count_result \<times> string list" where
  "count_children J [] acc = Inr acc"
| "count_children J (c # cs) acc = and_then (count_child J c acc) (count_children J cs)"

text \<open>The queue is a stack whose back is the head of the list; \<open>m\<close> bounds the pages of a listing.\<close>

fun count_loop :: "nat \<Rightarrow> nat \<Rightarrow> ('w, 'j) drive_env \<Rightarrow> string \<Rightarrow> string list \<Rightarrow> count_result \<Rightarrow> ('w, count_result flow) gd" where
  "count_loop n m E bearer [] totals = State_Monad.return (F_Done (Inr totals))"
| "count_loop 0 m E bearer (here # queue) totals = State_Monad.return F_Fuel"
| "count_loop (Suc n) m E bearer (here # queue) totals = do {
     c \<leftarrow> ge_cancelled E;
     (if c then State_Monad.return (F_Done (Inl (mk_error EC_Cancelled ''gdrive: count cancelled'')))
      else do {
        children \<leftarrow> list_children m E bearer here [] [];
        (case children of
           F_Done (Inl e) \<Rightarrow> State_Monad.return (F_Done (Inl e))
         | F_Thrown x \<Rightarrow> State_Monad.return (F_Thrown x)
         | F_Fuel \<Rightarrow> State_Monad.return F_Fuel
         | F_Done (Inr cs) \<Rightarrow>
             (case count_children (ge_json E) cs (totals, queue) of
                Inl x \<Rightarrow> State_Monad.return (F_Thrown x)
              | Inr (totals', queue') \<Rightarrow> count_loop n m E bearer queue' totals'))
      })
   }"

definition drive_count :: "nat \<Rightarrow> nat \<Rightarrow> ('w, 'j) drive_env \<Rightarrow> string \<Rightarrow> ('w, count_result flow) gd" where
  "drive_count n m E folder_id =
     (if ge_key E = None then State_Monad.return (F_Done (Inl not_ready))
      else do {
        b \<leftarrow> acquire_bearer E;
        (case b of
           Inl e \<Rightarrow> State_Monad.return (F_Done (Inl e))
         | Inr bearer \<Rightarrow> count_loop n m E bearer [folder_id] no_totals)
      })"

subsection \<open>Copy and remove\<close>

definition copy_request :: "('w, 'j) drive_env \<Rightarrow> string \<Rightarrow> string \<Rightarrow> string \<Rightarrow> http_request" where
  "copy_request E bearer i dest =
     json_request (files_url @ ''/'' @ url_escape i @ ''/copy'') bearer
       (ge_dump E (JO_Object [(''parents'', JO_Array [JO_String dest])]))"

definition copy_file :: "('w, 'j) drive_env \<Rightarrow> string \<Rightarrow> string \<Rightarrow> string \<Rightarrow> string \<Rightarrow> ('w, http_response res) gd" where
  "copy_file E what bearer i dest = do {
     r \<leftarrow> ge_http E (copy_request E bearer i dest);
     State_Monad.return (case r of
        Inl e \<Rightarrow> Inl e
      | Inr resp \<Rightarrow> if \<not> success resp then Inl (api_error what resp) else Inr resp)
   }"

record copy_child =
  cc_id :: string
  cc_mime :: string
  cc_name :: string

text \<open>The three texts of a child, read in this order; a child without an id is skipped.\<close>

definition read_child :: "'j json_view \<Rightarrow> 'j \<Rightarrow> string + copy_child option" where
  "read_child J child =
     and_then (jv_value_string J child ''id'' []) (\<lambda>cid.
       if cid = [] then Inr None
       else and_then (jv_value_string J child ''mimeType'' []) (\<lambda>cmime.
            and_then (jv_value_string J child ''name'' ''item'') (\<lambda>cname.
              Inr (Some \<lparr>cc_id = cid, cc_mime = cmime, cc_name = cname\<rparr>))))"

text \<open>The stack holds pairs of source and destination, its back at the head.\<close>

fun copy_children ::
    "('w, 'j) drive_env \<Rightarrow> string \<Rightarrow> string \<Rightarrow> 'j list \<Rightarrow> (string \<times> string) list \<Rightarrow> ('w, (string \<times> string) list flow) gd" where
  "copy_children E bearer dest [] stack = State_Monad.return (F_Done (Inr stack))"
| "copy_children E bearer dest (child # rest) stack =
     (case read_child (ge_json E) child of
        Inl x \<Rightarrow> State_Monad.return (F_Thrown x)
      | Inr None \<Rightarrow> copy_children E bearer dest rest stack
      | Inr (Some c) \<Rightarrow>
          if cc_mime c = kFolderMime then do {
            created \<leftarrow> create_folder E (cc_name c) dest;
            (case created of
               Inl e \<Rightarrow> State_Monad.return (F_Done (Inl e))
             | Inr i \<Rightarrow> copy_children E bearer dest rest ((cc_id c, i) # stack))
          } else do {
            r \<leftarrow> copy_file E ''gdrive: child copy'' bearer (cc_id c) dest;
            (case r of
               Inl e \<Rightarrow> State_Monad.return (F_Done (Inl e))
             | Inr _ \<Rightarrow> copy_children E bearer dest rest stack)
          })"

fun copy_loop ::
    "nat \<Rightarrow> nat \<Rightarrow> ('w, 'j) drive_env \<Rightarrow> string \<Rightarrow> string \<Rightarrow> (string \<times> string) list \<Rightarrow> ('w, string flow) gd" where
  "copy_loop n m E bearer top_id [] = State_Monad.return (F_Done (Inr top_id))"
| "copy_loop 0 m E bearer top_id (frame # stack) = State_Monad.return F_Fuel"
| "copy_loop (Suc n) m E bearer top_id (frame # stack) = do {
     c \<leftarrow> ge_cancelled E;
     (if c then State_Monad.return (F_Done (Inl (mk_error EC_Cancelled ''gdrive: copy cancelled'')))
      else do {
        children \<leftarrow> list_children m E bearer (fst frame) [] [];
        (case children of
           F_Done (Inl e) \<Rightarrow> State_Monad.return (F_Done (Inl e))
         | F_Thrown x \<Rightarrow> State_Monad.return (F_Thrown x)
         | F_Fuel \<Rightarrow> State_Monad.return F_Fuel
         | F_Done (Inr cs) \<Rightarrow> do {
             pushed \<leftarrow> copy_children E bearer (snd frame) cs stack;
             (case pushed of
                F_Done (Inl e) \<Rightarrow> State_Monad.return (F_Done (Inl e))
              | F_Thrown x \<Rightarrow> State_Monad.return (F_Thrown x)
              | F_Fuel \<Rightarrow> State_Monad.return F_Fuel
              | F_Done (Inr stack') \<Rightarrow> copy_loop n m E bearer top_id stack')
           })
      })
   }"

definition copy_root :: "nat \<Rightarrow> nat \<Rightarrow> ('w, 'j) drive_env \<Rightarrow> string \<Rightarrow> string \<Rightarrow> string \<Rightarrow> string \<Rightarrow> string \<Rightarrow> ('w, string flow) gd" where
  "copy_root n m E bearer source_id target mime name =
     (if mime \<noteq> kFolderMime then do {
        r \<leftarrow> copy_file E ''gdrive: copy'' bearer source_id target;
        State_Monad.return (F_Done (case r of
           Inl e \<Rightarrow> Inl e
         | Inr resp \<Rightarrow> read_id (ge_json E) ''gdrive: copy response parse: '' (hr_body resp)))
      } else do {
        made \<leftarrow> create_folder E name target;
        (case made of
           Inl e \<Rightarrow> State_Monad.return (F_Done (Inl e))
         | Inr i \<Rightarrow> copy_loop n m E bearer i [(source_id, i)])
      })"

definition drive_copy :: "nat \<Rightarrow> nat \<Rightarrow> ('w, 'j) drive_env \<Rightarrow> string \<Rightarrow> string \<Rightarrow> ('w, string flow) gd" where
  "drive_copy n m E source_id target =
     (if ge_key E = None then State_Monad.return (F_Done (Inl not_ready))
      else do {
        b \<leftarrow> acquire_bearer E;
        (case b of
           Inl e \<Rightarrow> State_Monad.return (F_Done (Inl e))
         | Inr bearer \<Rightarrow> do {
             meta \<leftarrow> fetch_metadata E bearer source_id;
             (case meta of
                Inl e \<Rightarrow> State_Monad.return (F_Done (Inl e))
              | Inr doc \<Rightarrow>
                  (case and_then (jv_value_string (ge_json E) doc ''mimeType'' []) (\<lambda>mime.
                        and_then (jv_value_string (ge_json E) doc ''name'' ''copy'') (\<lambda>name. Inr (mime, name))) of
                     Inl x \<Rightarrow> State_Monad.return (F_Thrown x)
                   | Inr (mime, name) \<Rightarrow> copy_root n m E bearer source_id target mime name))
           })
      })"

definition remove_request :: "string \<Rightarrow> string \<Rightarrow> http_request" where
  "remove_request bearer i = bearer_request HM_Delete (files_url @ ''/'' @ url_escape i) bearer"

definition drive_remove :: "('w, 'j) drive_env \<Rightarrow> string \<Rightarrow> ('w, unit res) gd" where
  "drive_remove E file_id =
     (if ge_key E = None then State_Monad.return (Inl not_ready)
      else do {
        b \<leftarrow> acquire_bearer E;
        (case b of
           Inl e \<Rightarrow> State_Monad.return (Inl e)
         | Inr bearer \<Rightarrow> do {
             r \<leftarrow> ge_http E (remove_request bearer file_id);
             State_Monad.return (case r of
                Inl e \<Rightarrow> Inl e
              | Inr resp \<Rightarrow>
                  if hr_status_code resp = 404 then Inl (mk_error EC_NotFound (''gdrive: file not found: '' @ file_id))
                  else if \<not> success resp then Inl (api_error ''gdrive: delete'' resp)
                  else Inr ())
           })
      })"

subsection \<open>The requests that are sent\<close>

text \<open>The same collaborators with a log of the requests and their answers.\<close>

type_synonym exchange = "http_request \<times> http_response res"

definition aside :: "('w, 'a) gd \<Rightarrow> ('w \<times> exchange list, 'a) gd" where
  "aside f = State (\<lambda>(t, w, l). case run_state f (t, w) of (r, t', w') \<Rightarrow> (r, t', w', l))"

definition spied_env :: "('w, 'j) drive_env \<Rightarrow> ('w \<times> exchange list, 'j) drive_env" where
  "spied_env E =
     \<lparr>ge_json = ge_json E, ge_dump = ge_dump E,
      ge_http = (\<lambda>req. State (\<lambda>(t, w, l). case run_state (ge_http E req) (t, w) of (r, t', w') \<Rightarrow> (r, t', w', l @ [(req, r)]))),
      ge_steady = aside (ge_steady E), ge_wall = aside (ge_wall E), ge_sign = ge_sign E,
      ge_cancelled = aside (ge_cancelled E), ge_config = ge_config E, ge_key = ge_key E\<rparr>"

lemma spied_env_sel [simp]:
  "ge_json (spied_env E) = ge_json E" "ge_dump (spied_env E) = ge_dump E" "ge_sign (spied_env E) = ge_sign E"
  "ge_config (spied_env E) = ge_config E" "ge_key (spied_env E) = ge_key E" "key_of (spied_env E) = key_of E"
  by (simp_all add: spied_env_def key_of_def)

lemma spied_jwt [simp]: "build_signed_jwt (spied_env E) key iat = build_signed_jwt E key iat"
  by (simp add: build_signed_jwt_def)

lemma wp_spied_http: "(\<And>r t' w'. Q r (t', w', l @ [(req, r)])) \<Longrightarrow> wp (ge_http (spied_env E) req) Q (t, w, l)"
  by (simp add: wp_def spied_env_def split: prod.splits)

lemma wp_aside: "(\<And>r t' w'. Q r (t', w', l)) \<Longrightarrow> wp (aside f) Q (t, w, l)"
  by (simp add: wp_def aside_def split: prod.splits)

lemma wp_spied_rest:
  "(\<And>i t' w'. Q i (t', w', l)) \<Longrightarrow> wp (ge_steady (spied_env E)) Q (t, w, l)"
  "(\<And>i t' w'. Q i (t', w', l)) \<Longrightarrow> wp (ge_wall (spied_env E)) Q (t, w, l)"
  "(\<And>b t' w'. R b (t', w', l)) \<Longrightarrow> wp (ge_cancelled (spied_env E)) R (t, w, l)"
  by (simp_all add: spied_env_def wp_aside)

lemma wp_token [simp]:
  "wp cached_token Q (t, x) = Q t (t, x)" "wp (store_token t') R (t, x) = R () (t', x)"
  by (simp_all add: wp_def cached_token_def store_token_def)

text \<open>What \<open>mint_bearer\<close> sends: one exchange with the token endpoint for a token signed for this key.\<close>

definition signed_for :: "('w, 'j) drive_env \<Rightarrow> service_key \<Rightarrow> string \<Rightarrow> bool" where
  "signed_for E key jwt = (\<exists>iat. build_signed_jwt E key iat = Inr jwt)"

definition minted :: "('w, 'j) drive_env \<Rightarrow> exchange list \<Rightarrow> bool" where
  "minted E t = (t = [] \<or> (\<exists>jwt r. signed_for E (key_of E) jwt \<and> t = [(token_request (key_of E) jwt, r)]))"

lemma wp_mint:
  assumes "\<And>r t' w' x. minted E x \<Longrightarrow> Q r (t', w', l @ x)"
  shows "wp (mint_bearer (spied_env E) (key_of E)) Q (t, w, l)"
proof -
  have none: "Q r (t', w', l)" for r t' w' using assms [of "[]"] by (simp add: minted_def)
  have one: "Q r (t', w', l @ [(token_request (key_of E) jwt, a)])" if "build_signed_jwt E (key_of E) iat = Inr jwt" for r t' w' jwt a iat
    by (rule assms) (use that in \<open>auto simp: minted_def signed_for_def\<close>)
  show ?thesis
    unfolding mint_bearer_def
    by (auto simp: none one intro!: wp_spied_rest wp_spied_http split: sum.splits)
qed

lemma wp_acquire:
  assumes "\<And>r t' w' x. minted E x \<Longrightarrow> (\<And>b. r = Inr b \<Longrightarrow> tk_value t' = b) \<Longrightarrow> Q r (t', w', l @ x)"
  shows "wp (acquire_bearer (spied_env E)) Q (t, w, l)"
proof -
  have cached: "Q (Inr (tk_value t')) (t', w', l)" for t' w' using assms [of "[]" "Inr (tk_value t')" t' w'] by (simp add: minted_def)
  have fresh: "wp (mint_bearer (spied_env E) (key_of E)) (\<lambda>fresh. wp (case fresh of Inl e \<Rightarrow> State_Monad.return (Inl e)
      | Inr t \<Rightarrow> store_token t \<bind> (\<lambda>_. State_Monad.return (Inr (tk_value t)))) Q) (t', w', l)" for t' w'
    by (rule wp_mint) (auto intro!: assms split: sum.splits)
  show ?thesis
    unfolding acquire_bearer_def by (auto simp: cached fresh intro!: wp_spied_rest)
qed

subsection \<open>What a token says\<close>

text \<open>The parts of a signed token, as a verifier splits and decodes them.\<close>

definition split_dot :: "string \<Rightarrow> string \<times> string" where
  "split_dot s = (takeWhile (\<lambda>c. c \<noteq> CHR ''.'') s, drop 1 (dropWhile (\<lambda>c. c \<noteq> CHR ''.'') s))"

definition jwt_parts :: "string \<Rightarrow> byte list option \<times> byte list option \<times> byte list option" where
  "jwt_parts s =
     (let (h, rest) = split_dot s; (c, sig) = split_dot rest in (base64url_decode h, base64url_decode c, base64url_decode sig))"

lemma split_dot_url: "split_dot (base64url xs @ CHR ''.'' # rest) = (base64url xs, rest)"
  using authority_split [OF base64url_no_dot [of xs]] by (simp add: split_dot_def)

lemma jwt_reads:
  assumes "build_signed_jwt E key iat = Inr jwt"
  obtains sig where "ge_sign E (base64url (text_bytes (ge_dump E jwt_header)) @ ''.'' @ base64url (text_bytes (ge_dump E (jwt_claims key iat))))
      (sk_private_key_pem key) = Inr sig"
    "jwt_parts jwt = (Some (text_bytes (ge_dump E jwt_header)), Some (text_bytes (ge_dump E (jwt_claims key iat))), Some sig)"
  using assms by (auto simp: build_signed_jwt_def Let_def jwt_parts_def split_dot_url base64url_roundtrip split: sum.splits)

text \<open>The assertion of a token request.\<close>

definition assertion_of :: "http_request \<Rightarrow> string option" where
  "assertion_of req = url_decode (drop (length ''grant_type=urn:ietf:params:oauth:grant-type:jwt-bearer&assertion='') (hq_body req))"

lemma assertion_token: "assertion_of (token_request key jwt) = Some jwt"
  by (simp add: assertion_of_def token_request_def url_escape_eq)

definition token_exchange :: "('w, 'j) drive_env \<Rightarrow> exchange \<Rightarrow> bool" where
  "token_exchange E x =
     (hq_method (fst x) = HM_Post \<and> hq_url (fst x) = sk_token_uri (key_of E) \<and>
      (\<exists>jwt iat sig. assertion_of (fst x) = Some jwt \<and>
         jwt_parts jwt = (Some (text_bytes (ge_dump E jwt_header)), Some (text_bytes (ge_dump E (jwt_claims (key_of E) iat))), Some sig) \<and>
         ge_sign E (base64url (text_bytes (ge_dump E jwt_header)) @ ''.'' @ base64url (text_bytes (ge_dump E (jwt_claims (key_of E) iat))))
           (sk_private_key_pem (key_of E)) = Inr sig))"

lemma minted_exchange: "minted E x \<Longrightarrow> length x \<le> 1 \<and> list_all (token_exchange E) x"
proof (cases "x = []")
  case False
  moreover assume "minted E x"
  ultimately obtain jwt r iat where x: "x = [(token_request (key_of E) jwt, r)]" and j: "build_signed_jwt E (key_of E) iat = Inr jwt"
    by (auto simp: minted_def signed_for_def)
  obtain sig where "ge_sign E (base64url (text_bytes (ge_dump E jwt_header)) @ ''.'' @ base64url (text_bytes (ge_dump E (jwt_claims (key_of E) iat))))
      (sk_private_key_pem (key_of E)) = Inr sig"
    "jwt_parts jwt = (Some (text_bytes (ge_dump E jwt_header)), Some (text_bytes (ge_dump E (jwt_claims (key_of E) iat))), Some sig)"
    by (rule jwt_reads [OF j])
  then have "token_exchange E (token_request (key_of E) jwt, r)"
    unfolding token_exchange_def fst_conv assertion_token
    by (intro conjI exI [of _ jwt] exI [of _ iat] exI [of _ sig])
      (simp_all add: token_request_def make_request_def add_header_def)
  then show ?thesis by (simp add: x)
qed simp

text \<open>
  C22. A cached bearer is used, without any exchange, while it is valid for more than a minute. Otherwise there is at most one
  exchange, posted to the token endpoint of the service account: a verifier that reads its assertion finds the header,
  the claims for this account with a lifetime of one hour, and a signature that the key made over
  exactly these two. What is returned is what the cache then holds.
\<close>
theorem gdrive_token_discipline:
  assumes "run_state (ge_steady E) (t, w) = (now, t, w)"
  shows "case run_state (acquire_bearer (spied_env E)) (t, w, []) of (r, t', w', sent) \<Rightarrow>
     (if tk_value t \<noteq> [] \<and> now + 60000 < tk_expires_at t then r = Inr (tk_value t) \<and> t' = t \<and> w' = w \<and> sent = []
      else length sent \<le> 1 \<and> list_all (token_exchange E) sent) \<and>
     (case r of Inl _ \<Rightarrow> True | Inr b \<Rightarrow> tk_value t' = b)"
proof -
  obtain r t' w' sent where run: "run_state (acquire_bearer (spied_env E)) (t, w, []) = (r, t', w', sent)"
    by (rule prod_cases4)
  have "wp (acquire_bearer (spied_env E)) (\<lambda>r (t', w', sent). length sent \<le> 1 \<and> list_all (token_exchange E) sent \<and>
      (case r of Inl _ \<Rightarrow> True | Inr b \<Rightarrow> tk_value t' = b)) (t, w, [])"
  proof (rule wp_acquire)
    fix r :: "string res" and t' w' x
    assume x: "minted E x" and r: "\<And>b. r = Inr b \<Longrightarrow> tk_value t' = b"
    have "case r of Inl _ \<Rightarrow> True | Inr b \<Rightarrow> tk_value t' = b" using r by (cases r) simp_all
    with minted_exchange [OF x] show "case (t', w', [] @ x) of (t', w', sent) \<Rightarrow>
        length sent \<le> 1 \<and> list_all (token_exchange E) sent \<and> (case r of Inl _ \<Rightarrow> True | Inr b \<Rightarrow> tk_value t' = b)"
      by simp
  qed
  then have "length sent \<le> 1 \<and> list_all (token_exchange E) sent \<and> (case r of Inl _ \<Rightarrow> True | Inr b \<Rightarrow> tk_value t' = b)"
    unfolding wp_def run by simp
  moreover have "(r, t', w', sent) = (Inr (tk_value t), t, w, [])" if "tk_value t \<noteq> []" "now + 60000 < tk_expires_at t"
  proof -
    have "run_state (ge_steady (spied_env E)) (t, w, []) = (now, t, w, [])"
      using assms by (simp add: spied_env_def aside_def)
    with that show ?thesis unfolding run [symmetric] by (simp add: acquire_bearer_def run_simps cached_token_def)
  qed
  ultimately show ?thesis unfolding run by simp
qed

text \<open>Collaborators that answer everything with the same response at one time.\<close>

definition still_env :: "http_response \<Rightarrow> (unit, json_out) drive_env" where
  "still_env resp = \<lparr>ge_json = out_view, ge_dump = (\<lambda>_. ''{}''), ge_http = (\<lambda>_. State (\<lambda>s. (Inr resp, s))),
     ge_steady = State (\<lambda>s. (5, s)), ge_wall = State (\<lambda>s. (7, s)), ge_sign = (\<lambda>_ _. Inr [1]),
     ge_cancelled = State (\<lambda>s. (False, s)),
     ge_config = \<lparr>gd_credentials_path = ''c'', gd_parent_folder_id = ''p'', gd_use_service_accounts = False, gd_sa_folder = [],
       gd_chunk_size = 262144, gd_parallel_chunks_per_file = 2, gd_parallel_files_per_directory = 2, gd_max_retries = 1,
       gd_initial_retry_delay = 100\<rparr>,
     ge_key = Some \<lparr>sk_client_email = ''a'', sk_private_key_pem = ''k'', sk_token_uri = default_token_uri\<rparr>\<rparr>"

definition plain_response :: "int \<Rightarrow> string \<Rightarrow> http_response" where
  "plain_response code body = \<lparr>hr_status_code = code, hr_headers = [], hr_body = body, hr_duration = 0\<rparr>"

theorem gdrive_token_discipline_witness:
  "case run_state (acquire_bearer (spied_env (still_env (plain_response 500 [])))) (no_token, (), []) of
     (r, t', w', sent) \<Rightarrow> length sent \<le> 1 \<and> list_all (token_exchange (still_env (plain_response 500 []))) sent"
proof -
  define E where "E = still_env (plain_response 500 [])"
  have "run_state (ge_steady E) (no_token, ()) = (5, no_token, ())" by (simp add: E_def still_env_def)
  note token = gdrive_token_discipline [OF this]
  have "tk_value no_token = []" by (simp add: no_token_def)
  with token show ?thesis by (auto simp: E_def [symmetric] split: prod.splits)
qed

end
