(* ===== verification/Drive_Trees.thy ===== *)
theory Drive_Trees
  imports Drive_Client
begin

text \<open>
  The two operations of the Drive client that walk a folder tree (\<open>copy\<close> and \<open>count\<close> of
  \<open>src/infrastructure/upload/google_drive_uploader.cpp\<close>): where a copy writes, and that a count is the count of the tree.
\<close>

subsection \<open>Where a copy writes\<close>

text \<open>The folders that the exchanges created, and the requests allowed while these are known.\<close>

definition created :: "('w, 'j) drive_env \<Rightarrow> exchange list \<Rightarrow> string set" where
  "created E l = {i. \<exists>bearer body r. (json_request files_url bearer body, Inr r) \<in> set l \<and>
     success r \<and> read_id (ge_json E) ''gdrive: create folder parse: '' (hr_body r) = Inr i}"

definition confined_request :: "('w, 'j) drive_env \<Rightarrow> string set \<Rightarrow> http_request \<Rightarrow> bool" where
  "confined_request E dests req =
     ((\<exists>jwt. req = token_request (key_of E) jwt) \<or>
      (\<exists>bearer i. req = metadata_request bearer i) \<or>
      (\<exists>bearer i tok. req = list_request bearer i tok) \<or>
      (\<exists>bearer name d. d \<in> dests \<and> req = json_request files_url bearer (ge_dump E (folder_body name d))) \<or>
      (\<exists>bearer i d. d \<in> dests \<and> req = copy_request E bearer i d))"

lemma confined_requestI:
  "confined_request E ds (token_request (key_of E) jwt)" "confined_request E ds (metadata_request bearer i)"
  "confined_request E ds (list_request bearer i tok)"
  "d \<in> ds \<Longrightarrow> confined_request E ds (json_request files_url bearer (ge_dump E (folder_body name d)))"
  "d \<in> ds \<Longrightarrow> confined_request E ds (copy_request E bearer i d)"
  unfolding confined_request_def
  by (rule disjI1, rule exI, rule refl) (rule disjI2, rule disjI1, rule exI, rule exI, rule refl,
    rule disjI2, rule disjI2, rule disjI1, rule exI, rule exI, rule exI, rule refl,
    rule disjI2, rule disjI2, rule disjI2, rule disjI1, rule exI, rule exI, rule exI, rule conjI, assumption, rule refl,
    rule disjI2, rule disjI2, rule disjI2, rule disjI2, rule exI, rule exI, rule exI, rule conjI, assumption, rule refl)

definition confined :: "('w, 'j) drive_env \<Rightarrow> string \<Rightarrow> exchange list \<Rightarrow> bool" where
  "confined E target l = (\<forall>k < length l. confined_request E (insert target (created E (take k l))) (fst (l ! k)))"

lemma created_append: "created E (l @ x) = created E l \<union> created E x"
  by (auto simp: created_def)

lemma confined_Nil [simp]: "confined E target []"
  by (simp add: confined_def)

lemma confined_snoc:
  "confined E target (l @ [x]) \<longleftrightarrow> confined E target l \<and> confined_request E (insert target (created E l)) (fst x)"
  by (auto simp: confined_def nth_append less_Suc_eq)

definition extends :: "('w, 'j) drive_env \<Rightarrow> string \<Rightarrow> exchange list \<Rightarrow> exchange list \<Rightarrow> bool" where
  "extends E target l l' = (confined E target l' \<and> created E l \<subseteq> created E l')"

lemma extends_refl: "confined E target l \<Longrightarrow> extends E target l l"
  by (simp add: extends_def)

lemma extends_trans: "extends E target l l' \<Longrightarrow> extends E target l' l'' \<Longrightarrow> extends E target l l''"
  by (auto simp: extends_def)

lemma extends_snoc:
  "extends E target l l' \<Longrightarrow> confined_request E (insert target (created E l')) (fst x) \<Longrightarrow> extends E target l (l' @ [x])"
  by (auto simp: extends_def confined_snoc created_append)

lemma extends_minted: "extends E target l l' \<Longrightarrow> minted E x \<Longrightarrow> extends E target l (l' @ x)"
  by (auto simp: minted_def intro!: extends_snoc confined_requestI)

lemma wp_request:
  assumes "confined E target l" "confined_request E (insert target (created E l)) req"
    and "\<And>r t' w'. extends E target l (l @ [(req, r)]) \<Longrightarrow> Q r (t', w', l @ [(req, r)])"
  shows "wp (ge_http (spied_env E) req) Q (t, w, l)"
  by (rule wp_spied_http, rule assms(3)) (use assms(1,2) in \<open>auto intro!: extends_snoc extends_refl\<close>)

lemma wp_bearer:
  assumes "confined E target l" "\<And>r t' w' l'. extends E target l l' \<Longrightarrow> Q r (t', w', l')"
  shows "wp (acquire_bearer (spied_env E)) Q (t, w, l)"
  by (rule wp_acquire, rule assms(2)) (use assms(1) in \<open>auto intro!: extends_minted extends_refl\<close>)

lemma extends_dests: "extends E target l l' \<Longrightarrow> d \<in> insert target (created E l) \<Longrightarrow> d \<in> insert target (created E l')"
  by (auto simp: extends_def)

lemma extends_confined: "extends E target l l' \<Longrightarrow> confined E target l'"
  by (simp add: extends_def)

lemma wp_create_folder:
  assumes "confined E target l" "d \<in> insert target (created E l)"
    and "\<And>r t' w' l'. extends E target l l' \<Longrightarrow> (\<And>i. r = Inr i \<Longrightarrow> i \<in> created E l') \<Longrightarrow> Q r (t', w', l')"
  shows "wp (create_folder (spied_env E) name d) Q (t, w, l)"
  unfolding create_folder_def wp_bind spied_env_sel
proof (rule wp_bearer [OF assms(1)])
  fix b t1 w1 l1
  assume e: "extends E target l l1"
  have bad: "Q (Inl x) (t1, w1, l1)" for x by (rule assms(3) [OF e]) simp
  define req where "req bearer = json_request files_url bearer (ge_dump E (folder_body name d))" for bearer
  have good: "wp (ge_http (spied_env E) (req bearer)) (\<lambda>r. wp (State_Monad.return (case r of Inl e \<Rightarrow> Inl e
        | Inr resp \<Rightarrow> if \<not> success resp then Inl (api_error ''gdrive: create folder'' resp)
            else read_id (ge_json E) ''gdrive: create folder parse: '' (hr_body resp))) Q) (t1, w1, l1)" for bearer
  proof (rule wp_request [OF extends_confined [OF e]])
    show "confined_request E (insert target (created E l1)) (req bearer)"
      unfolding req_def by (rule confined_requestI(4)) (rule extends_dests [OF e assms(2)])
    fix r t2 w2
    assume e2: "extends E target l1 (l1 @ [(req bearer, r)])"
    show "wp (State_Monad.return (case r of Inl e \<Rightarrow> Inl e
        | Inr resp \<Rightarrow> if \<not> success resp then Inl (api_error ''gdrive: create folder'' resp)
            else read_id (ge_json E) ''gdrive: create folder parse: '' (hr_body resp))) Q (t2, w2, l1 @ [(req bearer, r)])"
      unfolding wp_return
      by (rule assms(3) [OF extends_trans [OF e e2]]) (auto simp: created_def req_def split: sum.splits if_splits)
  qed
  show "wp (case b of Inl e \<Rightarrow> State_Monad.return (Inl e) | Inr bearer \<Rightarrow>
      ge_http (spied_env E) (json_request files_url bearer (ge_dump E (folder_body name d))) \<bind> (\<lambda>r. State_Monad.return (case r of
        Inl e \<Rightarrow> Inl e
      | Inr resp \<Rightarrow> if \<not> success resp then Inl (api_error ''gdrive: create folder'' resp)
          else read_id (ge_json E) ''gdrive: create folder parse: '' (hr_body resp)))) Q (t1, w1, l1)"
    using bad good [unfolded req_def] by (cases b) (simp_all add: wp_bind)
qed

lemma spied_copy_request [simp]: "copy_request (spied_env E) bearer i d = copy_request E bearer i d"
  by (simp add: copy_request_def)

lemma wp_copy_file:
  assumes "confined E target l" "d \<in> insert target (created E l)" "\<And>r t' w' l'. extends E target l l' \<Longrightarrow> Q r (t', w', l')"
  shows "wp (copy_file (spied_env E) what bearer i d) Q (t, w, l)"
proof -
  have "confined_request E (insert target (created E l)) (copy_request E bearer i d)"
    by (rule confined_requestI(5)) (rule assms(2))
  then show ?thesis
    unfolding copy_file_def wp_bind wp_return spied_copy_request
    by (rule wp_request [OF assms(1)]) (rule assms(3))
qed

lemma wp_list_children:
  assumes "confined E target l" "\<And>r t' w' l'. extends E target l l' \<Longrightarrow> Q r (t', w', l')"
  shows "wp (list_children m (spied_env E) bearer parent out tok) Q (t, w, l)"
  using assms
proof (induction m arbitrary: t w l out tok)
  case 0
  then show ?case by (simp add: extends_refl)
next
  case (Suc m)
  have ok: "confined_request E (insert target (created E l)) (list_request bearer parent tok)"
    by (rule confined_requestI(3))
  have again: "wp (list_children m (spied_env E) bearer parent out' tok') Q (t', w', l')" if "extends E target l l'" for out' tok' t' w' l'
    by (rule Suc.IH [OF extends_confined [OF that]]) (rule Suc.prems(2) [OF extends_trans [OF that]])
  show ?case
    unfolding list_children.simps wp_bind
    by (rule wp_request [OF Suc.prems(1) ok]) (auto simp: again Suc.prems(2) split: sum.splits prod.splits option.splits)
qed

text \<open>The destinations on the stack are folders that the copy created.\<close>

lemma wp_copy_children:
  assumes "confined E target l" "d \<in> insert target (created E l)" "snd ` set stack \<subseteq> created E l"
    and "\<And>r t' w' l'. extends E target l l' \<Longrightarrow> (\<And>st. r = F_Done (Inr st) \<Longrightarrow> snd ` set st \<subseteq> created E l') \<Longrightarrow> Q r (t', w', l')"
  shows "wp (copy_children (spied_env E) bearer d children stack) Q (t, w, l)"
  using assms
proof (induction children arbitrary: t w l stack)
  case Nil
  have "Q (F_Done (Inr stack)) (t, w, l)" by (rule Nil.prems(4) [OF extends_refl [OF Nil.prems(1)]]) (use Nil.prems(3) in auto)
  then show ?case by simp
next
  case (Cons child rest)
  have stop: "Q r (t', w', l')" if "extends E target l l'" "\<And>st. r \<noteq> F_Done (Inr st)" for r t' w' l'
    by (rule Cons.prems(4) [OF that(1)]) (use that(2) in simp)
  have go_on: "wp (copy_children (spied_env E) bearer d rest st) Q (t', w', l')"
    if "extends E target l l'" "snd ` set st \<subseteq> created E l'" for st t' w' l'
    by (rule Cons.IH [OF extends_confined [OF that(1)] extends_dests [OF that(1) Cons.prems(2)] that(2)])
      (blast intro: Cons.prems(4) extends_trans [OF that(1)])
  have old: "(a, b) \<in> set stack \<Longrightarrow> b \<in> created E l'" if "extends E target l l'" for a b l'
    using Cons.prems(3) that by (force simp: extends_def)
  note refl = extends_refl [OF Cons.prems(1)]
  have folder: "wp (create_folder (spied_env E) name d) (\<lambda>made. wp (case made of Inl e \<Rightarrow> State_Monad.return (F_Done (Inl e))
      | Inr i \<Rightarrow> copy_children (spied_env E) bearer d rest ((cid, i) # stack)) Q) (t, w, l)" for name cid
    by (rule wp_create_folder [OF Cons.prems(1,2)]) (auto simp: stop dest: old intro!: go_on split: sum.splits)
  have one: "wp (copy_file (spied_env E) what bearer i d) (\<lambda>r. wp (case r of Inl e \<Rightarrow> State_Monad.return (F_Done (Inl e))
      | Inr _ \<Rightarrow> copy_children (spied_env E) bearer d rest stack) Q) (t, w, l)" for what i
    by (rule wp_copy_file [OF Cons.prems(1,2)]) (auto simp: stop dest: old intro!: go_on split: sum.splits)
  show ?case
    using folder one go_on [OF refl Cons.prems(3)] stop [OF refl]
    by (auto simp: wp_bind split: sum.splits option.splits)
qed

lemma wp_copy_loop:
  assumes "confined E target l" "snd ` set stack \<subseteq> created E l"
    and "\<And>r t' w' l'. confined E target l' \<Longrightarrow> Q r (t', w', l')"
  shows "wp (copy_loop n m (spied_env E) bearer top_id stack) Q (t, w, l)"
  using assms(1,2)
proof (induction n arbitrary: t w l stack)
  case 0
  then show ?case by (cases stack) (simp_all add: assms(3))
next
  case (Suc n)
  show ?case
  proof (cases stack)
    case Nil
    with Suc.prems show ?thesis by (simp add: assms(3))
  next
    case (Cons frame rest)
    have children: "wp (copy_children (spied_env E) bearer (snd frame) cs rest) (\<lambda>p. wp (case p of
          F_Done (Inl e) \<Rightarrow> State_Monad.return (F_Done (Inl e)) | F_Thrown x \<Rightarrow> State_Monad.return (F_Thrown x)
        | F_Fuel \<Rightarrow> State_Monad.return F_Fuel | F_Done (Inr stack') \<Rightarrow> copy_loop n m (spied_env E) bearer top_id stack') Q) (t', w', l')"
      if "extends E target l l'" for cs t' w' l'
    proof (rule wp_copy_children)
      show "confined E target l'" by (rule extends_confined [OF that])
      show "snd frame \<in> insert target (created E l')" "snd ` set rest \<subseteq> created E l'"
        using Suc.prems(2) that by (auto simp: Cons extends_def)
    qed (auto simp: Suc.IH assms(3) dest: extends_confined split: flow.splits sum.splits)
    have listed: "wp (list_children m (spied_env E) bearer (fst frame) [] []) (\<lambda>c. wp (case c of
          F_Done (Inl e) \<Rightarrow> State_Monad.return (F_Done (Inl e)) | F_Thrown x \<Rightarrow> State_Monad.return (F_Thrown x)
        | F_Fuel \<Rightarrow> State_Monad.return F_Fuel
        | F_Done (Inr cs) \<Rightarrow> copy_children (spied_env E) bearer (snd frame) cs rest \<bind> (\<lambda>p. case p of
            F_Done (Inl e) \<Rightarrow> State_Monad.return (F_Done (Inl e)) | F_Thrown x \<Rightarrow> State_Monad.return (F_Thrown x)
          | F_Fuel \<Rightarrow> State_Monad.return F_Fuel | F_Done (Inr stack') \<Rightarrow> copy_loop n m (spied_env E) bearer top_id stack')) Q) (t', w', l)"
      for t' w'
      by (rule wp_list_children [OF Suc.prems(1)])
        (auto simp: wp_bind children assms(3) dest: extends_confined split: flow.splits sum.splits)
    show ?thesis
      unfolding Cons copy_loop.simps wp_bind [of "ge_cancelled _"]
      by (rule wp_spied_rest(3)) (use listed Suc.prems(1) in \<open>auto simp: wp_bind [of "list_children _ _ _ _ _ _"] assms(3)\<close>)
  qed
qed

lemma wp_drive_copy:
  assumes "confined E target l" "\<And>r t' w' l'. confined E target l' \<Longrightarrow> Q r (t', w', l')"
  shows "wp (drive_copy n m (spied_env E) source_id target) Q (t, w, l)"
proof (cases "ge_key E")
  case None
  then show ?thesis by (simp add: drive_copy_def assms)
next
  case (Some key)
  have rooted: "wp (copy_root n m (spied_env E) bearer source_id target mime name) Q (t', w', l')"
    if c: "confined E target l'" for bearer mime name t' w' l'
  proof -
    have one: "wp (copy_file (spied_env E) what bearer source_id target) (\<lambda>r. Q (F_Done (f r))) (t', w', l')" for what f
      by (rule wp_copy_file [OF c]) (auto intro: assms(2) dest: extends_confined)
    have folder: "wp (create_folder (spied_env E) name target) (\<lambda>made. wp (case made of Inl e \<Rightarrow> State_Monad.return (F_Done (Inl e))
        | Inr i \<Rightarrow> copy_loop n m (spied_env E) bearer i [(source_id, i)]) Q) (t', w', l')"
      by (rule wp_create_folder [OF c])
        (auto intro!: assms(2) wp_copy_loop [where target = target and E = E] dest: extends_confined split: sum.splits)
    show ?thesis unfolding copy_root_def using one folder by (simp add: wp_bind)
  qed
  have meta: "wp (fetch_metadata (spied_env E) bearer source_id) (\<lambda>mt. wp (f mt) Q) (t', w', l')"
    if c: "confined E target l'" and f: "\<And>mt t' w' l'. confined E target l' \<Longrightarrow> wp (f mt) Q (t', w', l')" for bearer f t' w' l'
  proof -
    have "confined_request E (insert target (created E l')) (metadata_request bearer source_id)"
      by (rule confined_requestI(2))
    then show ?thesis
      unfolding fetch_metadata_def wp_bind wp_return
      by (rule wp_request [OF c]) (rule f, erule extends_confined)
  qed
  have ready: "(ge_key E = None) = False" using Some by simp
  show ?thesis
    unfolding drive_copy_def spied_env_sel ready if_False wp_bind [of "acquire_bearer _"]
  proof (rule wp_bearer [OF assms(1)])
    fix b t1 w1 l1
    assume "extends E target l l1"
    then have c: "confined E target l1" by (rule extends_confined)
    show "wp (case b of Inl e \<Rightarrow> State_Monad.return (F_Done (Inl e))
         | Inr bearer \<Rightarrow> fetch_metadata (spied_env E) bearer source_id \<bind> (\<lambda>meta. case meta of
              Inl e \<Rightarrow> State_Monad.return (F_Done (Inl e))
            | Inr doc \<Rightarrow> (case and_then (jv_value_string (ge_json E) doc ''mimeType'' []) (\<lambda>mime.
                  and_then (jv_value_string (ge_json E) doc ''name'' ''copy'') (\<lambda>name. Inr (mime, name))) of
                Inl x \<Rightarrow> State_Monad.return (F_Thrown x)
              | Inr (mime, name) \<Rightarrow> copy_root n m (spied_env E) bearer source_id target mime name))) Q (t1, w1, l1)"
    proof (cases b)
      case (Inr bearer)
      show ?thesis unfolding Inr sum.case wp_bind [of "fetch_metadata _ _ _"]
        by (rule meta [OF c]) (auto simp: assms(2) rooted split: sum.splits prod.splits)
    qed (simp add: c assms(2))
  qed
qed

subsection \<open>Counting a tree\<close>

text \<open>
  What a folder holds: files with their sizes and folders with their ids. The server lists it in pages; \<open>page i tok\<close>
  is what it answers for the folder \<open>i\<close> and a page token.
\<close>

datatype drive_tree = DT_File int | DT_Folder string "drive_tree list"

type_synonym 'j pages = "string \<Rightarrow> string \<Rightarrow> 'j list \<times> string option"

fun listing :: "nat \<Rightarrow> 'j pages \<Rightarrow> string \<Rightarrow> string \<Rightarrow> 'j list option" where
  "listing 0 page i tok = None"
| "listing (Suc m) page i tok =
     (case page i tok of (fs, None) \<Rightarrow> Some fs | (fs, Some tok') \<Rightarrow> map_option ((@) fs) (listing m page i tok'))"

inductive hosts :: "'j json_view \<Rightarrow> nat \<Rightarrow> 'j pages \<Rightarrow> string \<Rightarrow> drive_tree list \<Rightarrow> bool"
  and shows_child :: "'j json_view \<Rightarrow> nat \<Rightarrow> 'j pages \<Rightarrow> 'j \<Rightarrow> drive_tree \<Rightarrow> bool" for J m page where
  Hosts: "listing m page i [] = Some js \<Longrightarrow> list_all2 (shows_child J m page) js ts \<Longrightarrow> hosts J m page i ts"
| File: "jv_value_string J j ''mimeType'' [] = Inr mime \<Longrightarrow> mime \<noteq> kFolderMime \<Longrightarrow> child_size J j = sz \<Longrightarrow>
    shows_child J m page j (DT_File sz)"
| Folder: "jv_value_string J j ''mimeType'' [] = Inr kFolderMime \<Longrightarrow> jv_value_string J j ''id'' [] = Inr i \<Longrightarrow> i \<noteq> [] \<Longrightarrow>
    hosts J m page i ts \<Longrightarrow> shows_child J m page j (DT_Folder i ts)"

text \<open>The reference: everything below a folder, the folder itself not counted.\<close>

definition plus_totals :: "count_result \<Rightarrow> count_result \<Rightarrow> count_result" where
  "plus_totals a b = \<lparr>ct_files = ct_files a + ct_files b, ct_folders = ct_folders a + ct_folders b,
     ct_total_bytes = ct_total_bytes a + ct_total_bytes b\<rparr>"

fun tree_totals :: "drive_tree \<Rightarrow> count_result" and trees_totals :: "drive_tree list \<Rightarrow> count_result" where
  "tree_totals (DT_File sz) = \<lparr>ct_files = 1, ct_folders = 0, ct_total_bytes = sz\<rparr>"
| "tree_totals (DT_Folder i ts) = plus_totals \<lparr>ct_files = 0, ct_folders = 1, ct_total_bytes = 0\<rparr> (trees_totals ts)"
| "trees_totals [] = no_totals"
| "trees_totals (t # ts) = plus_totals (tree_totals t) (trees_totals ts)"

fun folders_in :: "drive_tree \<Rightarrow> nat" and folders_in_all :: "drive_tree list \<Rightarrow> nat" where
  "folders_in (DT_File sz) = 0"
| "folders_in (DT_Folder i ts) = Suc (folders_in_all ts)"
| "folders_in_all [] = 0"
| "folders_in_all (t # ts) = folders_in t + folders_in_all ts"

text \<open>The folders waiting in the queue, and what a level adds to it.\<close>

fun queue_folders :: "drive_tree list list \<Rightarrow> nat" where
  "queue_folders [] = 0"
| "queue_folders (ts # q) = Suc (folders_in_all ts) + queue_folders q"

fun queue_totals :: "drive_tree list list \<Rightarrow> count_result" where
  "queue_totals [] = no_totals"
| "queue_totals (ts # q) = plus_totals (trees_totals ts) (queue_totals q)"

lemma plus_totals_simps [simp]:
  "plus_totals a no_totals = a" "plus_totals no_totals a = a"
  "plus_totals (plus_totals a b) c = plus_totals a (plus_totals b c)"
  by (simp_all add: plus_totals_def no_totals_def)

lemma plus_totals_commute: "plus_totals a b = plus_totals b a" "plus_totals a (plus_totals b c) = plus_totals b (plus_totals a c)"
  by (simp_all add: plus_totals_def)

text \<open>A server that lists like this whenever it is asked, and a caller who does not cancel.\<close>

definition lists_pages :: "('w, 'j) drive_env \<Rightarrow> 'j pages \<Rightarrow> bool" where
  "lists_pages E page = (\<forall>bearer i tok \<sigma>. case fst (run_state (ge_http E (list_request bearer i tok)) \<sigma>) of
     Inl _ \<Rightarrow> False | Inr r \<Rightarrow> success r \<and> read_page (ge_json E) (hr_body r) = Inr (page i tok))"

definition never_cancelled :: "('w, 'j) drive_env \<Rightarrow> bool" where
  "never_cancelled E = (\<forall>\<sigma>. \<not> fst (run_state (ge_cancelled E) \<sigma>))"

lemma list_children_pages:
  assumes "lists_pages E page" "listing m page i tok = Some js"
  shows "fst (run_state (list_children m E bearer i out tok) \<sigma>) = F_Done (Inr (out @ js))"
  using assms(2)
proof (induction m arbitrary: out tok js \<sigma>)
  case (Suc m)
  obtain a \<sigma>' where run: "run_state (ge_http E (list_request bearer i tok)) \<sigma> = (a, \<sigma>')" by (rule prod.exhaust)
  have "case fst (run_state (ge_http E (list_request bearer i tok)) \<sigma>) of
     Inl _ \<Rightarrow> False | Inr r \<Rightarrow> success r \<and> read_page (ge_json E) (hr_body r) = Inr (page i tok)"
    using assms(1) unfolding lists_pages_def by blast
  with run obtain r where r: "a = Inr r" "success r" "read_page (ge_json E) (hr_body r) = Inr (page i tok)"
    by (cases a) auto
  have again: "listing m page i tok' = Some js' \<Longrightarrow> fst (run_state (list_children m E bearer i out' tok') \<sigma>') = F_Done (Inr (out' @ js'))"
    for out' tok' js' by (rule Suc.IH)
  show ?case
    using Suc.prems run r by (auto simp: run_simps again split: prod.splits option.splits)
qed simp

lemma queue_append [simp]:
  "queue_totals (xs @ ys) = plus_totals (queue_totals xs) (queue_totals ys)" "queue_folders (xs @ ys) = queue_folders xs + queue_folders ys"
  by (induction xs) simp_all

lemma count_children_level:
  assumes "list_all2 (shows_child J m page) js ts"
  shows "\<exists>totals' ids tss. count_children J js (totals, queue) = Inr (totals', ids @ queue) \<and> list_all2 (hosts J m page) ids tss \<and>
    plus_totals totals' (queue_totals tss) = plus_totals totals (trees_totals ts) \<and> queue_folders tss = folders_in_all ts"
  using assms
proof (induction arbitrary: totals queue rule: list_all2_induct)
  case Nil
  then show ?case by (auto intro!: exI [of _ "[]"])
next
  case (Cons j js t ts)
  from Cons.hyps(1) show ?case
  proof cases
    case (File mime sz)
    define one where "one = plus_totals totals (tree_totals t)"
    have "count_child J j (totals, queue) = Inr (one, queue)"
      using File by (simp add: count_child_def one_def plus_totals_def)
    moreover obtain totals' ids tss where "count_children J js (one, queue) = Inr (totals', ids @ queue)"
      "list_all2 (hosts J m page) ids tss" "plus_totals totals' (queue_totals tss) = plus_totals one (trees_totals ts)"
      "queue_folders tss = folders_in_all ts"
      using Cons.IH [of one queue] by blast
    ultimately show ?thesis using File by (intro exI [of _ totals'] exI [of _ ids] exI [of _ tss]) (simp add: one_def)
  next
    case (Folder i us)
    define one where "one = plus_totals totals \<lparr>ct_files = 0, ct_folders = 1, ct_total_bytes = 0\<rparr>"
    have "count_child J j (totals, queue) = Inr (one, i # queue)"
      using Folder by (simp add: count_child_def one_def plus_totals_def)
    moreover obtain totals' ids tss where rest: "count_children J js (one, i # queue) = Inr (totals', ids @ i # queue)"
      "list_all2 (hosts J m page) ids tss" "plus_totals totals' (queue_totals tss) = plus_totals one (trees_totals ts)"
      "queue_folders tss = folders_in_all ts"
      using Cons.IH [of one "i # queue"] by blast
    moreover have "list_all2 (hosts J m page) (ids @ [i]) (tss @ [us])"
      using rest(2) Folder by (simp add: list_all2_appendI)
    moreover have "plus_totals totals' (queue_totals (tss @ [us])) = plus_totals totals (trees_totals (t # ts))"
      using arg_cong [OF rest(3), of "\<lambda>x. plus_totals x (trees_totals us)"] Folder
      by (simp add: one_def plus_totals_commute)
    ultimately show ?thesis using Folder
      by (intro exI [of _ totals'] exI [of _ "ids @ [i]"] exI [of _ "tss @ [us]"]) simp
  qed
qed

lemma count_loop_tree:
  assumes "lists_pages E page" "never_cancelled E"
    and "list_all2 (hosts (ge_json E) m page) queue tss" "queue_folders tss \<le> n"
  shows "fst (run_state (count_loop n m E bearer queue totals) \<sigma>) = F_Done (Inr (plus_totals totals (queue_totals tss)))"
  using assms(3,4)
proof (induction n arbitrary: queue tss totals \<sigma>)
  case 0
  then show ?case by (cases tss; cases queue) (auto simp: run_simps)
next
  case (Suc n)
  show ?case
  proof (cases queue)
    case Nil
    with Suc.prems show ?thesis by (simp add: run_simps)
  next
    case (Cons here rest)
    with Suc.prems(1) obtain ts tss' where tss: "tss = ts # tss'" and h: "hosts (ge_json E) m page here ts"
      and q: "list_all2 (hosts (ge_json E) m page) rest tss'" by (auto simp: list_all2_Cons1)
    from h obtain js where js: "listing m page here [] = Some js" "list_all2 (shows_child (ge_json E) m page) js ts"
      by (cases rule: hosts.cases) auto
    obtain totals' ids uss where lv: "count_children (ge_json E) js (totals, rest) = Inr (totals', ids @ rest)"
      "list_all2 (hosts (ge_json E) m page) ids uss" "plus_totals totals' (queue_totals uss) = plus_totals totals (trees_totals ts)"
      "queue_folders uss = folders_in_all ts"
      using count_children_level [OF js(2), of totals rest] by blast
    obtain c \<sigma>1 where c: "run_state (ge_cancelled E) \<sigma> = (c, \<sigma>1)" by (rule prod.exhaust)
    have "\<not> c" using assms(2) c unfolding never_cancelled_def by (metis fst_conv)
    obtain l \<sigma>2 where l: "run_state (list_children m E bearer here [] []) \<sigma>1 = (l, \<sigma>2)" by (rule prod.exhaust)
    have "l = F_Done (Inr js)" using list_children_pages [OF assms(1) js(1), of bearer "[]" \<sigma>1] l by simp
    moreover have "fst (run_state (count_loop n m E bearer (ids @ rest) totals') \<sigma>2) =
        F_Done (Inr (plus_totals totals' (queue_totals (uss @ tss'))))"
      by (rule Suc.IH) (use lv(2,4) q Suc.prems(2) in \<open>auto simp: tss intro: list_all2_appendI\<close>)
    moreover have "plus_totals totals' (queue_totals (uss @ tss')) = plus_totals totals (queue_totals tss)"
      using arg_cong [OF lv(3), of "\<lambda>x. plus_totals x (queue_totals tss')"] by (simp add: tss)
    ultimately show ?thesis using c \<open>\<not> c\<close> l lv(1) by (simp add: Cons run_simps)
  qed
qed

subsection \<open>Properties\<close>

text \<open>
  C24. A copy writes only into its target: whatever the server answers and however long the walk goes on, every folder is
  created, and every file is copied, inside the target folder or a folder that this very copy created before; all other
  exchanges fetch the bearer, metadata or listings.
\<close>
theorem gdrive_copy_stays_in_target:
  "case run_state (drive_copy n m (spied_env E) source_id target) (t, w, []) of
     (r, t', w', sent) \<Rightarrow> list_all (\<lambda>k. confined_request E (insert target (created E (take k sent))) (fst (sent ! k))) [0..<length sent]"
proof -
  have "wp (drive_copy n m (spied_env E) source_id target) (\<lambda>r (t', w', sent). confined E target sent) (t, w, [])"
    by (rule wp_drive_copy) simp_all
  then show ?thesis by (simp add: wp_def confined_def list_all_iff split: prod.splits)
qed


text \<open>A server with a folder that holds a file and an empty folder.\<close>

definition sample_page :: "json_out pages" where
  "sample_page i tok =
     (if hq_url (list_request [] i tok) = hq_url (list_request [] ''f'' [])
      then [JO_Object [(''mimeType'', JO_String ''text/plain''), (''size'', JO_String ''12'')],
            JO_Object [(''mimeType'', JO_String kFolderMime), (''id'', JO_String ''g'')]] else [], None)"

definition sample_view :: "json_out json_view" where
  "sample_view = out_view\<lparr>jv_parse := (\<lambda>s. Inr (JO_Object [(''files'', JO_Array
     (if s = hq_url (list_request [] ''f'' [])
      then [JO_Object [(''mimeType'', JO_String ''text/plain''), (''size'', JO_String ''12'')],
            JO_Object [(''mimeType'', JO_String kFolderMime), (''id'', JO_String ''g'')]] else []))]))\<rparr>"

definition sample_env :: "(unit, json_out) drive_env" where
  "sample_env = (still_env (plain_response 200 []))\<lparr>ge_json := sample_view,
     ge_http := (\<lambda>req. State (\<lambda>s. (Inr (plain_response 200 (hq_url req)), s)))\<rparr>"

definition fresh_token :: drive_token where
  "fresh_token = \<lparr>tk_value = ''Bearer x'', tk_expires_at = 100000\<rparr>"

lemma sample_lists: "lists_pages sample_env sample_page"
  by (auto simp: lists_pages_def sample_env_def success_def plain_response_def read_page_def sample_view_def out_view_def
    sample_page_def list_request_def bearer_request_def add_header_def make_request_def string_member_def)

lemma sample_hosts: "hosts sample_view 1 sample_page ''f'' [DT_File 12, DT_Folder ''g'' []]"
proof -
  have "listing 1 sample_page ''g'' [] = Some []" by code_simp
  then have g: "hosts sample_view 1 sample_page ''g'' []" by (rule Hosts) simp
  let ?x = "JO_Object [(''mimeType'', JO_String ''text/plain''), (''size'', JO_String ''12'')]"
  let ?y = "JO_Object [(''mimeType'', JO_String kFolderMime), (''id'', JO_String ''g'')]"
  have f: "listing 1 sample_page ''f'' [] = Some [?x, ?y]" by (simp add: sample_page_def)
  have "shows_child sample_view 1 sample_page ?x (DT_File 12)"
  proof (rule File)
    show "jv_value_string sample_view ?x ''mimeType'' [] = Inr ''text/plain''" "''text/plain'' \<noteq> kFolderMime"
      "child_size sample_view ?x = 12" by code_simp+
  qed
  moreover have "shows_child sample_view 1 sample_page ?y (DT_Folder ''g'' [])"
    by (rule Folder [OF _ _ _ g]) (simp_all add: sample_view_def out_view_def)
  ultimately show ?thesis by (intro Hosts [OF f] list.rel_intros)
qed


end
