(* ===== verification/Worker_Pool.thy ===== *)
theory Worker_Pool
  imports Errors
begin

text \<open>
  The bounded worker pool that the upload adapters write four times (\<open>src/infrastructure/upload/google_drive_uploader.cpp\<close>: the
  chunk workers of \<open>upload_resumable\<close> and the file workers of \<open>upload_directory\<close>; \<open>telegram_uploader.cpp\<close>: the part
  workers of \<open>upload_file\<close> and the file workers of \<open>upload_directory\<close>). The workers share an
  index into the work list, an abort flag, the first error and what was collected; the last one
  out cancels the timer on which the parent waits. The executor has several threads, so a step is one
  access to the shared state.
\<close>

subsection \<open>State\<close>

text \<open>
  \<open>WP_Busy i\<close> works on item \<open>i\<close>, \<open>WP_Got i v\<close> has its answer, \<open>WP_Judge i v\<close> is behind the second look at the
  abort flag, \<open>WP_Record e\<close> is about to record an error, \<open>WP_Exit\<close> is at the destructor of the exit guard.
\<close>

datatype 'v worker_phase =
    WP_Start
  | WP_Top
  | WP_Poll
  | WP_Claim
  | WP_Busy nat
  | WP_Got nat 'v
  | WP_Judge nat 'v
  | WP_Record app_error
  | WP_Exit
  | WP_Gone

text \<open>The parent spawns the workers, then waits on the timer.\<close>

datatype parent_phase = PP_Spawned | PP_Waiting | PP_Woken

record ('v, 'r) work_pool =
  wp_next_index :: nat
  wp_live_workers :: nat
  wp_abort :: bool
  wp_first_error :: "app_error option"
  wp_collected :: 'r
  wp_phase :: "nat \<Rightarrow> 'v worker_phase"
  wp_parent :: parent_phase

text \<open>
  What differs between the uses: the number of workers and of items, the errors with which a worker
  may fail before its loop, the error that a cancelled worker records (if it records one), whether the abort flag is looked at again behind an
  answer, which answers the work on an item may give, and how an answer is judged.
\<close>

record ('v, 'r) pool_spec =
  sp_workers :: nat
  sp_items :: nat
  sp_start_error :: "app_error \<Rightarrow> bool"
  sp_cancel_error :: "app_error option"
  sp_recheck :: bool
  sp_answers :: "nat \<Rightarrow> 'v \<Rightarrow> bool"
  sp_judge :: "nat \<Rightarrow> 'v \<Rightarrow> 'r \<Rightarrow> app_error + 'r"

definition spawn_pool :: "('v, 'r) pool_spec \<Rightarrow> 'r \<Rightarrow> ('v, 'r) work_pool" where
  "spawn_pool S r = \<lparr>wp_next_index = 0, wp_live_workers = sp_workers S, wp_abort = False, wp_first_error = None,
     wp_collected = r, wp_phase = (\<lambda>w. if w < sp_workers S then WP_Start else WP_Gone), wp_parent = PP_Spawned\<rparr>"

subsection \<open>Steps of a worker\<close>

definition goto :: "nat \<Rightarrow> 'v worker_phase \<Rightarrow> ('v, 'r) work_pool \<Rightarrow> ('v, 'r) work_pool" where
  "goto w ph st = st\<lparr>wp_phase := (wp_phase st)(w := ph)\<rparr>"

text \<open>\<open>while (!abort)\<close>; the cancellation state; \<open>next_index.fetch_add\<close>.\<close>

definition loop_check :: "nat \<Rightarrow> ('v, 'r) work_pool \<Rightarrow> ('v, 'r) work_pool" where
  "loop_check w st = goto w (if wp_abort st then WP_Exit else WP_Poll) st"

definition poll_cancelled :: "('v, 'r) pool_spec \<Rightarrow> bool \<Rightarrow> nat \<Rightarrow> ('v, 'r) work_pool \<Rightarrow> ('v, 'r) work_pool" where
  "poll_cancelled S cancelled w st =
     (if cancelled then
        (case sp_cancel_error S of
           None \<Rightarrow> goto w WP_Exit (st\<lparr>wp_abort := True\<rparr>)
         | Some e \<Rightarrow> goto w (WP_Record e) st)
      else goto w WP_Claim st)"

definition claim_index :: "('v, 'r) pool_spec \<Rightarrow> nat \<Rightarrow> ('v, 'r) work_pool \<Rightarrow> ('v, 'r) work_pool" where
  "claim_index S w st =
     (let i = wp_next_index st; st = st\<lparr>wp_next_index := Suc i\<rparr> in
      goto w (if i \<ge> sp_items S then WP_Exit else WP_Busy i) st)"

definition abort_check :: "('v, 'r) pool_spec \<Rightarrow> nat \<Rightarrow> nat \<Rightarrow> 'v \<Rightarrow> ('v, 'r) work_pool \<Rightarrow> ('v, 'r) work_pool" where
  "abort_check S w i v st = goto w (if sp_recheck S \<and> wp_abort st then WP_Exit else WP_Judge i v) st"

definition judge_answer :: "('v, 'r) pool_spec \<Rightarrow> nat \<Rightarrow> nat \<Rightarrow> 'v \<Rightarrow> ('v, 'r) work_pool \<Rightarrow> ('v, 'r) work_pool" where
  "judge_answer S w i v st =
     (case sp_judge S i v (wp_collected st) of
        Inl e \<Rightarrow> goto w (WP_Record e) st
      | Inr r \<Rightarrow> goto w WP_Top (st\<lparr>wp_collected := r\<rparr>))"

definition record_error :: "nat \<Rightarrow> app_error \<Rightarrow> ('v, 'r) work_pool \<Rightarrow> ('v, 'r) work_pool" where
  "record_error w e st =
     goto w WP_Exit (st\<lparr>wp_first_error := (case wp_first_error st of None \<Rightarrow> Some e | Some e' \<Rightarrow> Some e'), wp_abort := True\<rparr>)"

text \<open>
  The exit guard. \<open>cancel()\<close> ends a wait that has begun; before that there is nothing to end, and the timer never
  expires by itself.
\<close>

definition exit_guard :: "nat \<Rightarrow> ('v, 'r) work_pool \<Rightarrow> ('v, 'r) work_pool" where
  "exit_guard w st =
     goto w WP_Gone (st\<lparr>wp_live_workers := wp_live_workers st - 1,
       wp_parent := (if wp_live_workers st = 1 \<and> wp_parent st = PP_Waiting then PP_Woken else wp_parent st)\<rparr>)"

datatype 'v pool_event =
    PE_Step nat
  | PE_Cancelled nat
  | PE_Claim nat nat
  | PE_Answer nat nat 'v
  | PE_Judged nat nat 'v
  | PE_Error nat app_error
  | PE_Recorded nat app_error
  | PE_Exit nat
  | PE_Wait
  | PE_Parent_Cancelled

inductive pool_move ::
    "('v, 'r) pool_spec \<Rightarrow> ('v, 'r) work_pool \<Rightarrow> 'v pool_event \<Rightarrow> ('v, 'r) work_pool \<Rightarrow> bool" for S where
  Opened: "wp_phase st w = WP_Start \<Longrightarrow> pool_move S st (PE_Step w) (goto w WP_Top st)"
| Not_opened: "wp_phase st w = WP_Start \<Longrightarrow> sp_start_error S e \<Longrightarrow> pool_move S st (PE_Error w e) (goto w (WP_Record e) st)"
| Top: "wp_phase st w = WP_Top \<Longrightarrow> pool_move S st (PE_Step w) (loop_check w st)"
| Going_on: "wp_phase st w = WP_Poll \<Longrightarrow> pool_move S st (PE_Step w) (poll_cancelled S False w st)"
| Cancelled: "wp_phase st w = WP_Poll \<Longrightarrow> pool_move S st (PE_Cancelled w) (poll_cancelled S True w st)"
| Claim: "wp_phase st w = WP_Claim \<Longrightarrow> pool_move S st (PE_Claim w (wp_next_index st)) (claim_index S w st)"
| Answer: "wp_phase st w = WP_Busy i \<Longrightarrow> sp_answers S i v \<Longrightarrow> pool_move S st (PE_Answer w i v) (goto w (WP_Got i v) st)"
| Error: "wp_phase st w = WP_Busy i \<Longrightarrow> pool_move S st (PE_Error w e) (goto w (WP_Record e) st)"
| Given_up: "wp_phase st w = WP_Busy i \<Longrightarrow> sp_recheck S \<Longrightarrow> wp_abort st \<Longrightarrow> pool_move S st (PE_Step w) (goto w WP_Exit st)"
| Recheck: "wp_phase st w = WP_Got i v \<Longrightarrow> pool_move S st (PE_Step w) (abort_check S w i v st)"
| Judged: "wp_phase st w = WP_Judge i v \<Longrightarrow> pool_move S st (PE_Judged w i v) (judge_answer S w i v st)"
| Recorded: "wp_phase st w = WP_Record e \<Longrightarrow> pool_move S st (PE_Recorded w e) (record_error w e st)"
| Exit: "wp_phase st w = WP_Exit \<Longrightarrow> pool_move S st (PE_Exit w) (exit_guard w st)"
| Wait: "wp_parent st = PP_Spawned \<Longrightarrow> pool_move S st PE_Wait (st\<lparr>wp_parent := PP_Waiting\<rparr>)"
| Parent_cancelled: "wp_parent st = PP_Waiting \<Longrightarrow> pool_move S st PE_Parent_Cancelled (st\<lparr>wp_parent := PP_Woken\<rparr>)"

text \<open>Runs with their history, the newest event first.\<close>

inductive pool_run ::
    "('v, 'r) pool_spec \<Rightarrow> 'r \<Rightarrow> 'v pool_event list \<Rightarrow> ('v, 'r) work_pool \<Rightarrow> bool" for S r where
  Spawned: "pool_run S r [] (spawn_pool S r)"
| Moved: "pool_run S r tr st \<Longrightarrow> pool_move S st e st' \<Longrightarrow> pool_run S r (e # tr) st'"

inductive_cases pool_moveE: "pool_move S st e st'"

lemmas pool_defs = goto_def loop_check_def poll_cancelled_def claim_index_def abort_check_def judge_answer_def
  record_error_def exit_guard_def

subsection \<open>What a history says\<close>

fun claims :: "nat \<Rightarrow> 'v pool_event list \<Rightarrow> nat list" where
  "claims N [] = []"
| "claims N (PE_Claim w i # tr) = (if i < N then i # claims N tr else claims N tr)"
| "claims N (_ # tr) = claims N tr"

text \<open>The items whose answers were judged good, the newest first, and what they make of the collection.\<close>

fun accepted :: "('v, 'r) pool_spec \<Rightarrow> 'r \<Rightarrow> 'v pool_event list \<Rightarrow> (nat \<times> 'v) list \<times> 'r" where
  "accepted S r [] = ([], r)"
| "accepted S r (PE_Judged w i v # tr) =
     (case accepted S r tr of (xs, c) \<Rightarrow> (case sp_judge S i v c of Inl _ \<Rightarrow> (xs, c) | Inr c' \<Rightarrow> ((i, v) # xs, c')))"
| "accepted S r (_ # tr) = accepted S r tr"

fun errors_of :: "'v pool_event list \<Rightarrow> app_error list" where
  "errors_of [] = []"
| "errors_of (PE_Recorded w e # tr) = e # errors_of tr"
| "errors_of (_ # tr) = errors_of tr"

definition undisturbed :: "'v pool_event list \<Rightarrow> bool" where
  "undisturbed tr = (PE_Parent_Cancelled \<notin> set tr \<and> (\<forall>w. PE_Cancelled w \<notin> set tr))"

fun item_of :: "'v worker_phase \<Rightarrow> nat option" where
  "item_of (WP_Busy i) = Some i"
| "item_of (WP_Got i v) = Some i"
| "item_of (WP_Judge i v) = Some i"
| "item_of _ = None"

definition holds :: "('v, 'r) work_pool \<Rightarrow> nat \<Rightarrow> nat \<Rightarrow> bool" where
  "holds st w i = (item_of (wp_phase st w) = Some i)"

definition gone :: "('v, 'r) work_pool \<Rightarrow> nat \<Rightarrow> bool" where
  "gone st w = (wp_phase st w = WP_Gone)"

subsection \<open>The invariant\<close>

lemma goto_sel [simp]:
  "wp_next_index (goto w ph st) = wp_next_index st" "wp_live_workers (goto w ph st) = wp_live_workers st"
  "wp_abort (goto w ph st) = wp_abort st" "wp_first_error (goto w ph st) = wp_first_error st"
  "wp_collected (goto w ph st) = wp_collected st" "wp_parent (goto w ph st) = wp_parent st"
  "wp_phase (goto w ph st) = (wp_phase st)(w := ph)"
  by (simp_all add: goto_def)

lemmas step_defs = loop_check_def poll_cancelled_def claim_index_def abort_check_def judge_answer_def
  record_error_def exit_guard_def Let_def

text \<open>Workers that were never spawned stay out, and the counter counts those that have not left.\<close>

definition counted :: "('v, 'r) pool_spec \<Rightarrow> ('v, 'r) work_pool \<Rightarrow> bool" where
  "counted S st =
     ((\<forall>w \<ge> sp_workers S. gone st w) \<and> wp_live_workers st = card {w. w < sp_workers S \<and> \<not> gone st w})"

lemma counted_same:
  "counted S st \<Longrightarrow> (\<And>v. gone st' v = gone st v) \<Longrightarrow> wp_live_workers st' = wp_live_workers st \<Longrightarrow> counted S st'"
  by (simp add: counted_def)

lemma counted_exit:
  assumes "counted S st" "wp_phase st w = WP_Exit"
  shows "counted S (exit_guard w st)"
proof -
  have w: "w < sp_workers S" using assms by (force simp: counted_def gone_def not_less [symmetric])
  have "{v. v < sp_workers S \<and> \<not> gone (exit_guard w st) v} = {v. v < sp_workers S \<and> \<not> gone st v} - {w}"
    using assms(2) by (auto simp: exit_guard_def gone_def)
  moreover have "w \<in> {v. v < sp_workers S \<and> \<not> gone st v}" using w assms(2) by (simp add: gone_def)
  ultimately have "card {v. v < sp_workers S \<and> \<not> gone (exit_guard w st) v} = wp_live_workers st - 1"
    using assms(1) by (simp add: counted_def)
  with assms(1) show ?thesis by (auto simp: counted_def exit_guard_def gone_def)
qed

lemma run_counted: "pool_run S r tr st \<Longrightarrow> counted S st"
proof (induction rule: pool_run.induct)
  case Spawned
  have "{w. w < sp_workers S \<and> \<not> gone (spawn_pool S r) w} = {..<sp_workers S}" by (auto simp: spawn_pool_def gone_def)
  then show ?case by (simp add: counted_def spawn_pool_def gone_def)
next
  case (Moved tr st e st')
  from Moved.hyps(2) show ?case
  proof cases
    case (Exit w)
    then show ?thesis using counted_exit [OF Moved.IH] by simp
  qed (auto intro!: counted_same [OF Moved.IH] simp: gone_def step_defs split: sum.splits if_splits option.splits)
qed

text \<open>Every index is claimed once, in order.\<close>

lemma run_claims: "pool_run S r tr st \<Longrightarrow> rev (claims (sp_items S) tr) = [0..<min (wp_next_index st) (sp_items S)]"
proof (induction rule: pool_run.induct)
  case (Moved tr st e st')
  from Moved.hyps(2) show ?case
  proof cases
    case (Claim w)
    have "min (Suc (wp_next_index st)) (sp_items S) =
        (if wp_next_index st < sp_items S then Suc (wp_next_index st) else min (wp_next_index st) (sp_items S))"
      by auto
    with Claim Moved.IH show ?thesis by (auto simp: claim_index_def Let_def)
  qed (use Moved.IH in \<open>simp_all add: step_defs split: sum.splits option.splits\<close>)
qed (simp add: spawn_pool_def)

lemma run_collected: "pool_run S r tr st \<Longrightarrow> snd (accepted S r tr) = wp_collected st"
proof (induction rule: pool_run.induct)
  case (Moved tr st e st')
  from Moved.hyps(2) Moved.IH show ?case
    by cases (auto simp: step_defs split: sum.splits prod.splits option.splits)
qed (simp add: spawn_pool_def)

text \<open>The first recorded error is kept, and the abort flag has a cause.\<close>

lemma run_errors:
  "pool_run S r tr st \<Longrightarrow>
     wp_first_error st = (if errors_of tr = [] then None else Some (last (errors_of tr))) \<and>
     (wp_abort st \<longleftrightarrow> errors_of tr \<noteq> [] \<or> sp_cancel_error S = None \<and> (\<exists>w. PE_Cancelled w \<in> set tr))"
proof (induction rule: pool_run.induct)
  case (Moved tr st e st')
  from Moved.hyps(2) Moved.IH show ?case
    by cases (auto simp: step_defs split: sum.splits option.splits)
qed (simp add: spawn_pool_def)

text \<open>
  A held item is claimed and not accepted, by one worker; without an abort every claimed item is
  accepted, held, or its error is about to be recorded, and a worker leaves only when all are claimed.
\<close>

definition accepted_items :: "('v, 'r) pool_spec \<Rightarrow> 'r \<Rightarrow> 'v pool_event list \<Rightarrow> nat list" where
  "accepted_items S r tr = map fst (fst (accepted S r tr))"

definition claimed :: "('v, 'r) pool_spec \<Rightarrow> ('v, 'r) work_pool \<Rightarrow> nat \<Rightarrow> bool" where
  "claimed S st i = (i < wp_next_index st \<and> i < sp_items S)"

definition recording :: "('v, 'r) work_pool \<Rightarrow> nat \<Rightarrow> bool" where
  "recording st w = (\<exists>e. wp_phase st w = WP_Record e)"

definition leaving :: "('v, 'r) work_pool \<Rightarrow> nat \<Rightarrow> bool" where
  "leaving st w = (wp_phase st w = WP_Exit \<or> wp_phase st w = WP_Gone)"

definition items_once :: "('v, 'r) pool_spec \<Rightarrow> nat list \<Rightarrow> ('v, 'r) work_pool \<Rightarrow> bool" where
  "items_once S acc st =
     (distinct acc \<and> (\<forall>i \<in> set acc. claimed S st i) \<and>
      (\<forall>w i. holds st w i \<longrightarrow> claimed S st i \<and> i \<notin> set acc) \<and>
      (\<forall>w w' i. holds st w i \<longrightarrow> holds st w' i \<longrightarrow> w = w'))"

definition items_kept :: "('v, 'r) pool_spec \<Rightarrow> nat list \<Rightarrow> ('v, 'r) work_pool \<Rightarrow> bool" where
  "items_kept S acc st =
     (wp_abort st \<or>
      (\<forall>i. claimed S st i \<longrightarrow> i \<in> set acc \<or> (\<exists>w. holds st w i) \<or> (\<exists>w. recording st w)) \<and>
      (\<forall>w < sp_workers S. leaving st w \<longrightarrow> sp_items S \<le> wp_next_index st))"

text \<open>A step of worker \<open>w\<close> that claims nothing and accepts nothing.\<close>

definition idle_step :: "nat \<Rightarrow> ('v, 'r) work_pool \<Rightarrow> ('v, 'r) work_pool \<Rightarrow> bool" where
  "idle_step w st st' =
     (\<exists>ph. wp_phase st' = (wp_phase st)(w := ph) \<and> wp_next_index st' = wp_next_index st \<and> (wp_abort st \<longrightarrow> wp_abort st') \<and>
        (item_of ph = item_of (wp_phase st w) \<or> item_of ph = None \<and> (wp_abort st' \<or> (\<exists>e. ph = WP_Record e))) \<and>
        (ph = WP_Exit \<or> ph = WP_Gone \<longrightarrow> wp_abort st' \<or> wp_phase st w = WP_Exit) \<and>
        (recording st w \<longrightarrow> wp_abort st'))"

lemma idle_stepI:
  "wp_phase st' = (wp_phase st)(w := ph) \<Longrightarrow> wp_next_index st' = wp_next_index st \<Longrightarrow> (wp_abort st \<Longrightarrow> wp_abort st') \<Longrightarrow>
   item_of ph = item_of (wp_phase st w) \<or> item_of ph = None \<and> (wp_abort st' \<or> (\<exists>e. ph = WP_Record e)) \<Longrightarrow>
   (ph = WP_Exit \<or> ph = WP_Gone \<Longrightarrow> wp_abort st' \<or> wp_phase st w = WP_Exit) \<Longrightarrow>
   (recording st w \<Longrightarrow> wp_abort st') \<Longrightarrow> idle_step w st st'"
  unfolding idle_step_def by blast

lemma idle_step_once: "idle_step w st st' \<Longrightarrow> items_once S acc st \<Longrightarrow> items_once S acc st'"
proof -
  assume step: "idle_step w st st'"
  then have "wp_next_index st' = wp_next_index st" by (auto simp: idle_step_def)
  then have c: "claimed S st' = claimed S st" by (simp add: claimed_def fun_eq_iff)
  have held: "holds st' v i \<Longrightarrow> holds st v i" for v i
    using step by (auto simp: holds_def idle_step_def split: if_splits)
  show "items_once S acc st \<Longrightarrow> items_once S acc st'"
    unfolding items_once_def c using held by blast
qed

lemma idle_step_kept: "idle_step w st st' \<Longrightarrow> items_kept S acc st \<Longrightarrow> items_kept S acc st'"
proof (cases "wp_abort st'")
  case False
  assume step: "idle_step w st st'" and inv: "items_kept S acc st"
  then have nxt: "wp_next_index st' = wp_next_index st" and ab: "\<not> wp_abort st" using False by (auto simp: idle_step_def)
  from nxt have c: "claimed S st' = claimed S st" by (simp add: claimed_def fun_eq_iff)
  have still: "holds st v i \<Longrightarrow> holds st' v i \<or> recording st' v" for v i
    using step False by (auto simp: holds_def recording_def idle_step_def)
  have rec: "recording st v \<Longrightarrow> recording st' v" for v
    using step False by (auto simp: recording_def idle_step_def)
  have out: "leaving st' v \<Longrightarrow> leaving st v" for v
    using step False by (auto simp: leaving_def idle_step_def split: if_splits)
  show ?thesis using inv ab False unfolding items_kept_def c nxt using still rec out by blast
qed (simp add: items_kept_def)

definition item_inv :: "('v, 'r) pool_spec \<Rightarrow> 'r \<Rightarrow> 'v pool_event list \<Rightarrow> ('v, 'r) work_pool \<Rightarrow> bool" where
  "item_inv S r tr st = (items_once S (accepted_items S r tr) st \<and> items_kept S (accepted_items S r tr) st)"

lemma item_inv_idle:
  "item_inv S r tr st \<Longrightarrow> idle_step w st st' \<Longrightarrow> accepted S r tr' = accepted S r tr \<Longrightarrow> item_inv S r tr' st'"
  by (auto simp: item_inv_def accepted_items_def intro: idle_step_once idle_step_kept)

lemma item_inv_goto:
  assumes "item_inv S r tr st" "accepted S r tr' = accepted S r tr"
    and "wp_phase st' = (wp_phase st)(w := ph)" "wp_next_index st' = wp_next_index st" "wp_abort st \<Longrightarrow> wp_abort st'"
    and "item_of ph = item_of (wp_phase st w) \<or> item_of ph = None \<and> (wp_abort st' \<or> (\<exists>e. ph = WP_Record e))"
    and "ph = WP_Exit \<or> ph = WP_Gone \<Longrightarrow> wp_abort st' \<or> wp_phase st w = WP_Exit" "recording st w \<Longrightarrow> wp_abort st'"
  shows "item_inv S r tr' st'"
  by (rule item_inv_idle [OF assms(1) idle_stepI assms(2)]) (use assms(3-8) in simp_all)

lemma item_inv_claim:
  assumes inv: "item_inv S r tr st" and ph: "wp_phase st w = WP_Claim"
  shows "item_inv S r (PE_Claim w (wp_next_index st) # tr) (claim_index S w st)"
proof -
  let ?st = "claim_index S w st" and ?acc = "accepted_items S r tr"
  have held: "holds ?st v i \<longleftrightarrow> holds st v i \<or> (v = w \<and> i = wp_next_index st \<and> i < sp_items S)" for v i
    using ph by (auto simp: holds_def claim_index_def Let_def)
  have rec: "recording ?st = recording st" using ph by (auto simp: recording_def claim_index_def Let_def fun_eq_iff)
  have out: "leaving ?st v \<Longrightarrow> leaving st v \<or> sp_items S \<le> wp_next_index st" for v
    by (auto simp: leaving_def claim_index_def Let_def split: if_splits)
  have nxt: "wp_next_index ?st = Suc (wp_next_index st)" and ab: "wp_abort ?st = wp_abort st"
    by (simp_all add: claim_index_def Let_def)
  have c: "claimed S ?st i \<longleftrightarrow> claimed S st i \<or> (i = wp_next_index st \<and> i < sp_items S)" for i
    by (auto simp: claimed_def nxt)
  have new: "\<not> claimed S st (wp_next_index st)" by (simp add: claimed_def)
  have "items_once S ?acc ?st" using inv new unfolding item_inv_def items_once_def held c by blast
  moreover have "items_kept S ?acc ?st"
  proof (cases "wp_abort st")
    case False
    then have "\<forall>i. claimed S st i \<longrightarrow> i \<in> set ?acc \<or> (\<exists>w. holds st w i) \<or> (\<exists>w. recording st w)"
      "\<forall>w < sp_workers S. leaving st w \<longrightarrow> sp_items S \<le> wp_next_index st"
      using inv by (auto simp: item_inv_def items_kept_def)
    then have "claimed S ?st i \<Longrightarrow> i \<in> set ?acc \<or> (\<exists>w. holds ?st w i) \<or> (\<exists>w. recording ?st w)"
      and "v < sp_workers S \<Longrightarrow> leaving ?st v \<Longrightarrow> sp_items S \<le> wp_next_index ?st" for i v
      using out [of v] unfolding held c rec nxt by auto
    then show ?thesis unfolding items_kept_def by blast
  qed (simp add: items_kept_def ab)
  ultimately show ?thesis by (simp add: item_inv_def accepted_items_def)
qed

lemma item_inv_judged:
  assumes inv: "item_inv S r tr st" and ph: "wp_phase st w = WP_Judge i v"
    and col: "snd (accepted S r tr) = wp_collected st"
  shows "item_inv S r (PE_Judged w i v # tr) (judge_answer S w i v st)"
proof (cases "sp_judge S i v (wp_collected st)")
  case (Inl e)
  then have same: "accepted S r (PE_Judged w i v # tr) = accepted S r tr"
    using col by (auto split: prod.splits)
  have "idle_step w st (judge_answer S w i v st)"
    by (rule idle_stepI [where ph = "WP_Record e"]) (simp_all add: judge_answer_def Inl ph recording_def)
  with inv show ?thesis using same by (rule item_inv_idle)
next
  case (Inr c)
  let ?st = "judge_answer S w i v st" and ?acc = "accepted_items S r tr"
  have acc: "accepted_items S r (PE_Judged w i v # tr) = i # ?acc"
    using Inr col by (auto simp: accepted_items_def split: prod.splits)
  have phs: "wp_phase ?st = (wp_phase st)(w := WP_Top)" and nxt: "wp_next_index ?st = wp_next_index st" and ab: "wp_abort ?st = wp_abort st"
    using Inr by (simp_all add: judge_answer_def)
  have c: "claimed S ?st = claimed S st" by (simp add: claimed_def nxt fun_eq_iff)
  have held: "holds ?st u j \<longleftrightarrow> holds st u j \<and> u \<noteq> w" for u j by (simp add: holds_def phs)
  have mine: "holds st w j \<longleftrightarrow> j = i" for j using ph by (auto simp: holds_def)
  have rec: "recording ?st = recording st" using ph by (auto simp: phs recording_def fun_eq_iff)
  have out: "leaving ?st = leaving st" using ph by (auto simp: phs leaving_def fun_eq_iff)
  have "items_once S (i # ?acc) ?st"
  proof -
    have "i \<notin> set ?acc" "claimed S st i" using inv mine by (auto simp: item_inv_def items_once_def)
    moreover have "j \<noteq> i" if "holds st u j" "u \<noteq> w" for u j
      using inv that mine by (auto simp: item_inv_def items_once_def)
    ultimately show ?thesis using inv unfolding item_inv_def items_once_def c held by auto
  qed
  moreover have "items_kept S (i # ?acc) ?st"
  proof (cases "wp_abort st")
    case False
    then have k: "\<forall>i. claimed S st i \<longrightarrow> i \<in> set ?acc \<or> (\<exists>w. holds st w i) \<or> (\<exists>w. recording st w)"
      "\<forall>w < sp_workers S. leaving st w \<longrightarrow> sp_items S \<le> wp_next_index st"
      using inv by (auto simp: item_inv_def items_kept_def)
    have "j \<in> set (i # ?acc) \<or> (\<exists>u. holds st u j \<and> u \<noteq> w) \<or> (\<exists>w. recording st w)" if "claimed S st j" for j
      using k(1) that mine by (cases "j = i") (auto, metis)
    with k(2) show ?thesis unfolding items_kept_def held c rec nxt out by blast
  qed (simp add: items_kept_def ab)
  ultimately show ?thesis by (simp add: item_inv_def acc)
qed

lemma run_items: "pool_run S r tr st \<Longrightarrow> item_inv S r tr st"
proof (induction rule: pool_run.induct)
  case Spawned
  then show ?case
    by (auto simp: item_inv_def items_once_def items_kept_def claimed_def accepted_items_def spawn_pool_def holds_def leaving_def)
next
  case (Moved tr st e st')
  note keep = item_inv_goto [OF Moved.IH]
  from Moved.hyps(2) show ?case
  proof cases
    case (Claim w)
    then show ?thesis using item_inv_claim [OF Moved.IH] by simp
  next
    case (Judged w i v)
    then show ?thesis using item_inv_judged [OF Moved.IH _ run_collected [OF Moved.hyps(1)]] by simp
  next
    case Wait
    then show ?thesis using Moved.IH by (simp add: item_inv_def items_once_def items_kept_def claimed_def accepted_items_def holds_def leaving_def recording_def)
  next
    case Parent_cancelled
    then show ?thesis using Moved.IH by (simp add: item_inv_def items_once_def items_kept_def claimed_def accepted_items_def holds_def leaving_def recording_def)
  next
    case (Opened w)
    then show ?thesis by (intro keep [where w = w and ph = WP_Top]) (simp_all add: recording_def)
  next
    case (Not_opened w e)
    then show ?thesis by (intro keep [where w = w and ph = "WP_Record e"]) (simp_all add: recording_def)
  next
    case (Top w)
    then show ?thesis by (intro keep [where w = w and ph = "if wp_abort st then WP_Exit else WP_Poll"])
      (simp_all add: loop_check_def recording_def split: if_splits)
  next
    case (Going_on w)
    then show ?thesis by (intro keep [where w = w and ph = WP_Claim]) (simp_all add: poll_cancelled_def recording_def)
  next
    case (Cancelled w)
    then show ?thesis
      by (intro keep [where w = w and ph = "case sp_cancel_error S of None \<Rightarrow> WP_Exit | Some e \<Rightarrow> WP_Record e"])
        (simp_all add: poll_cancelled_def recording_def split: option.splits)
  next
    case (Answer w i v)
    then show ?thesis by (intro keep [where w = w and ph = "WP_Got i v"]) (simp_all add: recording_def)
  next
    case (Error w i e)
    then show ?thesis by (intro keep [where w = w and ph = "WP_Record e"]) (simp_all add: recording_def)
  next
    case (Given_up w i)
    then show ?thesis by (intro keep [where w = w and ph = WP_Exit]) (simp_all add: recording_def)
  next
    case (Recheck w i v)
    then show ?thesis
      by (intro keep [where w = w and ph = "if sp_recheck S \<and> wp_abort st then WP_Exit else WP_Judge i v"])
        (simp_all add: abort_check_def recording_def split: if_splits)
  next
    case (Recorded w e)
    then show ?thesis by (intro keep [where w = w and ph = WP_Exit]) (simp_all add: record_error_def)
  next
    case (Exit w)
    then show ?thesis by (intro keep [where w = w and ph = WP_Gone]) (simp_all add: exit_guard_def recording_def)
  qed
qed

text \<open>Only answers that the work may give are judged.\<close>

definition answered :: "('v, 'r) pool_spec \<Rightarrow> ('v, 'r) work_pool \<Rightarrow> bool" where
  "answered S st = (\<forall>w i v. wp_phase st w = WP_Got i v \<or> wp_phase st w = WP_Judge i v \<longrightarrow> sp_answers S i v)"

lemma run_answered: "pool_run S r tr st \<Longrightarrow> answered S st"
proof (induction rule: pool_run.induct)
  case (Moved tr st e st')
  from Moved.hyps(2) Moved.IH show ?case
    by cases (auto simp: answered_def step_defs split: sum.splits if_splits option.splits)
qed (simp add: spawn_pool_def answered_def)

lemma run_accepted:
  "pool_run S r tr st \<Longrightarrow> (i, v) \<in> set (fst (accepted S r tr)) \<Longrightarrow> sp_answers S i v \<and> (\<exists>c c'. sp_judge S i v c = Inr c')"
proof (induction rule: pool_run.induct)
  case (Moved tr st e st')
  from Moved.hyps(2) show ?case
  proof cases
    case (Judged w j u)
    then have "sp_answers S j u" using run_answered [OF Moved.hyps(1)] by (auto simp: answered_def)
    with Judged Moved.IH Moved.prems show ?thesis by (auto split: prod.splits sum.splits)
  qed (use Moved.IH Moved.prems in simp_all)
qed simp

subsection \<open>The end of a run\<close>

lemma run_parent:
  "pool_run S r tr st \<Longrightarrow> wp_parent st = PP_Woken \<Longrightarrow> PE_Parent_Cancelled \<notin> set tr \<Longrightarrow> wp_live_workers st = 0"
proof (induction rule: pool_run.induct)
  case (Moved tr st e st')
  from Moved.hyps(2) Moved.IH Moved.prems show ?case
    by cases (simp_all add: step_defs split: sum.splits if_splits option.splits)
qed (simp add: spawn_pool_def)

text \<open>
  When the parent goes on and nobody cancelled, all workers are gone; without an error every item was
  accepted exactly once, and the collection is what the accepted answers make of it; an error is the first that
  was recorded.
\<close>

lemma pool_joined:
  assumes run: "pool_run S r tr st" and woken: "wp_parent st = PP_Woken" and quiet: "undisturbed tr" and some: "0 < sp_workers S"
  shows "wp_live_workers st = 0" "\<And>w. gone st w" "snd (accepted S r tr) = wp_collected st"
    "wp_first_error st = None \<Longrightarrow> distinct (accepted_items S r tr) \<and> set (accepted_items S r tr) = {..<sp_items S}"
    "wp_first_error st = Some e \<Longrightarrow> \<exists>es. errors_of tr = es @ [e]"
proof -
  show live: "wp_live_workers st = 0" using run_parent [OF run woken] quiet by (simp add: undisturbed_def)
  have "{w. w < sp_workers S \<and> \<not> gone st w} = {}"
    using run_counted [OF run] live by (simp add: counted_def)
  then show all: "gone st w" for w
    using run_counted [OF run] by (cases "w < sp_workers S") (auto simp: counted_def)
  show "snd (accepted S r tr) = wp_collected st" by (rule run_collected [OF run])
  note errs = run_errors [OF run]
  show "distinct (accepted_items S r tr) \<and> set (accepted_items S r tr) = {..<sp_items S}" if "wp_first_error st = None"
  proof -
    have ab: "\<not> wp_abort st" using errs that quiet by (auto simp: undisturbed_def split: if_splits)
    have none: "\<not> holds st w i" "\<not> recording st w" "leaving st w" for w i
      using all [of w] by (auto simp: gone_def holds_def recording_def leaving_def)
    note inv = run_items [OF run, unfolded item_inv_def items_once_def items_kept_def]
    have "sp_items S \<le> wp_next_index st" using inv ab none(3) some by blast
    then have "claimed S st i \<longleftrightarrow> i < sp_items S" for i by (auto simp: claimed_def)
    then show ?thesis using inv ab none by auto
  qed
  show "\<exists>es. errors_of tr = es @ [e]" if "wp_first_error st = Some e"
    using errs that by (metis append_butlast_last_id option.distinct(1) option.inject)
qed

text \<open>Every run is finite: a measure that every step makes smaller.\<close>

fun phase_rank :: "'v worker_phase \<Rightarrow> nat" where
  "phase_rank (WP_Busy i) = 8"
| "phase_rank (WP_Got i v) = 7"
| "phase_rank (WP_Judge i v) = 6"
| "phase_rank WP_Start = 6"
| "phase_rank WP_Top = 5"
| "phase_rank WP_Poll = 4"
| "phase_rank WP_Claim = 3"
| "phase_rank (WP_Record e) = 2"
| "phase_rank WP_Exit = 1"
| "phase_rank WP_Gone = 0"

fun parent_rank :: "parent_phase \<Rightarrow> nat" where
  "parent_rank PP_Spawned = 2"
| "parent_rank PP_Waiting = 1"
| "parent_rank PP_Woken = 0"

definition ranks :: "('v, 'r) pool_spec \<Rightarrow> (nat \<Rightarrow> 'v worker_phase) \<Rightarrow> nat" where
  "ranks S ph = (\<Sum>w < sp_workers S. phase_rank (ph w))"

definition pool_measure :: "('v, 'r) pool_spec \<Rightarrow> ('v, 'r) work_pool \<Rightarrow> nat" where
  "pool_measure S st = 6 * (sp_items S - wp_next_index st) + ranks S (wp_phase st) + parent_rank (wp_parent st)"

lemma ranks_goto: "w < sp_workers S \<Longrightarrow> ranks S (ph(w := p)) + phase_rank (ph w) = ranks S ph + phase_rank p"
  by (simp add: ranks_def sum.remove [of "{..<sp_workers S}" w])

lemma spawned_worker: "counted S st \<Longrightarrow> wp_phase st w \<noteq> WP_Gone \<Longrightarrow> w < sp_workers S"
  by (force simp: counted_def gone_def not_less [symmetric])

lemma parent_rank_exit [simp]: "parent_rank (if b \<and> p = PP_Waiting then PP_Woken else p) \<le> parent_rank p"
  by (cases p) simp_all

lemma measure_goto:
  assumes "counted S st" "wp_phase st' = (wp_phase st)(w := p)" "phase_rank p < phase_rank (wp_phase st w)"
    and "wp_next_index st \<le> wp_next_index st'" "parent_rank (wp_parent st') \<le> parent_rank (wp_parent st)"
  shows "pool_measure S st' < pool_measure S st"
proof -
  have "w < sp_workers S" using spawned_worker [OF assms(1), of w] assms(3) by force
  then have "ranks S (wp_phase st') < ranks S (wp_phase st)"
    using ranks_goto [of w S "wp_phase st" p] assms(2,3) by simp
  with assms(4,5) show ?thesis by (simp add: pool_measure_def)
qed

lemma measure_claim:
  assumes "counted S st" "wp_phase st w = WP_Claim"
  shows "pool_measure S (claim_index S w st) < pool_measure S st"
proof (cases "wp_next_index st < sp_items S")
  case True
  have "w < sp_workers S" using spawned_worker [OF assms(1), of w] assms(2) by force
  then show ?thesis using True ranks_goto [of w S "wp_phase st" "WP_Busy (wp_next_index st)"] assms(2)
    by (simp add: pool_measure_def claim_index_def Let_def)
next
  case False
  then show ?thesis by (intro measure_goto [OF assms(1), of _ w WP_Exit]) (simp_all add: assms(2) claim_index_def)
qed

lemma move_measure:
  assumes "counted S st" "pool_move S st e st'"
  shows "pool_measure S st' < pool_measure S st"
proof -
  note down = measure_goto [OF assms(1)]
  from assms(2) show ?thesis
  proof cases
    case Wait
    then show ?thesis by (simp add: pool_measure_def)
  next
    case Parent_cancelled
    then show ?thesis by (simp add: pool_measure_def)
  next
    case (Claim w)
    then show ?thesis using measure_claim [OF assms(1)] by simp
  next
    case (Judged w i v)
    then show ?thesis
      by (cases "sp_judge S i v (wp_collected st)") (auto intro: down simp: judge_answer_def)
  next
    case (Exit w)
    then show ?thesis by (intro down [of _ w WP_Gone]) (simp_all add: exit_guard_def)
  qed (auto intro: down simp: step_defs split: option.split)
qed

lemma run_bounded:
  "pool_run S r tr st \<Longrightarrow> length tr + pool_measure S st \<le> 6 * sp_items S + 6 * sp_workers S + 2"
proof (induction rule: pool_run.induct)
  case Spawned
  have "ranks S (wp_phase (spawn_pool S r)) = (\<Sum>w < sp_workers S. 6)"
    unfolding ranks_def by (rule sum.cong) (simp_all add: spawn_pool_def)
  then show ?case by (simp add: pool_measure_def spawn_pool_def)
next
  case (Moved tr st e st')
  then show ?case using move_measure [OF run_counted [OF Moved.hyps(1)] Moved.hyps(2)] by simp
qed

text \<open>A worker that has not left can move, whatever the others do.\<close>

fun is_cancellation :: "'v pool_event \<Rightarrow> bool" where
  "is_cancellation (PE_Cancelled w) = True"
| "is_cancellation PE_Parent_Cancelled = True"
| "is_cancellation _ = False"

lemma worker_moves:
  assumes "\<not> gone st w"
  obtains e st' where "pool_move S st e st'" "\<not> is_cancellation e"
proof (cases "wp_phase st w")
  case WP_Start
  from that [OF pool_move.Opened [OF this]] show thesis by simp
next
  case WP_Top
  from that [OF pool_move.Top [OF this]] show thesis by simp
next
  case WP_Poll
  from that [OF pool_move.Going_on [OF this]] show thesis by simp
next
  case WP_Claim
  from that [OF pool_move.Claim [OF this]] show thesis by simp
next
  case (WP_Busy i)
  from that [OF pool_move.Error [OF this]] show thesis by simp
next
  case (WP_Got i v)
  from that [OF pool_move.Recheck [OF this]] show thesis by simp
next
  case (WP_Judge i v)
  from that [OF pool_move.Judged [OF this]] show thesis by simp
next
  case (WP_Record e)
  from that [OF pool_move.Recorded [OF this]] show thesis by simp
next
  case WP_Exit
  from that [OF pool_move.Exit [OF this]] show thesis by simp
qed (use assms in \<open>simp add: gone_def\<close>)

text \<open>A parent that waits while a worker is left is woken when the last one leaves.\<close>

definition attended :: "('v, 'r) work_pool \<Rightarrow> bool" where
  "attended st = (wp_parent st = PP_Woken \<or> wp_parent st = PP_Waiting \<and> 0 < wp_live_workers st)"

lemma attended_move: "pool_move S st e st' \<Longrightarrow> attended st \<Longrightarrow> attended st'"
  by (erule pool_move.cases) (auto simp: attended_def step_defs split: sum.splits option.splits)

text \<open>The steps as a function, to run concrete histories.\<close>

fun pool_exec :: "('v, 'r) pool_spec \<Rightarrow> 'v pool_event \<Rightarrow> ('v, 'r) work_pool \<Rightarrow> ('v, 'r) work_pool option" where
  "pool_exec S (PE_Step w) st =
     (case wp_phase st w of
        WP_Start \<Rightarrow> Some (goto w WP_Top st)
      | WP_Top \<Rightarrow> Some (loop_check w st)
      | WP_Poll \<Rightarrow> Some (poll_cancelled S False w st)
      | WP_Got i v \<Rightarrow> Some (abort_check S w i v st)
      | _ \<Rightarrow> None)"
| "pool_exec S (PE_Cancelled w) st = (case wp_phase st w of WP_Poll \<Rightarrow> Some (poll_cancelled S True w st) | _ \<Rightarrow> None)"
| "pool_exec S (PE_Claim w i) st =
     (case wp_phase st w of WP_Claim \<Rightarrow> if i = wp_next_index st then Some (claim_index S w st) else None | _ \<Rightarrow> None)"
| "pool_exec S (PE_Answer w i v) st =
     (case wp_phase st w of WP_Busy j \<Rightarrow> if j = i \<and> sp_answers S i v then Some (goto w (WP_Got i v) st) else None | _ \<Rightarrow> None)"
| "pool_exec S (PE_Judged w i v) st =
     (case wp_phase st w of WP_Judge j u \<Rightarrow> if j = i \<and> u = v then Some (judge_answer S w i v st) else None | _ \<Rightarrow> None)"
| "pool_exec S (PE_Error w e) st = (case wp_phase st w of WP_Busy i \<Rightarrow> Some (goto w (WP_Record e) st) | _ \<Rightarrow> None)"
| "pool_exec S (PE_Recorded w e) st = (case wp_phase st w of WP_Record d \<Rightarrow> if d = e then Some (record_error w e st) else None | _ \<Rightarrow> None)"
| "pool_exec S (PE_Exit w) st = (case wp_phase st w of WP_Exit \<Rightarrow> Some (exit_guard w st) | _ \<Rightarrow> None)"
| "pool_exec S PE_Wait st = (if wp_parent st = PP_Spawned then Some (st\<lparr>wp_parent := PP_Waiting\<rparr>) else None)"
| "pool_exec S PE_Parent_Cancelled st = (if wp_parent st = PP_Waiting then Some (st\<lparr>wp_parent := PP_Woken\<rparr>) else None)"

lemma pool_exec_move: "pool_exec S e st = Some st' \<Longrightarrow> pool_move S st e st'"
  by (cases e) (auto split: worker_phase.splits if_splits intro: pool_move.intros)

fun pool_replay :: "('v, 'r) pool_spec \<Rightarrow> 'r \<Rightarrow> 'v pool_event list \<Rightarrow> ('v, 'r) work_pool option" where
  "pool_replay S r [] = Some (spawn_pool S r)"
| "pool_replay S r (e # tr) = Option.bind (pool_replay S r tr) (pool_exec S e)"

lemma pool_replay_run: "pool_replay S r tr = Some st \<Longrightarrow> pool_run S r tr st"
  by (induction tr arbitrary: st) (auto intro: pool_run.intros pool_exec_move split: bind_splits)

lemma pool_replayed:
  "(case pool_replay S r tr of None \<Rightarrow> False | Some st \<Rightarrow> P st) \<Longrightarrow> \<exists>st. pool_run S r tr st \<and> P st"
  by (cases "pool_replay S r tr") (auto dest: pool_replay_run)

end
