(* ===== verification/Drive_Upload.thy ===== *)
theory Drive_Upload
  imports Drive_Client Worker_Pool
begin

text \<open>
  Uploads of \<open>src/infrastructure/upload/google_drive_uploader.cpp\<close>: the multipart request for small files, the resumable session whose
  chunks a pool of workers puts, and directories, whose folders are created first and whose files a
  second pool uploads. The file system is a collaborator; the pools are \<open>Worker_Pool\<close>.
\<close>

definition kMultipartThreshold :: int where "kMultipartThreshold = 5 * 1024 * 1024"

definition kResumableAlignment :: int where "kResumableAlignment = 256 * 1024"

subsection \<open>Chunks\<close>

definition chunk_bytes :: "google_drive_config \<Rightarrow> int" where
  "chunk_bytes cfg =
     (let c = max (gd_chunk_size cfg) kResumableAlignment in (c div kResumableAlignment) * kResumableAlignment)"

text \<open>The loop that fills \<open>plan\<close>; chunks have a positive size.\<close>

function chunk_plan :: "int \<Rightarrow> int \<Rightarrow> int \<Rightarrow> (int \<times> int) list" where
  "chunk_plan off whole chunk =
     (if off < whole \<and> 0 < chunk then (off, min chunk (whole - off)) # chunk_plan (off + chunk) whole chunk else [])"
  by auto

termination
  by (relation "measure (\<lambda>(off, whole, chunk). nat (whole - off))") auto

declare chunk_plan.simps [simp del]

definition chunk_parallelism :: "google_drive_config \<Rightarrow> int \<Rightarrow> int" where
  "chunk_parallelism cfg num_chunks = min (max (gd_parallel_chunks_per_file cfg) 1) (max 1 num_chunks)"

subsection \<open>One chunk\<close>

definition content_range :: "int \<Rightarrow> int \<Rightarrow> int \<Rightarrow> string" where
  "content_range off got whole =
     ''bytes '' @ int_to_string off @ ''-'' @ int_to_string (off + got - 1) @ ''/'' @ int_to_string whole"

definition chunk_request :: "string \<Rightarrow> string \<Rightarrow> int \<Rightarrow> int \<Rightarrow> string \<Rightarrow> http_request" where
  "chunk_request session bearer off whole body =
     (add_header ''Content-Range'' (content_range off (int (length body)) whole)
       (add_header ''Content-Length'' (int_to_string (int (length body)))
         (bearer_request HM_Put session bearer)))\<lparr>hq_body := body\<rparr>"

datatype put_try = PT_No_Bearer app_error | PT_Transport app_error | PT_Answer http_response

definition try_put :: "('w, 'j) drive_env \<Rightarrow> string \<Rightarrow> int \<Rightarrow> int \<Rightarrow> string \<Rightarrow> ('w, put_try) gd" where
  "try_put E session off whole body = do {
     b \<leftarrow> acquire_bearer E;
     (case b of
        Inl e \<Rightarrow> State_Monad.return (PT_No_Bearer e)
      | Inr bearer \<Rightarrow> do {
          r \<leftarrow> ge_http E (chunk_request session bearer off whole body);
          State_Monad.return (case r of Inl e \<Rightarrow> PT_Transport e | Inr resp \<Rightarrow> PT_Answer resp)
        })
   }"

text \<open>The inner loop: a 401 drops the cached bearer and tries once more.\<close>

definition put_refreshing :: "('w, 'j) drive_env \<Rightarrow> string \<Rightarrow> int \<Rightarrow> int \<Rightarrow> string \<Rightarrow> ('w, put_try) gd" where
  "put_refreshing E session off whole body = do {
     t \<leftarrow> try_put E session off whole body;
     (case t of
        PT_Answer r \<Rightarrow>
          if hr_status_code r \<noteq> 401 then State_Monad.return t
          else do { _ \<leftarrow> invalidate_bearer_cache; try_put E session off whole body }
      | _ \<Rightarrow> State_Monad.return t)
   }"

datatype put_result = PR_Answer int string | PR_Error app_error | PR_Aborted

definition transient :: "int \<Rightarrow> bool" where
  "transient code = (code = 429 \<or> (500 \<le> code \<and> code < 600))"

definition retry_delay :: "google_drive_config \<Rightarrow> nat \<Rightarrow> int" where
  "retry_delay cfg attempt = gd_initial_retry_delay cfg * 2 ^ min (attempt - 1) 10"

definition exhausted :: "nat \<Rightarrow> http_response \<Rightarrow> app_error" where
  "exhausted tries r =
     mk_error EC_GoogleDriveApi (''gdrive: chunk PUT exhausted '' @ nat_digits tries @ '' retries: HTTP '' @
       int_to_string (hr_status_code r) @ '': '' @ hr_body r)"

text \<open>
  What an attempt leads to: cancelled requests and answers that are neither 429 nor 5xx are final, the others lead to
  the next attempt if there is one.
\<close>

definition after_put :: "('w, put_result) gd option \<Rightarrow> nat \<Rightarrow> put_try \<Rightarrow> ('w, put_result) gd" where
  "after_put again tries t =
     (case t of
        PT_No_Bearer e \<Rightarrow> State_Monad.return (PR_Error e)
      | PT_Transport e \<Rightarrow>
          if err_code e = EC_Cancelled then State_Monad.return (PR_Error e)
          else (case again of None \<Rightarrow> State_Monad.return (PR_Error e) | Some f \<Rightarrow> f)
      | PT_Answer r \<Rightarrow>
          if transient (hr_status_code r)
          then (case again of None \<Rightarrow> State_Monad.return (PR_Error (exhausted tries r)) | Some f \<Rightarrow> f)
          else State_Monad.return (PR_Answer (hr_status_code r) (hr_body r)))"

text \<open>
  The outer loop; \<open>left\<close> are the attempts after this one. Before a new attempt the worker sleeps and looks at the abort flag.
\<close>

fun put_chunk ::
    "('w, 'j) drive_env \<Rightarrow> (int \<Rightarrow> ('w, unit) gd) \<Rightarrow> ('w, bool) gd \<Rightarrow> string \<Rightarrow> int \<Rightarrow> int \<Rightarrow> string \<Rightarrow> nat \<Rightarrow> nat \<Rightarrow> ('w, put_result) gd" where
  "put_chunk E sleep aborted session off whole body left attempt = do {
     stop \<leftarrow> (if attempt > 0 then do { _ \<leftarrow> sleep (retry_delay (ge_config E) attempt); aborted } else State_Monad.return False);
     (if stop then State_Monad.return PR_Aborted
      else do {
        t \<leftarrow> put_refreshing E session off whole body;
        after_put (case left of 0 \<Rightarrow> None
          | Suc k \<Rightarrow> Some (put_chunk E sleep aborted session off whole body k (Suc attempt))) (Suc attempt) t
      })
   }"

declare put_chunk.simps [simp del]

definition max_retries :: "google_drive_config \<Rightarrow> nat" where
  "max_retries cfg = nat (max 0 (gd_max_retries cfg))"

text \<open>
  What a worker makes of an answer: a file id and the bytes that were taken. A chunk that cannot be read whole is an
  error, and \<open>put_chunk\<close> gives no transient answer.
\<close>

type_synonym chunk_answer = "int \<times> string \<times> int"

definition judge_chunk :: "'j json_view \<Rightarrow> nat \<Rightarrow> chunk_answer \<Rightarrow> string \<times> int \<Rightarrow> app_error + string \<times> int" where
  "judge_chunk J i v acc =
     (case (v, acc) of ((code, body, got), (file_id, uploaded)) \<Rightarrow>
        if code = 200 \<or> code = 201 then
          (case and_then (jv_parse J body) (\<lambda>doc. jv_at_string J doc ''id'') of
             Inl m \<Rightarrow> Inl (mk_error EC_JsonParse (''gdrive: final chunk parse: '' @ m))
           | Inr fid \<Rightarrow> Inr (fid, uploaded + got))
        else if code \<noteq> 308
        then Inl (mk_error EC_GoogleDriveApi (''gdrive: chunk PUT returned '' @ int_to_string code @ '': '' @ body))
        else Inr (file_id, uploaded + got))"

definition chunk_pool :: "('w, 'j) drive_env \<Rightarrow> string \<Rightarrow> (int \<times> int) list \<Rightarrow> (chunk_answer, string \<times> int) pool_spec" where
  "chunk_pool E path plan =
     \<lparr>sp_workers = nat (chunk_parallelism (ge_config E) (int (length plan))), sp_items = length plan,
      sp_start_error = (\<lambda>e. e = mk_error EC_Io (''gdrive: worker cannot open '' @ path)),
      sp_cancel_error = None, sp_recheck = True, sp_answers = (\<lambda>i (code, body, got). got = snd (plan ! i) \<and> \<not> transient code),
      sp_judge = judge_chunk (ge_json E)\<rparr>"

subsection \<open>Files\<close>

record 'w file_system =
  fs_exists :: "string \<Rightarrow> ('w, bool) gd"
  fs_file_size :: "string \<Rightarrow> ('w, string + int) gd"
  fs_content :: "string \<Rightarrow> ('w, string option) gd"
  fs_is_directory :: "string \<Rightarrow> ('w, bool) gd"

text \<open>\<open>on_progress\<close> gets the file name, the whole size and what was uploaded.\<close>

type_synonym 'w progress = "string \<Rightarrow> int \<Rightarrow> int \<Rightarrow> ('w, unit) gd"

definition file_link :: "string \<Rightarrow> string" where
  "file_link fid = ''https://drive.google.com/file/d/'' @ fid @ ''/view''"

definition upload_url :: "string \<Rightarrow> string" where
  "upload_url kind = ''https://www.googleapis.com/upload/drive/v3/files?uploadType='' @ kind @
     ''&supportsAllDrives=true&fields=id,name,size,webViewLink,mimeType''"

definition file_meta :: "string \<Rightarrow> string \<Rightarrow> json_out" where
  "file_meta path parent = JO_Object [(''name'', JO_String (path_filename path)), (''parents'', JO_Array [JO_String parent])]"

definition line_end :: string where "line_end = [CHR 0x0D, CHR 0x0A]"

definition mp_boundary :: string where "mp_boundary = ''cmlb-mp-7af3b1-XXyy''"

definition multipart_body :: "string \<Rightarrow> string \<Rightarrow> string" where
  "multipart_body meta body =
     ''--'' @ mp_boundary @ line_end @ ''Content-Type: application/json; charset=UTF-8'' @ line_end @ line_end @ meta @
     line_end @ ''--'' @ mp_boundary @ line_end @ ''Content-Type: application/octet-stream'' @ line_end @ line_end @ body @
     line_end @ ''--'' @ mp_boundary @ ''--'' @ line_end"

definition upload_multipart :: "('w, 'j) drive_env \<Rightarrow> 'w file_system \<Rightarrow> string \<Rightarrow> string \<Rightarrow> 'w progress option \<Rightarrow> ('w, upload_result res) gd" where
  "upload_multipart E fs path parent on_progress = do {
     started \<leftarrow> ge_steady E;
     content \<leftarrow> fs_content fs path;
     (case content of
        None \<Rightarrow> State_Monad.return (Inl (mk_error EC_Io (''gdrive: cannot open '' @ path)))
      | Some body \<Rightarrow> do {
          b \<leftarrow> acquire_bearer E;
          (case b of
             Inl e \<Rightarrow> State_Monad.return (Inl e)
           | Inr bearer \<Rightarrow> do {
               _ \<leftarrow> (case on_progress of None \<Rightarrow> State_Monad.return () | Some p \<Rightarrow> p (path_filename path) (int (length body)) 0);
               r \<leftarrow> ge_http E ((add_header ''Content-Type'' (''multipart/related; boundary='' @ mp_boundary)
                      (bearer_request HM_Post (upload_url ''multipart'') bearer))
                      \<lparr>hq_body := multipart_body (ge_dump E (file_meta path parent)) body\<rparr>);
               (case r of
                  Inl e \<Rightarrow> State_Monad.return (Inl e)
                | Inr resp \<Rightarrow>
                    if \<not> success resp then State_Monad.return (Inl (api_error ''gdrive: multipart upload'' resp))
                    else case read_id (ge_json E) ''gdrive: multipart response parse: '' (hr_body resp) of
                        Inl e \<Rightarrow> State_Monad.return (Inl e)
                      | Inr fid \<Rightarrow> do {
                          now \<leftarrow> ge_steady E;
                          _ \<leftarrow> (case on_progress of None \<Rightarrow> State_Monad.return ()
                                | Some p \<Rightarrow> p (path_filename path) (int (length body)) (int (length body)));
                          State_Monad.return (Inr \<lparr>ur_file_id = fid, ur_link = file_link fid, ur_size = int (length body),
                             ur_duration = now - started\<rparr>)
                        })
             })
        })
   }"

definition init_request :: "('w, 'j) drive_env \<Rightarrow> string \<Rightarrow> string \<Rightarrow> string \<Rightarrow> int \<Rightarrow> http_request" where
  "init_request E bearer path parent whole =
     (add_header ''X-Upload-Content-Length'' (int_to_string whole)
       (add_header ''X-Upload-Content-Type'' ''application/octet-stream''
         (add_header ''Content-Type'' ''application/json; charset=UTF-8''
           (bearer_request HM_Post (upload_url ''resumable'') bearer))))
     \<lparr>hq_body := ge_dump E (file_meta path parent)\<rparr>"

definition abort_resumable_session :: "('w, 'j) drive_env \<Rightarrow> string \<Rightarrow> ('w, unit) gd" where
  "abort_resumable_session E session = do {
     b \<leftarrow> acquire_bearer E;
     _ \<leftarrow> ge_http E (case b of Inl _ \<Rightarrow> make_request HM_Delete session | Inr bearer \<Rightarrow> bearer_request HM_Delete session bearer);
     State_Monad.return ()
   }"

definition no_final_response :: app_error where
  "no_final_response = mk_error EC_GoogleDriveApi ''gdrive: no chunk returned final response''"

text \<open>What the parent does when it goes on behind the join timer.\<close>

definition finish_resumable ::
    "('w, 'j) drive_env \<Rightarrow> string \<Rightarrow> string \<Rightarrow> int \<Rightarrow> int \<Rightarrow> 'w progress option \<Rightarrow> (chunk_answer, string \<times> int) work_pool \<Rightarrow>
     ('w, upload_result res) gd" where
  "finish_resumable E session path whole started on_progress st =
     (case wp_first_error st of
        Some e \<Rightarrow> do { _ \<leftarrow> abort_resumable_session E session; State_Monad.return (Inl e) }
      | None \<Rightarrow>
          if fst (wp_collected st) = [] then State_Monad.return (Inl no_final_response)
          else do {
            now \<leftarrow> ge_steady E;
            _ \<leftarrow> (case on_progress of None \<Rightarrow> State_Monad.return () | Some p \<Rightarrow> p (path_filename path) whole whole);
            State_Monad.return (Inr \<lparr>ur_file_id = fst (wp_collected st), ur_link = file_link (fst (wp_collected st)),
              ur_size = whole, ur_duration = now - started\<rparr>)
          })"

text \<open>
  \<open>run_pool\<close> spawns the workers of a pool, waits on the join timer and gives the shared state then.
\<close>

definition upload_resumable ::
    "('w, 'j) drive_env \<Rightarrow> 'w file_system \<Rightarrow>
     ((chunk_answer, string \<times> int) pool_spec \<Rightarrow> string \<Rightarrow> string \<Rightarrow> (int \<times> int) list \<Rightarrow> ('w, (chunk_answer, string \<times> int) work_pool) gd) \<Rightarrow>
     string \<Rightarrow> string \<Rightarrow> 'w progress option \<Rightarrow> ('w, upload_result res) gd" where
  "upload_resumable E fs run_pool path parent on_progress = do {
     started \<leftarrow> ge_steady E;
     sz \<leftarrow> fs_file_size fs path;
     (case sz of
        Inl m \<Rightarrow> State_Monad.return (Inl (mk_error EC_FileSystem (''gdrive: file_size failed: '' @ m)))
      | Inr whole \<Rightarrow> do {
          b \<leftarrow> acquire_bearer E;
          (case b of
             Inl e \<Rightarrow> State_Monad.return (Inl e)
           | Inr bearer \<Rightarrow> do {
               r \<leftarrow> ge_http E (init_request E bearer path parent whole);
               (case r of
                  Inl e \<Rightarrow> State_Monad.return (Inl e)
                | Inr resp \<Rightarrow>
                    if \<not> success resp then State_Monad.return (Inl (api_error ''gdrive: resumable init'' resp))
                    else case header_lookup resp ''location'' of
                        None \<Rightarrow> State_Monad.return (Inl (mk_error EC_GoogleDriveApi ''gdrive: resumable session missing Location header''))
                      | Some session \<Rightarrow> do {
                          probe \<leftarrow> fs_content fs path;
                          (case probe of
                             None \<Rightarrow> do {
                               _ \<leftarrow> abort_resumable_session E session;
                               State_Monad.return (Inl (mk_error EC_Io (''gdrive: cannot open '' @ path)))
                             }
                           | Some _ \<Rightarrow> do {
                               let plan = chunk_plan 0 whole (chunk_bytes (ge_config E));
                               st \<leftarrow> run_pool (chunk_pool E path plan) path session plan;
                               finish_resumable E session path whole started on_progress st
                             })
                        })
             })
        })
   }"

definition no_parent :: app_error where
  "no_parent = mk_error EC_InvalidArgument ''gdrive: no parent folder id (config + override both empty)''"

definition parent_of :: "('w, 'j) drive_env \<Rightarrow> upload_config \<Rightarrow> string" where
  "parent_of E config = (case uc_folder_id config of Some f \<Rightarrow> f | None \<Rightarrow> gd_parent_folder_id (ge_config E))"

definition not_ready_upload :: app_error where
  "not_ready_upload = mk_error EC_InvalidState ''gdrive: uploader not ready (credentials missing)''"

type_synonym 'w pool_runner =
  "(chunk_answer, string \<times> int) pool_spec \<Rightarrow> string \<Rightarrow> string \<Rightarrow> (int \<times> int) list \<Rightarrow> ('w, (chunk_answer, string \<times> int) work_pool) gd"

definition upload_file ::
    "('w, 'j) drive_env \<Rightarrow> 'w file_system \<Rightarrow> 'w pool_runner \<Rightarrow> string \<Rightarrow> upload_config \<Rightarrow> 'w progress option \<Rightarrow> ('w, upload_result res) gd" where
  "upload_file E fs run_pool path config on_progress =
     (if ge_key E = None then State_Monad.return (Inl not_ready_upload)
      else do {
        there \<leftarrow> fs_exists fs path;
        (if \<not> there then State_Monad.return (Inl (mk_error EC_NotFound (''gdrive: file not found: '' @ path)))
         else do {
           sz \<leftarrow> fs_file_size fs path;
           (case sz of
              Inl m \<Rightarrow> State_Monad.return (Inl (mk_error EC_FileSystem (''gdrive: file_size failed: '' @ m)))
            | Inr n \<Rightarrow>
                if parent_of E config = [] then State_Monad.return (Inl no_parent)
                else do {
                  c \<leftarrow> ge_cancelled E;
                  (if c then State_Monad.return (Inl (mk_error EC_Cancelled ''gdrive: cancelled''))
                   else if n \<le> kMultipartThreshold then upload_multipart E fs path (parent_of E config) on_progress
                   else upload_resumable E fs run_pool path (parent_of E config) on_progress)
                })
         })
      })"

subsection \<open>Directories\<close>

text \<open>
  What the recursive iterator yields: the path relative to the directory, and what is there. An error of the iterator
  makes it the end iterator, so it only ends the list. \<open>relative\<close> may fail.
\<close>

datatype walk_item = WI_Dir string | WI_File string string | WI_Other string | WI_Unrelated string

definition parent_path :: "string \<Rightarrow> string" where
  "parent_path p = (case split_last CHR ''/'' p of None \<Rightarrow> [] | Some (d, _) \<Rightarrow> d)"

definition folder_for :: "(string \<rightharpoonup> string) \<Rightarrow> string \<Rightarrow> string" where
  "folder_for ids rel =
     (case ids (parent_path rel) of Some i \<Rightarrow> i | None \<Rightarrow> (case ids [] of Some i \<Rightarrow> i | None \<Rightarrow> []))"

fun walk_directory ::
    "('w, 'j) drive_env \<Rightarrow> walk_item list \<Rightarrow> (string \<rightharpoonup> string) \<Rightarrow> (string \<times> string) list \<Rightarrow>
     ('w, ((string \<rightharpoonup> string) \<times> (string \<times> string) list) res) gd" where
  "walk_directory E [] ids work = State_Monad.return (Inr (ids, work))"
| "walk_directory E (item # items) ids work = do {
     c \<leftarrow> ge_cancelled E;
     (if c then State_Monad.return (Inl (mk_error EC_Cancelled ''gdrive: cancelled''))
      else case item of
          WI_Unrelated m \<Rightarrow> State_Monad.return (Inl (mk_error EC_FileSystem (''gdrive: relative() failed: '' @ m)))
        | WI_Dir rel \<Rightarrow> do {
            made \<leftarrow> create_folder E (path_filename rel) (folder_for ids rel);
            (case made of
               Inl e \<Rightarrow> State_Monad.return (Inl e)
             | Inr i \<Rightarrow> walk_directory E items (ids(rel \<mapsto> i)) work)
          }
        | WI_Other rel \<Rightarrow> walk_directory E items ids work
        | WI_File rel source \<Rightarrow> walk_directory E items ids (work @ [(source, folder_for ids rel)]))
   }"

definition file_parallelism :: "google_drive_config \<Rightarrow> int \<Rightarrow> int" where
  "file_parallelism cfg n = min (max (gd_parallel_files_per_directory cfg) 1) (max 1 n)"

text \<open>The file workers: no work before the loop, no second look at the flag, every result is collected.\<close>

definition file_pool :: "('w, 'j) drive_env \<Rightarrow> (string \<times> string) list \<Rightarrow> (upload_result, upload_result list) pool_spec" where
  "file_pool E work =
     \<lparr>sp_workers = nat (file_parallelism (ge_config E) (int (length work))), sp_items = length work,
      sp_start_error = (\<lambda>_. False), sp_cancel_error = None, sp_recheck = False, sp_answers = (\<lambda>_ _. True), sp_judge = (\<lambda>i r rs. Inr (rs @ [r]))\<rparr>"

definition upload_directory ::
    "('w, 'j) drive_env \<Rightarrow> 'w file_system \<Rightarrow> (string \<Rightarrow> ('w, walk_item list) gd) \<Rightarrow>
     ((upload_result, upload_result list) pool_spec \<Rightarrow> (string \<times> string) list \<Rightarrow> ('w, (upload_result, upload_result list) work_pool) gd) \<Rightarrow>
     string \<Rightarrow> upload_config \<Rightarrow> ('w, upload_result list res) gd" where
  "upload_directory E fs walk run_pool path config =
     (if ge_key E = None then State_Monad.return (Inl not_ready_upload)
      else do {
        d \<leftarrow> fs_is_directory fs path;
        (if \<not> d then State_Monad.return (Inl (mk_error EC_InvalidArgument (''gdrive: not a directory: '' @ path)))
         else if parent_of E config = [] then State_Monad.return (Inl no_parent)
         else do {
           made \<leftarrow> create_folder E (path_filename path) (parent_of E config);
           (case made of
              Inl e \<Rightarrow> State_Monad.return (Inl e)
            | Inr i \<Rightarrow> do {
                items \<leftarrow> walk path;
                walked \<leftarrow> walk_directory E items [[] \<mapsto> i] [];
                (case walked of
                   Inl e \<Rightarrow> State_Monad.return (Inl e)
                 | Inr (ids, work) \<Rightarrow> do {
                     st \<leftarrow> run_pool (file_pool E work) work;
                     State_Monad.return (case wp_first_error st of Some e \<Rightarrow> Inl e | None \<Rightarrow> Inr (wp_collected st))
                   })
              })
         })
      })"

end
