(* ===== verification/Drive_Transfers.thy ===== *)
theory Drive_Transfers
  imports Drive_Upload
begin

text \<open>
  What the uploads to Drive guarantee: the chunks cover the file, the requests of a chunk, complete transfers by the pools
  and their end, and the folders that mirror a directory.
\<close>

subsection \<open>The plan\<close>

text \<open>The bytes of the file that a chunk sends.\<close>

definition slice :: "'a list \<Rightarrow> int \<times> int \<Rightarrow> 'a list" where
  "slice file c = take (nat (snd c)) (drop (nat (fst c)) file)"

lemma plan_slices:
  "0 < chunk \<Longrightarrow> 0 \<le> off \<Longrightarrow> off \<le> int (length file) \<Longrightarrow>
     concat (map (slice file) (chunk_plan off (int (length file)) chunk)) = drop (nat off) file"
proof (induction off "int (length file)" chunk rule: chunk_plan.induct)
  case (1 off chunk)
  show ?case
  proof (cases "off < int (length file)")
    case True
    show ?thesis
    proof (cases "off + chunk \<le> int (length file)")
      case inside: True
      have "slice file (off, chunk) @ drop (nat (off + chunk)) file = drop (nat off) file"
        using "1.prems" append_take_drop_id [of "nat chunk" "drop (nat off) file"]
        by (simp add: slice_def nat_add_distrib add.commute)
      with inside True 1 show ?thesis by (subst chunk_plan.simps) (simp add: min_absorb1)
    next
      case False
      then have m: "min chunk (int (length file) - off) = int (length file) - off" by simp
      have "chunk_plan (off + chunk) (int (length file)) chunk = []" using False by (subst chunk_plan.simps) simp
      moreover have "slice file (off, int (length file) - off) = drop (nat off) file"
        using "1.prems" by (simp add: slice_def nat_diff_distrib)
      ultimately show ?thesis using True "1.prems" m by (subst chunk_plan.simps) simp
    qed
  next
    case False
    then show ?thesis using "1.prems" by (subst chunk_plan.simps) simp
  qed
qed

lemma plan_shape:
  "a dvd off \<Longrightarrow> a dvd chunk \<Longrightarrow> (off', len) \<in> set (chunk_plan off whole chunk) \<Longrightarrow>
     a dvd off' \<and> off \<le> off' \<and> 0 < len \<and> len \<le> chunk \<and> off' + len \<le> whole \<and> (len = chunk \<or> off' + len = whole)"
proof (induction off whole chunk rule: chunk_plan.induct)
  case (1 off whole chunk)
  show ?case
  proof (cases "off < whole \<and> 0 < chunk")
    case True
    with "1.prems"(3) consider "off' = off" "len = min chunk (whole - off)" | "(off', len) \<in> set (chunk_plan (off + chunk) whole chunk)"
      by (subst (asm) chunk_plan.simps) auto
    then show ?thesis
    proof cases
      case 1
      with True "1.prems" show ?thesis by auto
    next
      case 2
      with True "1.IH" "1.prems" show ?thesis by auto
    qed
  qed (use "1.prems"(3) in \<open>subst (asm) chunk_plan.simps, simp\<close>)
qed

lemma plan_total: "0 < chunk \<Longrightarrow> off \<le> whole \<Longrightarrow> sum_list (map snd (chunk_plan off whole chunk)) = whole - off"
proof (induction off whole chunk rule: chunk_plan.induct)
  case (1 off whole chunk)
  show ?case
  proof (cases "off + chunk \<le> whole")
    case True
    with 1 show ?thesis by (subst chunk_plan.simps) auto
  next
    case False
    then have "chunk_plan (off + chunk) whole chunk = []" by (subst chunk_plan.simps) simp
    with False "1.prems" show ?thesis by (subst chunk_plan.simps) auto
  qed
qed

lemma chunk_bytes_bounds: "kResumableAlignment \<le> chunk_bytes cfg" "kResumableAlignment dvd chunk_bytes cfg" "0 < chunk_bytes cfg"
proof -
  define a where "a = kResumableAlignment"
  have a: "0 < a" by (simp add: a_def kResumableAlignment_def)
  have "a div a \<le> max (gd_chunk_size cfg) a div a" by (rule zdiv_mono1) (use a in simp_all)
  then have "1 * a \<le> (max (gd_chunk_size cfg) a div a) * a" using a by (intro mult_right_mono) simp_all
  then show le: "kResumableAlignment \<le> chunk_bytes cfg" by (simp add: chunk_bytes_def Let_def a_def)
  show "0 < chunk_bytes cfg" using a le by (simp add: a_def)
  show "kResumableAlignment dvd chunk_bytes cfg" by (simp add: chunk_bytes_def Let_def)
qed

subsection \<open>A complete transfer\<close>

text \<open>What the accepted answers of the chunk workers make of the shared bytes and the file id.\<close>

definition final_answer :: "'j json_view \<Rightarrow> chunk_answer \<Rightarrow> string \<Rightarrow> bool" where
  "final_answer J v fid =
     (case v of (code, body, got) \<Rightarrow>
        (code = 200 \<or> code = 201) \<and> and_then (jv_parse J body) (\<lambda>doc. jv_at_string J doc ''id'') = Inr fid)"

lemma judge_chunk_cases:
  assumes "judge_chunk J i (code, body, got) (fid, up) = Inr c"
  obtains "code = 308" "c = (fid, up + got)"
  | fid' where "final_answer J (code, body, got) fid'" "c = (fid', up + got)"
  using assms by (auto simp: judge_chunk_def final_answer_def split: if_splits sum.splits)

definition sent_bytes :: "(nat \<times> chunk_answer) list \<Rightarrow> int" where
  "sent_bytes xs = sum_list (map (\<lambda>(i, code, body, got). got) xs)"

definition well_collected :: "'j json_view \<Rightarrow> (nat \<times> chunk_answer) list \<Rightarrow> string \<times> int \<Rightarrow> bool" where
  "well_collected J xs c =
     (snd c = sent_bytes xs \<and> (\<forall>(i, v) \<in> set xs. fst v = 308 \<or> (\<exists>f. final_answer J v f)) \<and>
      (fst c = [] \<or> (\<exists>(i, v) \<in> set xs. final_answer J v (fst c))))"

lemma well_collected_judge:
  assumes "well_collected J xs c" "judge_chunk J i v c = Inr c'"
  shows "well_collected J ((i, v) # xs) c'"
proof -
  obtain code body got where v: "v = (code, body, got)" by (rule prod_cases3)
  obtain fid up where c: "c = (fid, up)" by (rule prod.exhaust)
  from assms(2) [unfolded v c] show ?thesis
  proof (cases rule: judge_chunk_cases)
    case 1
    with assms(1) show ?thesis by (auto simp: v c well_collected_def sent_bytes_def)
  next
    case (2 fid')
    with assms(1) show ?thesis by (auto simp: v c well_collected_def sent_bytes_def)
  qed
qed

lemma chunks_collected:
  "case accepted (chunk_pool E path plan) ([], 0) tr of (xs, c) \<Rightarrow> well_collected (ge_json E) xs c"
proof (induction tr)
  case Nil
  then show ?case by (simp add: well_collected_def sent_bytes_def)
next
  case (Cons e tr)
  show ?case
  proof (cases e)
    case (PE_Judged w i v)
    with Cons show ?thesis
      by (auto simp: chunk_pool_def intro: well_collected_judge split: prod.splits sum.splits)
  qed (use Cons in simp_all)
qed

lemma sum_indexed:
  fixes g :: "'a \<Rightarrow> int"
  assumes "distinct (map fst xs)" "set (map fst xs) = {..<length ys}" "\<And>i v. (i, v) \<in> set xs \<Longrightarrow> f (i, v) = g (ys ! i)"
  shows "sum_list (map f xs) = sum_list (map g ys)"
proof -
  have "sum_list (map f xs) = sum_list (map (\<lambda>i. g (ys ! i)) (map fst xs))"
    using assms(3) by (auto intro!: arg_cong [where f = sum_list] simp: o_def)
  also have "\<dots> = (\<Sum>i < length ys. g (ys ! i))"
    using assms(1,2) by (simp add: sum_list_distinct_conv_sum_set del: map_map set_map)
  also have "\<dots> = sum_list (map g ys)" by (simp add: sum_list_sum_nth atLeast0LessThan)
  finally show ?thesis .
qed

text \<open>
  When the parent goes on without an error, every chunk of the plan was accepted once, with all of its bytes.
\<close>

lemma transfer_complete:
  fixes E :: "('w, 'j) drive_env" and path plan
  defines "S \<equiv> chunk_pool E path plan"
  assumes plan: "plan = chunk_plan 0 whole (chunk_bytes (ge_config E))" and whole: "0 \<le> whole"
    and run: "pool_run S ([], 0) tr st" and woken: "wp_parent st = PP_Woken" and quiet: "undisturbed tr"
    and good: "wp_first_error st = None"
  shows "\<And>w. gone st w" "distinct (accepted_items S ([], 0) tr)" "set (accepted_items S ([], 0) tr) = {..<length plan}"
    "snd (wp_collected st) = whole" "well_collected (ge_json E) (fst (accepted S ([], 0) tr)) (wp_collected st)"
proof -
  have items: "sp_items S = length plan" and some: "0 < sp_workers S"
    by (simp_all add: S_def chunk_pool_def chunk_parallelism_def less_max_iff_disj)
  note joined = pool_joined [OF run woken quiet some]
  show "gone st w" for w by (rule joined(2))
  show d: "distinct (accepted_items S ([], 0) tr)" and s: "set (accepted_items S ([], 0) tr) = {..<length plan}"
    using joined(4) [OF good] by (simp_all add: items)
  show well: "well_collected (ge_json E) (fst (accepted S ([], 0) tr)) (wp_collected st)"
    using chunks_collected [of E path plan tr] joined(3) by (auto simp: S_def split: prod.splits)
  have got: "(\<lambda>(i, code, body, got). got) (i, v) = snd (plan ! i)" if "(i, v) \<in> set (fst (accepted S ([], 0) tr))" for i v
    using run_accepted [OF run that] by (auto simp: S_def chunk_pool_def)
  have "sent_bytes (fst (accepted S ([], 0) tr)) = sum_list (map snd plan)"
    unfolding sent_bytes_def by (rule sum_indexed) (use d s got in \<open>simp_all add: accepted_items_def\<close>)
  then show "snd (wp_collected st) = whole"
    using well plan_total [OF chunk_bytes_bounds(3) whole] by (simp add: well_collected_def plan)
qed

text \<open>A pool that was joined: the runner gives the state in which the parent went on, without a cancellation.\<close>

definition joins :: "'w pool_runner \<Rightarrow> (chunk_answer, string \<times> int) pool_spec \<Rightarrow> string \<Rightarrow> (int \<times> int) list \<Rightarrow> bool" where
  "joins run_pool S path plan =
     (\<forall>session s. \<exists>tr. pool_run S ([], 0) tr (fst (run_state (run_pool S path session plan) s)) \<and>
        wp_parent (fst (run_state (run_pool S path session plan) s)) = PP_Woken \<and> undisturbed tr)"

lemma wp_result: "(\<And>s'. Q (fst (run_state f s)) s') \<Longrightarrow> wp f Q s"
  by (auto simp: wp_def split: prod.splits)

lemma wp_free: "(\<And>r s'. Q r s') \<Longrightarrow> wp f Q s"
  by (simp add: wp_def split: prod.splits)

definition delivered :: "('w, 'j) drive_env \<Rightarrow> string \<Rightarrow> int \<Rightarrow> upload_result \<Rightarrow> bool" where
  "delivered E path whole u =
     (let plan = chunk_plan 0 whole (chunk_bytes (ge_config E)); S = chunk_pool E path plan in
      ur_size u = whole \<and> (\<exists>tr st. pool_run S ([], 0) tr st \<and> (\<forall>w. gone st w) \<and>
        distinct (accepted_items S ([], 0) tr) \<and> set (accepted_items S ([], 0) tr) = {..<length plan} \<and>
        snd (wp_collected st) = whole \<and>
        (\<forall>(i, v) \<in> set (fst (accepted S ([], 0) tr)). fst v = 308 \<or> (\<exists>f. final_answer (ge_json E) v f)) \<and>
        (\<exists>(i, v) \<in> set (fst (accepted S ([], 0) tr)). final_answer (ge_json E) v (ur_file_id u))))"

lemma delivered_joined:
  assumes whole: "0 \<le> whole" and plan: "plan = chunk_plan 0 whole (chunk_bytes (ge_config E))"
    and joins: "joins run_pool (chunk_pool E path plan) path plan"
    and st: "st = fst (run_state (run_pool (chunk_pool E path plan) path session plan) s)"
    and good: "wp_first_error st = None" "fst (wp_collected st) \<noteq> []"
    and u: "ur_size u = whole" "ur_file_id u = fst (wp_collected st)"
  shows "delivered E path whole u"
proof -
  obtain tr where run: "pool_run (chunk_pool E path plan) ([], 0) tr st" and w: "wp_parent st = PP_Woken" and q: "undisturbed tr"
    using joins unfolding joins_def st by blast
  note all = transfer_complete [OF plan whole run w q good(1)]
  have "(\<forall>(i, v) \<in> set (fst (accepted (chunk_pool E path plan) ([], 0) tr)). fst v = 308 \<or> (\<exists>f. final_answer (ge_json E) v f))"
    "(\<exists>(i, v) \<in> set (fst (accepted (chunk_pool E path plan) ([], 0) tr)). final_answer (ge_json E) v (ur_file_id u))"
    using all(5) good(2) by (simp_all add: well_collected_def u(2))
  with all(1-4) run u(1) show ?thesis unfolding delivered_def Let_def plan [symmetric] by blast
qed

lemma wp_upload_resumable:
  assumes size: "\<And>s. fst (run_state (fs_file_size fs path) s) = Inr whole" and whole: "0 \<le> whole"
    and plan: "plan = chunk_plan 0 whole (chunk_bytes (ge_config E))"
    and joins: "joins run_pool (chunk_pool E path plan) path plan"
  shows "wp (upload_resumable E fs run_pool path parent on_progress) (\<lambda>r _. case r of Inl _ \<Rightarrow> True | Inr u \<Rightarrow> delivered E path whole u) s"
    (is "wp _ ?Q s")
proof -
  have pool: "wp (run_pool (chunk_pool E path plan) path session plan)
      (\<lambda>st. wp (finish_resumable E session path whole started on_progress st) ?Q) t" for session started t
  proof (rule wp_result)
    fix t'
    define st where "st = fst (run_state (run_pool (chunk_pool E path plan) path session plan) t)"
    have "delivered E path whole \<lparr>ur_file_id = fst (wp_collected st), ur_link = l, ur_size = whole, ur_duration = d\<rparr>"
      if "wp_first_error st = None" "fst (wp_collected st) \<noteq> []" for l d
      by (rule delivered_joined [OF whole plan joins st_def that]) simp_all
    then show "wp (finish_resumable E session path whole started on_progress st) ?Q t'"
      unfolding finish_resumable_def by (auto intro!: wp_free split: option.split)
  qed
  note free = wp_free [where f = "acquire_bearer E"] wp_free [where f = "ge_http E _"] wp_free [where f = "fs_content fs path"]
    wp_free [where f = "abort_resumable_session E _"]
  show ?thesis
    unfolding upload_resumable_def wp_bind
    by (rule wp_free, rule wp_result, simp only: size sum.case wp_bind, rule wp_free)
      (auto intro!: free simp: Let_def plan [symmetric] pool split: sum.split option.split)
qed


text \<open>One worker that puts a file of two bytes as its only chunk.\<close>

definition id_view :: "json_out json_view" where
  "id_view = out_view\<lparr>jv_parse := (\<lambda>s. Inr (JO_Object [(''id'', JO_String s)]))\<rparr>"

definition session_env :: "(unit, json_out) drive_env" where
  "session_env = (still_env \<lparr>hr_status_code = 200, hr_headers = [(''location'', ''s'')], hr_body = ''x'', hr_duration = 0\<rparr>)\<lparr>ge_json := id_view\<rparr>"

definition two_byte_files :: "unit file_system" where
  "two_byte_files = \<lparr>fs_exists = (\<lambda>_. State (\<lambda>s. (True, s))), fs_file_size = (\<lambda>_. State (\<lambda>s. (Inr 2, s))),
     fs_content = (\<lambda>_. State (\<lambda>s. (Some ''ab'', s))), fs_is_directory = (\<lambda>_. State (\<lambda>s. (False, s)))\<rparr>"

definition one_chunk_history :: "chunk_answer pool_event list" where
  "one_chunk_history = [PE_Exit 0, PE_Claim 0 1, PE_Step 0, PE_Step 0, PE_Judged 0 0 (200, ''x'', 2), PE_Step 0,
     PE_Answer 0 0 (200, ''x'', 2), PE_Claim 0 0, PE_Step 0, PE_Step 0, PE_Step 0, PE_Wait]"

definition replay_runner :: "unit pool_runner" where
  "replay_runner S path session plan =
     State (\<lambda>s. (case pool_replay S ([], 0) one_chunk_history of Some st \<Rightarrow> st | None \<Rightarrow> spawn_pool S ([], 0), s))"

lemma short_plan: "chunk_plan 0 2 (chunk_bytes (ge_config session_env)) = [(0, 2)]"
  by code_simp

lemma replay_joins: "joins replay_runner (chunk_pool session_env ''p'' [(0, 2)]) ''p'' [(0, 2)]"
proof -
  have "case pool_replay (chunk_pool session_env ''p'' [(0, 2)]) ([], 0) one_chunk_history of None \<Rightarrow> False
      | Some st \<Rightarrow> wp_parent st = PP_Woken"
    by code_simp
  then obtain st where "pool_replay (chunk_pool session_env ''p'' [(0, 2)]) ([], 0) one_chunk_history = Some st"
    "wp_parent st = PP_Woken"
    by (auto split: option.splits)
  moreover have "undisturbed one_chunk_history" by (simp add: undisturbed_def one_chunk_history_def)
  ultimately show ?thesis using pool_replay_run by (fastforce simp: joins_def replay_runner_def)
qed


subsection \<open>The requests of a chunk\<close>

text \<open>An exchange with the session: a put of this chunk, or one with the token endpoint.\<close>

definition puts_chunk :: "string \<Rightarrow> int \<Rightarrow> int \<Rightarrow> string \<Rightarrow> exchange \<Rightarrow> bool" where
  "puts_chunk session off whole body x = (\<exists>bearer. fst x = chunk_request session bearer off whole body)"

definition chunk_log :: "('w, 'j) drive_env \<Rightarrow> string \<Rightarrow> int \<Rightarrow> int \<Rightarrow> string \<Rightarrow> nat \<Rightarrow> exchange list \<Rightarrow> bool" where
  "chunk_log E session off whole body k x =
     (list_all (\<lambda>e. token_exchange E e \<or> puts_chunk session off whole body e) x \<and>
      length (filter (\<lambda>e. hq_method (fst e) = HM_Put) x) \<le> k \<and> length x \<le> 2 * k)"

lemma chunk_log_append: "chunk_log E session off whole body j x \<Longrightarrow> chunk_log E session off whole body k y \<Longrightarrow> chunk_log E session off whole body (j + k) (x @ y)"
  by (simp add: chunk_log_def)

lemma chunk_log_mono: "chunk_log E session off whole body j x \<Longrightarrow> j \<le> k \<Longrightarrow> chunk_log E session off whole body k x"
  by (simp add: chunk_log_def)

lemma chunk_request_sel:
  "hq_method (chunk_request session bearer off whole body) = HM_Put" "hq_url (chunk_request session bearer off whole body) = session"
  "hq_body (chunk_request session bearer off whole body) = body"
  by (simp_all add: chunk_request_def bearer_request_def add_header_def make_request_def)

lemma puts_chunk_request: "puts_chunk session off whole body (chunk_request session bearer off whole body, r)"
  unfolding puts_chunk_def by (rule exI [of _ bearer]) simp

lemma chunk_log_minted: "minted E x \<Longrightarrow> chunk_log E session off whole body 1 x"
  using minted_exchange [of E x]
  by (cases x) (auto simp: chunk_log_def token_exchange_def)

lemma chunk_log_put: "minted E x \<Longrightarrow> chunk_log E session off whole body 1 (x @ [(chunk_request session bearer off whole body, r)])"
  using minted_exchange [of E x]
  by (cases x) (auto simp: chunk_log_def token_exchange_def puts_chunk_def chunk_request_sel)

text \<open>Where an answer comes from: it is the last of the log.\<close>

definition answers_last :: "string \<Rightarrow> int \<Rightarrow> int \<Rightarrow> string \<Rightarrow> put_try \<Rightarrow> exchange list \<Rightarrow> bool" where
  "answers_last session off whole body t x =
     (case t of PT_Answer r \<Rightarrow> x \<noteq> [] \<and> snd (last x) = Inr r \<and> puts_chunk session off whole body (last x) | _ \<Rightarrow> True)"

lemma wp_try_put:
  assumes "\<And>r t' w' x. chunk_log E session off whole body 1 x \<Longrightarrow> answers_last session off whole body r x \<Longrightarrow> Q r (t', w', l @ x)"
  shows "wp (try_put (spied_env E) session off whole body) Q (t, w, l)"
  unfolding try_put_def wp_bind
proof (rule wp_acquire)
  fix r :: "string res" and t' w' x
  assume x: "minted E x"
  show "wp (case r of Inl e \<Rightarrow> State_Monad.return (PT_No_Bearer e)
      | Inr bearer \<Rightarrow> do {
          r \<leftarrow> ge_http (spied_env E) (chunk_request session bearer off whole body);
          State_Monad.return (case r of Inl e \<Rightarrow> PT_Transport e | Inr resp \<Rightarrow> PT_Answer resp)
        }) Q (t', w', l @ x)"
  proof (cases r)
    case (Inl e)
    then show ?thesis using assms [OF chunk_log_minted [OF x], of "PT_No_Bearer e"] by (simp add: answers_last_def)
  next
    case (Inr b)
    then show ?thesis
      by (auto intro!: wp_spied_http assms [OF chunk_log_put [OF x]] simp: answers_last_def puts_chunk_request split: sum.split)
  qed
qed

lemma wp_invalidate [simp]: "wp invalidate_bearer_cache Q (t, x) = Q () (no_token, x)"
  by (simp add: invalidate_bearer_cache_def)

lemma wp_put_refreshing:
  assumes Q: "\<And>r t' w' x. chunk_log E session off whole body 2 x \<Longrightarrow> answers_last session off whole body r x \<Longrightarrow> Q r (t', w', l @ x)"
  shows "wp (put_refreshing (spied_env E) session off whole body) Q (t, w, l)"
  unfolding put_refreshing_def wp_bind
proof (rule wp_try_put)
  fix r t' w' x
  assume x: "chunk_log E session off whole body 1 x" and a: "answers_last session off whole body r x"
  have one: "Q r (t', w', l @ x)" by (rule Q [OF chunk_log_mono [OF x] a]) simp
  have again: "wp (try_put (spied_env E) session off whole body) Q (no_token, w', l @ x)"
  proof (rule wp_try_put)
    fix r t' w' y
    assume y: "chunk_log E session off whole body 1 y" and b: "answers_last session off whole body r y"
    have "answers_last session off whole body r (x @ y)" using b by (auto simp: answers_last_def split: put_try.splits)
    with Q [of "x @ y" r t' w'] chunk_log_append [OF x y] show "Q r (t', w', (l @ x) @ y)" by (simp add: numeral_2_eq_2)
  qed
  show "wp (case r of PT_Answer a \<Rightarrow> if hr_status_code a \<noteq> 401 then State_Monad.return r
      else do { _ \<leftarrow> invalidate_bearer_cache; try_put (spied_env E) session off whole body } | _ \<Rightarrow> State_Monad.return r) Q (t', w', l @ x)"
    using one by (cases r) (simp_all add: again)
qed

text \<open>What a chunk ends with: an answer that is not transient, and that the session gave last.\<close>

definition settled :: "string \<Rightarrow> int \<Rightarrow> int \<Rightarrow> string \<Rightarrow> put_result \<Rightarrow> exchange list \<Rightarrow> bool" where
  "settled session off whole body r x =
     (case r of
        PR_Answer code b \<Rightarrow> \<not> transient code \<and> x \<noteq> [] \<and> puts_chunk session off whole body (last x) \<and>
          (\<exists>resp. snd (last x) = Inr resp \<and> hr_status_code resp = code \<and> hr_body resp = b)
      | _ \<Rightarrow> True)"

lemma settled_append: "settled session off whole body r y \<Longrightarrow> settled session off whole body r (x @ y)"
  by (auto simp: settled_def split: put_result.splits)

lemma settled_error: "settled session off whole body PR_Aborted x" "settled session off whole body (PR_Error e) x"
  by (simp_all add: settled_def)

lemma wp_after_put:
  assumes x: "chunk_log E session off whole body 2 x" and a: "answers_last session off whole body t x"
    and Q: "\<And>r. settled session off whole body r x \<Longrightarrow> Q r s"
    and again: "\<And>f. again = Some f \<Longrightarrow> wp f Q s"
  shows "wp (after_put again tries t) Q s"
proof (cases t)
  case (PT_Answer r)
  have "Q (PR_Answer (hr_status_code r) (hr_body r)) s" if "\<not> transient (hr_status_code r)"
    by (rule Q) (use a that in \<open>simp add: PT_Answer settled_def answers_last_def\<close>)
  then show ?thesis by (auto simp: after_put_def PT_Answer intro: Q settled_error again split: option.split)
qed (auto simp: after_put_def intro: Q settled_error again split: option.split)

lemma wp_put_chunk:
  assumes "\<And>r t' w' x. chunk_log E session off whole body (2 * Suc left) x \<Longrightarrow> settled session off whole body r x \<Longrightarrow> Q r (t', w', l @ x)"
  shows "wp (put_chunk (spied_env E) (\<lambda>d. aside (sleep d)) (aside aborted) session off whole body left attempt) Q (t, w, l)"
  using assms
proof (induction left arbitrary: attempt Q t w l rule: less_induct)
  case (less left)
  note Q = less.prems
  let ?put = "put_chunk (spied_env E) (\<lambda>d. aside (sleep d)) (aside aborted) session off whole body"
  have none: "Q PR_Aborted (t', w', l)" for t' w'
    using Q [of "[]" PR_Aborted] by (simp add: chunk_log_def settled_error)
  have attempt: "wp (put_refreshing (spied_env E) session off whole body)
      (\<lambda>t. wp (after_put (case left of 0 \<Rightarrow> None | Suc k \<Rightarrow> Some (?put k (Suc n))) (Suc n) t) Q) (t', w', l)" for n t' w'
  proof (rule wp_put_refreshing)
    fix r t' w' x
    assume x: "chunk_log E session off whole body 2 x" and a: "answers_last session off whole body r x"
    show "wp (after_put (case left of 0 \<Rightarrow> None | Suc k \<Rightarrow> Some (?put k (Suc n))) (Suc n) r) Q (t', w', l @ x)"
    proof (rule wp_after_put [OF x a])
      show "Q r (t', w', l @ x)" if "settled session off whole body r x" for r
        by (rule Q [OF chunk_log_mono [OF x] that]) simp
      show "wp f Q (t', w', l @ x)" if some: "(case left of 0 \<Rightarrow> None | Suc k \<Rightarrow> Some (?put k (Suc n))) = Some f" for f
      proof -
        obtain k where k: "left = Suc k" and f: "f = ?put k (Suc n)" using some by (auto split: nat.splits)
        have "wp (?put k (Suc n)) Q (t', w', l @ x)"
        proof (rule less.IH)
          fix r t' w' y
          assume y: "chunk_log E session off whole body (2 * Suc k) y" and s: "settled session off whole body r y"
          show "Q r (t', w', (l @ x) @ y)"
            using Q [OF _ settled_append [OF s], of x t' w'] chunk_log_append [OF x y] by (simp add: k)
        qed (simp add: k)
        then show ?thesis by (simp add: f)
      qed
    qed
  qed
  show ?case by (subst put_chunk.simps) (auto intro!: wp_aside simp: none attempt)
qed


subsection \<open>The end of the pools\<close>

definition pool_goes :: "('v, 'r) pool_spec \<Rightarrow> ('v, 'r) work_pool \<Rightarrow> ('v, 'r) work_pool \<Rightarrow> bool" where
  "pool_goes S st st' = (\<exists>e. pool_move S st e st')"

lemma attended_goes: "(pool_goes S)\<^sup>*\<^sup>* st st' \<Longrightarrow> attended st \<Longrightarrow> attended st'"
  by (induction rule: rtranclp_induct) (auto simp: pool_goes_def dest: attended_move)

text \<open>A pool in which nothing moves any more, short of a cancellation.\<close>

definition at_rest :: "('v, 'r) pool_spec \<Rightarrow> ('v, 'r) work_pool \<Rightarrow> bool" where
  "at_rest S st = (\<forall>e st'. pool_move S st e st' \<longrightarrow> is_cancellation e)"

lemma at_rest_gone: "at_rest S st \<Longrightarrow> gone st w"
  using worker_moves [of st w S] unfolding at_rest_def by blast

lemma at_rest_parent: "at_rest S st \<Longrightarrow> wp_parent st \<noteq> PP_Spawned"
  using pool_move.Wait [of st S] unfolding at_rest_def by fastforce

lemma run_rest_live:
  assumes "pool_run S r tr st" "at_rest S st"
  shows "wp_live_workers st = 0"
proof -
  have "{w. w < sp_workers S \<and> \<not> gone st w} = {}" using at_rest_gone [OF assms(2)] by simp
  then show ?thesis using run_counted [OF assms(1)] by (simp add: counted_def)
qed

text \<open>
  C27. The pools of both uploads end: however their workers interleave, a run has a bounded number of steps, and when nothing
  moves any more all workers are gone. A parent that began to wait while a worker was left, or that was woken, is awake then.
\<close>
theorem gdrive_pools_end:
  assumes "pool_run S r tr st"
  shows "length tr \<le> 6 * sp_items S + 6 * sp_workers S + 2 \<and>
    (at_rest S st \<longrightarrow> (\<forall>w. gone st w) \<and> wp_live_workers st = 0 \<and> wp_parent st \<noteq> PP_Spawned) \<and>
    (attended st \<longrightarrow> (\<forall>st'. (pool_goes S)\<^sup>*\<^sup>* st st' \<longrightarrow> at_rest S st' \<longrightarrow> wp_parent st' = PP_Woken))"
proof (intro conjI impI allI)
  show "length tr \<le> 6 * sp_items S + 6 * sp_workers S + 2" using run_bounded [OF assms] by simp
  show "gone st w" "wp_live_workers st = 0" "wp_parent st \<noteq> PP_Spawned" if "at_rest S st" for w
    using that by (rule at_rest_gone, rule run_rest_live [OF assms], rule at_rest_parent)
  show "wp_parent st' = PP_Woken" if a: "attended st" and go: "(pool_goes S)\<^sup>*\<^sup>* st st'" and rest: "at_rest S st'" for st'
  proof -
    have "\<exists>tr'. pool_run S r tr' st'"
      using go assms by (induction rule: rtranclp_induct) (auto simp: pool_goes_def intro: pool_run.Moved)
    then obtain tr' where "pool_run S r tr' st'" ..
    from run_rest_live [OF this rest] have "wp_live_workers st' = 0" .
    with attended_goes [OF go a] show ?thesis by (simp add: attended_def)
  qed
qed

theorem gdrive_pools_end_witness:
  "\<exists>st. pool_run (chunk_pool session_env ''p'' [(0, 2)]) ([], 0) one_chunk_history st \<and> wp_parent st = PP_Woken \<and>
     length one_chunk_history \<le> 14"
proof -
  have "case pool_replay (chunk_pool session_env ''p'' [(0, 2)]) ([], 0) one_chunk_history of None \<Rightarrow> False
      | Some st \<Rightarrow> wp_parent st = PP_Woken"
    by code_simp
  then obtain st where run: "pool_run (chunk_pool session_env ''p'' [(0, 2)]) ([], 0) one_chunk_history st" and w: "wp_parent st = PP_Woken"
    by (auto dest!: pool_replay_run split: option.splits)
  have "6 * sp_items (chunk_pool session_env ''p'' [(0, 2)]) + 6 * sp_workers (chunk_pool session_env ''p'' [(0, 2)]) + 2 = 14"
    by code_simp
  with gdrive_pools_end [OF run] run w show ?thesis by auto
qed

text \<open>
  The end of the workers can be missed: in the pool for a directory without files the only worker may leave before the parent
  has begun to wait; nothing then moves any more, no error was recorded, and the parent waits on a timer that never expires.
\<close>
theorem gdrive_join_lost:
  "\<exists>tr st. pool_run (file_pool E []) [] tr st \<and> undisturbed tr \<and> wp_first_error st = None \<and> (\<forall>w. gone st w) \<and>
     wp_parent st = PP_Waiting \<and> at_rest (file_pool E []) st"
proof -
  define S where "S = file_pool E []"
  have S: "sp_workers S = 1" "sp_items S = 0"
    by (simp_all add: S_def file_pool_def file_parallelism_def)
  let ?tr = "[PE_Wait, PE_Exit 0, PE_Claim 0 0, PE_Step 0, PE_Step 0, PE_Step 0]"
  have "case pool_replay S [] ?tr of None \<Rightarrow> False
      | Some st \<Rightarrow> wp_first_error st = None \<and> (\<forall>w. gone st w) \<and> wp_parent st = PP_Waiting"
    by (simp add: spawn_pool_def S goto_def step_defs gone_def [abs_def])
  from pool_replayed [OF this] obtain st where run: "pool_run S [] ?tr st"
    and st: "wp_first_error st = None" "\<And>w. gone st w" "wp_parent st = PP_Waiting"
    by blast
  have "at_rest S st"
    unfolding at_rest_def
  proof (intro allI impI)
    fix e st'
    assume "pool_move S st e st'"
    then show "is_cancellation e" by cases (use st in \<open>simp_all add: gone_def\<close>)
  qed
  moreover have "undisturbed ?tr" by (simp add: undisturbed_def)
  ultimately show ?thesis using run st unfolding S_def by blast
qed

end
