(* ===== verification/Drive_Mirror.thy ===== *)
theory Drive_Mirror
  imports Drive_Transfers
begin

text \<open>
  The folders of an uploaded directory: \<open>upload_directory\<close> creates one for every directory below the given one and
  plans every file into the folder of its own directory.
\<close>

text \<open>The order of a recursive iterator: a directory comes once, and before what it holds.\<close>

fun walk_order :: "string set \<Rightarrow> walk_item list \<Rightarrow> bool" where
  "walk_order seen [] = True"
| "walk_order seen (WI_Dir rel # items) = (parent_path rel \<in> seen \<and> rel \<notin> seen \<and> walk_order (insert rel seen) items)"
| "walk_order seen (WI_File rel src # items) = (parent_path rel \<in> seen \<and> walk_order seen items)"
| "walk_order seen (_ # items) = walk_order seen items"

fun walk_dirs :: "walk_item list \<Rightarrow> string list" where
  "walk_dirs [] = []"
| "walk_dirs (WI_Dir rel # items) = rel # walk_dirs items"
| "walk_dirs (_ # items) = walk_dirs items"

fun walk_files :: "walk_item list \<Rightarrow> (string \<times> string) list" where
  "walk_files [] = []"
| "walk_files (WI_File rel src # items) = (rel, src) # walk_files items"
| "walk_files (_ # items) = walk_files items"

text \<open>A folder that an exchange of the log created in a parent.\<close>

definition folder_made :: "('w, 'j) drive_env \<Rightarrow> exchange list \<Rightarrow> string \<Rightarrow> string \<Rightarrow> string \<Rightarrow> bool" where
  "folder_made E l name parent i =
     (\<exists>bearer r. (json_request files_url bearer (ge_dump E (folder_body name parent)), Inr r) \<in> set l \<and> success r \<and>
        read_id (ge_json E) ''gdrive: create folder parse: '' (hr_body r) = Inr i)"

lemma folder_made_append: "folder_made E l name parent i \<Longrightarrow> folder_made E (l @ x) name parent i"
  by (auto simp: folder_made_def)

lemma wp_folder_made:
  assumes Q: "\<And>r t' w' x. (\<And>i. r = Inr i \<Longrightarrow> folder_made E (l @ x) name d i) \<Longrightarrow> Q r (t', w', l @ x)"
  shows "wp (create_folder (spied_env E) name d) Q (t, w, l)"
  unfolding create_folder_def wp_bind spied_env_sel
proof (rule wp_acquire)
  fix b :: "string res" and t1 w1 x
  have bad: "Q (Inl e) (t1, w1, l @ x)" for e by (rule Q) simp
  define req where "req bearer = json_request files_url bearer (ge_dump E (folder_body name d))" for bearer
  have good: "wp (ge_http (spied_env E) (req bearer)) (\<lambda>r. wp (State_Monad.return (case r of Inl e \<Rightarrow> Inl e
        | Inr resp \<Rightarrow> if \<not> success resp then Inl (api_error ''gdrive: create folder'' resp)
            else read_id (ge_json E) ''gdrive: create folder parse: '' (hr_body resp))) Q) (t1, w1, l @ x)" for bearer
    unfolding wp_return
  proof (rule wp_spied_http)
    fix r t2 w2
    have "folder_made E (l @ x @ [(req bearer, r)]) name d i" if "r = Inr resp" "success resp"
      "read_id (ge_json E) ''gdrive: create folder parse: '' (hr_body resp) = Inr i" for resp i
      unfolding folder_made_def by (intro exI [of _ bearer] exI [of _ resp]) (use that in \<open>simp add: req_def\<close>)
    then show "Q (case r of Inl e \<Rightarrow> Inl e | Inr resp \<Rightarrow> if \<not> success resp then Inl (api_error ''gdrive: create folder'' resp)
            else read_id (ge_json E) ''gdrive: create folder parse: '' (hr_body resp)) (t2, w2, (l @ x) @ [(req bearer, r)])"
      using Q [of "case r of Inl e \<Rightarrow> Inl e | Inr resp \<Rightarrow> if \<not> success resp then Inl (api_error ''gdrive: create folder'' resp)
            else read_id (ge_json E) ''gdrive: create folder parse: '' (hr_body resp)" "x @ [(req bearer, r)]" t2 w2]
      by (auto split: sum.splits if_splits)
  qed
  show "wp (case b of Inl e \<Rightarrow> State_Monad.return (Inl e) | Inr bearer \<Rightarrow>
      ge_http (spied_env E) (json_request files_url bearer (ge_dump E (folder_body name d))) \<bind> (\<lambda>r. State_Monad.return (case r of
        Inl e \<Rightarrow> Inl e
      | Inr resp \<Rightarrow> if \<not> success resp then Inl (api_error ''gdrive: create folder'' resp)
          else read_id (ge_json E) ''gdrive: create folder parse: '' (hr_body resp)))) Q (t1, w1, l @ x)"
    using bad good [unfolded req_def] by (cases b) (simp_all add: wp_bind)
qed

text \<open>What the walk makes of its items.\<close>

definition mirrored ::
    "('w, 'j) drive_env \<Rightarrow> walk_item list \<Rightarrow> (string \<rightharpoonup> string) \<Rightarrow> (string \<rightharpoonup> string) \<Rightarrow> (string \<times> string) list \<Rightarrow> exchange list \<Rightarrow> bool" where
  "mirrored E items ids ids' planned l =
     (ids \<subseteq>\<^sub>m ids' \<and> dom ids' = dom ids \<union> set (walk_dirs items) \<and>
      planned = map (\<lambda>(rel, src). (src, the (ids' (parent_path rel)))) (walk_files items) \<and>
      (\<forall>rel \<in> set (walk_dirs items). folder_made E l (path_filename rel) (the (ids' (parent_path rel))) (the (ids' rel))))"

lemma folder_for_known: "parent_path rel \<in> dom ids \<Longrightarrow> folder_for ids rel = the (ids (parent_path rel))"
  by (auto simp: folder_for_def)

lemma map_le_the: "ids \<subseteq>\<^sub>m ids' \<Longrightarrow> p \<in> dom ids \<Longrightarrow> the (ids' p) = the (ids p)"
  by (auto simp: map_le_def)

lemma mirrored_dir:
  assumes "mirrored E items (ids(rel \<mapsto> i)) ids' planned l" "parent_path rel \<in> dom ids" "rel \<notin> dom ids"
    and "folder_made E l (path_filename rel) (the (ids (parent_path rel))) i"
  shows "mirrored E (WI_Dir rel # items) ids ids' planned l"
proof -
  have le: "ids(rel \<mapsto> i) \<subseteq>\<^sub>m ids'" using assms(1) by (simp add: mirrored_def)
  have ids: "ids \<subseteq>\<^sub>m ids'" using le assms(3) by (metis map_le_imp_upd_le map_le_trans map_le_refl fun_upd_idem_iff domIff upd_None_map_le)
  have "the (ids' rel) = i" using map_le_the [OF le, of rel] by simp
  moreover have "the (ids' (parent_path rel)) = the (ids (parent_path rel))" by (rule map_le_the [OF ids assms(2)])
  ultimately show ?thesis using assms(1,4) ids by (auto simp: mirrored_def)
qed

lemma wp_walk_directory:
  assumes "walk_order (dom ids) items"
    and "\<And>e t' w' x. Q (Inl e) (t', w', l @ x)"
    and "\<And>ids' planned t' w' x. mirrored E items ids ids' planned (l @ x) \<Longrightarrow> Q (Inr (ids', work @ planned)) (t', w', l @ x)"
  shows "wp (walk_directory (spied_env E) items ids work) Q (t, w, l)"
  using assms
proof (induction items arbitrary: ids work Q t w l)
  case Nil
  have "mirrored E [] ids ids [] (l @ [])" by (simp add: mirrored_def)
  from Nil.prems(3) [OF this] show ?case by simp
next
  case (Cons item items)
  note bad = Cons.prems(2) [of _ _ _ "[]", simplified]
  have step: "wp (case item of
          WI_Unrelated m \<Rightarrow> State_Monad.return (Inl (mk_error EC_FileSystem (''gdrive: relative() failed: '' @ m)))
        | WI_Dir rel \<Rightarrow> do {
            made \<leftarrow> create_folder (spied_env E) (path_filename rel) (folder_for ids rel);
            (case made of
               Inl e \<Rightarrow> State_Monad.return (Inl e)
             | Inr i \<Rightarrow> walk_directory (spied_env E) items (ids(rel \<mapsto> i)) work)
          }
        | WI_Other rel \<Rightarrow> walk_directory (spied_env E) items ids work
        | WI_File rel source \<Rightarrow> walk_directory (spied_env E) items ids (work @ [(source, folder_for ids rel)])) Q (t', w', l)" for t' w'
  proof (cases item)
    case (WI_Dir rel)
    with Cons.prems(1) have p: "parent_path rel \<in> dom ids" and n: "rel \<notin> dom ids" and o: "walk_order (insert rel (dom ids)) items"
      by simp_all
    have "wp (create_folder (spied_env E) (path_filename rel) (folder_for ids rel)) (\<lambda>made. wp (case made of
               Inl e \<Rightarrow> State_Monad.return (Inl e)
             | Inr i \<Rightarrow> walk_directory (spied_env E) items (ids(rel \<mapsto> i)) work) Q) (t', w', l)"
    proof (rule wp_folder_made)
      fix r :: "string res" and t' w' x
      assume made: "\<And>i. r = Inr i \<Longrightarrow> folder_made E (l @ x) (path_filename rel) (folder_for ids rel) i"
      show "wp (case r of Inl e \<Rightarrow> State_Monad.return (Inl e)
             | Inr i \<Rightarrow> walk_directory (spied_env E) items (ids(rel \<mapsto> i)) work) Q (t', w', l @ x)"
      proof (cases r)
        case (Inl e)
        then show ?thesis by (simp add: Cons.prems(2))
      next
        case (Inr i)
        have "wp (walk_directory (spied_env E) items (ids(rel \<mapsto> i)) work) Q (t', w', l @ x)"
        proof (rule Cons.IH)
          show "walk_order (dom (ids(rel \<mapsto> i))) items" using o by simp
          show "Q (Inl e) (t', w', (l @ x) @ y)" for e t' w' y using Cons.prems(2) [of e t' w' "x @ y"] by simp
          fix ids' planned t' w' y
          assume "mirrored E items (ids(rel \<mapsto> i)) ids' planned ((l @ x) @ y)"
          then have "mirrored E (WI_Dir rel # items) ids ids' planned ((l @ x) @ y)"
            by (rule mirrored_dir [OF _ p n])
              (rule folder_made_append, rule made [OF Inr, unfolded folder_for_known [OF p]])
          then show "Q (Inr (ids', work @ planned)) (t', w', (l @ x) @ y)"
            using Cons.prems(3) [of ids' planned "x @ y" t' w'] by (simp add: WI_Dir)
        qed
        then show ?thesis by (simp add: Inr)
      qed
    qed
    then show ?thesis by (simp add: WI_Dir)
  next
    case (WI_File rel src)
    with Cons.prems(1) have p: "parent_path rel \<in> dom ids" by simp
    have "wp (walk_directory (spied_env E) items ids (work @ [(src, folder_for ids rel)])) Q (t', w', l)"
    proof (rule Cons.IH)
      show "walk_order (dom ids) items" using Cons.prems(1) by (simp add: WI_File)
      fix ids' planned t' w' x
      assume m: "mirrored E items ids ids' planned (l @ x)"
      then have "the (ids' (parent_path rel)) = the (ids (parent_path rel))" by (intro map_le_the [OF _ p]) (simp add: mirrored_def)
      with m have "mirrored E (item # items) ids ids' ((src, folder_for ids rel) # planned) (l @ x)"
        by (simp add: mirrored_def WI_File folder_for_known [OF p])
      then show "Q (Inr (ids', (work @ [(src, folder_for ids rel)]) @ planned)) (t', w', l @ x)"
        using Cons.prems(3) by force
    qed (rule Cons.prems(2))
    then show ?thesis by (simp add: WI_File)
  next
    case (WI_Other rel)
    have "wp (walk_directory (spied_env E) items ids work) Q (t', w', l)"
      by (rule Cons.IH) (use Cons.prems in \<open>simp_all add: WI_Other mirrored_def\<close>)
    then show ?thesis by (simp add: WI_Other)
  next
    case (WI_Unrelated m)
    then show ?thesis by (simp add: bad)
  qed
  show ?case unfolding walk_directory.simps wp_bind by (rule wp_spied_rest(3)) (simp add: bad step)
qed

text \<open>
  C28. The walk over a directory, whose iterator yields a directory before what it holds, mirrors it: it gives an id to the directory itself and to
  every directory below it, each the id of a folder that was created with the name of that directory in the folder
  of its parent, and it plans every regular file, in the order of the walk, into the folder of its own directory.
\<close>
theorem gdrive_directory_mirrors:
  assumes "walk_order {[]} items"
    and "run_state (walk_directory (spied_env E) items [[] \<mapsto> base_id] []) (t, w, l) = (Inr (ids, planned), t', w', sent)"
  shows "ids [] = Some base_id \<and> dom ids = insert [] (set (walk_dirs items)) \<and>
    planned = map (\<lambda>(rel, src). (src, the (ids (parent_path rel)))) (walk_files items) \<and>
    (\<forall>rel \<in> set (walk_dirs items). folder_made E sent (path_filename rel) (the (ids (parent_path rel))) (the (ids rel)))"
proof -
  have "wp (walk_directory (spied_env E) items [[] \<mapsto> base_id] []) (\<lambda>r (t', w', sent). case r of Inl _ \<Rightarrow> True
      | Inr (ids, planned) \<Rightarrow> mirrored E items [[] \<mapsto> base_id] ids planned sent) (t, w, l)"
    by (rule wp_walk_directory) (use assms(1) in simp_all)
  then have m: "mirrored E items [[] \<mapsto> base_id] ids planned sent" by (simp add: wp_def assms(2))
  then have "ids [] = Some base_id" by (simp add: mirrored_def map_le_def)
  with m show ?thesis by (simp add: mirrored_def)
qed

theorem gdrive_directory_mirrors_witness:
  "\<exists>ids planned t' w' sent.
     run_state (walk_directory (spied_env session_env) [WI_Dir ''d'', WI_File ''d/f'' ''/s/d/f''] [[] \<mapsto> ''r''] [])
       (\<lparr>tk_value = ''b'', tk_expires_at = 100000\<rparr>, (), []) = (Inr (ids, planned), t', w', sent) \<and>
     planned = [(''/s/d/f'', ''x'')] \<and> folder_made session_env sent ''d'' ''r'' ''x''"
proof -
  let ?run = "run_state (walk_directory (spied_env session_env) [WI_Dir ''d'', WI_File ''d/f'' ''/s/d/f''] [[] \<mapsto> ''r''] [])
       (\<lparr>tk_value = ''b'', tk_expires_at = 100000\<rparr>, (), [])"
  obtain r t' w' sent where run: "?run = (r, t', w', sent)" by (rule prod_cases4)
  have "case fst ?run of Inl _ \<Rightarrow> False | Inr (ids, planned) \<Rightarrow> ids ''d'' = Some ''x''" by code_simp
  then obtain ids planned where r: "r = Inr (ids, planned)" and d: "ids ''d'' = Some ''x''"
    unfolding run by (auto split: sum.splits)
  have order: "walk_order {[]} [WI_Dir ''d'', WI_File ''d/f'' ''/s/d/f'']" by code_simp
  have paths: "parent_path ''d/f'' = ''d''" "parent_path ''d'' = []" "path_filename ''d'' = ''d''" by code_simp+
  note m = gdrive_directory_mirrors [OF order run [unfolded r], unfolded walk_dirs.simps walk_files.simps list.map prod.case paths d option.sel]
  have plan: "planned = [(''/s/d/f'', ''x'')]" using m by (elim conjE)
  have base: "ids [] = Some ''r''" using m by (elim conjE)
  have "folder_made session_env sent ''d'' (the (ids [])) ''x''"
    using m by (simp (no_asm_use) only: list.set ball_simps paths d option.sel) (elim conjE)
  then have "folder_made session_env sent ''d'' ''r'' ''x''" by (simp only: base option.sel)
  then show ?thesis using run [unfolded r] plan by (intro exI conjI)
qed

end
