(* ===== verification/Telegram_Uploader.thy ===== *)
theory Telegram_Uploader
  imports Worker_Pool Configuration Encodings Ports Records "HOL-Library.Char_ord" "HOL-Library.List_Lexorder"
begin

text \<open>
  The leech adapter, \<open>src/infrastructure/upload/telegram_uploader.cpp\<close>: files up to the split size are sent as one message,
  larger ones are split into part files that a pool of workers sends, and removed again. The disk is a map from paths to
  contents with predicates that say where an operation fails; the messenger is a collaborator.
\<close>

subsection \<open>Names\<close>

definition path_extension :: "string \<Rightarrow> string" where
  "path_extension p =
     (let f = path_filename p in
      case split_last CHR ''.'' f of
        None \<Rightarrow> []
      | Some (stem, ext) \<Rightarrow> if stem = [] \<or> f = ''..'' then [] else CHR ''.'' # ext)"

definition lower_ext :: "string \<Rightarrow> string" where
  "lower_ext p = map to_lower (path_extension p)"

datatype media_kind = MK_Document | MK_Video | MK_Audio | MK_Photo

fun media_label :: "media_kind \<Rightarrow> string" where
  "media_label MK_Video = ''video''"
| "media_label MK_Audio = ''audio''"
| "media_label MK_Photo = ''photo''"
| "media_label MK_Document = ''document''"

definition classify :: "string \<Rightarrow> media_kind" where
  "classify p =
     (let ext = lower_ext p in
      if ext \<in> set [''.mp4'', ''.mkv'', ''.mov'', ''.avi'', ''.webm''] then MK_Video
      else if ext \<in> set [''.mp3'', ''.flac'', ''.wav'', ''.opus'', ''.m4a'', ''.aac''] then MK_Audio
      else if ext \<in> set [''.jpg'', ''.jpeg'', ''.png'', ''.webp''] then MK_Photo
      else MK_Document)"

text \<open>The placeholder \<open>{:0nd}\<close> of \<open>fmt\<close>.\<close>

definition zero_padded :: "nat \<Rightarrow> nat \<Rightarrow> string" where
  "zero_padded n x = replicate (n - length (nat_digits x)) CHR ''0'' @ nat_digits x"

lemma zero_padded_val [simp]: "digits_val (zero_padded n x) = x"
proof -
  have "digits_val (replicate k CHR ''0'') = 0" for k
    by (induction k) (simp_all add: digit_val_def)
  then show ?thesis by (simp add: zero_padded_def)
qed

definition part_path :: "string \<Rightarrow> nat \<Rightarrow> string" where
  "part_path src i = src @ ''.part'' @ zero_padded 3 (Suc i)"

lemma part_path_inj [simp]: "part_path src i = part_path src j \<longleftrightarrow> i = j"
proof
  assume "part_path src i = part_path src j"
  then have "digits_val (zero_padded 3 (Suc i)) = digits_val (zero_padded 3 (Suc j))" by (simp add: part_path_def)
  then show "i = j" by simp
qed simp

lemma part_path_neq [simp]: "part_path src i \<noteq> src" "src \<noteq> part_path src i"
  by (simp_all add: part_path_def)

definition part_caption :: "nat \<Rightarrow> nat \<Rightarrow> string \<Rightarrow> string" where
  "part_caption i parts name = ''Part'' @ zero_padded 2 (Suc i) @ ''/'' @ zero_padded 2 parts @ '' '' @ name"

subsection \<open>Splitting\<close>

type_synonym disk = "string \<rightharpoonup> string"

type_synonym ('w, 'a) tu = "(disk \<times> 'w, 'a) state"

text \<open>
  \<open>te_stat_error\<close> says for which files \<open>file_size\<close> fails, \<open>te_writable p n\<close> whether \<open>p\<close> can be written up to \<open>n\<close> bytes.
\<close>

record 'w tg_env =
  te_config :: telegram_config
  te_stat_error :: "string \<Rightarrow> string option"
  te_creatable :: "string \<Rightarrow> bool"
  te_writable :: "string \<Rightarrow> nat \<Rightarrow> bool"
  te_removable :: "string \<Rightarrow> bool"
  te_cancelled :: "('w, bool) state"
  te_steady :: "('w, int) state"
  te_send :: "chat_id \<Rightarrow> string \<Rightarrow> string \<Rightarrow> string option \<Rightarrow> ('w, int res) state"

text \<open>What happens outside the disk.\<close>

definition aloof :: "('w, 'a) state \<Rightarrow> ('w, 'a) tu" where
  "aloof f = State (\<lambda>(D, w). case run_state f w of (r, w') \<Rightarrow> (r, D, w'))"

definition tg_file_size :: "'w tg_env \<Rightarrow> disk \<Rightarrow> string \<Rightarrow> string + int" where
  "tg_file_size E D p =
     (case te_stat_error E p of
        Some m \<Rightarrow> Inl m
      | None \<Rightarrow> (case D p of None \<Rightarrow> Inl ''No such file or directory'' | Some c \<Rightarrow> Inr (int (length c))))"

definition kSplitStreamBuffer :: nat where "kSplitStreamBuffer = 1024 * 1024"

text \<open>
  The inner loop: \<open>rest\<close> and \<open>good\<close> are the input stream, \<open>acc\<close> is what the part holds. The first result says whether all writes
  succeeded.
\<close>

function copy_part :: "nat \<Rightarrow> (nat \<Rightarrow> bool) \<Rightarrow> nat \<Rightarrow> string \<Rightarrow> bool \<Rightarrow> string \<Rightarrow> bool \<times> string \<times> bool \<times> string" where
  "copy_part buf writable remaining rest good acc =
     (if 0 < remaining \<and> good then
        let to_read = min remaining buf; got = take to_read rest; rest' = drop to_read rest; good' = (length got = to_read) in
        if got = [] then (True, rest', good', acc)
        else if \<not> writable (length acc + length got) then (False, rest', good', acc)
        else copy_part buf writable (remaining - length got) rest' good' (acc @ got)
      else (True, rest, good, acc))"
  by auto

termination
  by (relation "measure (\<lambda>(buf, writable, remaining, rest, good, acc). remaining)") auto

declare copy_part.simps [simp del]

fun make_parts :: "'w tg_env \<Rightarrow> string \<Rightarrow> nat \<Rightarrow> nat list \<Rightarrow> string \<Rightarrow> bool \<Rightarrow> string list \<Rightarrow> disk \<Rightarrow> string list res \<times> disk" where
  "make_parts E src chunk [] rest good parts D = (Inr parts, D)"
| "make_parts E src chunk (i # is) rest good parts D =
     (let p = part_path src i in
      if \<not> te_creatable E p then (Inl (mk_error EC_Io (''telegram_uploader: cannot create part '' @ p)), D)
      else case copy_part kSplitStreamBuffer (te_writable E p) chunk rest good [] of (ok, rest', good', body) \<Rightarrow>
        if \<not> ok then (Inl (mk_error EC_Io (''telegram_uploader: write failed for '' @ p)), D(p \<mapsto> body))
        else make_parts E src chunk is rest' good' (parts @ [p]) (D(p \<mapsto> body)))"

text \<open>
  The number of parts is an \<open>int\<close>; when it is negative, \<open>reserve\<close> throws. A thrown exception is \<open>Inl\<close>.
\<close>

type_synonym 'a thrown = "string + 'a res"

definition int32_of :: "int \<Rightarrow> int" where
  "int32_of x = (x + 2 ^ 31) mod 2 ^ 32 - 2 ^ 31"

definition chunk_count :: "int \<Rightarrow> int \<Rightarrow> int" where
  "chunk_count total_bytes chunk = int32_of ((total_bytes + chunk - 1) div chunk)"

definition split_file :: "'w tg_env \<Rightarrow> string \<Rightarrow> int \<Rightarrow> disk \<Rightarrow> string list thrown \<times> disk" where
  "split_file E src chunk D =
     (case D src of
        None \<Rightarrow> (Inr (Inl (mk_error EC_Io (''telegram_uploader: cannot open '' @ src @ '' for splitting''))), D)
      | Some content \<Rightarrow>
          (case tg_file_size E D src of
             Inl m \<Rightarrow> (Inr (Inl (mk_error EC_FileSystem (''telegram_uploader: file_size failed: '' @ m))), D)
           | Inr n \<Rightarrow>
               if chunk \<le> 0 then (Inr (Inl (mk_error EC_InvalidArgument ''telegram_uploader: split_size must be > 0'')), D)
               else if chunk_count n chunk < 0 then (Inl ''vector::reserve'', D)
               else apfst Inr (make_parts E src (nat chunk) [0..<nat (chunk_count n chunk)] content True [] D)))"

subsection \<open>Sending the parts\<close>

text \<open>
  What the workers share besides the pool: the message ids, the sizes, the bytes sent and the progress reports with the time
  of the last one. A worker adds its bytes and reports in one step.
\<close>

record part_results =
  pr_ids :: "int option list"
  pr_sizes :: "int list"
  pr_uploaded :: int
  pr_last_cb :: int
  pr_reports :: "(int \<times> nat \<times> int) list"

text \<open>The size of the part, the id of its message, the time behind it.\<close>

type_synonym part_answer = "int \<times> int \<times> int"

definition judge_part :: "bool \<Rightarrow> nat \<Rightarrow> part_answer \<Rightarrow> part_results \<Rightarrow> app_error + part_results" where
  "judge_part reporting i v c =
     (case v of (part_size, mid, now) \<Rightarrow>
        let c = c\<lparr>pr_ids := (pr_ids c)[i := Some mid], pr_sizes := (pr_sizes c)[i := part_size],
                  pr_uploaded := pr_uploaded c + part_size\<rparr> in
        Inr (if reporting \<and> now - pr_last_cb c \<ge> 1000
             then c\<lparr>pr_last_cb := now, pr_reports := pr_reports c @ [(now, Suc i, pr_uploaded c)]\<rparr> else c))"

definition tg_cancelled :: app_error where
  "tg_cancelled = mk_error EC_Cancelled ''telegram_uploader: cancelled''"

definition part_parallelism :: "telegram_config \<Rightarrow> int \<Rightarrow> int" where
  "part_parallelism cfg parts = min (max (tg_upload_parallelism cfg) 1) parts"

definition part_pool :: "'w tg_env \<Rightarrow> bool \<Rightarrow> int list \<Rightarrow> (part_answer, part_results) pool_spec" where
  "part_pool E reporting sizes =
     \<lparr>sp_workers = nat (part_parallelism (te_config E) (int (length sizes))), sp_items = length sizes,
      sp_start_error = (\<lambda>_. False), sp_cancel_error = Some tg_cancelled, sp_recheck = False,
      sp_answers = (\<lambda>i (part_size, mid, now). part_size = sizes ! i), sp_judge = judge_part reporting\<rparr>"

definition no_parts_sent :: "nat \<Rightarrow> int \<Rightarrow> part_results" where
  "no_parts_sent n now = \<lparr>pr_ids = replicate n None, pr_sizes = replicate n 0, pr_uploaded = 0, pr_last_cb = now - 2000, pr_reports = []\<rparr>"

text \<open>What a worker sends for a part.\<close>

definition part_message :: "chat_id \<Rightarrow> string \<Rightarrow> string option \<Rightarrow> string list \<Rightarrow> nat \<Rightarrow> chat_id \<times> string \<times> string \<times> string option" where
  "part_message chat name thumb parts i = (chat, parts ! i, part_caption i (length parts) name, thumb)"

text \<open>The loop over the slots behind the join, and the removal of the parts when the scope is left.\<close>

fun sum_parts :: "nat \<Rightarrow> (int option \<times> int) list \<Rightarrow> string \<times> int \<Rightarrow> (string \<times> int) res" where
  "sum_parts i [] agg = Inr agg"
| "sum_parts i ((slot, part_size) # rest) (fid, n) =
     (case slot of
        None \<Rightarrow> Inl (mk_error EC_Internal (''telegram_uploader: missing result for part '' @ nat_digits (Suc i)))
      | Some mid \<Rightarrow> sum_parts (Suc i) rest (if fid = [] then int_to_string mid else fid, n + part_size))"

definition remove_parts :: "'w tg_env \<Rightarrow> string list \<Rightarrow> ('w, unit) tu" where
  "remove_parts E parts = State (\<lambda>(D, w). ((), D |` (- {p \<in> set parts. te_removable E p}), w))"

definition finish_parts :: "(part_answer, part_results) work_pool \<Rightarrow> (string \<times> int) res" where
  "finish_parts st =
     (case wp_first_error st of
        Some e \<Rightarrow> Inl e
      | None \<Rightarrow> sum_parts 0 (zip (pr_ids (wp_collected st)) (pr_sizes (wp_collected st))) ([], 0))"

type_synonym 'w part_runner =
  "(part_answer, part_results) pool_spec \<Rightarrow> (nat \<Rightarrow> chat_id \<times> string \<times> string \<times> string option) \<Rightarrow> part_results \<Rightarrow>
   ('w, (part_answer, part_results) work_pool) state"

text \<open>A progress report: bytes sent, parts begun, parts.\<close>

type_synonym 'w tg_progress = "string \<Rightarrow> int \<Rightarrow> int \<Rightarrow> nat \<Rightarrow> nat \<Rightarrow> ('w, unit) state"

definition tell :: "'w tg_progress option \<Rightarrow> string \<Rightarrow> int \<Rightarrow> int \<Rightarrow> nat \<Rightarrow> nat \<Rightarrow> ('w, unit) tu" where
  "tell on_progress name n sent part parts =
     (case on_progress of None \<Rightarrow> State_Monad.return () | Some p \<Rightarrow> aloof (p name n sent part parts))"

definition disk_of :: "('w, disk) tu" where
  "disk_of = State (\<lambda>(D, w). (D, D, w))"

definition split_on_disk :: "'w tg_env \<Rightarrow> string \<Rightarrow> int \<Rightarrow> ('w, string list thrown) tu" where
  "split_on_disk E path chunk = State (\<lambda>(D, w). case split_file E path chunk D of (r, D') \<Rightarrow> (r, D', w))"

definition part_sizes :: "disk \<Rightarrow> string list \<Rightarrow> int list" where
  "part_sizes D parts = map (\<lambda>p. int (length (case D p of None \<Rightarrow> [] | Some c \<Rightarrow> c))) parts"

definition send_parts ::
    "'w tg_env \<Rightarrow> 'w part_runner \<Rightarrow> chat_id \<Rightarrow> string \<Rightarrow> int \<Rightarrow> string option \<Rightarrow> string list \<Rightarrow> 'w tg_progress option \<Rightarrow> ('w, (string \<times> int) res) tu" where
  "send_parts E run_pool chat name n thumb parts on_progress = do {
     now \<leftarrow> aloof (te_steady E);
     D \<leftarrow> disk_of;
     st \<leftarrow> aloof (run_pool (part_pool E (on_progress \<noteq> None) (part_sizes D parts)) (part_message chat name thumb parts)
            (no_parts_sent (length parts) now));
     (case finish_parts st of
        Inl e \<Rightarrow> do { _ \<leftarrow> remove_parts E parts; State_Monad.return (Inl e) }
      | Inr (fid, sent) \<Rightarrow> do {
          _ \<leftarrow> tell on_progress name n sent (length parts) (length parts);
          _ \<leftarrow> remove_parts E parts;
          State_Monad.return (Inr (fid, sent))
        })
   }"

definition send_whole ::
    "'w tg_env \<Rightarrow> chat_id \<Rightarrow> string \<Rightarrow> int \<Rightarrow> upload_config \<Rightarrow> 'w tg_progress option \<Rightarrow> ('w, (string \<times> int) res) tu" where
  "send_whole E chat path n config on_progress = do {
     _ \<leftarrow> tell on_progress (path_filename path) n 0 1 1;
     r \<leftarrow> aloof (te_send E chat path (case uc_caption config of Some c \<Rightarrow> c | None \<Rightarrow> []) (uc_thumbnail_path config));
     (case r of
        Inl e \<Rightarrow> State_Monad.return (Inl e)
      | Inr mid \<Rightarrow> do {
          _ \<leftarrow> tell on_progress (path_filename path) n n 1 1;
          State_Monad.return (Inr (int_to_string mid, n))
        })
   }"

definition upload_done :: "'w tg_env \<Rightarrow> int \<Rightarrow> (string \<times> int) res \<Rightarrow> ('w, upload_result thrown) tu" where
  "upload_done E started r =
     (case r of
        Inl e \<Rightarrow> State_Monad.return (Inr (Inl e))
      | Inr (fid, n) \<Rightarrow> do {
          now \<leftarrow> aloof (te_steady E);
          State_Monad.return (Inr (Inr \<lparr>ur_file_id = fid, ur_link = [], ur_size = n, ur_duration = now - started\<rparr>))
        })"

definition tg_upload_file ::
    "'w tg_env \<Rightarrow> 'w part_runner \<Rightarrow> string \<Rightarrow> upload_config \<Rightarrow> 'w tg_progress option \<Rightarrow> ('w, upload_result thrown) tu" where
  "tg_upload_file E run_pool path config on_progress = do {
     started \<leftarrow> aloof (te_steady E);
     (case uc_chat_id config of
        None \<Rightarrow> State_Monad.return (Inr (Inl (mk_error EC_InvalidArgument ''telegram_uploader: UploadConfig.chat_id is required'')))
      | Some chat \<Rightarrow> do {
          D \<leftarrow> disk_of;
          (if D path = None then State_Monad.return (Inr (Inl (mk_error EC_NotFound (''telegram_uploader: file not found: '' @ path))))
           else case tg_file_size E D path of
               Inl m \<Rightarrow> State_Monad.return (Inr (Inl (mk_error EC_FileSystem (''telegram_uploader: file_size failed: '' @ m))))
             | Inr n \<Rightarrow> do {
                 c \<leftarrow> aloof (te_cancelled E);
                 (if c then State_Monad.return (Inr (Inl tg_cancelled))
                  else if n \<le> uc_split_size config then do {
                    r \<leftarrow> send_whole E chat path n config on_progress;
                    upload_done E started r
                  } else do {
                    split \<leftarrow> split_on_disk E path (uc_split_size config);
                    (case split of
                       Inl x \<Rightarrow> State_Monad.return (Inl x)
                     | Inr (Inl e) \<Rightarrow> State_Monad.return (Inr (Inl e))
                     | Inr (Inr parts) \<Rightarrow> do {
                         r \<leftarrow> send_parts E run_pool chat (path_filename path) n (uc_thumbnail_path config) parts on_progress;
                         upload_done E started r
                       })
                  })
               })
        })
   }"

subsection \<open>Directories\<close>

text \<open>Paths are compared by their components.\<close>

function path_parts :: "string \<Rightarrow> string list" where
  "path_parts p = (case dropWhile (\<lambda>c. c = CHR ''/'') p of [] \<Rightarrow> []
     | x # xs \<Rightarrow> takeWhile (\<lambda>c. c \<noteq> CHR ''/'') (x # xs) # path_parts (dropWhile (\<lambda>c. c \<noteq> CHR ''/'') xs))"
  by auto

termination
proof (relation "measure length")
  fix p x xs
  assume "dropWhile (\<lambda>c. c = CHR ''/'') p = x # xs"
  then have "length xs < length p" using length_dropWhile_le [of "\<lambda>c. c = CHR ''/''" p] by simp
  then show "(dropWhile (\<lambda>c. c \<noteq> CHR ''/'') xs, p) \<in> measure length"
    using length_dropWhile_le [of "\<lambda>c. c \<noteq> CHR ''/''" xs] by simp
qed simp

declare path_parts.simps [simp del]

definition tg_file_parallelism :: "telegram_config \<Rightarrow> int \<Rightarrow> int" where
  "tg_file_parallelism cfg n = min (max (tg_upload_files_parallelism cfg) 1) n"

definition tg_file_pool :: "'w tg_env \<Rightarrow> nat \<Rightarrow> (upload_result, upload_result list) pool_spec" where
  "tg_file_pool E n =
     \<lparr>sp_workers = nat (tg_file_parallelism (te_config E) (int n)), sp_items = n, sp_start_error = (\<lambda>_. False),
      sp_cancel_error = Some tg_cancelled, sp_recheck = False, sp_answers = (\<lambda>_ _. True), sp_judge = (\<lambda>i r rs. Inr (rs @ [r]))\<rparr>"

text \<open>\<open>walk\<close> gives the regular files below a directory; an error of the iterator only ends it.\<close>

definition tg_upload_directory ::
    "'w tg_env \<Rightarrow> (string \<Rightarrow> ('w, bool) tu) \<Rightarrow> (string \<Rightarrow> ('w, string list) tu) \<Rightarrow>
     ((upload_result, upload_result list) pool_spec \<Rightarrow> string list \<Rightarrow> ('w, (upload_result, upload_result list) work_pool) tu) \<Rightarrow>
     string \<Rightarrow> ('w, upload_result list res) tu" where
  "tg_upload_directory E is_directory walk run_pool path = do {
     d \<leftarrow> is_directory path;
     (if \<not> d then State_Monad.return (Inl (mk_error EC_InvalidArgument (''telegram_uploader: not a directory: '' @ path)))
      else do {
        found \<leftarrow> walk path;
        let files = sort_key path_parts found;
        (if files = [] then State_Monad.return (Inr [])
         else do {
           st \<leftarrow> run_pool (tg_file_pool E (length files)) files;
           State_Monad.return (case wp_first_error st of Some e \<Rightarrow> Inl e | None \<Rightarrow> Inr (wp_collected st))
         })
      })
   }"

end
