(* ===== verification/Telegram_Parts.thy ===== *)
theory Telegram_Parts
  imports Telegram_Uploader
begin

text \<open>
  What the leech adapter guarantees: the parts of a split file put together are the file, a file that was uploaded in parts was sent
  completely and only once, and its parts do not stay behind.
\<close>

subsection \<open>Splitting\<close>

lemma copy_part_body:
  assumes "\<And>n. writable n" "0 < buf" "good \<or> rest = []"
  shows "\<exists>g. copy_part buf writable remaining rest good acc = (True, drop remaining rest, g, acc @ take remaining rest) \<and>
     (g \<or> drop remaining rest = [])"
  using assms
proof (induction buf writable remaining rest good acc rule: copy_part.induct)
  case (1 buf writable remaining rest good acc)
  show ?case
  proof (cases "0 < remaining \<and> good \<and> rest \<noteq> []")
    case False
    with "1.prems" show ?thesis by (subst copy_part.simps) (auto simp: Let_def)
  next
    case True
    define k where "k = min remaining buf"
    have got: "take k rest \<noteq> []" and k: "k \<le> remaining" using True "1.prems" by (auto simp: k_def)
    have len: "length (take k rest) = min (length rest) k" by simp
    have ex: "\<exists>g. copy_part buf writable (remaining - length (take k rest)) (drop k rest) (length (take k rest) = k) (acc @ take k rest) =
        (True, drop (remaining - length (take k rest)) (drop k rest), g, (acc @ take k rest) @ take (remaining - length (take k rest)) (drop k rest)) \<and>
        (g \<or> drop (remaining - length (take k rest)) (drop k rest) = [])"
      by (rule "1.IH" [OF _ k_def refl refl refl]) (use True got "1.prems" in auto)
    have rest: "drop (remaining - length (take k rest)) (drop k rest) = drop remaining rest"
      "take k rest @ take (remaining - length (take k rest)) (drop k rest) = take remaining rest"
      using k by (cases "k \<le> length rest"; simp add: min_def flip: take_add)+
    show ?thesis
      using ex True got "1.prems"(1) unfolding append_assoc rest
      by (subst copy_part.simps) (simp add: Let_def k_def)
  qed
qed

fun pieces :: "nat \<Rightarrow> nat \<Rightarrow> 'a list \<Rightarrow> 'a list list" where
  "pieces c 0 xs = []"
| "pieces c (Suc m) xs = take c xs # pieces c m (drop c xs)"

lemma length_pieces [simp]: "length (pieces c m xs) = m"
  by (induction c m xs rule: pieces.induct) simp_all

lemma concat_pieces: "concat (pieces c m xs) = take (m * c) xs"
  by (induction c m xs rule: pieces.induct) (simp_all add: take_add)

lemma nth_pieces: "j < m \<Longrightarrow> pieces c m xs ! j = take c (drop (j * c) xs)"
proof (induction c m xs arbitrary: j rule: pieces.induct)
  case (2 c m xs)
  then show ?case by (cases j) (simp_all add: add.commute)
qed simp

text \<open>No operation on the disk fails.\<close>

definition sound_disk :: "'w tg_env \<Rightarrow> bool" where
  "sound_disk E = (te_stat_error E = (\<lambda>_. None) \<and> te_creatable E = (\<lambda>_. True) \<and> te_writable E = (\<lambda>_ _. True) \<and> te_removable E = (\<lambda>_. True))"

lemma make_parts_pieces:
  assumes "sound_disk E" "good \<or> rest = []"
  shows "make_parts E src chunk is rest good parts D =
    (Inr (parts @ map (part_path src) is), D(map (part_path src) is [\<mapsto>] pieces chunk (length is) rest))"
  using assms(2)
proof (induction "is" arbitrary: rest good parts D)
  case (Cons i "is")
  have "te_writable E (part_path src i) n" for n using assms(1) by (simp add: sound_disk_def)
  from copy_part_body [of "te_writable E (part_path src i)", OF this _ Cons.prems, of kSplitStreamBuffer chunk "[]"]
  obtain g where "copy_part kSplitStreamBuffer (te_writable E (part_path src i)) chunk rest good [] = (True, drop chunk rest, g, take chunk rest)"
    and "g \<or> drop chunk rest = []"
    by (auto simp: kSplitStreamBuffer_def)
  with Cons.IH [of g "drop chunk rest"] assms(1) show ?case by (simp add: sound_disk_def Let_def)
qed simp

lemma int32_small: "0 \<le> x \<Longrightarrow> x < 2 ^ 31 \<Longrightarrow> int32_of x = x"
  by (simp add: int32_of_def)

text \<open>The number of parts of a file.\<close>

definition parts_of :: "nat \<Rightarrow> nat \<Rightarrow> nat" where
  "parts_of n c = (n + c - 1) div c"

lemma parts_of_covers: "0 < c \<Longrightarrow> n \<le> parts_of n c * c"
proof -
  assume c: "0 < c"
  have "n + c - 1 < Suc ((n + c - 1) div c) * c" using c dividend_less_times_div [of c "n + c - 1"] by (simp add: mult.commute)
  then show ?thesis using c by (simp add: parts_of_def)
qed

lemma parts_of_needed: "0 < c \<Longrightarrow> j < parts_of n c \<Longrightarrow> j * c < n"
proof -
  assume c: "0 < c" and "j < parts_of n c"
  then have "Suc j * c \<le> ((n + c - 1) div c) * c" by (intro mult_le_mono1) (simp add: parts_of_def)
  also have "\<dots> \<le> n + c - 1" by simp
  finally show ?thesis using c by simp
qed

lemma chunk_count_parts:
  assumes "0 < c" "parts_of n c < 2 ^ 31"
  shows "chunk_count (int n) (int c) = int (parts_of n c)"
proof -
  have "(int n + int c - 1) div int c = int (parts_of n c)"
    using assms(1) by (simp add: parts_of_def zdiv_int of_nat_diff)
  with assms(2) show ?thesis by (simp add: chunk_count_def int32_small)
qed

lemma split_pieces:
  assumes "sound_disk E" "D src = Some content" "0 < c" "parts_of (length content) c < 2 ^ 31"
  shows "split_file E src (int c) D =
    (Inr (Inr (map (part_path src) [0..<parts_of (length content) c])),
     D(map (part_path src) [0..<parts_of (length content) c] [\<mapsto>] pieces c (parts_of (length content) c) content))"
proof -
  have "tg_file_size E D src = Inr (int (length content))" using assms(1,2) by (simp add: tg_file_size_def sound_disk_def)
  with assms show ?thesis by (simp add: split_file_def chunk_count_parts make_parts_pieces)
qed

lemma upds_other: "p \<notin> set xs \<Longrightarrow> (m(xs [\<mapsto>] ys)) p = m p"
  by (simp add: map_upds_apply_nontin)

lemma upds_nth: "distinct xs \<Longrightarrow> length xs = length ys \<Longrightarrow> j < length xs \<Longrightarrow> (m(xs [\<mapsto>] ys)) (xs ! j) = Some (ys ! j)"
proof (induction xs arbitrary: m ys j)
  case (Cons x xs)
  then obtain y ys' where "ys = y # ys'" by (cases ys) auto
  with Cons show ?case by (cases j) (auto simp: upds_other)
qed simp

subsection \<open>Sending the parts\<close>

text \<open>What the accepted answers of the part workers make of the slots.\<close>

definition well_sent :: "nat \<Rightarrow> (nat \<times> part_answer) list \<Rightarrow> part_results \<Rightarrow> bool" where
  "well_sent n xs c =
     (length (pr_ids c) = n \<and> length (pr_sizes c) = n \<and> pr_uploaded c = sum_list (map (\<lambda>(i, part_size, mid, now). part_size) xs) \<and>
      (distinct (map fst xs) \<longrightarrow>
        (\<forall>(i, part_size, mid, now) \<in> set xs. i < n \<longrightarrow> pr_ids c ! i = Some mid \<and> pr_sizes c ! i = part_size)))"

lemma judge_part_sel:
  assumes "judge_part b i (part_size, mid, now) c = Inr c'"
  shows "pr_ids c' = (pr_ids c)[i := Some mid]" "pr_sizes c' = (pr_sizes c)[i := part_size]" "pr_uploaded c' = pr_uploaded c + part_size"
  using assms by (auto simp: judge_part_def Let_def split: if_splits)

lemma well_sent_judge:
  assumes "well_sent n xs c" "judge_part b i v c = Inr c'"
  shows "well_sent n ((i, v) # xs) c'"
proof -
  obtain part_size mid now where v: "v = (part_size, mid, now)" by (rule prod_cases3)
  note sel = judge_part_sel [OF assms(2) [unfolded v]]
  have "\<forall>(j, s, m, t) \<in> set ((i, v) # xs). j < n \<longrightarrow> pr_ids c' ! j = Some m \<and> pr_sizes c' ! j = s" if d: "distinct (map fst ((i, v) # xs))"
  proof (intro ballI, clarify)
    fix j s m t
    assume m: "(j, s, m, t) \<in> set ((i, v) # xs)" and j: "j < n"
    show "pr_ids c' ! j = Some m \<and> pr_sizes c' ! j = s"
    proof (cases "j = i")
      case True
      with m d have "(s, m, t) = v" by (force simp: v)
      with True j assms(1) show ?thesis by (simp add: sel well_sent_def v)
    next
      case False
      with m have "(j, s, m, t) \<in> set xs" by simp
      with j d assms(1) have "pr_ids c ! j = Some m \<and> pr_sizes c ! j = s" by (auto simp: well_sent_def)
      with False show ?thesis by (simp add: sel)
    qed
  qed
  with assms(1) show ?thesis by (simp add: well_sent_def sel v)
qed

lemma parts_collected:
  "case accepted (part_pool E b sizes) (no_parts_sent (length sizes) now) tr of (xs, c) \<Rightarrow> well_sent (length sizes) xs c"
proof (induction tr)
  case Nil
  then show ?case by (simp add: well_sent_def no_parts_sent_def)
next
  case (Cons e tr)
  show ?case
  proof (cases e)
    case (PE_Judged w i v)
    with Cons show ?thesis
      by (auto simp: part_pool_def intro: well_sent_judge split: prod.splits sum.splits)
  qed (use Cons in simp_all)
qed

text \<open>When the parent goes on without an error, every part was sent once.\<close>

definition parts_sent :: "'w tg_env \<Rightarrow> bool \<Rightarrow> int list \<Rightarrow> string \<times> int \<Rightarrow> bool" where
  "parts_sent E b sizes result =
     (\<exists>now tr st ids. pool_run (part_pool E b sizes) (no_parts_sent (length sizes) now) tr st \<and> (\<forall>w. gone st w) \<and>
        rev (claims (length sizes) tr) = [0..<length sizes] \<and>
        set (accepted_items (part_pool E b sizes) (no_parts_sent (length sizes) now) tr) = {..<length sizes} \<and>
        length ids = length sizes \<and>
        (\<forall>(i, part_size, mid, t) \<in> set (fst (accepted (part_pool E b sizes) (no_parts_sent (length sizes) now) tr)).
           part_size = sizes ! i \<and> mid = ids ! i) \<and>
        result = (int_to_string (ids ! 0), sum_list sizes))"

lemma int_to_string_filled [simp]: "int_to_string i \<noteq> []"
  by (simp add: int_to_string_def)

lemma sum_parts_all:
  "length ids = length sizes \<Longrightarrow> sum_parts i (zip (map Some ids) sizes) (fid, n) =
     Inr (if fid = [] \<and> ids \<noteq> [] then int_to_string (ids ! 0) else fid, n + sum_list sizes)"
proof (induction ids sizes arbitrary: i fid n rule: list_induct2)
  case (Cons m ids s sizes)
  then show ?case by (simp add: add.assoc)
qed simp

lemma parts_sent_joined:
  fixes E :: "'w tg_env" and b sizes now
  defines "S \<equiv> part_pool E b sizes" and "r \<equiv> no_parts_sent (length sizes) now"
  assumes some: "sizes \<noteq> []" and run: "pool_run S r tr st" and woken: "wp_parent st = PP_Woken" and quiet: "undisturbed tr"
    and fin: "finish_parts st = Inr result"
  shows "parts_sent E b sizes result"
proof -
  let ?n = "length sizes"
  have good: "wp_first_error st = None" using fin by (simp add: finish_parts_def split: option.splits)
  have items: "sp_items S = ?n" and workers: "0 < sp_workers S"
    using some by (simp_all add: S_def part_pool_def part_parallelism_def less_max_iff_disj)
  note joined = pool_joined [OF run woken quiet workers]
  have d: "distinct (accepted_items S r tr)" and s: "set (accepted_items S r tr) = {..<?n}" using joined(4) [OF good] by (simp_all add: items)
  define xs where "xs = fst (accepted S r tr)"
  define c where "c = wp_collected st"
  have acc: "accepted S r tr = (xs, c)" using joined(3) by (simp add: xs_def c_def prod_eq_iff)
  have well: "well_sent ?n xs c" using parts_collected [where E = E and b = b and sizes = sizes and now = now and tr = tr] by (simp add: S_def [symmetric] r_def [symmetric] acc)
  have fst_xs: "map fst xs = accepted_items S r tr" by (simp add: accepted_items_def xs_def)
  have range: "i < ?n" if "(i, k, m, t) \<in> set xs" for i k m t
    using imageI [OF that, of fst] s fst_xs by (simp flip: set_map)
  have slot: "pr_ids c ! i = Some m \<and> pr_sizes c ! i = k" if "(i, k, m, t) \<in> set xs" for i k m t
  proof -
    have "i < ?n" by (rule range [OF that])
    with well that d fst_xs show ?thesis by (auto simp: well_sent_def)
  qed
  have answer: "k = sizes ! i" if "(i, k, m, t) \<in> set xs" for i k m t
    using run_accepted [OF run, of i "(k, m, t)"] that by (simp add: xs_def S_def part_pool_def)
  have each: "\<exists>k m t. (i, k, m, t) \<in> set xs" if "i < ?n" for i
  proof -
    have "i \<in> set (map fst xs)" using that s fst_xs by simp
    then show ?thesis by force
  qed
  define ids where "ids = map (\<lambda>i. the (pr_ids c ! i)) [0..<?n]"
  have ids: "pr_ids c = map Some ids" and sz: "pr_sizes c = sizes"
  proof -
    have len: "length (pr_ids c) = ?n" "length (pr_sizes c) = ?n" using well by (simp_all add: well_sent_def)
    have at: "pr_ids c ! i = Some (the (pr_ids c ! i)) \<and> pr_sizes c ! i = sizes ! i" if i: "i < ?n" for i
    proof -
      obtain k m t where "(i, k, m, t) \<in> set xs" using each [OF i] by blast
      from slot [OF this] answer [OF this] show ?thesis by simp
    qed
    show "pr_ids c = map Some ids" by (rule nth_equalityI) (use at len in \<open>simp_all add: ids_def\<close>)
    show "pr_sizes c = sizes" by (rule nth_equalityI) (use at len in simp_all)
  qed
  have mid: "m = ids ! i" if "(i, k, m, t) \<in> set xs" for i k m t
  proof -
    have "i < ?n" by (rule range [OF that])
    then show ?thesis using slot [OF that] by (simp add: ids_def)
  qed
  have len: "length ids = ?n" by (simp add: ids_def)
  have "result = (int_to_string (ids ! 0), sum_list sizes)"
    using fin good some len by (auto simp: finish_parts_def c_def [symmetric] ids sz sum_parts_all)
  moreover have "rev (claims ?n tr) = [0..<?n]"
  proof -
    have "?n - 1 \<in> set (accepted_items S r tr)" using s some by (cases sizes) simp_all
    then have "claimed S st (?n - 1)" using run_items [OF run] by (simp add: item_inv_def items_once_def)
    then have "sp_items S \<le> wp_next_index st" using some by (auto simp: claimed_def items)
    with run_claims [OF run] show ?thesis by (simp add: items min_absorb2)
  qed
  moreover have "\<forall>(i, part_size, mid, t) \<in> set xs. part_size = sizes ! i \<and> mid = ids ! i" using mid answer by blast
  moreover have "\<forall>w. gone st w" using joined(2) by blast
  ultimately show ?thesis
    unfolding parts_sent_def S_def [symmetric]
    by (intro exI [of _ now] exI [of _ tr] exI [of _ st] exI [of _ ids])
      (use run s len in \<open>simp add: r_def [symmetric] xs_def [symmetric]\<close>)
qed

text \<open>The runner gives the state in which the parent went on; nobody was cancelled.\<close>

definition joins_parts :: "'w part_runner \<Rightarrow> 'w tg_env \<Rightarrow> bool \<Rightarrow> int list \<Rightarrow> bool" where
  "joins_parts run_pool E b sizes =
     (\<forall>msg now w. \<exists>tr. pool_run (part_pool E b sizes) (no_parts_sent (length sizes) now) tr
          (fst (run_state (run_pool (part_pool E b sizes) msg (no_parts_sent (length sizes) now)) w)) \<and>
        wp_parent (fst (run_state (run_pool (part_pool E b sizes) msg (no_parts_sent (length sizes) now)) w)) = PP_Woken \<and> undisturbed tr)"

lemma wp_aloof: "(\<And>w'. Q (fst (run_state f w)) (D, w')) \<Longrightarrow> wp (aloof f) Q (D, w)"
  by (auto simp: wp_def aloof_def split: prod.splits)

lemma wp_tell: "(\<And>w'. Q () (D, w')) \<Longrightarrow> wp (tell p name n sent part parts) Q (D, w)"
  by (cases p) (auto simp: tell_def intro!: wp_aloof)

lemma wp_disk [simp]:
  "wp disk_of Q (D, w) = Q D (D, w)" "wp (remove_parts E parts) R (D, w) = R () (D |` (- {p \<in> set parts. te_removable E p}), w)"
  "wp (split_on_disk E path chunk) P (D, w) = (case split_file E path chunk D of (r, D') \<Rightarrow> P r (D', w))"
  by (simp_all add: wp_def disk_of_def remove_parts_def split_on_disk_def split: prod.split)

lemma wp_upload_done:
  "(\<And>e. r = Inl e \<Longrightarrow> Q (Inr (Inl e)) (D, w)) \<Longrightarrow>
   (\<And>fid n d w'. r = Inr (fid, n) \<Longrightarrow> Q (Inr (Inr \<lparr>ur_file_id = fid, ur_link = [], ur_size = n, ur_duration = d\<rparr>)) (D, w')) \<Longrightarrow>
   wp (upload_done E started r) Q (D, w)"
  by (cases r) (auto simp: upload_done_def intro!: wp_aloof)

lemma wp_send_parts:
  assumes "sizes = part_sizes D parts" "parts \<noteq> []" "joins_parts run_pool E (on_progress \<noteq> None) sizes"
    and Q: "\<And>r w'. (\<And>res. r = Inr res \<Longrightarrow> parts_sent E (on_progress \<noteq> None) sizes res) \<Longrightarrow>
      Q r (D |` (- {p \<in> set parts. te_removable E p}), w')"
  shows "wp (send_parts E run_pool chat name n thumb parts on_progress) Q (D, w)"
  unfolding send_parts_def wp_bind
proof (rule wp_aloof, simp only: wp_disk assms(1) [symmetric], rule wp_aloof)
  fix now w1 w2
  have len: "length parts = length sizes" by (simp add: assms(1) part_sizes_def)
  define st where "st = fst (run_state (run_pool (part_pool E (on_progress \<noteq> None) sizes) (part_message chat name thumb parts)
     (no_parts_sent (length parts) (fst (run_state (te_steady E) w)))) w1)"
  obtain tr where run: "pool_run (part_pool E (on_progress \<noteq> None) sizes) (no_parts_sent (length sizes) (fst (run_state (te_steady E) w))) tr st"
    and woken: "wp_parent st = PP_Woken" and quiet: "undisturbed tr"
    using assms(3) unfolding joins_parts_def st_def len by blast
  have some: "sizes \<noteq> []" using assms(1,2) by (simp add: part_sizes_def)
  show "wp (case finish_parts st of
      Inl e \<Rightarrow> do { _ \<leftarrow> remove_parts E parts; State_Monad.return (Inl e) }
    | Inr (fid, sent) \<Rightarrow> do {
        _ \<leftarrow> tell on_progress name n sent (length parts) (length parts);
        _ \<leftarrow> remove_parts E parts;
        State_Monad.return (Inr (fid, sent))
      }) Q (D, w2)"
  proof (cases "finish_parts st")
    case (Inl e)
    then show ?thesis using Q [of "Inl e"] by simp
  next
    case (Inr res)
    have "parts_sent E (on_progress \<noteq> None) sizes res" by (rule parts_sent_joined [OF some run woken quiet Inr])
    then show ?thesis using Q [of "Inr res"] by (cases res) (auto simp: Inr intro!: wp_tell)
  qed
qed

text \<open>The names and the sizes of the parts of a file.\<close>

definition part_names :: "string \<Rightarrow> nat \<Rightarrow> string \<Rightarrow> string list" where
  "part_names path c content = map (part_path path) [0..<parts_of (length content) c]"

definition part_lengths :: "nat \<Rightarrow> string \<Rightarrow> int list" where
  "part_lengths c content = map (\<lambda>b. int (length b)) (pieces c (parts_of (length content) c) content)"

lemma part_names_distinct: "distinct (part_names path c content)"
  by (simp add: part_names_def distinct_map inj_on_def)

lemma sum_lengths: "sum_list (map (\<lambda>b. int (length b)) xs) = int (length (concat xs))"
  by (induction xs) simp_all

lemma part_lengths_sum: "0 < c \<Longrightarrow> sum_list (part_lengths c content) = int (length content)"
  using parts_of_covers [of c "length content"] by (simp add: part_lengths_def sum_lengths concat_pieces)

lemma parts_sent_sum: "parts_sent E b sizes (fid, n) \<Longrightarrow> n = sum_list sizes"
  by (auto simp: parts_sent_def)

lemma restrict_upds:
  assumes "set xs \<subseteq> A"
  shows "(D(xs [\<mapsto>] ys)) |` (- A) = D |` (- A)"
proof
  fix p
  have "p \<notin> A \<Longrightarrow> p \<notin> set xs" using assms by blast
  then show "((D(xs [\<mapsto>] ys)) |` (- A)) p = (D |` (- A)) p"
    by (cases "p \<in> A") (simp_all add: upds_other)
qed

lemma part_sizes_split:
  "part_sizes (D(part_names path c content [\<mapsto>] pieces c (parts_of (length content) c) content)) (part_names path c content) = part_lengths c content"
proof (rule nth_equalityI)
  fix j
  assume "j < length (part_sizes (D(part_names path c content [\<mapsto>] pieces c (parts_of (length content) c) content)) (part_names path c content))"
  then have j: "j < parts_of (length content) c" by (simp add: part_sizes_def part_names_def)
  have "(D(part_names path c content [\<mapsto>] pieces c (parts_of (length content) c) content)) (part_names path c content ! j) =
      Some (pieces c (parts_of (length content) c) content ! j)"
    by (rule upds_nth [OF part_names_distinct]) (use j in \<open>simp_all add: part_names_def\<close>)
  with j show "part_sizes (D(part_names path c content [\<mapsto>] pieces c (parts_of (length content) c) content)) (part_names path c content) ! j =
      part_lengths c content ! j"
    by (simp add: part_sizes_def part_lengths_def part_names_def)
qed (simp add: part_sizes_def part_lengths_def part_names_def)

lemma wp_large_file:
  assumes disk: "sound_disk E" and content: "D path = Some content"
    and config: "uc_chat_id config = Some chat" "uc_split_size config = int c"
    and c: "0 < c" "c < length content" "parts_of (length content) c < 2 ^ 31"
    and joins: "joins_parts run_pool E (on_progress \<noteq> None) (part_lengths c content)"
    and early: "\<And>e w'. Q (Inr (Inl e)) (D, w')"
    and failed: "\<And>e w'. Q (Inr (Inl e)) (D |` (- set (part_names path c content)), w')"
    and sent: "\<And>fid d w'. parts_sent E (on_progress \<noteq> None) (part_lengths c content) (fid, int (length content)) \<Longrightarrow>
      Q (Inr (Inr \<lparr>ur_file_id = fid, ur_link = [], ur_size = int (length content), ur_duration = d\<rparr>)) (D |` (- set (part_names path c content)), w')"
  shows "wp (tg_upload_file E run_pool path config on_progress) Q (D, w)"
proof -
  let ?parts = "part_names path c content"
  let ?D = "D(?parts [\<mapsto>] pieces c (parts_of (length content) c) content)"
  have size: "tg_file_size E D path = Inr (int (length content))" using disk content by (simp add: tg_file_size_def sound_disk_def)
  have split: "split_file E path (int c) D = (Inr (Inr ?parts), ?D)"
    unfolding part_names_def by (rule split_pieces [of E D path content c]) (use disk content c in simp_all)
  have removed: "?D |` (- {p \<in> set ?parts. te_removable E p}) = D |` (- set ?parts)"
    using disk by (simp add: sound_disk_def restrict_upds)
  have "?parts \<noteq> []" using parts_of_covers [OF c(1), of "length content"] c by (cases "parts_of (length content) c") (simp_all add: part_names_def)
  note parts = wp_send_parts [OF part_sizes_split [symmetric] this joins]
  have rest: "wp (send_parts E run_pool chat (path_filename path) (int (length content)) (uc_thumbnail_path config) ?parts on_progress)
      (\<lambda>r. wp (upload_done E started r) Q) (?D, w')" for started w'
  proof (rule parts, unfold removed, rule wp_upload_done)
    fix r :: "(string \<times> int) res" and w' fid n d w2
    assume r: "\<And>res. r = Inr res \<Longrightarrow> parts_sent E (on_progress \<noteq> None) (part_lengths c content) res" and "r = Inr (fid, n)"
    then have p: "parts_sent E (on_progress \<noteq> None) (part_lengths c content) (fid, n)" by simp
    then have "n = int (length content)" using parts_sent_sum part_lengths_sum [OF c(1)] by metis
    with p show "Q (Inr (Inr \<lparr>ur_file_id = fid, ur_link = [], ur_size = n, ur_duration = d\<rparr>)) (D |` (- set ?parts), w2)"
      using sent by simp
  qed (rule failed)
  have "\<not> int (length content) \<le> uc_split_size config" using c config by simp
  then show ?thesis
    unfolding tg_upload_file_def wp_bind
    by (intro wp_aloof) (auto simp: config content size split early rest intro!: wp_aloof)
qed

subsection \<open>Properties\<close>

text \<open>A sound disk, with a messenger that always answers with the same message.\<close>

definition still_disk :: "unit tg_env" where
  "still_disk = \<lparr>te_config = default_telegram_config, te_stat_error = (\<lambda>_. None), te_creatable = (\<lambda>_. True), te_writable = (\<lambda>_ _. True),
     te_removable = (\<lambda>_. True), te_cancelled = State (\<lambda>w. (False, w)), te_steady = State (\<lambda>w. (0, w)), te_send = (\<lambda>_ _ _ _. State (\<lambda>w. (Inr 7, w)))\<rparr>"

lemma still_disk_sound: "sound_disk still_disk"
  by (simp add: sound_disk_def still_disk_def)

text \<open>
  C30. Splitting a file on a sound disk makes numbered parts next to it whose contents, put together in the order of their names,
  are the file; every part holds at most the split size and at least one byte, and no other file is touched.
\<close>
theorem tg_split_roundtrip:
  assumes "sound_disk E" "D src = Some content" "0 < c" "parts_of (length content) c < 2 ^ 31"
  shows "\<exists>parts D'. split_file E src (int c) D = (Inr (Inr parts), D') \<and>
    parts = map (part_path src) [0..<parts_of (length content) c] \<and> distinct parts \<and>
    concat (map (\<lambda>p. the (D' p)) parts) = content \<and>
    (\<forall>p \<in> set parts. 0 < length (the (D' p)) \<and> length (the (D' p)) \<le> c) \<and> (\<forall>p. p \<notin> set parts \<longrightarrow> D' p = D p)"
proof -
  define m where "m = parts_of (length content) c"
  define parts where "parts = map (part_path src) [0..<m]"
  define D' where "D' = D(parts [\<mapsto>] pieces c m content)"
  have split: "split_file E src (int c) D = (Inr (Inr parts), D')"
    unfolding parts_def D'_def m_def by (rule split_pieces [of E D src content c]) (use assms in simp_all)
  have d: "distinct parts" by (simp add: parts_def distinct_map inj_on_def)
  have at: "D' (parts ! j) = Some (pieces c m content ! j)" if "j < m" for j
    unfolding D'_def by (rule upds_nth) (use d that in \<open>simp_all add: parts_def\<close>)
  have "map (\<lambda>p. the (D' p)) parts = pieces c m content"
    by (rule nth_equalityI) (use at in \<open>simp_all add: parts_def\<close>)
  then have whole: "concat (map (\<lambda>p. the (D' p)) parts) = content"
    using parts_of_covers [OF assms(3), of "length content"] by (simp add: concat_pieces m_def)
  have "0 < length (the (D' p)) \<and> length (the (D' p)) \<le> c" if "p \<in> set parts" for p
  proof -
    obtain j where "j < m" "p = parts ! j" using \<open>p \<in> set parts\<close> by (auto simp: in_set_conv_nth parts_def)
    then show ?thesis
      using at parts_of_needed [OF assms(3), of j "length content"] assms(3) by (simp add: nth_pieces m_def)
  qed
  moreover have "D' p = D p" if "p \<notin> set parts" for p using that by (simp add: D'_def upds_other)
  ultimately show ?thesis using split d whole parts_def m_def by blast
qed


theorem tg_split_roundtrip_witness:
  "\<exists>D'. split_file still_disk ''f'' 2 [''f'' \<mapsto> ''abc''] = (Inr (Inr [part_path ''f'' 0, part_path ''f'' 1]), D') \<and>
     the (D' (part_path ''f'' 0)) @ the (D' (part_path ''f'' 1)) = ''abc''"
proof -
  have "parts_of (length ''abc'') 2 = 2" by (simp add: parts_of_def)
  then obtain parts D' where "split_file still_disk ''f'' (int 2) [''f'' \<mapsto> ''abc''] = (Inr (Inr parts), D')"
    "parts = map (part_path ''f'') [0..<2]" "concat (map (\<lambda>p. the (D' p)) parts) = ''abc''"
    using tg_split_roundtrip [of still_disk "[''f'' \<mapsto> ''abc'']" "''f''" "''abc''" 2] still_disk_sound by auto
  moreover have "[0..<2] = [0, 1 :: nat]" by code_simp
  ultimately show ?thesis by (intro exI [of _ D']) simp
qed


text \<open>Two workers, the second of which finds nothing left.\<close>

definition two_parts_history :: "part_answer pool_event list" where
  "two_parts_history = [PE_Exit 0, PE_Claim 0 3, PE_Step 0, PE_Step 0, PE_Exit 1, PE_Claim 1 2, PE_Step 1, PE_Step 1,
     PE_Judged 0 1 (1, 9, 0), PE_Step 0, PE_Answer 0 1 (1, 9, 0), PE_Judged 1 0 (2, 8, 0), PE_Step 1, PE_Answer 1 0 (2, 8, 0), PE_Claim 0 1, PE_Step 0, PE_Step 0,
     PE_Step 0, PE_Claim 1 0, PE_Step 1, PE_Step 1, PE_Step 1, PE_Wait]"

definition replay_parts :: "unit part_runner" where
  "replay_parts S msg r = State (\<lambda>w. (case pool_replay S r two_parts_history of Some st \<Rightarrow> st | None \<Rightarrow> spawn_pool S r, w))"

lemma two_parts_spec:
  "sp_workers (part_pool still_disk False [2, 1]) = 2" "sp_items (part_pool still_disk False [2, 1]) = 2"
  "sp_recheck (part_pool still_disk False [2, 1]) = False"
  "sp_answers (part_pool still_disk False [2, 1]) = (\<lambda>i (part_size, mid, now). part_size = [2, 1] ! i)"
  "sp_judge (part_pool still_disk False [2, 1]) = judge_part False"
  by (simp_all add: part_pool_def part_parallelism_def still_disk_def default_telegram_config_def)

lemma two_parts_replayed:
  "case pool_replay (part_pool still_disk False [2, 1]) (no_parts_sent 2 now) two_parts_history of None \<Rightarrow> False | Some st \<Rightarrow> wp_parent st = PP_Woken"
  by (simp add: two_parts_history_def spawn_pool_def goto_def step_defs two_parts_spec judge_part_def)

lemma replay_parts_joins: "joins_parts replay_parts still_disk False [2, 1]"
  unfolding joins_parts_def
proof (intro allI)
  fix msg :: "nat \<Rightarrow> chat_id \<times> string \<times> string \<times> string option" and now and w :: unit
  obtain st where st: "pool_replay (part_pool still_disk False [2, 1]) (no_parts_sent 2 now) two_parts_history = Some st"
    and woken: "wp_parent st = PP_Woken"
    using two_parts_replayed [of now] by (cases "pool_replay (part_pool still_disk False [2, 1]) (no_parts_sent 2 now) two_parts_history") simp_all
  have "undisturbed two_parts_history" by (simp add: undisturbed_def two_parts_history_def)
  with pool_replay_run [OF st] woken show "\<exists>tr. pool_run (part_pool still_disk False [2, 1]) (no_parts_sent (length [2, 1 :: int]) now) tr
          (fst (run_state (replay_parts (part_pool still_disk False [2, 1]) msg (no_parts_sent (length [2, 1 :: int]) now)) w)) \<and>
        wp_parent (fst (run_state (replay_parts (part_pool still_disk False [2, 1]) msg (no_parts_sent (length [2, 1 :: int]) now)) w)) = PP_Woken \<and> undisturbed tr"
    by (intro exI [of _ two_parts_history]) (simp add: replay_parts_def st numeral_2_eq_2 [symmetric])
qed


text \<open>
  The parts that were written before one fails stay on the disk: they are removed only once all of them exist.
\<close>
theorem tg_failed_split_leaks:
  "\<exists>E D'. fst (run_state (tg_upload_file E replay_parts ''f'' (default_upload_config\<lparr>uc_chat_id := Some (ChatId 5), uc_split_size := 2\<rparr>) None)
       ([''f'' \<mapsto> ''abc''], ())) = Inr (Inl (mk_error EC_Io (''telegram_uploader: cannot create part '' @ part_path ''f'' 1))) \<and>
     fst (snd (run_state (tg_upload_file E replay_parts ''f'' (default_upload_config\<lparr>uc_chat_id := Some (ChatId 5), uc_split_size := 2\<rparr>) None)
       ([''f'' \<mapsto> ''abc''], ()))) = D' \<and> D' (part_path ''f'' 0) = Some ''ab''"
proof -
  define E :: "unit tg_env" where "E = still_disk\<lparr>te_creatable := (\<lambda>p. p \<noteq> part_path ''f'' 1)\<rparr>"
  have sel: "te_cancelled E = State (\<lambda>w. (False, w))" "te_steady E = State (\<lambda>w. (0, w))" "te_stat_error E = (\<lambda>_. None)"
    by (simp_all add: E_def still_disk_def)
  have cp: "copy_part kSplitStreamBuffer (\<lambda>_. True) 2 ''abc'' True [] = (True, ''c'', True, ''ab'')"
    by (subst copy_part.simps, simp add: kSplitStreamBuffer_def Let_def, subst copy_part.simps, simp)
  have "chunk_count 3 2 = 2" by (simp add: chunk_count_def int32_of_def)
  then have "split_file E ''f'' 2 [''f'' \<mapsto> ''abc''] =
      (Inr (Inl (mk_error EC_Io (''telegram_uploader: cannot create part '' @ part_path ''f'' 1))), [''f'' \<mapsto> ''abc'', part_path ''f'' 0 \<mapsto> ''ab''])"
    by (simp add: split_file_def tg_file_size_def E_def still_disk_def upt_rec cp)
  then have run: "run_state (tg_upload_file E replay_parts ''f'' (default_upload_config\<lparr>uc_chat_id := Some (ChatId 5), uc_split_size := 2\<rparr>) None)
       ([''f'' \<mapsto> ''abc''], ()) = (Inr (Inl (mk_error EC_Io (''telegram_uploader: cannot create part '' @ part_path ''f'' 1))),
         [''f'' \<mapsto> ''abc'', part_path ''f'' 0 \<mapsto> ''ab''], ())"
    using sel by (simp add: tg_upload_file_def run_simps aloof_def disk_of_def split_on_disk_def tg_file_size_def)
  show ?thesis
    by (rule exI [of _ E], rule exI [of _ "[''f'' \<mapsto> ''abc'', part_path ''f'' 0 \<mapsto> ''ab'']"]) (simp add: run)
qed

end
