(* ===== verification/Subprocess.thy ===== *)
theory Subprocess
  imports Errors
begin

text \<open>
  The subprocess runner, \<open>src/infrastructure/system/subprocess.cpp\<close>: the line buffer of the output pipes, the quoting of
  arguments for Windows, and the POSIX \<open>spawn_sync\<close> with its drain, wait and kill loops over arbitrary answers of the system. The system
  calls are collaborators; a line that is handed to a callback is kept in a list.
\<close>

subsection \<open>Lines\<close>

definition strip_cr :: "string \<Rightarrow> string" where
  "strip_cr l = (if l \<noteq> [] \<and> last l = CHR 0x0D then butlast l else l)"

text \<open>The loop of \<open>feed\<close>: the complete lines of \<open>pending\<close> and what stays.\<close>

function cut_lines :: "string \<Rightarrow> string list \<times> string" where
  "cut_lines s =
     (case dropWhile (\<lambda>c. c \<noteq> CHR 0x0A) s of
        [] \<Rightarrow> ([], s)
      | _ # rest \<Rightarrow> (case cut_lines rest of (ls, p) \<Rightarrow> (strip_cr (takeWhile (\<lambda>c. c \<noteq> CHR 0x0A) s) # ls, p)))"
  by auto

termination
proof (relation "measure length")
  fix s :: string and c rest
  assume "dropWhile (\<lambda>c. c \<noteq> CHR 0x0A) s = c # rest"
  then show "(rest, s) \<in> measure length" using length_dropWhile_le [of "\<lambda>c. c \<noteq> CHR 0x0A" s] by simp
qed simp

declare cut_lines.simps [simp del]

text \<open>\<open>full\<close> is captured or not, and there is a callback or not.\<close>

record line_slicer =
  sl_capture :: bool
  sl_listening :: bool
  sl_full :: string
  sl_pending :: string
  sl_lines :: "string list"

definition new_slicer :: "bool \<Rightarrow> bool \<Rightarrow> line_slicer" where
  "new_slicer capture listening = \<lparr>sl_capture = capture, sl_listening = listening, sl_full = [], sl_pending = [], sl_lines = []\<rparr>"

definition slicer_feed :: "string \<Rightarrow> line_slicer \<Rightarrow> line_slicer" where
  "slicer_feed chunk s =
     (let s = (if sl_capture s then s\<lparr>sl_full := sl_full s @ chunk\<rparr> else s) in
      if \<not> sl_listening s then s
      else case cut_lines (sl_pending s @ chunk) of (ls, p) \<Rightarrow> s\<lparr>sl_pending := p, sl_lines := sl_lines s @ ls\<rparr>)"

definition slicer_flush :: "line_slicer \<Rightarrow> line_slicer" where
  "slicer_flush s =
     (if \<not> sl_listening s \<or> sl_pending s = [] then s
      else let l = strip_cr (sl_pending s) in
        s\<lparr>sl_lines := (if l \<noteq> [] then sl_lines s @ [l] else sl_lines s), sl_pending := []\<rparr>)"

subsection \<open>Arguments\<close>

text \<open>The loop of \<open>quote_arg_w\<close>; \<open>k\<close> backslashes are pending.\<close>

fun quote_loop :: "nat \<Rightarrow> string \<Rightarrow> string \<times> nat" where
  "quote_loop k [] = ([], k)"
| "quote_loop k (c # s) =
     (if c = CHR 0x5C then quote_loop (Suc k) s
      else if c = CHR 0x22 then apfst (\<lambda>out. replicate (k * 2 + 1) CHR 0x5C @ CHR 0x22 # out) (quote_loop 0 s)
      else apfst (\<lambda>out. replicate k CHR 0x5C @ c # out) (quote_loop 0 s))"

definition needs_quote :: "string \<Rightarrow> bool" where
  "needs_quote arg = (arg = [] \<or> list_ex (\<lambda>c. c = CHR '' '' \<or> c = CHR 0x09 \<or> c = CHR 0x22) arg)"

definition quote_arg_w :: "string \<Rightarrow> string" where
  "quote_arg_w arg =
     (case quote_loop 0 arg of (out, k) \<Rightarrow>
        if needs_quote arg then CHR 0x22 # out @ replicate (k * 2) CHR 0x5C @ [CHR 0x22] else out @ replicate k CHR 0x5C)"

text \<open>\<open>cmdline\<close> behind the executable.\<close>

definition quoted_arguments :: "string list \<Rightarrow> string" where
  "quoted_arguments args = concat (map (\<lambda>a. CHR '' '' # quote_arg_w a) args)"

subsection \<open>The POSIX runner\<close>

record subprocess_request =
  sq_executable :: string
  sq_arguments :: "string list"
  sq_working_directory :: string
  sq_capture_stdout :: bool
  sq_capture_stderr :: bool
  sq_stdin_data :: "string option"
  sq_timeout :: int
  sq_listen_stdout :: bool
  sq_listen_stderr :: bool

definition default_subprocess_request :: subprocess_request where
  "default_subprocess_request = \<lparr>sq_executable = [], sq_arguments = [], sq_working_directory = [], sq_capture_stdout = True, sq_capture_stderr = True,
     sq_stdin_data = None, sq_timeout = 300000, sq_listen_stdout = False, sq_listen_stderr = False\<rparr>"

record subprocess_result =
  sr_exit_code :: int
  sr_stdout_data :: string
  sr_stderr_data :: string
  sr_duration :: int
  sr_timed_out :: bool
  sr_cancelled :: bool

text \<open>Answers of the system.\<close>

datatype wait_status = WS_Exited int | WS_Signaled int | WS_Other

datatype wait_result = WR_Reaped wait_status | WR_Running | WR_Intr | WR_Error

datatype poll_result = PO_Ready bool bool | PO_Timeout | PO_Intr | PO_Error

datatype read_result = RD_Data string | RD_Eof | RD_Again | RD_Intr | RD_Error

datatype pipe_end = Stdout | Stderr

datatype signal = SIGTERM | SIGKILL

record 'w posix =
  px_now :: "('w, int) state"
  px_pipes :: "('w, bool) state"
  px_fork :: "string list \<Rightarrow> string \<Rightarrow> ('w, int) state"
  px_write :: "string \<Rightarrow> ('w, int) state"
  px_poll :: "bool \<Rightarrow> bool \<Rightarrow> int \<Rightarrow> ('w, poll_result) state"
  px_read :: "pipe_end \<Rightarrow> ('w, read_result) state"
  px_kill :: "int \<Rightarrow> signal \<Rightarrow> ('w, unit) state"
  px_waitpid :: "int \<Rightarrow> ('w, wait_result) state"
  px_waitpid_block :: "int \<Rightarrow> ('w, wait_status option) state"
  px_cancelled :: "('w, bool) state"
  px_sleep :: "int \<Rightarrow> ('w, unit) state"

text \<open>Loops run on fuel; \<open>None\<close> is a loop that did not end. \<open>write\<close> stops at an error.\<close>

fun write_all :: "nat \<Rightarrow> 'w posix \<Rightarrow> string \<Rightarrow> ('w, unit option) state" where
  "write_all n E [] = State_Monad.return (Some ())"
| "write_all 0 E (c # d) = State_Monad.return None"
| "write_all (Suc n) E (c # d) = do {
     k \<leftarrow> px_write E (c # d);
     (if k < 0 then State_Monad.return (Some ()) else write_all n E (drop (nat k) (c # d)))
   }"

fun drain_one :: "nat \<Rightarrow> 'w posix \<Rightarrow> pipe_end \<Rightarrow> line_slicer \<Rightarrow> ('w, (bool \<times> line_slicer) option) state" where
  "drain_one 0 E fd s = State_Monad.return None"
| "drain_one (Suc n) E fd s = do {
     r \<leftarrow> px_read E fd;
     (case r of
        RD_Data chunk \<Rightarrow> drain_one n E fd (slicer_feed chunk s)
      | RD_Eof \<Rightarrow> State_Monad.return (Some (False, slicer_flush s))
      | RD_Again \<Rightarrow> State_Monad.return (Some (True, s))
      | RD_Intr \<Rightarrow> drain_one n E fd s
      | RD_Error \<Rightarrow> State_Monad.return (Some (False, slicer_flush s)))
   }"

text \<open>The pipes: which are open, and their buffers.\<close>

record drains =
  dr_out :: bool
  dr_err :: bool
  dr_out_slicer :: line_slicer
  dr_err_slicer :: line_slicer

definition drain_ready :: "nat \<Rightarrow> 'w posix \<Rightarrow> bool \<Rightarrow> bool \<Rightarrow> drains \<Rightarrow> ('w, drains option) state" where
  "drain_ready n E out_ready err_ready d = do {
     a \<leftarrow> (if dr_out d \<and> out_ready then drain_one n E Stdout (dr_out_slicer d) else State_Monad.return (Some (dr_out d, dr_out_slicer d)));
     (case a of
        None \<Rightarrow> State_Monad.return None
      | Some (o1, s1) \<Rightarrow> do {
          b \<leftarrow> (if dr_err d \<and> err_ready then drain_one n E Stderr (dr_err_slicer d) else State_Monad.return (Some (dr_err d, dr_err_slicer d)));
          State_Monad.return (case b of
             None \<Rightarrow> None
           | Some (o2, s2) \<Rightarrow> Some \<lparr>dr_out = o1, dr_err = o2, dr_out_slicer = s1, dr_err_slicer = s2\<rparr>)
        })
   }"

text \<open>How a loop was left: normally, past the deadline, or by a cancellation.\<close>

datatype ending = EN_Normal | EN_Timed_Out | EN_Cancelled

fun drain_loop :: "nat \<Rightarrow> 'w posix \<Rightarrow> int \<Rightarrow> int \<Rightarrow> drains \<Rightarrow> ('w, (ending \<times> drains) option) state" where
  "drain_loop 0 E pid deadline d =
     State_Monad.return (if dr_out d \<or> dr_err d then None else Some (EN_Normal, d))"
| "drain_loop (Suc n) E pid deadline d =
     (if \<not> (dr_out d \<or> dr_err d) then State_Monad.return (Some (EN_Normal, d))
      else do {
        now \<leftarrow> px_now E;
        (if now \<ge> deadline then do {
           _ \<leftarrow> px_kill E pid SIGTERM;
           State_Monad.return (Some (EN_Timed_Out, d))
         } else do {
           c \<leftarrow> px_cancelled E;
           (if c then State_Monad.return (Some (EN_Cancelled, d))
            else do {
              rc \<leftarrow> px_poll E (dr_out d) (dr_err d) (min (deadline - now) 1000);
              (case rc of
                 PO_Intr \<Rightarrow> drain_loop n E pid deadline d
               | PO_Error \<Rightarrow> State_Monad.return (Some (EN_Normal, d))
               | PO_Timeout \<Rightarrow> drain_loop n E pid deadline d
               | PO_Ready out_ready err_ready \<Rightarrow> do {
                   d' \<leftarrow> drain_ready n E out_ready err_ready d;
                   (case d' of None \<Rightarrow> State_Monad.return None | Some d' \<Rightarrow> drain_loop n E pid deadline d')
                 })
            })
         })
      })"

text \<open>The loop behind the end of both pipes; \<open>Inl\<close> is the failure of \<open>waitpid\<close>.\<close>

fun reap_loop :: "nat \<Rightarrow> 'w posix \<Rightarrow> int \<Rightarrow> int \<Rightarrow> ('w, (unit + ending \<times> wait_status option) option) state" where
  "reap_loop 0 E pid deadline = State_Monad.return None"
| "reap_loop (Suc n) E pid deadline = do {
     r \<leftarrow> px_waitpid E pid;
     (case r of
        WR_Reaped st \<Rightarrow> State_Monad.return (Some (Inr (EN_Normal, Some st)))
      | WR_Intr \<Rightarrow> reap_loop n E pid deadline
      | WR_Error \<Rightarrow> State_Monad.return (Some (Inl ()))
      | WR_Running \<Rightarrow> do {
          now \<leftarrow> px_now E;
          (if now \<ge> deadline then do {
             _ \<leftarrow> px_kill E pid SIGTERM;
             State_Monad.return (Some (Inr (EN_Timed_Out, None)))
           } else do {
             c \<leftarrow> px_cancelled E;
             (if c then State_Monad.return (Some (Inr (EN_Cancelled, None)))
              else do {
                _ \<leftarrow> px_sleep E 1;
                reap_loop n E pid deadline
              })
           })
        })
   }"

text \<open>The five seconds of grace.\<close>

fun grace_loop :: "nat \<Rightarrow> 'w posix \<Rightarrow> int \<Rightarrow> int \<Rightarrow> ('w, wait_status option option) state" where
  "grace_loop 0 E pid hard_deadline = State_Monad.return None"
| "grace_loop (Suc n) E pid hard_deadline = do {
     now \<leftarrow> px_now E;
     (if now \<ge> hard_deadline then State_Monad.return (Some None)
      else do {
        r \<leftarrow> px_waitpid E pid;
        (case r of
           WR_Reaped st \<Rightarrow> State_Monad.return (Some (Some st))
         | WR_Error \<Rightarrow> State_Monad.return (Some None)
         | _ \<Rightarrow> do { _ \<leftarrow> px_sleep E 5; grace_loop n E pid hard_deadline })
      })
   }"

text \<open>\<open>status\<close> is 0 until \<open>waitpid\<close> sets it.\<close>

definition escalate :: "nat \<Rightarrow> 'w posix \<Rightarrow> int \<Rightarrow> ('w, wait_status option) state" where
  "escalate n E pid = do {
     now \<leftarrow> px_now E;
     g \<leftarrow> grace_loop n E pid (now + 5000);
     (case g of
        None \<Rightarrow> State_Monad.return None
      | Some (Some st) \<Rightarrow> State_Monad.return (Some st)
      | Some None \<Rightarrow> do {
          _ \<leftarrow> px_kill E pid SIGKILL;
          st \<leftarrow> px_waitpid_block E pid;
          State_Monad.return (Some (case st of Some s \<Rightarrow> s | None \<Rightarrow> WS_Exited 0))
        })
   }"

fun exit_code_of :: "wait_status \<Rightarrow> int" where
  "exit_code_of (WS_Exited c) = c"
| "exit_code_of (WS_Signaled s) = 128 + s"
| "exit_code_of WS_Other = -1"

definition waitpid_failed :: app_error where
  "waitpid_failed = mk_error EC_SubprocessFailed ''Subprocess: waitpid failed''"

definition conclude :: "'w posix \<Rightarrow> subprocess_request \<Rightarrow> int \<Rightarrow> ending \<Rightarrow> drains \<Rightarrow> wait_status \<Rightarrow> ('w, subprocess_result res) state" where
  "conclude E req start en d st =
     (if exit_code_of st = 127 \<and> en \<noteq> EN_Timed_Out
      then State_Monad.return (Inl (mk_error EC_NotFound (''Subprocess: executable not found: '' @ sq_executable req)))
      else do {
        now \<leftarrow> px_now E;
        State_Monad.return (Inr \<lparr>sr_exit_code = exit_code_of st, sr_stdout_data = sl_full (dr_out_slicer d),
          sr_stderr_data = sl_full (dr_err_slicer d), sr_duration = now - start, sr_timed_out = (en = EN_Timed_Out),
          sr_cancelled = (en = EN_Cancelled)\<rparr>)
      })"

definition reap :: "nat \<Rightarrow> 'w posix \<Rightarrow> int \<Rightarrow> int \<Rightarrow> ending \<Rightarrow> ('w, (app_error + ending \<times> wait_status) option) state" where
  "reap n E pid deadline en = do {
     first \<leftarrow> (if en = EN_Normal then reap_loop n E pid deadline else State_Monad.return (Some (Inr (en, None))));
     (case first of
        None \<Rightarrow> State_Monad.return None
      | Some (Inl _) \<Rightarrow> State_Monad.return (Some (Inl waitpid_failed))
      | Some (Inr (en', Some st)) \<Rightarrow> State_Monad.return (Some (Inr (en', st)))
      | Some (Inr (en', None)) \<Rightarrow> do {
          st \<leftarrow> escalate n E pid;
          State_Monad.return (map_option (\<lambda>st. Inr (en', st)) st)
        })
   }"

text \<open>The parent behind \<open>fork\<close>.\<close>

definition supervise :: "nat \<Rightarrow> 'w posix \<Rightarrow> subprocess_request \<Rightarrow> int \<Rightarrow> int \<Rightarrow> ('w, subprocess_result res option) state" where
  "supervise n E req start pid = do {
     late \<leftarrow> px_cancelled E;
     _ \<leftarrow> (if late then px_kill E pid SIGTERM else State_Monad.return ());
     written \<leftarrow> (case sq_stdin_data req of None \<Rightarrow> State_Monad.return (Some ()) | Some d \<Rightarrow> write_all n E d);
     (case written of
        None \<Rightarrow> State_Monad.return None
      | Some _ \<Rightarrow> do {
          drained \<leftarrow> drain_loop n E pid (start + sq_timeout req)
            \<lparr>dr_out = True, dr_err = True, dr_out_slicer = new_slicer (sq_capture_stdout req) (sq_listen_stdout req),
             dr_err_slicer = new_slicer (sq_capture_stderr req) (sq_listen_stderr req)\<rparr>;
          (case drained of
             None \<Rightarrow> State_Monad.return None
           | Some (en, d) \<Rightarrow> do {
               reaped \<leftarrow> reap n E pid (start + sq_timeout req) en;
               (case reaped of
                  None \<Rightarrow> State_Monad.return None
                | Some (Inl e) \<Rightarrow> State_Monad.return (Some (Inl e))
                | Some (Inr (en', st)) \<Rightarrow> do { r \<leftarrow> conclude E req start en' d st; State_Monad.return (Some r) })
             })
        })
   }"

definition spawn_sync :: "nat \<Rightarrow> 'w posix \<Rightarrow> subprocess_request \<Rightarrow> ('w, subprocess_result res option) state" where
  "spawn_sync n E req = do {
     start \<leftarrow> px_now E;
     (if sq_executable req = [] then State_Monad.return (Some (Inl (mk_error EC_InvalidArgument ''Subprocess: empty executable path'')))
      else do {
        ok \<leftarrow> px_pipes E;
        (if \<not> ok then State_Monad.return (Some (Inl (mk_error EC_Io ''Subprocess: pipe() failed'')))
         else do {
           pid \<leftarrow> px_fork E (sq_executable req # sq_arguments req) (sq_working_directory req);
           (if pid < 0 then State_Monad.return (Some (Inl (mk_error EC_SubprocessFailed ''Subprocess: fork() failed'')))
            else supervise n E req start pid)
         })
      })
   }"

text \<open>\<open>version_of\<close> keeps the first line.\<close>

definition first_line :: "string \<Rightarrow> string" where
  "first_line out = takeWhile (\<lambda>c. c \<noteq> CHR 0x0D \<and> c \<noteq> CHR 0x0A) out"

definition version_of :: "(subprocess_request \<Rightarrow> ('w, subprocess_result res) state) \<Rightarrow> string \<Rightarrow> string \<Rightarrow> ('w, string res) state" where
  "version_of run executable version_flag = do {
     r \<leftarrow> run (default_subprocess_request\<lparr>sq_executable := executable, sq_arguments := [version_flag], sq_timeout := 10000\<rparr>);
     State_Monad.return (case r of Inl e \<Rightarrow> Inl e | Inr x \<Rightarrow> Inr (first_line (sr_stdout_data x)))
   }"

end
