(* ===== verification/Subprocess_Runs.thy ===== *)
theory Subprocess_Runs
  imports Subprocess
begin

text \<open>
  What the subprocess runner guarantees: lines do not depend on how the pipe cuts the output, quoted arguments are read back, and
  a child is signalled only until it is reaped, which happens exactly once.
\<close>

subsection \<open>Lines\<close>

text \<open>The pieces between line feeds.\<close>

fun split_lf :: "string \<Rightarrow> string list" where
  "split_lf [] = [[]]"
| "split_lf (c # s) = (if c = CHR 0x0A then [] # split_lf s else (c # hd (split_lf s)) # tl (split_lf s))"

definition lines_of :: "string \<Rightarrow> string list" where
  "lines_of s =
     map strip_cr (butlast (split_lf s)) @ (if strip_cr (last (split_lf s)) = [] then [] else [strip_cr (last (split_lf s))])"

lemma split_lf_nonempty [simp]: "split_lf s \<noteq> []"
  by (cases s) simp_all

lemma split_lf_line: "CHR 0x0A \<notin> set l \<Longrightarrow> split_lf (l @ CHR 0x0A # s) = l # split_lf s"
  by (induction l) auto

lemma split_lf_plain: "CHR 0x0A \<notin> set l \<Longrightarrow> split_lf l = [l]"
  by (induction l) auto

lemma cut_lines_split: "cut_lines s = (map strip_cr (butlast (split_lf s)), last (split_lf s))"
proof (induction s rule: cut_lines.induct)
  case (1 s)
  let ?l = "takeWhile (\<lambda>c. c \<noteq> CHR 0x0A) s"
  have l: "CHR 0x0A \<notin> set ?l" by (auto dest: set_takeWhileD)
  show ?case
  proof (cases "dropWhile (\<lambda>c. c \<noteq> CHR 0x0A) s")
    case Nil
    then have "?l = s" by (metis append_Nil2 takeWhile_dropWhile_id)
    with l show ?thesis by (subst cut_lines.simps, simp only: Nil list.case) (simp add: split_lf_plain)
  next
    case (Cons c rest)
    then have "c = CHR 0x0A" using hd_dropWhile [of "\<lambda>c. c \<noteq> CHR 0x0A" s] by simp
    then have "s = ?l @ CHR 0x0A # rest" using Cons takeWhile_dropWhile_id [of "\<lambda>c. c \<noteq> CHR 0x0A" s] by simp
    then have "split_lf s = ?l # split_lf rest" using split_lf_line [OF l] by metis
    with Cons 1 show ?thesis by (subst cut_lines.simps) (simp add: case_prod_unfold)
  qed
qed

lemma split_lf_append: "split_lf (s @ t) = butlast (split_lf s) @ split_lf (last (split_lf s) @ t)"
proof (induction s)
  case (Cons c s)
  show ?case
  proof (cases "c = CHR 0x0A")
    case False
    obtain x xs where "split_lf s = x # xs" by (cases "split_lf s") simp_all
    with Cons False show ?thesis by (cases xs) (auto simp: Cons)
  qed (use Cons in simp)
qed simp

text \<open>After any chunks the buffer holds the last piece of what was read.\<close>

definition sliced :: "bool \<Rightarrow> bool \<Rightarrow> string \<Rightarrow> line_slicer" where
  "sliced capture listening s =
     \<lparr>sl_capture = capture, sl_listening = listening, sl_full = (if capture then s else []),
      sl_pending = (if listening then last (split_lf s) else []), sl_lines = (if listening then map strip_cr (butlast (split_lf s)) else [])\<rparr>"

lemma feed_sliced: "slicer_feed chunk (sliced a b s) = sliced a b (s @ chunk)"
  unfolding split_lf_append [of s chunk]
  by (simp add: slicer_feed_def sliced_def Let_def cut_lines_split split_lf_append [of s chunk] butlast_append)

lemma foldl_sliced: "foldl (\<lambda>s c. slicer_feed c s) (sliced a b s) chunks = sliced a b (s @ concat chunks)"
  by (induction chunks arbitrary: s) (simp_all add: feed_sliced)

lemma flush_sliced:
  "sl_lines (slicer_flush (sliced a True s)) = lines_of s" "sl_full (slicer_flush (sliced a True s)) = (if a then s else [])"
proof -
  have "strip_cr [] = []" by (simp add: strip_cr_def)
  then show "sl_lines (slicer_flush (sliced a True s)) = lines_of s" "sl_full (slicer_flush (sliced a True s)) = (if a then s else [])"
    by (simp_all add: slicer_flush_def sliced_def lines_of_def Let_def)
qed

text \<open>
  C33. However the pipe cuts the output into chunks, the callback gets the lines of the whole output in order, without their line
  ends and with a last line that has none, and the capture is the whole output.
\<close>
theorem lines_independent_of_chunks:
  "let s = slicer_flush (foldl (\<lambda>s c. slicer_feed c s) (new_slicer capture True) chunks) in
   sl_lines s = lines_of (concat chunks) \<and> sl_full s = (if capture then concat chunks else [])"
proof -
  have "new_slicer capture True = sliced capture True []" by (simp add: new_slicer_def sliced_def)
  then show ?thesis by (simp add: foldl_sliced Let_def flush_sliced)
qed

subsection \<open>Arguments\<close>

text \<open>
  The reader of arguments, as documented for \<open>CommandLineToArgvW\<close>: \<open>2n\<close> backslashes before a quote are \<open>n\<close> and the quote opens or closes, \<open>2n+1\<close> are \<open>n\<close> and
  a quote, others are themselves; blanks outside quotes separate.
\<close>

fun read_args :: "bool \<Rightarrow> nat \<Rightarrow> string \<Rightarrow> bool \<Rightarrow> string \<Rightarrow> string list" where
  "read_args quoted k cur started [] = (if started \<or> 0 < k then [cur @ replicate k CHR 0x5C] else [])"
| "read_args quoted k cur started (c # s) =
     (if c = CHR 0x5C then read_args quoted (Suc k) cur started s
      else if c = CHR 0x22 then
        (if even k then read_args (\<not> quoted) 0 (cur @ replicate (k div 2) CHR 0x5C) True s
         else read_args quoted 0 (cur @ replicate (k div 2) CHR 0x5C @ [CHR 0x22]) True s)
      else if (c = CHR '' '' \<or> c = CHR 0x09) \<and> \<not> quoted then
        (if started \<or> 0 < k then (cur @ replicate k CHR 0x5C) # read_args False 0 [] False s else read_args False 0 [] False s)
      else read_args quoted 0 (cur @ replicate k CHR 0x5C @ [c]) True s)"

lemma read_backslashes: "read_args q k cur b (replicate m CHR 0x5C @ s) = read_args q (k + m) cur b s"
  by (induction m arbitrary: k) simp_all

lemma read_quoted:
  "quote_loop k s = (out, j) \<Longrightarrow>
   read_args True 0 cur True (out @ replicate (j * 2) CHR 0x5C @ CHR 0x22 # rest) = read_args False 0 (cur @ replicate k CHR 0x5C @ s) True rest"
proof (induction k s arbitrary: cur out j rule: quote_loop.induct)
  case (1 k)
  then show ?case by (simp add: read_backslashes)
next
  case (2 k c s)
  show ?case
  proof (cases "c = CHR 0x5C")
    case True
    with "2.prems" have "quote_loop (Suc k) s = (out, j)" by simp
    from "2.IH"(1) [OF True this, of cur] True show ?thesis by (simp add: replicate_app_Cons_same [symmetric])
  next
    case False
    show ?thesis
    proof (cases "c = CHR 0x22")
      case True
      with "2.prems" obtain out' where q: "quote_loop 0 s = (out', j)" and out: "out = replicate (k * 2 + 1) CHR 0x5C @ CHR 0x22 # out'"
        by (cases "quote_loop 0 s") auto
      have "odd (k * 2 + 1)" "(k * 2 + 1) div 2 = k" by simp_all
      with "2.IH"(2) [OF False True q] True show ?thesis
        unfolding out by (simp add: read_backslashes del: replicate_Suc)
    next
      case other: False
      with False "2.prems" obtain out' where q: "quote_loop 0 s = (out', j)" and out: "out = replicate k CHR 0x5C @ c # out'"
        by (cases "quote_loop 0 s") auto
      from "2.IH"(3) [OF False other q] False other show ?thesis unfolding out by (simp add: read_backslashes)
    qed
  qed
qed

text \<open>What may follow an argument.\<close>

definition arg_end :: "string \<Rightarrow> bool" where
  "arg_end rest = (rest = [] \<or> (\<exists>s. rest = CHR '' '' # s))"

lemma read_plain:
  "quote_loop k s = (out, j) \<Longrightarrow> list_all (\<lambda>c. c \<noteq> CHR '' '' \<and> c \<noteq> CHR 0x09 \<and> c \<noteq> CHR 0x22) s \<Longrightarrow> b \<or> s \<noteq> [] \<or> 0 < k \<Longrightarrow> arg_end rest \<Longrightarrow>
   read_args False 0 cur b (out @ replicate j CHR 0x5C @ rest) = (cur @ replicate k CHR 0x5C @ s) # read_args False 0 [] False (drop 1 rest)"
proof (induction k s arbitrary: cur out j b rule: quote_loop.induct)
  case (1 k)
  then show ?case by (auto simp: read_backslashes arg_end_def)
next
  case (2 k c s)
  show ?case
  proof (cases "c = CHR 0x5C")
    case True
    with "2.prems" have "quote_loop (Suc k) s = (out, j)" by simp
    from "2.IH"(1) [OF True this, of b cur] True "2.prems" show ?thesis by (simp add: replicate_app_Cons_same [symmetric])
  next
    case False
    with "2.prems" obtain out' where q: "quote_loop 0 s = (out', j)" and out: "out = replicate k CHR 0x5C @ c # out'"
      by (cases "quote_loop 0 s") auto
    have c: "c \<noteq> CHR 0x22" using "2.prems" by simp
    from "2.IH"(3) [OF False c q, of True] False "2.prems" show ?thesis unfolding out by (simp add: read_backslashes)
  qed
qed

lemma read_quote_arg:
  assumes "arg_end rest"
  shows "read_args False 0 [] False (quote_arg_w a @ rest) = a # read_args False 0 [] False (drop 1 rest)"
proof -
  obtain out j where q: "quote_loop 0 a = (out, j)" by (rule prod.exhaust)
  show ?thesis
  proof (cases "needs_quote a")
    case True
    have "read_args False 0 a True rest = a # read_args False 0 [] False (drop 1 rest)"
      using assms by (auto simp: arg_end_def)
    with True read_quoted [OF q, of "[]" rest] show ?thesis by (simp add: quote_arg_w_def q)
  next
    case False
    then have "list_all (\<lambda>c. c \<noteq> CHR '' '' \<and> c \<noteq> CHR 0x09 \<and> c \<noteq> CHR 0x22) a" "a \<noteq> []"
      by (auto simp: needs_quote_def list_all_iff list_ex_iff)
    with False read_plain [OF q _ _ assms, of False "[]"] show ?thesis by (simp add: quote_arg_w_def q)
  qed
qed

text \<open>
  The command line that is made of arguments is read back, by the documented rules of the platform, as exactly these arguments,
  whatever quotes, blanks and backslashes they hold.
\<close>
theorem quoted_arguments_read_back: "read_args False 0 [] False (quoted_arguments args) = args"
proof (induction args)
  case (Cons a args)
  have "arg_end (quoted_arguments args)" by (cases args) (simp_all add: arg_end_def quoted_arguments_def)
  from read_quote_arg [OF this, of a] Cons show ?case
    by (cases args) (simp_all add: quoted_arguments_def)
qed (simp add: quoted_arguments_def)

subsection \<open>The child\<close>

text \<open>The same system with a log of what happens to children; \<open>PX_Lost\<close> is a blocking wait that failed.\<close>

datatype px_event = PX_Fork int | PX_Kill int signal | PX_Reaped int | PX_Lost int

definition alongside :: "('w, 'a) state \<Rightarrow> ('w \<times> px_event list, 'a) state" where
  "alongside f = State (\<lambda>(w, l). case run_state f w of (r, w') \<Rightarrow> (r, w', l))"

definition logging :: "('a \<Rightarrow> px_event list) \<Rightarrow> ('w, 'a) state \<Rightarrow> ('w \<times> px_event list, 'a) state" where
  "logging ev f = State (\<lambda>(w, l). case run_state f w of (r, w') \<Rightarrow> (r, w', l @ ev r))"

fun reap_event :: "int \<Rightarrow> wait_result \<Rightarrow> px_event list" where
  "reap_event pid (WR_Reaped st) = [PX_Reaped pid]"
| "reap_event pid _ = []"

definition spied_posix :: "'w posix \<Rightarrow> ('w \<times> px_event list) posix" where
  "spied_posix E =
     \<lparr>px_now = alongside (px_now E), px_pipes = alongside (px_pipes E),
      px_fork = (\<lambda>argv dir. logging (\<lambda>pid. if pid < 0 then [] else [PX_Fork pid]) (px_fork E argv dir)),
      px_write = (\<lambda>d. alongside (px_write E d)), px_poll = (\<lambda>a b t. alongside (px_poll E a b t)), px_read = (\<lambda>fd. alongside (px_read E fd)),
      px_kill = (\<lambda>pid sig. logging (\<lambda>_. [PX_Kill pid sig]) (px_kill E pid sig)),
      px_waitpid = (\<lambda>pid. logging (reap_event pid) (px_waitpid E pid)),
      px_waitpid_block = (\<lambda>pid. logging (\<lambda>st. [if st = None then PX_Lost pid else PX_Reaped pid]) (px_waitpid_block E pid)),
      px_cancelled = alongside (px_cancelled E), px_sleep = (\<lambda>t. alongside (px_sleep E t))\<rparr>"

lemma wp_alongside: "(\<And>r w'. Q r (w', l)) \<Longrightarrow> wp (alongside f) Q (w, l)"
  by (simp add: wp_def alongside_def split: prod.splits)

lemma wp_logging: "(\<And>r w'. Q r (w', l @ ev r)) \<Longrightarrow> wp (logging ev f) Q (w, l)"
  by (simp add: wp_def logging_def split: prod.splits)

lemma wp_spied_posix:
  "(\<And>t w'. Q t (w', l)) \<Longrightarrow> wp (px_now (spied_posix E)) Q (w, l)"
  "(\<And>b w'. R b (w', l)) \<Longrightarrow> wp (px_pipes (spied_posix E)) R (w, l)"
  "(\<And>b w'. R b (w', l)) \<Longrightarrow> wp (px_cancelled (spied_posix E)) R (w, l)"
  "(\<And>k w'. Q k (w', l)) \<Longrightarrow> wp (px_write (spied_posix E) d) Q (w, l)"
  "(\<And>x w'. P x (w', l)) \<Longrightarrow> wp (px_poll (spied_posix E) a b t) P (w, l)"
  "(\<And>x w'. S x (w', l)) \<Longrightarrow> wp (px_read (spied_posix E) fd) S (w, l)"
  "(\<And>x w'. U x (w', l)) \<Longrightarrow> wp (px_sleep (spied_posix E) t) U (w, l)"
  "(\<And>x w'. U x (w', l @ [PX_Kill pid sig])) \<Longrightarrow> wp (px_kill (spied_posix E) pid sig) U (w, l)"
  "(\<And>x w'. V x (w', l @ reap_event pid x)) \<Longrightarrow> wp (px_waitpid (spied_posix E) pid) V (w, l)"
  "(\<And>x w'. W x (w', l @ [if x = None then PX_Lost pid else PX_Reaped pid])) \<Longrightarrow> wp (px_waitpid_block (spied_posix E) pid) W (w, l)"
  "(\<And>p w'. Q p (w', l @ (if p < 0 then [] else [PX_Fork p]))) \<Longrightarrow> wp (px_fork (spied_posix E) argv dir) Q (w, l)"
  by (simp_all add: spied_posix_def wp_alongside wp_logging)

lemma wp_write_all: "(\<And>r w'. Q r (w', l)) \<Longrightarrow> wp (write_all n (spied_posix E) d) Q (w, l)"
  by (induction n "spied_posix E" d arbitrary: w rule: write_all.induct) (auto intro!: wp_spied_posix)

lemma wp_drain_one: "(\<And>r w'. Q r (w', l)) \<Longrightarrow> wp (drain_one n (spied_posix E) fd s) Q (w, l)"
  by (induction n arbitrary: w s) (auto intro!: wp_spied_posix split: read_result.split)

lemma wp_drain_ready: "(\<And>r w'. Q r (w', l)) \<Longrightarrow> wp (drain_ready n (spied_posix E) a b d) Q (w, l)"
  unfolding drain_ready_def by (auto intro!: wp_drain_one split: option.split)

text \<open>What each loop logs.\<close>

fun sent_at :: "int \<Rightarrow> ending \<Rightarrow> px_event list" where
  "sent_at pid EN_Timed_Out = [PX_Kill pid SIGTERM]"
| "sent_at pid _ = []"

lemma wp_drain_loop:
  assumes "\<And>w'. Q None (w', l)" "\<And>en d w'. Q (Some (en, d)) (w', l @ sent_at pid en)"
  shows "wp (drain_loop n (spied_posix E) pid deadline d) Q (w, l)"
proof (induction n arbitrary: w d)
  case 0
  then show ?case using assms(1) assms(2) [of EN_Normal] by simp
next
  case (Suc n)
  show ?case
    using assms(1) assms(2) [of EN_Normal] assms(2) [of EN_Timed_Out] assms(2) [of EN_Cancelled]
    by (auto intro!: wp_spied_posix Suc wp_drain_ready split: poll_result.split option.split)
qed

lemma wp_reap_loop:
  assumes "\<And>w'. Q None (w', l)" "\<And>w'. Q (Some (Inl ())) (w', l)"
    and "\<And>st w'. Q (Some (Inr (EN_Normal, Some st))) (w', l @ [PX_Reaped pid])"
    and "\<And>en w'. en \<noteq> EN_Normal \<Longrightarrow> Q (Some (Inr (en, None))) (w', l @ sent_at pid en)"
  shows "wp (reap_loop n (spied_posix E) pid deadline) Q (w, l)"
proof (induction n arbitrary: w)
  case (Suc n)
  show ?case
    using assms(1-3) assms(4) [of EN_Timed_Out] assms(4) [of EN_Cancelled]
    by (auto intro!: wp_spied_posix Suc split: wait_result.split)
qed (simp add: assms)

lemma wp_grace_loop:
  assumes "\<And>w'. Q None (w', l)" "\<And>w'. Q (Some None) (w', l)" "\<And>st w'. Q (Some (Some st)) (w', l @ [PX_Reaped pid])"
  shows "wp (grace_loop n (spied_posix E) pid t) Q (w, l)"
proof (induction n arbitrary: w)
  case (Suc n)
  show ?case using assms by (auto intro!: wp_spied_posix Suc split: wait_result.split)
qed (simp add: assms)

text \<open>How the log of a child ends.\<close>

definition last_rites :: "int \<Rightarrow> px_event list \<Rightarrow> bool" where
  "last_rites pid x = (x = [PX_Reaped pid] \<or> x = [PX_Kill pid SIGKILL, PX_Reaped pid] \<or> x = [PX_Kill pid SIGKILL, PX_Lost pid])"

lemma wp_escalate:
  assumes "\<And>w'. Q None (w', l)" "\<And>st w' x. last_rites pid x \<Longrightarrow> Q (Some st) (w', l @ x)"
  shows "wp (escalate n (spied_posix E) pid) Q (w, l)"
  unfolding escalate_def wp_bind
proof (intro wp_spied_posix wp_grace_loop)
  have rites: "last_rites pid [PX_Reaped pid]" "last_rites pid [PX_Kill pid SIGKILL, if st = None then PX_Lost pid else PX_Reaped pid]"
    for st :: "wait_status option"
    by (simp_all add: last_rites_def)
  show "wp (case None of None \<Rightarrow> State_Monad.return None | Some (Some st) \<Rightarrow> State_Monad.return (Some st)
      | Some None \<Rightarrow> px_kill (spied_posix E) pid SIGKILL \<bind> (\<lambda>_. px_waitpid_block (spied_posix E) pid \<bind>
          (\<lambda>st. State_Monad.return (Some (case st of None \<Rightarrow> WS_Exited 0 | Some s \<Rightarrow> s))))) Q (w', l)" for w'
    by (simp add: assms(1))
  show "wp (case Some None of None \<Rightarrow> State_Monad.return None | Some (Some st) \<Rightarrow> State_Monad.return (Some st)
      | Some None \<Rightarrow> px_kill (spied_posix E) pid SIGKILL \<bind> (\<lambda>_. px_waitpid_block (spied_posix E) pid \<bind>
          (\<lambda>st. State_Monad.return (Some (case st of None \<Rightarrow> WS_Exited 0 | Some s \<Rightarrow> s))))) Q (w', l)" for w'
    using assms(2) [OF rites(2)] by (auto intro!: wp_spied_posix)
  show "wp (case Some (Some st) of None \<Rightarrow> State_Monad.return None | Some (Some st) \<Rightarrow> State_Monad.return (Some st)
      | Some None \<Rightarrow> px_kill (spied_posix E) pid SIGKILL \<bind> (\<lambda>_. px_waitpid_block (spied_posix E) pid \<bind>
          (\<lambda>st. State_Monad.return (Some (case st of None \<Rightarrow> WS_Exited 0 | Some s \<Rightarrow> s))))) Q (w', l @ [PX_Reaped pid])" for st w'
    using assms(2) [OF rites(1)] by simp
qed

lemma wp_reap:
  assumes none: "\<And>s. Q None s" and failed: "\<And>w'. Q (Some (Inl waitpid_failed)) (w', l)"
    and reaped: "\<And>en' st w' x. last_rites pid x \<Longrightarrow> (en \<noteq> EN_Normal \<Longrightarrow> en' = en) \<Longrightarrow>
      Q (Some (Inr (en', st))) (w', l @ (if en = EN_Normal then sent_at pid en' else []) @ x)"
  shows "wp (reap n (spied_posix E) pid deadline en) Q (w, l)"
proof -
  let ?rest = "\<lambda>first. case first of
        None \<Rightarrow> State_Monad.return None
      | Some (Inl _) \<Rightarrow> State_Monad.return (Some (Inl waitpid_failed))
      | Some (Inr (en', Some st)) \<Rightarrow> State_Monad.return (Some (Inr (en', st)))
      | Some (Inr (en', None)) \<Rightarrow> do {
          st \<leftarrow> escalate n (spied_posix E) pid;
          State_Monad.return (map_option (\<lambda>st. Inr (en', st)) st)
        }"
  have forced: "wp (?rest (Some (Inr (en', None)))) Q (w', l @ k)"
    if "en \<noteq> EN_Normal \<Longrightarrow> en' = en" "k = (if en = EN_Normal then sent_at pid en' else [])" for en' w' k
    using that none reaped by (auto intro!: wp_escalate)
  show ?thesis
  proof (cases "en = EN_Normal")
    case True
    have "wp (reap_loop n (spied_posix E) pid deadline) (\<lambda>first. wp (?rest first) Q) (w, l)"
    proof (rule wp_reap_loop)
      show "wp (?rest (Some (Inr (EN_Normal, Some st)))) Q (w', l @ [PX_Reaped pid])" for st w'
        using reaped [of "[PX_Reaped pid]" EN_Normal st w'] True by (simp add: last_rites_def)
      show "wp (?rest (Some (Inr (en', None)))) Q (w', l @ sent_at pid en')" if "en' \<noteq> EN_Normal" for en' w'
        by (rule forced) (simp_all add: True)
    qed (simp_all add: none failed)
    then show ?thesis by (simp add: reap_def True)
  next
    case False
    have "wp (?rest (Some (Inr (en, None)))) Q (w, l)" using forced [of en "[]"] False by simp
    with False show ?thesis by (simp add: reap_def)
  qed
qed

text \<open>
  The log of a child behind its fork: only termination requests to it, then one wait that reaps it, which a kill may precede. Only
  when \<open>waitpid\<close> fails the child stays.
\<close>

definition child_log :: "int \<Rightarrow> subprocess_result res \<Rightarrow> px_event list \<Rightarrow> bool" where
  "child_log pid r x =
     (\<exists>ks tl. x = ks @ tl \<and> set ks \<subseteq> {PX_Kill pid SIGTERM} \<and>
        (case r of
           Inl e \<Rightarrow> e = waitpid_failed \<and> tl = [] \<or> last_rites pid tl
         | Inr res \<Rightarrow> last_rites pid tl \<and> (\<not> sr_timed_out res \<or> PX_Kill pid SIGTERM \<in> set ks)))"

lemma sent_at_term: "set (sent_at pid en) \<subseteq> {PX_Kill pid SIGTERM}" "PX_Kill pid SIGTERM \<in> set (sent_at pid en) \<longleftrightarrow> en = EN_Timed_Out"
  by (cases en; simp)+

lemma wp_conclude:
  assumes "\<And>e w'. Q (Inl e) (w', l)" "\<And>res w'. sr_timed_out res = (en = EN_Timed_Out) \<Longrightarrow> Q (Inr res) (w', l)"
  shows "wp (conclude (spied_posix E) req start en d st) Q (w, l)"
  unfolding conclude_def by (auto intro!: wp_spied_posix assms)

lemma wp_supervise:
  assumes none: "\<And>s. Q None s" and some: "\<And>r w' x. child_log pid r x \<Longrightarrow> Q (Some r) (w', l @ x)"
  shows "wp (supervise n (spied_posix E) req start pid) Q (w, l)"
proof -
  define E' where "E' = spied_posix E"
  define stop where "stop = start + sq_timeout req"
  have fin: "wp (do { r \<leftarrow> conclude E' req start en d st; State_Monad.return (Some r) }) Q (w', l @ ks @ tl)"
    if "set ks \<subseteq> {PX_Kill pid SIGTERM}" "last_rites pid tl" "en = EN_Timed_Out \<Longrightarrow> PX_Kill pid SIGTERM \<in> set ks" for en d st w' ks tl
    unfolding wp_bind E'_def
  proof (rule wp_conclude)
    show "wp (State_Monad.return (Some (Inl e))) Q (w', l @ ks @ tl)" for e w'
      unfolding wp_return by (rule some) (use that in \<open>auto simp: child_log_def\<close>)
    show "wp (State_Monad.return (Some (Inr res))) Q (w', l @ ks @ tl)" if "sr_timed_out res = (en = EN_Timed_Out)" for res w'
      unfolding wp_return by (rule some) (use that \<open>set ks \<subseteq> _\<close> \<open>last_rites pid tl\<close> \<open>en = EN_Timed_Out \<Longrightarrow> _\<close> in \<open>auto simp: child_log_def\<close>)
  qed
  have reaping: "wp (reap n E' pid stop en) (\<lambda>reaped. wp (case reaped of
         None \<Rightarrow> State_Monad.return None
       | Some (Inl e) \<Rightarrow> State_Monad.return (Some (Inl e))
       | Some (Inr (en', st)) \<Rightarrow> do { r \<leftarrow> conclude E' req start en' d st; State_Monad.return (Some r) }) Q) (w', l @ late @ sent_at pid en)"
    if late: "set late \<subseteq> {PX_Kill pid SIGTERM}" for en d w' late
    unfolding E'_def
  proof (rule wp_reap)
    have "child_log pid (Inl waitpid_failed) (late @ sent_at pid en)"
      unfolding child_log_def using late sent_at_term(1) [of pid en] by (intro exI [of _ "late @ sent_at pid en"] exI [of _ "[]"]) auto
    then show "wp (case Some (Inl waitpid_failed) of
         None \<Rightarrow> State_Monad.return None
       | Some (Inl e) \<Rightarrow> State_Monad.return (Some (Inl e))
       | Some (Inr (en', st)) \<Rightarrow> do { r \<leftarrow> conclude (spied_posix E) req start en' d st; State_Monad.return (Some r) }) Q (w', l @ late @ sent_at pid en)" for w'
      using some by simp
    show "wp (case Some (Inr (en', st)) of
         None \<Rightarrow> State_Monad.return None
       | Some (Inl e) \<Rightarrow> State_Monad.return (Some (Inl e))
       | Some (Inr (en', st)) \<Rightarrow> do { r \<leftarrow> conclude (spied_posix E) req start en' d st; State_Monad.return (Some r) }) Q
        (w', (l @ late @ sent_at pid en) @ (if en = EN_Normal then sent_at pid en' else []) @ x)"
      if "last_rites pid x" "en \<noteq> EN_Normal \<Longrightarrow> en' = en" for en' st w' x
      using fin [of "late @ sent_at pid en @ (if en = EN_Normal then sent_at pid en' else [])" x en' d st w', unfolded E'_def] that late
        sent_at_term(1) [of pid en] sent_at_term(1) [of pid en'] sent_at_term(2) [of pid en] sent_at_term(2) [of pid en']
      by (auto split: if_splits)
  qed (simp add: none)
  have draining: "wp (drain_loop n E' pid stop d) (\<lambda>drained. wp (case drained of
             None \<Rightarrow> State_Monad.return None
           | Some (en, d) \<Rightarrow> do {
               reaped \<leftarrow> reap n E' pid stop en;
               (case reaped of
                  None \<Rightarrow> State_Monad.return None
                | Some (Inl e) \<Rightarrow> State_Monad.return (Some (Inl e))
                | Some (Inr (en', st)) \<Rightarrow> do { r \<leftarrow> conclude E' req start en' d st; State_Monad.return (Some r) })
             }) Q) (w', l @ late)"
    if late: "set late \<subseteq> {PX_Kill pid SIGTERM}" for d w' late
    unfolding E'_def
    by (rule wp_drain_loop) (use reaping [OF late, unfolded E'_def] none in \<open>simp_all add: wp_bind\<close>)
  note more = draining [of "[]", simplified] draining [of "[PX_Kill pid SIGTERM]", simplified]
  show ?thesis
    unfolding supervise_def E'_def [symmetric] stop_def [symmetric]
    by (auto intro!: wp_spied_posix(3,8) [where E = E, folded E'_def] wp_write_all [where E = E, folded E'_def] more simp: none split: option.split)
qed

lemma wp_spawn_sync:
  assumes none: "\<And>s. Q None s" and refused: "\<And>e w'. Q (Some (Inl e)) (w', l)"
    and some: "\<And>r w' pid x. child_log pid r x \<Longrightarrow> Q (Some r) (w', l @ PX_Fork pid # x)"
  shows "wp (spawn_sync n (spied_posix E) req) Q (w, l)"
proof -
  have child: "wp (supervise n (spied_posix E) req start pid) Q (w', l @ [PX_Fork pid])" for start pid w'
    by (rule wp_supervise) (use none some in auto)
  show ?thesis
    unfolding spawn_sync_def by (auto intro!: wp_spied_posix refused simp: child)
qed


subsection \<open>Cancellation\<close>

text \<open>
  The two threads that share \<open>CancelHandle\<close>: the worker publishes the child, looks at the flag, reaps and takes the pid back; \<open>kill_now\<close> sets
  the flag, then reads the pid and signals it. The two sides have a program counter each.
\<close>

record cancel_state =
  cs_pid :: bool
  cs_cancelled :: bool
  cs_alive :: bool
  cs_worker :: nat
  cs_killer :: nat
  cs_seen :: bool
  cs_signals :: "bool list"

definition cancel_start :: cancel_state where
  "cancel_start = \<lparr>cs_pid = False, cs_cancelled = False, cs_alive = True, cs_worker = 0, cs_killer = 0, cs_seen = False, cs_signals = []\<rparr>"

text \<open>\<open>cs_signals\<close> says for each signal whether the child was still there.\<close>

inductive cancel_step :: "cancel_state \<Rightarrow> cancel_state \<Rightarrow> bool" where
  Publish: "cs_worker s = 0 \<Longrightarrow> cancel_step s (s\<lparr>cs_pid := True, cs_worker := 1\<rparr>)"
| Look: "cs_worker s = 1 \<Longrightarrow> cancel_step s (s\<lparr>cs_signals := (if cs_cancelled s then cs_signals s @ [cs_alive s] else cs_signals s), cs_worker := 2\<rparr>)"
| Reap: "cs_worker s = 2 \<Longrightarrow> cancel_step s (s\<lparr>cs_alive := False, cs_worker := 3\<rparr>)"
| Detach: "cs_worker s = 3 \<Longrightarrow> cancel_step s (s\<lparr>cs_pid := False, cs_worker := 4\<rparr>)"
| Flag: "cs_killer s = 0 \<Longrightarrow> cancel_step s (s\<lparr>cs_cancelled := True, cs_killer := 1\<rparr>)"
| Load: "cs_killer s = 1 \<Longrightarrow> cancel_step s (s\<lparr>cs_seen := cs_pid s, cs_killer := 2\<rparr>)"
| Signal: "cs_killer s = 2 \<Longrightarrow>
    cancel_step s (s\<lparr>cs_signals := (if cs_seen s then cs_signals s @ [cs_alive s] else cs_signals s), cs_killer := 3\<rparr>)"

text \<open>A cancellation that is complete before the child is reaped has signalled it, by one side or the other.\<close>

lemma cancel_invariant:
  "cancel_step\<^sup>*\<^sup>* cancel_start s \<Longrightarrow>
     cs_worker s \<le> 4 \<and> (cs_pid s \<longleftrightarrow> 1 \<le> cs_worker s \<and> cs_worker s \<le> 3) \<and> (cs_cancelled s \<longleftrightarrow> 1 \<le> cs_killer s) \<and> (cs_alive s \<longleftrightarrow> cs_worker s \<le> 2) \<and>
     (cs_killer s = 2 \<and> \<not> cs_seen s \<longrightarrow> cs_worker s = 0 \<or> True \<in> set (cs_signals s) \<or> cs_worker s = 1 \<or> cs_worker s = 4) \<and>
     (cs_killer s = 3 \<and> cs_worker s = 2 \<longrightarrow> True \<in> set (cs_signals s))"
proof (induction rule: rtranclp_induct)
  case (step s s')
  from step.hyps(2) step.IH show ?case
    by cases auto
qed (simp add: cancel_start_def)

theorem cancellation_signals_child:
  assumes "cancel_step\<^sup>*\<^sup>* cancel_start s" "cs_killer s = 3" "cs_worker s = 2"
  shows "True \<in> set (cs_signals s)"
  using cancel_invariant [OF assms(1)] assms(2,3) by simp

text \<open>
  The pid is taken back only behind the wait: a cancellation in between signals a pid that no longer belongs to the child.
\<close>
theorem late_signal_after_reap:
  "\<exists>s. cancel_step\<^sup>*\<^sup>* cancel_start s \<and> cs_signals s = [False]"
proof -
  let ?s1 = "cancel_start\<lparr>cs_pid := True, cs_worker := 1\<rparr>"
  let ?s2 = "?s1\<lparr>cs_worker := 2\<rparr>" and ?s3 = "?s1\<lparr>cs_worker := 3, cs_alive := False\<rparr>"
  let ?s4 = "?s3\<lparr>cs_cancelled := True, cs_killer := 1\<rparr>" let ?s5 = "?s4\<lparr>cs_seen := True, cs_killer := 2\<rparr>"
  have "cancel_step cancel_start ?s1" using Publish [of cancel_start] by (simp add: cancel_start_def)
  moreover have "cancel_step ?s1 ?s2" using Look [of ?s1] by (simp add: cancel_start_def)
  moreover have "cancel_step ?s2 ?s3" using Reap [of ?s2] by (simp add: cancel_start_def)
  moreover have "cancel_step ?s3 ?s4" using Flag [of ?s3] by (simp add: cancel_start_def)
  moreover have "cancel_step ?s4 ?s5" using Load [of ?s4] by (simp add: cancel_start_def)
  moreover have "cancel_step ?s5 (?s5\<lparr>cs_signals := [False], cs_killer := 3\<rparr>)" using Signal [of ?s5] by (simp add: cancel_start_def)
  ultimately have "cancel_step\<^sup>*\<^sup>* cancel_start (?s5\<lparr>cs_signals := [False], cs_killer := 3\<rparr>)"
    by (meson rtranclp.rtrancl_into_rtrancl rtranclp.rtrancl_refl)
  then show ?thesis by (rule exI [of _ "?s5\<lparr>cs_signals := [False], cs_killer := 3\<rparr>", OF conjI]) simp
qed

end
