(* ===== verification/Subprocess_Ends.thy ===== *)
theory Subprocess_Ends
  imports Subprocess
begin

text \<open>
  When the subprocess runner returns: on a system whose clock moves on while it waits and whose child writes finitely much, always;
  while a child writes faster than it is read, the deadline is not looked at.
\<close>

subsection \<open>Systems that make progress\<close>

definition onward :: "('w \<Rightarrow> int) \<Rightarrow> ('w \<Rightarrow> nat) \<Rightarrow> 'w \<Rightarrow> 'w \<Rightarrow> bool" where
  "onward clk supply w w' \<longleftrightarrow> clk w \<le> clk w' \<and> supply w' \<le> supply w"

text \<open>
  The clock \<open>clk\<close> never goes back, waits last at least as long as they were asked to, a non-empty \<open>write\<close> writes something or fails, and readable pipes, chunks and
  interruptions use up the finite \<open>supply\<close>.
\<close>

definition makes_progress :: "'w posix \<Rightarrow> ('w \<Rightarrow> int) \<Rightarrow> ('w \<Rightarrow> nat) \<Rightarrow> bool" where
  "makes_progress E clk supply \<longleftrightarrow> (\<forall>w.
     wp (px_now E) (\<lambda>t w'. t = clk w' \<and> onward clk supply w w') w \<and>
     wp (px_pipes E) (\<lambda>_ w'. onward clk supply w w') w \<and>
     (\<forall>argv dir. wp (px_fork E argv dir) (\<lambda>_ w'. onward clk supply w w') w) \<and>
     (\<forall>c d. wp (px_write E (c # d)) (\<lambda>k w'. k \<noteq> 0 \<and> onward clk supply w w') w) \<and>
     (\<forall>a b t. wp (px_poll E a b t) (\<lambda>r w'. onward clk supply w w' \<and>
        (case r of PO_Ready _ _ \<Rightarrow> supply w' < supply w | PO_Intr \<Rightarrow> supply w' < supply w | PO_Timeout \<Rightarrow> clk w + t \<le> clk w' | PO_Error \<Rightarrow> True)) w) \<and>
     (\<forall>fd. wp (px_read E fd) (\<lambda>r w'. onward clk supply w w' \<and>
        (case r of RD_Data _ \<Rightarrow> supply w' < supply w | RD_Intr \<Rightarrow> supply w' < supply w | _ \<Rightarrow> True)) w) \<and>
     (\<forall>pid sig. wp (px_kill E pid sig) (\<lambda>_ w'. onward clk supply w w') w) \<and>
     (\<forall>pid. wp (px_waitpid E pid) (\<lambda>r w'. onward clk supply w w' \<and> (r = WR_Intr \<longrightarrow> supply w' < supply w)) w) \<and>
     (\<forall>pid. wp (px_waitpid_block E pid) (\<lambda>_ w'. onward clk supply w w') w) \<and>
     wp (px_cancelled E) (\<lambda>_ w'. onward clk supply w w') w \<and>
     (\<forall>t. wp (px_sleep E t) (\<lambda>_ w'. onward clk supply w w' \<and> clk w + t \<le> clk w') w))"

lemma onward_refl [simp]: "onward clk supply w w"
  by (simp add: onward_def)

lemma onward_trans [trans]: "\<lbrakk>onward clk supply w w'; onward clk supply w' w''\<rbrakk> \<Longrightarrow> onward clk supply w w''"
  by (simp add: onward_def)

lemma progress:
  assumes "makes_progress E clk supply"
  shows "wp (px_now E) (\<lambda>t w'. t = clk w' \<and> onward clk supply w w') w"
    and "wp (px_pipes E) (\<lambda>_ w'. onward clk supply w w') w"
    and "wp (px_fork E argv dir) (\<lambda>_ w'. onward clk supply w w') w"
    and "wp (px_write E (c # d)) (\<lambda>k w'. k \<noteq> 0 \<and> onward clk supply w w') w"
    and "wp (px_poll E a b t) (\<lambda>r w'. onward clk supply w w' \<and>
      (case r of PO_Ready _ _ \<Rightarrow> supply w' < supply w | PO_Intr \<Rightarrow> supply w' < supply w | PO_Timeout \<Rightarrow> clk w + t \<le> clk w' | PO_Error \<Rightarrow> True)) w"
    and "wp (px_read E fd) (\<lambda>r w'. onward clk supply w w' \<and>
      (case r of RD_Data _ \<Rightarrow> supply w' < supply w | RD_Intr \<Rightarrow> supply w' < supply w | _ \<Rightarrow> True)) w"
    and "wp (px_kill E pid sig) (\<lambda>_ w'. onward clk supply w w') w"
    and "wp (px_waitpid E pid) (\<lambda>r w'. onward clk supply w w' \<and> (r = WR_Intr \<longrightarrow> supply w' < supply w)) w"
    and "wp (px_waitpid_block E pid) (\<lambda>_ w'. onward clk supply w w') w"
    and "wp (px_cancelled E) (\<lambda>_ w'. onward clk supply w w') w"
    and "wp (px_sleep E t) (\<lambda>_ w'. onward clk supply w w' \<and> clk w + t \<le> clk w') w"
  using assms unfolding makes_progress_def by blast+

lemma progress_now: "\<lbrakk>makes_progress E clk supply; \<And>w'. onward clk supply w w' \<Longrightarrow> Q (clk w') w'\<rbrakk> \<Longrightarrow> wp (px_now E) Q w"
  by (rule wp_mono, rule progress(1)) auto

lemma progress_plain:
  "\<lbrakk>makes_progress E clk supply; \<And>r w'. onward clk supply w w' \<Longrightarrow> P r w'\<rbrakk> \<Longrightarrow> wp (px_pipes E) P w"
  "\<lbrakk>makes_progress E clk supply; \<And>r w'. onward clk supply w w' \<Longrightarrow> R r w'\<rbrakk> \<Longrightarrow> wp (px_fork E argv dir) R w"
  "\<lbrakk>makes_progress E clk supply; \<And>r w'. onward clk supply w w' \<Longrightarrow> U r w'\<rbrakk> \<Longrightarrow> wp (px_kill E pid sig) U w"
  "\<lbrakk>makes_progress E clk supply; \<And>r w'. onward clk supply w w' \<Longrightarrow> S r w'\<rbrakk> \<Longrightarrow> wp (px_waitpid_block E pid) S w"
  "\<lbrakk>makes_progress E clk supply; \<And>r w'. onward clk supply w w' \<Longrightarrow> P r w'\<rbrakk> \<Longrightarrow> wp (px_cancelled E) P w"
  by (rule wp_mono, erule progress, simp)+

lemma progress_write:
  "\<lbrakk>makes_progress E clk supply; \<And>k w'. \<lbrakk>k \<noteq> 0; onward clk supply w w'\<rbrakk> \<Longrightarrow> Q k w'\<rbrakk> \<Longrightarrow> wp (px_write E (c # d)) Q w"
  by (rule wp_mono, erule progress(4), simp)

lemma progress_poll:
  assumes E: "makes_progress E clk supply"
    and "\<And>a b w'. \<lbrakk>onward clk supply w w'; supply w' < supply w\<rbrakk> \<Longrightarrow> Q (PO_Ready a b) w'"
    and "\<And>w'. \<lbrakk>onward clk supply w w'; supply w' < supply w\<rbrakk> \<Longrightarrow> Q PO_Intr w'"
    and "\<And>w'. \<lbrakk>onward clk supply w w'; clk w + t \<le> clk w'\<rbrakk> \<Longrightarrow> Q PO_Timeout w'"
    and "\<And>w'. onward clk supply w w' \<Longrightarrow> Q PO_Error w'"
  shows "wp (px_poll E a b t) Q w"
  using progress(5) [OF E] by (rule wp_mono) (use assms(2-) in \<open>auto split: poll_result.splits\<close>)

lemma progress_read:
  assumes E: "makes_progress E clk supply"
    and "\<And>x w'. \<lbrakk>onward clk supply w w'; supply w' < supply w\<rbrakk> \<Longrightarrow> Q (RD_Data x) w'"
    and "\<And>w'. \<lbrakk>onward clk supply w w'; supply w' < supply w\<rbrakk> \<Longrightarrow> Q RD_Intr w'"
    and "\<And>r w'. \<lbrakk>onward clk supply w w'; r \<in> {RD_Eof, RD_Again, RD_Error}\<rbrakk> \<Longrightarrow> Q r w'"
  shows "wp (px_read E fd) Q w"
  using progress(6) [OF E] by (rule wp_mono) (use assms(2-) in \<open>auto split: read_result.splits\<close>)

lemma progress_waitpid:
  "\<lbrakk>makes_progress E clk supply; \<And>r w'. \<lbrakk>onward clk supply w w'; r = WR_Intr \<Longrightarrow> supply w' < supply w\<rbrakk> \<Longrightarrow> Q r w'\<rbrakk> \<Longrightarrow> wp (px_waitpid E pid) Q w"
  by (rule wp_mono, erule progress(8), blast)

lemma progress_sleep:
  "\<lbrakk>makes_progress E clk supply; \<And>r w'. \<lbrakk>onward clk supply w w'; clk w + t \<le> clk w'\<rbrakk> \<Longrightarrow> Q r w'\<rbrakk> \<Longrightarrow> wp (px_sleep E t) Q w"
  by (rule wp_mono, erule progress(11), simp)

subsection \<open>Each loop\<close>

text \<open>The routine comes back with a result.\<close>

definition returns :: "('w \<Rightarrow> int) \<Rightarrow> ('w \<Rightarrow> nat) \<Rightarrow> ('w, 'a option) state \<Rightarrow> 'w \<Rightarrow> bool" where
  "returns clk supply m w \<longleftrightarrow> wp m (\<lambda>r w'. \<not> Option.is_none r \<and> onward clk supply w w') w"

lemma not_none_elim [elim!]: "\<lbrakk>\<not> Option.is_none r; \<And>a. r = Some a \<Longrightarrow> P\<rbrakk> \<Longrightarrow> P"
  by (cases r) auto

lemma returns_bind:
  assumes "returns clk supply m w" "\<And>a w'. onward clk supply w w' \<Longrightarrow> wp (f (Some a)) Q w'"
  shows "wp (m \<bind> f) Q w"
  unfolding wp_bind using assms(1) unfolding returns_def by (rule wp_mono) (use assms(2) in \<open>auto simp: Option.is_none_def\<close>)

lemma returns_sooner:
  assumes "returns clk supply m w'" "onward clk supply w w'"
  shows "wp m (\<lambda>r v. \<not> Option.is_none r \<and> onward clk supply w v) w'"
  using assms(1) unfolding returns_def by (rule wp_mono) (use assms(2) in \<open>auto simp: onward_def\<close>)

lemma write_all_returns:
  "makes_progress E clk supply \<Longrightarrow> length d \<le> n \<Longrightarrow> returns clk supply (write_all n E d) w"
proof (induction n E d arbitrary: w rule: write_all.induct)
  case (3 n E c d w)
  show ?case
    unfolding returns_def write_all.simps wp_bind
  proof (rule progress_write [OF 3(2)])
    fix k w' assume k: "k \<noteq> (0::int)" and w': "onward clk supply w w'"
    show "wp (if k < 0 then State_Monad.return (Some ()) else write_all n E (drop (nat k) (c # d))) (\<lambda>r w'. \<not> Option.is_none r \<and> onward clk supply w w') w'"
    proof (cases "k < 0")
      case False
      with k 3(3) have "length (drop (nat k) (c # d)) \<le> n" by auto
      from "3.IH" [OF False "3.prems"(1) this] False w' show ?thesis by (simp add: returns_sooner)
    qed (use w' in simp)
  qed
qed (simp_all add: returns_def)

lemma drain_one_returns:
  assumes "makes_progress E clk supply"
  shows "supply w < n \<Longrightarrow> returns clk supply (drain_one n E fd s) w"
proof (induction n arbitrary: w s)
  case (Suc n)
  have again: "wp (drain_one n E fd s') (\<lambda>r v. \<not> Option.is_none r \<and> onward clk supply w v) w'"
    if "onward clk supply w w'" "supply w' < supply w" for s' w'
    using returns_sooner [OF Suc.IH that(1), of s'] that Suc.prems by simp
  show ?case
    unfolding returns_def drain_one.simps wp_bind
    by (rule progress_read [OF assms]) (auto simp: again)
qed simp

lemma drain_ready_returns:
  assumes E: "makes_progress E clk supply" and n: "supply w < n"
  shows "returns clk supply (drain_ready n E a b d) w"
proof -
  have one: "returns clk supply (if p then drain_one n E fd s else State_Monad.return (Some (o', s))) w'"
    if "onward clk supply w w'" for p fd s o' w'
    using drain_one_returns [OF E, of w' n] n that by (auto simp: returns_def onward_def)
  have two: "wp (if p then drain_one n E fd s else State_Monad.return (Some (o', s))) (\<lambda>b v.
      \<not> Option.is_none (case b of None \<Rightarrow> None | Some (o2, s2) \<Rightarrow> Some (f o2 s2)) \<and> onward clk supply w v) w'"
    if "onward clk supply w w'" for p fd s o' w' and f :: "bool \<Rightarrow> line_slicer \<Rightarrow> drains"
    using returns_sooner [OF one [OF that] that] by (rule wp_mono) (auto simp: Option.is_none_def)
  show ?thesis
    unfolding returns_def drain_ready_def
    by (rule returns_bind [OF one [OF onward_refl]]) (simp only: option.case wp_bind wp_return wp_case_prod two split: prod.split, simp)
qed

text \<open>Steps that a loop with a deadline still has before it.\<close>

definition ahead :: "('w \<Rightarrow> int) \<Rightarrow> ('w \<Rightarrow> nat) \<Rightarrow> int \<Rightarrow> 'w \<Rightarrow> nat" where
  "ahead clk supply deadline w = supply w + nat (deadline - clk w)"

lemma drain_loop_returns:
  assumes E: "makes_progress E clk supply"
  shows "ahead clk supply deadline w < n \<Longrightarrow> returns clk supply (drain_loop n E pid deadline d) w"
proof (induction n arbitrary: w d)
  case (Suc n)
  have again: "wp (drain_loop n E pid deadline d') (\<lambda>r v. \<not> Option.is_none r \<and> onward clk supply w v) w'"
    if "onward clk supply w w'" "ahead clk supply deadline w' < ahead clk supply deadline w" for d' w'
    using returns_sooner [OF Suc.IH that(1), of d'] that Suc.prems by simp
  have ready: "wp (drain_ready n E a b d) (\<lambda>r. wp (case r of None \<Rightarrow> State_Monad.return None | Some d' \<Rightarrow> drain_loop n E pid deadline d')
      (\<lambda>r v. \<not> Option.is_none r \<and> onward clk supply w v)) w'"
    if w': "onward clk supply w w'" "supply w' < supply w" for a b w'
  proof -
    from w' Suc.prems have "supply w' < n" by (simp add: ahead_def)
    from drain_ready_returns [OF E this] show ?thesis
      unfolding returns_def by (rule wp_mono) (use w' in \<open>auto simp: onward_def ahead_def intro!: again [unfolded onward_def] split: option.split\<close>)
  qed
  show ?case
    unfolding returns_def drain_loop.simps
    by (auto intro!: wp_if progress_now [OF E] progress_plain [OF E] progress_poll [OF E] again [unfolded onward_def] ready [unfolded onward_def] simp: onward_def ahead_def min_def split: if_splits) linarith+
qed (simp add: returns_def)

lemma reap_loop_returns:
  assumes E: "makes_progress E clk supply"
  shows "ahead clk supply deadline w < n \<Longrightarrow> returns clk supply (reap_loop n E pid deadline) w"
proof (induction n arbitrary: w)
  case (Suc n)
  have again: "wp (reap_loop n E pid deadline) (\<lambda>r v. \<not> Option.is_none r \<and> onward clk supply w v) w'"
    if "onward clk supply w w'" "ahead clk supply deadline w' < ahead clk supply deadline w" for w'
    using returns_sooner [OF Suc.IH that(1)] that Suc.prems by simp
  show ?case
    unfolding returns_def reap_loop.simps
    by (auto intro!: wp_if progress_waitpid [OF E] progress_now [OF E] progress_plain [OF E] progress_sleep [OF E] again [unfolded onward_def]
      simp: onward_def ahead_def split: wait_result.split) linarith+
qed simp

lemma grace_loop_returns:
  assumes E: "makes_progress E clk supply"
  shows "nat (hard - clk w) < n \<Longrightarrow> returns clk supply (grace_loop n E pid hard) w"
proof (induction n arbitrary: w)
  case (Suc n)
  have again: "wp (grace_loop n E pid hard) (\<lambda>r v. \<not> Option.is_none r \<and> onward clk supply w v) w'"
    if "onward clk supply w w'" "nat (hard - clk w') < nat (hard - clk w)" for w'
    using returns_sooner [OF Suc.IH that(1)] that Suc.prems by simp
  show ?case
    unfolding returns_def grace_loop.simps
    by (auto intro!: wp_if progress_waitpid [OF E] progress_now [OF E] progress_plain [OF E] progress_sleep [OF E] again [unfolded onward_def]
      simp: onward_def split: wait_result.split)
qed simp

lemma escalate_returns:
  assumes E: "makes_progress E clk supply" and n: "5000 < n"
  shows "returns clk supply (escalate n E pid) w"
proof -
  have grace: "returns clk supply (grace_loop n E pid (clk w' + 5000)) w'" for w'
    by (rule grace_loop_returns [OF E]) (use n in simp)
  show ?thesis
    unfolding returns_def escalate_def wp_bind
    by (rule progress_now [OF E], rule wp_mono [OF grace [unfolded returns_def]])
      (auto simp: Option.is_none_def onward_def intro!: progress_plain [OF E] split: option.split)
qed

lemma reap_returns:
  assumes E: "makes_progress E clk supply" and n: "5000 < n" "ahead clk supply deadline w < n"
  shows "returns clk supply (reap n E pid deadline en) w"
proof -
  have first: "returns clk supply (if en = EN_Normal then reap_loop n E pid deadline else State_Monad.return (Some (Inr (en, None)))) w"
    using reap_loop_returns [OF E n(2)] by (simp add: returns_def)
  have second: "wp (escalate n E pid) (\<lambda>r v. \<not> Option.is_none r \<and> onward clk supply w v) w'" if "onward clk supply w w'" for w'
    using returns_sooner [OF escalate_returns [OF E n(1)] that] .
  show ?thesis
    unfolding returns_def reap_def
    by (rule returns_bind [OF first]) (auto simp: second split: option.split sum.split)
qed

lemma supervise_returns:
  assumes E: "makes_progress E clk supply"
    and n: "5000 < n" "ahead clk supply (start + sq_timeout req) w < n" "length (case sq_stdin_data req of None \<Rightarrow> [] | Some d \<Rightarrow> d) \<le> n"
  shows "returns clk supply (supervise n E req start pid) w"
proof -
  define stop where "stop = start + sq_timeout req"
  define get where "get = (\<lambda>w' m. wp (m :: ('a, subprocess_result res option) state) (\<lambda>r v. \<not> Option.is_none r \<and> onward clk supply w v) w')"
  have n': "ahead clk supply stop w' < n" if "onward clk supply w w'" for w'
    using that n(2) unfolding onward_def ahead_def stop_def by linarith
  have close: "wp (conclude E req start en d st) (\<lambda>_. onward clk supply w) w'" if "onward clk supply w w'" for w' en d st
    using that unfolding conclude_def by (auto intro!: wp_if progress_now [OF E] simp: onward_def)
  have tail: "get w' (do {
      reaped \<leftarrow> reap n E pid stop en;
      (case reaped of
         None \<Rightarrow> State_Monad.return None
       | Some (Inl e) \<Rightarrow> State_Monad.return (Some (Inl e))
       | Some (Inr (en', st)) \<Rightarrow> do { r \<leftarrow> conclude E req start en' d st; State_Monad.return (Some r) })
     })" if "onward clk supply w w'" for w' en d
    unfolding get_def
    by (rule returns_bind [OF reap_returns [OF E n(1) n' [OF that]]])
      (use that in \<open>auto split: sum.split intro: onward_trans close\<close>)
  have drained: "returns clk supply (drain_loop n E pid stop d) w'" if "onward clk supply w w'" for w' d
    by (rule drain_loop_returns [OF E n' [OF that]])
  have written: "returns clk supply (case sq_stdin_data req of None \<Rightarrow> State_Monad.return (Some ()) | Some d \<Rightarrow> write_all n E d) w'" for w'
    using n(3) write_all_returns [OF E] by (auto simp: returns_def split: option.splits)
  have body: "get w' (do {
      written \<leftarrow> (case sq_stdin_data req of None \<Rightarrow> State_Monad.return (Some ()) | Some d \<Rightarrow> write_all n E d);
      (case written of
         None \<Rightarrow> State_Monad.return None
       | Some _ \<Rightarrow> do {
           drained \<leftarrow> drain_loop n E pid stop d;
           (case drained of
              None \<Rightarrow> State_Monad.return None
            | Some (en, d) \<Rightarrow> do {
                reaped \<leftarrow> reap n E pid stop en;
                (case reaped of
                   None \<Rightarrow> State_Monad.return None
                 | Some (Inl e) \<Rightarrow> State_Monad.return (Some (Inl e))
                 | Some (Inr (en', st)) \<Rightarrow> do { r \<leftarrow> conclude E req start en' d st; State_Monad.return (Some r) })
              })
         })
     })" if "onward clk supply w w'" for w' d
    unfolding get_def
    by (rule returns_bind [OF written], simp only: option.case, rule returns_bind [OF drained])
      (use that in \<open>auto simp only: option.case split: prod.split intro: onward_trans tail [unfolded get_def]\<close>)
  show ?thesis
    unfolding returns_def supervise_def stop_def [symmetric]
    apply (subst wp_bind)
    apply (rule progress_plain(5) [OF E])
    apply (subst wp_bind)
    apply (rule wp_if)
     apply (rule progress_plain(3) [OF E])
    by (auto simp only: wp_return intro: body [unfolded get_def] onward_trans)
qed


text \<open>A system of its own: a clock, output that is left and a child that ends with the output.\<close>

definition short_system :: "(int \<times> nat) posix" where
  "short_system = \<lparr>px_now = State (\<lambda>(t, k). (t, t, k)), px_pipes = State_Monad.return True, px_fork = (\<lambda>_ _. State_Monad.return 7),
     px_write = (\<lambda>d. State_Monad.return (int (length d))),
     px_poll = (\<lambda>a b s. State (\<lambda>(t, k). if 0 < k then (PO_Ready True True, t, k - 1) else (PO_Error, t, k))),
     px_read = (\<lambda>fd. State (\<lambda>(t, k). if 0 < k then (RD_Data ''ok'', t, k - 1) else (RD_Eof, t, k))),
     px_kill = (\<lambda>_ _. State_Monad.return ()), px_waitpid = (\<lambda>_. State_Monad.return (WR_Reaped (WS_Exited 0))),
     px_waitpid_block = (\<lambda>_. State_Monad.return (Some (WS_Exited 0))), px_cancelled = State_Monad.return False,
     px_sleep = (\<lambda>s. State (\<lambda>(t, k). ((), t + max 0 s, k)))\<rparr>"

lemma short_system_progress: "makes_progress short_system fst snd"
  by (auto simp: makes_progress_def short_system_def wp_def onward_def State_Monad.return_def)


text \<open>
  The deadline is looked at only between two polls: while there is always more to read, the loop over one pipe does not end.
\<close>
theorem chatty_child_outlives_deadline:
  assumes "\<And>w. \<exists>chunk w'. run_state (px_read E fd) w = (RD_Data chunk, w')"
  shows "fst (run_state (drain_one n E fd s) w) = None"
proof (induction n arbitrary: s w)
  case (Suc n)
  from assms obtain chunk w' where "run_state (px_read E fd) w = (RD_Data chunk, w')" by blast
  with Suc show ?case by (simp add: run_simps)
qed (simp add: run_simps)

end
