(* ===== verification/Rclone_Uploader.thy ===== *)
theory Rclone_Uploader
  imports Subprocess Configuration Encodings Ports Regex
begin

text \<open>
  The rclone adapter, \<open>src/infrastructure/upload/rclone_uploader.cpp\<close>: a transfer is one run of the binary, whose statistics lines
  become progress reports. Runs of a subprocess are a collaborator that gives the lines it heard with their times.
\<close>

subsection \<open>Patterns with groups\<close>

text \<open>
  The pattern of the statistics line has optional groups. \<open>ranked\<close> lists the matches at the start of a subject in the order in which ECMAScript tries them;
  the first is the match.
\<close>

datatype pattern =
    Cls "char \<Rightarrow> bool"
  | Many "char \<Rightarrow> bool"
  | Word string
  | Then pattern pattern
  | Maybe pattern
  | In nat pattern

fun ranked :: "pattern \<Rightarrow> nat \<Rightarrow> string \<Rightarrow> (taken \<times> string) list" where
  "ranked (Cls c) k s = (case s of [] \<Rightarrow> [] | x # s' \<Rightarrow> if c x then [([(k, x)], s')] else [])"
| "ranked (Many c) k s = map (\<lambda>n. (tagged k (take n s), drop n s)) (rev [0..<Suc (length (takeWhile c s))])"
| "ranked (Word w) k s = (if take (length w) s = w then [(tagged k w, drop (length w) s)] else [])"
| "ranked (Then a b) k s = concat (map (\<lambda>(m, r). map (\<lambda>(m', r'). (m @ m', r')) (ranked b k r)) (ranked a k s))"
| "ranked (Maybe a) k s = ranked a k s @ [([], s)]"
| "ranked (In j a) k s = ranked a j s"

fun search_pattern :: "pattern \<Rightarrow> string \<Rightarrow> taken option" where
  "search_pattern p [] = (case ranked p 0 [] of [] \<Rightarrow> None | (m, _) # _ \<Rightarrow> Some m)"
| "search_pattern p (x # s) = (case ranked p 0 (x # s) of [] \<Rightarrow> search_pattern p s | (m, _) # _ \<Rightarrow> Some m)"

definition Some_of :: "(char \<Rightarrow> bool) \<Rightarrow> pattern" where
  "Some_of c = Then (Cls c) (Many c)"

primrec seq :: "pattern list \<Rightarrow> pattern" where
  "seq [] = Word []"
| "seq (p # ps) = Then p (seq ps)"

subsection \<open>The statistics line\<close>

definition number_char :: "char \<Rightarrow> bool" where
  "number_char c = (is_digit c \<or> c = CHR ''.'')"

definition unit_pattern :: pattern where
  "unit_pattern = seq [Maybe (Cls (\<lambda>c. c \<in> set ''KMGTP'')), Maybe (Word ''i''), Word ''B'']"

definition kRe :: pattern where
  "kRe = seq
     [Word ''Transferred:'', Many is_space, In 1 (Some_of number_char), Many is_space, Maybe (In 2 unit_pattern), Many is_space, Word ''/'',
      Many is_space, In 3 (Some_of number_char), Many is_space, Maybe (In 4 unit_pattern), Word '','', Many is_space,
      Some_of is_digit, Word ''%,'', Many is_space, In 5 (Some_of number_char), Many is_space, Maybe (In 6 unit_pattern), Word ''/s'',
      Maybe (seq [Word '','', Many is_space, Word ''ETA'', Many is_space, In 7 (Some_of (\<lambda>c. is_digit c \<or> c \<in> set ''hms-''))])]"

definition unit_to_factor :: "string \<Rightarrow> int" where
  "unit_to_factor u =
     (if u = ''B'' \<or> u = [] then 1
      else if u = ''KiB'' \<or> u = ''K'' then 1024
      else if u = ''MiB'' \<or> u = ''M'' then 1024 * 1024
      else if u = ''GiB'' \<or> u = ''G'' then 1024 * 1024 * 1024
      else if u = ''TiB'' \<or> u = ''T'' then 1024 * 1024 * 1024 * 1024
      else 1)"

text \<open>The loop of \<open>parse_eta\<close> with its total and the number being read, if there is one.\<close>

fun eta_unit :: "char \<Rightarrow> int" where
  "eta_unit c = (if c = CHR ''h'' then 3600 else if c = CHR ''m'' then 60 else if c = CHR ''s'' then 1 else 0)"

fun eta_loop :: "int \<Rightarrow> int option \<Rightarrow> string \<Rightarrow> int" where
  "eta_loop acc num [] = (case num of Some n \<Rightarrow> acc + n | None \<Rightarrow> acc)"
| "eta_loop acc num (c # s) =
     (if is_digit c then eta_loop acc (Some ((case num of Some n \<Rightarrow> n | None \<Rightarrow> 0) * 10 + int (digit_val c))) s
      else (case num of
         Some n \<Rightarrow> eta_loop (acc + n * eta_unit c) None s
       | None \<Rightarrow> eta_loop acc None s))"

definition parse_eta :: "string \<Rightarrow> int" where
  "parse_eta t = (if t = [] \<or> t = ''-'' then 0 else eta_loop 0 None t)"

record parsed_progress =
  pp_uploaded_bytes :: int
  pp_total_bytes :: int
  pp_speed_bps :: int
  pp_eta :: int

text \<open>
  \<open>stod\<close> reads a double, \<open>None\<close> being its exception; factors are powers of two, so the product is exact, and the conversion cuts off
  the fraction. An invalid \<open>ParsedProgress\<close> is \<open>None\<close>.
\<close>

definition scaled :: "(string \<Rightarrow> rat option) \<Rightarrow> string \<Rightarrow> string \<Rightarrow> int option" where
  "scaled stod x u = map_option (\<lambda>v. \<lfloor>v * of_int (unit_to_factor u)\<rfloor>) (stod x)"

definition contains :: "string \<Rightarrow> string \<Rightarrow> bool" where
  "contains w s = list_ex (\<lambda>i. take (length w) (drop i s) = w) [0..<Suc (length s)]"

definition parse_line :: "(string \<Rightarrow> rat option) \<Rightarrow> string \<Rightarrow> parsed_progress option" where
  "parse_line stod line =
     (if \<not> contains ''Transferred:'' line then None
      else (case search_pattern kRe line of
         None \<Rightarrow> None
       | Some m \<Rightarrow>
           (case (scaled stod (capture 1 m) (capture 2 m), scaled stod (capture 3 m) (capture 4 m), scaled stod (capture 5 m) (capture 6 m)) of
              (Some u, Some t, Some v) \<Rightarrow>
                Some \<lparr>pp_uploaded_bytes = u, pp_total_bytes = t, pp_speed_bps = v,
                  pp_eta = (if capture 7 m = [] then 0 else parse_eta (capture 7 m))\<rparr>
            | _ \<Rightarrow> None)))"

subsection \<open>Runs\<close>

definition join_remote :: "string \<Rightarrow> string \<Rightarrow> string" where
  "join_remote base leaf =
     (if base \<noteq> [] \<and> last base \<noteq> CHR ''/'' \<and> last base \<noteq> CHR '':'' then base @ ''/'' @ leaf else base @ leaf)"

definition build_common_rclone_args :: "rclone_config \<Rightarrow> string list" where
  "build_common_rclone_args c =
     [''--progress'', ''--stats=1s'', ''--stats-one-line'',
      ''--transfers='' @ int_to_string (rc_transfers c), ''--checkers='' @ int_to_string (rc_checkers c),
      ''--multi-thread-streams='' @ int_to_string (rc_multi_thread_streams c), ''--multi-thread-cutoff='' @ rc_multi_thread_cutoff c,
      ''--drive-chunk-size='' @ rc_drive_chunk_size c, ''--buffer-size='' @ rc_buffer_size c] @
     (if rc_use_mmap c then [''--use-mmap''] else []) @
     (if rc_fast_list c then [''--fast-list''] else []) @
     (if rc_drive_acknowledge_abuse c then [''--drive-acknowledge-abuse''] else []) @
     [''--log-level='' @ rc_log_level c] @
     (if rc_config_path c \<noteq> [] then [''--config'', rc_config_path c] else []) @
     rc_extra_args c"

text \<open>
  The collaborators. \<open>re_run\<close> gives the lines of standard output in the order they were heard, each with the clock at that moment, and the result of the run.
\<close>

record 'w rclone_env =
  re_config :: rclone_config
  re_stod :: "string \<Rightarrow> rat option"
  re_run :: "subprocess_request \<Rightarrow> ('w, (string \<times> int) list \<times> subprocess_result res) state"
  re_now :: "('w, int) state"
  re_cancelled :: "('w, bool) state"
  re_exists :: "string \<Rightarrow> ('w, bool) state"
  re_is_directory :: "string \<Rightarrow> ('w, bool) state"
  re_notify :: "string \<times> parsed_progress \<Rightarrow> ('w, unit) state"

text \<open>The cached \<open>readiness_\<close> is -1 until a probe.\<close>

definition rclone_ready :: "int \<Rightarrow> bool" where
  "rclone_ready readiness = (readiness = 1)"

definition probe_request :: "rclone_config \<Rightarrow> subprocess_request" where
  "probe_request c = default_subprocess_request\<lparr>sq_executable := rc_executable c, sq_arguments := [''--version'']\<rparr>"

definition probe_rclone :: "'w rclone_env \<Rightarrow> int \<Rightarrow> ('w, bool \<times> int) state" where
  "probe_rclone E readiness =
     (if readiness \<ge> 0 then State_Monad.return (readiness = 1, readiness)
      else do {
        (_, res) \<leftarrow> re_run E (probe_request (re_config E));
        (let ok = (case res of Inr r \<Rightarrow> sr_exit_code r = 0 | Inl _ \<Rightarrow> False) in
         State_Monad.return (ok, if ok then 1 else 0))
      })"

text \<open>
  The listener of standard output: the clock of the last report, the total seen last, and the reports it makes.
\<close>

fun hear_lines :: "(string \<Rightarrow> rat option) \<Rightarrow> bool \<Rightarrow> int \<Rightarrow> int \<Rightarrow> (string \<times> int) list \<Rightarrow> int \<times> (int \<times> parsed_progress) list" where
  "hear_lines stod wanted last_cb seen [] = (seen, [])"
| "hear_lines stod wanted last_cb seen ((line, now) # rest) =
     (case parse_line stod line of
        None \<Rightarrow> hear_lines stod wanted last_cb seen rest
      | Some p \<Rightarrow>
          if \<not> wanted \<or> now - last_cb < 1000 then hear_lines stod wanted last_cb (pp_total_bytes p) rest
          else (case hear_lines stod wanted now (pp_total_bytes p) rest of (seen', ps) \<Rightarrow> (seen', (now, p) # ps)))"

fun tell_all :: "'w rclone_env \<Rightarrow> string \<Rightarrow> (int \<times> parsed_progress) list \<Rightarrow> ('w, unit) state" where
  "tell_all E name [] = State_Monad.return ()"
| "tell_all E name ((_, p) # ps) = do { _ \<leftarrow> re_notify E (name, p); tell_all E name ps }"

definition transfer_request :: "rclone_config \<Rightarrow> string list \<Rightarrow> subprocess_request" where
  "transfer_request c args = default_subprocess_request\<lparr>sq_executable := rc_executable c, sq_arguments := args, sq_listen_stdout := True\<rparr>"

definition rclone_failed :: "subprocess_result \<Rightarrow> app_error" where
  "rclone_failed r = mk_error EC_RcloneInvocation (''rclone: exited '' @ int_to_string (sr_exit_code r) @ '': '' @ sr_stderr_data r)"

definition run_rclone :: "'w rclone_env \<Rightarrow> string list \<Rightarrow> string \<Rightarrow> bool \<Rightarrow> int \<Rightarrow> ('w, upload_result res \<times> int) state" where
  "run_rclone E args display_name wanted readiness = do {
     started \<leftarrow> re_now E;
     (ok, readiness) \<leftarrow> probe_rclone E readiness;
     (if \<not> ok then State_Monad.return (Inl (mk_error EC_RcloneInvocation ''rclone: binary unavailable (probe failed)''), readiness)
      else do {
        stopped \<leftarrow> re_cancelled E;
        (if stopped then State_Monad.return (Inl (mk_error EC_Cancelled ''rclone: cancelled''), readiness)
         else do {
           now \<leftarrow> re_now E;
           (heard, res) \<leftarrow> re_run E (transfer_request (re_config E) args);
           (case hear_lines (re_stod E) wanted (now - 2000) 0 heard of (seen, reports) \<Rightarrow> do {
              _ \<leftarrow> tell_all E display_name reports;
              (case res of
                 Inl e \<Rightarrow> State_Monad.return (Inl e, readiness)
               | Inr r \<Rightarrow>
                   if sr_exit_code r \<noteq> 0 then State_Monad.return (Inl (rclone_failed r), readiness)
                   else do {
                     finished \<leftarrow> re_now E;
                     State_Monad.return (Inr (empty_upload_result\<lparr>ur_file_id := display_name, ur_size := seen, ur_duration := finished - started\<rparr>),
                       readiness)
                   })
            })
         })
      })
   }"

definition no_rclone_path :: app_error where
  "no_rclone_path = mk_error EC_InvalidArgument (''rclone: UploadConfig.rclone_path is required ('' @ [CHR 0x22] @ ''remote:path'' @ [CHR 0x22] @ '')'')"

definition rclone_target :: "upload_config \<Rightarrow> string option" where
  "rclone_target cfg = (case uc_rclone_path cfg of Some r \<Rightarrow> if r = [] then None else Some r | None \<Rightarrow> None)"

definition transfer_args :: "rclone_config \<Rightarrow> string \<Rightarrow> string \<Rightarrow> string \<Rightarrow> string list" where
  "transfer_args c verb path remote = [verb, path, join_remote remote (path_filename path)] @ build_common_rclone_args c"

definition rclone_upload_file :: "'w rclone_env \<Rightarrow> string \<Rightarrow> upload_config \<Rightarrow> bool \<Rightarrow> int \<Rightarrow> ('w, upload_result res \<times> int) state" where
  "rclone_upload_file E path cfg wanted readiness =
     (case rclone_target cfg of
        None \<Rightarrow> State_Monad.return (Inl no_rclone_path, readiness)
      | Some remote \<Rightarrow> do {
          there \<leftarrow> re_exists E path;
          (if \<not> there then State_Monad.return (Inl (mk_error EC_NotFound (''rclone: file not found: '' @ path)), readiness)
           else run_rclone E (transfer_args (re_config E) ''copyto'' path remote) (path_filename path) wanted readiness)
        })"

definition rclone_upload_directory :: "'w rclone_env \<Rightarrow> string \<Rightarrow> upload_config \<Rightarrow> bool \<Rightarrow> int \<Rightarrow> ('w, upload_result list res \<times> int) state" where
  "rclone_upload_directory E path cfg wanted readiness =
     (case rclone_target cfg of
        None \<Rightarrow> State_Monad.return (Inl no_rclone_path, readiness)
      | Some remote \<Rightarrow> do {
          there \<leftarrow> re_is_directory E path;
          (if \<not> there then State_Monad.return (Inl (mk_error EC_InvalidArgument (''rclone: not a directory: '' @ path)), readiness)
           else do {
             (single, readiness) \<leftarrow> run_rclone E (transfer_args (re_config E) ''copy'' path remote) (path_filename path) wanted readiness;
             State_Monad.return (case single of Inl e \<Rightarrow> Inl e | Inr r \<Rightarrow> Inr [r], readiness)
           })
        })"

end
