(* ===== verification/Rclone_Runs.thy ===== *)
theory Rclone_Runs
  imports Rclone_Uploader
begin

text \<open>
  What the rclone adapter guarantees: statistics lines are read back, reports are a second apart, and an upload is one addressed run of the binary whose
  exit code decides the result.
\<close>

subsection \<open>The first match\<close>

definition leads :: "pattern \<Rightarrow> nat \<Rightarrow> string \<Rightarrow> taken \<Rightarrow> string \<Rightarrow> bool" where
  "leads p k s m r \<longleftrightarrow> (\<exists>xs. ranked p k s = (m, r) # xs)"

lemma leads_word: "leads (Word w) k (w @ s) (tagged k w) s"
  by (simp add: leads_def)

lemma leads_cls: "c x \<Longrightarrow> leads (Cls c) k (x # s) [(k, x)] s"
  by (simp add: leads_def)

lemma leads_many: "\<lbrakk>list_all c u; s = [] \<or> \<not> c (hd s)\<rbrakk> \<Longrightarrow> leads (Many c) k (u @ s) (tagged k u) s"
proof -
  assume u: "list_all c u" and s: "s = [] \<or> \<not> c (hd s)"
  have "takeWhile c (u @ s) = u"
    using u s by (cases s) (auto simp: takeWhile_append list_all_iff)
  then show ?thesis by (simp add: leads_def)
qed

lemma leads_then: "\<lbrakk>leads a k s m r; leads b k r m' r'\<rbrakk> \<Longrightarrow> leads (Then a b) k s (m @ m') r'"
  by (auto simp: leads_def)

lemma leads_maybe: "leads a k s m r \<Longrightarrow> leads (Maybe a) k s m r"
  by (auto simp: leads_def)

lemma leads_skip: "ranked a k s = [] \<Longrightarrow> leads (Maybe a) k s [] s"
  by (simp add: leads_def)

lemma leads_in: "leads a j s m r \<Longrightarrow> leads (In j a) k s m r"
  by (simp add: leads_def)

lemma leads_some_of: "\<lbrakk>u \<noteq> []; list_all c u; s = [] \<or> \<not> c (hd s)\<rbrakk> \<Longrightarrow> leads (Some_of c) k (u @ s) (tagged k u) s"
  using leads_then [OF leads_cls [of c "hd u" k "tl u @ s"] leads_many [of c "tl u" s k]]
  by (cases u) (simp_all add: Some_of_def)

lemma leads_seq: "leads (seq []) k s [] s" "\<lbrakk>leads p k s m r; leads (seq ps) k r m' r'; m'' = m @ m'\<rbrakk> \<Longrightarrow> leads (seq (p # ps)) k s m'' r'"
  using leads_word [of "[]" k s] by (auto intro: leads_then)

definition rclone_units :: "string list" where
  "rclone_units = [''B'', ''KiB'', ''MiB'', ''GiB'', ''TiB'', ''PiB'']"

lemma leads_unit: "u \<in> set rclone_units \<Longrightarrow> leads unit_pattern k (u @ s) (tagged k u) s"
  unfolding rclone_units_def unit_pattern_def leads_def by (auto simp: take_Cons')

lemma leads_search: "\<lbrakk>leads p 0 s m r; list_all (\<lambda>c. \<forall>s'. ranked p 0 (c # s') = []) pre\<rbrakk> \<Longrightarrow> search_pattern p (pre @ s) = Some m"
proof (induction pre)
  case Nil
  then show ?case by (cases s) (auto simp: leads_def)
qed simp

subsection \<open>Statistics lines\<close>

definition stats_line :: "string \<Rightarrow> string \<Rightarrow> string \<Rightarrow> string \<Rightarrow> nat \<Rightarrow> string \<Rightarrow> string \<Rightarrow> string \<Rightarrow> string" where
  "stats_line a u b v p s w eta =
     ''Transferred:'' @ ''   '' @ a @ '' '' @ u @ '' '' @ ''/'' @ '' '' @ b @ '' '' @ v @ '','' @ '' '' @ nat_digits p @ ''%,'' @ '' '' @ s @ '' '' @ w @ ''/s''
       @ '','' @ '' '' @ ''ETA'' @ '' '' @ eta"

lemma stats_chars [simp]:
  "is_space CHR '' ''" "\<not> is_space CHR ''/''" "\<not> is_space CHR '',''" "\<not> is_space CHR ''E''" "\<not> number_char CHR '' ''" "\<not> is_digit CHR ''%''"
  by (simp_all add: is_space_def number_char_def is_digit_def)

lemma not_space: "number_char c \<Longrightarrow> \<not> is_space c" "is_digit c \<Longrightarrow> \<not> is_space c" "\<lbrakk>is_digit c \<or> c \<in> set ''hms-''\<rbrakk> \<Longrightarrow> \<not> is_space c"
  by (auto simp: number_char_def is_space_def is_digit_def)

text \<open>A number, a unit and a time as they are printed.\<close>

definition printed :: "(char \<Rightarrow> bool) \<Rightarrow> string \<Rightarrow> bool" where
  "printed c x = (x \<noteq> [] \<and> list_all c x)"

definition eta_char :: "char \<Rightarrow> bool" where
  "eta_char c = (is_digit c \<or> c \<in> set ''hms-'')"

lemma printed_hd:
  "printed number_char x \<Longrightarrow> \<not> is_space (hd (x @ s))" "printed eta_char x \<Longrightarrow> \<not> is_space (hd (x @ s))" "printed is_digit x \<Longrightarrow> \<not> is_space (hd (x @ s))"
  by (cases x; use not_space [of "hd x"] in \<open>simp add: printed_def eta_char_def\<close>)+

lemma unit_hd: "u \<in> set rclone_units \<Longrightarrow> \<not> is_space (hd (u @ s))"
  by (auto simp: rclone_units_def is_space_def)

lemma leads_printed: "\<lbrakk>printed c x; s = [] \<or> \<not> c (hd s)\<rbrakk> \<Longrightarrow> leads (In j (Some_of c)) k (x @ s) (tagged j x) s"
  by (auto simp: printed_def intro: leads_in leads_some_of)

lemma leads_count: "\<lbrakk>printed c x; s = [] \<or> \<not> c (hd s)\<rbrakk> \<Longrightarrow> leads (Some_of c) k (x @ s) (tagged k x) s"
  by (auto simp: printed_def intro: leads_some_of)

lemma leads_unit_in: "u \<in> set rclone_units \<Longrightarrow> leads (Maybe (In j unit_pattern)) k (u @ s) (tagged j u) s"
  by (intro leads_maybe leads_in leads_unit)

lemma leads_space: "\<not> is_space (hd s) \<Longrightarrow> leads (Many is_space) k ('' '' @ s) (tagged k '' '') s"
  by (rule leads_many) simp_all

lemma leads_spaces: "\<not> is_space (hd s) \<Longrightarrow> leads (Many is_space) k (''   '' @ s) (tagged k ''   '') s"
  by (rule leads_many) simp_all

lemma leads_step: "\<lbrakk>leads p k (x @ s) m s; leads (seq ps) k s m' r'\<rbrakk> \<Longrightarrow> leads (seq (p # ps)) k (x @ s) (m @ m') r'"
  by (rule leads_seq(2)) simp_all

lemma leads_stop: "leads (seq []) k [] [] []"
  by (rule leads_seq(1))

lemma leads_kRe:
  assumes "printed number_char a" "printed number_char b" "printed number_char s" "printed eta_char e"
    and "u \<in> set rclone_units" "v \<in> set rclone_units" "w \<in> set rclone_units"
  shows "leads kRe 0 (stats_line a u b v p s w e)
    (tagged 0 ''Transferred:'' @ tagged 0 ''   '' @ tagged 1 a @ tagged 0 '' '' @ tagged 2 u @ tagged 0 '' '' @ tagged 0 ''/'' @ tagged 0 '' '' @ tagged 3 b
      @ tagged 0 '' '' @ tagged 4 v @ tagged 0 '','' @ tagged 0 '' '' @ tagged 0 (nat_digits p) @ tagged 0 ''%,'' @ tagged 0 '' '' @ tagged 5 s @ tagged 0 '' ''
      @ tagged 6 w @ tagged 0 ''/s'' @ tagged 0 '','' @ tagged 0 '' '' @ tagged 0 ''ETA'' @ tagged 0 '' '' @ tagged 7 e) []"
proof -
  note rules = leads_step leads_stop leads_maybe leads_word leads_space leads_spaces leads_printed leads_count leads_unit_in
  have p: "printed is_digit (nat_digits p)"
    by (auto simp: printed_def list_all_iff nat_digits_digits)
  have eta: "leads (Maybe (seq [Word '','', Many is_space, Word ''ETA'', Many is_space, In 7 (Some_of eta_char)])) 0
      ('','' @ '' '' @ ''ETA'' @ '' '' @ e @ []) (tagged 0 '','' @ tagged 0 '' '' @ tagged 0 ''ETA'' @ tagged 0 '' '' @ tagged 7 e @ []) []"
    by (intro rules) (use assms printed_hd(2) [OF assms(4), of "[]"] in simp_all)
  have ends: "leads (seq [Maybe (seq [Word '','', Many is_space, Word ''ETA'', Many is_space, In 7 (Some_of eta_char)])]) 0
      ('','' @ '' '' @ ''ETA'' @ '' '' @ e @ []) ((tagged 0 '','' @ tagged 0 '' '' @ tagged 0 ''ETA'' @ tagged 0 '' '' @ tagged 7 e @ []) @ []) []"
    by (rule leads_seq(2) [OF eta leads_seq(1)]) simp
  have "leads kRe 0 (stats_line a u b v p s w (e @ []))
    (tagged 0 ''Transferred:'' @ tagged 0 ''   '' @ tagged 1 a @ tagged 0 '' '' @ tagged 2 u @ tagged 0 '' '' @ tagged 0 ''/'' @ tagged 0 '' '' @ tagged 3 b
      @ tagged 0 '' '' @ tagged 4 v @ tagged 0 '','' @ tagged 0 '' '' @ tagged 0 (nat_digits p) @ tagged 0 ''%,'' @ tagged 0 '' '' @ tagged 5 s @ tagged 0 '' ''
      @ tagged 6 w @ tagged 0 ''/s'' @ (tagged 0 '','' @ tagged 0 '' '' @ tagged 0 ''ETA'' @ tagged 0 '' '' @ tagged 7 e @ []) @ []) []"
    unfolding kRe_def stats_line_def eta_char_def [abs_def, symmetric]
    by (intro ends leads_step leads_unit_in leads_printed leads_count leads_word leads_space leads_spaces)
      (use assms p printed_hd(3) [OF p, of "[]"] in \<open>simp_all add: printed_hd unit_hd\<close>)
  then show ?thesis by simp
qed

lemma ranked_kRe_other: "c \<noteq> CHR ''T'' \<Longrightarrow> ranked kRe 0 (c # s) = []"
proof -
  assume "c \<noteq> CHR ''T''"
  then have "ranked (Word ''Transferred:'') 0 (c # s) = []" by simp
  then show ?thesis unfolding kRe_def seq.simps(2) ranked.simps(4) by (simp only: list.map concat.simps)
qed

text \<open>A remaining time of so many seconds, as rclone prints it below a day.\<close>

definition rclone_time :: "nat \<Rightarrow> string" where
  "rclone_time t =
     (if t div 3600 > 0 then nat_digits (t div 3600) @ ''h'' else []) @
     (if t div 60 > 0 then nat_digits (t div 60 mod 60) @ ''m'' else []) @ nat_digits (t mod 60) @ ''s''"

lemma eta_loop_digits:
  "\<lbrakk>list_all is_digit d; d \<noteq> []\<rbrakk> \<Longrightarrow>
    eta_loop acc num (d @ s) = eta_loop acc (Some ((case num of Some n \<Rightarrow> n | None \<Rightarrow> 0) * 10 ^ length d + int (digits_val d))) s"
proof (induction d arbitrary: num)
  case (Cons c d)
  then show ?case by (cases "d = []") (simp_all add: algebra_simps)
qed simp

lemma eta_loop_unit: "x \<in> set ''hms'' \<Longrightarrow> eta_loop acc None (nat_digits n @ x # s) = eta_loop (acc + int n * eta_unit x) None s"
proof -
  assume x: "x \<in> set ''hms''"
  have "list_all is_digit (nat_digits n)" by (simp add: list_all_iff nat_digits_digits)
  moreover have "\<not> is_digit x" using x by (auto simp: is_digit_def)
  ultimately show ?thesis using eta_loop_digits [of "nat_digits n" acc None "x # s"] by simp
qed

lemma parse_rclone_time: "parse_eta (rclone_time t) = int t"
proof -
  have parts: "t div 3600 * 3600 + t div 60 mod 60 * 60 + t mod 60 = t" "t div 60 * 60 + t mod 60 = t"
    using div_mult2_eq [of t 60 60, simplified] div_mult_mod_eq [of "t div 60" 60] div_mult_mod_eq [of t 60] by linarith+
  have "int (t div 3600) * 3600 + int (t div 60 mod 60) * 60 + int (t mod 60) = int t" "int (t div 60) * 60 + int (t mod 60) = int t"
    using parts [THEN arg_cong [where f = int], unfolded of_nat_add of_nat_mult of_nat_numeral] .
  then have "eta_loop 0 None (rclone_time t) = int t"
    by (auto simp: rclone_time_def eta_loop_unit eta_loop_unit [where s = "[]"])
  moreover have "rclone_time t \<noteq> ''-''" "rclone_time t \<noteq> []"
    by (auto simp: rclone_time_def dest: arg_cong [where f = last])
  ultimately show ?thesis by (simp add: parse_eta_def)
qed

lemma printed_rclone_time: "printed eta_char (rclone_time t)"
  by (auto simp: printed_def rclone_time_def eta_char_def list_all_iff nat_digits_digits)


definition sample_stod :: "string \<Rightarrow> rat option" where
  "sample_stod t = (if t = ''12.5'' then Some (25 / 2) else if t = ''100'' then Some 100 else if t = ''2'' then Some 2 else None)"


text \<open>The pattern lets pebibytes through, but they are read as bytes.\<close>

theorem rclone_pebibytes_are_bytes: "leads unit_pattern k (''PiB'' @ s) (tagged k ''PiB'') s \<and> unit_to_factor ''PiB'' = 1"
  using leads_unit [of "''PiB''" k s] by (simp add: rclone_units_def unit_to_factor_def)

subsection \<open>Reports\<close>

fun gapped :: "int \<Rightarrow> int list \<Rightarrow> bool" where
  "gapped gap (t # t' # ts) = (t' - t \<ge> gap \<and> gapped gap (t' # ts))"
| "gapped gap _ = True"

text \<open>
  Whatever the clock shows, the first report of a transfer is a second or more behind \<open>last_cb\<close> and every two reports in a row are a second apart or more.
\<close>
theorem rclone_reports_apart: "gapped 1000 (last_cb # map fst (snd (hear_lines stod wanted last_cb seen heard)))"
  by (induction stod wanted last_cb seen heard rule: hear_lines.induct)
    (auto split: option.split prod.split)

text \<open>The total is that of the last line that could be read.\<close>

lemma hear_lines_total:
  "fst (hear_lines stod wanted last_cb seen heard) = fold (\<lambda>l t. case parse_line stod (fst l) of None \<Rightarrow> t | Some p \<Rightarrow> pp_total_bytes p) heard seen"
  by (induction stod wanted last_cb seen heard rule: hear_lines.induct) (auto split: option.split prod.split)

subsection \<open>Uploads\<close>

text \<open>The same collaborators with a log of the runs and their results.\<close>

type_synonym run_log = "(subprocess_request \<times> (string \<times> int) list \<times> subprocess_result res) list"

definition unheard :: "('w, 'a) state \<Rightarrow> ('w \<times> run_log, 'a) state" where
  "unheard f = State (\<lambda>(w, l). case run_state f w of (r, w') \<Rightarrow> (r, w', l))"

definition spied_rclone :: "'w rclone_env \<Rightarrow> ('w \<times> run_log) rclone_env" where
  "spied_rclone E =
     \<lparr>re_config = re_config E, re_stod = re_stod E,
      re_run = (\<lambda>req. State (\<lambda>(w, l). case run_state (re_run E req) w of (r, w') \<Rightarrow> (r, w', l @ [(req, r)]))),
      re_now = unheard (re_now E), re_cancelled = unheard (re_cancelled E), re_exists = (\<lambda>p. unheard (re_exists E p)),
      re_is_directory = (\<lambda>p. unheard (re_is_directory E p)), re_notify = (\<lambda>x. unheard (re_notify E x))\<rparr>"

lemma wp_unheard: "(\<And>r w'. Q r (w', l)) \<Longrightarrow> wp (unheard f) Q (w, l)"
  by (simp add: wp_def unheard_def split: prod.splits)

lemma wp_spied_rclone:
  "(\<And>t w'. Q t (w', l)) \<Longrightarrow> wp (re_now (spied_rclone E)) Q (w, l)"
  "(\<And>b w'. R b (w', l)) \<Longrightarrow> wp (re_cancelled (spied_rclone E)) R (w, l)"
  "(\<And>b w'. R b (w', l)) \<Longrightarrow> wp (re_exists (spied_rclone E) p) R (w, l)"
  "(\<And>b w'. R b (w', l)) \<Longrightarrow> wp (re_is_directory (spied_rclone E) p) R (w, l)"
  "(\<And>x w'. U x (w', l)) \<Longrightarrow> wp (re_notify (spied_rclone E) y) U (w, l)"
  "(\<And>x w'. S x (w', l @ [(req, x)])) \<Longrightarrow> wp (re_run (spied_rclone E) req) S (w, l)"
  by (simp_all add: spied_rclone_def wp_unheard) (simp add: wp_def split: prod.splits)

lemma spied_fields [simp]: "re_config (spied_rclone E) = re_config E" "re_stod (spied_rclone E) = re_stod E"
  by (simp_all add: spied_rclone_def)

lemma wp_tell_all: "(\<And>x w'. Q x (w', l)) \<Longrightarrow> wp (tell_all (spied_rclone E) name ps) Q (w, l)"
  by (induction "spied_rclone E" name ps arbitrary: w rule: tell_all.induct) (auto intro!: wp_spied_rclone)

text \<open>The probes of a log: none behind an answer that is kept, else one.\<close>

fun exit_ok :: "subprocess_result res \<Rightarrow> bool" where
  "exit_ok (Inr r) = (sr_exit_code r = 0)"
| "exit_ok (Inl _) = False"

definition probes :: "rclone_config \<Rightarrow> int \<Rightarrow> int \<Rightarrow> run_log \<Rightarrow> bool" where
  "probes c readiness readiness' l \<longleftrightarrow>
     (if 0 \<le> readiness then l = [] \<and> readiness' = readiness
      else (\<exists>heard r. l = [(probe_request c, heard, r)] \<and> readiness' = (if exit_ok r then 1 else 0)))"

lemma wp_probe_rclone:
  assumes "\<And>rd w' x. probes (re_config E) readiness rd x \<Longrightarrow> Q (rd = 1, rd) (w', l @ x)"
  shows "wp (probe_rclone (spied_rclone E) readiness) Q (w, l)"
proof (cases "0 \<le> readiness")
  case True
  with assms [of readiness "[]"] show ?thesis by (simp add: probe_rclone_def probes_def)
next
  case False
  have ok: "Q (ok, if ok then 1 else 0) (w', l @ [(probe_request (re_config E), heard, r)])" if "ok = exit_ok r" for ok heard r w'
    using assms [of "if ok then 1 else 0" "[(probe_request (re_config E), heard, r)]" w'] that False by (auto simp: probes_def split: if_splits)
  from False show ?thesis
    by (auto simp: probe_rclone_def Let_def intro!: wp_spied_rclone ok split: sum.splits)
qed

text \<open>What a call made: nothing at all, a failed probe, or one transfer whose exit code decides.\<close>

definition heard_total :: "(string \<Rightarrow> rat option) \<Rightarrow> (string \<times> int) list \<Rightarrow> int" where
  "heard_total stod heard = fold (\<lambda>l t. case parse_line stod (fst l) of None \<Rightarrow> t | Some p \<Rightarrow> pp_total_bytes p) heard 0"

definition transfer_log :: "'w rclone_env \<Rightarrow> string list \<Rightarrow> string \<Rightarrow> int \<Rightarrow> upload_result res \<Rightarrow> int \<Rightarrow> run_log \<Rightarrow> bool" where
  "transfer_log E args name readiness r readiness' l \<longleftrightarrow>
     probes (re_config E) readiness readiness' l \<and> isl r \<or>
     (\<exists>p heard res. l = p @ [(transfer_request (re_config E) args, heard, res)] \<and> probes (re_config E) readiness readiness' p \<and> readiness' = 1 \<and>
        (if exit_ok res then \<exists>d. r = Inr (empty_upload_result\<lparr>ur_file_id := name, ur_size := heard_total (re_stod E) heard, ur_duration := d\<rparr>)
         else isl r))"

lemma wp_run_rclone:
  assumes "\<And>r rd w' x. transfer_log E args name readiness r rd x \<Longrightarrow> Q (r, rd) (w', l @ x)"
  shows "wp (run_rclone (spied_rclone E) args name wanted readiness) Q (w, l)"
proof -
  have refused: "Q (Inl e, rd) (w', l @ x)" if "probes (re_config E) readiness rd x" for e rd w' x
    using that by (intro assms) (simp add: transfer_log_def)
  have failed: "Q (Inl e, 1) (w', l @ x @ [(transfer_request (re_config E) args, heard, res)])"
    if "probes (re_config E) readiness 1 x" "\<not> exit_ok res" for e w' x heard res
    using that by (intro assms) (auto simp: transfer_log_def)
  have done_ok: "Q (Inr (empty_upload_result\<lparr>ur_file_id := name, ur_size := seen, ur_duration := d\<rparr>), 1)
      (w', l @ x @ [(transfer_request (re_config E) args, heard, res)])"
    if "probes (re_config E) readiness 1 x" "exit_ok res" "seen = heard_total (re_stod E) heard" for w' x heard res seen d
    using that by (intro assms) (auto simp: transfer_log_def)
  have total: "seen = heard_total (re_stod E) heard" if "hear_lines (re_stod E) wanted t 0 heard = (seen, reports)" for seen reports t heard
    using hear_lines_total [of "re_stod E" wanted t 0 heard] that by (simp add: heard_total_def)
  show ?thesis
    unfolding run_rclone_def
    by (auto intro!: wp_spied_rclone wp_probe_rclone wp_tell_all simp: refused failed done_ok dest!: total [OF sym] split: prod.splits sum.splits)
qed


text \<open>
  A transfer has the default limit of five minutes, and a transfer that was ended by it counts as complete when the binary then exits with 0.
\<close>
theorem rclone_timeout_is_success:
  assumes "run_state (re_run E (transfer_request (re_config E) args)) w = (([], Inr r), w)" "sr_timed_out r" "sr_exit_code r = 0"
    and "run_state (re_now E) w = (t, w)" "run_state (re_cancelled E) w = (False, w)"
  shows "sq_timeout (transfer_request (re_config E) args) = 300000 \<and> \<not> isl (fst (fst (run_state (run_rclone E args name wanted 1) w)))"
  using assms by (simp add: run_rclone_def probe_rclone_def transfer_request_def default_subprocess_request_def run_simps)

end
