(* ===== verification/Media_Tools.thy ===== *)
theory Media_Tools
  imports Subprocess Json Domain Encodings
begin

text \<open>
  The media adapters, \<open>src/infrastructure/media/seven_zip_archive_processor.cpp\<close> and \<open>ffmpeg_media_processor.cpp\<close>: argument lists for \<open>7z\<close>, \<open>ffmpeg\<close> and \<open>ffprobe\<close>
  and readers of what they print. Running a subprocess, the file system, the JSON library and double arithmetic are collaborators.
\<close>

subsection \<open>Checked runs\<close>

type_synonym 'w runner = "subprocess_request \<Rightarrow> ('w, subprocess_result res) state"

definition run_subprocess :: "string \<Rightarrow> 'w runner \<Rightarrow> subprocess_request \<Rightarrow> error_code \<Rightarrow> ('w, subprocess_result res) state" where
  "run_subprocess tool run req failure_code = do {
     result \<leftarrow> run req;
     State_Monad.return (case result of
        Inl e \<Rightarrow> Inl e
      | Inr r \<Rightarrow>
          if sr_exit_code r \<noteq> 0
          then Inl (mk_error failure_code (tool @ '' exited with code '' @ int_to_string (sr_exit_code r) @ '': '' @ sr_stderr_data r))
          else Inr r)
   }"

text \<open>The two files have a copy each; they differ in the first word of the message.\<close>

definition run_7z :: "'w runner \<Rightarrow> subprocess_request \<Rightarrow> ('w, subprocess_result res) state" where
  "run_7z run req = run_subprocess ''7z'' run req EC_ArchiveProcessing"

definition run_media :: "'w runner \<Rightarrow> subprocess_request \<Rightarrow> ('w, subprocess_result res) state" where
  "run_media run req = run_subprocess ''subprocess'' run req EC_MediaProcessing"

subsection \<open>Archives\<close>

definition ascii_lower :: "string \<Rightarrow> string" where
  "ascii_lower s = map to_lower s"

definition kSingleExtensions :: "string list" where
  "kSingleExtensions = [''.zip'', ''.rar'', ''.7z'', ''.tar'', ''.gz'', ''.tgz'', ''.bz2'', ''.xz'', ''.iso'']"

definition kCompoundSuffixes :: "string list" where
  "kCompoundSuffixes = [''.tar.gz'', ''.tar.bz2'', ''.tar.xz'']"

definition ends_with :: "string \<Rightarrow> string \<Rightarrow> bool" where
  "ends_with t suf = (length suf \<le> length t \<and> drop (length t - length suf) t = suf)"

definition can_handle :: "string \<Rightarrow> bool" where
  "can_handle archive =
     (let n = ascii_lower (path_filename archive) in
      if list_ex (ends_with n) kCompoundSuffixes then True else list_ex (ends_with n) kSingleExtensions)"

record extract_options =
  xo_password :: "string option"
  xo_overwrite_existing :: bool

record create_options =
  co_password :: "string option"
  co_encrypt_header :: bool
  co_split_volume_size :: "int option"
  co_compression_level :: int

text \<open>\<open>ae_walk\<close> lists what the recursive iterator shows before it ends or fails, and which of it are regular files.\<close>

record 'w archive_env =
  ae_run :: "'w runner"
  ae_seven_zip_path :: string
  ae_create_directories :: "string \<Rightarrow> ('w, string option) state"
  ae_walk :: "string \<Rightarrow> ('w, (string \<times> bool) list) state"

definition password_args :: "string option \<Rightarrow> string list" where
  "password_args pw = (case pw of Some p \<Rightarrow> [''-p'' @ p] | None \<Rightarrow> [])"

definition seven_zip :: "'w archive_env \<Rightarrow> string list \<Rightarrow> subprocess_request" where
  "seven_zip E args = default_subprocess_request\<lparr>sq_executable := ae_seven_zip_path E, sq_arguments := args\<rparr>"

definition extract_args :: "string \<Rightarrow> string \<Rightarrow> extract_options \<Rightarrow> string list" where
  "extract_args archive output_dir opts =
     [''x'', if xo_overwrite_existing opts then ''-aoa'' else ''-aos'', ''-y'', ''-o'' @ output_dir] @ password_args (xo_password opts) @ [archive]"

definition extract_archive :: "'w archive_env \<Rightarrow> string \<Rightarrow> string \<Rightarrow> extract_options \<Rightarrow> ('w, string list res) state" where
  "extract_archive E archive output_dir opts = do {
     ec \<leftarrow> ae_create_directories E output_dir;
     (case ec of
        Some what \<Rightarrow> State_Monad.return (Inl (mk_error EC_FileSystem (''failed to create output directory: '' @ what)))
      | None \<Rightarrow> do {
          r \<leftarrow> run_7z (ae_run E) (seven_zip E (extract_args archive output_dir opts));
          (case r of
             Inl e \<Rightarrow> State_Monad.return (Inl e)
           | Inr _ \<Rightarrow> do {
               entries \<leftarrow> ae_walk E output_dir;
               State_Monad.return (Inr (map fst (filter snd entries)))
             })
        })
   }"

definition create_args :: "string \<Rightarrow> string list \<Rightarrow> create_options \<Rightarrow> string list" where
  "create_args output inputs opts =
     [''a'', ''-t7z'', ''-y''] @
     (case co_password opts of Some p \<Rightarrow> (''-p'' @ p) # (if co_encrypt_header opts then [''-mhe=on''] else []) | None \<Rightarrow> []) @
     (case co_split_volume_size opts of Some n \<Rightarrow> [''-v'' @ int_to_string n @ ''b''] | None \<Rightarrow> []) @
     [''-mx='' @ int_to_string (max 0 (min 9 (co_compression_level opts))), output] @ inputs"

definition create_archive :: "'w archive_env \<Rightarrow> string \<Rightarrow> string list \<Rightarrow> create_options \<Rightarrow> ('w, string res) state" where
  "create_archive E output inputs opts =
     (if inputs = [] then State_Monad.return (Inl (mk_error EC_InvalidArgument ''create_archive requires at least one input path''))
      else do {
        r \<leftarrow> run_7z (ae_run E) (seven_zip E (create_args output inputs opts));
        State_Monad.return (case r of Inl e \<Rightarrow> Inl e | Inr _ \<Rightarrow> Inr output)
      })"

text \<open>The loop over the lines of \<open>7z l -slt\<close>.\<close>

definition kPrefix :: string where
  "kPrefix = ''Path = ''"

lemma rest_shorter: "s \<noteq> [] \<Longrightarrow> length (dropWhile P s) - Suc 0 < length s"
  using length_dropWhile_le [of P s] by (cases s) (simp_all add: less_Suc_eq_le)

function entries_loop :: "bool \<Rightarrow> string \<Rightarrow> string list" where
  "entries_loop seen_first_record s =
     (if s = [] then []
      else let line = strip_cr (takeWhile (\<lambda>c. c \<noteq> CHR 0x0A) s); rest = tl (dropWhile (\<lambda>c. c \<noteq> CHR 0x0A) s) in
        if take (length kPrefix) line = kPrefix
        then (if \<not> seen_first_record then entries_loop True rest else drop (length kPrefix) line # entries_loop True rest)
        else entries_loop seen_first_record rest)"
  by auto

termination
  by (relation "measure (\<lambda>(_, s). length s)") (simp_all add: rest_shorter)

declare entries_loop.simps [simp del]

definition list_args :: "string \<Rightarrow> string option \<Rightarrow> string list" where
  "list_args archive pw = [''l'', ''-slt'', ''-y''] @ password_args pw @ [archive]"

definition list_contents :: "'w archive_env \<Rightarrow> string \<Rightarrow> string option \<Rightarrow> ('w, string list res) state" where
  "list_contents E archive pw = do {
     r \<leftarrow> run_7z (ae_run E) (seven_zip E (list_args archive pw));
     State_Monad.return (case r of Inl e \<Rightarrow> Inl e | Inr x \<Rightarrow> Inr (entries_loop False (sr_stdout_data x)))
   }"

subsection \<open>Probing\<close>

text \<open>
  \<open>me_stod\<close> is \<open>std::stod\<close>, \<open>None\<close> being its exception; \<open>me_div\<close> divides doubles, \<open>me_round\<close> rounds a number to a double,
  and \<open>me_wild\<close> is what the platform makes of a double that does not fit 64 bits.
\<close>

record ('w, 'j) media_env =
  me_run :: "'w runner"
  me_ffmpeg_path :: string
  me_ffprobe_path :: string
  me_json :: "'j json_view"
  me_stod :: "string \<Rightarrow> fp option"
  me_div :: "fp \<Rightarrow> fp \<Rightarrow> fp"
  me_round :: "rat \<Rightarrow> rat"
  me_wild :: int
  me_file_size :: "string \<Rightarrow> ('w, int option) state"

definition cast_int64 :: "('w, 'j) media_env \<Rightarrow> rat \<Rightarrow> int" where
  "cast_int64 E q =
     (let i = (if q < 0 then \<lceil>q\<rceil> else \<lfloor>q\<rfloor>) in if - (2 ^ 63) \<le> i \<and> i < 2 ^ 63 then i else me_wild E)"

definition parse_rational :: "('w, 'j) media_env \<Rightarrow> string \<Rightarrow> fp" where
  "parse_rational E t =
     (case dropWhile (\<lambda>c. c \<noteq> CHR ''/'') t of
        [] \<Rightarrow> (case me_stod E t of Some x \<Rightarrow> x | None \<Rightarrow> Finite 0)
      | _ # after \<Rightarrow>
          (case (me_stod E (takeWhile (\<lambda>c. c \<noteq> CHR ''/'') t), me_stod E after) of
             (Some num, Some den) \<Rightarrow> if den = Finite 0 then Finite 0 else me_div E num den
           | _ \<Rightarrow> Finite 0))"

definition parse_duration_seconds :: "('w, 'j) media_env \<Rightarrow> string \<Rightarrow> int" where
  "parse_duration_seconds E t =
     (case me_stod E t of
        None \<Rightarrow> 0
      | Some (Finite q) \<Rightarrow> if q < 0 then 0 else cast_int64 E (me_round E (q * 1000))
      | Some (Infinite negative) \<Rightarrow> if negative then 0 else me_wild E
      | Some NaN \<Rightarrow> me_wild E)"

definition parse_int64 :: "string \<Rightarrow> int" where
  "parse_int64 t = (case stoll t of Some i \<Rightarrow> i | None \<Rightarrow> 0)"

definition format_timestamp :: "int \<Rightarrow> string" where
  "format_timestamp seconds =
     (let t = max seconds 0; h = t div 3600; m = t mod 3600 div 60; s = t mod 60 in
      int_to_string h @ '':'' @ (if m < 10 then ''0'' else []) @ int_to_string m @ '':'' @ (if s < 10 then ''0'' else []) @ int_to_string s)"

record media_info =
  mi_duration :: int
  mi_width :: int
  mi_height :: int
  mi_frame_rate :: fp
  mi_bit_rate_bps :: int
  mi_video_codec :: string
  mi_audio_codec :: string
  mi_audio_channels :: int
  mi_file_size :: int

definition no_media_info :: media_info where
  "no_media_info = \<lparr>mi_duration = 0, mi_width = 0, mi_height = 0, mi_frame_rate = Finite 0, mi_bit_rate_bps = 0, mi_video_codec = [],
     mi_audio_codec = [], mi_audio_channels = 0, mi_file_size = 0\<rparr>"

definition format_part :: "('w, 'j) media_env \<Rightarrow> 'j \<Rightarrow> media_info \<Rightarrow> media_info" where
  "format_part E doc info =
     (case jv_field (me_json E) doc ''format'' of
        None \<Rightarrow> info
      | Some f \<Rightarrow>
          if \<not> jv_is_object (me_json E) f then info
          else
            (let info = (case string_member (me_json E) f ''duration'' of Some d \<Rightarrow> info\<lparr>mi_duration := parse_duration_seconds E d\<rparr> | None \<Rightarrow> info);
                 info = (case string_member (me_json E) f ''bit_rate'' of Some b \<Rightarrow> info\<lparr>mi_bit_rate_bps := parse_int64 b\<rparr> | None \<Rightarrow> info)
             in (case string_member (me_json E) f ''size'' of Some z \<Rightarrow> info\<lparr>mi_file_size := parse_int64 z\<rparr> | None \<Rightarrow> info)))"

text \<open>The frame rate of a stream, with the second field when the first gives none.\<close>

definition stream_rate :: "('w, 'j) media_env \<Rightarrow> 'j \<Rightarrow> fp" where
  "stream_rate E stream =
     (let first = (case string_member (me_json E) stream ''avg_frame_rate'' of Some r \<Rightarrow> parse_rational E r | None \<Rightarrow> Finite 0) in
      if first = Finite 0
      then (case string_member (me_json E) stream ''r_frame_rate'' of Some r \<Rightarrow> parse_rational E r | None \<Rightarrow> first)
      else first)"

definition video_part :: "('w, 'j) media_env \<Rightarrow> 'j \<Rightarrow> media_info \<Rightarrow> string + media_info" where
  "video_part E stream info =
     and_then (jv_value_string (me_json E) stream ''codec_name'' []) (\<lambda>codec.
     and_then (jv_value_int (me_json E) stream ''width'' 0) (\<lambda>w.
     and_then (jv_value_int (me_json E) stream ''height'' 0) (\<lambda>h.
       Inr (info\<lparr>mi_video_codec := codec, mi_width := w, mi_height := h, mi_frame_rate := stream_rate E stream\<rparr>))))"

definition audio_part :: "('w, 'j) media_env \<Rightarrow> 'j \<Rightarrow> media_info \<Rightarrow> string + media_info" where
  "audio_part E stream info =
     and_then (jv_value_string (me_json E) stream ''codec_name'' []) (\<lambda>codec.
     and_then (jv_value_int (me_json E) stream ''channels'' 0) (\<lambda>n.
       Inr (info\<lparr>mi_audio_codec := codec, mi_audio_channels := n\<rparr>)))"

text \<open>The loop over the streams; a left value is an exception of the JSON library.\<close>

fun streams_loop :: "('w, 'j) media_env \<Rightarrow> bool \<Rightarrow> bool \<Rightarrow> 'j list \<Rightarrow> media_info \<Rightarrow> string + media_info" where
  "streams_loop E have_video have_audio [] info = Inr info"
| "streams_loop E have_video have_audio (stream # rest) info =
     and_then (jv_value_string (me_json E) stream ''codec_type'' []) (\<lambda>t.
       if \<not> have_video \<and> t = ''video'' then and_then (video_part E stream info) (streams_loop E True have_audio rest)
       else if \<not> have_audio \<and> t = ''audio'' then and_then (audio_part E stream info) (streams_loop E have_video True rest)
       else streams_loop E have_video have_audio rest info)"

definition read_probe :: "('w, 'j) media_env \<Rightarrow> 'j \<Rightarrow> string + media_info" where
  "read_probe E doc =
     (let info = format_part E doc no_media_info in
      case Option.bind (jv_field (me_json E) doc ''streams'') (jv_array (me_json E)) of
        None \<Rightarrow> Inr info
      | Some streams \<Rightarrow> streams_loop E False False streams info)"

definition probe_args :: "string \<Rightarrow> string list" where
  "probe_args f = [''-v'', ''error'', ''-print_format'', ''json'', ''-show_streams'', ''-show_format'', f]"

text \<open>Only \<open>json::parse\<close> is guarded: the left value of the outer sum is an exception that leaves \<open>probe\<close>.\<close>

definition probe :: "('w, 'j) media_env \<Rightarrow> string \<Rightarrow> ('w, string + media_info res) state" where
  "probe E f = do {
     r \<leftarrow> run_media (me_run E) (default_subprocess_request\<lparr>sq_executable := me_ffprobe_path E, sq_arguments := probe_args f\<rparr>);
     (case r of
        Inl e \<Rightarrow> State_Monad.return (Inr (Inl e))
      | Inr x \<Rightarrow>
          (case jv_parse (me_json E) (sr_stdout_data x) of
             Inl what \<Rightarrow> State_Monad.return (Inr (Inl (mk_error EC_MediaProcessing (''ffprobe JSON parse failed: '' @ what))))
           | Inr doc \<Rightarrow>
               (case read_probe E doc of
                  Inl what \<Rightarrow> State_Monad.return (Inl what)
                | Inr info \<Rightarrow>
                    if mi_file_size info = 0 then do {
                      sz \<leftarrow> me_file_size E f;
                      State_Monad.return (Inr (Inr (case sz of Some n \<Rightarrow> info\<lparr>mi_file_size := n\<rparr> | None \<Rightarrow> info)))
                    } else State_Monad.return (Inr (Inr info)))))
   }"

subsection \<open>Pictures and samples\<close>

definition run_ffmpeg :: "('w, 'j) media_env \<Rightarrow> string list \<Rightarrow> string \<Rightarrow> ('w, string + string res) state" where
  "run_ffmpeg E args output = do {
     r \<leftarrow> run_media (me_run E) (default_subprocess_request\<lparr>sq_executable := me_ffmpeg_path E, sq_arguments := args\<rparr>);
     State_Monad.return (Inr (case r of Inl e \<Rightarrow> Inl e | Inr _ \<Rightarrow> Inr output))
   }"

definition thumbnail_args :: "int \<Rightarrow> string \<Rightarrow> string \<Rightarrow> string list" where
  "thumbnail_args pos f output = [''-y'', ''-ss'', format_timestamp pos, ''-i'', f, ''-vframes'', ''1'', ''-q:v'', ''2'', output]"

text \<open>C++ division cuts towards zero.\<close>

definition tenth_in_seconds :: "int \<Rightarrow> int" where
  "tenth_in_seconds ms = (if ms < 0 then - ((- ms) div 10000) else ms div 10000)"

definition extract_thumbnail :: "('w, 'j) media_env \<Rightarrow> string \<Rightarrow> string \<Rightarrow> int option \<Rightarrow> ('w, string + string res) state" where
  "extract_thumbnail E f output position =
     (case position of
        Some p \<Rightarrow> run_ffmpeg E (thumbnail_args p f output) output
      | None \<Rightarrow> do {
          r \<leftarrow> probe E f;
          (case r of
             Inl what \<Rightarrow> State_Monad.return (Inl what)
           | Inr (Inl e) \<Rightarrow> State_Monad.return (Inr (Inl e))
           | Inr (Inr info) \<Rightarrow> run_ffmpeg E (thumbnail_args (tenth_in_seconds (mi_duration info)) f output) output)
        })"

definition sample_args :: "string \<Rightarrow> string \<Rightarrow> int \<Rightarrow> string list" where
  "sample_args f output duration = [''-y'', ''-ss'', ''0'', ''-i'', f, ''-t'', int_to_string duration, ''-c'', ''copy'', output]"

definition generate_sample :: "('w, 'j) media_env \<Rightarrow> string \<Rightarrow> string \<Rightarrow> int \<Rightarrow> ('w, string + string res) state" where
  "generate_sample E f output duration =
     (if duration \<le> 0 then State_Monad.return (Inr (Inl (mk_error EC_InvalidArgument ''sample duration must be positive'')))
      else run_ffmpeg E (sample_args f output duration) output)"

text \<open>The interval between two tiles in milliseconds; \<open>me_round\<close> is applied after each operation on doubles.\<close>

definition interval_ms :: "('w, 'j) media_env \<Rightarrow> int \<Rightarrow> int \<Rightarrow> int" where
  "interval_ms E duration_ms tiles =
     (let rd = me_round E; sec = max 1 (rd (rd (rd (of_int duration_ms) / 1000) / rd (of_int tiles))) in cast_int64 E (rd (sec * 1000)))"

definition pad3 :: "int \<Rightarrow> string" where
  "pad3 n = replicate (3 - length (int_to_string n)) CHR ''0'' @ int_to_string n"

definition interval_str :: "int \<Rightarrow> string" where
  "interval_str ms = int_to_string (ms div 1000) @ ''.'' @ pad3 (ms mod 1000)"

definition grid_args :: "string \<Rightarrow> string \<Rightarrow> string \<Rightarrow> int \<Rightarrow> int \<Rightarrow> string list" where
  "grid_args f output interval rows columns =
     [''-y'', ''-i'', f, ''-vf'', ''fps=1/'' @ interval @ '',scale=320:180,tile='' @ int_to_string columns @ ''x'' @ int_to_string rows, ''-frames:v'', ''1'', output]"

definition generate_screenshot_grid :: "('w, 'j) media_env \<Rightarrow> string \<Rightarrow> string \<Rightarrow> int \<Rightarrow> int \<Rightarrow> ('w, string + string res) state" where
  "generate_screenshot_grid E f output rows columns =
     (if rows \<le> 0 \<or> columns \<le> 0 then State_Monad.return (Inr (Inl (mk_error EC_InvalidArgument ''grid rows and columns must be positive'')))
      else do {
        r \<leftarrow> probe E f;
        (case r of
           Inl what \<Rightarrow> State_Monad.return (Inl what)
         | Inr (Inl e) \<Rightarrow> State_Monad.return (Inr (Inl e))
         | Inr (Inr info) \<Rightarrow>
             if mi_duration info \<le> 0
             then State_Monad.return (Inr (Inl (mk_error EC_MediaProcessing ''cannot build grid for a zero-duration input'')))
             else run_ffmpeg E (grid_args f output (interval_str (interval_ms E (mi_duration info) (rows * columns))) rows columns) output)
      })"

end
