(* ===== verification/Media_Runs.thy ===== *)
theory Media_Runs
  imports Media_Tools
begin

text \<open>What the media adapters guarantee: listings and timestamps are read back, and a probe describes the first video and the first audio stream.\<close>

subsection \<open>Archives\<close>

definition record_line :: "string \<Rightarrow> bool" where
  "record_line l = (take (length kPrefix) l = kPrefix)"

definition line_text :: "string \<times> bool \<Rightarrow> string" where
  "line_text x = fst x @ (if snd x then [CHR 0x0D] else []) @ [CHR 0x0A]"

definition plain_line :: "string \<Rightarrow> bool" where
  "plain_line l = (CHR 0x0A \<notin> set l \<and> (l = [] \<or> last l \<noteq> CHR 0x0D))"

lemma line_text_parts:
  assumes "plain_line (fst x)"
  shows "line_text x \<noteq> []" "strip_cr (takeWhile (\<lambda>c. c \<noteq> CHR 0x0A) (line_text x @ s)) = fst x"
    "tl (dropWhile (\<lambda>c. c \<noteq> CHR 0x0A) (line_text x @ s)) = s"
proof -
  have no: "CHR 0x0A \<notin> set (fst x)" using assms by (simp add: plain_line_def)
  have "line_text x @ s = (fst x @ (if snd x then [CHR 0x0D] else [])) @ CHR 0x0A # s" by (simp add: line_text_def)
  moreover have "CHR 0x0A \<notin> set (fst x @ (if snd x then [CHR 0x0D] else []))" using no by simp
  ultimately have parts: "takeWhile (\<lambda>c. c \<noteq> CHR 0x0A) (line_text x @ s) = fst x @ (if snd x then [CHR 0x0D] else [])"
    "dropWhile (\<lambda>c. c \<noteq> CHR 0x0A) (line_text x @ s) = CHR 0x0A # s"
    by (simp_all only: takeWhile_append2 dropWhile_append2) (simp_all add: takeWhile_append dropWhile_append)
  show "line_text x \<noteq> []" by (simp add: line_text_def)
  show "strip_cr (takeWhile (\<lambda>c. c \<noteq> CHR 0x0A) (line_text x @ s)) = fst x"
    unfolding parts using assms by (auto simp: strip_cr_def plain_line_def)
  show "tl (dropWhile (\<lambda>c. c \<noteq> CHR 0x0A) (line_text x @ s)) = s" unfolding parts by simp
qed

lemma entries_loop_lines:
  "list_all (plain_line \<circ> fst) ls \<Longrightarrow>
    entries_loop seen (concat (map line_text ls)) =
      (if seen then id else drop 1) (map (drop (length kPrefix)) (filter record_line (map fst ls)))"
proof (induction ls arbitrary: seen)
  case Nil
  then show ?case by (simp add: entries_loop.simps)
next
  case (Cons x ls)
  then have "plain_line (fst x)" by simp
  note parts = line_text_parts [OF this]
  from Cons parts show ?case
    by (subst entries_loop.simps) (simp add: Let_def flip: record_line_def)
qed

text \<open>
  Listing an archive returns the names of its records in order, without the first, which is the archive itself, whatever
  other lines stand between them and whichever line ends are used.
\<close>
theorem archive_listing_read:
  assumes "list_all (plain_line \<circ> fst) ls" "run_state (ae_run E (seven_zip E (list_args archive pw))) w = (Inr r, w')"
    and "sr_exit_code r = 0" "sr_stdout_data r = concat (map line_text ls)"
  shows "run_state (list_contents E archive pw) w = (Inr (drop 1 (map (drop (length kPrefix)) (filter record_line (map fst ls)))), w')"
  using assms entries_loop_lines [OF assms(1), of False]
  by (simp add: list_contents_def run_7z_def run_subprocess_def run_simps)

definition sample_listing :: "(string \<times> bool) list" where
  "sample_listing = [(''Path = a.7z'', False), (''Type = 7z'', True), ([], True), (''Path = x/y.txt'', True), (''Size = 3'', False), (''Path = z'', False)]"

definition sample_run :: subprocess_result where
  "sample_run = \<lparr>sr_exit_code = 0, sr_stdout_data = concat (map line_text sample_listing), sr_stderr_data = [], sr_duration = 1, sr_timed_out = False,
     sr_cancelled = False\<rparr>"

definition sample_archive_env :: "unit archive_env" where
  "sample_archive_env = \<lparr>ae_run = (\<lambda>_. State_Monad.return (Inr sample_run)), ae_seven_zip_path = ''7z'',
     ae_create_directories = (\<lambda>_. State_Monad.return None), ae_walk = (\<lambda>_. State_Monad.return [])\<rparr>"

theorem archive_listing_read_witness:
  "run_state (list_contents sample_archive_env ''a.7z'' None) () =
    (Inr (drop 1 (map (drop (length kPrefix)) (filter record_line (map fst sample_listing)))), ())"
proof (rule archive_listing_read [where r = sample_run])
  show "list_all (plain_line \<circ> fst) sample_listing" by (simp add: sample_listing_def plain_line_def)
qed (simp_all add: sample_run_def sample_archive_env_def run_simps)

text \<open>The compound suffixes end in single ones.\<close>

lemma ends_with_iff: "ends_with t suf \<longleftrightarrow> (\<exists>z. t = z @ suf)"
proof
  assume "ends_with t suf"
  then have "t = take (length t - length suf) t @ suf" unfolding ends_with_def by (metis append_take_drop_id)
  then show "\<exists>z. t = z @ suf" by blast
qed (auto simp: ends_with_def)

lemma can_handle_single: "can_handle a \<longleftrightarrow> list_ex (ends_with (ascii_lower (path_filename a))) kSingleExtensions"
proof -
  have shorter: "ends_with n b" if "ends_with n s" "ends_with s b" for n s b
    using that by (auto simp: ends_with_iff)
  have "list_all (\<lambda>s. list_ex (ends_with s) kSingleExtensions) kCompoundSuffixes" by code_simp
  with shorter show ?thesis unfolding can_handle_def Let_def list_ex_iff list_all_iff by (metis (full_types))
qed

subsection \<open>Probing\<close>

definition of_type :: "('w, 'j) media_env \<Rightarrow> string \<Rightarrow> 'j \<Rightarrow> bool" where
  "of_type E t stream = (jv_value_string (me_json E) stream ''codec_type'' [] = Inr t)"

text \<open>The part of a description that a stream gives, if there is one.\<close>

definition with_stream :: "('j \<Rightarrow> media_info \<Rightarrow> string + media_info) \<Rightarrow> 'j option \<Rightarrow> media_info \<Rightarrow> string + media_info" where
  "with_stream part stream info = (case stream of None \<Rightarrow> Inr info | Some s \<Rightarrow> part s info)"

lemma parts_commute:
  "and_then (audio_part E s' info) (video_part E s) = Inr x \<Longrightarrow> and_then (video_part E s info) (audio_part E s') = Inr x"
  by (auto simp: and_then_Inr video_part_def audio_part_def)

lemma with_commute:
  assumes "and_then (audio_part E s info) (with_stream (video_part E) x) = Inr i"
  shows "and_then (with_stream (video_part E) x info) (audio_part E s) = Inr i"
proof (cases x)
  case None
  with assms show ?thesis by (auto simp: with_stream_def and_then_Inr)
next
  case (Some v)
  with assms have "and_then (audio_part E s info) (video_part E v) = Inr i" by (simp add: with_stream_def [abs_def])
  from parts_commute [OF this] Some show ?thesis by (simp add: with_stream_def)
qed

lemma streams_loop_primary:
  "streams_loop E hv ha streams info = Inr info' \<Longrightarrow>
    and_then (with_stream (video_part E) (if hv then None else List.find (of_type E ''video'') streams) info)
      (with_stream (audio_part E) (if ha then None else List.find (of_type E ''audio'') streams)) = Inr info'"
proof (induction E hv ha streams info rule: streams_loop.induct)
  case (1 E hv ha info)
  then show ?case by (simp add: with_stream_def)
next
  case (2 E hv ha stream rest info)
  from "2.prems" obtain t where t: "jv_value_string (me_json E) stream ''codec_type'' [] = Inr t"
    by (auto simp: and_then_Inr)
  then have ty: "of_type E k stream \<longleftrightarrow> t = k" for k by (auto simp: of_type_def)
  consider (video) "\<not> hv" "t = ''video''" | (audio) "\<not> ha" "t = ''audio''" | (other) "\<not> (\<not> hv \<and> t = ''video'')" "\<not> (\<not> ha \<and> t = ''audio'')" by blast
  then show ?case
  proof cases
    case video
    with "2.prems" t obtain v where v: "video_part E stream info = Inr v" "streams_loop E True ha rest v = Inr info'" by (auto simp: and_then_Inr)
    have "with_stream (audio_part E) (if ha then None else List.find (of_type E ''audio'') rest) v = Inr info'"
      using "2.IH"(1) [OF conjI [OF video] v(2)] by (simp add: with_stream_def)
    with video v(1) ty [of "''video''"] ty [of "''audio''"] show ?thesis by (cases ha) (simp_all add: with_stream_def)
  next
    case audio
    with "2.prems" t obtain a where a: "audio_part E stream info = Inr a" "streams_loop E hv True rest a = Inr info'" by (auto simp: and_then_Inr)
    have "and_then (with_stream (video_part E) (if hv then None else List.find (of_type E ''video'') rest) a) Inr = Inr info'"
      using "2.IH"(2) [OF _ conjI [OF audio] a(2)] audio by (auto simp: with_stream_def and_then_Inr)
    then have "and_then (audio_part E stream info) (with_stream (video_part E) (if hv then None else List.find (of_type E ''video'') rest)) = Inr info'"
      using a(1) by (simp add: and_then_Inr)
    then have "and_then (with_stream (video_part E) (if hv then None else List.find (of_type E ''video'') rest) info) (audio_part E stream) = Inr info'"
      by (rule with_commute)
    with audio ty show ?thesis by (cases hv) (simp_all add: with_stream_def)
  next
    case other
    with "2.prems" "2.IH"(3) [OF other] t ty show ?thesis by (auto split: if_splits)
  qed
qed

text \<open>
  A probe that comes back describes the container and, of the streams, exactly the first video stream and the first audio stream.
\<close>
theorem media_probe_primary:
  assumes "read_probe E doc = Inr info" "jv_field (me_json E) doc ''streams'' = Some arr" "jv_array (me_json E) arr = Some streams"
  shows "and_then (with_stream (video_part E) (List.find (of_type E ''video'') streams) (format_part E doc no_media_info))
      (with_stream (audio_part E) (List.find (of_type E ''audio'') streams)) = Inr info"
  using streams_loop_primary [of E False False streams "format_part E doc no_media_info" info] assms by (simp add: read_probe_def)

definition sample_media_env :: "(unit, json_out) media_env" where
  "sample_media_env = \<lparr>me_run = (\<lambda>_. State_Monad.return (Inl waitpid_failed)), me_ffmpeg_path = ''ffmpeg'', me_ffprobe_path = ''ffprobe'', me_json = out_view,
     me_stod = (\<lambda>_. None), me_div = (\<lambda>x _. x), me_round = id, me_wild = 0, me_file_size = (\<lambda>_. State_Monad.return None)\<rparr>"

definition sample_streams :: "json_out list" where
  "sample_streams = [JO_Object [(''codec_type'', JO_String ''audio''), (''codec_name'', JO_String ''aac''), (''channels'', JO_Int 2)],
     JO_Object [(''codec_type'', JO_String ''video''), (''codec_name'', JO_String ''h264''), (''width'', JO_Int 640)],
     JO_Object [(''codec_type'', JO_String ''audio''), (''codec_name'', JO_String ''opus'')]]"

definition sample_info :: media_info where
  "sample_info = no_media_info\<lparr>mi_video_codec := ''h264'', mi_width := 640, mi_audio_codec := ''aac'', mi_audio_channels := 2\<rparr>"

theorem media_probe_primary_witness:
  "and_then (with_stream (video_part sample_media_env) (List.find (of_type sample_media_env ''video'') sample_streams)
      (format_part sample_media_env (JO_Object [(''streams'', JO_Array sample_streams)]) no_media_info))
    (with_stream (audio_part sample_media_env) (List.find (of_type sample_media_env ''audio'') sample_streams)) = Inr sample_info"
proof (rule media_probe_primary [where arr = "JO_Array sample_streams"])
  show "read_probe sample_media_env (JO_Object [(''streams'', JO_Array sample_streams)]) = Inr sample_info" by code_simp
qed (simp_all add: sample_media_env_def out_view_def)

text \<open>Only parsing is guarded.\<close>

theorem probe_exception_escapes:
  assumes "run_state (run_media (me_run E) (default_subprocess_request\<lparr>sq_executable := me_ffprobe_path E, sq_arguments := probe_args f\<rparr>)) w = (Inr x, w')"
    and "jv_parse (me_json E) (sr_stdout_data x) = Inr doc" "jv_field (me_json E) doc ''streams'' = Some arr" "jv_array (me_json E) arr = Some [stream]"
    and "jv_value_string (me_json E) stream ''codec_type'' [] = Inl what"
  shows "fst (run_state (probe E f) w) = Inl what"
  using assms by (simp add: probe_def read_probe_def run_simps)

end
