(* ===== verification/Telegram_Gateway.thy ===== *)
theory Telegram_Gateway
  imports Configuration Domain Records
begin

text \<open>
  The TDLib gateway, \<open>src/infrastructure/telegram/telegram_gateway.cpp\<close>, with the messenger, the update router and the authentication flow on top of it. TDLib objects
  are datatypes with the fields the code reads, null pointers are \<open>None\<close>. What runs on the gateway's strand is a sequence of events, each a function on the
  state of \<open>Impl\<close>; waiting for an answer is a collaborator of the typed requests.
\<close>

subsection \<open>Objects of TDLib\<close>

datatype td_content = MC_Text "string option" | MC_Other

datatype td_sender = SN_User int | SN_Other

record td_message =
  tm_chat_id :: int
  tm_id :: int
  tm_sender_id :: "td_sender option"
  tm_content :: "td_content option"

datatype td_payload = PL_Data string | PL_Other

record td_callback =
  tc_id :: int
  tc_sender_user_id :: int
  tc_chat_id :: int
  tc_message_id :: int
  tc_payload :: "td_payload option"

record td_local =
  lo_downloaded_size :: int
  lo_is_downloading_active :: bool
  lo_is_downloading_completed :: bool

record td_remote =
  ro_uploaded_size :: int
  ro_is_uploading_active :: bool
  ro_is_uploading_completed :: bool

record td_file =
  tf_id :: int
  tf_size :: int
  tf_local :: "td_local option"
  tf_remote :: "td_remote option"

datatype td_authorization =
    TA_WaitTdlibParameters | TA_WaitPhoneNumber | TA_Ready | TA_LoggingOut | TA_Closing | TA_Closed | TA_Other

datatype td_object =
    OB_Error int string
  | OB_Message int
  | OB_Ok
  | OB_NewMessage "td_message option"
  | OB_NewCallbackQuery td_callback
  | OB_File "td_file option"
  | OB_AuthorizationState "td_authorization option"
  | OB_Other

record td_response =
  rs_request_id :: nat
  rs_object :: "td_object option"

subsection \<open>Updates\<close>

datatype auth_state =
    AS_WaitTdlibParameters | AS_WaitPhoneOrBotToken | AS_Ready | AS_LoggingOut | AS_Closing | AS_Closed | AS_Other

fun auth_state_of :: "td_authorization \<Rightarrow> auth_state" where
  "auth_state_of TA_WaitTdlibParameters = AS_WaitTdlibParameters"
| "auth_state_of TA_WaitPhoneNumber = AS_WaitPhoneOrBotToken"
| "auth_state_of TA_Ready = AS_Ready"
| "auth_state_of TA_LoggingOut = AS_LoggingOut"
| "auth_state_of TA_Closing = AS_Closing"
| "auth_state_of TA_Closed = AS_Closed"
| "auth_state_of TA_Other = AS_Other"

text \<open>Which handlers are installed, and the calls that are made to them.\<close>

record update_handlers =
  uh_new_message :: bool
  uh_callback_query :: bool
  uh_file_update :: bool

datatype handler_call =
    HC_NewMessage chat_id user_id message_id string
  | HC_CallbackQuery chat_id user_id message_id callback_query_id string
  | HC_FileUpdate int int int int bool bool bool bool
  | HC_AuthState auth_state

record pending_handler =
  ph_created_at :: int

record gateway =
  gt_next_request_id :: nat
  gt_pending :: "(nat \<times> pending_handler) list"
  gt_handlers :: update_handlers
  gt_auth_handler :: bool
  gt_last_auth_state :: "auth_state option"

definition new_gateway :: gateway where
  "new_gateway = \<lparr>gt_next_request_id = 1000, gt_pending = [],
     gt_handlers = \<lparr>uh_new_message = False, uh_callback_query = False, uh_file_update = False\<rparr>, gt_auth_handler = False, gt_last_auth_state = None\<rparr>"

definition dispatch_new_message :: "gateway \<Rightarrow> td_message option \<Rightarrow> handler_call list" where
  "dispatch_new_message g upd =
     (case upd of
        None \<Rightarrow> []
      | Some msg \<Rightarrow>
          if \<not> uh_new_message (gt_handlers g) then []
          else (case tm_content msg of
             Some (MC_Text body) \<Rightarrow>
               [HC_NewMessage (ChatId (tm_chat_id msg))
                  (UserId (case tm_sender_id msg of Some (SN_User u) \<Rightarrow> u | _ \<Rightarrow> 0)) (MessageId (tm_id msg))
                  (case body of Some s \<Rightarrow> s | None \<Rightarrow> [])]
           | _ \<Rightarrow> []))"

definition dispatch_callback_query :: "gateway \<Rightarrow> td_callback \<Rightarrow> handler_call list" where
  "dispatch_callback_query g upd =
     (if \<not> uh_callback_query (gt_handlers g) then []
      else [HC_CallbackQuery (ChatId (tc_chat_id upd)) (UserId (tc_sender_user_id upd)) (MessageId (tc_message_id upd))
              (CallbackQueryId (tc_id upd)) (case tc_payload upd of Some (PL_Data d) \<Rightarrow> d | _ \<Rightarrow> [])])"

definition dispatch_file_update :: "gateway \<Rightarrow> td_file option \<Rightarrow> handler_call list" where
  "dispatch_file_update g upd =
     (case upd of
        None \<Rightarrow> []
      | Some f \<Rightarrow>
          if \<not> uh_file_update (gt_handlers g) then []
          else [HC_FileUpdate (tf_id f) (tf_size f)
             (case tf_local f of Some l \<Rightarrow> lo_downloaded_size l | None \<Rightarrow> 0) (case tf_remote f of Some r \<Rightarrow> ro_uploaded_size r | None \<Rightarrow> 0)
             (case tf_remote f of Some r \<Rightarrow> ro_is_uploading_active r | None \<Rightarrow> False)
             (case tf_local f of Some l \<Rightarrow> lo_is_downloading_active l | None \<Rightarrow> False)
             (case tf_remote f of Some r \<Rightarrow> ro_is_uploading_completed r | None \<Rightarrow> False)
             (case tf_local f of Some l \<Rightarrow> lo_is_downloading_completed l | None \<Rightarrow> False)])"

definition dispatch_auth_state :: "gateway \<Rightarrow> td_authorization option \<Rightarrow> gateway \<times> handler_call list" where
  "dispatch_auth_state g upd =
     (case upd of
        None \<Rightarrow> (g, [])
      | Some a \<Rightarrow>
          (g\<lparr>gt_last_auth_state := Some (auth_state_of a)\<rparr>, if gt_auth_handler g then [HC_AuthState (auth_state_of a)] else []))"

fun dispatch_update :: "gateway \<Rightarrow> td_object \<Rightarrow> gateway \<times> handler_call list" where
  "dispatch_update g (OB_NewMessage upd) = (g, dispatch_new_message g upd)"
| "dispatch_update g (OB_NewCallbackQuery upd) = (g, dispatch_callback_query g upd)"
| "dispatch_update g (OB_File upd) = (g, dispatch_file_update g upd)"
| "dispatch_update g (OB_AuthorizationState upd) = dispatch_auth_state g upd"
| "dispatch_update g _ = (g, [])"

subsection \<open>Requests in flight\<close>

text \<open>A step gives the state, the requests it completes with what they get, and the handlers it calls. Times are in seconds.\<close>

type_synonym completions = "(nat \<times> td_object) list"

definition kDefaultRequestTtl :: int where
  "kDefaultRequestTtl = 30"

definition send_request :: "int \<Rightarrow> gateway \<Rightarrow> nat \<times> gateway" where
  "send_request now g =
     (let i = gt_next_request_id g in
      (i, g\<lparr>gt_next_request_id := Suc i, gt_pending := gt_pending g @ [(i, \<lparr>ph_created_at = now\<rparr>)]\<rparr>))"

definition timed_out :: td_object where
  "timed_out = OB_Error 408 ''cmlb: request timed out client-side''"

definition evict_stale :: "int \<Rightarrow> gateway \<Rightarrow> gateway \<times> completions" where
  "evict_stale now g =
     (let stale = (\<lambda>(i, p). now - ph_created_at p \<ge> kDefaultRequestTtl) in
      (g\<lparr>gt_pending := filter (\<lambda>x. \<not> stale x) (gt_pending g)\<rparr>, map (\<lambda>(i, p). (i, timed_out)) (filter stale (gt_pending g))))"

definition handle_event :: "td_response \<Rightarrow> gateway \<Rightarrow> gateway \<times> completions \<times> handler_call list" where
  "handle_event r g =
     (case rs_object r of
        None \<Rightarrow> (g, [], [])
      | Some ob \<Rightarrow>
          if rs_request_id r = 0 then (case dispatch_update g ob of (g', calls) \<Rightarrow> (g', [], calls))
          else if map_of (gt_pending g) (rs_request_id r) = None then (g, [], [])
          else (g\<lparr>gt_pending := filter (\<lambda>(i, _). i \<noteq> rs_request_id r) (gt_pending g)\<rparr>, [(rs_request_id r, ob)], []))"

definition client_stopped :: td_object where
  "client_stopped = OB_Error 499 ''cmlb: client stopped''"

definition drain_pending :: "gateway \<Rightarrow> gateway \<times> completions" where
  "drain_pending g = (g\<lparr>gt_pending := []\<rparr>, map (\<lambda>(i, _). (i, client_stopped)) (gt_pending g))"

definition set_auth_state_handler :: "bool \<Rightarrow> gateway \<Rightarrow> gateway \<times> handler_call list" where
  "set_auth_state_handler present g =
     (g\<lparr>gt_auth_handler := present\<rparr>,
      case gt_last_auth_state g of Some s \<Rightarrow> if present then [HC_AuthState s] else [] | None \<Rightarrow> [])"

text \<open>What the strand runs.\<close>

datatype gateway_event =
    GE_Send int
  | GE_Receive td_response
  | GE_Sweep int
  | GE_Drain
  | GE_Update_Handlers update_handlers
  | GE_Auth_Handler bool

fun gateway_step :: "gateway_event \<Rightarrow> gateway \<Rightarrow> gateway \<times> completions \<times> handler_call list" where
  "gateway_step (GE_Send now) g = (snd (send_request now g), [], [])"
| "gateway_step (GE_Receive r) g = handle_event r g"
| "gateway_step (GE_Sweep now) g = (case evict_stale now g of (g', cs) \<Rightarrow> (g', cs, []))"
| "gateway_step GE_Drain g = (case drain_pending g of (g', cs) \<Rightarrow> (g', cs, []))"
| "gateway_step (GE_Update_Handlers h) g = (g\<lparr>gt_handlers := h\<rparr>, [], [])"
| "gateway_step (GE_Auth_Handler present) g = (case set_auth_state_handler present g of (g', hs) \<Rightarrow> (g', [], hs))"

fun gateway_run :: "gateway_event list \<Rightarrow> gateway \<Rightarrow> gateway \<times> completions \<times> handler_call list" where
  "gateway_run [] g = (g, [], [])"
| "gateway_run (e # es) g =
     (case gateway_step e g of (g', cs, hs) \<Rightarrow> (case gateway_run es g' of (g'', cs', hs') \<Rightarrow> (g'', cs @ cs', hs @ hs')))"

subsection \<open>Typed requests\<close>

type_synonym raw_keyboard = "(string \<times> string) list list"

datatype inline_button = Inline_Button string string

type_synonym 'e formatted = "string \<times> 'e list"

datatype 'e input_content =
    IC_Text "'e formatted"
  | IC_Rich string
  | IC_Document string "string option" "'e formatted"

datatype 'e td_function =
    FN_SendMessage int "inline_button list list option" "'e input_content"
  | FN_EditMessageText int int "inline_button list list option" "'e input_content"
  | FN_EditMessageReplyMarkup int int "inline_button list list"
  | FN_AnswerCallbackQuery int string bool
  | FN_DeleteMessages int "int list" bool
  | FN_SetTdlibParameters string int string
  | FN_CheckAuthenticationBotToken string
  | FN_SetOptionBool string bool
  | FN_SetOptionInt string int
  | FN_SetNetworkTypeWiFi

text \<open>
  \<open>td_await\<close> is \<open>await_send\<close>: the object a request is completed with. \<open>td_parse\<close> is \<open>parseTextEntities\<close>, and \<open>td_rich\<close> says whether TDLib has rich messages.
\<close>

record ('w, 'e) td_env =
  td_await :: "'e td_function \<Rightarrow> ('w, td_object option) state"
  td_parse :: "string \<Rightarrow> 'e formatted option"
  td_rich :: bool
  td_config :: telegram_config

definition parse_html :: "('w, 'e) td_env \<Rightarrow> string \<Rightarrow> 'e formatted" where
  "parse_html E html = (case td_parse E html of Some f \<Rightarrow> f | None \<Rightarrow> (html, []))"

definition make_html_message_content :: "('w, 'e) td_env \<Rightarrow> string \<Rightarrow> 'e input_content" where
  "make_html_message_content E html = (if td_rich E then IC_Rich html else IC_Text (parse_html E html))"

definition build_inline_keyboard :: "raw_keyboard \<Rightarrow> inline_button list list" where
  "build_inline_keyboard rows = map (map (\<lambda>(label, data). Inline_Button label data)) rows"

definition td_error_to_app_error :: "int \<Rightarrow> string \<Rightarrow> string \<Rightarrow> app_error" where
  "td_error_to_app_error code msg operation =
     mk_error EC_TelegramApi (''telegram '' @ operation @ '': code='' @ int_to_string code @ '' message='' @ msg)"

definition response_to_message_id :: "td_object option \<Rightarrow> string \<Rightarrow> message_id res" where
  "response_to_message_id ob operation =
     (case ob of
        None \<Rightarrow> Inl (mk_error EC_TelegramApi (''telegram '' @ operation @ '': null response''))
      | Some (OB_Error code msg) \<Rightarrow> Inl (td_error_to_app_error code msg operation)
      | Some (OB_Message i) \<Rightarrow> Inr (MessageId i)
      | Some _ \<Rightarrow> Inl (mk_error EC_TelegramApi (''telegram '' @ operation @ '': unexpected response type'')))"

definition response_to_void :: "td_object option \<Rightarrow> string \<Rightarrow> unit res" where
  "response_to_void ob operation =
     (case ob of
        None \<Rightarrow> Inl (mk_error EC_TelegramApi (''telegram '' @ operation @ '': null response''))
      | Some (OB_Error code msg) \<Rightarrow> Inl (td_error_to_app_error code msg operation)
      | Some _ \<Rightarrow> Inr ())"

definition asking_id :: "('w, 'e) td_env \<Rightarrow> string \<Rightarrow> 'e td_function \<Rightarrow> ('w, message_id res) state" where
  "asking_id E operation fn = do { ob \<leftarrow> td_await E fn; State_Monad.return (response_to_message_id ob operation) }"

definition asking :: "('w, 'e) td_env \<Rightarrow> string \<Rightarrow> 'e td_function \<Rightarrow> ('w, unit res) state" where
  "asking E operation fn = do { ob \<leftarrow> td_await E fn; State_Monad.return (response_to_void ob operation) }"

definition send_text_message :: "('w, 'e) td_env \<Rightarrow> chat_id \<Rightarrow> string \<Rightarrow> ('w, message_id res) state" where
  "send_text_message E chat body = asking_id E ''send_text_message'' (FN_SendMessage (chat_value chat) None (IC_Text (body, [])))"

definition send_formatted_message :: "('w, 'e) td_env \<Rightarrow> chat_id \<Rightarrow> string \<Rightarrow> ('w, message_id res) state" where
  "send_formatted_message E chat html =
     asking_id E ''send_formatted_message'' (FN_SendMessage (chat_value chat) None (make_html_message_content E html))"

definition edit_formatted_message :: "('w, 'e) td_env \<Rightarrow> chat_id \<Rightarrow> message_id \<Rightarrow> string \<Rightarrow> ('w, unit res) state" where
  "edit_formatted_message E chat msg html =
     asking E ''edit_formatted_message'' (FN_EditMessageText (chat_value chat) (message_value msg) None (make_html_message_content E html))"

definition edit_formatted_message_with_inline_keyboard ::
    "('w, 'e) td_env \<Rightarrow> chat_id \<Rightarrow> message_id \<Rightarrow> string \<Rightarrow> raw_keyboard \<Rightarrow> ('w, unit res) state" where
  "edit_formatted_message_with_inline_keyboard E chat msg html rows =
     asking E ''edit_formatted_message_with_inline_keyboard''
       (FN_EditMessageText (chat_value chat) (message_value msg) (Some (build_inline_keyboard rows)) (make_html_message_content E html))"

definition send_message_with_inline_keyboard :: "('w, 'e) td_env \<Rightarrow> chat_id \<Rightarrow> string \<Rightarrow> raw_keyboard \<Rightarrow> ('w, message_id res) state" where
  "send_message_with_inline_keyboard E chat html rows =
     asking_id E ''send_message_with_inline_keyboard''
       (FN_SendMessage (chat_value chat) (Some (build_inline_keyboard rows)) (make_html_message_content E html))"

definition edit_message_inline_keyboard :: "('w, 'e) td_env \<Rightarrow> chat_id \<Rightarrow> message_id \<Rightarrow> raw_keyboard \<Rightarrow> ('w, unit res) state" where
  "edit_message_inline_keyboard E chat msg rows =
     asking E ''edit_message_inline_keyboard'' (FN_EditMessageReplyMarkup (chat_value chat) (message_value msg) (build_inline_keyboard rows))"

definition answer_callback_query :: "('w, 'e) td_env \<Rightarrow> callback_query_id \<Rightarrow> string \<Rightarrow> bool \<Rightarrow> ('w, unit res) state" where
  "answer_callback_query E q body show_alert = asking E ''answer_callback_query'' (FN_AnswerCallbackQuery (callback_value q) body show_alert)"

definition delete_message :: "('w, 'e) td_env \<Rightarrow> chat_id \<Rightarrow> message_id \<Rightarrow> ('w, unit res) state" where
  "delete_message E chat msg = asking E ''delete_message'' (FN_DeleteMessages (chat_value chat) [message_value msg] True)"

definition send_file :: "('w, 'e) td_env \<Rightarrow> chat_id \<Rightarrow> string \<Rightarrow> string \<Rightarrow> string option \<Rightarrow> ('w, message_id res) state" where
  "send_file E chat file_path caption thumbnail =
     asking_id E ''send_file'' (FN_SendMessage (chat_value chat) None (IC_Document file_path thumbnail (parse_html E caption)))"

definition set_tdlib_parameters :: "('w, 'e) td_env \<Rightarrow> ('w, unit res) state" where
  "set_tdlib_parameters E =
     asking E ''set_tdlib_parameters''
       (FN_SetTdlibParameters (tg_database_directory (td_config E)) (tg_api_id (td_config E)) (tg_api_hash (td_config E)))"

definition check_bot_token :: "('w, 'e) td_env \<Rightarrow> ('w, unit res) state" where
  "check_bot_token E = asking E ''check_bot_token'' (FN_CheckAuthenticationBotToken (tg_bot_token (td_config E)))"

definition runtime_options :: "telegram_config \<Rightarrow> 'e td_function list" where
  "runtime_options c =
     [FN_SetOptionBool ''prefer_ipv6'' (tg_prefer_ipv6 c), FN_SetOptionBool ''ignore_inline_thumbnails'' True,
      FN_SetOptionBool ''ignore_background_updates'' True, FN_SetOptionBool ''use_storage_optimizer'' False, FN_SetOptionBool ''online'' True,
      FN_SetOptionBool ''disable_persistent_network_statistics'' False, FN_SetOptionBool ''disable_time_adjustment_protection'' True,
      FN_SetOptionInt ''upload_chunk_size_kb'' (tg_upload_chunk_size_kb c), FN_SetOptionInt ''download_chunk_size_kb'' (tg_download_chunk_size_kb c),
      FN_SetOptionInt ''connection_retry_count_max'' (tg_connection_retry_count_max c), FN_SetNetworkTypeWiFi]"

fun ask_each :: "('w, 'e) td_env \<Rightarrow> 'e td_function list \<Rightarrow> ('w, unit) state" where
  "ask_each E [] = State_Monad.return ()"
| "ask_each E (fn # fns) = do { _ \<leftarrow> td_await E fn; ask_each E fns }"

text \<open>A rejected option is only logged.\<close>

definition apply_runtime_options :: "('w, 'e) td_env \<Rightarrow> ('w, unit res) state" where
  "apply_runtime_options E = do { _ \<leftarrow> ask_each E (runtime_options (td_config E)); State_Monad.return (Inr ()) }"

subsection \<open>The messenger\<close>

datatype keyboard_button = Keyboard_Button (kb_label: string) (kb_callback_data: string)

definition to_raw :: "keyboard_button list list \<Rightarrow> raw_keyboard" where
  "to_raw kb = map (map (\<lambda>b. (kb_label b, kb_callback_data b))) kb"

definition messenger_send_html :: "('w, 'e) td_env \<Rightarrow> chat_id \<Rightarrow> string \<Rightarrow> ('w, message_id res) state" where
  "messenger_send_html = send_formatted_message"

definition messenger_edit_html :: "('w, 'e) td_env \<Rightarrow> chat_id \<Rightarrow> message_id \<Rightarrow> string \<Rightarrow> ('w, unit res) state" where
  "messenger_edit_html = edit_formatted_message"

definition edit_html_with_keyboard :: "('w, 'e) td_env \<Rightarrow> chat_id \<Rightarrow> message_id \<Rightarrow> string \<Rightarrow> keyboard_button list list \<Rightarrow> ('w, unit res) state" where
  "edit_html_with_keyboard E chat msg html kb = edit_formatted_message_with_inline_keyboard E chat msg html (to_raw kb)"

definition send_html_with_keyboard :: "('w, 'e) td_env \<Rightarrow> chat_id \<Rightarrow> string \<Rightarrow> keyboard_button list list \<Rightarrow> ('w, message_id res) state" where
  "send_html_with_keyboard E chat html kb = send_message_with_inline_keyboard E chat html (to_raw kb)"

definition edit_keyboard :: "('w, 'e) td_env \<Rightarrow> chat_id \<Rightarrow> message_id \<Rightarrow> keyboard_button list list \<Rightarrow> ('w, unit res) state" where
  "edit_keyboard E chat msg kb = edit_message_inline_keyboard E chat msg (to_raw kb)"

definition messenger_answer_callback :: "('w, 'e) td_env \<Rightarrow> callback_query_id \<Rightarrow> string \<Rightarrow> bool \<Rightarrow> ('w, unit res) state" where
  "messenger_answer_callback = answer_callback_query"

definition messenger_send_file :: "('w, 'e) td_env \<Rightarrow> chat_id \<Rightarrow> string \<Rightarrow> string \<Rightarrow> string option \<Rightarrow> ('w, message_id res) state" where
  "messenger_send_file = send_file"

definition messenger_delete_message :: "('w, 'e) td_env \<Rightarrow> chat_id \<Rightarrow> message_id \<Rightarrow> ('w, unit res) state" where
  "messenger_delete_message = delete_message"

subsection \<open>The update router\<close>

text \<open>A handler gives a coroutine \<open>'t\<close>; \<open>'f\<close> is the handler of file updates, which is called as it is.\<close>

record ('t, 'f) update_router =
  ur_new_message_handler :: "(chat_id \<Rightarrow> user_id \<Rightarrow> message_id \<Rightarrow> string \<Rightarrow> 't) option"
  ur_callback_query_handler :: "(chat_id \<Rightarrow> user_id \<Rightarrow> message_id \<Rightarrow> callback_query_id \<Rightarrow> string \<Rightarrow> 't) option"
  ur_file_update_handler :: "'f option"

datatype ('t, 'f) registration =
    On_New_Message "chat_id \<Rightarrow> user_id \<Rightarrow> message_id \<Rightarrow> string \<Rightarrow> 't"
  | On_Callback_Query "chat_id \<Rightarrow> user_id \<Rightarrow> message_id \<Rightarrow> callback_query_id \<Rightarrow> string \<Rightarrow> 't"
  | On_File_Update 'f

text \<open>What is logged when a spawned coroutine ends: nothing, or the exception it left with, whose text may be unknown.\<close>

definition completion_log :: "string \<Rightarrow> string option option \<Rightarrow> string list" where
  "completion_log kind eptr =
     (case eptr of
        None \<Rightarrow> []
      | Some (Some what) \<Rightarrow> [''update_router: '' @ kind @ '' handler threw: '' @ what]
      | Some None \<Rightarrow> [''update_router: '' @ kind @ '' handler threw unknown''])"

text \<open>The bundle; \<open>spawn\<close> is \<open>co_spawn\<close> on the executor with the completion handler.\<close>

record ('s, 'f) router_bundle =
  rb_on_new_message :: "(chat_id \<Rightarrow> user_id \<Rightarrow> message_id \<Rightarrow> string \<Rightarrow> 's) option"
  rb_on_callback_query :: "(chat_id \<Rightarrow> user_id \<Rightarrow> message_id \<Rightarrow> callback_query_id \<Rightarrow> string \<Rightarrow> 's) option"
  rb_on_file_update :: "'f option"

definition rewire_gateway :: "('t \<Rightarrow> (string option option \<Rightarrow> string list) \<Rightarrow> 's) \<Rightarrow> ('t, 'f) update_router \<Rightarrow> ('s, 'f) router_bundle" where
  "rewire_gateway spawn r =
     \<lparr>rb_on_new_message = map_option (\<lambda>h c u m t. spawn (h c u m t) (completion_log ''new-message'')) (ur_new_message_handler r),
      rb_on_callback_query = map_option (\<lambda>h c u m q d. spawn (h c u m q d) (completion_log ''callback-query'')) (ur_callback_query_handler r),
      rb_on_file_update = ur_file_update_handler r\<rparr>"

definition installed_handlers :: "('s, 'f) router_bundle \<Rightarrow> update_handlers" where
  "installed_handlers b =
     \<lparr>uh_new_message = (rb_on_new_message b \<noteq> None), uh_callback_query = (rb_on_callback_query b \<noteq> None), uh_file_update = (rb_on_file_update b \<noteq> None)\<rparr>"

fun register_update :: "('t, 'f) registration \<Rightarrow> ('t, 'f) update_router \<Rightarrow> ('t, 'f) update_router" where
  "register_update (On_New_Message h) r = r\<lparr>ur_new_message_handler := Some h\<rparr>"
| "register_update (On_Callback_Query h) r = r\<lparr>ur_callback_query_handler := Some h\<rparr>"
| "register_update (On_File_Update h) r = r\<lparr>ur_file_update_handler := Some h\<rparr>"

subsection \<open>The authentication flow\<close>

datatype auth_request = AR_SetParameters | AR_CheckBotToken | AR_ApplyOptions

datatype auth_phase = AP_Starting | AP_Waiting | AP_Woken | AP_Returned "unit res"

record auth_flow =
  af_phase :: auth_phase
  af_completed :: bool
  af_ready :: bool
  af_requests :: "auth_request list"

definition auth_flow_start :: auth_flow where
  "auth_flow_start = \<lparr>af_phase = AP_Starting, af_completed = False, af_ready = False, af_requests = []\<rparr>"

text \<open>\<open>cancel\<close> wakes a wait that has begun and has no effect otherwise.\<close>

definition wake_flow :: "auth_flow \<Rightarrow> auth_flow" where
  "wake_flow a = (if af_phase a = AP_Waiting then a\<lparr>af_phase := AP_Woken\<rparr> else a)"

definition auth_listener :: "auth_state \<Rightarrow> auth_flow \<Rightarrow> auth_flow" where
  "auth_listener s a =
     (case s of
        AS_WaitTdlibParameters \<Rightarrow> a\<lparr>af_requests := af_requests a @ [AR_SetParameters]\<rparr>
      | AS_WaitPhoneOrBotToken \<Rightarrow> a\<lparr>af_requests := af_requests a @ [AR_CheckBotToken]\<rparr>
      | AS_Ready \<Rightarrow> wake_flow (a\<lparr>af_ready := True, af_completed := True, af_requests := af_requests a @ [AR_ApplyOptions]\<rparr>)
      | AS_Closed \<Rightarrow> wake_flow (a\<lparr>af_ready := False, af_completed := True\<rparr>)
      | AS_LoggingOut \<Rightarrow> wake_flow (a\<lparr>af_ready := False, af_completed := True\<rparr>)
      | AS_Closing \<Rightarrow> wake_flow (a\<lparr>af_ready := False, af_completed := True\<rparr>)
      | AS_Other \<Rightarrow> a)"

definition auth_result :: "auth_flow \<Rightarrow> unit res" where
  "auth_result a =
     (if \<not> af_completed a then Inl (mk_error EC_Internal ''authentication_flow: timer fired before completion'')
      else if \<not> af_ready a then Inl (mk_error EC_Unauthenticated ''authentication_flow: terminated before reaching Ready state'')
      else Inr ())"

text \<open>The steps behind the installation of the listener; \<open>AE_Cancel\<close> is a cancellation of the wait from outside.\<close>

datatype auth_event = AE_State auth_state | AE_Wait | AE_Cancel | AE_Resume

inductive auth_step :: "auth_event \<Rightarrow> auth_flow \<Rightarrow> auth_flow \<Rightarrow> bool" where
  Notified: "auth_step (AE_State s) a (auth_listener s a)"
| Begin_Wait: "af_phase a = AP_Starting \<Longrightarrow> auth_step AE_Wait a (a\<lparr>af_phase := AP_Waiting\<rparr>)"
| Cancelled: "af_phase a = AP_Waiting \<Longrightarrow> auth_step AE_Cancel a (a\<lparr>af_phase := AP_Woken\<rparr>)"
| Resume: "af_phase a = AP_Woken \<Longrightarrow> auth_step AE_Resume a (a\<lparr>af_phase := AP_Returned (auth_result a)\<rparr>)"

inductive auth_run :: "auth_event list \<Rightarrow> auth_flow \<Rightarrow> bool" where
  Start: "auth_run [] auth_flow_start"
| Step: "\<lbrakk>auth_run es a; auth_step e a a'\<rbrakk> \<Longrightarrow> auth_run (es @ [e]) a'"

text \<open>\<open>authenticate\<close> refuses an empty token before it installs the listener.\<close>

definition auth_refused :: "telegram_config \<Rightarrow> unit res option" where
  "auth_refused c =
     (if tg_bot_token c = []
      then Some (Inl (mk_error EC_InvalidConfiguration ''authentication_flow: bot_token is empty; v1 supports bot-token auth only'')) else None)"

end
