(* ===== verification/Telegram_Session.thy ===== *)
theory Telegram_Session
  imports Telegram_Gateway "HOL-Library.Multiset"
begin

text \<open>
  What the gateway and the flows on it guarantee: every request is completed at most once, by its own answer, by age or by the stop; the end of an authentication is explained
  by the states that were seen.
\<close>

subsection \<open>Requests\<close>

definition ids :: "gateway \<Rightarrow> nat list" where
  "ids g = map fst (gt_pending g)"

definition ordered :: "gateway \<Rightarrow> bool" where
  "ordered g \<longleftrightarrow> distinct (ids g) \<and> (\<forall>i \<in> set (ids g). i < gt_next_request_id g)"

fun is_send :: "gateway_event \<Rightarrow> bool" where
  "is_send (GE_Send _) = True"
| "is_send _ = False"

lemma dispatch_update_keeps [simp]:
  "gt_pending (fst (dispatch_update g ob)) = gt_pending g" "gt_next_request_id (fst (dispatch_update g ob)) = gt_next_request_id g"
  by (cases ob; auto simp: dispatch_auth_state_def split: option.split)+

lemma dispatch_update_pair: "dispatch_update g ob = (g', hs) \<Longrightarrow> gt_pending g' = gt_pending g \<and> gt_next_request_id g' = gt_next_request_id g"
  using dispatch_update_keeps [of g ob] by simp

lemma mset_filter_split: "mset (map f (filter P xs)) + mset (map f (filter (\<lambda>x. \<not> P x) xs)) = mset (map f xs)"
  by (induction xs) auto

lemma filter_other_key: "\<lbrakk>distinct (map fst xs); i \<in> set (map fst xs)\<rbrakk> \<Longrightarrow> add_mset i (mset (map fst (filter (\<lambda>(j, _). j \<noteq> i) xs))) = mset (map fst xs)"
proof (induction xs)
  case (Cons x xs)
  have "filter (\<lambda>(j, _). j \<noteq> i) xs = xs" if "i \<notin> fst ` set xs" using that by (intro filter_True) force
  with Cons show ?case by (cases x) (auto simp: add_mset_commute simp del: mset_map mset_filter)
qed simp

text \<open>One step completes some requests, and every other one stays in flight.\<close>

lemma gateway_step_conserves:
  assumes "ordered g" "gateway_step e g = (g', cs, hs)"
  shows "mset (map fst cs) + mset (ids g') = mset (ids g) + mset [gt_next_request_id g..<gt_next_request_id g']"
    and "gt_next_request_id g' = gt_next_request_id g + (if is_send e then 1 else 0)"
proof -
  have "mset (map fst cs) + mset (ids g') = mset (ids g) + mset [gt_next_request_id g..<gt_next_request_id g'] \<and>
    gt_next_request_id g' = gt_next_request_id g + (if is_send e then 1 else 0)"
  proof (cases e)
    case (GE_Send now)
    with assms(2) show ?thesis by (auto simp: send_request_def Let_def ids_def)
  next
    case (GE_Receive r)
    show ?thesis
    proof (cases "rs_object r = None \<or> rs_request_id r = 0 \<or> map_of (gt_pending g) (rs_request_id r) = None")
      case True
      with GE_Receive assms(2) show ?thesis
        by (auto simp: handle_event_def ids_def dest!: dispatch_update_pair split: option.splits if_splits prod.splits)
    next
      case False
      then have i: "rs_request_id r \<in> set (ids g)" by (auto simp: ids_def map_of_eq_None_iff)
      with False GE_Receive assms filter_other_key [of "gt_pending g" "rs_request_id r"] show ?thesis
        by (auto simp: handle_event_def ids_def ordered_def split: option.splits)
    qed
  next
    case (GE_Sweep now)
    define stale where "stale = (\<lambda>(i :: nat, p :: pending_handler). now - ph_created_at p \<ge> kDefaultRequestTtl)"
    from GE_Sweep assms(2) have "map fst cs = map fst (filter stale (gt_pending g))" "ids g' = map fst (filter (\<lambda>x. \<not> stale x) (gt_pending g))"
      "gt_next_request_id g' = gt_next_request_id g"
      by (auto simp: evict_stale_def Let_def ids_def stale_def)
    with GE_Sweep mset_filter_split [of fst stale "gt_pending g"] show ?thesis by (simp only: ids_def is_send.simps) simp
  next
    case GE_Drain
    with assms(2) have "map fst cs = ids g" "ids g' = []" "gt_next_request_id g' = gt_next_request_id g"
      by (auto simp: drain_pending_def ids_def)
    with GE_Drain show ?thesis by (simp only: is_send.simps) simp
  next
    case (GE_Update_Handlers h)
    with assms(2) show ?thesis by (auto simp: ids_def)
  next
    case (GE_Auth_Handler b)
    with assms(2) show ?thesis by (auto simp: set_auth_state_handler_def ids_def)
  qed
  then show "mset (map fst cs) + mset (ids g') = mset (ids g) + mset [gt_next_request_id g..<gt_next_request_id g']"
    and "gt_next_request_id g' = gt_next_request_id g + (if is_send e then 1 else 0)" by auto
qed

lemma gateway_step_ordered:
  assumes "ordered g" "gateway_step e g = (g', cs, hs)"
  shows "ordered g'"
proof -
  note c = gateway_step_conserves [OF assms]
  have "distinct (ids g @ [gt_next_request_id g..<gt_next_request_id g'])" using assms(1) by (auto simp: ordered_def)
  moreover have "mset (map fst cs @ ids g') = mset (ids g @ [gt_next_request_id g..<gt_next_request_id g'])" using c(1) by simp
  ultimately have "distinct (map fst cs @ ids g')" by (metis mset_eq_imp_distinct_iff)
  moreover have "set (ids g') \<subseteq> set (ids g) \<union> {gt_next_request_id g..<gt_next_request_id g'}"
    using arg_cong [OF c(1), of set_mset] by auto
  ultimately show ?thesis using assms(1) c(2) by (fastforce simp: ordered_def)
qed

lemma gateway_run_conserves:
  "\<lbrakk>ordered g; gateway_run es g = (g', cs, hs)\<rbrakk> \<Longrightarrow>
    mset (map fst cs) + mset (ids g') = mset (ids g) + mset [gt_next_request_id g..<gt_next_request_id g'] \<and>
    gt_next_request_id g' = gt_next_request_id g + length (filter is_send es) \<and> ordered g'"
proof (induction es arbitrary: g cs hs)
  case (Cons e es)
  obtain g1 cs1 hs1 where s: "gateway_step e g = (g1, cs1, hs1)" by (metis prod_cases3)
  obtain cs2 hs2 where r: "gateway_run es g1 = (g', cs2, hs2)" "cs = cs1 @ cs2"
    using Cons.prems(2) s by (auto split: prod.splits)
  note c = gateway_step_conserves [OF Cons.prems(1) s]
  note ih = Cons.IH [OF gateway_step_ordered [OF Cons.prems(1) s] r(1)]
  let ?n = gt_next_request_id
  have upt: "[?n g..<?n g'] = [?n g..<?n g1] @ [?n g1..<?n g']"
    using ih c(2) by (metis le_add1 upt_add_eq_append)
  have "mset (map fst cs) + mset (ids g') = mset (map fst cs1) + (mset (map fst cs2) + mset (ids g'))"
    by (simp add: r(2))
  also have "\<dots> = (mset (map fst cs1) + mset (ids g1)) + mset [?n g1..<?n g']"
    using ih by (simp only: add.assoc)
  also have "\<dots> = mset (ids g) + mset [?n g..<?n g']"
    by (simp only: c(1) upt mset_append add.assoc)
  finally show ?case using ih c(2) by auto
qed simp

text \<open>
  C36. Over any events on the strand, every request that was sent is either still in flight or was completed, exactly once; request ids are 1000, 1001 and so on, and
  nothing is completed that was not sent.
\<close>
theorem gateway_answers_once:
  "case gateway_run es new_gateway of (g, cs, hs) \<Rightarrow>
     mset (map fst cs) + mset (map fst (gt_pending g)) = mset [1000..<1000 + length (filter is_send es)] \<and>
     distinct (map fst cs @ map fst (gt_pending g))"
proof -
  obtain g cs hs where r: "gateway_run es new_gateway = (g, cs, hs)" by (metis prod_cases3)
  have "ordered new_gateway" by (simp add: ordered_def ids_def new_gateway_def)
  from gateway_run_conserves [OF this r]
  have m: "mset (map fst cs @ ids g) = mset [1000..<1000 + length (filter is_send es)]"
    by (simp add: ids_def new_gateway_def)
  then have "distinct (map fst cs @ ids g)" by (metis distinct_upt mset_eq_imp_distinct_iff)
  with m r show ?thesis by (simp add: ids_def)
qed

subsection \<open>What completes a request\<close>

text \<open>The times of the requests, in the order of their ids.\<close>

fun send_times :: "gateway_event list \<Rightarrow> int list" where
  "send_times [] = []"
| "send_times (GE_Send now # es) = now # send_times es"
| "send_times (_ # es) = send_times es"

fun answers_to :: "nat \<Rightarrow> td_object \<Rightarrow> gateway_event \<Rightarrow> bool" where
  "answers_to i ob (GE_Receive r) = (rs_request_id r = i \<and> rs_object r = Some ob)"
| "answers_to i ob _ = False"

fun sweeps_past :: "int \<Rightarrow> gateway_event \<Rightarrow> bool" where
  "sweeps_past t (GE_Sweep now) = (now - t \<ge> kDefaultRequestTtl)"
| "sweeps_past t _ = False"

definition caused :: "gateway_event list \<Rightarrow> nat \<times> td_object \<Rightarrow> bool" where
  "caused es c \<longleftrightarrow>
     list_ex (answers_to (fst c) (snd c)) es \<or>
     snd c = timed_out \<and> list_ex (sweeps_past (send_times es ! (fst c - 1000))) es \<or>
     snd c = client_stopped \<and> GE_Drain \<in> set es"

lemma send_times_append [simp]: "send_times (es @ es') = send_times es @ send_times es'"
  by (induction es rule: send_times.induct) simp_all

lemma send_times_length: "length (send_times es) = length (filter is_send es)"
  by (induction es rule: send_times.induct) simp_all

lemma gateway_run_append:
  "gateway_run (es @ es') g =
     (case gateway_run es g of (g', cs, hs) \<Rightarrow> case gateway_run es' g' of (g'', cs', hs') \<Rightarrow> (g'', cs @ cs', hs @ hs'))"
  by (induction es arbitrary: g) (simp_all split: prod.splits)

lemma caused_mono: "\<lbrakk>caused es c; fst c - 1000 < length (send_times es)\<rbrakk> \<Longrightarrow> caused (es @ es') c"
  by (auto simp: caused_def nth_append)

text \<open>Requests in flight carry the time they were sent at.\<close>

definition dated :: "gateway_event list \<Rightarrow> gateway \<Rightarrow> bool" where
  "dated es g \<longleftrightarrow> (\<forall>(i, p) \<in> set (gt_pending g). 1000 \<le> i \<and> i - 1000 < length (send_times es) \<and> ph_created_at p = send_times es ! (i - 1000))"

lemma dated_step:
  assumes "dated es g" "gt_next_request_id g = 1000 + length (send_times es)" "gateway_step e g = (g', cs, hs)"
  shows "dated (es @ [e]) g' \<and> list_all (\<lambda>c. caused (es @ [e]) c \<and> fst c - 1000 < length (send_times (es @ [e]))) cs"
proof -
  have keep: "1000 \<le> i \<and> i - 1000 < length (send_times (es @ [e])) \<and> ph_created_at p = send_times (es @ [e]) ! (i - 1000)"
    if "(i, p) \<in> set (gt_pending g)" for i p
    using assms(1) that by (fastforce simp: dated_def nth_append)
  show ?thesis
  proof (cases e)
    case (GE_Send now)
    with assms(2,3) keep show ?thesis by (auto simp: dated_def send_request_def Let_def nth_append)
  next
    case (GE_Receive r)
    have "dated (es @ [e]) g'"
      using GE_Receive assms(3) keep
      by (auto simp: dated_def handle_event_def dest!: dispatch_update_pair split: option.splits if_splits prod.splits)
    moreover have "list_all (\<lambda>c. caused (es @ [e]) c \<and> fst c - 1000 < length (send_times (es @ [e]))) cs"
    proof -
      have "cs = [] \<or> (\<exists>ob q. cs = [(rs_request_id r, ob)] \<and> rs_object r = Some ob \<and> (rs_request_id r, q) \<in> set (gt_pending g))"
        using GE_Receive assms(3) by (auto simp: handle_event_def dest: map_of_SomeD split: option.splits if_splits prod.splits)
      with GE_Receive keep show ?thesis by (auto simp: caused_def)
    qed
    ultimately show ?thesis by simp
  next
    case (GE_Sweep now)
    with assms(3) keep show ?thesis
      by (fastforce simp: dated_def evict_stale_def Let_def list_all_iff caused_def)
  next
    case GE_Drain
    with assms(3) keep show ?thesis by (auto simp: dated_def drain_pending_def list_all_iff caused_def)
  next
    case (GE_Update_Handlers h)
    with assms(3) keep show ?thesis by (auto simp: dated_def)
  next
    case (GE_Auth_Handler b)
    with assms(3) keep show ?thesis by (auto simp: dated_def set_auth_state_handler_def)
  qed
qed

lemma gateway_run_caused:
  "gateway_run es new_gateway = (g, cs, hs) \<Longrightarrow> dated es g \<and> list_all (\<lambda>c. caused es c \<and> fst c - 1000 < length (send_times es)) cs"
proof (induction es arbitrary: g cs hs rule: rev_induct)
  case Nil
  then show ?case by (auto simp: dated_def new_gateway_def)
next
  case (snoc e es)
  obtain g1 cs1 hs1 where r: "gateway_run es new_gateway = (g1, cs1, hs1)" by (metis prod_cases3)
  with snoc.prems obtain cs2 hs2 where s: "gateway_step e g1 = (g, cs2, hs2)" "cs = cs1 @ cs2"
    by (auto simp: gateway_run_append split: prod.splits)
  have "ordered new_gateway" by (simp add: ordered_def ids_def new_gateway_def)
  from gateway_run_conserves [OF this r] have n: "gt_next_request_id g1 = 1000 + length (send_times es)"
    by (simp add: new_gateway_def send_times_length)
  note ih = snoc.IH [OF r]
  from dated_step [OF conjunct1 [OF ih] n s(1)] s(2) conjunct2 [OF ih] show ?case
    by (auto simp: list_all_iff intro: caused_mono)
qed

text \<open>
  C37. Over any events on the strand, a request gets only an object that TDLib sent with its own id, the client-side timeout after a sweep that found it
  thirty seconds old or older, or the cancellation of the stop. Right after a sweep no request in flight is that old.
\<close>
theorem gateway_results_caused:
  "case gateway_run es new_gateway of (g, cs, hs) \<Rightarrow>
     list_all (caused es) cs \<and> list_all (\<lambda>(i, p). now - ph_created_at p < kDefaultRequestTtl) (gt_pending (fst (evict_stale now g)))"
proof -
  obtain g cs hs where r: "gateway_run es new_gateway = (g, cs, hs)" by (metis prod_cases3)
  from gateway_run_caused [OF r] have "list_all (caused es) cs" by (auto simp: list_all_iff)
  with r show ?thesis by (auto simp: evict_stale_def Let_def list_all_iff)
qed

subsection \<open>The router\<close>

text \<open>Each kind of update is spawned on the handler that was registered last for it, whatever was registered for the others and in which order.\<close>

lemma rewire_last_message_handler:
  "rb_on_new_message (rewire_gateway spawn (fold register_update xs r)) =
     fold (\<lambda>x h. case x of On_New_Message f \<Rightarrow> Some (\<lambda>c u m t. spawn (f c u m t) (completion_log ''new-message'')) | _ \<Rightarrow> h) xs
       (rb_on_new_message (rewire_gateway spawn r))"
proof (induction xs arbitrary: r)
  case (Cons x xs)
  then show ?case by (cases x) (simp_all add: rewire_gateway_def)
qed simp

subsection \<open>Authentication\<close>

fun terminal :: "auth_event \<Rightarrow> bool" where
  "terminal (AE_State s) = (s \<in> set [AS_Ready, AS_Closed, AS_LoggingOut, AS_Closing])"
| "terminal _ = False"

text \<open>What the states that were seen amount to.\<close>

definition verdict :: "auth_event list \<Rightarrow> unit res" where
  "verdict es =
     (case filter terminal es of
        [] \<Rightarrow> Inl (mk_error EC_Internal ''authentication_flow: timer fired before completion'')
      | ts \<Rightarrow>
          if last ts = AE_State AS_Ready then Inr ()
          else Inl (mk_error EC_Unauthenticated ''authentication_flow: terminated before reaching Ready state''))"

lemma auth_run_flags:
  "auth_run es a \<Longrightarrow>
    (af_completed a \<longleftrightarrow> filter terminal es \<noteq> []) \<and> (af_ready a \<longleftrightarrow> filter terminal es \<noteq> [] \<and> last (filter terminal es) = AE_State AS_Ready)"
proof (induction rule: auth_run.induct)
  case (Step es a e a')
  from Step.hyps(2) Step.IH show ?case
    by cases (auto simp: auth_listener_def wake_flow_def split: auth_state.splits if_splits)
qed (simp add: auth_flow_start_def)

lemma auth_result_verdict: "auth_run es a \<Longrightarrow> auth_result a = verdict es"
  using auth_run_flags [of es a] by (auto simp: auth_result_def verdict_def split: list.splits)

text \<open>
  When the authentication returns, its result is decided by the terminal states seen before it resumed: success exactly when the last of them was ready. It
  resumes only after a terminal state or a cancellation, so a rejected token alone does not end it.
\<close>
theorem auth_result_explained:
  assumes "auth_run es a" "af_phase a = AP_Returned r"
  shows "\<exists>before after. es = before @ AE_Resume # after \<and> r = verdict before \<and> (filter terminal before \<noteq> [] \<or> AE_Cancel \<in> set before)"
proof -
  have "(af_phase a = AP_Woken \<longrightarrow> filter terminal es \<noteq> [] \<or> AE_Cancel \<in> set es) \<and>
    (\<forall>r. af_phase a = AP_Returned r \<longrightarrow>
      (\<exists>before after. es = before @ AE_Resume # after \<and> r = verdict before \<and> (filter terminal before \<noteq> [] \<or> AE_Cancel \<in> set before)))"
    using assms(1)
  proof (induction rule: auth_run.induct)
    case (Step es a e a')
    from Step.hyps(2) show ?case
    proof cases
      case (Notified s)
      have same: "af_phase a' = af_phase a \<or> af_phase a' = AP_Woken \<and> terminal e"
        using Notified by (auto simp: auth_listener_def wake_flow_def split: auth_state.splits)
      have ext: "\<exists>before after. es @ [e] = before @ AE_Resume # after \<and> Q before" if "\<exists>before after. es = before @ AE_Resume # after \<and> Q before" for Q
        using that by force
      from same show ?thesis
      proof
        assume "af_phase a' = af_phase a"
        then show ?thesis
        proof (intro conjI impI allI)
          fix r assume "af_phase a' = AP_Returned r"
          with \<open>af_phase a' = af_phase a\<close> Step.IH
          show "\<exists>before after. es @ [e] = before @ AE_Resume # after \<and> r = verdict before \<and> (filter terminal before \<noteq> [] \<or> AE_Cancel \<in> set before)"
            by (intro ext) simp
        qed (use Step.IH in auto)
      next
        assume "af_phase a' = AP_Woken \<and> terminal e"
        then show ?thesis by auto
      qed
    next
      case Resume
      with Step.IH auth_result_verdict [OF Step.hyps(1)] show ?thesis by auto
    qed (use Step.IH in auto)
  qed (simp add: auth_flow_start_def)
  with assms(2) show ?thesis by blast
qed

lemma auth_run_steps:
  assumes "auth_step e1 auth_flow_start a1" "auth_step e2 a1 a2" "auth_step e3 a2 a3"
  shows "auth_run [e1, e2, e3] a3"
  using auth_run.Step [OF auth_run.Step [OF auth_run.Step [OF auth_run.Start assms(1)] assms(2)] assms(3)] by simp

definition signed_in :: auth_flow where
  "signed_in = \<lparr>af_phase = AP_Returned (Inr ()), af_completed = True, af_ready = True, af_requests = [AR_ApplyOptions]\<rparr>"

theorem auth_result_explained_witness:
  "\<exists>before after. [AE_Wait, AE_State AS_Ready, AE_Resume] = before @ AE_Resume # after \<and> Inr () = verdict before \<and>
    (filter terminal before \<noteq> [] \<or> AE_Cancel \<in> set before)"
proof (rule auth_result_explained)
  show "auth_run [AE_Wait, AE_State AS_Ready, AE_Resume] signed_in"
  proof (rule auth_run_steps)
    show "auth_step AE_Wait auth_flow_start (auth_flow_start\<lparr>af_phase := AP_Waiting\<rparr>)"
      by (rule Begin_Wait) (simp add: auth_flow_start_def)
    show "auth_step (AE_State AS_Ready) (auth_flow_start\<lparr>af_phase := AP_Waiting\<rparr>) (signed_in\<lparr>af_phase := AP_Woken\<rparr>)"
      using Notified [of AS_Ready "auth_flow_start\<lparr>af_phase := AP_Waiting\<rparr>"] by (simp add: auth_listener_def wake_flow_def auth_flow_start_def signed_in_def)
    show "auth_step AE_Resume (signed_in\<lparr>af_phase := AP_Woken\<rparr>) signed_in"
      using Resume [of "signed_in\<lparr>af_phase := AP_Woken\<rparr>"] by (simp add: signed_in_def auth_result_def)
  qed
qed (simp add: signed_in_def)

text \<open>
  The listener is installed on the strand while \<open>authenticate\<close> goes on to wait on another thread: a ready state that is seen in between wakes nobody, and the flow waits although
  it is complete.
\<close>
theorem auth_ready_lost:
  "\<exists>a. auth_run [AE_State AS_Ready, AE_Wait] a \<and> af_ready a \<and> (\<forall>a'. \<not> auth_step AE_Resume a a')"
proof (intro exI conjI)
  let ?a = "auth_listener AS_Ready auth_flow_start"
  have "auth_run ([] @ [AE_State AS_Ready]) ?a" by (rule auth_run.Step [OF auth_run.Start Notified])
  then have "auth_run (([] @ [AE_State AS_Ready]) @ [AE_Wait]) (?a\<lparr>af_phase := AP_Waiting\<rparr>)"
    by (rule auth_run.Step) (rule Begin_Wait, simp add: auth_listener_def wake_flow_def auth_flow_start_def)
  then show "auth_run [AE_State AS_Ready, AE_Wait] (?a\<lparr>af_phase := AP_Waiting\<rparr>)" by simp
qed (auto simp: auth_listener_def wake_flow_def auth_flow_start_def elim: auth_step.cases)

text \<open>A timeout of the gateway has the error code of Telegram's own errors.\<close>

theorem gateway_timeout_is_telegram_error:
  "response_to_void (Some timed_out) operation = Inl (mk_error EC_TelegramApi (''telegram '' @ operation @ '': code=408 message=cmlb: request timed out client-side''))"
proof -
  have "int_to_string 408 = ''408''" by code_simp
  then show ?thesis by (simp add: response_to_void_def timed_out_def td_error_to_app_error_def)
qed

end
