(* ===== verification/Connection_Pool.thy ===== *)
theory Connection_Pool
  imports Configuration Domain "HOL-Library.Multiset"
begin

text \<open>
  The connection pool, \<open>src/infrastructure/persistence/sqlite_connection_pool.cpp\<close>: opening connections, and the channel of free slots with the handles that hold them. The
  channel hands a slot to the caller that has waited longest, or keeps it; \<open>granted\<close> are the slots that are on their way to a caller.
\<close>

subsection \<open>Opening\<close>

definition dir_of :: "string \<Rightarrow> string" where
  "dir_of p =
     (let d = rev (dropWhile (\<lambda>c. c = CHR ''/'') (dropWhile (\<lambda>c. c \<noteq> CHR ''/'') (rev p))) in
      if d = [] \<and> p \<noteq> [] \<and> hd p = CHR ''/'' then ''/'' else d)"

definition open_statements :: "database_config \<Rightarrow> string list" where
  "open_statements cfg =
     (if dc_wal_mode cfg then [''PRAGMA journal_mode = WAL;''] else []) @
     [''PRAGMA synchronous = NORMAL;'', ''PRAGMA busy_timeout = '' @ int_to_string (dc_busy_timeout cfg) @ '';'', ''PRAGMA foreign_keys = ON;'',
      ''PRAGMA temp_store = MEMORY;'', ''PRAGMA mmap_size = 268435456;'', ''PRAGMA cache_size = -65536;'', ''PRAGMA wal_autocheckpoint = 1000;'', ''PRAGMA optimize;'']"

text \<open>A left value is the exception that leaves the constructor.\<close>

fun run_all :: "(string \<Rightarrow> string option) \<Rightarrow> string list \<Rightarrow> string + unit" where
  "run_all exec [] = Inr ()"
| "run_all exec (q # qs) = (case exec q of Some what \<Rightarrow> Inl what | None \<Rightarrow> run_all exec qs)"

definition open_one :: "(string \<Rightarrow> string option) \<Rightarrow> string option \<Rightarrow> (string \<Rightarrow> string option) \<Rightarrow> database_config \<Rightarrow> string + unit" where
  "open_one create_directories open_error exec cfg =
     (case (if dir_of (dc_path cfg) \<noteq> [] then create_directories (dir_of (dc_path cfg)) else None) of
        Some what \<Rightarrow> Inl (''Failed to create SQLite parent directory: '' @ dir_of (dc_path cfg) @ '': '' @ what)
      | None \<Rightarrow> (case open_error of Some what \<Rightarrow> Inl what | None \<Rightarrow> run_all exec (open_statements cfg)))"

subsection \<open>Slots\<close>

record slot_pool =
  sl_capacity :: nat
  sl_free :: "nat list"
  sl_waiting :: "nat list"
  sl_granted :: "(nat \<times> nat) list"
  sl_held :: "(nat \<times> nat) list"

text \<open>\<open>try_send\<close> of the channel: to a waiting receiver, else into the buffer.\<close>

definition try_send :: "nat \<Rightarrow> slot_pool \<Rightarrow> bool \<times> slot_pool" where
  "try_send slot p =
     (case sl_waiting p of
        c # cs \<Rightarrow> (True, p\<lparr>sl_waiting := cs, sl_granted := sl_granted p @ [(c, slot)]\<rparr>)
      | [] \<Rightarrow> if length (sl_free p) < sl_capacity p then (True, p\<lparr>sl_free := sl_free p @ [slot]\<rparr>) else (False, p))"

fun prime :: "nat list \<Rightarrow> slot_pool \<Rightarrow> slot_pool option" where
  "prime [] p = Some p"
| "prime (i # is) p = (case try_send i p of (True, p') \<Rightarrow> prime is p' | (False, _) \<Rightarrow> None)"

definition new_slot_pool :: "(nat \<Rightarrow> string + unit) \<Rightarrow> nat \<Rightarrow> string + slot_pool" where
  "new_slot_pool open_nth pool_size =
     (if pool_size = 0 then Inl ''SqliteConnectionPool: pool_size must be >= 1''
      else (case List.find (\<lambda>i. isl (open_nth i)) [0..<pool_size] of
         Some i \<Rightarrow> Inl (projl (open_nth i))
       | None \<Rightarrow>
           (case prime [0..<pool_size] \<lparr>sl_capacity = pool_size, sl_free = [], sl_waiting = [], sl_granted = [], sl_held = []\<rparr> of
              Some p \<Rightarrow> Inr p
            | None \<Rightarrow> Inl ''SqliteConnectionPool: failed to prime free-slot channel: '')))"

text \<open>\<open>acquire\<close> up to its suspension, its resumption with a slot, and a wait that is cancelled.\<close>

definition begin_acquire :: "nat \<Rightarrow> slot_pool \<Rightarrow> slot_pool" where
  "begin_acquire c p =
     (case sl_free p of
        slot # rest \<Rightarrow> p\<lparr>sl_free := rest, sl_granted := sl_granted p @ [(c, slot)]\<rparr>
      | [] \<Rightarrow> p\<lparr>sl_waiting := sl_waiting p @ [c]\<rparr>)"

definition resume_acquire :: "nat \<Rightarrow> slot_pool \<Rightarrow> nat option \<times> slot_pool" where
  "resume_acquire c p =
     (case map_of (sl_granted p) c of
        None \<Rightarrow> (None, p)
      | Some slot \<Rightarrow> (Some slot, p\<lparr>sl_granted := remove1 (c, slot) (sl_granted p), sl_held := sl_held p @ [(c, slot)]\<rparr>))"

definition acquire_failed :: "string \<Rightarrow> app_error" where
  "acquire_failed what = mk_error EC_ResourceExhausted (''SqliteConnectionPool::acquire failed: '' @ what)"

definition cancel_acquire :: "nat \<Rightarrow> slot_pool \<Rightarrow> slot_pool" where
  "cancel_acquire c p = p\<lparr>sl_waiting := remove1 c (sl_waiting p)\<rparr>"

definition return_slot :: "nat \<Rightarrow> slot_pool \<Rightarrow> slot_pool" where
  "return_slot slot p = snd (try_send slot p)"

text \<open>\<open>release_\<close>: a handle that was moved from, or already released, holds nothing.\<close>

definition release_handle :: "nat \<Rightarrow> slot_pool \<Rightarrow> slot_pool" where
  "release_handle c p =
     (case map_of (sl_held p) c of
        None \<Rightarrow> p
      | Some slot \<Rightarrow> return_slot slot (p\<lparr>sl_held := remove1 (c, slot) (sl_held p)\<rparr>))"

datatype pool_call = PC_Acquire nat | PC_Resume nat | PC_Cancel nat | PC_Release nat

fun pool_call_step :: "pool_call \<Rightarrow> slot_pool \<Rightarrow> slot_pool" where
  "pool_call_step (PC_Acquire c) p = begin_acquire c p"
| "pool_call_step (PC_Resume c) p = snd (resume_acquire c p)"
| "pool_call_step (PC_Cancel c) p = cancel_acquire c p"
| "pool_call_step (PC_Release c) p = release_handle c p"

text \<open>\<open>ping\<close> on an acquired connection; the query gives a value or throws, a \<open>sqlite_exception\<close> or another exception.\<close>

datatype query_outcome = QO_Value int | QO_Sqlite_Exception string | QO_Exception string

definition ping_result :: "app_error + query_outcome \<Rightarrow> unit res" where
  "ping_result r =
     (case r of
        Inl e \<Rightarrow> Inl e
      | Inr (QO_Value v) \<Rightarrow> if v \<noteq> 1 then Inl (mk_error EC_Database (''ping: SELECT 1 returned '' @ int_to_string v)) else Inr ()
      | Inr (QO_Sqlite_Exception what) \<Rightarrow> Inl (mk_error EC_Database (''ping failed: '' @ what))
      | Inr (QO_Exception what) \<Rightarrow> Inl (mk_error EC_Database (''ping threw: '' @ what)))"

subsection \<open>Every slot is somewhere, once\<close>

definition slots :: "slot_pool \<Rightarrow> nat list" where
  "slots p = sl_free p @ map snd (sl_granted p) @ map snd (sl_held p)"

definition slots_kept :: "nat \<Rightarrow> slot_pool \<Rightarrow> bool" where
  "slots_kept n p \<longleftrightarrow> sl_capacity p = n \<and> mset (slots p) = mset [0..<n] \<and> (sl_free p = [] \<or> sl_waiting p = [])"

lemma taken_snd: "(c, x) \<in> set xs \<Longrightarrow> image_mset snd (mset xs) = add_mset x (image_mset snd (mset xs - {#(c, x)#}))"
  by (metis image_mset_add_mset insert_DiffM set_mset_mset snd_conv)

text \<open>Sending back a slot that is missing cannot fail.\<close>

lemma return_slot_kept:
  assumes "sl_capacity p = n" "add_mset slot (mset (slots p)) = mset [0..<n]" "sl_free p = [] \<or> sl_waiting p = []"
  shows "slots_kept n (return_slot slot p)"
proof -
  have "Suc (length (slots p)) = n" using arg_cong [OF assms(2), of size] by simp
  then have "length (sl_free p) < n" by (simp add: slots_def)
  with assms show ?thesis by (auto simp: return_slot_def try_send_def slots_kept_def slots_def split: list.splits)
qed

lemma pool_call_step_kept:
  assumes "slots_kept n p"
  shows "slots_kept n (pool_call_step e p)"
proof (cases e)
  case (PC_Acquire c)
  with assms show ?thesis by (auto simp: begin_acquire_def slots_kept_def slots_def split: list.splits)
next
  case (PC_Resume c)
  show ?thesis
  proof (cases "map_of (sl_granted p) c")
    case (Some slot)
    then have "(c, slot) \<in> set (sl_granted p)" by (rule map_of_SomeD)
    from taken_snd [OF this] Some PC_Resume assms show ?thesis by (auto simp: resume_acquire_def slots_kept_def slots_def)
  qed (use PC_Resume assms in \<open>simp add: resume_acquire_def\<close>)
next
  case (PC_Cancel c)
  with assms show ?thesis by (auto simp: cancel_acquire_def slots_kept_def slots_def)
next
  case (PC_Release c)
  show ?thesis
  proof (cases "map_of (sl_held p) c")
    case (Some slot)
    then have "(c, slot) \<in> set (sl_held p)" by (rule map_of_SomeD)
    note held = taken_snd [OF this]
    have "slots_kept n (return_slot slot (p\<lparr>sl_held := remove1 (c, slot) (sl_held p)\<rparr>))"
      by (rule return_slot_kept) (use assms held in \<open>auto simp: slots_kept_def slots_def\<close>)
    with Some PC_Release show ?thesis by (simp add: release_handle_def)
  qed (use PC_Release assms in \<open>simp add: release_handle_def\<close>)
qed

lemma prime_kept:
  "\<lbrakk>sl_waiting p = []; length (sl_free p) + length is \<le> sl_capacity p\<rbrakk> \<Longrightarrow> prime is p = Some (p\<lparr>sl_free := sl_free p @ is\<rparr>)"
  by (induction "is" arbitrary: p) (simp_all add: try_send_def)



end
